(* ===== verification/Prelude.thy ===== *)
theory Prelude imports Main "HOL-Library.AList" begin

text \<open>
  Shared vocabulary of the development: the error monad on sums (Python exceptions are the
  left summand), association-list dictionaries, table scans, and the collections of rewrite
  rules the component theories extend.
\<close>

named_theorems monad_simps
named_theorems table_simps

section \<open>Computations that may raise\<close>

fun bindE :: "'e + 'a \<Rightarrow> ('a \<Rightarrow> 'e + 'b) \<Rightarrow> 'e + 'b" where
  "bindE (Inl e) f = Inl e"
| "bindE (Inr v) f = f v"

definition ensureE :: "bool \<Rightarrow> 'e \<Rightarrow> 'e + unit" where
  "ensureE c e = (if c then Inr () else Inl e)"

fun foldE :: "('s \<Rightarrow> 'a \<Rightarrow> 'e + 's) \<Rightarrow> 's \<Rightarrow> 'a list \<Rightarrow> 'e + 's" where
  "foldE f s [] = Inr s"
| "foldE f s (x # xs) = bindE (f s x) (\<lambda>s'. foldE f s' xs)"

definition checkE :: "('a \<Rightarrow> 'e + unit) \<Rightarrow> 'a list \<Rightarrow> 'e + unit" where
  "checkE f xs = foldE (\<lambda>_ x. f x) () xs"

fun mapE :: "('a \<Rightarrow> 'e + 'b) \<Rightarrow> 'a list \<Rightarrow> 'e + 'b list" where
  "mapE f [] = Inr []"
| "mapE f (x # xs) = bindE (f x) (\<lambda>y. bindE (mapE f xs) (\<lambda>ys. Inr (y # ys)))"

lemma bindE_Inr_iff [monad_simps]:
  "bindE m f = Inr y \<longleftrightarrow> (\<exists>x. m = Inr x \<and> f x = Inr y)"
  by (cases m) auto

lemma bindE_Inl_iff [monad_simps]:
  "bindE m f = Inl e \<longleftrightarrow> m = Inl e \<or> (\<exists>x. m = Inr x \<and> f x = Inl e)"
  by (cases m) auto

lemma bindE_cong [fundef_cong]:
  "m = n \<Longrightarrow> (\<And>v. n = Inr v \<Longrightarrow> f v = g v) \<Longrightarrow> bindE m f = bindE n g"
  by (cases n) auto

lemma bindE_assoc: "bindE (bindE m f) g = bindE m (\<lambda>x. bindE (f x) g)"
  by (cases m) simp_all

lemma ensureE_Inr_iff [monad_simps]: "ensureE c e = Inr u \<longleftrightarrow> c"
  by (simp add: ensureE_def)

lemma ensureE_Inl_iff [monad_simps]: "ensureE c e = Inl e' \<longleftrightarrow> \<not> c \<and> e' = e"
  by (auto simp add: ensureE_def)

lemma ensureE_simps [simp]: "ensureE True e = Inr ()" "ensureE False e = Inl e"
  by (simp_all add: ensureE_def)

lemma checkE_simps [simp]:
  "checkE f [] = Inr ()"
  "checkE f (x # xs) = bindE (f x) (\<lambda>_. checkE f xs)"
  by (simp_all add: checkE_def)

lemma checkE_Inr_iff [monad_simps]:
  "checkE f xs = Inr () \<longleftrightarrow> (\<forall>x\<in>set xs. f x = Inr ())"
  by (induction xs) (auto simp: bindE_Inr_iff)

lemma checkE_Inl_mem: "checkE f xs = Inl e \<Longrightarrow> \<exists>x\<in>set xs. f x = Inl e"
  by (induction xs) (auto simp: bindE_Inl_iff)

lemma length_mapE: "mapE f xs = Inr ys \<Longrightarrow> length ys = length xs"
  by (induction xs arbitrary: ys) (auto simp: bindE_Inr_iff)

text \<open>An invariant of the body of a fallible loop is an invariant of the loop.\<close>

lemma foldE_invariant:
  assumes "foldE f s xs = Inr t" "P s"
    and "\<And>s x s'. P s \<Longrightarrow> x \<in> set xs \<Longrightarrow> f s x = Inr s' \<Longrightarrow> P s'"
  shows "P t"
  using assms
proof (induction xs arbitrary: s)
  case (Cons x xs)
  from Cons.prems(1) obtain s' where s': "f s x = Inr s'" "foldE f s' xs = Inr t"
    by (auto simp: bindE_Inr_iff)
  show ?case
    using Cons.IH[OF s'(2)] Cons.prems(2,3) s'(1) by (meson list.set_intros)
qed simp

section \<open>Dictionaries with an insertion order\<close>

definition has_key :: "('k \<times> 'v) list \<Rightarrow> 'k \<Rightarrow> bool" where
  "has_key d k = list_ex (\<lambda>p. fst p = k) d"

definition put :: "'k \<Rightarrow> 'v \<Rightarrow> ('k \<times> 'v) list \<Rightarrow> ('k \<times> 'v) list" where
  "put k v d = AList.update k v d"

definition del :: "'k \<Rightarrow> ('k \<times> 'v) list \<Rightarrow> ('k \<times> 'v) list" where
  "del k d = filter (\<lambda>p. fst p \<noteq> k) d"

lemma map_of_put [simp]: "map_of (put k v d) = (map_of d)(k \<mapsto> v)"
  by (simp add: put_def update_conv')

lemma map_of_del [simp]: "map_of (del k d) = (map_of d)(k := None)"
  by (induction d) (auto simp: del_def fun_eq_iff)

lemma has_key_iff [simp]: "has_key d k \<longleftrightarrow> map_of d k \<noteq> None"
  by (auto simp: has_key_def list_ex_iff map_of_eq_None_iff)

lemma distinct_put: "distinct (map fst d) \<Longrightarrow> distinct (map fst (put k v d))"
  by (simp add: put_def distinct_update)

section \<open>Tables: lists of rows\<close>

text \<open>
  A table is the list of its rows in primary-key (insertion) order: \<open>first_where\<close> is
  \<open>query.filter(..).first()\<close>, \<open>update_where\<close> and \<open>delete_where\<close> the bulk statements.
\<close>

definition first_where :: "('r \<Rightarrow> bool) \<Rightarrow> 'r list \<Rightarrow> 'r option" where
  "first_where p rs = List.find p rs"

definition update_where :: "('r \<Rightarrow> bool) \<Rightarrow> ('r \<Rightarrow> 'r) \<Rightarrow> 'r list \<Rightarrow> 'r list" where
  "update_where p f rs = map (\<lambda>r. if p r then f r else r) rs"

definition delete_where :: "('r \<Rightarrow> bool) \<Rightarrow> 'r list \<Rightarrow> 'r list" where
  "delete_where p rs = filter (\<lambda>r. \<not> p r) rs"

definition fresh_id :: "('r \<Rightarrow> int) \<Rightarrow> 'r list \<Rightarrow> int" where
  "fresh_id key rs = 1 + fold max (map key rs) 0"

lemma first_where_None [table_simps]: "first_where p rs = None \<longleftrightarrow> (\<forall>r\<in>set rs. \<not> p r)"
  by (auto simp add: first_where_def find_None_iff)

lemma first_where_SomeD: "first_where p rs = Some r \<Longrightarrow> r \<in> set rs \<and> p r"
  by (auto simp: first_where_def find_Some_iff)

lemma first_where_simps [simp]:
  "first_where p [] = None"
  "first_where p (r # rs) = (if p r then Some r else first_where p rs)"
  by (simp_all add: first_where_def)

lemma first_where_unique:
  assumes "distinct (map key rs)" "r \<in> set rs"
  shows "first_where (\<lambda>x. key x = key r) rs = Some r"
  using assms by (induction rs) (auto simp: rev_image_eqI)

lemma set_update_where [table_simps]:
  "set (update_where p f rs) = {r \<in> set rs. \<not> p r} \<union> f ` {r \<in> set rs. p r}"
  by (auto simp: update_where_def)

lemma set_delete_where [table_simps]: "set (delete_where p rs) = {r \<in> set rs. \<not> p r}"
  by (auto simp: delete_where_def)

lemma map_update_where:
  "(\<And>r. p r \<Longrightarrow> key (f r) = key r) \<Longrightarrow> map key (update_where p f rs) = map key rs"
  by (auto simp: update_where_def)

lemma length_update_where [simp]: "length (update_where p f rs) = length rs"
  by (simp add: update_where_def)

lemma distinct_delete_where:
  "distinct (map key rs) \<Longrightarrow> distinct (map key (delete_where p rs))"
  by (simp add: delete_where_def distinct_map_filter)

lemma fold_max_ge: "(a::int) \<le> fold max xs a"
  by (induction xs arbitrary: a) (auto intro: order_trans[OF max.cobounded2])

lemma fold_max_mem: "x \<in> set xs \<Longrightarrow> (x::int) \<le> fold max xs a"
proof (induction xs arbitrary: a)
  case (Cons y ys)
  then show ?case using fold_max_ge[of "max y a" ys] by (cases "x = y") auto
qed simp

lemma fresh_id_gt: "r \<in> set rs \<Longrightarrow> key r < fresh_id key rs"
  using fold_max_mem[of "key r" "map key rs" 0] by (simp add: fresh_id_def)

lemma fresh_id_notin: "fresh_id key rs \<notin> key ` set rs"
  using fresh_id_gt[of _ rs key] by (force simp: image_iff)

lemma fresh_id_pos: "0 < fresh_id key rs"
  using fold_max_ge[of 0 "map key rs"] by (simp add: fresh_id_def)

lemma set_map_filter: "set (List.map_filter f xs) = {y. \<exists>x\<in>set xs. f x = Some y}"
  by (force simp: List.map_filter_def image_iff)

end
