(* ===== verification/PyVal.thy ===== *)
theory PyVal imports Complex_Main Prelude begin

text \<open>
  Python values as the handlers see them after JSON or form decoding, the exceptions the
  code raises, and the string primitives it uses.  A \<open>string\<close> is a sequence of
  code points below 256 (Latin-1), so \<open>isspace\<close>, \<open>lower\<close>, \<open>isdigit\<close> and
  \<open>isdecimal\<close> below are CPython's own answers on those code points.
\<close>

section \<open>Values\<close>

datatype pyval =
    PNone
  | PBool bool
  | PInt int
  | PFloat rat
  | PStr string
  | PList "pyval list"
  | PDict "(string \<times> pyval) list"

type_synonym dict = "(string \<times> pyval) list"

fun truthy :: "pyval \<Rightarrow> bool" where
  "truthy PNone = False"
| "truthy (PBool b) = b"
| "truthy (PInt i) = (i \<noteq> 0)"
| "truthy (PFloat q) = (q \<noteq> 0)"
| "truthy (PStr s) = (s \<noteq> [])"
| "truthy (PList l) = (l \<noteq> [])"
| "truthy (PDict d) = (d \<noteq> [])"

fun numeric :: "pyval \<Rightarrow> rat option" where
  "numeric (PBool b) = Some (if b then 1 else 0)"
| "numeric (PInt i) = Some (of_int i)"
| "numeric (PFloat q) = Some q"
| "numeric _ = None"

text \<open>\<open>==\<close> on scalars: booleans, integers and floats compare by value.\<close>

definition py_eq :: "pyval \<Rightarrow> pyval \<Rightarrow> bool" where
  "py_eq a b = (case (numeric a, numeric b) of
      (Some x, Some y) \<Rightarrow> x = y
    | (None, None) \<Rightarrow> a = b
    | _ \<Rightarrow> False)"

definition dget :: "dict \<Rightarrow> string \<Rightarrow> pyval" where
  "dget d k = (case map_of d k of None \<Rightarrow> PNone | Some v \<Rightarrow> v)"

definition dget_default :: "dict \<Rightarrow> string \<Rightarrow> pyval \<Rightarrow> pyval" where
  "dget_default d k dflt = (case map_of d k of None \<Rightarrow> dflt | Some v \<Rightarrow> v)"

fun of_opt_int :: "int option \<Rightarrow> pyval" where
  "of_opt_int None = PNone"
| "of_opt_int (Some i) = PInt i"

fun of_opt_str :: "string option \<Rightarrow> pyval" where
  "of_opt_str None = PNone"
| "of_opt_str (Some s) = PStr s"

fun of_opt_bool :: "bool option \<Rightarrow> pyval" where
  "of_opt_bool None = PNone"
| "of_opt_bool (Some b) = PBool b"

fun is_str :: "pyval \<Rightarrow> bool" where
  "is_str (PStr _) = True"
| "is_str _ = False"

lemma dget_put [simp]: "dget (put k v d) k' = (if k' = k then v else dget d k')"
  by (simp add: dget_def)

lemma dget_del [simp]: "dget (del k d) k' = (if k' = k then PNone else dget d k')"
  by (simp add: dget_def)

lemma py_eq_refl [simp]: "py_eq v v"
  by (simp add: py_eq_def split: option.splits)

lemma py_eq_str [simp]: "py_eq v (PStr s) \<longleftrightarrow> v = PStr s"
  by (cases v) (auto simp: py_eq_def)

lemma py_eq_int_int [simp]: "py_eq (PInt a) (PInt b) \<longleftrightarrow> a = b"
  by (simp add: py_eq_def)

section \<open>Exceptions\<close>

datatype py_exc =
    ScoringValidationError string string
  | ValidationError string "string list"
  | ValueError string
  | TypeError
  | AttributeError
  | KeyError
  | IndexError
  | ZeroDivisionError
  | RuntimeError string
  | FlagException string
  | IntegrityError
  | QuerySpecError string
  | TeamTokenInvalidException
  | TeamTokenExpiredException
  | UserNotFoundException
  | UserTokenExpiredException
  | HTTPRedirect string
  | HTTPAbort nat

section \<open>Characters and strings\<close>

definition py_ord :: "char \<Rightarrow> nat" where
  "py_ord c = of_char c"

definition py_isspace :: "char \<Rightarrow> bool" where
  "py_isspace c = (let n = py_ord c in
     (9 \<le> n \<and> n \<le> 13) \<or> (28 \<le> n \<and> n \<le> 32) \<or> n = 133 \<or> n = 160)"

definition py_strip :: "string \<Rightarrow> string" where
  "py_strip s = rev (dropWhile py_isspace (rev (dropWhile py_isspace s)))"

definition py_lower_char :: "char \<Rightarrow> char" where
  "py_lower_char c = (let n = py_ord c in
     if (65 \<le> n \<and> n \<le> 90) \<or> (192 \<le> n \<and> n \<le> 222 \<and> n \<noteq> 215)
     then char_of (n + 32) else c)"

definition py_lower :: "string \<Rightarrow> string" where
  "py_lower s = map py_lower_char s"

definition dec_char :: "char \<Rightarrow> bool" where
  "dec_char c = (48 \<le> py_ord c \<and> py_ord c \<le> 57)"

definition py_isdecimal :: "string \<Rightarrow> bool" where
  "py_isdecimal s = (s \<noteq> [] \<and> list_all dec_char s)"

text \<open>\<open>isdigit\<close> also accepts the superscripts two, three and one.\<close>

definition py_isdigit :: "string \<Rightarrow> bool" where
  "py_isdigit s = (s \<noteq> [] \<and> list_all (\<lambda>c. dec_char c \<or> py_ord c \<in> {178, 179, 185}) s)"

definition digit_val :: "char \<Rightarrow> int" where
  "digit_val c = int (py_ord c) - 48"

definition digits_value :: "string \<Rightarrow> int" where
  "digits_value s = foldl (\<lambda>a c. 10 * a + digit_val c) 0 s"

text \<open>The digit part of an \<open>int()\<close> literal: digits with single underscores between them.\<close>

fun int_body :: "string \<Rightarrow> bool" where
  "int_body [] = False"
| "int_body [c] = dec_char c"
| "int_body (c # d # r) = (dec_char c \<and> (if d = CHR ''_'' then int_body r else int_body (d # r)))"

fun split_sign :: "string \<Rightarrow> bool \<times> string" where
  "split_sign [] = (False, [])"
| "split_sign (c # r) =
     (if c = CHR ''-'' then (True, r) else if c = CHR ''+'' then (False, r) else (False, c # r))"

text \<open>CPython 3.11 refuses to convert a literal of more than 4300 digits.\<close>

definition max_int_digits :: nat where
  "max_int_digits = 4300"

definition py_int_str :: "string \<Rightarrow> int option" where
  "py_int_str s = (let (neg, b) = split_sign (py_strip s); ds = filter dec_char b in
     if int_body b \<and> length ds \<le> max_int_digits
     then Some (if neg then - digits_value ds else digits_value ds) else None)"

text \<open>\<open>int(v)\<close>: floats truncate towards zero; containers and \<open>None\<close> raise \<open>TypeError\<close>.\<close>

fun py_int :: "pyval \<Rightarrow> py_exc + int" where
  "py_int (PInt i) = Inr i"
| "py_int (PBool b) = Inr (if b then 1 else 0)"
| "py_int (PFloat q) = Inr (if 0 \<le> q then \<lfloor>q\<rfloor> else \<lceil>q\<rceil>)"
| "py_int (PStr s) = (case py_int_str s of None \<Rightarrow> Inl (ValueError ''invalid literal for int()'') | Some i \<Rightarrow> Inr i)"
| "py_int _ = Inl TypeError"

function show_nat :: "nat \<Rightarrow> string" where
  "show_nat n = (if n < 10 then [char_of (48 + n)] else show_nat (n div 10) @ [char_of (48 + n mod 10)])"
  by pat_completeness auto
termination
  by (relation "measure id") auto

declare show_nat.simps [simp del]

definition show_int :: "int \<Rightarrow> string" where
  "show_int i = (if i < 0 then CHR ''-'' # show_nat (nat (- i)) else show_nat (nat i))"

text \<open>\<open>s.split(sep)\<close> for a one-character separator, and \<open>sep.join(xs)\<close>.\<close>

fun split_on :: "char \<Rightarrow> string \<Rightarrow> string list" where
  "split_on sep [] = [[]]"
| "split_on sep (c # r) =
     (if c = sep then [] # split_on sep r
      else case split_on sep r of [] \<Rightarrow> [[c]] | w # ws \<Rightarrow> (c # w) # ws)"

fun join_with :: "string \<Rightarrow> string list \<Rightarrow> string" where
  "join_with sep [] = []"
| "join_with sep [x] = x"
| "join_with sep (x # y # r) = x @ sep @ join_with sep (y # r)"

definition starts_with :: "string \<Rightarrow> string \<Rightarrow> bool" where
  "starts_with p s = (take (length p) s = p)"

section \<open>Facts about strings and numbers\<close>

lemma py_ord_char_of [simp]: "n < 256 \<Longrightarrow> py_ord (char_of n) = n"
  by (simp add: py_ord_def of_char_of)

lemma py_ord_bound: "py_ord c < 256"
  using of_char_of [of "of_char c :: nat"] by (simp add: py_ord_def)

lemma length_py_lower [simp]: "length (py_lower s) = length s"
  by (simp add: py_lower_def)

lemma dec_char_digit: "d < 10 \<Longrightarrow> dec_char (char_of (48 + d)) \<and> digit_val (char_of (48 + d)) = int d"
  by (simp add: dec_char_def digit_val_def)

lemma show_nat_decimal: "py_isdecimal (show_nat n)"
proof (induction n rule: show_nat.induct)
  case (1 n)
  show ?case
  proof (cases "n < 10")
    case True
    then show ?thesis by (subst show_nat.simps) (simp add: py_isdecimal_def dec_char_digit)
  next
    case False
    have "dec_char (char_of (48 + n mod 10))" by (simp add: dec_char_digit)
    with 1 False show ?thesis by (subst show_nat.simps) (simp add: py_isdecimal_def)
  qed
qed

lemma digits_value_snoc: "digits_value (s @ [c]) = 10 * digits_value s + digit_val c"
  by (simp add: digits_value_def)

lemma digits_value_show_nat: "digits_value (show_nat n) = int n"
proof (induction n rule: show_nat.induct)
  case (1 n)
  show ?case
  proof (cases "n < 10")
    case True
    then show ?thesis
      by (subst show_nat.simps) (simp add: digits_value_def dec_char_digit)
  next
    case False
    have "digit_val (char_of (48 + n mod 10)) = int (n mod 10)" by (simp add: dec_char_digit)
    then show ?thesis
      using 1 False by (subst show_nat.simps) (simp add: digits_value_snoc zmod_int zdiv_int)
  qed
qed

lemma digit_val_range: "dec_char c \<Longrightarrow> 0 \<le> digit_val c \<and> digit_val c \<le> 9"
  by (simp add: dec_char_def digit_val_def)

lemma foldl_digits_nonneg:
  "list_all dec_char s \<Longrightarrow> 0 \<le> a \<Longrightarrow> 0 \<le> foldl (\<lambda>a c. 10 * a + digit_val c) a s"
  by (induction s arbitrary: a) (auto simp: digit_val_range)

lemma digits_value_nonneg: "list_all dec_char s \<Longrightarrow> 0 \<le> digits_value s"
  by (simp add: digits_value_def foldl_digits_nonneg)

lemma decimal_int_body: "list_all dec_char s \<Longrightarrow> s \<noteq> [] \<Longrightarrow> int_body s"
proof (induction s rule: int_body.induct)
  case (3 c d r)
  have "\<not> dec_char (CHR ''_'')" by (simp add: dec_char_def py_ord_def)
  with 3 show ?case by auto
qed simp_all

lemma dec_char_not_space: "dec_char c \<Longrightarrow> \<not> py_isspace c"
  by (auto simp: dec_char_def py_isspace_def Let_def)

lemma strip_idle: "list_all (\<lambda>c. \<not> py_isspace c) s \<Longrightarrow> py_strip s = s"
proof -
  assume a: "list_all (\<lambda>c. \<not> py_isspace c) s"
  have d: "dropWhile py_isspace t = t" if "list_all (\<lambda>c. \<not> py_isspace c) t" for t
    using that by (cases t) auto
  show ?thesis using a by (simp add: py_strip_def d list_all_rev)
qed

lemma strip_decimal: "list_all dec_char s \<Longrightarrow> py_strip s = s"
  by (rule strip_idle) (auto simp: list_all_iff dec_char_not_space)

lemma split_sign_decimal: "py_isdecimal s \<Longrightarrow> split_sign s = (False, s)"
  by (cases s) (auto simp: py_isdecimal_def dec_char_def py_ord_def)

lemma filter_dec [simp]: "list_all dec_char s \<Longrightarrow> filter dec_char s = s"
  by (simp add: list_all_iff)

lemma py_int_str_decimal:
  "py_isdecimal s \<Longrightarrow> length s \<le> max_int_digits \<Longrightarrow> py_int_str s = Some (digits_value s)"
  by (simp add: py_int_str_def split_sign_decimal strip_decimal decimal_int_body py_isdecimal_def)

lemma py_int_str_show_nat:
  "length (show_nat n) \<le> max_int_digits \<Longrightarrow> py_int_str (show_nat n) = Some (int n)"
  by (simp add: py_int_str_decimal show_nat_decimal digits_value_show_nat)

lemma join_split: "join_with [sep] (split_on sep s) = s"
proof (induction s)
  case (Cons c r)
  have "split_on sep r \<noteq> []" by (cases r) (auto split: list.splits)
  then obtain w ws where w: "split_on sep r = w # ws" by (cases "split_on sep r") auto
  with Cons show ?case by (cases ws) auto
qed simp

lemma split_on_no_sep: "sep \<notin> set s \<Longrightarrow> split_on sep s = [s]"
  by (induction s) auto

lemma py_strip_subset: "set (py_strip s) \<subseteq> set s"
  by (auto simp: py_strip_def dest!: set_dropWhileD)

lemma length_py_strip: "length (py_strip s) \<le> length s"
  by (metis (no_types, lifting) py_strip_def length_dropWhile_le length_rev order_trans)

end
