(* ===== verification/Validators.thy ===== *)
theory Validators imports PyVal begin

text \<open>
  The input validators every writer shares: \<^verbatim>\<open>utils/validators/scoring.py\<close>,
  \<^verbatim>\<open>attempts.py\<close>, \<^verbatim>\<open>references.py\<close>, \<^verbatim>\<open>accounts.py\<close>,
  \<^verbatim>\<open>flags.py\<close>, \<^verbatim>\<open>uploads.py\<close>, \<^verbatim>\<open>model_types.py\<close> and the email
  and language checks of \<^verbatim>\<open>utils/validators/__init__.py\<close>.
\<close>

section \<open>scoring.py\<close>

definition MAX_SCORE :: int where
  "MAX_SCORE = 2147483647"

text \<open>\<open>re.fullmatch(r"[+-]?\\d+", s)\<close>\<close>

definition int_literal :: "string \<Rightarrow> bool" where
  "int_literal s = py_isdecimal (snd (split_sign s))"

definition between_message :: "int \<Rightarrow> string" where
  "between_message minimum = ''Must be between '' @ show_int minimum @ '' and '' @ show_int MAX_SCORE"

definition score_integer :: "pyval \<Rightarrow> string \<Rightarrow> int \<Rightarrow> py_exc + int" where
  "score_integer value field minimum =
     (case value of
        PInt i \<Rightarrow>
          if minimum \<le> i \<and> i \<le> MAX_SCORE then Inr i
          else Inl (ScoringValidationError field (between_message minimum))
      | PStr s \<Rightarrow>
          if int_literal (py_strip s) then
            bindE (py_int (PStr s)) (\<lambda>i.
              if minimum \<le> i \<and> i \<le> MAX_SCORE then Inr i
              else Inl (ScoringValidationError field (between_message minimum)))
          else Inl (ScoringValidationError field ''Must be an integer'')
      | _ \<Rightarrow> Inl (ScoringValidationError field ''Must be an integer''))"

definition field_minimum :: "string \<Rightarrow> int" where
  "field_minimum field = (if field = ''decay'' then 1 else 0)"

definition score_fields :: "bool \<Rightarrow> string list" where
  "score_fields dynamic =
     (if dynamic then [''value'', ''initial'', ''minimum'', ''decay''] else [''value''])"

definition decay_names :: "string list" where
  "decay_names = [''linear'', ''logarithmic'']"

definition is_decay_name :: "pyval \<Rightarrow> bool" where
  "is_decay_name v = list_ex (\<lambda>n. py_eq v (PStr n)) decay_names"

definition validate_score_fields :: "dict \<Rightarrow> bool \<Rightarrow> py_exc + unit" where
  "validate_score_fields data dynamic =
     bindE (checkE (\<lambda>field.
         if has_key data field
         then bindE (score_integer (dget data field) field (field_minimum field)) (\<lambda>_. Inr ())
         else Inr ()) (score_fields dynamic)) (\<lambda>_.
     if dynamic \<and> has_key data ''function'' \<and> \<not> is_decay_name (dget data ''function'')
     then Inl (ScoringValidationError ''function'' ''Must be linear or logarithmic'')
     else Inr ())"

record dyn_config =
  dc_initial :: int
  dc_minimum :: int
  dc_decay :: int
  dc_function :: pyval

text \<open>
  \<open>stored\<close> is the attribute dictionary of the dynamic challenge being updated (with
  \<open>None\<close> for a null column), or the empty dictionary when there is no such challenge:
  \<open>getattr(challenge, key, default)\<close>.
\<close>

definition config_value :: "dict \<Rightarrow> dict \<Rightarrow> string \<Rightarrow> pyval \<Rightarrow> pyval" where
  "config_value data stored key dflt = dget_default data key (dget_default stored key dflt)"

definition config_dict :: "dict \<Rightarrow> dict \<Rightarrow> dict" where
  "config_dict data stored =
     [(''initial'', config_value data stored ''initial'' (PInt 100)),
      (''minimum'', config_value data stored ''minimum'' (PInt 10)),
      (''decay'', config_value data stored ''decay'' (PInt 50)),
      (''function'', config_value data stored ''function'' (PStr ''logarithmic''))]"

definition dynamic_config :: "dict \<Rightarrow> dict \<Rightarrow> py_exc + dyn_config" where
  "dynamic_config data stored =
     (let config = config_dict data stored in
      bindE (validate_score_fields config True) (\<lambda>_.
      bindE (score_integer (dget config ''initial'') ''initial'' 0) (\<lambda>initial.
      bindE (score_integer (dget config ''minimum'') ''minimum'' 0) (\<lambda>minimum.
      bindE (score_integer (dget config ''decay'') ''decay'' 1) (\<lambda>decay.
      if minimum > initial
      then Inl (ScoringValidationError ''minimum'' ''Cannot exceed initial'')
      else Inr \<lparr>dc_initial = initial, dc_minimum = minimum, dc_decay = decay,
                dc_function = dget config ''function''\<rparr>)))))"

section \<open>attempts.py\<close>

definition max_submission_length :: nat where
  "max_submission_length = 1000"

fun valid_submission :: "pyval \<Rightarrow> py_exc + unit" where
  "valid_submission (PStr s) =
     (if py_strip s = []
      then Inl (ScoringValidationError ''submission'' ''Submission must be a non-empty string'')
      else if length (py_strip s) > max_submission_length
      then Inl (ScoringValidationError ''submission'' ''Submission must not exceed 1000 characters'')
      else Inr ())"
| "valid_submission _ =
     Inl (ScoringValidationError ''submission'' ''Submission must be a non-empty string'')"

fun validate_attempt_input :: "pyval \<Rightarrow> py_exc + int" where
  "validate_attempt_input (PDict data) =
     bindE (score_integer (dget_default data ''challengeId'' (dget data ''challenge_id''))
              ''challengeId'' 1) (\<lambda>challenge_id.
     bindE (if has_key data ''challengeId'' \<and> has_key data ''challenge_id'' then
              bindE (score_integer (dget data ''challenge_id'') ''challenge_id'' 1) (\<lambda>alias.
              if alias \<noteq> challenge_id
              then Inl (ScoringValidationError ''challengeId'' ''Challenge IDs must match'')
              else Inr ())
            else Inr ()) (\<lambda>_.
     bindE (valid_submission (dget data ''submission'')) (\<lambda>_.
     Inr challenge_id)))"
| "validate_attempt_input _ = Inl (ScoringValidationError ''body'' ''Expected an object'')"

section \<open>references.py\<close>

definition positive_message :: string where
  "positive_message = ''Must be a positive integer''"

definition in_id_range :: "int \<Rightarrow> bool" where
  "in_id_range i = (0 < i \<and> i \<le> 2147483647)"

fun positive_id :: "pyval \<Rightarrow> string \<Rightarrow> py_exc + int" where
  "positive_id (PInt i) field =
     (if in_id_range i then Inr i else Inl (ValidationError positive_message [field]))"
| "positive_id (PStr s) field =
     (if length s > 10 \<or> \<not> py_isdecimal s then Inl (ValidationError positive_message [field])
      else bindE (py_int (PStr s)) (\<lambda>i.
        if in_id_range i then Inr i else Inl (ValidationError positive_message [field])))"
| "positive_id _ field = Inl (ValidationError positive_message [field])"

text \<open>\<open>exists\<close> is \<open>model.query.filter_by(id=value, **filters).first() is not None\<close>.\<close>

definition reference :: "dict \<Rightarrow> string \<Rightarrow> (int \<Rightarrow> bool) \<Rightarrow> bool \<Rightarrow> bool \<Rightarrow> py_exc + dict" where
  "reference data field exists required nullable =
     (if \<not> has_key data field then
        (if required then Inl (ValidationError ''Missing required field'' [field]) else Inr data)
      else if nullable \<and> dget data field = PNone then Inr data
      else bindE (positive_id (dget data field) field) (\<lambda>value.
        if exists value then Inr (put field (PInt value) data)
        else Inl (ValidationError ''Referenced record does not exist'' [field])))"

definition text_field :: "dict \<Rightarrow> string \<Rightarrow> bool \<Rightarrow> py_exc + unit" where
  "text_field data field required =
     (if \<not> has_key data field \<and> \<not> required then Inr ()
      else case dget data field of
        PStr s \<Rightarrow> if py_strip s = [] then Inl (ValidationError ''Must be a nonempty string'' [field])
                  else Inr ()
      | _ \<Rightarrow> Inl (ValidationError ''Must be a nonempty string'' [field]))"

section \<open>accounts.py\<close>

definition control_char :: "char \<Rightarrow> bool" where
  "control_char c = (py_ord c < 32 \<or> py_ord c = 127)"

definition markup_or_control :: "char \<Rightarrow> bool" where
  "markup_or_control c = (c = CHR ''<'' \<or> c = CHR ''>'' \<or> control_char c)"

fun validate_account_name :: "pyval \<Rightarrow> py_exc + unit" where
  "validate_account_name (PStr s) =
     (if py_strip s = [] \<or> length (py_strip s) > 128
      then Inl (ValidationError ''Name must contain between 1 and 128 characters'' [])
      else if list_ex markup_or_control s
      then Inl (ValidationError ''Name cannot contain markup or control characters'' [])
      else Inr ())"
| "validate_account_name _ =
     Inl (ValidationError ''Name must contain between 1 and 128 characters'' [])"

fun validate_nonempty_password :: "pyval \<Rightarrow> py_exc + unit" where
  "validate_nonempty_password (PStr s) =
     (if py_strip s = [] then Inl (ValidationError ''Password must not be empty or whitespace'' [])
      else if length s > 128 then Inl (ValidationError ''Password must be at most 128 characters'' [])
      else Inr ())"
| "validate_nonempty_password _ =
     Inl (ValidationError ''Password must not be empty or whitespace'' [])"

section \<open>flags.py\<close>

text \<open>\<open>re_compiles ignorecase pattern\<close>: whether \<open>re.compile\<close> accepts the pattern.\<close>

definition validate_flag_content ::
  "(bool \<Rightarrow> string \<Rightarrow> bool) \<Rightarrow> pyval \<Rightarrow> pyval \<Rightarrow> pyval \<Rightarrow> py_exc + unit" where
  "validate_flag_content re_compiles flag_type content data =
     (if \<not> (py_eq flag_type (PStr ''static'') \<or> py_eq flag_type (PStr ''regex'')) then Inr ()
      else case content of
        PStr s \<Rightarrow>
          if py_strip s = [] then Inl (ValueError ''Flag content must be a non-empty string'')
          else if py_eq flag_type (PStr ''regex'')
               \<and> \<not> re_compiles (py_eq data (PStr ''case_insensitive'')) s
          then Inl (ValueError ''Invalid regular expression'')
          else Inr ()
      | _ \<Rightarrow> Inl (ValueError ''Flag content must be a non-empty string''))"

section \<open>uploads.py\<close>

definition DEFAULT_UPLOAD_EXTENSIONS :: "string list" where
  "DEFAULT_UPLOAD_EXTENSIONS =
    [''txt'', ''md'', ''csv'', ''json'', ''yaml'', ''yml'', ''xml'', ''log'', ''pdf'', ''png'', ''jpg'', ''jpeg'',
     ''gif'', ''webp'', ''ico'', ''bmp'', ''zip'', ''7z'', ''tar'', ''gz'', ''bz2'', ''xz'', ''rar'', ''pcap'',
     ''pcapng'', ''bin'', ''exe'', ''elf'', ''dll'', ''so'', ''wasm'', ''py'', ''c'', ''cpp'', ''h'', ''java'',
     ''class'', ''jar'', ''sql'', ''db'', ''sqlite'', ''pem'', ''pub'', ''key'', ''sh'', ''ps1'', ''doc'', ''docx'',
     ''xls'', ''xlsx'', ''ppt'', ''pptx'', ''mp3'', ''wav'', ''ogg'', ''mp4'', ''webm'', ''woff'', ''woff2'', ''ttf'',
     ''css'']"

text \<open>\<open>PurePath(s).name\<close> and \<open>.suffix\<close> on a POSIX host.\<close>

definition path_name :: "string \<Rightarrow> string" where
  "path_name s =
     (case filter (\<lambda>p. p \<noteq> [] \<and> p \<noteq> ''.'') (split_on (CHR ''/'') s) of [] \<Rightarrow> [] | ps \<Rightarrow> last ps)"

definition path_suffix :: "string \<Rightarrow> string" where
  "path_suffix s = (let name = path_name s;
       ext = rev (takeWhile (\<lambda>c. c \<noteq> CHR ''.'') (rev name));
       i = int (length name) - int (length ext) - 1 in
     if 0 < i \<and> i < int (length name) - 1 then CHR ''.'' # ext else [])"

definition lstrip_dots :: "string \<Rightarrow> string" where
  "lstrip_dots s = dropWhile (\<lambda>c. c = CHR ''.'') s"

text \<open>\<open>UPLOAD_ALLOWED_EXTENSIONS\<close>: unset, a comma-separated string, or a list of strings.\<close>

datatype ext_config = ExtDefault | ExtString string | ExtList "string list"

fun allowed_extensions :: "ext_config \<Rightarrow> string list" where
  "allowed_extensions ExtDefault = DEFAULT_UPLOAD_EXTENSIONS"
| "allowed_extensions (ExtString s) = map (\<lambda>e. lstrip_dots (py_lower e)) (split_on (CHR '','') s)"
| "allowed_extensions (ExtList l) = map (\<lambda>e. lstrip_dots (py_lower e)) l"

fun validate_upload_filename :: "ext_config \<Rightarrow> pyval \<Rightarrow> py_exc + unit" where
  "validate_upload_filename configured (PStr filename) =
     (if py_strip filename = [] then Inl (ValueError ''A filename is required'')
      else if list_ex control_char filename
      then Inl (ValueError ''Filename cannot contain control characters'')
      else if lstrip_dots (py_lower (path_suffix (py_strip filename))) \<notin> set (allowed_extensions configured)
      then Inl (ValueError ''File extension is not allowed; package challenge artifacts in a ZIP archive'')
      else Inr ())"
| "validate_upload_filename configured _ = Inl (ValueError ''A filename is required'')"

section \<open>model_types.py\<close>

definition USER_TYPES :: "string list" where
  "USER_TYPES = [''user'', ''admin'', ''challenge_writer'', ''jury'']"

definition FILE_TYPES :: "string list" where
  "FILE_TYPES = [''standard'', ''challenge'']"

text \<open>The challenge and flag classes registered by the loaded plugins are arguments.\<close>

definition supported_types :: "string list \<Rightarrow> string list \<Rightarrow> string \<Rightarrow> py_exc + string list" where
  "supported_types challenge_classes flag_classes kind =
     (if kind = ''users'' then Inr USER_TYPES
      else if kind = ''files'' then Inr FILE_TYPES
      else if kind = ''challenges'' then Inr challenge_classes
      else if kind = ''flags'' then Inr flag_classes
      else Inl (ValueError ''Unknown model kind''))"

fun string_less :: "string \<Rightarrow> string \<Rightarrow> bool" where
  "string_less [] [] = False"
| "string_less [] (_ # _) = True"
| "string_less (_ # _) [] = False"
| "string_less (a # x) (b # y) =
     (if py_ord a < py_ord b then True else if py_ord b < py_ord a then False else string_less x y)"

fun insort_string :: "string \<Rightarrow> string list \<Rightarrow> string list" where
  "insort_string x [] = [x]"
| "insort_string x (y # ys) = (if string_less y x then y # insort_string x ys else x # y # ys)"

definition sort_strings :: "string list \<Rightarrow> string list" where
  "sort_strings xs = foldr insort_string xs []"

definition require_supported_type ::
  "string list \<Rightarrow> string list \<Rightarrow> string \<Rightarrow> pyval \<Rightarrow> py_exc + string" where
  "require_supported_type challenge_classes flag_classes kind value =
     bindE (supported_types challenge_classes flag_classes kind) (\<lambda>supported.
       let fail = Inl (ValueError (''Invalid type. Supported values: ''
                        @ join_with '', '' (sort_strings supported))) in
       case value of
         PStr s \<Rightarrow> if s \<in> set supported then Inr s else fail
       | _ \<Rightarrow> fail)"

definition validate_type_payload ::
  "string list \<Rightarrow> string list \<Rightarrow> string \<Rightarrow> dict \<Rightarrow> py_exc + unit" where
  "validate_type_payload challenge_classes flag_classes kind data =
     (if has_key data ''type'' then
        (case require_supported_type challenge_classes flag_classes kind (dget data ''type'') of
           Inl (ValueError m) \<Rightarrow> Inl (ValidationError m [''type''])
         | Inl e \<Rightarrow> Inl e
         | Inr _ \<Rightarrow> Inr ())
      else Inr ())"

section \<open>__init__.py: email addresses\<close>

text \<open>
  \<open>re.match(r"(^[^@\\s]+@[^@\\s]+\\.[^@\\s]+$)", s)\<close>: \<open>$\<close> also matches before one
  trailing newline.
\<close>

definition email_atom :: "string \<Rightarrow> bool" where
  "email_atom s = (s \<noteq> [] \<and> list_all (\<lambda>c. c \<noteq> CHR ''@'' \<and> \<not> py_isspace c) s)"

definition inner_dot :: "string \<Rightarrow> bool" where
  "inner_dot s = list_ex (\<lambda>i. s ! i = CHR ''.'') [1..<length s - 1]"

definition email_shape :: "string \<Rightarrow> bool" where
  "email_shape s = (case split_on (CHR ''@'') s of
      [l, r] \<Rightarrow> email_atom l \<and> email_atom r \<and> inner_dot r
    | _ \<Rightarrow> False)"

definition validate_email :: "string \<Rightarrow> bool" where
  "validate_email s =
     (email_shape s \<or> (s \<noteq> [] \<and> last s = char_of (10::nat) \<and> email_shape (butlast s)))"

text \<open>\<open>unique_email\<close>: \<open>found\<close> is the id of the row with that address, \<open>me\<close> the
  current user's id.\<close>

definition unique_email :: "bool \<Rightarrow> int option \<Rightarrow> int option \<Rightarrow> py_exc + unit" where
  "unique_email is_admin found me =
     (case found of
        None \<Rightarrow> Inr ()
      | Some obj \<Rightarrow>
          if is_admin then Inl (ValidationError ''Email address has already been used'' [])
          else case me of
            None \<Rightarrow> Inl AttributeError
          | Some i \<Rightarrow> if obj \<noteq> i then Inl (ValidationError ''Email address has already been used'' [])
                      else Inr ())"

text \<open>\<open>validate_country_code\<close> and \<open>validate_language\<close> with their tables as \<open>known\<close>.\<close>

definition validate_code :: "(string \<Rightarrow> bool) \<Rightarrow> string \<Rightarrow> string \<Rightarrow> py_exc + unit" where
  "validate_code known message code =
     (if py_strip code = [] then Inr ()
      else if known code then Inr () else Inl (ValidationError message []))"

section \<open>Facts\<close>

named_theorems validator_simps

lemma score_integer_simps [simp]:
  "score_integer (PInt i) field m =
     (if m \<le> i \<and> i \<le> MAX_SCORE then Inr i else Inl (ScoringValidationError field (between_message m)))"
  "score_integer (PBool b) field m = Inl (ScoringValidationError field ''Must be an integer'')"
  "score_integer (PFloat q) field m = Inl (ScoringValidationError field ''Must be an integer'')"
  "score_integer PNone field m = Inl (ScoringValidationError field ''Must be an integer'')"
  "score_integer (PList l) field m = Inl (ScoringValidationError field ''Must be an integer'')"
  "score_integer (PDict d) field m = Inl (ScoringValidationError field ''Must be an integer'')"
  by (simp_all add: score_integer_def)

lemma score_integer_Inr:
  assumes "score_integer v field m = Inr i"
  shows "m \<le> i \<and> i \<le> MAX_SCORE"
  using assms by (cases v) (auto simp: score_integer_def monad_simps split: if_splits option.splits)

lemma score_integer_idem:
  "score_integer v field m = Inr i \<Longrightarrow> score_integer (PInt i) field m = Inr i"
  using score_integer_Inr by fastforce

lemma positive_id_Inr: "positive_id v field = Inr i \<Longrightarrow> in_id_range i"
  by (cases v) (auto simp: monad_simps split: if_splits option.splits)

lemma validate_score_fields_value:
  "validate_score_fields data dynamic = Inr () \<Longrightarrow> has_key data ''value'' \<Longrightarrow>
   \<exists>i. score_integer (dget data ''value'') ''value'' 0 = Inr i"
  by (auto simp: validate_score_fields_def monad_simps score_fields_def field_minimum_def
      split: if_splits)

lemma dynamic_config_Inr:
  assumes "dynamic_config data stored = Inr c"
  shows "0 \<le> dc_minimum c \<and> dc_minimum c \<le> dc_initial c \<and> dc_initial c \<le> MAX_SCORE \<and>
    1 \<le> dc_decay c \<and> dc_decay c \<le> MAX_SCORE \<and> is_decay_name (dc_function c)"
proof -
  let ?d = "config_dict data stored"
  from assms obtain i m d where
    v: "validate_score_fields ?d True = Inr ()" and
    i: "score_integer (dget ?d ''initial'') ''initial'' 0 = Inr i" and
    m: "score_integer (dget ?d ''minimum'') ''minimum'' 0 = Inr m" and
    d: "score_integer (dget ?d ''decay'') ''decay'' 1 = Inr d" and
    c: "c = \<lparr>dc_initial = i, dc_minimum = m, dc_decay = d, dc_function = dget ?d ''function''\<rparr>"
       "m \<le> i"
    by (auto simp: dynamic_config_def Let_def monad_simps split: if_splits)
  have "is_decay_name (dget ?d ''function'')"
    using v by (auto simp: validate_score_fields_def monad_simps config_dict_def split: if_splits)
  then show ?thesis
    using c score_integer_Inr[OF i] score_integer_Inr[OF m] score_integer_Inr[OF d] by simp
qed

lemma valid_submission_Inr:
  "valid_submission v = Inr () \<Longrightarrow>
   \<exists>s. v = PStr s \<and> py_strip s \<noteq> [] \<and> length (py_strip s) \<le> max_submission_length"
  by (cases v) (auto split: if_splits)

lemma reference_Inr:
  "reference data field exists required nullable = Inr data' \<Longrightarrow> has_key data field \<Longrightarrow>
   dget data' field = PNone \<and> nullable \<or>
   (\<exists>i. dget data' field = PInt i \<and> in_id_range i \<and> exists i)"
  by (auto simp: reference_def monad_simps positive_id_Inr split: if_splits)

end
