(* ===== verification/ConfigStore.thy ===== *)
theory ConfigStore imports PyVal begin

text \<open>
  The configuration store of \<^verbatim>\<open>utils/__init__.py\<close> (\<open>_get_config\<close> memoised over the
  \<open>config\<close> table, \<open>set_config\<close> invalidating one key), and what is read from it: the
  competition clock of \<^verbatim>\<open>utils/dates\<close>, the account mode of \<^verbatim>\<open>utils/modes\<close>
  and \<^verbatim>\<open>utils/config\<close>.  The database compares keys by the collation of the column
  (\<open>utf8mb4_general_ci\<close> in production), the cache character by character: \<open>ck\<close> maps a key to the
  representative of the spellings the database takes for it, the identity for a binary collation.
\<close>

section \<open>The store\<close>

record config_row =
  cfg_id :: int
  cfg_key :: string
  cfg_value :: "string option"

text \<open>
  The cache maps a key to the memoised answer; \<open>None\<close> stands for the \<open>KeyError\<close>
  sentinel the code caches for a missing or empty value.
\<close>

record config_store =
  cs_rows :: "config_row list"
  cs_cache :: "(string \<times> pyval option) list"

definition parse_config :: "string \<Rightarrow> py_exc + pyval" where
  "parse_config value =
     (if py_isdigit value then bindE (py_int (PStr value)) (\<lambda>i. Inr (PInt i))
      else if py_lower value = ''true'' then Inr (PBool True)
      else if py_lower value = ''false'' then Inr (PBool False)
      else Inr (PStr value))"

definition read_config :: "(string \<Rightarrow> string) \<Rightarrow> config_row list \<Rightarrow> string \<Rightarrow> py_exc + pyval option" where
  "read_config ck rows key =
     (case first_where (\<lambda>r. ck (cfg_key r) = ck key) rows of
        Some r \<Rightarrow> (case cfg_value r of
            Some v \<Rightarrow> if v \<noteq> [] then bindE (parse_config v) (\<lambda>x. Inr (Some x)) else Inr None
          | None \<Rightarrow> Inr None)
      | None \<Rightarrow> Inr None)"

text \<open>The memoised function: a hit answers from the cache, a miss stores what it computed.\<close>

definition cached_config :: "(string \<Rightarrow> string) \<Rightarrow> config_store \<Rightarrow> string \<Rightarrow> (py_exc + pyval option) \<times> config_store" where
  "cached_config ck st key =
     (case map_of (cs_cache st) key of
        Some v \<Rightarrow> (Inr v, st)
      | None \<Rightarrow> (case read_config ck (cs_rows st) key of
            Inl e \<Rightarrow> (Inl e, st)
          | Inr v \<Rightarrow> (Inr v, st\<lparr>cs_cache := put key v (cs_cache st)\<rparr>)))"

definition get_config :: "(string \<Rightarrow> string) \<Rightarrow> config_store \<Rightarrow> string \<Rightarrow> pyval \<Rightarrow> (py_exc + pyval) \<times> config_store" where
  "get_config ck st key dflt =
     (let (r, st') = cached_config ck st key in
      (bindE r (\<lambda>v. Inr (case v of None \<Rightarrow> dflt | Some x \<Rightarrow> x)), st'))"

fun set_first :: "('r \<Rightarrow> bool) \<Rightarrow> ('r \<Rightarrow> 'r) \<Rightarrow> 'r list \<Rightarrow> 'r list" where
  "set_first p f [] = []"
| "set_first p f (r # rs) = (if p r then f r # rs else r # set_first p f rs)"

definition write_row :: "(string \<Rightarrow> string) \<Rightarrow> config_row list \<Rightarrow> string \<Rightarrow> string option \<Rightarrow> config_row list" where
  "write_row ck rows key value =
     (if list_ex (\<lambda>r. ck (cfg_key r) = ck key) rows
      then set_first (\<lambda>r. ck (cfg_key r) = ck key) (\<lambda>r. r\<lparr>cfg_value := value\<rparr>) rows
      else rows @ [\<lparr>cfg_id = fresh_id cfg_id rows, cfg_key = key, cfg_value = value\<rparr>])"

definition set_config :: "(string \<Rightarrow> string) \<Rightarrow> config_store \<Rightarrow> string \<Rightarrow> string option \<Rightarrow> config_store" where
  "set_config ck st key value =
     st\<lparr>cs_rows := write_row ck (cs_rows st) key value, cs_cache := del key (cs_cache st)\<rparr>"

text \<open>
  The uncached meaning of a read, the agreement of the cache with the table, and the spellings
  under which the code itself names its keys.
\<close>

definition stored_value :: "(string \<Rightarrow> string) \<Rightarrow> config_store \<Rightarrow> string \<Rightarrow> py_exc + pyval option" where
  "stored_value ck st key = read_config ck (cs_rows st) key"

definition cache_ok :: "(string \<Rightarrow> string) \<Rightarrow> config_store \<Rightarrow> bool" where
  "cache_ok ck st = (\<forall>key v. map_of (cs_cache st) key = Some v \<longrightarrow> stored_value ck st key = Inr v)"

definition canonical :: "(string \<Rightarrow> string) \<Rightarrow> string \<Rightarrow> bool" where
  "canonical ck key = (ck key = key)"

definition store_ok :: "(string \<Rightarrow> string) \<Rightarrow> config_store \<Rightarrow> bool" where
  "store_ok ck st = (cache_ok ck st \<and> (\<forall>key v. map_of (cs_cache st) key = Some v \<longrightarrow> canonical ck key))"

definition value_written :: "string option \<Rightarrow> py_exc + pyval option" where
  "value_written value = (case value of
      None \<Rightarrow> Inr None
    | Some v \<Rightarrow> if v = [] then Inr None else bindE (parse_config v) (\<lambda>x. Inr (Some x)))"

lemma first_where_set_first:
  "list_ex p rs \<Longrightarrow> (\<And>r. p (f r) = p r) \<Longrightarrow>
   first_where p (set_first p f rs) = map_option f (first_where p rs)"
  by (induction rs) auto

lemma first_where_set_first_other:
  "(\<And>r. p r \<Longrightarrow> \<not> q r) \<Longrightarrow> (\<And>r. p (f r) = p r) \<Longrightarrow>
   first_where q (set_first p f rs) = first_where q rs"
  by (induction rs) auto

lemma first_where_append:
  "first_where p (xs @ ys) = (case first_where p xs of None \<Rightarrow> first_where p ys | r \<Rightarrow> r)"
  by (induction xs) auto

lemma first_where_ex: "list_ex p rs \<Longrightarrow> \<exists>r. first_where p rs = Some r"
  by (induction rs) auto

lemma first_where_not_ex: "\<not> list_ex p rs \<Longrightarrow> first_where p rs = None"
  by (induction rs) auto

lemma read_written_same: "ck key' = ck key \<Longrightarrow> read_config ck (write_row ck rows key value) key' = value_written value"
proof (cases "list_ex (\<lambda>r. ck (cfg_key r) = ck key) rows")
  case True
  then obtain r where "first_where (\<lambda>r. ck (cfg_key r) = ck key) rows = Some r"
    using first_where_ex by blast
  with True show "ck key' = ck key \<Longrightarrow> ?thesis"
    by (auto simp: read_config_def write_row_def value_written_def first_where_set_first split: option.split)
next
  case False
  then show "ck key' = ck key \<Longrightarrow> ?thesis"
    by (auto simp: read_config_def write_row_def value_written_def first_where_append
        first_where_not_ex split: option.split)
qed

lemma read_written_other:
  "ck key' \<noteq> ck key \<Longrightarrow> read_config ck (write_row ck rows key value) key' = read_config ck rows key'"
proof -
  assume k: "ck key' \<noteq> ck key"
  have "first_where (\<lambda>r. ck (cfg_key r) = ck key') (set_first (\<lambda>r. ck (cfg_key r) = ck key)
      (\<lambda>r. r\<lparr>cfg_value := value\<rparr>) rows) = first_where (\<lambda>r. ck (cfg_key r) = ck key') rows"
    using k by (intro first_where_set_first_other) auto
  with k show ?thesis
    by (simp add: read_config_def write_row_def first_where_append split: option.split)
qed

lemma cached_config_fst: "cache_ok ck st \<Longrightarrow> fst (cached_config ck st key) = stored_value ck st key"
  by (auto simp: cached_config_def cache_ok_def stored_value_def split: option.split sum.split)

lemma cached_config_rows: "cs_rows (snd (cached_config ck st key)) = cs_rows st"
  by (auto simp: cached_config_def split: option.split sum.split)

lemma cached_config_ok: "cache_ok ck st \<Longrightarrow> cache_ok ck (snd (cached_config ck st key))"
  by (auto simp: cached_config_def cache_ok_def stored_value_def split: option.split sum.split)

lemma cached_config_store_ok: "store_ok ck st \<Longrightarrow> canonical ck key \<Longrightarrow> store_ok ck (snd (cached_config ck st key))"
  using cached_config_ok[of ck st key]
  by (auto simp: store_ok_def) (auto simp: cached_config_def split: option.splits sum.splits if_splits)

lemma set_config_ok: "store_ok ck st \<Longrightarrow> canonical ck key \<Longrightarrow> store_ok ck (set_config ck st key value)"
  by (auto simp: store_ok_def cache_ok_def set_config_def stored_value_def canonical_def read_written_other split: if_splits)

section \<open>The interface the readers rely on\<close>

text \<open>
  A key-value store whose reads may fill a cache, used with the keys \<open>key_ok\<close> only: the laws are that a
  read answers the abstract value and changes no abstract value, and that a write changes its own key only.
\<close>

locale config_api =
  fixes key_ok :: "string \<Rightarrow> bool"
    and val :: "'s \<Rightarrow> string \<Rightarrow> 'v"
    and rd :: "'s \<Rightarrow> string \<Rightarrow> 'v \<times> 's"
    and wr :: "'s \<Rightarrow> string \<Rightarrow> 'w \<Rightarrow> 's"
    and parse :: "'w \<Rightarrow> 'v"
    and inv :: "'s \<Rightarrow> bool"
  assumes rd_val: "inv s \<Longrightarrow> fst (rd s k) = val s k"
    and rd_frame: "val (snd (rd s k)) = val s"
    and rd_inv: "inv s \<Longrightarrow> key_ok k \<Longrightarrow> inv (snd (rd s k))"
    and wr_same: "val (wr s k w) k = parse w"
    and wr_other: "key_ok k \<Longrightarrow> key_ok k' \<Longrightarrow> k' \<noteq> k \<Longrightarrow> val (wr s k w) k' = val s k'"
    and wr_inv: "inv s \<Longrightarrow> key_ok k \<Longrightarrow> inv (wr s k w)"
begin

lemma wr_val: "key_ok k \<Longrightarrow> key_ok k' \<Longrightarrow> val (wr s k w) k' = ((val s)(k := parse w)) k'"
  by (auto simp: wr_same wr_other)

lemma read_after_write: "inv s \<Longrightarrow> key_ok k \<Longrightarrow> fst (rd (wr s k w) k) = parse w"
  by (simp add: rd_val wr_inv wr_same)

lemma read_after_reads:
  "inv s \<Longrightarrow> \<forall>q\<in>set ks. key_ok q \<Longrightarrow> fst (rd (foldl (\<lambda>t q. snd (rd t q)) s ks) k) = val s k"
proof (induction ks arbitrary: s)
  case (Cons q ks)
  then show ?case using Cons.IH[of "snd (rd s q)"] by (simp add: rd_inv rd_frame)
qed (simp add: rd_val)

text \<open>Interleaved reads and writes: each read answers the last write to its key.\<close>

lemma run_val:
  assumes "\<forall>op\<in>set ops. key_ok (case op of Inl q \<Rightarrow> q | Inr (q, w) \<Rightarrow> q)" "key_ok k" "val s k = m k"
  shows "val (foldl (\<lambda>t op. case op of Inl q \<Rightarrow> snd (rd t q) | Inr (q, w) \<Rightarrow> wr t q w) s ops) k =
   foldl (\<lambda>m op. case op of Inl q \<Rightarrow> m | Inr (q, w) \<Rightarrow> m(q := parse w)) m ops k"
  using assms
proof (induction ops arbitrary: s m)
  case (Cons op ops)
  show ?case
  proof (cases op)
    case (Inl q)
    then show ?thesis using Cons by (simp add: rd_frame)
  next
    case (Inr p)
    obtain q w where p: "p = (q, w)" by (cases p)
    have "val (wr s q w) k = (m(q := parse w)) k" using Cons.prems by (cases "k = q") (simp_all add: Inr p wr_same wr_other)
    with Cons.IH[of "wr s q w" "m(q := parse w)"] Cons.prems show ?thesis by (simp add: Inr p del: fun_upd_apply)
  qed
qed simp

lemma run_inv:
  "inv s \<Longrightarrow> \<forall>op\<in>set ops. key_ok (case op of Inl q \<Rightarrow> q | Inr (q, w) \<Rightarrow> q) \<Longrightarrow>
   inv (foldl (\<lambda>t op. case op of Inl q \<Rightarrow> snd (rd t q) | Inr (q, w) \<Rightarrow> wr t q w) s ops)"
  by (induction ops arbitrary: s) (auto simp: rd_inv wr_inv split: sum.split prod.split)

end

interpretation cached: config_api "canonical ck" "stored_value ck" "cached_config ck" "set_config ck" value_written "store_ok ck"
  for ck
proof unfold_locales
  fix s :: config_store and k
  show "stored_value ck (snd (cached_config ck s k)) = stored_value ck s"
    by (simp add: stored_value_def fun_eq_iff cached_config_rows)
  show "stored_value ck (set_config ck s k w) k = value_written w" for w
    by (simp add: stored_value_def set_config_def read_written_same)
  show "canonical ck k \<Longrightarrow> canonical ck k' \<Longrightarrow> k' \<noteq> k \<Longrightarrow> stored_value ck (set_config ck s k w) k' = stored_value ck s k'" for w k'
    by (simp add: stored_value_def set_config_def canonical_def read_written_other)
  show "store_ok ck s \<Longrightarrow> fst (cached_config ck s k) = stored_value ck s k"
    by (rule cached_config_fst) (simp add: store_ok_def)
qed (erule (1) cached_config_store_ok set_config_ok)+

type_synonym config_op = "string + string \<times> string option"

fun op_key :: "config_op \<Rightarrow> string" where
  "op_key (Inl q) = q"
| "op_key (Inr p) = fst p"

definition run_config :: "(string \<Rightarrow> string) \<Rightarrow> config_store \<Rightarrow> config_op list \<Rightarrow> config_store" where
  "run_config ck st ops = foldl (\<lambda>t op. case op of Inl q \<Rightarrow> snd (cached_config ck t q)
      | Inr (q, w) \<Rightarrow> set_config ck t q w) st ops"

definition last_write :: "(string \<Rightarrow> py_exc + pyval option) \<Rightarrow> config_op list \<Rightarrow> string \<Rightarrow> py_exc + pyval option" where
  "last_write m ops = foldl (\<lambda>m op. case op of Inl q \<Rightarrow> m | Inr (q, w) \<Rightarrow> m(q := value_written w)) m ops"

text \<open>
  Property C20: after any interleaving of reads (which fill the cache) and writes, a memoised
  read answers exactly what the last write to that key stored, parsed, or what the table held
  before if the key was not written: the cache is never stale.  This holds whatever the collation,
  as long as no key is named by two spellings the database takes for the same
  (\<open>canonical\<close>; every key is, if the collation is binary).
\<close>

theorem config_cache_coherent:
  assumes "store_ok ck st" "\<forall>op\<in>set ops. canonical ck (op_key op)" "canonical ck key"
  shows "fst (cached_config ck (run_config ck st ops) key) = last_write (stored_value ck st) ops key
    \<and> store_ok ck (run_config ck st ops)"
proof -
  have keys: "\<forall>op\<in>set ops. canonical ck (case op of Inl q \<Rightarrow> q | Inr (q, w) \<Rightarrow> q)"
    using assms(2) by (auto split: sum.split)
  have inv: "store_ok ck (run_config ck st ops)"
    unfolding run_config_def by (rule cached.run_inv[OF assms(1) keys])
  then show ?thesis
    using cached.run_val[OF keys assms(3), of st "stored_value ck st"]
    by (simp add: cached.rd_val run_config_def last_write_def)
qed

definition demo_store :: config_store where
  "demo_store = \<lparr>cs_rows = [\<lparr>cfg_id = 1, cfg_key = ''start'', cfg_value = Some ''12''\<rparr>], cs_cache = []\<rparr>"

lemma demo_store_ok: "store_ok ck demo_store"
  by (simp add: store_ok_def cache_ok_def demo_store_def)

theorem config_cache_coherent_witness:
  "fst (cached_config py_lower (run_config py_lower demo_store
      [Inl ''start'', Inr (''start'', Some ''TRUE''), Inl ''start'']) ''start'') = Inr (Some (PBool True))"
proof -
  let ?ops = "[Inl ''start'', Inr (''start'', Some ''TRUE''), Inl ''start''] :: config_op list"
  have v: "last_write (stored_value py_lower demo_store) ?ops ''start'' = Inr (Some (PBool True))"
    and k: "canonical py_lower ''start''"
    by code_simp+
  have "\<forall>op\<in>set ?ops. canonical py_lower (op_key op)" using k by simp
  from config_cache_coherent[OF demo_store_ok this k] v show ?thesis by simp
qed

text \<open>
  Two spellings of a key are one row but two entries of the cache: after a write under one of them
  the other is stale.
\<close>

lemma spellings_go_stale:
  "fst (cached_config py_lower (set_config py_lower (snd (cached_config py_lower demo_store ''Start'')) ''start'' (Some ''99'')) ''Start'') = Inr (Some (PInt 12))"
  by code_simp

text \<open>A superscript digit passes \<open>isdigit\<close> but not \<open>int\<close>: reading such a value raises.\<close>

lemma parse_config_superscript:
  "parse_config [char_of (178::nat)] = Inl (ValueError ''invalid literal for int()'')"
  by code_simp

lemma parse_config_raises_only_on_digits:
  "parse_config v = Inl e \<Longrightarrow> py_isdigit v"
  by (auto simp: parse_config_def monad_simps split: if_splits)

section \<open>The competition clock\<close>

text \<open>
  From here on a configuration is the function \<open>conf\<close> from keys to what \<open>get_config\<close>
  returns (\<open>PNone\<close> when it returns its default \<open>None\<close>); \<open>now\<close> is \<open>time.time()\<close>.
\<close>

type_synonym config = "string \<Rightarrow> pyval"

definition conf_default :: "config \<Rightarrow> string \<Rightarrow> pyval \<Rightarrow> pyval" where
  "conf_default conf key dflt = (case conf key of PNone \<Rightarrow> dflt | v \<Rightarrow> v)"

definition config_of :: "(string \<Rightarrow> string) \<Rightarrow> config_store \<Rightarrow> string \<Rightarrow> py_exc + pyval" where
  "config_of ck st key = fst (get_config ck st key PNone)"

definition int_or_zero :: "pyval \<Rightarrow> py_exc + int" where
  "int_or_zero v = (if truthy v then py_int v else Inr 0)"

definition ctftime :: "config \<Rightarrow> rat \<Rightarrow> py_exc + bool" where
  "ctftime conf now =
     bindE (int_or_zero (conf ''start'')) (\<lambda>start.
     bindE (int_or_zero (conf ''end'')) (\<lambda>end_time.
     if start \<noteq> 0 \<and> end_time \<noteq> 0 \<and> of_int start < now \<and> now < of_int end_time then Inr True
     else if of_int start < now \<and> end_time = 0 then Inr True
     else if start = 0 \<and> now < of_int end_time then Inr True
     else if start = 0 \<and> end_time = 0 then Inr True
     else Inr False))"

definition ctf_paused :: "config \<Rightarrow> bool" where
  "ctf_paused conf = truthy (conf ''paused'')"

definition ctf_started :: "config \<Rightarrow> rat \<Rightarrow> py_exc + bool" where
  "ctf_started conf now = bindE (int_or_zero (conf ''start'')) (\<lambda>s. Inr (of_int s < now))"

definition ctf_ended :: "config \<Rightarrow> rat \<Rightarrow> py_exc + bool" where
  "ctf_ended conf now =
     bindE (int_or_zero (conf ''end'')) (\<lambda>e. if e \<noteq> 0 then Inr (of_int e < now) else Inr False)"

definition view_after_ctf :: "config \<Rightarrow> pyval" where
  "view_after_ctf conf = conf ''view_after_ctf''"

text \<open>\<open>unix_time_to_utc(t)\<close> in microseconds since the epoch; only numbers are accepted.\<close>

fun unix_time_to_utc :: "pyval \<Rightarrow> py_exc + int option" where
  "unix_time_to_utc PNone = Inr None"
| "unix_time_to_utc (PInt t) = Inr (Some (t * 1000000))"
| "unix_time_to_utc (PBool b) = Inr (Some (if b then 1000000 else 0))"
| "unix_time_to_utc (PFloat q) = Inr (Some (round (q * 1000000)))"
| "unix_time_to_utc _ = Inl TypeError"

text \<open>\<open>unix_time\<close>: the whole seconds of a stored date (\<open>int()\<close> truncates towards zero).\<close>

fun unix_time :: "int option \<Rightarrow> int option" where
  "unix_time None = None"
| "unix_time (Some us) = Some (if 0 \<le> us then us div 1000000 else - ((- us) div 1000000))"

fun unix_time_millis :: "int option \<Rightarrow> int option" where
  "unix_time_millis dt = (case unix_time dt of None \<Rightarrow> None | Some ut \<Rightarrow> Some (ut * 1000))"

text \<open>With both bounds set the clock is open exactly strictly between them.\<close>

lemma ctftime_bounded:
  assumes "conf ''start'' = PInt s" "conf ''end'' = PInt e" "s \<noteq> 0" "e \<noteq> 0"
  shows "ctftime conf now = Inr (of_int s < now \<and> now < of_int e)"
  using assms by (simp add: ctftime_def int_or_zero_def)

lemma ctftime_unbounded:
  assumes "conf ''start'' = PNone" "conf ''end'' = PNone"
  shows "ctftime conf now = Inr True"
  using assms by (simp add: ctftime_def int_or_zero_def)

text \<open>When the competition is neither open nor over, it has not started, or it is the very last instant.\<close>

lemma ctftime_closed_cases:
  assumes "ctftime conf now = Inr False" "ctf_ended conf now = Inr False" "ctf_started conf now = Inr True"
  shows "\<exists>e. int_or_zero (conf ''end'') = Inr e \<and> now = of_int e"
  using assms
  by (auto simp: ctftime_def ctf_ended_def ctf_started_def monad_simps split: if_splits)

section \<open>Account mode and branding\<close>

definition USERS_MODE :: string where "USERS_MODE = ''users''"

definition TEAMS_MODE :: string where "TEAMS_MODE = ''teams''"

definition user_mode :: "config \<Rightarrow> pyval" where
  "user_mode conf = conf ''user_mode''"

definition is_users_mode :: "config \<Rightarrow> bool" where
  "is_users_mode conf = py_eq (user_mode conf) (PStr USERS_MODE)"

definition is_teams_mode :: "config \<Rightarrow> bool" where
  "is_teams_mode conf = py_eq (user_mode conf) (PStr TEAMS_MODE)"

datatype account_model = ModelUsers | ModelTeams

definition get_model :: "config \<Rightarrow> account_model option" where
  "get_model conf = (if is_users_mode conf then Some ModelUsers
     else if is_teams_mode conf then Some ModelTeams else None)"

text \<open>The URL builder is Flask's; the endpoint and the argument name are the code's choice.\<close>

definition generate_account_url :: "config \<Rightarrow> int option \<Rightarrow> (string \<times> string \<times> int option) option" where
  "generate_account_url conf account_id =
     (if is_users_mode conf then Some (''admin.users_detail'', ''user_id'', account_id)
      else if is_teams_mode conf then Some (''admin.teams_detail'', ''team_id'', account_id)
      else None)"

definition ctf_name :: "config \<Rightarrow> pyval" where
  "ctf_name conf = (if truthy (conf ''ctf_name'') then conf ''ctf_name'' else PStr ''CTFd'')"

definition is_setup :: "config \<Rightarrow> bool" where
  "is_setup conf = truthy (conf ''setup'')"

definition is_scoreboard_frozen :: "config \<Rightarrow> rat \<Rightarrow> py_exc + bool" where
  "is_scoreboard_frozen conf now =
     (if truthy (conf ''freeze'')
      then bindE (py_int (conf ''freeze'')) (\<lambda>f. Inr (of_int f < now)) else Inr False)"

definition get_mail_provider :: "config \<Rightarrow> config \<Rightarrow> pyval" where
  "get_mail_provider app conf =
     (if truthy (app ''MAIL_PROVIDER'') then app ''MAIL_PROVIDER''
      else if truthy (conf ''mail_server'') \<and> truthy (conf ''mail_port'') then PStr ''smtp''
      else if truthy (conf ''mailgun_api_key'') \<and> truthy (conf ''mailgun_base_url'') then PStr ''mailgun''
      else if truthy (app ''MAIL_SERVER'') \<and> truthy (app ''MAIL_PORT'') then PStr ''smtp''
      else if truthy (app ''MAILGUN_API_KEY'') \<and> truthy (app ''MAILGUN_BASE_URL'') then PStr ''mailgun''
      else PNone)"

definition mailgun :: "config \<Rightarrow> config \<Rightarrow> bool" where
  "mailgun app conf =
     (truthy (app ''MAILGUN_API_KEY'') \<and> truthy (app ''MAILGUN_BASE_URL'') \<or>
      truthy (conf ''mailgun_api_key'') \<and> truthy (conf ''mailgun_base_url''))"

definition mailserver :: "config \<Rightarrow> config \<Rightarrow> bool" where
  "mailserver app conf =
     (truthy (app ''MAIL_SERVER'') \<and> truthy (app ''MAIL_PORT'') \<or>
      truthy (conf ''mail_server'') \<and> truthy (conf ''mail_port''))"

definition can_send_mail :: "config \<Rightarrow> config \<Rightarrow> bool" where
  "can_send_mail app conf = (mailserver app conf \<or> mailgun app conf)"

text \<open>A provider is chosen whenever mail can be sent.\<close>

lemma can_send_mail_provider:
  "can_send_mail app conf \<Longrightarrow> truthy (get_mail_provider app conf)"
  by (auto simp: can_send_mail_def mailserver_def mailgun_def get_mail_provider_def)

lemma modes_exclusive: "\<not> (is_users_mode conf \<and> is_teams_mode conf)"
  by (simp add: is_users_mode_def is_teams_mode_def USERS_MODE_def TEAMS_MODE_def)

end
