(* ===== verification/Models.thy ===== *)
theory Models imports Validators ConfigStore begin

text \<open>
  The tables of \<^verbatim>\<open>CTFd/models/__init__.py\<close> as records (one field per column, nullable
  columns as options, dates in microseconds), the database as the lists of their rows, and the
  methods of \<open>Users\<close>, \<open>Teams\<close>, \<open>Submissions\<close>, \<open>Hints\<close> and
  \<open>Awards\<close> that compute from them.
\<close>

section \<open>Rows\<close>

type_synonym date = "int option"

record challenge =
  ch_id :: int
  ch_name :: "string option"
  ch_description :: "string option"
  ch_connection_info :: "string option"
  ch_next_id :: "int option"
  ch_max_attempts :: "int option"
  ch_value :: "int option"
  ch_category :: "string option"
  ch_type :: "string option"
  ch_state :: string
  ch_requirements :: pyval
  ch_time_limit :: "int option"
  ch_time_finished :: date
  ch_start_time :: date
  ch_user_id :: int
  ch_cooldown :: "int option"
  ch_require_deploy :: bool
  ch_deploy_status :: "string option"
  ch_last_update :: date
  ch_image_link :: "string option"
  ch_deploy_file :: "string option"
  ch_cpu_limit :: "int option"
  ch_cpu_request :: "int option"
  ch_memory_limit :: "int option"
  ch_memory_request :: "int option"
  ch_use_gvisor :: "bool option"
  ch_harden_container :: "bool option"
  ch_max_deploy_count :: "int option"
  ch_difficulty :: "int option"
  ch_shared_instant :: bool
  ch_connection_protocol :: string

text \<open>The child table of dynamic challenges.\<close>

record dyn_row =
  dy_id :: int
  dy_initial :: "int option"
  dy_minimum :: "int option"
  dy_decay :: "int option"
  dy_function :: "string option"

record hint =
  hi_id :: int
  hi_type :: "string option"
  hi_challenge_id :: "int option"
  hi_content :: "string option"
  hi_cost :: "int option"
  hi_requirements :: pyval

record version =
  ve_id :: int
  ve_challenge_id :: int
  ve_version_number :: int
  ve_image_link :: "string option"
  ve_deploy_file :: "string option"
  ve_cpu_limit :: "int option"
  ve_cpu_request :: "int option"
  ve_memory_limit :: "int option"
  ve_memory_request :: "int option"
  ve_use_gvisor :: "bool option"
  ve_harden_container :: "bool option"
  ve_max_deploy_count :: "int option"
  ve_is_active :: bool
  ve_created_by :: "int option"
  ve_created_at :: date
  ve_notes :: "string option"

record award =
  aw_id :: int
  aw_user_id :: "int option"
  aw_team_id :: "int option"
  aw_type :: "string option"
  aw_name :: string
  aw_description :: "string option"
  aw_date :: date
  aw_value :: "int option"
  aw_category :: "string option"
  aw_icon :: "string option"
  aw_requirements :: pyval
  aw_request_key :: "string option"
  aw_request_hash :: "string option"

record flag =
  fl_id :: int
  fl_challenge_id :: "int option"
  fl_type :: "string option"
  fl_content :: "string option"
  fl_data :: "string option"

record challenge_file =
  fi_id :: int
  fi_type :: "string option"
  fi_location :: "string option"
  fi_challenge_id :: "int option"

record tag =
  ta_id :: int
  ta_challenge_id :: "int option"
  ta_value :: "string option"

record field_def =
  fd_id :: int
  fd_name :: "string option"
  fd_type :: "string option"
  fd_field_type :: "string option"
  fd_description :: "string option"
  fd_required :: "bool option"
  fd_public :: "bool option"
  fd_editable :: "bool option"

record field_entry =
  fe_id :: int
  fe_type :: "string option"
  fe_value :: pyval
  fe_field_id :: "int option"
  fe_owner_id :: "int option"

record user =
  us_id :: int
  us_oauth_id :: "int option"
  us_name :: string
  us_password :: "string option"
  us_email :: "string option"
  us_type :: "string option"
  us_secret :: "string option"
  us_website :: "string option"
  us_affiliation :: "string option"
  us_country :: "string option"
  us_bracket_id :: "int option"
  us_hidden :: "bool option"
  us_banned :: "bool option"
  us_verified :: "bool option"
  us_language :: "string option"
  us_team_id :: "int option"
  us_created :: date

record team =
  te_id :: int
  te_oauth_id :: "int option"
  te_name :: string
  te_email :: "string option"
  te_password :: "string option"
  te_secret :: "string option"
  te_website :: "string option"
  te_affiliation :: "string option"
  te_country :: "string option"
  te_bracket_id :: "int option"
  te_hidden :: "bool option"
  te_banned :: "bool option"
  te_captain_id :: "int option"
  te_created :: date

record achievement =
  ac_id :: int
  ac_user_id :: "int option"
  ac_team_id :: "int option"
  ac_challenge_id :: "int option"
  ac_name :: "string option"
  ac_achievement_id :: "int option"

record award_badge =
  ab_id :: int
  ab_user_id :: "int option"
  ab_team_id :: "int option"
  ab_challenge_id :: "int option"
  ab_name :: "string option"

record submission =
  sub_id :: int
  sub_challenge_id :: "int option"
  sub_user_id :: "int option"
  sub_team_id :: "int option"
  sub_ip :: "string option"
  sub_provided :: "string option"
  sub_type :: "string option"
  sub_date :: date

text \<open>The child table of correct submissions, with its own copy of the three references.\<close>

record solve_row =
  sv_id :: int
  sv_challenge_id :: "int option"
  sv_user_id :: "int option"
  sv_team_id :: "int option"

record unlock =
  un_id :: int
  un_user_id :: "int option"
  un_team_id :: "int option"
  un_target :: "int option"
  un_date :: date
  un_type :: "string option"

record token =
  tk_id :: int
  tk_type :: "string option"
  tk_user_id :: "int option"
  tk_created :: date
  tk_expiration :: date
  tk_description :: "string option"
  tk_value :: "string option"

record bracket =
  br_id :: int
  br_name :: "string option"
  br_description :: "string option"
  br_type :: "string option"

record db =
  challenges :: "challenge list"
  dynamic_rows :: "dyn_row list"
  hints :: "hint list"
  versions :: "version list"
  awards :: "award list"
  flags :: "flag list"
  files :: "challenge_file list"
  tags :: "tag list"
  field_defs :: "field_def list"
  field_entries :: "field_entry list"
  users :: "user list"
  teams :: "team list"
  achievements :: "achievement list"
  award_badges :: "award_badge list"
  submissions :: "submission list"
  solve_rows :: "solve_row list"
  unlocks :: "unlock list"
  tokens :: "token list"
  brackets :: "bracket list"

section \<open>Discriminators\<close>

fun process_result_value :: "string option \<Rightarrow> string" where
  "process_result_value (Some v) = v"
| "process_result_value None = ''__invalid__''"

datatype submission_class = Submissions | Solves | Fails | Discards

text \<open>\<open>Submissions.get_child(type)\<close>: the base class has no discriminator of its own.\<close>

fun get_child :: "pyval \<Rightarrow> py_exc + submission_class" where
  "get_child (PStr s) =
     (if s = ''correct'' then Inr Solves
      else if s = ''incorrect'' then Inr Fails
      else if s = ''discard'' then Inr Discards
      else Inl KeyError)"
| "get_child PNone = Inr Submissions"
| "get_child _ = Inl KeyError"

text \<open>\<open>Flags.validate_type\<close> while SQLAlchemy initialises the base mapper.\<close>

definition flag_validate_type ::
  "string list \<Rightarrow> string list \<Rightarrow> bool \<Rightarrow> bool \<Rightarrow> pyval \<Rightarrow> py_exc + string" where
  "flag_validate_type challenge_classes flag_classes is_base type_set value =
     (if value = PNone \<and> is_base \<and> \<not> type_set then Inr ''static''
      else require_supported_type challenge_classes flag_classes ''flags'' value)"

section \<open>Accounts\<close>

definition by_mode :: "config \<Rightarrow> 'a option \<Rightarrow> 'a option \<Rightarrow> 'a option" where
  "by_mode conf of_team of_user =
     (if is_teams_mode conf then of_team else if is_users_mode conf then of_user else None)"

definition user_account_id :: "config \<Rightarrow> user \<Rightarrow> int option" where
  "user_account_id conf u = by_mode conf (us_team_id u) (Some (us_id u))"

definition submission_account_id :: "config \<Rightarrow> submission \<Rightarrow> int option" where
  "submission_account_id conf s = by_mode conf (sub_team_id s) (sub_user_id s)"

definition award_account_id :: "config \<Rightarrow> award \<Rightarrow> int option" where
  "award_account_id conf a = by_mode conf (aw_team_id a) (aw_user_id a)"

definition unlock_account_id :: "config \<Rightarrow> unlock \<Rightarrow> int option" where
  "unlock_account_id conf u = by_mode conf (un_team_id u) (un_user_id u)"

text \<open>SQL comparison of two nullable columns: a null equals nothing.\<close>

fun sql_eq :: "'a option \<Rightarrow> 'a option \<Rightarrow> bool" where
  "sql_eq (Some a) (Some b) = (a = b)"
| "sql_eq _ _ = False"

text \<open>\<open>filter_by(col=value)\<close>: SQLAlchemy renders a Python \<open>None\<close> as \<open>IS NULL\<close>.\<close>

definition filter_eq :: "'a option \<Rightarrow> 'a option \<Rightarrow> bool" where
  "filter_eq col value = (col = value)"

definition user_by_id :: "db \<Rightarrow> int \<Rightarrow> user option" where
  "user_by_id d i = first_where (\<lambda>u. us_id u = i) (users d)"

definition team_by_id :: "db \<Rightarrow> int \<Rightarrow> team option" where
  "team_by_id d i = first_where (\<lambda>t. te_id t = i) (teams d)"

definition challenge_by_id :: "db \<Rightarrow> int \<Rightarrow> challenge option" where
  "challenge_by_id d i = first_where (\<lambda>c. ch_id c = i) (challenges d)"

definition first_or_404 :: "'r option \<Rightarrow> py_exc + 'r" where
  "first_or_404 r = (case r of None \<Rightarrow> Inl (HTTPAbort 404) | Some x \<Rightarrow> Inr x)"

definition user_team :: "db \<Rightarrow> user \<Rightarrow> team option" where
  "user_team d u = (case us_team_id u of None \<Rightarrow> None | Some t \<Rightarrow> team_by_id d t)"

definition team_members :: "db \<Rightarrow> team \<Rightarrow> user list" where
  "team_members d t = filter (\<lambda>u. us_team_id u = Some (te_id t)) (users d)"

section \<open>Submissions, solves and fails\<close>

text \<open>
  Joined-table inheritance: a \<open>Solves\<close> object is a submission row together with its row in
  the child table, whose references it shows.
\<close>

definition with_child :: "submission \<Rightarrow> solve_row \<Rightarrow> submission" where
  "with_child s c = s\<lparr>sub_challenge_id := sv_challenge_id c, sub_user_id := sv_user_id c,
                      sub_team_id := sv_team_id c\<rparr>"

definition solve_of :: "db \<Rightarrow> submission \<Rightarrow> submission option" where
  "solve_of d s = map_option (with_child s) (first_where (\<lambda>c. sv_id c = sub_id s) (solve_rows d))"

definition solves :: "db \<Rightarrow> submission list" where
  "solves d = List.map_filter (solve_of d) (submissions d)"

definition fails :: "db \<Rightarrow> submission list" where
  "fails d = filter (\<lambda>s. sub_type s = Some ''incorrect'') (submissions d)"

text \<open>\<open>query.filter(date < dt)\<close>: a null date is not before anything.\<close>

fun before :: "date \<Rightarrow> int \<Rightarrow> bool" where
  "before None t = False"
| "before (Some x) t = (x < t)"

text \<open>The public cut-off: \<open>None\<close> when scores are not frozen or an administrator asks.\<close>

definition freeze_bound :: "config \<Rightarrow> bool \<Rightarrow> py_exc + int option" where
  "freeze_bound conf admin =
     (if truthy (conf ''freeze'') \<and> \<not> admin then unix_time_to_utc (conf ''freeze'') else Inr None)"

fun visible_at :: "int option \<Rightarrow> date \<Rightarrow> bool" where
  "visible_at None x = True"
| "visible_at (Some t) x = before x t"

text \<open>\<open>ORDER BY date DESC\<close>, stable, nulls last as in MariaDB.\<close>

definition date_key :: "date \<Rightarrow> int \<times> int" where
  "date_key x = (case x of None \<Rightarrow> (0, 0) | Some t \<Rightarrow> (1, t))"

fun date_le :: "date \<Rightarrow> date \<Rightarrow> bool" where
  "date_le None _ = True"
| "date_le (Some a) None = False"
| "date_le (Some a) (Some b) = (a \<le> b)"

fun insert_desc :: "('r \<Rightarrow> date) \<Rightarrow> 'r \<Rightarrow> 'r list \<Rightarrow> 'r list" where
  "insert_desc f x [] = [x]"
| "insert_desc f x (y # ys) = (if date_le (f y) (f x) then x # y # ys else y # insert_desc f x ys)"

definition sort_desc :: "('r \<Rightarrow> date) \<Rightarrow> 'r list \<Rightarrow> 'r list" where
  "sort_desc f xs = foldr (insert_desc f) xs []"

definition user_get_solves :: "db \<Rightarrow> config \<Rightarrow> user \<Rightarrow> bool \<Rightarrow> py_exc + submission list" where
  "user_get_solves d conf u admin =
     bindE (freeze_bound conf admin) (\<lambda>b. Inr (filter (\<lambda>s. visible_at b (sub_date s))
       (sort_desc sub_date (filter (\<lambda>s. sub_user_id s = Some (us_id u)) (solves d)))))"

definition user_get_fails :: "db \<Rightarrow> config \<Rightarrow> user \<Rightarrow> bool \<Rightarrow> py_exc + submission list" where
  "user_get_fails d conf u admin =
     bindE (freeze_bound conf admin) (\<lambda>b. Inr (filter (\<lambda>s. visible_at b (sub_date s))
       (sort_desc sub_date (filter (\<lambda>s. sub_user_id s = Some (us_id u)) (fails d)))))"

definition user_get_awards :: "db \<Rightarrow> config \<Rightarrow> user \<Rightarrow> bool \<Rightarrow> py_exc + award list" where
  "user_get_awards d conf u admin =
     bindE (freeze_bound conf admin) (\<lambda>b. Inr (filter (\<lambda>a. visible_at b (aw_date a))
       (sort_desc aw_date (filter (\<lambda>a. aw_user_id a = Some (us_id u)) (awards d)))))"

definition of_member :: "db \<Rightarrow> team \<Rightarrow> int option \<Rightarrow> bool" where
  "of_member d t i = (\<exists>m\<in>set (team_members d t). i = Some (us_id m))"

definition team_get_solves :: "db \<Rightarrow> config \<Rightarrow> team \<Rightarrow> bool \<Rightarrow> py_exc + submission list" where
  "team_get_solves d conf t admin =
     bindE (freeze_bound conf admin) (\<lambda>b. Inr (filter (\<lambda>s. visible_at b (sub_date s))
       (sort_desc sub_date (filter (\<lambda>s. of_member d t (sub_user_id s)) (solves d)))))"

definition team_get_fails :: "db \<Rightarrow> config \<Rightarrow> team \<Rightarrow> bool \<Rightarrow> py_exc + submission list" where
  "team_get_fails d conf t admin =
     bindE (freeze_bound conf admin) (\<lambda>b. Inr (filter (\<lambda>s. visible_at b (sub_date s))
       (sort_desc sub_date (filter (\<lambda>s. of_member d t (sub_user_id s)) (fails d)))))"

definition team_get_awards :: "db \<Rightarrow> config \<Rightarrow> team \<Rightarrow> bool \<Rightarrow> py_exc + award list" where
  "team_get_awards d conf t admin =
     bindE (freeze_bound conf admin) (\<lambda>b. Inr (filter (\<lambda>a. visible_at b (aw_date a))
       (sort_desc aw_date (filter (\<lambda>a. of_member d t (aw_user_id a)) (awards d)))))"

section \<open>Scores\<close>

definition sum_values :: "int option list \<Rightarrow> int" where
  "sum_values vs = sum_list (map (\<lambda>v. case v of None \<Rightarrow> 0 | Some x \<Rightarrow> x) vs)"

text \<open>The inner join of solves with challenges: a solve of a deleted challenge contributes nothing.\<close>

definition solve_value :: "db \<Rightarrow> submission \<Rightarrow> int option" where
  "solve_value d s = (case sub_challenge_id s of None \<Rightarrow> None
     | Some c \<Rightarrow> (case challenge_by_id d c of None \<Rightarrow> None | Some ch \<Rightarrow> ch_value ch))"

text \<open>
  \<open>Users.get_score\<close>; \<open>freeze_row\<close> is the raw \<open>value\<close> column of the
  \<open>freeze\<close> configuration row, which this method reads without \<open>get_config\<close>.
\<close>

definition raw_freeze :: "string option \<Rightarrow> bool \<Rightarrow> py_exc + int option" where
  "raw_freeze freeze_row admin =
     (if admin then Inr None else case freeze_row of
        None \<Rightarrow> Inr None
      | Some v \<Rightarrow> if v = [] then Inr None
                  else bindE (py_int (PStr v)) (\<lambda>f. Inr (Some (f * 1000000))))"

definition user_get_score :: "db \<Rightarrow> string option \<Rightarrow> user \<Rightarrow> bool \<Rightarrow> py_exc + int" where
  "user_get_score d freeze_row u admin =
     bindE (raw_freeze freeze_row admin) (\<lambda>b. Inr (
       sum_values (map (solve_value d)
         (filter (\<lambda>s. sub_user_id s = Some (us_id u) \<and> visible_at b (sub_date s)) (solves d))) +
       sum_values (map aw_value
         (filter (\<lambda>a. aw_user_id a = Some (us_id u) \<and> visible_at b (aw_date a)) (awards d)))))"

definition team_get_score :: "db \<Rightarrow> string option \<Rightarrow> team \<Rightarrow> bool \<Rightarrow> py_exc + int" where
  "team_get_score d freeze_row t admin =
     foldE (\<lambda>score m. bindE (user_get_score d freeze_row m admin) (\<lambda>s. Inr (score + s))) 0
       (team_members d t)"

section \<open>Profile fields and brackets\<close>

definition public_field :: "db \<Rightarrow> field_entry \<Rightarrow> bool" where
  "public_field d e = (case fe_field_id e of None \<Rightarrow> False
     | Some f \<Rightarrow> (case first_where (\<lambda>x. fd_id x = f) (field_defs d) of None \<Rightarrow> False
         | Some fd \<Rightarrow> fd_public fd = Some True))"

definition get_fields :: "db \<Rightarrow> string \<Rightarrow> int \<Rightarrow> bool \<Rightarrow> field_entry list" where
  "get_fields d kind owner admin =
     (let mine = filter (\<lambda>e. fe_type e = Some kind \<and> fe_owner_id e = Some owner) (field_entries d) in
      if admin then mine else filter (\<lambda>e. public_field d e \<and> truthy (fe_value e)) mine)"

text \<open>
  The Python value of \<open>required.issubset(submitted) and missing_bracket\<close> where
  \<open>missing_bracket\<close> is \<open>count and bracket_id is not None\<close>: \<open>and\<close> returns one of
  its operands, so the result is \<open>False\<close>, the integer \<open>0\<close>, or a boolean.
\<close>

definition filled_all_required_fields :: "db \<Rightarrow> string \<Rightarrow> string \<Rightarrow> int \<Rightarrow> int option \<Rightarrow> pyval" where
  "filled_all_required_fields d kind bracket_type owner bracket_id =
     (let required = map fd_id (filter (\<lambda>f. fd_type f = Some kind \<and> fd_required f = Some True) (field_defs d));
          submitted = map fe_field_id (filter (\<lambda>e. fe_type e = Some kind \<and> fe_owner_id e = Some owner)
                        (field_entries d));
          count = int (length (filter (\<lambda>b. br_type b = Some bracket_type) (brackets d))) in
      if \<not> list_all (\<lambda>f. Some f \<in> set submitted) required then PBool False
      else if count = 0 then PInt 0
      else PBool (bracket_id \<noteq> None))"

definition user_filled_all_required_fields :: "db \<Rightarrow> user \<Rightarrow> pyval" where
  "user_filled_all_required_fields d u =
     filled_all_required_fields d ''user'' ''users'' (us_id u) (us_bracket_id u)"

definition team_filled_all_required_fields :: "db \<Rightarrow> team \<Rightarrow> pyval" where
  "team_filled_all_required_fields d t =
     filled_all_required_fields d ''team'' ''teams'' (te_id t) (te_bracket_id t)"

section \<open>Challenge and hint attributes\<close>

text \<open>\<open>requirements.get("prerequisites", [])\<close>\<close>

definition prerequisites_of :: "pyval \<Rightarrow> pyval" where
  "prerequisites_of req = (case req of PDict r \<Rightarrow> dget_default r ''prerequisites'' (PList []) | _ \<Rightarrow> PList [])"

definition hint_prerequisites :: "hint \<Rightarrow> pyval" where
  "hint_prerequisites h = (if truthy (hi_requirements h) then prerequisites_of (hi_requirements h) else PList [])"

text \<open>The members of a stored prerequisite list that equal an integer, as Python compares them.\<close>

definition id_list :: "pyval \<Rightarrow> int list" where
  "id_list v = (case v of PList l \<Rightarrow>
      List.map_filter (\<lambda>x. case x of PInt i \<Rightarrow> Some i | PBool b \<Rightarrow> Some (if b then 1 else 0)
        | PFloat q \<Rightarrow> (if q = of_int \<lfloor>q\<rfloor> then Some \<lfloor>q\<rfloor> else None) | _ \<Rightarrow> None) l | _ \<Rightarrow> [])"

text \<open>\<open>missing_challenge_type_data(value, challenge_id)\<close>: \<open>children\<close> gives the ids in the
  child table of a registered class, or \<open>None\<close> when the class uses the base table itself.\<close>

definition missing_challenge_type_data ::
  "(string \<times> int list option) list \<Rightarrow> string \<Rightarrow> int \<Rightarrow> bool" where
  "missing_challenge_type_data classes value challenge_id =
     (case map_of classes value of
        None \<Rightarrow> False
      | Some None \<Rightarrow> False
      | Some (Some ids) \<Rightarrow> challenge_id \<notin> set ids)"

definition get_chal_class ::
  "(string \<times> int list option) list \<Rightarrow> string \<Rightarrow> int option \<Rightarrow> py_exc + string" where
  "get_chal_class classes class_id challenge_id =
     (if map_of classes class_id = None then Inl KeyError
      else case challenge_id of
        None \<Rightarrow> Inr class_id
      | Some i \<Rightarrow> if missing_challenge_type_data classes class_id i then Inl KeyError else Inr class_id)"

text \<open>\<open>ChallengeVersion.image_tag\<close> from the parsed link: what follows the last colon.\<close>

definition image_tag :: "pyval option \<Rightarrow> string" where
  "image_tag parsed =
     (case parsed of
        Some (PDict obj) \<Rightarrow> (case dget_default obj ''imageLink'' (PStr []) of
            PStr link \<Rightarrow> (if link = [] then [] else last (split_on (CHR '':'') link))
          | _ \<Rightarrow> [])
      | _ \<Rightarrow> [])"

text \<open>\<open>ChallengeVersion.expose_port\<close>: any stored value is returned as it is.\<close>

definition expose_port :: "pyval option \<Rightarrow> pyval" where
  "expose_port parsed =
     (case parsed of Some (PDict obj) \<Rightarrow> dget_default obj ''exposedPort'' (PStr []) | _ \<Rightarrow> PStr [])"

section \<open>Facts\<close>

lemma set_insert_desc: "set (insert_desc f x ys) = insert x (set ys)"
  by (induction ys) auto

lemma set_sort_desc: "set (sort_desc f xs) = set xs"
  by (induction xs) (auto simp: sort_desc_def set_insert_desc)

lemma date_le_trans: "date_le a b \<Longrightarrow> date_le b c \<Longrightarrow> date_le a c"
  by (cases a; cases b; cases c) auto

lemma date_le_total: "date_le a b \<or> date_le b a"
  by (cases a; cases b) auto

lemma sorted_insert_desc:
  "sorted_wrt (\<lambda>a b. date_le (f b) (f a)) ys \<Longrightarrow>
   sorted_wrt (\<lambda>a b. date_le (f b) (f a)) (insert_desc f x ys)"
proof (induction ys)
  case (Cons y ys)
  then show ?case
    using date_le_total[of "f y" "f x"]
    by (auto simp: set_insert_desc intro: date_le_trans)
qed simp

lemma sorted_sort_desc: "sorted_wrt (\<lambda>a b. date_le (f b) (f a)) (sort_desc f xs)"
  by (induction xs) (auto simp: sort_desc_def sorted_insert_desc)

lemma solve_of_Some:
  "solve_of d s = Some x \<Longrightarrow> sub_id x = sub_id s \<and> sub_date x = sub_date s \<and> sub_type x = sub_type s"
  by (auto simp: solve_of_def with_child_def)

lemma set_solves: "set (solves d) = {x. \<exists>s\<in>set (submissions d). solve_of d s = Some x}"
  by (force simp: solves_def List.map_filter_def image_iff)

lemma user_get_score_visible:
  "user_get_score d fr u True = Inr n \<Longrightarrow>
   n = sum_values (map (solve_value d) (filter (\<lambda>s. sub_user_id s = Some (us_id u)) (solves d))) +
       sum_values (map aw_value (filter (\<lambda>a. aw_user_id a = Some (us_id u)) (awards d)))"
  by (simp add: user_get_score_def raw_freeze_def)

lemma sum_values_Nil [simp]: "sum_values [] = 0"
  by (simp add: sum_values_def)

lemma sum_values_Cons [simp]: "sum_values (v # vs) = (case v of None \<Rightarrow> 0 | Some x \<Rightarrow> x) + sum_values vs"
  by (simp add: sum_values_def)

lemma sum_values_append [simp]: "sum_values (xs @ ys) = sum_values xs + sum_values ys"
  by (simp add: sum_values_def)

section \<open>Concrete instances for the witnesses\<close>

definition empty_db :: db where
  "empty_db = \<lparr>challenges = [], dynamic_rows = [], hints = [], versions = [], awards = [], flags = [],
     files = [], tags = [], field_defs = [], field_entries = [], users = [], teams = [],
     achievements = [], award_badges = [], submissions = [], solve_rows = [], unlocks = [],
     tokens = [], brackets = []\<rparr>"

definition mode_conf :: "string \<Rightarrow> config" where
  "mode_conf mode key = (if key = ''user_mode'' then PStr mode else PNone)"

definition sample_user :: "int \<Rightarrow> int option \<Rightarrow> user" where
  "sample_user i tid = \<lparr>us_id = i, us_oauth_id = None, us_name = ''player'', us_password = None,
     us_email = None, us_type = Some ''user'', us_secret = None, us_website = None,
     us_affiliation = None, us_country = None, us_bracket_id = None, us_hidden = Some False,
     us_banned = Some False, us_verified = Some True, us_language = None, us_team_id = tid,
     us_created = None\<rparr>"

definition sample_team :: "int \<Rightarrow> int option \<Rightarrow> team" where
  "sample_team i captain = \<lparr>te_id = i, te_oauth_id = None, te_name = ''team'', te_email = None,
     te_password = None, te_secret = None, te_website = None, te_affiliation = None,
     te_country = None, te_bracket_id = None, te_hidden = Some False, te_banned = Some False,
     te_captain_id = captain, te_created = None\<rparr>"

definition sample_challenge :: "int \<Rightarrow> int option \<Rightarrow> challenge" where
  "sample_challenge i v = \<lparr>ch_id = i, ch_name = Some ''web'', ch_description = None,
     ch_connection_info = None, ch_next_id = None, ch_max_attempts = Some 0, ch_value = v,
     ch_category = Some ''web'', ch_type = Some ''standard'', ch_state = ''visible'',
     ch_requirements = PNone, ch_time_limit = None, ch_time_finished = None, ch_start_time = None,
     ch_user_id = 1, ch_cooldown = Some 0, ch_require_deploy = False, ch_deploy_status = None,
     ch_last_update = None, ch_image_link = None, ch_deploy_file = None, ch_cpu_limit = None,
     ch_cpu_request = None, ch_memory_limit = None, ch_memory_request = None, ch_use_gvisor = None,
     ch_harden_container = None, ch_max_deploy_count = Some 0, ch_difficulty = None,
     ch_shared_instant = False, ch_connection_protocol = ''http''\<rparr>"

lemma mode_conf_simps [simp]:
  "is_users_mode (mode_conf ''users'')" "\<not> is_teams_mode (mode_conf ''users'')"
  "is_teams_mode (mode_conf ''teams'')" "\<not> is_users_mode (mode_conf ''teams'')"
  by (simp_all add: mode_conf_def is_users_mode_def is_teams_mode_def user_mode_def USERS_MODE_def TEAMS_MODE_def)

end
