(* ===== verification/Decay.thy ===== *)
theory Decay imports Models "HOL-Library.Log_Nat" begin

text \<open>
  Dynamic values: \<^verbatim>\<open>plugins/dynamic_challenges/decay.py\<close>.  The logarithmic decay is
  computed in IEEE-754 doubles, so the model rounds where CPython rounds: \<open>fl\<close> is
  round-to-nearest-even to 53 significant bits (no value here is near the exponent limits).
\<close>

section \<open>Double-precision rounding\<close>

definition rne :: "rat \<Rightarrow> int" where
  "rne x = (let f = \<lfloor>x\<rfloor>; r = x - of_int f in
     if r < 1/2 then f else if 1/2 < r then f + 1 else if even f then f else f + 1)"

text \<open>The binary exponent of a positive rational.\<close>

definition expo :: "rat \<Rightarrow> int" where
  "expo x = (if 1 \<le> x then int (floorlog 2 (nat \<lfloor>x\<rfloor>)) - 1
             else - int (floorlog 2 (nat (\<lceil>1 / x\<rceil> - 1))))"

text \<open>One unit in the last place of a double with binary exponent \<open>e\<close>.\<close>

definition pow2 :: "int \<Rightarrow> rat" where
  "pow2 e = (if 0 \<le> e then 2 ^ nat e else 1 / 2 ^ nat (- e))"

definition fl :: "rat \<Rightarrow> rat" where
  "fl x = (if x = 0 then 0
     else let u = pow2 (expo \<bar>x\<bar> - 52) in of_int (rne (x / u)) * u)"

lemma pow2_pos [simp]: "0 < pow2 e"
  by (simp add: pow2_def)

lemma pow2_powi: "pow2 e = 2 powi e"
  by (simp add: pow2_def power_int_def inverse_eq_divide power_one_over)

lemma pow2_add: "pow2 (a + b) = pow2 a * pow2 b"
  by (simp add: pow2_powi power_int_add)

lemma pow2_mono: "a \<le> b \<Longrightarrow> pow2 a \<le> pow2 b"
  by (simp add: pow2_powi power_int_increasing)

lemma pow2_less_iff: "pow2 a < pow2 b \<longleftrightarrow> a < b"
  using pow2_mono[of b a] by (metis leI linorder_not_less pow2_powi power_int_strict_increasing one_less_numeral_iff semiring_norm(76))

lemma pow2_nat [simp]: "pow2 (int n) = 2 ^ n"
  by (simp add: pow2_def)

lemma of_nat_pow_le: "2 ^ k \<le> n \<Longrightarrow> (2::rat) ^ k \<le> of_nat n"
  by (metis of_nat_le_iff of_nat_numeral of_nat_power)

lemma of_nat_less_pow: "n < 2 ^ k \<Longrightarrow> (of_nat n :: rat) + 1 \<le> 2 ^ k"
  by (metis Suc_leI add.commute of_nat_Suc of_nat_le_iff of_nat_numeral of_nat_power)

lemma floorlog_two:
  assumes "0 < n"
  shows "0 < floorlog 2 n" "(2::rat) ^ (floorlog 2 n - 1) \<le> of_nat n" "(of_nat n :: rat) + 1 \<le> 2 ^ floorlog 2 n"
proof -
  have b: "2 ^ (floorlog 2 n - 1) \<le> n" "n < 2 ^ floorlog 2 n"
    using floorlog_bounds[of n 2] assms by auto
  show "0 < floorlog 2 n" using assms by (simp add: floorlog_def)
  show "(2::rat) ^ (floorlog 2 n - 1) \<le> of_nat n" by (rule of_nat_pow_le[OF b(1)])
  show "(of_nat n :: rat) + 1 \<le> 2 ^ floorlog 2 n" by (rule of_nat_less_pow[OF b(2)])
qed

lemma expo_bounds_ge1:
  assumes "1 \<le> x"
  shows "pow2 (expo x) \<le> x \<and> x < pow2 (expo x + 1)"
proof -
  define n where "n = nat \<lfloor>x\<rfloor>"
  have fx: "of_int \<lfloor>x\<rfloor> \<le> x" "x < of_int \<lfloor>x\<rfloor> + 1" "1 \<le> \<lfloor>x\<rfloor>"
    using assms floor_correct[of x] by (auto simp: le_floor_iff)
  have n: "0 < n" "of_nat n \<le> x" "x < of_nat n + 1"
    using fx by (auto simp: n_def)
  have e: "expo x = int (floorlog 2 n - 1)" "expo x + 1 = int (floorlog 2 n)"
    using assms floorlog_two(1)[OF n(1)] by (auto simp: expo_def n_def)
  have "pow2 (expo x) \<le> x" using floorlog_two(2)[OF n(1)] n(2) by (simp only: e(1) pow2_nat)
  moreover have "x < pow2 (expo x + 1)"
    using floorlog_two(3)[OF n(1)] n(3) by (simp only: e(2) pow2_nat)
  ultimately show ?thesis by simp
qed

lemma expo_bounds_less1:
  assumes "0 < x" "x < 1"
  shows "pow2 (expo x) \<le> x \<and> x < pow2 (expo x + 1)"
proof -
  define c where "c = \<lceil>1 / x\<rceil>"
  define m where "m = nat (c - 1)"
  have c: "1 / x \<le> of_int c" "of_int c - 1 < 1 / x"
    using ceiling_correct[of "1 / x"] by (simp_all add: c_def)
  have "2 \<le> c" using assms c(1) by (simp add: c_def le_ceiling_iff)
  then have m: "0 < m" "of_int c = (of_nat m :: rat) + 1" by (auto simp: m_def)
  have f: "0 < floorlog 2 m" using m(1) by (rule floorlog_two)
  have e: "expo x = - int (floorlog 2 m)" using assms by (simp add: expo_def m_def c_def)
  have p: "pow2 (expo x) = 1 / 2 ^ floorlog 2 m" "pow2 (expo x + 1) = 1 / 2 ^ (floorlog 2 m - 1)"
    using e f by (auto simp: pow2_def nat_diff_distrib Suc_leI)
  have up: "1 / x \<le> 2 ^ floorlog 2 m" using floorlog_two(3)[OF m(1)] c(1) m(2) by simp
  have low: "2 ^ (floorlog 2 m - 1) < 1 / x" using floorlog_two(2)[OF m(1)] c(2) m(2) by linarith
  have "1 / 2 ^ floorlog 2 m \<le> x" using up assms by (simp add: field_simps)
  moreover have "x < 1 / 2 ^ (floorlog 2 m - 1)" using low assms by (simp add: field_simps)
  ultimately show ?thesis using p by simp
qed

lemma expo_bounds: "0 < x \<Longrightarrow> pow2 (expo x) \<le> x \<and> x < pow2 (expo x + 1)"
  using expo_bounds_ge1 expo_bounds_less1 by (cases "1 \<le> x") auto

lemma expo_mono: "0 < x \<Longrightarrow> x \<le> y \<Longrightarrow> expo x \<le> expo y"
proof -
  assume x: "0 < x" and xy: "x \<le> y"
  have "pow2 (expo x) \<le> x" "y < pow2 (expo y + 1)"
    using expo_bounds x xy by (auto intro: order_less_le_trans)
  with xy have "pow2 (expo x) < pow2 (expo y + 1)" by linarith
  then show ?thesis by (simp add: pow2_less_iff)
qed

lemma rne_of_int [simp]: "rne (of_int n) = n"
  by (simp add: rne_def)

lemma rne_mono: "x \<le> y \<Longrightarrow> rne x \<le> rne y"
proof -
  assume xy: "x \<le> y"
  then have f: "\<lfloor>x\<rfloor> \<le> \<lfloor>y\<rfloor>" by (rule floor_mono)
  show ?thesis
  proof (cases "\<lfloor>x\<rfloor> = \<lfloor>y\<rfloor>")
    case True
    with xy show ?thesis by (auto simp: rne_def Let_def)
  next
    case False
    with f have "\<lfloor>x\<rfloor> + 1 \<le> \<lfloor>y\<rfloor>" by simp
    moreover have "rne x \<le> \<lfloor>x\<rfloor> + 1" "\<lfloor>y\<rfloor> \<le> rne y" by (auto simp: rne_def Let_def)
    ultimately show ?thesis by linarith
  qed
qed

lemma rne_lower: "x - 1/2 \<le> of_int (rne x)"
proof -
  have "x < of_int \<lfloor>x\<rfloor> + 1" by (simp add: floor_less_cancel)
  then show ?thesis by (auto simp: rne_def Let_def)
qed

lemma rne_eqI: "\<bar>x - of_int n\<bar> < 1 / 2 \<Longrightarrow> rne x = n"
proof -
  assume x: "\<bar>x - of_int n\<bar> < 1 / 2"
  then have "\<lfloor>x\<rfloor> = n \<or> \<lfloor>x\<rfloor> = n - 1" unfolding floor_eq_iff by auto
  then show ?thesis using x by (elim disjE) (auto simp: rne_def Let_def abs_if split: if_splits)
qed

lemma rne_uminus: "rne (- x) = - rne x"
proof (cases "x \<in> \<int>")
  case True
  then show ?thesis by (metis Ints_cases of_int_minus rne_of_int)
next
  case False
  have "\<lfloor>- x\<rfloor> = - \<lfloor>x\<rfloor> - 1"
    using False by (metis (no_types) add.inverse_inverse ceiling_altdef ceiling_def minus_diff_eq
        uminus_add_conv_diff Ints_of_int minus_equation_iff diff_minus_eq_add add.commute)
  then show ?thesis by (auto simp: rne_def Let_def)
qed

lemma fl_0 [simp]: "fl 0 = 0"
  by (simp add: fl_def)

lemma fl_uminus: "fl (- x) = - fl x"
proof -
  have "- x / u = - (x / u)" for u :: rat by simp
  then show ?thesis by (simp add: fl_def Let_def rne_uminus)
qed

text \<open>A rounded value lies between the powers of two around its argument.\<close>

lemma fl_pos_bounds:
  assumes "0 < x"
  shows "pow2 (expo x) \<le> fl x \<and> fl x \<le> pow2 (expo x + 1)"
proof -
  let ?u = "pow2 (expo x - 52)"
  have b: "pow2 (expo x) = 2 ^ 52 * ?u" "pow2 (expo x + 1) = 2 ^ 53 * ?u"
    using pow2_add[of 52 "expo x - 52"] pow2_add[of 53 "expo x - 52"] pow2_nat[of 52] pow2_nat[of 53]
    by (simp_all del: pow2_nat add: algebra_simps)
  have "of_int (2 ^ 52) \<le> x / ?u" "x / ?u \<le> of_int (2 ^ 53)"
    using expo_bounds[OF assms] b by (auto simp: field_simps)
  then have "2 ^ 52 \<le> rne (x / ?u)" "rne (x / ?u) \<le> 2 ^ 53"
    using rne_mono rne_of_int by metis+
  then have "(2::rat) ^ 52 \<le> of_int (rne (x / ?u))" "of_int (rne (x / ?u)) \<le> (2::rat) ^ 53"
    by (metis of_int_le_iff of_int_numeral of_int_power)+
  then show ?thesis using assms b by (simp add: fl_def Let_def)
qed

lemma fl_mono_pos: "0 < x \<Longrightarrow> x \<le> y \<Longrightarrow> fl x \<le> fl y"
proof -
  assume x: "0 < x" and xy: "x \<le> y"
  then have y: "0 < y" by linarith
  show ?thesis
  proof (cases "expo x = expo y")
    case True
    have "x / pow2 (expo y - 52) \<le> y / pow2 (expo y - 52)"
      using xy by (simp add: divide_right_mono less_imp_le)
    then have "of_int (rne (x / pow2 (expo y - 52))) \<le> (of_int (rne (y / pow2 (expo y - 52))) :: rat)"
      by (simp add: rne_mono)
    with True x y show ?thesis by (simp add: fl_def Let_def mult_right_mono less_imp_le)
  next
    case False
    then have "expo x + 1 \<le> expo y" using expo_mono[OF x xy] by simp
    then show ?thesis using fl_pos_bounds[OF x] fl_pos_bounds[OF y] pow2_mono by (meson order_trans)
  qed
qed

lemma fl_eqI:
  assumes "pow2 e \<le> x" "x < pow2 (e + 1)" "\<bar>x / pow2 (e - 52) - of_int n\<bar> < 1 / 2"
  shows "fl x = of_int n * pow2 (e - 52)"
proof -
  have x: "0 < x" using pow2_pos[of e] assms(1) by linarith
  have "expo x < e + 1" "e < expo x + 1"
    using expo_bounds[OF x] assms(1,2) by (meson order_le_less_trans pow2_less_iff)+
  then have "expo x = e" by simp
  moreover have "rne (x / pow2 (e - 52)) = n" using assms(3) by (rule rne_eqI)
  ultimately show ?thesis using x by (simp add: fl_def Let_def)
qed

lemma fl_nonneg: "0 \<le> x \<Longrightarrow> 0 \<le> fl x"
proof (cases "x = 0")
  case False
  assume "0 \<le> x"
  with False have "0 < x" by simp
  then show ?thesis using fl_pos_bounds[of x] pow2_pos[of "expo x"] by linarith
qed simp

lemma fl_mono: "x \<le> y \<Longrightarrow> fl x \<le> fl y"
proof -
  assume xy: "x \<le> y"
  consider "0 < x" | "x \<le> 0" "0 \<le> y" | "y < 0" by linarith
  then show ?thesis
  proof cases
    case 1 then show ?thesis using xy by (rule fl_mono_pos)
  next
    case 2
    then show ?thesis using fl_nonneg[of y] fl_nonneg[of "- x"] by (simp add: fl_uminus)
  next
    case 3
    then show ?thesis using fl_mono_pos[of "- y" "- x"] xy by (simp add: fl_uminus)
  qed
qed

text \<open>Integers below \<open>2 ^ 53\<close> are doubles.\<close>

lemma fl_of_nat: "n < 2 ^ 53 \<Longrightarrow> fl (of_nat n) = of_nat n"
proof (cases "n = 0")
  case False
  assume n: "n < 2 ^ 53"
  let ?x = "of_nat n :: rat"
  have x: "1 \<le> ?x" using False by simp
  have "pow2 (expo ?x) \<le> ?x" using expo_bounds[of ?x] x by simp
  moreover have "?x < pow2 53"
    using n by (simp add: pow2_def)
  ultimately have "expo ?x < 53" by (metis order_le_less_trans pow2_less_iff)
  then have k: "expo ?x - 52 = - int (nat (52 - expo ?x))" by simp
  have "?x / pow2 (expo ?x - 52) = of_int (int (n * 2 ^ nat (52 - expo ?x)))"
    by (subst k) (simp add: pow2_def)
  then have "rne (?x / pow2 (expo ?x - 52)) = int (n * 2 ^ nat (52 - expo ?x))"
    by (simp only: rne_of_int)
  moreover have "\<bar>?x\<bar> = ?x" using x by simp
  ultimately show ?thesis using False by (simp only: fl_def Let_def) (subst k, simp add: pow2_def)
qed simp

lemma fl_of_int: "\<bar>i\<bar> < 2 ^ 53 \<Longrightarrow> fl (of_int i) = of_int i"
  using fl_of_nat[of "nat \<bar>i\<bar>"] fl_uminus[of "of_nat (nat \<bar>i\<bar>)"]
  by (cases "0 \<le> i") (auto simp: nat_less_iff)

lemma fl_lower: "0 < x \<Longrightarrow> x * (1 - 1 / 2 ^ 53) \<le> fl x"
proof -
  assume x: "0 < x"
  let ?u = "pow2 (expo x - 52)"
  have "2 ^ 52 * ?u \<le> x"
    using expo_bounds[OF x] pow2_add[of 52 "expo x - 52"] pow2_nat[of 52] by (simp del: pow2_nat)
  then have u: "?u / 2 \<le> x / 2 ^ 53" by (simp add: field_simps)
  have "x / ?u - 1 / 2 \<le> of_int (rne (x / ?u))" by (rule rne_lower)
  then have "(x / ?u - 1 / 2) * ?u \<le> of_int (rne (x / ?u)) * ?u"
    by (rule mult_right_mono) (simp add: less_imp_le)
  then have "x - ?u / 2 \<le> fl x"
    using x less_imp_neq[OF pow2_pos[of "expo x - 52"]] by (simp add: fl_def Let_def left_diff_distrib)
  with u show ?thesis by (simp add: right_diff_distrib)
qed

section \<open>Decay functions\<close>

definition shown :: "bool option \<Rightarrow> bool option \<Rightarrow> bool" where
  "shown hidden banned = (hidden = Some False \<and> banned = Some False)"

text \<open>
  \<open>Solves.query.join(Model, Solves.account_id == Model.id)\<close> with the visible accounts
  only; when the mode is neither of the two, \<open>Model\<close> is \<open>None\<close>.
\<close>

definition counted_solve :: "db \<Rightarrow> config \<Rightarrow> submission \<Rightarrow> bool" where
  "counted_solve d conf s =
     (if is_teams_mode conf
      then \<exists>t\<in>set (teams d). sub_team_id s = Some (te_id t) \<and> shown (te_hidden t) (te_banned t)
      else \<exists>u\<in>set (users d). sub_user_id s = Some (us_id u) \<and> shown (us_hidden u) (us_banned u))"

definition get_solve_count :: "db \<Rightarrow> config \<Rightarrow> int \<Rightarrow> py_exc + nat" where
  "get_solve_count d conf challenge_id =
     (if is_teams_mode conf \<or> is_users_mode conf
      then Inr (length (filter (\<lambda>s. sub_challenge_id s = Some challenge_id \<and> counted_solve d conf s)
             (solves d)))
      else Inl AttributeError)"

definition free_solve :: "nat \<Rightarrow> nat" where
  "free_solve solve_count = (if solve_count \<noteq> 0 then solve_count - 1 else solve_count)"

definition at_least :: "int \<Rightarrow> int \<Rightarrow> int" where
  "at_least minimum value = (if value < minimum then minimum else value)"

definition linear_value :: "int \<Rightarrow> int \<Rightarrow> int \<Rightarrow> nat \<Rightarrow> int" where
  "linear_value initial minimum decay solve_count =
     at_least minimum (initial - decay * int (free_solve solve_count))"

definition logarithmic_value :: "int \<Rightarrow> int \<Rightarrow> int \<Rightarrow> nat \<Rightarrow> int" where
  "logarithmic_value initial minimum decay solve_count =
     (let slope = fl (of_int (minimum - initial) / of_int (decay ^ 2));
          fall = fl (slope * fl (of_nat ((free_solve solve_count) ^ 2)));
          value = fl (fall + fl (of_int initial))
      in at_least minimum \<lceil>value\<rceil>)"

text \<open>A null column makes the arithmetic raise \<open>TypeError\<close>, a zero decay a division error.\<close>

definition linear :: "dyn_row \<Rightarrow> nat \<Rightarrow> py_exc + int" where
  "linear ch solve_count =
     (case (dy_initial ch, dy_minimum ch, dy_decay ch) of
        (Some i, Some m, Some k) \<Rightarrow> Inr (linear_value i m k solve_count)
      | _ \<Rightarrow> Inl TypeError)"

definition logarithmic :: "dyn_row \<Rightarrow> nat \<Rightarrow> py_exc + int" where
  "logarithmic ch solve_count =
     (case (dy_initial ch, dy_minimum ch, dy_decay ch) of
        (Some i, Some m, Some k) \<Rightarrow>
          if k = 0 then Inl ZeroDivisionError else Inr (logarithmic_value i m k solve_count)
      | _ \<Rightarrow> Inl TypeError)"

fun DECAY_FUNCTIONS :: "string option \<Rightarrow> py_exc + (dyn_row \<Rightarrow> nat \<Rightarrow> py_exc + int)" where
  "DECAY_FUNCTIONS (Some f) =
     (if f = ''linear'' then Inr linear else if f = ''logarithmic'' then Inr logarithmic else Inl KeyError)"
| "DECAY_FUNCTIONS None = Inl KeyError"

definition decay_value :: "db \<Rightarrow> config \<Rightarrow> dyn_row \<Rightarrow> py_exc + int" where
  "decay_value d conf ch =
     bindE (DECAY_FUNCTIONS (dy_function ch)) (\<lambda>f.
     bindE (get_solve_count d conf (dy_id ch)) (\<lambda>n. f ch n))"

section \<open>Bounds and monotonicity\<close>

lemma at_least_bounds: "m \<le> hi \<Longrightarrow> v \<le> hi \<Longrightarrow> m \<le> at_least m v \<and> at_least m v \<le> hi"
  by (simp add: at_least_def)

lemma at_least_mono: "v \<le> w \<Longrightarrow> at_least m v \<le> at_least m w"
  by (simp add: at_least_def)

lemma free_solve_mono: "a \<le> b \<Longrightarrow> free_solve a \<le> free_solve b"
  by (auto simp: free_solve_def)

lemma linear_mono:
  "0 \<le> k \<Longrightarrow> a \<le> b \<Longrightarrow> linear_value i m k b \<le> linear_value i m k a"
  unfolding linear_value_def by (rule at_least_mono) (simp add: free_solve_mono mult_left_mono)

lemma slope_nonpos: "m \<le> i \<Longrightarrow> fl (of_int (m - i) / of_int (k ^ 2)) \<le> 0"
  using fl_mono[of "of_int (m - i) / of_int (k ^ 2)" 0]
  by (simp add: divide_nonpos_nonneg)

lemma logarithmic_mono:
  assumes "m \<le> i" "a \<le> b"
  shows "logarithmic_value i m k b \<le> logarithmic_value i m k a"
proof -
  let ?s = "fl (of_int (m - i) / of_int (k ^ 2))"
  have n: "(free_solve a) ^ 2 \<le> (free_solve b) ^ 2"
    using assms(2) by (simp add: free_solve_mono power_mono)
  have "?s * fl (of_nat ((free_solve b) ^ 2)) \<le> ?s * fl (of_nat ((free_solve a) ^ 2))"
    by (rule mult_left_mono_neg[OF fl_mono slope_nonpos[OF assms(1)]]) (use n of_nat_mono in blast)
  then show ?thesis
    unfolding logarithmic_value_def Let_def
    by (intro at_least_mono ceiling_mono fl_mono add_right_mono)
qed

lemma score_exact: "0 \<le> i \<Longrightarrow> i \<le> MAX_SCORE \<Longrightarrow> fl (of_int i) = of_int i"
  by (rule fl_of_int) (simp add: MAX_SCORE_def)

lemma logarithmic_start:
  assumes "0 \<le> i" "i \<le> MAX_SCORE" "m \<le> i" "n \<le> 1"
  shows "logarithmic_value i m k n = i"
  using assms score_exact[of i] by (simp add: logarithmic_value_def free_solve_def at_least_def)

section \<open>When the minimum is reached\<close>

lemma fl_product_ge:
  assumes "0 < x" "0 < y"
  shows "x * y * (1 - 1 / 2 ^ 52) \<le> fl x * fl y"
proof -
  have "x * y * (1 - 1 / 2 ^ 52) \<le> (x * (1 - 1 / 2 ^ 53)) * (y * (1 - 1 / 2 ^ 53))"
    using mult_pos_pos[OF assms] by (simp add: algebra_simps)
  also have "\<dots> \<le> fl x * fl y"
    by (rule mult_mono[OF fl_lower[OF assms(1)] fl_lower[OF assms(2)]])
       (use assms fl_nonneg in \<open>auto simp: less_imp_le\<close>)
  finally show ?thesis .
qed

text \<open>If the rounded product covers \<open>j\<close> points, the value has fallen by \<open>j\<close>.\<close>

lemma logarithmic_fallen:
  assumes "0 \<le> j" "j \<le> i" "i \<le> MAX_SCORE"
    and "of_int j \<le> fl (of_int (i - m) / of_int (k ^ 2)) * fl (of_nat ((free_solve n) ^ 2))"
  shows "logarithmic_value i m k n \<le> max m (i - j)"
proof -
  let ?q = "of_int (i - m) / of_int (k ^ 2) :: rat"
  let ?N = "of_nat ((free_solve n) ^ 2) :: rat"
  have neg: "(of_int (m - i) / of_int (k ^ 2) :: rat) = - ?q" by (simp add: minus_divide_left)
  have "of_int j \<le> fl (fl ?q * fl ?N)"
    using fl_mono[OF assms(4)] score_exact[of j] assms(1-3) by simp
  then have "fl (fl (- ?q) * fl ?N) + fl (of_int i) \<le> of_int (i - j)"
    using score_exact[of i] assms(1-3) by (simp add: fl_uminus)
  then have "fl (fl (fl (- ?q) * fl ?N) + fl (of_int i)) \<le> of_int (i - j)"
    using fl_mono score_exact[of "i - j"] assms(1-3) by fastforce
  then have "\<lceil>fl (fl (fl (- ?q) * fl ?N) + fl (of_int i))\<rceil> \<le> i - j" by (simp add: ceiling_le_iff)
  then show ?thesis unfolding logarithmic_value_def Let_def neg at_least_def by auto
qed

lemma logarithmic_ge_minimum: "m \<le> logarithmic_value i m k n"
  by (simp add: logarithmic_value_def Let_def at_least_def)

lemma logarithmic_after_decay:
  assumes "0 \<le> m" "m \<le> i" "i \<le> MAX_SCORE" "1 \<le> k" "k \<le> MAX_SCORE" "nat k + 2 \<le> n"
  shows "logarithmic_value i m k n = m"
proof (cases "m = i")
  case True
  then have "logarithmic_value i m k n \<le> m"
    using logarithmic_fallen[of 0 i m k n] assms by simp
  then show ?thesis using logarithmic_ge_minimum[of m i k n] by simp
next
  case False
  let ?c = "nat k + 2"
  let ?q = "of_int (i - m) / of_int (k ^ 2) :: rat"
  let ?N = "of_nat ((free_solve ?c) ^ 2) :: rat"
  have N: "?N = (of_int k + 1) ^ 2" using assms(4) by (simp add: free_solve_def add.commute)
  have K: "0 < (of_int (i - m) :: rat)" using False assms(2) by simp
  have k: "1 \<le> (of_int k :: rat)" "(of_int k :: rat) \<le> 2 ^ 31"
    using assms(4,5) by (auto simp: MAX_SCORE_def)
  have "(of_int k :: rat) ^ 2 \<le> (of_int k + 1) ^ 2 * (1 - 1 / 2 ^ 52)"
  proof -
    have "(of_int k + 1) ^ 2 \<le> (2 * of_int k :: rat) ^ 2" using k(1) by (intro power_mono) auto
    also have "\<dots> \<le> 4 * (of_int k * 2 ^ 31)" using k by (simp add: power2_eq_square)
    finally have "(of_int k + 1 :: rat) ^ 2 / 2 ^ 52 \<le> of_int k" using k(1) by simp
    moreover have "(of_int k + 1 :: rat) ^ 2 = of_int k ^ 2 + 2 * of_int k + 1"
      by (simp add: power2_eq_square algebra_simps)
    ultimately show ?thesis using k(1) by (simp add: right_diff_distrib)
  qed
  then have "of_int (i - m) * (of_int k :: rat) ^ 2
      \<le> of_int (i - m) * ((of_int k + 1) ^ 2 * (1 - 1 / 2 ^ 52))"
    using K by (intro mult_left_mono) auto
  then have "of_int (i - m) \<le> ?q * ?N * (1 - 1 / 2 ^ 52)"
    using k(1) unfolding N by (simp add: field_simps)
  also have "\<dots> \<le> fl ?q * fl ?N"
    by (rule fl_product_ge) (use K k(1) N in auto)
  finally have "logarithmic_value i m k ?c \<le> m"
    using logarithmic_fallen[of "i - m" i m k ?c] assms by simp
  then show ?thesis
    using logarithmic_mono[OF assms(2,6), of k] logarithmic_ge_minimum[of m i k n] by simp
qed

lemma logarithmic_at_decay:
  assumes "0 \<le> m" "m \<le> i" "i \<le> MAX_SCORE" "1 \<le> k" "nat k + 1 \<le> n"
  shows "logarithmic_value i m k n \<le> m + 1"
proof (cases "m = i")
  case True
  then show ?thesis using logarithmic_fallen[of 0 i m k n] assms by simp
next
  case False
  let ?c = "nat k + 1"
  let ?q = "of_int (i - m) / of_int (k ^ 2) :: rat"
  let ?N = "of_nat ((free_solve ?c) ^ 2) :: rat"
  have N: "?N = of_int k ^ 2" using assms(4) by (simp add: free_solve_def)
  have K: "0 < (of_int (i - m) :: rat)" "(of_int (i - m) :: rat) \<le> 2 ^ 31"
    using False assms(1-3) by (auto simp: MAX_SCORE_def)
  have k: "0 < (of_int k :: rat)" using assms(4) by simp
  have "of_int (i - m - 1) \<le> of_int (i - m) * (1 - 1 / 2 ^ 52 :: rat)" using K by simp
  also have "\<dots> = ?q * ?N * (1 - 1 / 2 ^ 52)" using k unfolding N by simp
  also have "\<dots> \<le> fl ?q * fl ?N"
    by (rule fl_product_ge) (use K k N in auto)
  finally have "logarithmic_value i m k ?c \<le> m + 1"
    using logarithmic_fallen[of "i - m - 1" i m k ?c] False assms by simp
  then show ?thesis using logarithmic_mono[OF assms(2,5), of k] by simp
qed

section \<open>Properties\<close>

text \<open>A row whose columns satisfy what \<open>dynamic_config\<close> checks.\<close>

definition valid_dynamic :: "dyn_row \<Rightarrow> bool" where
  "valid_dynamic r =
     (case (dy_initial r, dy_minimum r, dy_decay r) of
        (Some i, Some m, Some k) \<Rightarrow> 0 \<le> m \<and> m \<le> i \<and> i \<le> MAX_SCORE \<and> 1 \<le> k \<and> k \<le> MAX_SCORE \<and>
          (dy_function r = Some ''linear'' \<or> dy_function r = Some ''logarithmic'')
      | _ \<Rightarrow> False)"

lemma valid_dynamicE:
  assumes "valid_dynamic r"
  obtains i m k where "dy_initial r = Some i" "dy_minimum r = Some m" "dy_decay r = Some k"
    "0 \<le> m" "m \<le> i" "i \<le> MAX_SCORE" "1 \<le> k" "k \<le> MAX_SCORE"
    "dy_function r = Some ''linear'' \<or> dy_function r = Some ''logarithmic''"
  using assms by (auto simp: valid_dynamic_def split: option.splits)

definition decay_of :: "dyn_row \<Rightarrow> nat \<Rightarrow> int" where
  "decay_of r = (if dy_function r = Some ''linear''
     then linear_value (the (dy_initial r)) (the (dy_minimum r)) (the (dy_decay r))
     else logarithmic_value (the (dy_initial r)) (the (dy_minimum r)) (the (dy_decay r)))"

lemma decay_value_valid:
  "valid_dynamic r \<Longrightarrow> decay_value d conf r =
     bindE (get_solve_count d conf (dy_id r)) (\<lambda>n. Inr (decay_of r n))"
  by (elim valid_dynamicE disjE)
     (simp_all add: decay_value_def linear_def[abs_def] logarithmic_def[abs_def] decay_of_def)

text \<open>
  Property C14: the value the decay functions give to a validly configured dynamic challenge
  stays between its minimum and its initial value, is the initial value until a second
  visible account has solved it, and never rises as accounts solve it.
\<close>

theorem decay_bounds_and_monotone:
  assumes "valid_dynamic r" "dy_initial r = Some i" "dy_minimum r = Some m"
    and "get_solve_count d conf (dy_id r) = Inr n" "get_solve_count d' conf' (dy_id r) = Inr n'" "n \<le> n'"
  shows "\<exists>v v'. decay_value d conf r = Inr v \<and> decay_value d' conf' r = Inr v' \<and>
    m \<le> v \<and> v \<le> i \<and> v' \<le> v \<and> (if n \<le> 1 then v = i else True)"
proof -
  from assms(1-3) obtain k where k: "dy_decay r = Some k" "0 \<le> m" "m \<le> i" "i \<le> MAX_SCORE" "1 \<le> k"
    by (auto elim!: valid_dynamicE)
  have lin: "m \<le> linear_value i m k n" "linear_value i m k n \<le> i" "n \<le> 1 \<Longrightarrow> linear_value i m k n = i"
    using k by (auto simp: linear_value_def at_least_def free_solve_def)
  have log: "logarithmic_value i m k n \<le> i" "n \<le> 1 \<Longrightarrow> logarithmic_value i m k n = i"
    using logarithmic_mono[of m i 0 n k] logarithmic_start[of i m 0 k] logarithmic_start[of i m n k] k
    by auto
  show ?thesis
    using assms k lin log linear_mono[of k n n' i m] logarithmic_mono[of m i n n' k]
      logarithmic_ge_minimum[of m i k n]
    by (simp add: decay_value_valid decay_of_def)
qed

definition sample_dynamic :: dyn_row where
  "sample_dynamic = \<lparr>dy_id = 3, dy_initial = Some 500, dy_minimum = Some 100, dy_decay = Some 2,
     dy_function = Some ''logarithmic''\<rparr>"

text \<open>Four visible users, each with one solve of challenge 3.\<close>

definition solved_db :: db where
  "solved_db = empty_db\<lparr>users := map (\<lambda>i. sample_user i None) [1, 2, 3, 4],
     submissions := map (\<lambda>i. \<lparr>sub_id = i, sub_challenge_id = Some 3, sub_user_id = Some i, sub_team_id = None,
       sub_ip = None, sub_provided = None, sub_type = Some ''correct'', sub_date = Some i\<rparr>) [1, 2, 3, 4],
     solve_rows := map (\<lambda>i. \<lparr>sv_id = i, sv_challenge_id = Some 3, sv_user_id = Some i, sv_team_id = None\<rparr>)
       [1, 2, 3, 4]\<rparr>"

lemma solved_db_count: "get_solve_count solved_db (mode_conf ''users'') (dy_id sample_dynamic) = Inr 4"
  by (simp add: get_solve_count_def solved_db_def empty_db_def solves_def List.map_filter_def solve_of_def
      with_child_def counted_solve_def sample_user_def shown_def sample_dynamic_def)

lemma empty_db_count: "get_solve_count empty_db (mode_conf ''users'') (dy_id sample_dynamic) = Inr 0"
  by (simp add: get_solve_count_def empty_db_def solves_def List.map_filter_def)

lemma sample_dynamic_valid: "valid_dynamic sample_dynamic" "dy_initial sample_dynamic = Some 500"
  "dy_minimum sample_dynamic = Some 100" "dy_decay sample_dynamic = Some 2"
  "dy_function sample_dynamic = Some ''logarithmic''"
  by (simp_all add: valid_dynamic_def sample_dynamic_def MAX_SCORE_def)

theorem decay_bounds_and_monotone_witness:
  "decay_value empty_db (mode_conf ''users'') sample_dynamic = Inr 500"
  using decay_bounds_and_monotone[OF sample_dynamic_valid(1-3) empty_db_count solved_db_count] by auto

text \<open>
  Also proved: with the logarithmic function the value is at most one point above the minimum
  once \<open>decay + 1\<close> visible accounts have solved the challenge, and is exactly the minimum
  from \<open>decay + 2\<close> on, despite the rounding of the double arithmetic.
\<close>

theorem logarithmic_reaches_minimum:
  assumes "valid_dynamic r" "dy_function r = Some ''logarithmic''" "dy_minimum r = Some m"
    "dy_decay r = Some k" "get_solve_count d conf (dy_id r) = Inr n" "nat k + 1 \<le> n"
  shows "\<exists>v. decay_value d conf r = Inr v \<and> m \<le> v \<and> v \<le> m + 1 \<and>
    (if nat k + 2 \<le> n then v = m else True)"
proof -
  from assms(1) obtain i where i: "dy_initial r = Some i" by (auto elim!: valid_dynamicE)
  with assms have b: "0 \<le> m" "m \<le> i" "i \<le> MAX_SCORE" "1 \<le> k" "k \<le> MAX_SCORE"
    by (auto elim!: valid_dynamicE)
  show ?thesis
    using assms i logarithmic_at_decay[OF b(1-4) assms(6)] logarithmic_after_decay[OF b, of n]
      logarithmic_ge_minimum[of m i k n]
    by (simp add: decay_value_valid decay_of_def)
qed

theorem logarithmic_reaches_minimum_witness:
  "decay_value solved_db (mode_conf ''users'') sample_dynamic = Inr 100"
  using logarithmic_reaches_minimum[OF sample_dynamic_valid(1,5,3,4) solved_db_count] by simp

text \<open>
  Also proved: the documented threshold is missed.  With initial 1, minimum 0 and decay 7 the
  exact formula gives 0 after eight solves (seven counted), but the rounded slope leaves a
  positive remainder, whose ceiling keeps the value at 1.
\<close>

theorem logarithmic_threshold_missed:
  "logarithmic_value 1 0 7 8 = 1 \<and>
   \<lceil>(0 - 1) / 7 ^ 2 * of_nat (free_solve 8 ^ 2) + (1 :: rat)\<rceil> = 0"
proof -
  have s: "fl (1 / 49) = 5882252574524729 / 2 ^ 58"
    using fl_eqI[of "- 6" "1 / 49" 5882252574524729] by (simp add: pow2_def)
  have f: "fl (5882252574524729 / 2 ^ 58 * 49) = 9007199254740991 / 2 ^ 53"
    using fl_eqI[of "- 1" "5882252574524729 / 2 ^ 58 * 49" 9007199254740991] by (simp add: pow2_def)
  have v: "fl (1 / 2 ^ 53) = 1 / 2 ^ 53"
    using fl_eqI[of "- 53" "1 / 2 ^ 53" "2 ^ 52"] by (simp add: pow2_def)
  have one: "fl 1 = 1" "fl 49 = 49" using fl_of_nat[of 1] fl_of_nat[of 49] by simp_all
  have "fl (fl (fl (- (1 / 49)) * fl 49) + fl 1) = 1 / 2 ^ 53"
    unfolding fl_uminus s one minus_mult_left[symmetric] f using v by simp
  then have "\<lceil>fl (fl (fl (- (1 / 49)) * fl 49) + fl 1)\<rceil> = 1"
    "\<not> fl (fl (fl (- (1 / 49)) * fl 49) + fl 1) \<le> - 1"
    by (simp_all only:) (rule ceiling_unique, simp_all)
  then show ?thesis
    by (simp add: logarithmic_value_def Let_def free_solve_def at_least_def)
qed

end
