(* ===== verification/Flags.thy ===== *)
theory Flags imports Models "HOL-Library.Word" begin

text \<open>
  Answer checking: the flag classes of \<^verbatim>\<open>plugins/flags/__init__.py\<close> and the loop of
  \<open>BaseChallenge.attempt\<close> in \<^verbatim>\<open>plugins/challenges/__init__.py\<close>.
  \<open>re.compile\<close> and \<open>re.match\<close> are arguments: \<open>re_compiles ignorecase pattern\<close>, and
  \<open>re_match ignorecase pattern s\<close>, which is \<open>None\<close> for \<open>re.error\<close> and otherwise
  the group the match found, if it found one.
\<close>

unbundle bit_operations_syntax

type_synonym re_compiles = "bool \<Rightarrow> string \<Rightarrow> bool"
type_synonym re_match = "bool \<Rightarrow> string \<Rightarrow> string \<Rightarrow> string option option"

section \<open>Flag classes\<close>

definition invalid_flag_message :: string where
  "invalid_flag_message = ''Flag configuration is invalid. Please contact an administrator.''"

definition flag_type :: "flag \<Rightarrow> string" where
  "flag_type f = process_result_value (fl_type f)"

definition validate_saved_flag :: "re_compiles \<Rightarrow> flag \<Rightarrow> py_exc + unit" where
  "validate_saved_flag rc f =
     (case validate_flag_content rc (PStr (flag_type f)) (of_opt_str (fl_content f)) (of_opt_str (fl_data f)) of
        Inl (ValueError _) \<Rightarrow> Inl (FlagException invalid_flag_message)
      | r \<Rightarrow> r)"

text \<open>The constant-time comparison: no early exit, the differences are accumulated.\<close>

definition difference :: "string \<Rightarrow> string \<Rightarrow> nat" where
  "difference xs ys = foldl (\<lambda>result (x, y). result OR (py_ord x XOR py_ord y)) 0 (zip xs ys)"

definition static_compare :: "re_compiles \<Rightarrow> flag \<Rightarrow> string \<Rightarrow> py_exc + bool" where
  "static_compare rc f provided =
     bindE (validate_saved_flag rc f) (\<lambda>_.
       case fl_content f of
         None \<Rightarrow> Inl TypeError
       | Some saved \<Rightarrow>
           if length saved \<noteq> length provided then Inr False
           else if fl_data f = Some ''case_insensitive''
           then Inr (difference (py_lower saved) (py_lower provided) = 0)
           else Inr (difference saved provided = 0))"

definition regex_compare :: "re_compiles \<Rightarrow> re_match \<Rightarrow> flag \<Rightarrow> string \<Rightarrow> py_exc + bool" where
  "regex_compare rc rm f provided =
     bindE (validate_saved_flag rc f) (\<lambda>_.
       case fl_content f of
         None \<Rightarrow> Inl TypeError
       | Some saved \<Rightarrow>
           (case rm (fl_data f = Some ''case_insensitive'') saved provided of
              None \<Rightarrow> Inl (FlagException ''Regex parse error occured'')
            | Some None \<Rightarrow> Inr False
            | Some (Some found) \<Rightarrow> Inr (found = provided)))"

definition get_flag_class ::
  "re_compiles \<Rightarrow> re_match \<Rightarrow> string \<Rightarrow> py_exc + (flag \<Rightarrow> string \<Rightarrow> py_exc + bool)" where
  "get_flag_class rc rm class_id =
     (if class_id = ''static'' then Inr (static_compare rc)
      else if class_id = ''regex'' then Inr (regex_compare rc rm)
      else Inl (FlagException ''Flag type is unavailable. Please contact an administrator.''))"

section \<open>Attempts\<close>

datatype attempt_message = Message string | FlagErrorMessage string

definition flag_accepts :: "re_compiles \<Rightarrow> re_match \<Rightarrow> flag \<Rightarrow> string \<Rightarrow> py_exc + bool" where
  "flag_accepts rc rm f submission =
     bindE (get_flag_class rc rm (flag_type f)) (\<lambda>compare. compare f submission)"

fun attempt_loop ::
  "re_compiles \<Rightarrow> re_match \<Rightarrow> flag list \<Rightarrow> string \<Rightarrow> string option \<Rightarrow> py_exc + bool \<times> attempt_message" where
  "attempt_loop rc rm [] submission configuration_error =
     Inr (False, case configuration_error of Some m \<Rightarrow> FlagErrorMessage m | None \<Rightarrow> Message ''Incorrect'')"
| "attempt_loop rc rm (f # fs) submission configuration_error =
     (case flag_accepts rc rm f submission of
        Inr True \<Rightarrow> Inr (True, Message ''Correct'')
      | Inr False \<Rightarrow> attempt_loop rc rm fs submission configuration_error
      | Inl (FlagException m) \<Rightarrow> attempt_loop rc rm fs submission (Some m)
      | Inl e \<Rightarrow> Inl e)"

definition flags_of :: "db \<Rightarrow> int \<Rightarrow> flag list" where
  "flags_of d challenge_id = filter (\<lambda>f. fl_challenge_id f = Some challenge_id) (flags d)"

definition attempt ::
  "re_compiles \<Rightarrow> re_match \<Rightarrow> db \<Rightarrow> int \<Rightarrow> string \<Rightarrow> py_exc + bool \<times> attempt_message" where
  "attempt rc rm d challenge_id submission =
     attempt_loop rc rm (flags_of d challenge_id) (py_strip submission) None"

section \<open>Facts\<close>

lemma xor_nat_eq_0: "(a XOR b :: nat) = 0 \<longleftrightarrow> a = b"
proof
  assume x: "a XOR b = 0"
  have "bit a n \<longleftrightarrow> bit b n" for n
    using arg_cong[OF x, of "\<lambda>k. bit k n"] by (simp add: bit_xor_iff)
  then show "a = b" by (rule bit_eqI)
next
  assume "a = b"
  then show "a XOR b = 0" by (auto intro!: bit_eqI simp: bit_xor_iff)
qed

lemma or_nat_eq_0: "(a OR b :: nat) = 0 \<longleftrightarrow> a = 0 \<and> b = 0"
proof
  assume x: "a OR b = 0"
  have "\<not> bit a n \<and> \<not> bit b n" for n
    using arg_cong[OF x, of "\<lambda>k. bit k n"] by (simp add: bit_or_iff)
  then show "a = 0 \<and> b = 0" by (auto intro!: bit_eqI)
qed simp

lemma py_ord_inj: "py_ord x = py_ord y \<longleftrightarrow> x = y"
  by (simp add: py_ord_def)

lemma difference_acc:
  "foldl (\<lambda>result (x, y). result OR (py_ord x XOR py_ord y)) r ps = 0 \<longleftrightarrow>
   r = 0 \<and> list_all (\<lambda>(x, y). x = y) ps"
proof (induction ps arbitrary: r)
  case (Cons p ps)
  show ?case
    by (cases p) (simp only: foldl.simps case_prod_conv Cons.IH or_nat_eq_0 xor_nat_eq_0 py_ord_inj
        list.pred_inject conj_assoc)
qed simp

lemma difference_0: "length xs = length ys \<Longrightarrow> difference xs ys = 0 \<longleftrightarrow> xs = ys"
  unfolding difference_def difference_acc
  by (induction xs ys rule: list_induct2) auto

text \<open>What a usable flag accepts.\<close>

definition flag_matches :: "re_match \<Rightarrow> flag \<Rightarrow> string \<Rightarrow> bool" where
  "flag_matches rm f s =
     (case fl_content f of None \<Rightarrow> False
      | Some saved \<Rightarrow>
          if flag_type f = ''static'' then
            (if fl_data f = Some ''case_insensitive'' then py_lower saved = py_lower s else saved = s)
          else rm (fl_data f = Some ''case_insensitive'') saved s = Some (Some s))"

definition flag_usable :: "re_compiles \<Rightarrow> re_match \<Rightarrow> flag \<Rightarrow> string \<Rightarrow> bool" where
  "flag_usable rc rm f s =
     ((flag_type f = ''static'' \<or> flag_type f = ''regex'') \<and>
      (case fl_content f of None \<Rightarrow> False
       | Some c \<Rightarrow> py_strip c \<noteq> [] \<and>
           (flag_type f = ''regex'' \<longrightarrow> rc (fl_data f = Some ''case_insensitive'') c \<and>
              rm (fl_data f = Some ''case_insensitive'') c s \<noteq> None)))"

lemma validate_saved_flag_cases:
  "validate_saved_flag rc f = Inr () \<or> validate_saved_flag rc f = Inl (FlagException invalid_flag_message)"
  by (auto simp: validate_saved_flag_def validate_flag_content_def split: pyval.splits)

lemma flag_accepts_usable:
  "flag_usable rc rm f s \<Longrightarrow> flag_accepts rc rm f s = Inr (flag_matches rm f s)"
proof -
  assume u: "flag_usable rc rm f s"
  then obtain c where c: "fl_content f = Some c" "py_strip c \<noteq> []"
    by (auto simp: flag_usable_def split: option.splits)
  have data: "py_eq (of_opt_str (fl_data f)) (PStr ''case_insensitive'') \<longleftrightarrow> fl_data f = Some ''case_insensitive''"
    by (cases "fl_data f") auto
  have "validate_saved_flag rc f = Inr ()"
    using u c data
    by (auto simp: validate_saved_flag_def validate_flag_content_def flag_usable_def)
  then show ?thesis
    using u c
    by (cases "fl_data f = Some ''case_insensitive''")
       (auto simp: flag_accepts_def get_flag_class_def static_compare_def regex_compare_def
        flag_matches_def flag_usable_def difference_0 split: option.splits dest: arg_cong[of _ _ length])
qed

lemma flag_accepts_unusable:
  "\<not> flag_usable rc rm f s \<Longrightarrow> \<exists>m. flag_accepts rc rm f s = Inl (FlagException m)"
proof -
  assume u: "\<not> flag_usable rc rm f s"
  have data: "py_eq (of_opt_str (fl_data f)) (PStr ''case_insensitive'') \<longleftrightarrow> fl_data f = Some ''case_insensitive''"
    by (cases "fl_data f") auto
  show ?thesis
    using u data
    by (cases "fl_content f"; cases "fl_data f = Some ''case_insensitive''")
       (auto simp: flag_accepts_def get_flag_class_def static_compare_def regex_compare_def
        flag_usable_def validate_saved_flag_def validate_flag_content_def split: option.splits)
qed

lemma attempt_loop_result:
  "\<exists>b m. attempt_loop rc rm fs s e = Inr (b, m) \<and>
     b = list_ex (\<lambda>f. flag_usable rc rm f s \<and> flag_matches rm f s) fs \<and>
     (m = Message ''Correct'') = b \<and>
     (m = Message ''Incorrect'') = (\<not> b \<and> e = None \<and> list_all (\<lambda>f. flag_usable rc rm f s) fs)"
proof (induction fs arbitrary: e)
  case Nil
  then show ?case by (auto split: option.split)
next
  case (Cons f fs)
  show ?case
  proof (cases "flag_usable rc rm f s")
    case True
    then show ?thesis
      using Cons.IH[of e] by (cases "flag_matches rm f s") (auto simp: flag_accepts_usable)
  next
    case False
    then obtain m where "flag_accepts rc rm f s = Inl (FlagException m)"
      using flag_accepts_unusable by blast
    with False show ?thesis using Cons.IH[of "Some m"] by auto
  qed
qed

section \<open>Property\<close>

text \<open>
  Property C13: an attempt always gets an answer.  It is correct exactly when some usable flag
  of the challenge accepts the stripped submission (equality for a static flag, up to letter
  case when asked; a match of the whole submission for a pattern), whatever the other flags
  do; it is \<open>Incorrect\<close> only when every flag is usable, and otherwise reports a configuration
  error, which does not count as a wrong answer.
\<close>

theorem attempt_answer:
  "\<exists>b m. attempt rc rm d challenge_id submission = Inr (b, m) \<and>
     b = list_ex (\<lambda>f. flag_usable rc rm f (py_strip submission) \<and>
           flag_matches rm f (py_strip submission)) (flags_of d challenge_id) \<and>
     (m = Message ''Correct'') = b \<and>
     (m = Message ''Incorrect'') =
       (\<not> b \<and> list_all (\<lambda>f. flag_usable rc rm f (py_strip submission)) (flags_of d challenge_id))"
  unfolding attempt_def
  using attempt_loop_result[of rc rm "flags_of d challenge_id" "py_strip submission" None] by simp

end
