(* ===== verification/Scoring.thy ===== *)
theory Scoring imports Decay Flags begin

text \<open>
  The scoring transaction: the locking helpers of \<^verbatim>\<open>utils/scoring.py\<close>, the value
  recalculation of \<^verbatim>\<open>plugins/dynamic_challenges/__init__.py\<close>, and the writers
  \<open>solve\<close>, \<open>fail\<close> and \<open>delete\<close> of \<^verbatim>\<open>plugins/challenges/__init__.py\<close>.
  The challenge row is locked for the whole transaction, so writers of one challenge are
  serialised and a transaction is one step from database to database; a raised exception
  rolls back and leaves the database as it was.
\<close>

section \<open>utils/scoring.py\<close>

definition challenge_type :: "challenge \<Rightarrow> string" where
  "challenge_type c = process_result_value (ch_type c)"

definition dynamic_by_id :: "db \<Rightarrow> int \<Rightarrow> dyn_row option" where
  "dynamic_by_id d i = first_where (\<lambda>r. dy_id r = i) (dynamic_rows d)"

text \<open>The locked challenge, with its child row when it is dynamic.\<close>

definition lock_challenge :: "db \<Rightarrow> int \<Rightarrow> py_exc + challenge \<times> dyn_row option" where
  "lock_challenge d challenge_id =
     bindE (first_or_404 (challenge_by_id d challenge_id)) (\<lambda>ch.
     if challenge_type ch = ''dynamic''
     then bindE (first_or_404 (dynamic_by_id d challenge_id)) (\<lambda>r. Inr (ch, Some r))
     else Inr (ch, None))"

text \<open>In team mode a submission without a team takes the user's.\<close>

definition solve_team :: "config \<Rightarrow> user \<Rightarrow> submission \<Rightarrow> int option" where
  "solve_team conf u s =
     (if is_teams_mode conf \<and> sub_team_id s = None then us_team_id u else sub_team_id s)"

definition validate_solve_account :: "db \<Rightarrow> config \<Rightarrow> submission \<Rightarrow> py_exc + submission" where
  "validate_solve_account d conf s =
     (case (case sub_user_id s of None \<Rightarrow> None | Some i \<Rightarrow> user_by_id d i) of
        None \<Rightarrow> Inl (ScoringValidationError ''user_id'' ''User does not exist'')
      | Some u \<Rightarrow>
          if is_teams_mode conf \<and> solve_team conf u s = None
          then Inl (ScoringValidationError ''team_id'' ''A team is required in team mode'')
          else (case solve_team conf u s of
             None \<Rightarrow> Inr s
           | Some t \<Rightarrow>
               if team_by_id d t = None \<or> us_team_id u \<noteq> Some t
               then Inl (ScoringValidationError ''team_id'' ''Team must match the submitting user'')
               else Inr (s\<lparr>sub_team_id := Some t\<rparr>)))"

definition same_solver :: "submission \<Rightarrow> solve_row \<Rightarrow> bool" where
  "same_solver s r =
     (filter_eq (sv_challenge_id r) (sub_challenge_id s) \<and>
      (filter_eq (sv_user_id r) (sub_user_id s) \<or>
       sub_team_id s \<noteq> None \<and> filter_eq (sv_team_id r) (sub_team_id s)))"

definition existing_solve :: "db \<Rightarrow> submission \<Rightarrow> solve_row option" where
  "existing_solve d s = first_where (same_solver s) (solve_rows d)"

section \<open>Recalculation\<close>

definition dyn_attrs :: "dyn_row \<Rightarrow> dict" where
  "dyn_attrs r = [(''initial'', of_opt_int (dy_initial r)), (''minimum'', of_opt_int (dy_minimum r)),
     (''decay'', of_opt_int (dy_decay r)), (''function'', of_opt_str (dy_function r))]"

definition set_value :: "int \<Rightarrow> int \<Rightarrow> db \<Rightarrow> db" where
  "set_value i v d =
     d\<lparr>challenges := update_where (\<lambda>c. ch_id c = i) (\<lambda>c. c\<lparr>ch_value := Some v\<rparr>) (challenges d)\<rparr>"

text \<open>\<open>DynamicValueChallenge.calculate_value\<close>; assigning \<open>value\<close> runs its validator.\<close>

definition calculate_value :: "db \<Rightarrow> config \<Rightarrow> dyn_row \<Rightarrow> py_exc + db" where
  "calculate_value d conf r =
     bindE (dynamic_config [] (dyn_attrs r)) (\<lambda>_.
     bindE (decay_value d conf r) (\<lambda>value.
     bindE (score_integer (PInt value) ''value'' 0) (\<lambda>v.
     Inr (set_value (dy_id r) v d))))"

definition recalculate :: "db \<Rightarrow> config \<Rightarrow> challenge \<Rightarrow> dyn_row option \<Rightarrow> py_exc + db" where
  "recalculate d conf ch row =
     (case row of
        Some r \<Rightarrow> calculate_value d conf r
      | None \<Rightarrow> bindE (score_integer (of_opt_int (ch_value ch)) ''value'' 0) (\<lambda>_. Inr d))"

section \<open>Writers\<close>

definition new_submission ::
  "string \<Rightarrow> int \<Rightarrow> string \<Rightarrow> user \<Rightarrow> team option \<Rightarrow> int \<Rightarrow> string \<Rightarrow> submission" where
  "new_submission kind now_us ip u t challenge_id provided =
     \<lparr>sub_id = 0, sub_challenge_id = Some challenge_id, sub_user_id = Some (us_id u),
      sub_team_id = map_option te_id t, sub_ip = Some ip, sub_provided = Some (py_strip provided),
      sub_type = Some kind, sub_date = Some now_us\<rparr>"

definition add_submission :: "submission \<Rightarrow> db \<Rightarrow> db" where
  "add_submission s d =
     d\<lparr>submissions := submissions d @ [s\<lparr>sub_id := fresh_id sub_id (submissions d)\<rparr>]\<rparr>"

text \<open>The unique constraints (challenge, user) and (challenge, team); a null escapes them.\<close>

definition unique_clash :: "submission \<Rightarrow> solve_row \<Rightarrow> bool" where
  "unique_clash s r =
     (sql_eq (sv_challenge_id r) (sub_challenge_id s) \<and>
      (sql_eq (sv_user_id r) (sub_user_id s) \<or> sql_eq (sv_team_id r) (sub_team_id s)))"

definition insert_solve :: "submission \<Rightarrow> db \<Rightarrow> py_exc + db" where
  "insert_solve s d =
     (if list_ex (unique_clash s) (solve_rows d) then Inl IntegrityError
      else Inr ((add_submission s d)\<lparr>solve_rows := solve_rows d @
        [\<lparr>sv_id = fresh_id sub_id (submissions d), sv_challenge_id = sub_challenge_id s,
          sv_user_id = sub_user_id s, sv_team_id = sub_team_id s\<rparr>]\<rparr>))"

definition solve ::
  "config \<Rightarrow> int \<Rightarrow> string \<Rightarrow> user \<Rightarrow> team option \<Rightarrow> int \<Rightarrow> string \<Rightarrow> db \<Rightarrow> py_exc + bool \<times> db" where
  "solve conf now_us ip u t challenge_id submission d =
     bindE (lock_challenge d challenge_id) (\<lambda>(ch, row).
     bindE (if challenge_type ch \<noteq> ''dynamic''
            then score_integer (of_opt_int (ch_value ch)) ''value'' 0 else Inr 0) (\<lambda>_.
     bindE (validate_solve_account d conf
              (new_submission ''correct'' now_us ip u t challenge_id submission)) (\<lambda>s.
     if existing_solve d s \<noteq> None then Inr (False, d)
     else case insert_solve s d of
       Inl IntegrityError \<Rightarrow> if existing_solve d s \<noteq> None then Inr (False, d) else Inl IntegrityError
     | Inl e \<Rightarrow> Inl e
     | Inr d' \<Rightarrow> bindE (recalculate d' conf ch row) (\<lambda>d''. Inr (True, d'')))))"

definition fail :: "int \<Rightarrow> string \<Rightarrow> user \<Rightarrow> team option \<Rightarrow> int \<Rightarrow> string \<Rightarrow> db \<Rightarrow> db" where
  "fail now_us ip u t challenge_id submission d =
     add_submission (new_submission ''incorrect'' now_us ip u t challenge_id submission) d"

text \<open>
  \<open>delete\<close>.  The bulk delete on \<open>Solves\<close> removes child rows only; their
  submissions go with the challenge by the foreign keys, as do the other rows that cascade.
  \<open>deploy_refs\<close> are the challenges that deployment histories still refer to, whose key does
  not cascade; \<open>delete_file\<close> commits, so a failure after it keeps what was done before.
\<close>

definition challenge_files :: "int \<Rightarrow> challenge_file list \<Rightarrow> challenge_file list" where
  "challenge_files i fs = filter (\<lambda>f. fi_type f = Some ''challenge'' \<and> fi_challenge_id f = Some i) fs"

definition delete_answers :: "int \<Rightarrow> db \<Rightarrow> db" where
  "delete_answers i d =
     d\<lparr>submissions := delete_where (\<lambda>s. sub_type s = Some ''incorrect'' \<and> sub_challenge_id s = Some i) (submissions d),
       solve_rows := delete_where (\<lambda>r. sv_challenge_id r = Some i) (solve_rows d),
       flags := delete_where (\<lambda>f. fl_challenge_id f = Some i) (flags d)\<rparr>"

definition delete_files :: "int \<Rightarrow> db \<Rightarrow> db" where
  "delete_files i d = d\<lparr>files := delete_where (\<lambda>f. f \<in> set (challenge_files i (files d))) (files d)\<rparr>"

definition delete_notes :: "int \<Rightarrow> db \<Rightarrow> db" where
  "delete_notes i d =
     d\<lparr>tags := delete_where (\<lambda>t. ta_challenge_id t = Some i) (tags d),
       hints := delete_where (\<lambda>h. hi_challenge_id h = Some i) (hints d)\<rparr>"

definition cascade_challenge :: "int \<Rightarrow> db \<Rightarrow> db" where
  "cascade_challenge i d =
     d\<lparr>challenges := update_where (\<lambda>c. ch_next_id c = Some i) (\<lambda>c. c\<lparr>ch_next_id := None\<rparr>)
         (delete_where (\<lambda>c. ch_id c = i) (challenges d)),
       dynamic_rows := delete_where (\<lambda>r. dy_id r = i) (dynamic_rows d),
       submissions := delete_where (\<lambda>s. sub_challenge_id s = Some i) (submissions d),
       solve_rows := delete_where (\<lambda>r. sv_challenge_id r = Some i) (solve_rows d),
       versions := delete_where (\<lambda>v. ve_challenge_id v = i) (versions d),
       achievements := delete_where (\<lambda>a. ac_challenge_id a = Some i) (achievements d),
       award_badges := delete_where (\<lambda>a. ab_challenge_id a = Some i) (award_badges d)\<rparr>"

definition delete_challenge :: "int list \<Rightarrow> int \<Rightarrow> db \<Rightarrow> py_exc option \<times> db" where
  "delete_challenge deploy_refs i d =
     (let committed = delete_files i (delete_answers i d);
          pending = delete_notes i committed in
      if i \<in> set deploy_refs
      then (Some IntegrityError, if challenge_files i (files d) = [] then d else committed)
      else (None, cascade_challenge i pending))"

section \<open>The scoring invariant\<close>

definition solve_key :: "(solve_row \<Rightarrow> int option) \<Rightarrow> solve_row \<Rightarrow> (int \<times> int) option" where
  "solve_key f r = (case (sv_challenge_id r, f r) of (Some c, Some a) \<Rightarrow> Some (c, a) | _ \<Rightarrow> None)"

definition child_of :: "submission \<Rightarrow> solve_row" where
  "child_of s = \<lparr>sv_id = sub_id s, sv_challenge_id = sub_challenge_id s, sv_user_id = sub_user_id s,
     sv_team_id = sub_team_id s\<rparr>"

definition is_correct :: "submission \<Rightarrow> bool" where
  "is_correct s = (sub_type s = Some ''correct'')"

text \<open>
  Submissions have distinct ids; the child table holds exactly one row for each correct
  submission, with the same references; no challenge is solved twice by a user or by a team.
\<close>

definition scoring_ok :: "db \<Rightarrow> bool" where
  "scoring_ok d =
     (distinct (map sub_id (submissions d)) \<and>
      distinct (map sv_id (solve_rows d)) \<and>
      set (solve_rows d) = child_of ` {s \<in> set (submissions d). is_correct s} \<and>
      distinct (List.map_filter (solve_key sv_user_id) (solve_rows d)) \<and>
      distinct (List.map_filter (solve_key sv_team_id) (solve_rows d)))"

lemma map_filter_append [simp]:
  "List.map_filter f (xs @ ys) = List.map_filter f xs @ List.map_filter f ys"
  by (simp add: List.map_filter_def)

lemma map_filter_single [simp]:
  "List.map_filter f [x] = (case f x of None \<Rightarrow> [] | Some y \<Rightarrow> [y])"
  by (simp add: List.map_filter_def split: option.split)

lemma fresh_id_append: "distinct (map key xs) \<Longrightarrow> key y = fresh_id key xs \<Longrightarrow> distinct (map key (xs @ [y]))"
  using fresh_id_notin[of key xs] by auto

lemma add_submission_ok:
  assumes "scoring_ok d" "\<not> is_correct s"
  shows "scoring_ok (add_submission s d)"
proof -
  have "distinct (map sub_id (submissions d @ [s\<lparr>sub_id := fresh_id sub_id (submissions d)\<rparr>]))"
    using assms(1) by (intro fresh_id_append) (simp_all add: scoring_ok_def)
  moreover have "{x \<in> set (submissions d @ [s\<lparr>sub_id := fresh_id sub_id (submissions d)\<rparr>]). is_correct x} =
      {x \<in> set (submissions d). is_correct x}"
    using assms(2) by (auto simp: is_correct_def)
  ultimately show ?thesis
    using assms(1) unfolding scoring_ok_def add_submission_def by simp
qed

lemma insert_solve_ok:
  assumes "scoring_ok d" "insert_solve s d = Inr d'" "is_correct s"
  shows "scoring_ok d'"
proof -
  let ?n = "s\<lparr>sub_id := fresh_id sub_id (submissions d)\<rparr>"
  from assms(2) have d': "submissions d' = submissions d @ [?n]" "solve_rows d' = solve_rows d @ [child_of ?n]"
    and clash: "\<forall>r\<in>set (solve_rows d). \<not> unique_clash s r"
    by (auto simp: insert_solve_def add_submission_def child_of_def list_ex_iff split: if_splits)
  have ids: "distinct (map sub_id (submissions d'))"
    unfolding d' using assms(1) by (intro fresh_id_append) (simp_all add: scoring_ok_def)
  have "sv_id (child_of ?n) \<notin> sv_id ` set (solve_rows d)"
    using assms(1) fresh_id_notin[of sub_id "submissions d"]
    by (auto simp: scoring_ok_def child_of_def)
  then have "distinct (map sv_id (solve_rows d'))"
    unfolding d' using assms(1) by (auto simp: scoring_ok_def)
  moreover have "set (solve_rows d') = child_of ` {s \<in> set (submissions d'). is_correct s}"
  proof -
    have "{x \<in> set (submissions d'). is_correct x} = insert ?n {x \<in> set (submissions d). is_correct x}"
      using assms(3) by (auto simp: d' is_correct_def)
    then show ?thesis using assms(1) by (simp add: d' scoring_ok_def)
  qed
  moreover have "distinct (List.map_filter (solve_key f) (solve_rows d'))"
    if "distinct (List.map_filter (solve_key f) (solve_rows d))" "f = sv_user_id \<or> f = sv_team_id" for f
    using that clash
    by (auto simp: d' set_map_filter solve_key_def child_of_def unique_clash_def split: option.splits)
  ultimately show ?thesis using ids assms(1) by (simp add: scoring_ok_def)
qed

lemma solve_of_old:
  assumes "scoring_ok d" "insert_solve s d = Inr d'" "x \<in> set (submissions d)"
  shows "solve_of d' x = solve_of d x"
proof -
  have "sub_id x \<noteq> fresh_id sub_id (submissions d)"
    using assms(3) fresh_id_notin[of sub_id "submissions d"] by (metis imageI)
  with assms(2) show ?thesis
    by (auto simp: insert_solve_def add_submission_def solve_of_def first_where_append
        split: if_splits option.split)
qed

lemma map_filter_cong: "(\<And>x. x \<in> set xs \<Longrightarrow> f x = g x) \<Longrightarrow> List.map_filter f xs = List.map_filter g xs"
  by (induction xs) (auto simp: List.map_filter_simps split: option.split)

lemma solves_insert:
  assumes "scoring_ok d" "insert_solve s d = Inr d'"
  shows "solves d' = solves d @ [s\<lparr>sub_id := fresh_id sub_id (submissions d)\<rparr>]"
proof -
  let ?n = "s\<lparr>sub_id := fresh_id sub_id (submissions d)\<rparr>"
  have d': "submissions d' = submissions d @ [?n]" "solve_rows d' = solve_rows d @ [child_of ?n]"
    using assms(2) by (auto simp: insert_solve_def add_submission_def child_of_def split: if_splits)
  have "first_where (\<lambda>c. sv_id c = fresh_id sub_id (submissions d)) (solve_rows d) = None"
    using assms(1) fresh_id_gt[of _ "submissions d" sub_id]
    by (fastforce simp: table_simps scoring_ok_def child_of_def)
  then have "solve_of d' ?n = Some ?n"
    by (simp add: solve_of_def d' child_of_def with_child_def first_where_append)
  moreover have "List.map_filter (solve_of d') (submissions d) = List.map_filter (solve_of d) (submissions d)"
    using solve_of_old[OF assms] by (rule map_filter_cong)
  ultimately show ?thesis by (simp add: solves_def d')
qed

lemma set_solves_ok:
  assumes "scoring_ok d"
  shows "set (solves d) = {s \<in> set (submissions d). is_correct s}"
proof -
  have "solve_of d s = (if is_correct s then Some s else None)" if s: "s \<in> set (submissions d)" for s
  proof (cases "is_correct s")
    case True
    then have "child_of s \<in> set (solve_rows d)" using assms s by (auto simp: scoring_ok_def)
    then have "first_where (\<lambda>c. sv_id c = sub_id s) (solve_rows d) = Some (child_of s)"
      using assms first_where_unique[of sv_id "solve_rows d" "child_of s"]
      by (simp add: scoring_ok_def child_of_def)
    with True show ?thesis by (simp add: solve_of_def child_of_def with_child_def)
  next
    case False
    have "\<not> (\<exists>c\<in>set (solve_rows d). sv_id c = sub_id s)"
    proof
      assume "\<exists>c\<in>set (solve_rows d). sv_id c = sub_id s"
      then obtain x where x: "x \<in> set (submissions d)" "is_correct x" "sub_id x = sub_id s"
        using assms by (auto simp: scoring_ok_def child_of_def)
      then have "x = s" using assms s by (auto simp: scoring_ok_def distinct_map inj_on_def)
      with x False show False by simp
    qed
    then have "first_where (\<lambda>c. sv_id c = sub_id s) (solve_rows d) = None" by (auto simp: table_simps)
    with False show ?thesis by (simp add: solve_of_def)
  qed
  then show ?thesis by (auto simp: set_solves split: if_splits)
qed

lemma solve_key_inj:
  assumes "distinct (List.map_filter (solve_key f) rs)" "x \<in> set rs" "y \<in> set rs"
    "solve_key f x = Some k" "solve_key f y = Some k"
  shows "x = y"
  using assms
proof (induction rs)
  case (Cons r rs)
  have "k \<in> set (List.map_filter (solve_key f) rs)" if "z \<in> set rs" "solve_key f z = Some k" for z
    using that by (auto simp: set_map_filter)
  with Cons show ?case by (auto simp: List.map_filter_simps split: option.splits)
qed simp

lemma solves_unique:
  assumes "scoring_ok d" "x \<in> set (solves d)" "y \<in> set (solves d)"
    and "sub_challenge_id x = Some c" "sub_challenge_id y = Some c"
    and "sub_user_id x = Some a \<and> sub_user_id y = Some a \<or> sub_team_id x = Some a \<and> sub_team_id y = Some a"
  shows "x = y"
proof -
  from assms(1-3) have xy: "x \<in> set (submissions d)" "y \<in> set (submissions d)"
    "child_of x \<in> set (solve_rows d)" "child_of y \<in> set (solve_rows d)"
    by (auto simp: set_solves_ok) (auto simp: scoring_ok_def)
  have "child_of x = child_of y"
    using assms(6)
  proof
    assume "sub_user_id x = Some a \<and> sub_user_id y = Some a"
    then show ?thesis
      using assms(1,4,5) xy
      by (intro solve_key_inj[of sv_user_id "solve_rows d" _ _ "(c, a)"])
         (auto simp: scoring_ok_def solve_key_def child_of_def)
  next
    assume "sub_team_id x = Some a \<and> sub_team_id y = Some a"
    then show ?thesis
      using assms(1,4,5) xy
      by (intro solve_key_inj[of sv_team_id "solve_rows d" _ _ "(c, a)"])
         (auto simp: scoring_ok_def solve_key_def child_of_def)
  qed
  then have "sub_id x = sub_id y" by (simp add: child_of_def)
  then show ?thesis using assms(1) xy by (auto simp: scoring_ok_def distinct_map inj_on_def)
qed

lemma scoring_ok_cong:
  "submissions d' = submissions d \<Longrightarrow> solve_rows d' = solve_rows d \<Longrightarrow> scoring_ok d' = scoring_ok d"
  by (simp add: scoring_ok_def)

lemma solves_cong: "submissions d' = submissions d \<Longrightarrow> solve_rows d' = solve_rows d \<Longrightarrow> solves d' = solves d"
  by (simp add: solves_def solve_of_def[abs_def])

lemma set_value_frame [simp]:
  "submissions (set_value i v d) = submissions d" "solve_rows (set_value i v d) = solve_rows d"
  "users (set_value i v d) = users d" "teams (set_value i v d) = teams d" "awards (set_value i v d) = awards d"
  "dynamic_rows (set_value i v d) = dynamic_rows d" "unlocks (set_value i v d) = unlocks d"
  "map ch_id (challenges (set_value i v d)) = map ch_id (challenges d)"
  by (simp_all add: set_value_def map_update_where)

lemma solves_set_value [simp]: "solves (set_value i v d) = solves d"
  by (rule solves_cong) simp_all

lemma decay_value_set_value [simp]: "decay_value (set_value i v d) conf r = decay_value d conf r"
  by (simp add: decay_value_def get_solve_count_def counted_solve_def)

lemma challenge_by_id_set_value:
  "challenge_by_id (set_value i v d) j =
   map_option (\<lambda>c. if j = i then c\<lparr>ch_value := Some v\<rparr> else c) (challenge_by_id d j)"
proof -
  have "first_where (\<lambda>c. ch_id c = j) (update_where (\<lambda>c. ch_id c = i) (\<lambda>c. c\<lparr>ch_value := Some v\<rparr>) cs) =
    map_option (\<lambda>c. if j = i then c\<lparr>ch_value := Some v\<rparr> else c) (first_where (\<lambda>c. ch_id c = j) cs)" for cs
    by (induction cs) (auto simp: update_where_def)
  then show ?thesis by (simp add: challenge_by_id_def set_value_def)
qed

lemma challenge_by_id_set_value_other:
  "j \<noteq> i \<Longrightarrow> challenge_by_id (set_value i v d) j = challenge_by_id d j"
  by (simp add: challenge_by_id_set_value option.map_ident)

lemma recalculate_Inr:
  "recalculate d conf ch row = Inr d' \<Longrightarrow>
   (case row of None \<Rightarrow> d' = d
    | Some r \<Rightarrow> \<exists>v. decay_value d conf r = Inr v \<and> d' = set_value (dy_id r) v d)"
  by (auto simp: recalculate_def calculate_value_def monad_simps split: option.splits if_splits)

lemma validate_solve_account_Inr:
  assumes "validate_solve_account d conf s = Inr s'"
  obtains i u t where "sub_user_id s = Some i" "user_by_id d i = Some u" "s' = s\<lparr>sub_team_id := t\<rparr>"
    "t = None \<or> t = us_team_id u" "is_teams_mode conf \<longrightarrow> t \<noteq> None"
proof -
  from assms obtain i u where iu: "sub_user_id s = Some i" "user_by_id d i = Some u"
    by (auto simp: validate_solve_account_def split: option.splits)
  have "s' = s\<lparr>sub_team_id := solve_team conf u s\<rparr> \<and>
      (solve_team conf u s = None \<or> solve_team conf u s = us_team_id u) \<and>
      (is_teams_mode conf \<longrightarrow> solve_team conf u s \<noteq> None)"
  proof (cases "solve_team conf u s")
    case None
    then have "sub_team_id s = None" by (auto simp: solve_team_def split: if_splits)
    with None assms iu show ?thesis by (auto simp: validate_solve_account_def split: if_splits)
  next
    case (Some t)
    with assms iu show ?thesis by (auto simp: validate_solve_account_def split: if_splits)
  qed
  with iu that show ?thesis by blast
qed

text \<open>What a solving transaction did, in one place: the facts the properties below share.\<close>

lemma solve_Inr_cases:
  assumes "solve conf now ip u t cid submission d = Inr (b, d')"
  obtains (known) s w where "\<not> b" "d' = d" "existing_solve d s \<noteq> None"
      "sub_challenge_id s = Some cid" "sub_user_id s = Some (us_id u)"
      "user_by_id d (us_id u) = Some w" "sub_team_id s = None \<or> sub_team_id s = us_team_id w"
  | (inserted) s d1 ch row where "b" "lock_challenge d cid = Inr (ch, row)"
      "sub_challenge_id s = Some cid" "sub_user_id s = Some (us_id u)" "is_correct s"
      "sub_date s = Some now" "user_by_id d (us_id u) \<noteq> None"
      "is_teams_mode conf \<Longrightarrow> sub_team_id s \<noteq> None"
      "existing_solve d s = None" "insert_solve s d = Inr d1" "recalculate d1 conf ch row = Inr d'"
proof -
  let ?n = "new_submission ''correct'' now ip u t cid submission"
  from assms obtain ch row s where l: "lock_challenge d cid = Inr (ch, row)"
    and v: "validate_solve_account d conf ?n = Inr s"
    by (auto simp: solve_def monad_simps split: prod.splits if_splits)
  from v obtain i w t' where iw: "sub_user_id ?n = Some i" "user_by_id d i = Some w"
      "s = ?n\<lparr>sub_team_id := t'\<rparr>" "t' = None \<or> t' = us_team_id w" "is_teams_mode conf \<longrightarrow> t' \<noteq> None"
    by (rule validate_solve_account_Inr)
  then have s: "sub_challenge_id s = Some cid" "sub_user_id s = Some (us_id u)" "is_correct s"
      "sub_date s = Some now" "user_by_id d (us_id u) \<noteq> None" "is_teams_mode conf \<Longrightarrow> sub_team_id s \<noteq> None"
    by (auto simp: new_submission_def is_correct_def)
  have w: "user_by_id d (us_id u) = Some w" "sub_team_id s = None \<or> sub_team_id s = us_team_id w"
    using iw by (auto simp: new_submission_def)
  show ?thesis
  proof (cases "existing_solve d s = None")
    case False
    with assms l v have "\<not> b" "d' = d" by (auto simp: solve_def monad_simps split: if_splits)
    with False s w known show ?thesis by blast
  next
    case True
    with assms l v obtain d1 where "insert_solve s d = Inr d1" "b" "recalculate d1 conf ch row = Inr d'"
      by (auto simp: solve_def monad_simps split: if_splits sum.splits py_exc.splits)
    with inserted l s True show ?thesis by blast
  qed
qed

lemma existing_solve_None:
  assumes "scoring_ok d" "existing_solve d s = None" "x \<in> set (solves d)"
    "sub_challenge_id x = sub_challenge_id s"
  shows "sub_user_id x \<noteq> sub_user_id s \<and> (sub_team_id s = None \<or> sub_team_id x \<noteq> sub_team_id s)"
proof -
  have "child_of x \<in> set (solve_rows d)"
    using assms(1,3) by (simp add: set_solves_ok) (simp add: scoring_ok_def)
  with assms(2,4) show ?thesis
    by (fastforce simp: existing_solve_def table_simps same_solver_def filter_eq_def child_of_def)
qed

lemma recalculate_solves:
  "recalculate d conf ch row = Inr d' \<Longrightarrow> solves d' = solves d \<and> submissions d' = submissions d \<and>
     solve_rows d' = solve_rows d \<and> users d' = users d \<and> teams d' = teams d \<and> awards d' = awards d"
  by (drule recalculate_Inr) (auto split: option.splits)

lemma insert_solve_frame:
  "insert_solve s d = Inr d' \<Longrightarrow> users d' = users d \<and> teams d' = teams d \<and> awards d' = awards d \<and>
     challenges d' = challenges d \<and> dynamic_rows d' = dynamic_rows d"
  by (auto simp: insert_solve_def add_submission_def split: if_splits)

lemma solve_ok: "scoring_ok d \<Longrightarrow> solve conf now ip u t cid submission d = Inr (b, d') \<Longrightarrow> scoring_ok d'"
proof (erule solve_Inr_cases)
  fix s d1 ch row
  assume ok: "scoring_ok d" and i: "insert_solve s d = Inr d1" "is_correct s"
    and r: "recalculate d1 conf ch row = Inr d'"
  from recalculate_solves[OF r] insert_solve_ok[OF ok i] show "scoring_ok d'"
    using scoring_ok_cong[of d' d1] by simp
qed simp

section \<open>Properties of a transaction\<close>

text \<open>
  Property C3: a solving transaction that returns keeps the scoring invariant.  If it answers
  \<open>True\<close>, the solves of the database are the old ones followed by one new solve of that
  challenge by that user, dated now, in team mode with a team, and neither the user nor that
  team had solved it before; if it answers \<open>False\<close>, nothing changed and there was such a solve.
\<close>

theorem solve_transaction:
  assumes "scoring_ok d" "solve conf now ip u t cid submission d = Inr (b, d')"
  shows "scoring_ok d' \<and>
    (if b then \<exists>s. solves d' = solves d @ [s] \<and> sub_challenge_id s = Some cid \<and>
        sub_user_id s = Some (us_id u) \<and> sub_date s = Some now \<and>
        \<not> (is_teams_mode conf \<and> sub_team_id s = None) \<and>
        \<not> (\<exists>x\<in>set (solves d). sub_challenge_id x = Some cid \<and>
            (sub_user_id x = Some (us_id u) \<or> sub_team_id s \<noteq> None \<and> sub_team_id x = sub_team_id s))
     else d' = d \<and> (\<exists>r\<in>set (solve_rows d). sv_challenge_id r = Some cid \<and>
       (sv_user_id r = Some (us_id u) \<or>
        (\<exists>w. user_by_id d (us_id u) = Some w \<and> us_team_id w \<noteq> None \<and> sv_team_id r = us_team_id w))))"
  using assms(2)
proof (cases rule: solve_Inr_cases)
  case (known s w)
  from known(3) obtain r where "r \<in> set (solve_rows d)" "same_solver s r"
    by (auto simp: existing_solve_def dest: first_where_SomeD)
  then show ?thesis
    using assms(1) known by (auto simp: same_solver_def filter_eq_def intro!: bexI[of _ r]) metis
next
  case (inserted s d1 ch row)
  let ?n = "s\<lparr>sub_id := fresh_id sub_id (submissions d)\<rparr>"
  note r = recalculate_solves[OF inserted(11)]
  have "scoring_ok d'" by (rule solve_ok[OF assms])
  moreover have "solves d' = solves d @ [?n]" using solves_insert[OF assms(1) inserted(10)] r by simp
  moreover have "\<not> (\<exists>x\<in>set (solves d). sub_challenge_id x = Some cid \<and>
      (sub_user_id x = Some (us_id u) \<or> sub_team_id ?n \<noteq> None \<and> sub_team_id x = sub_team_id ?n))"
    using existing_solve_None[OF assms(1) inserted(9)] inserted(3,4) by auto
  ultimately show ?thesis using inserted by auto
qed

text \<open>
  Also proved: after a solve of a dynamic challenge its stored value is what its decay function
  gives on the new state, the solve just made included, and no other challenge's row changed.
\<close>

theorem solve_recalculates:
  assumes "solve conf now ip u t cid submission d = Inr (True, d')"
    and "challenge_by_id d cid = Some ch" "challenge_type ch = ''dynamic''"
  shows "\<exists>r v ch'. dynamic_by_id d cid = Some r \<and> decay_value d' conf r = Inr v \<and>
    challenge_by_id d' cid = Some ch' \<and> ch_value ch' = Some v \<and>
    (\<forall>j. j = cid \<or> challenge_by_id d' j = challenge_by_id d j)"
  using assms(1)
proof (cases rule: solve_Inr_cases)
  case (inserted s d1 ch' row)
  from inserted(2) assms(2,3) have "ch' = ch \<and> row = dynamic_by_id d cid \<and> row \<noteq> None"
    by (cases "dynamic_by_id d cid") (auto simp: lock_challenge_def first_or_404_def dest!: sym[of "Some _"])
  then obtain r where r: "ch' = ch" "row = Some r" "dynamic_by_id d cid = Some r" by auto
  then have id: "dy_id r = cid" by (auto simp: dynamic_by_id_def dest: first_where_SomeD)
  from recalculate_Inr[OF inserted(11)] r id obtain v where v: "decay_value d1 conf r = Inr v"
      "d' = set_value cid v d1"
    by auto
  have same: "challenge_by_id d1 j = challenge_by_id d j" for j
    using insert_solve_frame[OF inserted(10)] by (simp add: challenge_by_id_def)
  have "j = cid \<or> challenge_by_id d' j = challenge_by_id d j" for j
    using v(2) same[of j] challenge_by_id_set_value_other[of j cid v d1] by (cases "j = cid") simp_all
  moreover have "challenge_by_id d' cid = Some (ch\<lparr>ch_value := Some v\<rparr>)"
    using v(2) same[of cid] assms(2) by (simp add: challenge_by_id_set_value)
  ultimately show ?thesis using v r by auto
qed simp

text \<open>
  Also proved: once a user has solved a challenge no later transaction of that user on it
  answers \<open>True\<close>, so a solve is never counted twice.
\<close>

theorem solve_once:
  assumes "scoring_ok d" "x \<in> set (solves d)" "sub_challenge_id x = Some cid"
    and "sub_user_id x = Some (us_id u)"
  shows "\<nexists>d'. solve conf now ip u t cid submission d = Inr (True, d')"
proof
  assume "\<exists>d'. solve conf now ip u t cid submission d = Inr (True, d')"
  then obtain d' where "solve conf now ip u t cid submission d = Inr (True, d')" by blast
  then show False
  proof (cases rule: solve_Inr_cases)
    case (inserted s d1 ch row)
    then show False using existing_solve_None[OF assms(1) inserted(9) assms(2)] assms(3,4) by simp
  qed simp
qed

lemma solve_value_frame:
  "challenges d' = challenges d \<Longrightarrow> solve_value d' = solve_value d"
proof -
  assume "challenges d' = challenges d"
  then have "challenge_by_id d' = challenge_by_id d" by (simp add: fun_eq_iff challenge_by_id_def)
  then show ?thesis by (auto simp: solve_value_def fun_eq_iff split: option.splits)
qed

lemma raw_freeze_None [simp]: "raw_freeze None admin = Inr None"
  by (simp add: raw_freeze_def)

text \<open>
  Also proved: solving a challenge with a fixed value adds exactly that value to the score of
  the solver and nothing to anyone else's.
\<close>

theorem solve_scores:
  assumes "scoring_ok d" "solve conf now ip u t cid submission d = Inr (True, d')"
    and "challenge_by_id d cid = Some ch" "challenge_type ch \<noteq> ''dynamic''"
    and "user_get_score d None w admin = Inr n"
  shows "user_get_score d' None w admin =
    Inr (n + (if us_id w = us_id u then (case ch_value ch of None \<Rightarrow> 0 | Some v \<Rightarrow> v) else 0))"
  using assms(2)
proof (cases rule: solve_Inr_cases)
  case (inserted s d1 ch' row)
  then have d: "d' = d1"
    using assms(3,4) recalculate_Inr[OF inserted(11)]
    by (auto simp: lock_challenge_def first_or_404_def monad_simps split: if_splits)
  have v: "solve_value d' = solve_value d" and a: "awards d' = awards d"
    using insert_solve_frame[OF inserted(10)] d solve_value_frame[of d' d] by auto
  have "solve_value d (s\<lparr>sub_id := k\<rparr>) = ch_value ch" for k
    using inserted(3) assms(3) by (simp add: solve_value_def)
  then show ?thesis
    using assms(5) solves_insert[OF assms(1) inserted(10)] d v a inserted(4)
    by (auto simp: user_get_score_def)
qed simp

section \<open>A stored configuration that validates\<close>

lemma dget_dyn_attrs:
  "dget (config_dict [] (dyn_attrs r)) ''initial'' = of_opt_int (dy_initial r)"
  "dget (config_dict [] (dyn_attrs r)) ''minimum'' = of_opt_int (dy_minimum r)"
  "dget (config_dict [] (dyn_attrs r)) ''decay'' = of_opt_int (dy_decay r)"
  "dget (config_dict [] (dyn_attrs r)) ''function'' = of_opt_str (dy_function r)"
  by (simp_all add: config_dict_def dyn_attrs_def config_value_def dget_def dget_default_def)

lemma has_config:
  "\<exists>y. map_of (config_dict a b) ''initial'' = Some y" "\<exists>y. map_of (config_dict a b) ''minimum'' = Some y"
  "\<exists>y. map_of (config_dict a b) ''decay'' = Some y" "\<exists>y. map_of (config_dict a b) ''function'' = Some y"
  "map_of (config_dict a b) ''value'' = None"
  by (simp_all add: config_dict_def)

lemma score_integer_opt:
  "score_integer (of_opt_int x) f m = Inr i \<longleftrightarrow> x = Some i \<and> m \<le> i \<and> i \<le> MAX_SCORE"
  by (cases x) (auto simp: score_integer_def)

lemma stored_config_valid:
  "(\<exists>c. dynamic_config [] (dyn_attrs r) = Inr c) \<longleftrightarrow> valid_dynamic r"
proof
  assume "\<exists>c. dynamic_config [] (dyn_attrs r) = Inr c"
  then obtain c where c: "dynamic_config [] (dyn_attrs r) = Inr c" by blast
  from dynamic_config_Inr[OF c] c show "valid_dynamic r"
    by (cases "dy_function r")
       (auto simp: dynamic_config_def Let_def monad_simps score_integer_opt dget_dyn_attrs valid_dynamic_def
         is_decay_name_def decay_names_def split: if_splits)
next
  assume "valid_dynamic r"
  then obtain i m k where "dy_initial r = Some i" "dy_minimum r = Some m" "dy_decay r = Some k"
    "0 \<le> m" "m \<le> i" "i \<le> MAX_SCORE" "1 \<le> k" "k \<le> MAX_SCORE"
    "dy_function r = Some ''linear'' \<or> dy_function r = Some ''logarithmic''"
    by (rule valid_dynamicE)
  then show "\<exists>c. dynamic_config [] (dyn_attrs r) = Inr c"
    by (auto simp: dynamic_config_def Let_def validate_score_fields_def score_fields_def dget_dyn_attrs
        field_minimum_def is_decay_name_def decay_names_def has_config)
qed

lemma no_clash: "existing_solve d s = None \<Longrightarrow> \<exists>d'. insert_solve s d = Inr d'"
proof -
  have "unique_clash s r \<Longrightarrow> same_solver s r" for r
    by (cases "sv_challenge_id r"; cases "sub_challenge_id s"; cases "sv_user_id r"; cases "sub_user_id s";
        cases "sv_team_id r"; cases "sub_team_id s") (auto simp: unique_clash_def same_solver_def filter_eq_def)
  moreover assume "existing_solve d s = None"
  ultimately show ?thesis by (auto simp: existing_solve_def insert_solve_def table_simps list_ex_iff)
qed

lemma decay_value_exists:
  assumes "valid_dynamic r" "is_users_mode conf \<or> is_teams_mode conf"
  shows "\<exists>v. decay_value d conf r = Inr v \<and> 0 \<le> v \<and> v \<le> MAX_SCORE"
proof -
  from assms(1) obtain i m k where r: "dy_initial r = Some i" "dy_minimum r = Some m" "dy_decay r = Some k"
    "0 \<le> m" "m \<le> i" "i \<le> MAX_SCORE" "1 \<le> k" "k \<le> MAX_SCORE"
    "dy_function r = Some ''linear'' \<or> dy_function r = Some ''logarithmic''"
    by (rule valid_dynamicE)
  from assms(2) obtain n where n: "get_solve_count d conf (dy_id r) = Inr n"
    by (auto simp: get_solve_count_def)
  have "m \<le> decay_of r n \<and> decay_of r n \<le> i"
    using r logarithmic_mono[of m i 0 n k] logarithmic_start[of i m 0 k] logarithmic_ge_minimum[of m i k n]
    by (auto simp: decay_of_def linear_value_def at_least_def)
  with n r show ?thesis by (auto simp: decay_value_valid[OF assms(1)])
qed

definition scorable :: "challenge \<Rightarrow> dyn_row option \<Rightarrow> bool" where
  "scorable ch row = (case row of
      None \<Rightarrow> (case ch_value ch of None \<Rightarrow> False | Some v \<Rightarrow> 0 \<le> v \<and> v \<le> MAX_SCORE)
    | Some r \<Rightarrow> valid_dynamic r)"

lemma recalculate_exists:
  assumes "scorable ch row" "is_users_mode conf \<or> is_teams_mode conf"
  shows "\<exists>d'. recalculate d conf ch row = Inr d'"
proof (cases row)
  case None
  with assms(1) show ?thesis by (auto simp: scorable_def recalculate_def split: option.splits)
next
  case (Some r)
  with assms(1) obtain c where "dynamic_config [] (dyn_attrs r) = Inr c"
    using stored_config_valid[of r] by (auto simp: scorable_def)
  with Some assms decay_value_exists[of r conf d] show ?thesis
    by (auto simp: recalculate_def calculate_value_def scorable_def)
qed

text \<open>
  Property C5: a correct answer by a registered account to an existing, validly configured
  challenge the account has not solved always becomes a solve: no error path can reject it.
\<close>

theorem solve_succeeds:
  assumes "lock_challenge d cid = Inr (ch, row)" "scorable ch row"
    and "is_users_mode conf \<or> is_teams_mode conf"
    and "user_by_id d (us_id u) = Some u" "user_team d u = t" "is_users_mode conf \<or> t \<noteq> None"
    and "existing_solve d (new_submission ''correct'' now ip u t cid submission) = None"
  shows "\<exists>d'. solve conf now ip u t cid submission d = Inr (True, d')"
proof -
  let ?n = "new_submission ''correct'' now ip u t cid submission"
  have v: "validate_solve_account d conf ?n = Inr ?n"
  proof (cases t)
    case None
    then have "solve_team conf u ?n = None" "sub_team_id ?n = None" "\<not> is_teams_mode conf"
      using assms(6) modes_exclusive[of conf] by (auto simp: new_submission_def solve_team_def)
    then show ?thesis
      using assms(4) by (simp add: validate_solve_account_def) (simp add: new_submission_def)
  next
    case (Some tm)
    then have "us_team_id u = Some (te_id tm)" "team_by_id d (te_id tm) = Some tm"
      using assms(5) by (auto simp: user_team_def team_by_id_def split: option.splits dest: first_where_SomeD)
    moreover from Some have "solve_team conf u ?n = Some (te_id tm)" "sub_team_id ?n = Some (te_id tm)"
      by (auto simp: new_submission_def solve_team_def)
    ultimately show ?thesis
      using assms(4) Some by (simp add: validate_solve_account_def) (simp add: new_submission_def)
  qed
  obtain d1 where d1: "insert_solve ?n d = Inr d1" using no_clash[OF assms(7)] by blast
  obtain d2 where d2: "recalculate d1 conf ch row = Inr d2"
    using recalculate_exists[OF assms(2,3)] by blast
  have "challenge_type ch = ''dynamic'' \<longleftrightarrow> row \<noteq> None"
    using assms(1) by (auto simp: lock_challenge_def monad_simps split: if_splits)
  then have "challenge_type ch = ''dynamic'' \<or> (\<exists>v. score_integer (of_opt_int (ch_value ch)) ''value'' 0 = Inr v)"
    using assms(2) by (auto simp: scorable_def split: option.splits)
  then show ?thesis using assms(1,7) v d1 d2 by (auto simp: solve_def)
qed

section \<open>Histories\<close>

datatype scoring_event =
    SolveEvent int string user "team option" int string
  | FailEvent int string user "team option" int string
  | DeleteEvent int

definition scoring_step :: "config \<Rightarrow> db \<Rightarrow> scoring_event \<Rightarrow> db" where
  "scoring_step conf d e = (case e of
      SolveEvent now ip u t cid s \<Rightarrow> (case solve conf now ip u t cid s d of Inr (_, d') \<Rightarrow> d' | Inl _ \<Rightarrow> d)
    | FailEvent now ip u t cid s \<Rightarrow> fail now ip u t cid s d
    | DeleteEvent cid \<Rightarrow> snd (delete_challenge [] cid d))"

lemma distinct_map_filter_filter:
  "distinct (List.map_filter f xs) \<Longrightarrow> distinct (List.map_filter f (filter p xs))"
  by (induction xs) (auto simp: List.map_filter_simps set_map_filter split: option.splits)

lemma delete_challenge_tables:
  "submissions (snd (delete_challenge [] i d)) = filter (\<lambda>s. sub_challenge_id s \<noteq> Some i) (submissions d)"
  "solve_rows (snd (delete_challenge [] i d)) = filter (\<lambda>r. sv_challenge_id r \<noteq> Some i) (solve_rows d)"
  by (auto simp: delete_challenge_def cascade_challenge_def delete_notes_def delete_files_def
      delete_answers_def delete_where_def Let_def intro!: filter_cong)

lemma delete_challenge_ok: "scoring_ok d \<Longrightarrow> scoring_ok (snd (delete_challenge [] i d))"
proof -
  assume ok: "scoring_ok d"
  have "{r \<in> child_of ` {s \<in> set (submissions d). is_correct s}. sv_challenge_id r \<noteq> Some i} =
      child_of ` {s \<in> set (submissions d). sub_challenge_id s \<noteq> Some i \<and> is_correct s}"
    by (auto simp: child_of_def)
  with ok show ?thesis
    by (auto simp: scoring_ok_def delete_challenge_tables distinct_map_filter distinct_map_filter_filter
        conj_commute)
qed

lemma scoring_step_ok: "scoring_ok d \<Longrightarrow> scoring_ok (scoring_step conf d ev)"
  by (cases ev)
     (auto simp: scoring_step_def fail_def new_submission_def is_correct_def add_submission_ok delete_challenge_ok
      split: sum.split dest: solve_ok)

text \<open>
  Property C4: whatever sequence of answers and challenge deletions the accounts and
  administrators produce, every challenge is solved at most once by each user and by each
  team, and the solves are exactly the submissions marked correct.
\<close>

theorem scoring_history:
  assumes "scoring_ok d"
  shows "(let d' = foldl (scoring_step conf) d es in
    set (solves d') = {s \<in> set (submissions d'). sub_type s = Some ''correct''} \<and>
    (\<forall>x y c a. x \<notin> set (solves d') \<or> y \<notin> set (solves d') \<or>
      sub_challenge_id x \<noteq> Some c \<or> sub_challenge_id y \<noteq> Some c \<or>
      \<not> (sub_user_id x = Some a \<and> sub_user_id y = Some a \<or> sub_team_id x = Some a \<and> sub_team_id y = Some a) \<or>
      x = y))"
proof -
  have "scoring_ok (foldl (scoring_step conf) d es)"
    using assms by (induction es arbitrary: d) (auto simp: scoring_step_ok)
  then show ?thesis
    using set_solves_ok solves_unique by (fastforce simp: Let_def is_correct_def)
qed

section \<open>Witnesses\<close>

definition ctf_db :: db where
  "ctf_db = empty_db\<lparr>users := [sample_user 1 None], challenges := [sample_challenge 3 (Some 100)]\<rparr>"

definition dynamic_db :: db where
  "dynamic_db = empty_db\<lparr>users := [sample_user 1 None],
     challenges := [(sample_challenge 3 (Some 50))\<lparr>ch_type := Some ''dynamic''\<rparr>],
     dynamic_rows := [\<lparr>dy_id = 3, dy_initial = Some 500, dy_minimum = Some 100, dy_decay = Some 2,
       dy_function = Some ''linear''\<rparr>]\<rparr>"

definition answer :: "db \<Rightarrow> py_exc + bool \<times> db" where
  "answer d = solve (mode_conf ''users'') 5 ''ip'' (sample_user 1 None) None 3 '' flag '' d"

definition answered :: "db \<Rightarrow> db" where
  "answered d = snd (projr (answer d))"

lemma scoring_ok_sample [simp]: "scoring_ok ctf_db" "scoring_ok dynamic_db"
  by (simp_all add: scoring_ok_def ctf_db_def dynamic_db_def empty_db_def List.map_filter_def)

lemma answer_ctf: "solve (mode_conf ''users'') 5 ''ip'' (sample_user 1 None) None 3 '' flag '' ctf_db =
    Inr (True, answered ctf_db)"
  unfolding answered_def answer_def by code_simp

lemma answer_dynamic: "solve (mode_conf ''users'') 5 ''ip'' (sample_user 1 None) None 3 '' flag '' dynamic_db =
    Inr (True, answered dynamic_db)"
  unfolding answered_def answer_def by code_simp

theorem solve_transaction_witness:
  "\<exists>s. solves (answered ctf_db) = [s] \<and> sub_challenge_id s = Some 3 \<and> sub_user_id s = Some 1"
  using solve_transaction[OF scoring_ok_sample(1) answer_ctf]
  by (auto simp: ctf_db_def empty_db_def solves_def sample_user_def List.map_filter_def)

theorem solve_recalculates_witness:
  "\<exists>ch. challenge_by_id (answered dynamic_db) 3 = Some ch \<and> ch_value ch = Some 500"
proof -
  let ?ch = "(sample_challenge 3 (Some 50))\<lparr>ch_type := Some ''dynamic''\<rparr>"
  have "challenge_by_id dynamic_db 3 = Some ?ch" "challenge_type ?ch = ''dynamic''" by code_simp+
  moreover have "map_option (decay_value (answered dynamic_db) (mode_conf ''users'')) (dynamic_by_id dynamic_db 3)
      = Some (Inr 500)"
    by code_simp
  ultimately show ?thesis using solve_recalculates[OF answer_dynamic] by fastforce
qed

theorem solve_once_witness:
  "\<nexists>d'. solve (mode_conf ''users'') 9 ''ip'' (sample_user 1 None) None 3 ''again'' (answered ctf_db) = Inr (True, d')"
proof -
  have ok: "scoring_ok (answered ctf_db)" by (rule solve_ok[OF scoring_ok_sample(1) answer_ctf])
  have "list_ex (\<lambda>s. sub_challenge_id s = Some 3 \<and> sub_user_id s = Some (us_id (sample_user 1 None)))
      (solves (answered ctf_db))"
    by code_simp
  then show ?thesis using solve_once[OF ok] by (auto simp: list_ex_iff)
qed

theorem solve_scores_witness:
  "user_get_score (answered ctf_db) None (sample_user 1 None) True = Inr 100"
  using solve_scores[OF scoring_ok_sample(1) answer_ctf, of "sample_challenge 3 (Some 100)" "sample_user 1 None" True 0]
  by (simp add: ctf_db_def empty_db_def challenge_by_id_def sample_challenge_def challenge_type_def
      user_get_score_def solves_def List.map_filter_def)

theorem solve_succeeds_witness:
  "\<exists>d'. solve (mode_conf ''users'') 5 ''ip'' (sample_user 1 None) None 3 ''x'' dynamic_db = Inr (True, d')"
proof (rule solve_succeeds)
  show "lock_challenge dynamic_db 3 = Inr (hd (challenges dynamic_db), Some (hd (dynamic_rows dynamic_db)))"
    by code_simp
  show "scorable (hd (challenges dynamic_db)) (Some (hd (dynamic_rows dynamic_db)))" by code_simp
  show "user_by_id dynamic_db (us_id (sample_user 1 None)) = Some (sample_user 1 None)" by code_simp
  show "user_team dynamic_db (sample_user 1 None) = None" by code_simp
  show "existing_solve dynamic_db (new_submission ''correct'' 5 ''ip'' (sample_user 1 None) None 3 ''x'') = None"
    by code_simp
qed simp_all

theorem scoring_history_witness:
  "set (solves (foldl (scoring_step (mode_conf ''users'')) ctf_db
      [SolveEvent 5 ''ip'' (sample_user 1 None) None 3 ''x'', FailEvent 6 ''ip'' (sample_user 1 None) None 3 ''y''])) =
   {s \<in> set (submissions (foldl (scoring_step (mode_conf ''users'')) ctf_db
      [SolveEvent 5 ''ip'' (sample_user 1 None) None 3 ''x'', FailEvent 6 ''ip'' (sample_user 1 None) None 3 ''y''])).
      sub_type s = Some ''correct''}"
  using scoring_history[OF scoring_ok_sample(1), of "mode_conf ''users''"
      "[SolveEvent 5 ''ip'' (sample_user 1 None) None 3 ''x'', FailEvent 6 ''ip'' (sample_user 1 None) None 3 ''y'']"]
  unfolding Let_def by blast

end
