(* ===== verification/Access.thy ===== *)
theory Access imports Models begin

text \<open>
  Who is asking and what they may reach: the session and user queries of
  \<^verbatim>\<open>utils/user\<close> and \<^verbatim>\<open>utils/security/auth.py\<close>, the request
  pipeline of \<^verbatim>\<open>utils/initialization\<close>, the view decorators of
  \<^verbatim>\<open>utils/decorators\<close> and the visibility questions of
  \<^verbatim>\<open>utils/config/visibility.py\<close>.
\<close>

section \<open>Requests and sessions\<close>

record session =
  se_id :: "int option"
  se_nonce :: "string option"
  se_hash :: "string option"

record request =
  rq_method :: string
  rq_endpoint :: "string option"
  rq_content_type :: "string option"
  rq_mimetype :: string
  rq_event_stream :: bool
  rq_authorization :: "string option"
  rq_csrf_token :: "string option"
  rq_form_nonce :: "string option"

text \<open>
  What a request handler sees: the database, the configuration, the clock, the session, the
  request, and the keyed digest \<open>hmac\<close> of a stored password (a library function).
\<close>

record ctx =
  cx_db :: db
  cx_conf :: config
  cx_now :: rat
  cx_session :: session
  cx_request :: request
  cx_hmac :: "string option \<Rightarrow> string"

definition no_session :: session where
  "no_session = \<lparr>se_id = None, se_nonce = None, se_hash = None\<rparr>"

definition utcnow :: "ctx \<Rightarrow> int" where
  "utcnow c = \<lfloor>cx_now c * 1000000\<rfloor>"

definition is_json :: "ctx \<Rightarrow> bool" where
  "is_json c = (rq_content_type (cx_request c) = Some ''application/json'')"

definition authed :: "ctx \<Rightarrow> bool" where
  "authed c = (case se_id (cx_session c) of None \<Rightarrow> False | Some i \<Rightarrow> i \<noteq> 0)"

definition session_user :: "ctx \<Rightarrow> user option" where
  "session_user c = (case se_id (cx_session c) of None \<Rightarrow> None | Some i \<Rightarrow> user_by_id (cx_db c) i)"

text \<open>A session made before the last password change carries a stale digest.\<close>

definition stale_session :: "ctx \<Rightarrow> user \<Rightarrow> bool" where
  "stale_session c u = (case se_hash (cx_session c) of None \<Rightarrow> False
     | Some h \<Rightarrow> h \<noteq> [] \<and> h \<noteq> cx_hmac c (us_password u))"

definition get_current_user :: "ctx \<Rightarrow> py_exc + user option" where
  "get_current_user c =
     (if \<not> authed c then Inr None
      else case session_user c of
        None \<Rightarrow> (case se_hash (cx_session c) of
            Some h \<Rightarrow> if h \<noteq> [] then Inl AttributeError else Inr None
          | None \<Rightarrow> Inr None)
      | Some u \<Rightarrow> if stale_session c u
                  then Inl (if is_json c then HTTPAbort 401 else HTTPRedirect ''auth.login'')
                  else Inr (Some u))"

text \<open>The session after the call: \<open>logout_user\<close> clears it when the digest is stale.\<close>

definition session_after_current_user :: "ctx \<Rightarrow> session" where
  "session_after_current_user c =
     (if authed c \<and> (case session_user c of None \<Rightarrow> False | Some u \<Rightarrow> stale_session c u)
      then no_session else cx_session c)"

definition get_current_user_attrs :: "ctx \<Rightarrow> user option" where
  "get_current_user_attrs c = (if authed c then session_user c else None)"

definition get_current_team :: "ctx \<Rightarrow> py_exc + team option" where
  "get_current_team c =
     (if \<not> authed c then Inr None
      else bindE (get_current_user c) (\<lambda>u. case u of
        None \<Rightarrow> Inl AttributeError
      | Some u \<Rightarrow> Inr (user_team (cx_db c) u)))"

definition get_current_team_attrs :: "ctx \<Rightarrow> team option" where
  "get_current_team_attrs c = (case get_current_user_attrs c of None \<Rightarrow> None
     | Some u \<Rightarrow> (case us_team_id u of None \<Rightarrow> None
         | Some t \<Rightarrow> if t \<noteq> 0 then team_by_id (cx_db c) t else None))"

text \<open>\<open>RecoverableType\<close> reads a null discriminator as \<open>__invalid__\<close>.\<close>

definition user_type :: "user \<Rightarrow> string" where
  "user_type u = process_result_value (us_type u)"

definition get_current_user_type :: "ctx \<Rightarrow> string option \<Rightarrow> string option" where
  "get_current_user_type c fallback =
     (if authed c then (case get_current_user_attrs c of None \<Rightarrow> None
        | Some u \<Rightarrow> if user_type u \<noteq> [] then Some (user_type u) else None)
      else fallback)"

text \<open>The role tests return \<open>True\<close>, \<open>False\<close> or fall through to \<open>None\<close>.\<close>

definition is_admin :: "ctx \<Rightarrow> bool option" where
  "is_admin c =
     (if authed c then (case get_current_user_attrs c of None \<Rightarrow> None
        | Some u \<Rightarrow> if user_type u \<noteq> [] then Some (user_type u = ''admin'') else None)
      else Some False)"

definition has_role :: "string list \<Rightarrow> ctx \<Rightarrow> bool option" where
  "has_role roles c =
     (if authed c then (case get_current_user_attrs c of None \<Rightarrow> Some False
        | Some u \<Rightarrow> if user_type u \<noteq> [] then Some (user_type u \<in> set roles) else Some False)
      else None)"

definition is_challenge_writer :: "ctx \<Rightarrow> bool option" where
  "is_challenge_writer = has_role [''challenge_writer'']"

definition is_jury :: "ctx \<Rightarrow> bool option" where
  "is_jury = has_role [''jury'']"

definition is_admin_or_challenge_writer_or_jury :: "ctx \<Rightarrow> bool option" where
  "is_admin_or_challenge_writer_or_jury = has_role [''admin'', ''challenge_writer'', ''jury'']"

abbreviation yes :: "bool option \<Rightarrow> bool" where
  "yes b \<equiv> b = Some True"

text \<open>The second word of a bearer header; the user of an unknown token is \<open>None\<close>.\<close>

definition is_banned :: "ctx \<Rightarrow> py_exc + bool option" where
  "is_banned c = (case rq_authorization (cx_request c) of
      Some h \<Rightarrow>
        if h \<noteq> [] \<and> starts_with ''Bearer '' h then
          (let t = split_on (CHR '' '') h ! 1 in
           case first_where (\<lambda>k. tk_value k = Some t) (tokens (cx_db c)) of
             None \<Rightarrow> Inl AttributeError
           | Some k \<Rightarrow> (case tk_user_id k of None \<Rightarrow> Inl AttributeError
               | Some i \<Rightarrow> (case user_by_id (cx_db c) i of
                   None \<Rightarrow> Inl AttributeError
                 | Some u \<Rightarrow> Inr (us_banned u))))
        else Inr (Some False)
    | None \<Rightarrow> Inr (Some False))"

text \<open>Whether \<open>is_verified()\<close> is, in turn, a true value and the value \<open>False\<close>.\<close>

definition is_verified :: "ctx \<Rightarrow> bool option" where
  "is_verified c =
     (if truthy (cx_conf c ''verify_emails'')
      then (case get_current_user_attrs c of Some u \<Rightarrow> us_verified u | None \<Rightarrow> Some False)
      else Some True)"

text \<open>\<open>trusted\<close> is the match against the configured proxy patterns.\<close>

definition get_ip :: "(string \<Rightarrow> bool) \<Rightarrow> string list \<Rightarrow> string \<Rightarrow> string" where
  "get_ip trusted access_route remote_addr =
     (case first_where (\<lambda>a. \<not> trusted a) (rev (access_route @ [remote_addr])) of
        Some a \<Rightarrow> a | None \<Rightarrow> remote_addr)"

definition get_wrong_submissions_per_minute :: "db \<Rightarrow> config \<Rightarrow> int \<Rightarrow> int option \<Rightarrow> nat" where
  "get_wrong_submissions_per_minute d conf now_us account_id =
     length (filter (\<lambda>s. filter_eq (submission_account_id conf s) account_id \<and>
       (case sub_date s of None \<Rightarrow> False | Some t \<Rightarrow> now_us - 60000000 \<le> t)) (fails d))"

section \<open>Sessions and access tokens\<close>

definition login_user :: "(string option \<Rightarrow> string) \<Rightarrow> string \<Rightarrow> user \<Rightarrow> session \<Rightarrow> session" where
  "login_user hm nonce u s =
     s\<lparr>se_id := Some (us_id u), se_nonce := Some nonce, se_hash := Some (hm (us_password u))\<rparr>"

definition update_user :: "(string option \<Rightarrow> string) \<Rightarrow> user \<Rightarrow> session \<Rightarrow> session" where
  "update_user hm u s = s\<lparr>se_id := Some (us_id u), se_hash := Some (hm (us_password u))\<rparr>"

definition logout_user :: "session \<Rightarrow> session" where
  "logout_user s = no_session"

definition is_user_token :: "token \<Rightarrow> bool" where
  "is_user_token t = (tk_type t = Some ''user'')"

definition revoke_user_tokens :: "int list \<Rightarrow> db \<Rightarrow> db" where
  "revoke_user_tokens user_ids d =
     d\<lparr>tokens := delete_where (\<lambda>t. is_user_token t \<and> (case tk_user_id t of None \<Rightarrow> False
        | Some i \<Rightarrow> i \<in> set user_ids)) (tokens d)\<rparr>"

text \<open>
  \<open>candidates\<close> are the successive random values; the loop takes the first one no user
  token has, and \<open>None\<close> stands for a stream that never offers one.  An expiration of
  \<open>None\<close> lets the column default of thirty days apply.
\<close>

definition token_lifetime :: int where
  "token_lifetime = 30 * 24 * 3600 * 1000000"

definition generate_user_token ::
  "string list \<Rightarrow> user \<Rightarrow> int \<Rightarrow> int option \<Rightarrow> string option \<Rightarrow> db \<Rightarrow> (token \<times> db) option" where
  "generate_user_token candidates u now_us expiration description d =
     (case first_where (\<lambda>v. first_where (\<lambda>t. is_user_token t \<and> tk_value t = Some v) (tokens d) = None)
             candidates of
        None \<Rightarrow> None
      | Some v \<Rightarrow>
          let t = \<lparr>tk_id = fresh_id tk_id (tokens d), tk_type = Some ''user'', tk_user_id = Some (us_id u),
                   tk_created = Some now_us, tk_expiration = Some (case expiration of None \<Rightarrow> now_us + token_lifetime
                     | Some e \<Rightarrow> e), tk_description = description,
                   tk_value = Some v\<rparr>
          in Some (t, d\<lparr>tokens := tokens d @ [t]\<rparr>))"

definition lookup_user_token :: "db \<Rightarrow> int \<Rightarrow> string \<Rightarrow> py_exc + user option" where
  "lookup_user_token d now_us value =
     (case first_where (\<lambda>t. is_user_token t \<and> tk_value t = Some value) (tokens d) of
        None \<Rightarrow> Inl UserNotFoundException
      | Some t \<Rightarrow> (case tk_expiration t of
            None \<Rightarrow> Inl TypeError
          | Some e \<Rightarrow> if e \<le> now_us then Inl UserTokenExpiredException
                      else Inr (case tk_user_id t of None \<Rightarrow> None | Some i \<Rightarrow> user_by_id d i)))"

section \<open>The request pipeline\<close>

text \<open>What a handler answers; \<open>NoReply\<close> is a wrapper that falls off its end.\<close>

datatype 'r reply = Body 'r | RedirectTo string | Status nat | NoReply

type_synonym step = "ctx \<Rightarrow> (py_exc + unit reply option) \<times> session"

definition pass :: "ctx \<Rightarrow> (py_exc + unit reply option) \<times> session" where
  "pass c = (Inr None, cx_session c)"

definition stop :: "ctx \<Rightarrow> unit reply \<Rightarrow> (py_exc + unit reply option) \<times> session" where
  "stop c r = (Inr (Some r), cx_session c)"

definition endpoint_in :: "string list \<Rightarrow> ctx \<Rightarrow> bool" where
  "endpoint_in es c = (case rq_endpoint (cx_request c) of None \<Rightarrow> False | Some e \<Rightarrow> e \<in> set es)"

definition needs_setup :: "bool \<Rightarrow> step" where
  "needs_setup importing c =
     (if importing then
        (if endpoint_in [''admin.import_ctf'', ''views.healthcheck''] c then pass c else stop c (Status 403))
      else if \<not> is_setup (cx_conf c) then
        (if endpoint_in [''views.setup'', ''views.integrations'', ''views.themes'', ''views.files'',
            ''views.healthcheck'', ''views.robots''] c then pass c else stop c (RedirectTo ''views.setup''))
      else pass c)"

definition banned :: step where
  "banned c =
     (if endpoint_in [''views.themes''] c then pass c
      else if (case get_current_user_attrs c of None \<Rightarrow> False | Some u \<Rightarrow> yes (us_banned u))
      then stop c (Status 403)
      else if (case get_current_team_attrs c of None \<Rightarrow> False | Some t \<Rightarrow> yes (te_banned t))
      then stop c (Status 403)
      else pass c)"

definition token_request :: "request \<Rightarrow> bool" where
  "token_request r =
     (rq_mimetype r = ''application/json'' \<or>
      rq_endpoint r = Some ''api.files_files_list'' \<and> rq_method r = ''POST'' \<and>
      rq_mimetype r = ''multipart/form-data'')"

text \<open>\<open>token.split(" ", 1)\<close>: what follows the first space, if there is one.\<close>

definition after_space :: "string \<Rightarrow> string option" where
  "after_space s = (case dropWhile (\<lambda>c. c \<noteq> CHR '' '') s of [] \<Rightarrow> None | _ # rest \<Rightarrow> Some rest)"

definition token_login :: "string \<Rightarrow> step" where
  "token_login nonce c = (case rq_authorization (cx_request c) of
      None \<Rightarrow> pass c
    | Some h \<Rightarrow>
        if h \<noteq> [] \<and> token_request (cx_request c) then
          (case after_space h of
             None \<Rightarrow> (Inl (HTTPAbort 401), cx_session c)
           | Some t \<Rightarrow> (case lookup_user_token (cx_db c) (utcnow c) t of
                 Inl _ \<Rightarrow> (Inl (HTTPAbort 401), cx_session c)
               | Inr None \<Rightarrow> (Inl AttributeError, cx_session c)
               | Inr (Some u) \<Rightarrow> (Inr None, login_user (cx_hmac c) nonce u (cx_session c))))
        else pass c)"

text \<open>\<open>view\<close> answers, for an endpoint, whether it exists and whether it is exempt.\<close>

definition csrf :: "(string option \<Rightarrow> bool option) \<Rightarrow> string \<Rightarrow> step" where
  "csrf view nonce c = (case view (rq_endpoint (cx_request c)) of
      None \<Rightarrow> (Inl (HTTPAbort 404), cx_session c)
    | Some True \<Rightarrow> pass c
    | Some False \<Rightarrow>
        (let s = (case se_nonce (cx_session c) of
               Some n \<Rightarrow> if n \<noteq> [] then cx_session c else (cx_session c)\<lparr>se_nonce := Some nonce\<rparr>
             | None \<Rightarrow> (cx_session c)\<lparr>se_nonce := Some nonce\<rparr>);
             r = cx_request c in
         if rq_method r \<in> {''GET'', ''HEAD'', ''OPTIONS'', ''TRACE''} then (Inr None, s)
         else if (if is_json c then se_nonce s \<noteq> rq_csrf_token r else se_nonce s \<noteq> rq_form_nonce r)
         then (Inl (HTTPAbort 403), s)
         else (Inr None, s)))"

fun run_steps :: "step list \<Rightarrow> step" where
  "run_steps [] c = pass c"
| "run_steps (f # fs) c = (case f c of
      (Inr None, s) \<Rightarrow> run_steps fs (c\<lparr>cx_session := s\<rparr>)
    | r \<Rightarrow> r)"

definition init_request_processors :: "bool \<Rightarrow> (string option \<Rightarrow> bool option) \<Rightarrow> string \<Rightarrow> string \<Rightarrow> step" where
  "init_request_processors importing view nonce1 nonce2 =
     run_steps [needs_setup importing, banned, token_login nonce1, csrf view nonce2]"

section \<open>View decorators\<close>

definition deny :: "ctx \<Rightarrow> string \<Rightarrow> py_exc + 'r reply" where
  "deny c endpoint = (if is_json c then Inl (HTTPAbort 403) else Inr (RedirectTo endpoint))"

definition during_ctf_time_only :: "ctx \<Rightarrow> py_exc + 'r reply \<Rightarrow> py_exc + 'r reply" where
  "during_ctf_time_only c f =
     bindE (ctftime (cx_conf c) (cx_now c)) (\<lambda>open_now.
     if open_now \<or> yes (is_admin c) then f
     else bindE (ctf_ended (cx_conf c) (cx_now c)) (\<lambda>ended.
       if ended then (if truthy (view_after_ctf (cx_conf c)) then f else Inl (HTTPAbort 403))
       else bindE (ctf_started (cx_conf c) (cx_now c)) (\<lambda>started.
         if started then Inr NoReply
         else if is_teams_mode (cx_conf c) then
           bindE (get_current_team c) (\<lambda>t. if t = None then Inr (RedirectTo ''auth.login'')
             else Inl (HTTPAbort 403))
         else Inl (HTTPAbort 403))))"

definition require_authentication_if_config :: "string \<Rightarrow> ctx \<Rightarrow> py_exc + 'r reply \<Rightarrow> py_exc + 'r reply" where
  "require_authentication_if_config key c f =
     (if truthy (cx_conf c key) \<and> authed c then Inr (RedirectTo ''auth.login'') else f)"

definition require_verified_emails :: "ctx \<Rightarrow> py_exc + 'r reply \<Rightarrow> py_exc + 'r reply" where
  "require_verified_emails c f =
     (if truthy (cx_conf c ''verify_emails'') \<and> authed c \<and> is_admin c = Some False
         \<and> is_verified c = Some False
      then deny c ''auth.confirm'' else f)"

definition login_wall :: "string \<Rightarrow> ctx \<Rightarrow> py_exc + 'r reply \<Rightarrow> py_exc + 'r reply" where
  "login_wall endpoint c f =
     (if authed c then f
      else if is_json c \<or> rq_event_stream (cx_request c) then Inl (HTTPAbort 403)
      else Inr (RedirectTo endpoint))"

definition authed_only :: "ctx \<Rightarrow> py_exc + 'r reply \<Rightarrow> py_exc + 'r reply" where
  "authed_only c f = login_wall ''auth.login'' c f"

definition registered_only :: "ctx \<Rightarrow> py_exc + 'r reply \<Rightarrow> py_exc + 'r reply" where
  "registered_only c f = login_wall ''auth.register'' c f"

definition admins_only :: "ctx \<Rightarrow> py_exc + 'r reply \<Rightarrow> py_exc + 'r reply" where
  "admins_only c f = (if yes (is_admin c) then f else deny c ''auth.login'')"

definition challenge_writer_only :: "ctx \<Rightarrow> py_exc + 'r reply \<Rightarrow> py_exc + 'r reply" where
  "challenge_writer_only c f = (if yes (is_challenge_writer c) then f else deny c ''auth.login'')"

definition jury_only :: "ctx \<Rightarrow> py_exc + 'r reply \<Rightarrow> py_exc + 'r reply" where
  "jury_only c f = (if yes (is_jury c) then f else deny c ''auth.login'')"

definition admin_or_challenge_writer_only_or_jury :: "ctx \<Rightarrow> py_exc + 'r reply \<Rightarrow> py_exc + 'r reply" where
  "admin_or_challenge_writer_only_or_jury c f =
     (if yes (is_jury c) \<or> yes (is_challenge_writer c) \<or> yes (is_admin c) then f
      else deny c ''auth.login'')"

definition admin_or_challenge_writer_only :: "ctx \<Rightarrow> py_exc + 'r reply \<Rightarrow> py_exc + 'r reply" where
  "admin_or_challenge_writer_only c f =
     (if yes (is_challenge_writer c) \<or> yes (is_admin c) then f else deny c ''auth.login'')"

definition admin_or_jury :: "ctx \<Rightarrow> py_exc + 'r reply \<Rightarrow> py_exc + 'r reply" where
  "admin_or_jury c f = (if yes (is_jury c) \<or> yes (is_admin c) then f else deny c ''auth.login'')"

definition require_team :: "ctx \<Rightarrow> py_exc + 'r reply \<Rightarrow> py_exc + 'r reply" where
  "require_team c f =
     (if is_teams_mode (cx_conf c)
      then bindE (get_current_team c) (\<lambda>t. if t = None then deny c ''auth.login'' else f)
      else Inl (HTTPAbort 404))"

text \<open>\<open>filled_all_required_fields is False\<close> holds of the boolean only, not of the integer 0.\<close>

definition require_complete_profile :: "ctx \<Rightarrow> py_exc + 'r reply \<Rightarrow> py_exc + 'r reply" where
  "require_complete_profile c f =
     (if \<not> authed c \<or> yes (is_admin c) then f
      else bindE (get_current_user c) (\<lambda>u. case u of
        None \<Rightarrow> Inl AttributeError
      | Some u \<Rightarrow>
          if user_filled_all_required_fields (cx_db c) u = PBool False
          then Inr (RedirectTo ''views.settings'')
          else if is_teams_mode (cx_conf c) then
            bindE (get_current_team c) (\<lambda>t. case t of
              None \<Rightarrow> f
            | Some t \<Rightarrow> if team_filled_all_required_fields (cx_db c) t = PBool False
                        then Inl (HTTPAbort 403) else f)
          else f))"

definition require_team_mode :: "ctx \<Rightarrow> py_exc + 'r reply \<Rightarrow> py_exc + 'r reply" where
  "require_team_mode c f = (if is_users_mode (cx_conf c) then Inl (HTTPAbort 404) else f)"

definition require_user_mode :: "ctx \<Rightarrow> py_exc + 'r reply \<Rightarrow> py_exc + 'r reply" where
  "require_user_mode c f = (if is_teams_mode (cx_conf c) then Inl (HTTPAbort 404) else f)"

section \<open>Visibility\<close>

definition conf_is :: "ctx \<Rightarrow> string \<Rightarrow> string \<Rightarrow> bool" where
  "conf_is c key v = py_eq (cx_conf c key) (PStr v)"

definition check_score_visibility :: "ctx \<Rightarrow> py_exc + 'r reply \<Rightarrow> py_exc + 'r reply" where
  "check_score_visibility c f =
     (if conf_is c ''score_visibility'' ''public'' then f
      else if conf_is c ''score_visibility'' ''private''
      then (if authed c then f else deny c ''auth.login'')
      else if conf_is c ''score_visibility'' ''hidden''
      then (if yes (is_admin c) then f
            else if is_json c then Inl (HTTPAbort 403) else Inr (Status 403))
      else Inr NoReply)"

definition check_challenge_visibility :: "ctx \<Rightarrow> py_exc + 'r reply \<Rightarrow> py_exc + 'r reply" where
  "check_challenge_visibility c f =
     (if conf_is c ''challenge_visibility'' ''public'' then f
      else if conf_is c ''challenge_visibility'' ''private''
      then (if authed c then f else deny c ''auth.login'')
      else if conf_is c ''challenge_visibility'' ''admins''
      then (if yes (is_admin c) then f
            else if authed c then Inl (HTTPAbort 403) else Inr (RedirectTo ''auth.login''))
      else Inr NoReply)"

definition check_account_visibility :: "ctx \<Rightarrow> py_exc + 'r reply \<Rightarrow> py_exc + 'r reply" where
  "check_account_visibility c f =
     (if conf_is c ''account_visibility'' ''public'' then f
      else if conf_is c ''account_visibility'' ''private''
      then (if authed c then f else deny c ''auth.login'')
      else if conf_is c ''account_visibility'' ''admins''
      then (if yes (is_admin c) then f else Inl (HTTPAbort 404))
      else Inr NoReply)"

definition check_registration_visibility :: "ctx \<Rightarrow> py_exc + 'r reply \<Rightarrow> py_exc + 'r reply" where
  "check_registration_visibility c f = Inl (HTTPAbort 404)"

definition challenges_visible :: "ctx \<Rightarrow> bool option" where
  "challenges_visible c =
     (if conf_is c ''challenge_visibility'' ''public'' then Some True
      else if conf_is c ''challenge_visibility'' ''private'' then Some (authed c)
      else if conf_is c ''challenge_visibility'' ''admins'' then is_admin c
      else None)"

text \<open>The last branch compares with \<open>ScoreVisibilityTypes.ADMINS\<close>, which the class lacks.\<close>

definition scores_visible :: "ctx \<Rightarrow> py_exc + bool" where
  "scores_visible c =
     (if conf_is c ''score_visibility'' ''public'' then Inr True
      else if conf_is c ''score_visibility'' ''private'' then Inr (authed c)
      else if conf_is c ''score_visibility'' ''hidden'' then Inr False
      else Inl AttributeError)"

definition accounts_visible :: "ctx \<Rightarrow> bool option" where
  "accounts_visible c =
     (if conf_is c ''account_visibility'' ''public'' then Some True
      else if conf_is c ''account_visibility'' ''private'' then Some (authed c)
      else if conf_is c ''account_visibility'' ''admins'' then is_admin c
      else None)"

definition registration_visible :: "ctx \<Rightarrow> bool" where
  "registration_visible c = False"

section \<open>Hidden categories\<close>

definition line_break :: "char \<Rightarrow> bool" where
  "line_break c = (py_ord c \<in> {10, 11, 12, 13, 28, 29, 30, 133})"

text \<open>\<open>str.splitlines\<close> with the characters read so far of the current line.\<close>

fun splitlines :: "string \<Rightarrow> string \<Rightarrow> string list" where
  "splitlines line [] = (if line = [] then [] else [line])"
| "splitlines line (c # cs) =
     (if line_break c
      then line # splitlines [] (if py_ord c = 13 \<and> cs \<noteq> [] \<and> py_ord (hd cs) = 10 then tl cs else cs)
      else splitlines (line @ [c]) cs)"

fun config_text :: "pyval \<Rightarrow> string" where
  "config_text (PStr s) = s"
| "config_text (PInt i) = show_int i"
| "config_text (PBool b) = (if b then ''True'' else ''False'')"
| "config_text _ = []"

definition hidden_categories :: "config \<Rightarrow> string list" where
  "hidden_categories conf =
     foldl (\<lambda>acc line. let category = py_strip line in
         if category \<noteq> [] \<and> category \<notin> set acc then acc @ [category] else acc) []
       (splitlines [] (config_text (conf ''hidden_categories'')))"

definition is_hidden_category :: "config \<Rightarrow> string option \<Rightarrow> bool" where
  "is_hidden_category conf category = (case category of None \<Rightarrow> False
     | Some s \<Rightarrow> s \<noteq> [] \<and> py_strip s \<in> set (hidden_categories conf))"

section \<open>Facts about the pipeline\<close>

lemma run_steps_passed:
  "run_steps (f # fs) c = (Inr None, s) \<longleftrightarrow>
   (\<exists>s'. f c = (Inr None, s') \<and> run_steps fs (c\<lparr>cx_session := s'\<rparr>) = (Inr None, s))"
  by (auto split: prod.splits sum.splits option.splits)

lemma banned_passed:
  "banned c = (Inr None, s) \<Longrightarrow> s = cx_session c \<and>
     (endpoint_in [''views.themes''] c \<or>
      (\<forall>u. get_current_user_attrs c = Some u \<longrightarrow> us_banned u \<noteq> Some True))"
  by (auto simp: banned_def pass_def stop_def split: if_splits)

lemma needs_setup_passed: "needs_setup b c = (Inr None, s) \<Longrightarrow> s = cx_session c"
  by (auto simp: needs_setup_def pass_def stop_def split: if_splits)

lemma csrf_passed:
  assumes "csrf view nonce c = (Inr None, s)" "view (rq_endpoint (cx_request c)) \<noteq> Some True"
    "rq_method (cx_request c) \<notin> {''GET'', ''HEAD'', ''OPTIONS'', ''TRACE''}"
  shows "\<exists>n. se_nonce s = Some n \<and>
    (if is_json c then rq_csrf_token (cx_request c) else rq_form_nonce (cx_request c)) = Some n"
  using assms
  by (auto simp: csrf_def pass_def Let_def split: option.splits bool.splits if_splits) metis+

lemma is_json_session [simp]: "is_json (c\<lparr>cx_session := s\<rparr>) = is_json c"
  by (simp add: is_json_def)

lemma first_where_none_append [simp]:
  "first_where p xs = None \<Longrightarrow> first_where p (xs @ ys) = first_where p ys"
  by (simp add: first_where_append)

section \<open>Properties\<close>

text \<open>
  Property C21: a request with an unsafe method that gets through the pipeline to a view that
  is not exempt carries the anti-forgery nonce of the session it is served under, in the
  header for a JSON request and in the form otherwise.
\<close>

theorem csrf_protects:
  assumes "init_request_processors importing view n1 n2 c = (Inr None, s)"
    and "view (rq_endpoint (cx_request c)) \<noteq> Some True"
    and "rq_method (cx_request c) \<notin> {''GET'', ''HEAD'', ''OPTIONS'', ''TRACE''}"
  shows "\<exists>n. se_nonce s = Some n \<and>
    (if is_json c then rq_csrf_token (cx_request c) else rq_form_nonce (cx_request c)) = Some n"
proof -
  from assms(1) obtain s' s'' where "csrf view n2 (c\<lparr>cx_session := s'\<rparr>) = (Inr None, s'')" "s = s''"
    unfolding init_request_processors_def run_steps_passed by (auto simp: pass_def)
  then show ?thesis using csrf_passed[of view n2 "c\<lparr>cx_session := s'\<rparr>" s''] assms(2,3)
    by (auto split: if_splits)
qed

text \<open>
  Also proved: a JSON request with an unsafe method that authenticates by a valid access token
  is rejected with 403 unless its \<open>CSRF-Token\<close> header equals the nonce the token login has
  only just generated, so access tokens cannot be used to write.
\<close>

theorem token_write_rejected:
  assumes "needs_setup importing c = (Inr None, cx_session c)" "banned c = (Inr None, cx_session c)"
    and "rq_mimetype (cx_request c) = ''application/json''" "is_json c"
    and "rq_authorization (cx_request c) = Some h" "after_space h = Some t"
    and "lookup_user_token (cx_db c) (utcnow c) t = Inr (Some u)"
    and "view (rq_endpoint (cx_request c)) = Some False" "n1 \<noteq> []"
    and "rq_method (cx_request c) = ''POST''" "rq_csrf_token (cx_request c) \<noteq> Some n1"
  shows "fst (init_request_processors importing view n1 n2 c) = Inl (HTTPAbort 403)"
proof -
  have "h \<noteq> []" using assms(6) by (auto simp: after_space_def)
  then have "token_login n1 c = (Inr None, login_user (cx_hmac c) n1 u (cx_session c))"
    using assms by (simp add: token_login_def token_request_def)
  then show ?thesis
    using assms by (simp add: init_request_processors_def csrf_def login_user_def Let_def)
qed

text \<open>
  Also proved: while a session belongs to a banned user, no request of it reaches a view, with
  the exception of the theme assets.
\<close>

theorem banned_session_stopped:
  assumes "session_user c = Some u" "us_banned u = Some True" "authed c"
    and "rq_endpoint (cx_request c) \<noteq> Some ''views.themes''"
  shows "\<nexists>s. init_request_processors importing view n1 n2 c = (Inr None, s)"
proof
  assume "\<exists>s. init_request_processors importing view n1 n2 c = (Inr None, s)"
  then obtain s s' where "needs_setup importing c = (Inr None, s')"
    "banned (c\<lparr>cx_session := s'\<rparr>) = (Inr None, s)"
    unfolding init_request_processors_def run_steps_passed by auto
  moreover from this have "s' = cx_session c" by (simp add: needs_setup_passed)
  moreover have "\<not> endpoint_in [''views.themes''] c"
    using assms(4) by (auto simp: endpoint_in_def split: option.splits)
  moreover have "get_current_user_attrs c = Some u"
    using assms(1,3) by (simp add: get_current_user_attrs_def)
  ultimately show False using banned_passed[of c s] assms(2) by auto
qed

text \<open>
  Also proved: the ban check runs before the token check, so a banned user without a session
  is served by the safe methods when the request carries a valid access token.
\<close>

theorem token_read_ignores_ban:
  assumes "needs_setup importing c = (Inr None, cx_session c)" "\<not> authed c"
    and "rq_mimetype (cx_request c) = ''application/json''"
    and "rq_authorization (cx_request c) = Some h" "after_space h = Some t"
    and "lookup_user_token (cx_db c) (utcnow c) t = Inr (Some u)" "us_banned u = Some True"
    and "view (rq_endpoint (cx_request c)) = Some False" "rq_method (cx_request c) = ''GET''"
  shows "\<exists>s. init_request_processors importing view n1 n2 c = (Inr None, s) \<and> se_id s = Some (us_id u)"
proof -
  have "h \<noteq> []" using assms(5) by (auto simp: after_space_def)
  then have "token_login n1 c = (Inr None, login_user (cx_hmac c) n1 u (cx_session c))"
    using assms by (simp add: token_login_def token_request_def)
  moreover have "banned c = (Inr None, cx_session c)"
    using assms(2) by (simp add: banned_def pass_def get_current_team_attrs_def get_current_user_attrs_def)
  ultimately show ?thesis
    using assms
    by (auto simp: init_request_processors_def csrf_def login_user_def Let_def pass_def split: if_splits)
qed

text \<open>
  Also proved: an issued access token authenticates exactly its user until it expires, leaves
  every other token's answer unchanged, and stops authenticating once the user's tokens are
  revoked (as on a password change).
\<close>

theorem token_lifecycle:
  assumes "generate_user_token candidates u now expiration description d = Some (t, d')"
    and "tk_value t = Some v" "user_by_id d (us_id u) = Some u"
  shows "lookup_user_token d' at_time v =
      (if (case expiration of None \<Rightarrow> now + token_lifetime | Some e \<Rightarrow> e) \<le> at_time
       then Inl UserTokenExpiredException else Inr (Some u)) \<and>
    (\<forall>w. w = v \<or> lookup_user_token d' at_time w = lookup_user_token d at_time w) \<and>
    lookup_user_token (revoke_user_tokens [us_id u] d') at_time v = Inl UserNotFoundException"
proof -
  from assms(1) obtain w where w: "first_where (\<lambda>t. is_user_token t \<and> tk_value t = Some w) (tokens d) = None"
    and t: "tk_value t = Some w" "is_user_token t" "tk_user_id t = Some (us_id u)"
      "tk_expiration t = Some (case expiration of None \<Rightarrow> now + token_lifetime | Some e \<Rightarrow> e)"
    and d': "d' = d\<lparr>tokens := tokens d @ [t]\<rparr>"
    by (auto simp: generate_user_token_def Let_def is_user_token_def split: option.splits
        dest!: first_where_SomeD)
  have v: "w = v" using assms(2) t(1) by simp
  have u: "user_by_id d' i = user_by_id d i" and k: "tokens d' = tokens d @ [t]" for i
    by (simp_all add: d' user_by_id_def)
  have "lookup_user_token d' at_time v =
      (if (case expiration of None \<Rightarrow> now + token_lifetime | Some e \<Rightarrow> e) \<le> at_time
       then Inl UserTokenExpiredException else Inr (Some u))"
    using w t v assms(3) by (simp add: lookup_user_token_def u k)
  moreover have "\<forall>x. x = v \<or> lookup_user_token d' at_time x = lookup_user_token d at_time x"
    using t v by (auto simp: lookup_user_token_def u k first_where_append split: option.splits)
  moreover have "first_where (\<lambda>t. is_user_token t \<and> tk_value t = Some v)
      (tokens (revoke_user_tokens [us_id u] d')) = None"
    using w t v by (auto simp: table_simps revoke_user_tokens_def k)
  then have "lookup_user_token (revoke_user_tokens [us_id u] d') at_time v = Inl UserNotFoundException"
    by (simp add: lookup_user_token_def)
  ultimately show ?thesis by blast
qed

section \<open>Witnesses\<close>

definition sample_token :: token where
  "sample_token = \<lparr>tk_id = 1, tk_type = Some ''user'', tk_user_id = Some 7, tk_created = None,
     tk_expiration = Some 100, tk_description = None, tk_value = Some ''tok''\<rparr>"

definition banned_user :: user where
  "banned_user = (sample_user 7 None)\<lparr>us_banned := Some True\<rparr>"

definition sample_ctx :: "user \<Rightarrow> int option \<Rightarrow> string \<Rightarrow> string option \<Rightarrow> ctx" where
  "sample_ctx u sid method nonce =
     \<lparr>cx_db = empty_db\<lparr>users := [u], tokens := [sample_token]\<rparr>,
      cx_conf = (\<lambda>k. if k = ''setup'' then PBool True else PNone), cx_now = 0,
      cx_session = \<lparr>se_id = sid, se_nonce = Some ''n'', se_hash = None\<rparr>,
      cx_request = \<lparr>rq_method = method, rq_endpoint = Some ''api'',
        rq_content_type = Some ''application/json'', rq_mimetype = ''application/json'',
        rq_event_stream = False, rq_authorization = (if sid = None then Some ''Bearer tok'' else None),
        rq_csrf_token = nonce, rq_form_nonce = None\<rparr>,
      cx_hmac = (\<lambda>_. ''h'')\<rparr>"

definition plain_view :: "string option \<Rightarrow> bool option" where
  "plain_view e = Some False"

theorem csrf_protects_witness:
  "\<exists>s. init_request_processors False plain_view ''a'' ''b''
      (sample_ctx (sample_user 7 None) (Some 7) ''POST'' (Some ''n'')) = (Inr None, s) \<and>
    se_nonce s = Some ''n''"
proof -
  let ?c = "sample_ctx (sample_user 7 None) (Some 7) ''POST'' (Some ''n'')"
  have "init_request_processors False plain_view ''a'' ''b'' ?c = (Inr None, cx_session ?c)"
    by code_simp
  from this csrf_protects[OF this] show ?thesis
    by (auto simp: plain_view_def sample_ctx_def is_json_def)
qed

theorem token_write_rejected_witness:
  "fst (init_request_processors False plain_view ''a'' ''b''
      (sample_ctx (sample_user 7 None) None ''POST'' (Some ''n''))) = Inl (HTTPAbort 403)"
  by (rule token_write_rejected[where h = "''Bearer tok''" and t = "''tok''" and u = "sample_user 7 None"])
     code_simp+

theorem banned_session_stopped_witness:
  "\<nexists>s. init_request_processors False plain_view ''a'' ''b''
      (sample_ctx banned_user (Some 7) ''GET'' None) = (Inr None, s)"
  by (rule banned_session_stopped[where u = banned_user]) code_simp+

theorem token_read_ignores_ban_witness:
  "\<exists>s. init_request_processors False plain_view ''a'' ''b''
      (sample_ctx banned_user None ''GET'' None) = (Inr None, s) \<and> se_id s = Some (us_id banned_user)"
  by (rule token_read_ignores_ban[where h = "''Bearer tok''" and t = "''tok''" and u = banned_user])
     code_simp+

theorem token_lifecycle_witness:
  "\<exists>t d. generate_user_token [''tok'', ''new''] (sample_user 7 None) 0 None None
      (cx_db (sample_ctx (sample_user 7 None) None ''GET'' None)) = Some (t, d) \<and>
    lookup_user_token d 5 ''new'' = Inr (Some (sample_user 7 None)) \<and>
    lookup_user_token (revoke_user_tokens [7] d) 5 ''new'' = Inl UserNotFoundException"
proof -
  let ?d = "cx_db (sample_ctx (sample_user 7 None) None ''GET'' None)"
  obtain t d where g: "generate_user_token [''tok'', ''new''] (sample_user 7 None) 0 None None ?d = Some (t, d)"
    and v: "tk_value t = Some ''new''"
    by (simp add: generate_user_token_def sample_ctx_def sample_token_def is_user_token_def Let_def)
  have "user_by_id ?d (us_id (sample_user 7 None)) = Some (sample_user 7 None)" by code_simp
  from token_lifecycle[OF g v this, of 5] g show ?thesis
    by (auto simp: token_lifetime_def sample_user_def)
qed

end
