(* ===== verification/Challenges.thy ===== *)
theory Challenges imports Scoring Access "HOL-Library.Product_Lexorder" begin

text \<open>
  What contestants see of challenges: \<^verbatim>\<open>utils/challenges/__init__.py\<close> and the reading
  handlers of \<^verbatim>\<open>api/v1/challenges.py\<close>, with the hiding of dependent challenges and the
  version rollback.  \<open>matches\<close> is the WHERE clause built from the query arguments, which the
  database evaluates; \<open>classes\<close> are the registered challenge classes with the ids in their
  child tables.
\<close>

section \<open>Solves seen by readers\<close>

type_synonym classes = "(string \<times> int list option) list"

definition py_or :: "bool option \<Rightarrow> bool option \<Rightarrow> bool option" where
  "py_or a b = (if a = Some True then a else b)"

definition staff :: "ctx \<Rightarrow> bool option" where
  "staff c = py_or (is_admin c) (py_or (is_challenge_writer c) (is_jury c))"

definition solved_ids :: "db \<Rightarrow> config \<Rightarrow> user \<Rightarrow> int list" where
  "solved_ids d conf u = List.map_filter sub_challenge_id
     (filter (\<lambda>s. filter_eq (submission_account_id conf s) (user_account_id conf u)) (solves d))"

definition get_solve_ids_for_user_id :: "db \<Rightarrow> config \<Rightarrow> int \<Rightarrow> py_exc + int list" where
  "get_solve_ids_for_user_id d conf user_id = (case user_by_id d user_id of
      None \<Rightarrow> Inl AttributeError | Some u \<Rightarrow> Inr (solved_ids d conf u))"

text \<open>The dictionary of counts: a challenge without a counted solve has no entry.\<close>

definition get_solve_counts_for_challenges ::
  "db \<Rightarrow> config \<Rightarrow> int option \<Rightarrow> bool \<Rightarrow> py_exc + (int \<times> nat) list" where
  "get_solve_counts_for_challenges d conf challenge_id admin =
     (if \<not> (is_users_mode conf \<or> is_teams_mode conf) then Inl AttributeError
      else bindE (freeze_bound conf admin) (\<lambda>b.
        let counted = List.map_filter sub_challenge_id (filter (\<lambda>s. counted_solve d conf s \<and>
              visible_at b (sub_date s) \<and>
              (case challenge_id of None \<Rightarrow> True | Some i \<Rightarrow> sub_challenge_id s = Some i)) (solves d))
        in Inr (map (\<lambda>i. (i, count_list counted i)) (remdups counted))))"

definition account_name :: "db \<Rightarrow> config \<Rightarrow> submission \<Rightarrow> string option" where
  "account_name d conf s =
     (if is_teams_mode conf
      then (case sub_team_id s of None \<Rightarrow> None | Some t \<Rightarrow> map_option te_name (team_by_id d t))
      else (case sub_user_id s of None \<Rightarrow> None | Some u \<Rightarrow> map_option us_name (user_by_id d u)))"

record solve_entry =
  so_account :: "int option"
  so_name :: "string option"
  so_date :: date

definition get_solves_for_challenge_id :: "db \<Rightarrow> config \<Rightarrow> int \<Rightarrow> bool \<Rightarrow> py_exc + solve_entry list" where
  "get_solves_for_challenge_id d conf challenge_id freeze =
     (if \<not> (is_users_mode conf \<or> is_teams_mode conf) then Inl AttributeError
      else bindE (if freeze \<and> truthy (conf ''freeze'') then unix_time_to_utc (conf ''freeze'') else Inr None) (\<lambda>b.
        Inr (map (\<lambda>s. \<lparr>so_account = submission_account_id conf s, so_name = account_name d conf s,
                       so_date = sub_date s\<rparr>)
          (sort_key (\<lambda>s. date_key (sub_date s)) (filter (\<lambda>s. sub_challenge_id s = Some challenge_id \<and>
            counted_solve d conf s \<and> visible_at b (sub_date s)) (solves d))))))"

section \<open>Listing\<close>

definition value_key :: "challenge \<Rightarrow> (int \<times> int) \<times> int" where
  "value_key c = (date_key (ch_value c), ch_id c)"

definition get_all_challenges :: "db \<Rightarrow> bool option \<Rightarrow> (challenge \<Rightarrow> bool) \<Rightarrow> challenge list" where
  "get_all_challenges d admin matches =
     sort_key value_key (filter (\<lambda>c. matches c \<and>
       (admin = Some False \<longrightarrow> ch_state c \<noteq> ''hidden'' \<and> ch_state c \<noteq> ''locked'')) (challenges d))"

definition prereq_ids :: "challenge \<Rightarrow> int list" where
  "prereq_ids c = id_list (prerequisites_of (ch_requirements c))"

definition anonymized :: "challenge \<Rightarrow> bool" where
  "anonymized c = (case ch_requirements c of PDict r \<Rightarrow> truthy (dget r ''anonymize'') | _ \<Rightarrow> False)"

text \<open>
  \<open>solves >= set(requirements).intersection(all_challenge_ids)\<close>.  Requirements that are no object, and
  prerequisites that are no list of scalars, would raise here; the schema refuses to store them.
\<close>

definition gate_open :: "db \<Rightarrow> int list \<Rightarrow> challenge \<Rightarrow> bool" where
  "gate_open d solved c =
     (\<not> truthy (ch_requirements c) \<or>
      list_all (\<lambda>i. i \<in> set (map ch_id (challenges d)) \<longrightarrow> i \<in> set solved) (prereq_ids c))"

datatype item = Masked int | Listed challenge string "nat option" bool

definition list_item ::
  "db \<Rightarrow> classes \<Rightarrow> bool \<Rightarrow> int list \<Rightarrow> (int \<times> nat) list \<Rightarrow> nat option \<Rightarrow> challenge \<Rightarrow> item list" where
  "list_item d classes admin_view solved counts dflt c =
     (if \<not> (gate_open d solved c \<or> admin_view)
      then (if anonymized c then [Masked (ch_id c)] else [])
      else case get_chal_class classes (challenge_type c) (Some (ch_id c)) of
        Inl _ \<Rightarrow> []
      | Inr name \<Rightarrow> [Listed c name (case map_of counts (ch_id c) of Some n \<Rightarrow> Some n | None \<Rightarrow> dflt)
                     (ch_id c \<in> set solved)])"

definition session_user_id :: "ctx \<Rightarrow> int" where
  "session_user_id c = (case se_id (cx_session c) of Some i \<Rightarrow> i | None \<Rightarrow> 0)"

definition my_solves :: "ctx \<Rightarrow> py_exc + int list" where
  "my_solves c = (if authed c
     then bindE (get_current_user c) (\<lambda>u. case u of None \<Rightarrow> Inl AttributeError
       | Some u \<Rightarrow> get_solve_ids_for_user_id (cx_db c) (cx_conf c) (us_id u))
     else Inr [])"

text \<open>\<open>ChallengeList.get\<close>; \<open>wants_admin\<close> is the query argument \<open>view=admin\<close>.\<close>

definition challenge_list ::
  "classes \<Rightarrow> (challenge \<Rightarrow> bool) \<Rightarrow> bool \<Rightarrow> ctx \<Rightarrow> py_exc + item list reply" where
  "challenge_list classes matches wants_admin c =
     (if get_current_user_attrs c \<noteq> None \<and> \<not> yes (staff c) \<and> is_teams_mode (cx_conf c)
         \<and> get_current_team_attrs c = None
      then Inl (HTTPAbort 403)
      else let admin_view = (if yes (is_admin c) then Some wants_admin else is_admin c) in
        bindE (get_solve_counts_for_challenges (cx_db c) (cx_conf c) None (yes admin_view)) (\<lambda>counts.
        bindE (my_solves c) (\<lambda>solved.
        bindE (scores_visible c) (\<lambda>scores.
        let (counts', dflt) = (if scores \<and> yes (accounts_visible c) then (counts, Some 0) else ([], None)) in
        Inr (Body (concat (map (list_item (cx_db c) classes (yes admin_view) solved counts' dflt)
          (get_all_challenges (cx_db c) admin_view matches))))))))"

definition get_challenge_list :: "classes \<Rightarrow> (challenge \<Rightarrow> bool) \<Rightarrow> bool \<Rightarrow> ctx \<Rightarrow> py_exc + item list reply" where
  "get_challenge_list classes matches wants_admin c =
     check_challenge_visibility c (during_ctf_time_only c (require_verified_emails c
       (challenge_list classes matches wants_admin c)))"

section \<open>One challenge\<close>

record hint_view =
  hv_id :: int
  hv_cost :: "int option"
  hv_content :: "string option option"

record detail =
  de_challenge :: challenge
  de_class :: string
  de_solves :: "nat option"
  de_solved_by_me :: bool
  de_attempts :: nat
  de_files :: "int list"
  de_tags :: "string option list"
  de_hints :: "hint_view list"

datatype detail_reply = MaskedDetail int | FullDetail detail

definition unlocked_hints :: "db \<Rightarrow> config \<Rightarrow> user \<Rightarrow> int list" where
  "unlocked_hints d conf u = List.map_filter un_target (filter (\<lambda>x. un_type x = Some ''hints'' \<and>
     filter_eq (unlock_account_id conf x) (user_account_id conf u)) (unlocks d))"

text \<open>The clock is read only for a hint that is not unlocked.\<close>

definition hint_views :: "ctx \<Rightarrow> int list \<Rightarrow> hint list \<Rightarrow> py_exc + hint_view list" where
  "hint_views c unlocked hs = mapE (\<lambda>h.
     bindE (if hi_id h \<in> set unlocked then Inr True else ctf_ended (cx_conf c) (cx_now c)) (\<lambda>open_hint.
     Inr \<lparr>hv_id = hi_id h, hv_cost = hi_cost h,
          hv_content = (if open_hint then Some (hi_content h) else None)\<rparr>)) hs"

definition detail_gate :: "ctx \<Rightarrow> challenge \<Rightarrow> py_exc + bool" where
  "detail_gate c ch =
     (if \<not> truthy (ch_requirements ch) then Inr True
      else if yes (challenges_visible c) then
        bindE (get_current_user c) (\<lambda>u.
        let solved = (case u of None \<Rightarrow> [] | Some u \<Rightarrow> solved_ids (cx_db c) (cx_conf c) u) in
        if gate_open (cx_db c) solved ch \<or> yes (staff c) then Inr True
        else if anonymized ch then Inr False else Inl (HTTPAbort 403))
      else Inl (HTTPAbort 403))"

definition detail_hints :: "ctx \<Rightarrow> challenge \<Rightarrow> py_exc + hint_view list" where
  "detail_hints c ch =
     bindE (if authed c then
        bindE (get_current_user c) (\<lambda>u. bindE (get_current_team c) (\<lambda>t.
          if \<not> yes (staff c) \<and> is_teams_mode (cx_conf c) \<and> t = None then Inl (HTTPAbort 403)
          else case u of None \<Rightarrow> Inl AttributeError
            | Some u \<Rightarrow> Inr (unlocked_hints (cx_db c) (cx_conf c) u)))
      else Inr []) (\<lambda>unlocked.
     hint_views c unlocked (filter (\<lambda>h. hi_challenge_id h = Some (ch_id ch)) (hints (cx_db c))))"

definition attempts_of :: "db \<Rightarrow> config \<Rightarrow> user \<Rightarrow> int \<Rightarrow> nat" where
  "attempts_of d conf u cid = length (filter (\<lambda>s. sub_challenge_id s = Some cid \<and>
     filter_eq (submission_account_id conf s) (user_account_id conf u)) (submissions d))"

definition challenge_detail :: "classes \<Rightarrow> int \<Rightarrow> ctx \<Rightarrow> py_exc + detail_reply reply" where
  "challenge_detail classes cid c =
     bindE (first_or_404 (first_where (\<lambda>x. ch_id x = cid \<and> (yes (staff c) \<or>
        ch_state x \<noteq> ''hidden'' \<and> ch_state x \<noteq> ''locked'')) (challenges (cx_db c)))) (\<lambda>ch.
     case get_chal_class classes (challenge_type ch) (Some cid) of
       Inl _ \<Rightarrow> Inr (Status 400)
     | Inr name \<Rightarrow>
         bindE (detail_gate c ch) (\<lambda>open_gate.
         if \<not> open_gate then Inr (Body (MaskedDetail (ch_id ch)))
         else bindE (detail_hints c ch) (\<lambda>hs.
         bindE (my_solves c) (\<lambda>solved.
         bindE (get_solve_counts_for_challenges (cx_db c) (cx_conf c) (Some (ch_id ch)) False) (\<lambda>counts.
         bindE (scores_visible c) (\<lambda>scores.
         bindE (get_current_user c) (\<lambda>u.
         Inr (Body (FullDetail \<lparr>de_challenge = ch, de_class = name,
           de_solves = (if \<not> scores \<or> accounts_visible c = Some False then None
             else if counts = [] then Some 0 else map_of counts (ch_id ch)),
           de_solved_by_me = (counts \<noteq> [] \<and> ch_id ch \<in> set solved),
           de_attempts = (case u of None \<Rightarrow> 0 | Some u \<Rightarrow> attempts_of (cx_db c) (cx_conf c) u cid),
           de_files = map fi_id (challenge_files (ch_id ch) (files (cx_db c))),
           de_tags = map ta_value (filter (\<lambda>t. ta_challenge_id t = Some (ch_id ch)) (tags (cx_db c))),
           de_hints = hs\<rparr>)))))))))"

definition get_challenge :: "classes \<Rightarrow> int \<Rightarrow> ctx \<Rightarrow> py_exc + detail_reply reply" where
  "get_challenge classes cid c =
     check_challenge_visibility c (during_ctf_time_only c (require_verified_emails c
       (challenge_detail classes cid c)))"

text \<open>\<open>ChallengeSolves.get\<close>: the role test must be the value \<open>False\<close> to hide.\<close>

definition challenge_solves :: "bool \<Rightarrow> int \<Rightarrow> ctx \<Rightarrow> py_exc + solve_entry list reply" where
  "challenge_solves preview cid c =
     bindE (first_or_404 (challenge_by_id (cx_db c) cid)) (\<lambda>ch.
     if ch_state ch = ''hidden'' \<and> staff c = Some False then Inl (HTTPAbort 404)
     else
       let freeze = (truthy (cx_conf c ''freeze'') \<and> \<not> (is_admin c = Some True \<and> \<not> preview)) in
       bindE (get_solves_for_challenge_id (cx_db c) (cx_conf c) cid freeze) (\<lambda>r. Inr (Body r)))"

definition get_challenge_solves :: "bool \<Rightarrow> int \<Rightarrow> ctx \<Rightarrow> py_exc + solve_entry list reply" where
  "get_challenge_solves preview cid c =
     check_challenge_visibility c (check_account_visibility c (check_score_visibility c
       (during_ctf_time_only c (require_verified_emails c (challenge_solves preview cid c)))))"

section \<open>Hiding dependents\<close>

text \<open>
  \<open>_cascade_hide_dependents\<close>: a stack of challenges to process, the ids seen, and the list
  of newly hidden challenges.  The visible challenges are read once per round, before any of
  that round is hidden.
\<close>

record cascade =
  cc_stack :: "int list"
  cc_seen :: "int list"
  cc_hidden :: "(int \<times> string option) list"
  cc_challenges :: "challenge list"

definition hide_challenge :: "int \<Rightarrow> challenge list \<Rightarrow> challenge list" where
  "hide_challenge i cs = update_where (\<lambda>c. ch_id c = i) (\<lambda>c. c\<lparr>ch_state := ''hidden''\<rparr>) cs"

definition visit_dependent :: "int \<Rightarrow> cascade \<Rightarrow> challenge \<Rightarrow> cascade" where
  "visit_dependent current st dep =
     (if ch_id dep \<in> set (cc_seen st) then st
      else if current \<in> set (prereq_ids dep)
      then \<lparr>cc_stack = cc_stack st @ [ch_id dep], cc_seen = ch_id dep # cc_seen st,
            cc_hidden = cc_hidden st @ [(ch_id dep, ch_name dep)],
            cc_challenges = hide_challenge (ch_id dep) (cc_challenges st)\<rparr>
      else st)"

definition cascade_round :: "cascade \<Rightarrow> cascade" where
  "cascade_round st =
     foldl (visit_dependent (last (cc_stack st))) (st\<lparr>cc_stack := butlast (cc_stack st)\<rparr>)
       (filter (\<lambda>c. ch_state c \<noteq> ''hidden'') (cc_challenges st))"

definition unseen :: "cascade \<Rightarrow> int set" where
  "unseen st = ch_id ` set (cc_challenges st) - set (cc_seen st)"

lemma hide_challenge_ids [simp]: "map ch_id (hide_challenge i cs) = map ch_id cs"
  by (auto simp: hide_challenge_def update_where_def)

lemma hide_challenge_id_set [simp]: "ch_id ` set (hide_challenge i cs) = ch_id ` set cs"
  using hide_challenge_ids[of i cs] by (metis set_map)

lemma visit_dependent_measure:
  assumes "ch_id dep \<in> ch_id ` set (cc_challenges st)"
  shows "length (cc_stack (visit_dependent cur st dep)) + card (unseen (visit_dependent cur st dep)) =
    length (cc_stack st) + card (unseen st)"
proof -
  have "card (unseen st) = Suc (card (unseen st - {ch_id dep}))" if "ch_id dep \<notin> set (cc_seen st)"
    using that assms by (intro card.remove) (auto simp: unseen_def)
  moreover have "unseen st - {ch_id dep} = ch_id ` set (cc_challenges st) - set (ch_id dep # cc_seen st)"
    by (auto simp: unseen_def)
  ultimately show ?thesis by (auto simp: visit_dependent_def unseen_def)
qed

lemma visit_dependent_ids: "ch_id ` set (cc_challenges (visit_dependent cur st dep)) = ch_id ` set (cc_challenges st)"
  by (simp add: visit_dependent_def)

lemma cascade_fold_measure:
  assumes "ch_id ` set deps \<subseteq> ch_id ` set (cc_challenges st)"
  shows "length (cc_stack (foldl (visit_dependent cur) st deps)) + card (unseen (foldl (visit_dependent cur) st deps)) =
    length (cc_stack st) + card (unseen st)"
  using assms
proof (induction deps arbitrary: st)
  case (Cons dep deps)
  then show ?case
    using visit_dependent_measure[of dep st cur] by (simp add: visit_dependent_ids)
qed simp

lemma cascade_round_less:
  assumes "cc_stack st \<noteq> []"
  shows "length (cc_stack (cascade_round st)) + card (unseen (cascade_round st)) <
    length (cc_stack st) + card (unseen st)"
proof -
  let ?s = "st\<lparr>cc_stack := butlast (cc_stack st)\<rparr>"
  have "length (cc_stack (cascade_round st)) + card (unseen (cascade_round st)) =
      length (cc_stack ?s) + card (unseen ?s)"
    unfolding cascade_round_def by (rule cascade_fold_measure) auto
  moreover have "length (butlast (cc_stack st)) < length (cc_stack st)" using assms by simp
  ultimately show ?thesis by (simp add: unseen_def)
qed

function run_cascade :: "cascade \<Rightarrow> cascade" where
  "run_cascade st = (if cc_stack st = [] then st else run_cascade (cascade_round st))"
  by auto

termination
  by (relation "measure (\<lambda>st. length (cc_stack st) + card (unseen st))") (auto simp: cascade_round_less)

declare run_cascade.simps [simp del]

definition cascade_hide_dependents :: "int \<Rightarrow> challenge list \<Rightarrow> cascade" where
  "cascade_hide_dependents i cs =
     run_cascade \<lparr>cc_stack = [i], cc_seen = [i], cc_hidden = [], cc_challenges = cs\<rparr>"

section \<open>What the cascade hides\<close>

text \<open>
  \<open>locks cs x y\<close>: challenge \<open>y\<close> is not hidden and has \<open>x\<close> among its prerequisites.
  The specification is reachability from the challenge being hidden.
\<close>

definition locks :: "challenge list \<Rightarrow> int \<Rightarrow> int \<Rightarrow> bool" where
  "locks cs x y = (\<exists>c\<in>set cs. ch_id c = y \<and> ch_state c \<noteq> ''hidden'' \<and> x \<in> set (prereq_ids c))"

definition hidden_by :: "challenge list \<Rightarrow> int list \<Rightarrow> challenge list" where
  "hidden_by cs ids = map (\<lambda>c. if ch_id c \<in> set ids then c\<lparr>ch_state := ''hidden''\<rparr> else c) cs"

text \<open>
  The loop invariant relative to the original challenges \<open>cs\<close>: everything seen is reachable,
  the challenges are the originals with the newly hidden ones hidden, and every seen challenge
  that is not on the stack has all its dependents seen.
\<close>

definition cascade_inv :: "int \<Rightarrow> challenge list \<Rightarrow> cascade \<Rightarrow> bool" where
  "cascade_inv i cs st =
     (i \<in> set (cc_seen st) \<and>
      set (cc_stack st) \<subseteq> set (cc_seen st) \<and>
      set (cc_seen st) = insert i (fst ` set (cc_hidden st)) \<and>
      i \<notin> fst ` set (cc_hidden st) \<and>
      (\<forall>x\<in>set (cc_seen st). (locks cs)\<^sup>*\<^sup>* i x) \<and>
      cc_challenges st = hidden_by cs (map fst (cc_hidden st)))"

definition closed_below :: "challenge list \<Rightarrow> cascade \<Rightarrow> int set \<Rightarrow> bool" where
  "closed_below cs st open_ids =
     (\<forall>x\<in>set (cc_seen st) - open_ids. \<forall>y. locks cs x y \<longrightarrow> y \<in> set (cc_seen st))"

lemma cascade_inv_stack:
  "cascade_inv i cs st \<Longrightarrow> set xs \<subseteq> set (cc_seen st) \<Longrightarrow> cascade_inv i cs (st\<lparr>cc_stack := xs\<rparr>)"
  by (simp add: cascade_inv_def)

lemma hidden_by_snoc:
  "hide_challenge k (hidden_by cs ids) = hidden_by cs (ids @ [k])"
  by (auto simp: hide_challenge_def hidden_by_def update_where_def)

lemma visit_dependent_inv:
  assumes "cascade_inv i cs st" "cur \<in> set (cc_seen st)" "dep \<in> set cs" "ch_state dep \<noteq> ''hidden''"
  shows "cascade_inv i cs (visit_dependent cur st dep)"
proof -
  have "(locks cs)\<^sup>*\<^sup>* i (ch_id dep)" if "cur \<in> set (prereq_ids dep)"
  proof -
    have "locks cs cur (ch_id dep)" using that assms(3,4) by (auto simp: locks_def)
    moreover have "(locks cs)\<^sup>*\<^sup>* i cur" using assms(1,2) by (simp add: cascade_inv_def)
    ultimately show ?thesis by simp
  qed
  with assms show ?thesis
    by (auto simp: cascade_inv_def visit_dependent_def hidden_by_snoc)
qed

lemma visit_dependent_seen: "set (cc_seen st) \<subseteq> set (cc_seen (visit_dependent cur st dep))"
  by (auto simp: visit_dependent_def)

lemma visit_dependent_new:
  "set (cc_seen (visit_dependent cur st dep)) - set (cc_seen st) \<subseteq> set (cc_stack (visit_dependent cur st dep))
   \<and> set (cc_stack st) \<subseteq> set (cc_stack (visit_dependent cur st dep))"
  by (auto simp: visit_dependent_def)

lemma visit_dependents:
  assumes "cascade_inv i cs st" "cur \<in> set (cc_seen st)" "set deps \<subseteq> {c \<in> set cs. ch_state c \<noteq> ''hidden''}"
  shows "cascade_inv i cs (foldl (visit_dependent cur) st deps) \<and>
    set (cc_seen st) \<subseteq> set (cc_seen (foldl (visit_dependent cur) st deps)) \<and>
    set (cc_seen (foldl (visit_dependent cur) st deps)) - set (cc_seen st) \<subseteq>
      set (cc_stack (foldl (visit_dependent cur) st deps)) \<and>
    set (cc_stack st) \<subseteq> set (cc_stack (foldl (visit_dependent cur) st deps)) \<and>
    (\<forall>c\<in>set deps. cur \<in> set (prereq_ids c) \<longrightarrow> ch_id c \<in> set (cc_seen (foldl (visit_dependent cur) st deps)))"
  using assms
proof (induction deps arbitrary: st)
  case (Cons dep deps)
  let ?v = "visit_dependent cur st dep"
  have "cascade_inv i cs ?v" "cur \<in> set (cc_seen ?v)"
    using Cons.prems visit_dependent_inv[of i cs st cur dep] visit_dependent_seen[of st cur dep] by auto
  moreover have "cur \<in> set (prereq_ids dep) \<Longrightarrow> ch_id dep \<in> set (cc_seen ?v)"
    by (simp add: visit_dependent_def)
  ultimately show ?case
    using Cons.IH[of ?v] Cons.prems(3) visit_dependent_seen[of st cur dep] visit_dependent_new[of cur st dep]
    by auto
qed simp

lemma hidden_by_visible:
  "c \<in> set (hidden_by cs ids) \<Longrightarrow> ch_state c \<noteq> ''hidden'' \<Longrightarrow> c \<in> set cs"
  by (auto simp: hidden_by_def split: if_splits)

lemma cascade_round_inv:
  assumes "cascade_inv i cs st" "closed_below cs st (set (cc_stack st))" "cc_stack st \<noteq> []"
  shows "cascade_inv i cs (cascade_round st) \<and> closed_below cs (cascade_round st) (set (cc_stack (cascade_round st)))"
proof -
  let ?cur = "last (cc_stack st)"
  let ?s = "st\<lparr>cc_stack := butlast (cc_stack st)\<rparr>"
  let ?deps = "filter (\<lambda>c. ch_state c \<noteq> ''hidden'') (cc_challenges st)"
  have b: "set (butlast (cc_stack st)) \<subseteq> set (cc_stack st)" by (auto dest: in_set_butlastD)
  have sub: "set (cc_stack st) \<subseteq> set (cc_seen st)" using assms(1) unfolding cascade_inv_def by blast
  have s: "cascade_inv i cs ?s" by (rule cascade_inv_stack[OF assms(1)]) (use b sub in auto)
  have cur: "?cur \<in> set (cc_seen ?s)" using sub last_in_set[OF assms(3)] by auto
  have deps: "set ?deps \<subseteq> {c \<in> set cs. ch_state c \<noteq> ''hidden''}"
    using assms(1) hidden_by_visible by (fastforce simp: cascade_inv_def)
  note v = visit_dependents[OF s cur deps, folded cascade_round_def]
  have stack: "set (cc_stack st) = insert ?cur (set (butlast (cc_stack st)))"
    using assms(3) by (metis append_butlast_last_id list.set(1) list.set(2) set_append Un_insert_right sup_bot_right)
  have "closed_below cs (cascade_round st) (set (cc_stack (cascade_round st)))"
    unfolding closed_below_def
  proof (intro ballI allI impI)
    fix x y assume x: "x \<in> set (cc_seen (cascade_round st)) - set (cc_stack (cascade_round st))" and l: "locks cs x y"
    have xs: "x \<in> set (cc_seen st)" using x v by auto
    show "y \<in> set (cc_seen (cascade_round st))"
    proof (cases "x = ?cur")
      case False
      then have "x \<notin> set (cc_stack st)" using x v stack by auto
      then show ?thesis using assms(2) xs l v by (auto simp: closed_below_def)
    next
      case True
      from l obtain c where c: "c \<in> set cs" "ch_id c = y" "ch_state c \<noteq> ''hidden''" "x \<in> set (prereq_ids c)"
        by (auto simp: locks_def)
      show ?thesis
      proof (cases "y \<in> set (cc_seen st)")
        case False
        then have "c \<in> set (cc_challenges st)"
          using c assms(1) by (auto simp: cascade_inv_def hidden_by_def intro!: rev_image_eqI)
        then show ?thesis using v c True by auto
      qed (use v in auto)
    qed
  qed
  then show ?thesis using v by blast
qed

lemma run_cascade_inv:
  assumes "cascade_inv i cs st" "closed_below cs st (set (cc_stack st))"
  shows "cascade_inv i cs (run_cascade st) \<and> closed_below cs (run_cascade st) {}"
  using assms
proof (induction st rule: run_cascade.induct)
  case (1 st)
  show ?case
  proof (cases "cc_stack st = []")
    case True
    then show ?thesis using 1 by (simp add: run_cascade.simps[of st])
  next
    case False
    then show ?thesis using 1 cascade_round_inv[of i cs st] by (simp add: run_cascade.simps[of st])
  qed
qed

lemma cascade_seen:
  assumes "cascade_inv i cs st" "closed_below cs st {}"
  shows "set (cc_seen st) = {x. (locks cs)\<^sup>*\<^sup>* i x}"
proof -
  have i: "i \<in> set (cc_seen st)" and reach: "\<forall>x\<in>set (cc_seen st). (locks cs)\<^sup>*\<^sup>* i x"
    using assms(1) unfolding cascade_inv_def by blast+
  have step: "y \<in> set (cc_seen st)" if "x \<in> set (cc_seen st)" "locks cs x y" for x y
    using assms(2) that unfolding closed_below_def by blast
  have "x \<in> set (cc_seen st)" if "(locks cs)\<^sup>*\<^sup>* i x" for x
    using that i by (induction rule: rtranclp_induct) (blast intro: step)+
  with reach show ?thesis by blast
qed

section \<open>Hiding on update, versions, deployment status\<close>

text \<open>
  The end of \<open>Challenge.patch\<close>: hiding a challenge hides its dependents, and a challenge
  saved with a hidden prerequisite is hidden together with its dependents.
\<close>

definition after_update :: "pyval \<Rightarrow> string \<Rightarrow> challenge \<Rightarrow> challenge list \<Rightarrow> challenge list" where
  "after_update requested_state state_before ch cs =
     (if py_eq requested_state (PStr ''hidden'') \<and> state_before \<noteq> ''hidden''
      then cc_challenges (cascade_hide_dependents (ch_id ch) cs)
      else if truthy (ch_requirements ch) \<and>
              list_ex (\<lambda>c. ch_id c \<in> set (prereq_ids ch) \<and> ch_state c = ''hidden'') cs \<and>
              ch_state ch \<noteq> ''hidden''
      then cc_challenges (cascade_hide_dependents (ch_id ch) (hide_challenge (ch_id ch) cs))
      else cs)"

definition keep :: "'a option \<Rightarrow> 'a option \<Rightarrow> 'a option" where
  "keep new old = (if new \<noteq> None then new else old)"

definition keep_text :: "string option \<Rightarrow> string option \<Rightarrow> string option" where
  "keep_text new old = (if new \<noteq> None \<and> new \<noteq> Some [] then new else old)"

definition restore_version :: "version \<Rightarrow> int \<Rightarrow> challenge \<Rightarrow> challenge" where
  "restore_version v now_us c =
     c\<lparr>ch_image_link := ve_image_link v,
       ch_deploy_file := keep_text (ve_deploy_file v) (ch_deploy_file c),
       ch_cpu_limit := keep (ve_cpu_limit v) (ch_cpu_limit c),
       ch_cpu_request := keep (ve_cpu_request v) (ch_cpu_request c),
       ch_memory_limit := keep (ve_memory_limit v) (ch_memory_limit c),
       ch_memory_request := keep (ve_memory_request v) (ch_memory_request c),
       ch_use_gvisor := keep (ve_use_gvisor v) (ch_use_gvisor c),
       ch_harden_container := keep (ve_harden_container v) (ch_harden_container c),
       ch_max_deploy_count := keep (ve_max_deploy_count v) (ch_max_deploy_count c),
       ch_deploy_status := Some ''DEPLOY_SUCCESS'', ch_last_update := Some now_us\<rparr>"

definition rollback :: "int \<Rightarrow> int \<Rightarrow> int \<Rightarrow> db \<Rightarrow> py_exc + db reply" where
  "rollback now_us cid vid d =
     bindE (first_or_404 (challenge_by_id d cid)) (\<lambda>ch.
     bindE (first_or_404 (first_where (\<lambda>v. ve_id v = vid \<and> ve_challenge_id v = ch_id ch) (versions d))) (\<lambda>v.
     if ve_is_active v then Inr (Status 400)
     else if ve_image_link v = None \<or> ve_image_link v = Some [] then Inr (Status 400)
     else Inr (Body (d\<lparr>
       versions := update_where (\<lambda>x. ve_id x = vid) (\<lambda>x. x\<lparr>ve_is_active := True\<rparr>)
         (update_where (\<lambda>x. ve_challenge_id x = ch_id ch) (\<lambda>x. x\<lparr>ve_is_active := False\<rparr>) (versions d)),
       challenges := update_where (\<lambda>c. ch_id c = cid) (restore_version v now_us) (challenges d)\<rparr>))))"

text \<open>
  \<open>ChallengeDeploy.get\<close>: the workflow's name, phase, start and estimated duration (seconds)
  come from the connector.
\<close>

record workflow =
  wf_phase :: "string option"
  wf_started :: "rat option"
  wf_estimate :: "rat option"

definition set_deploy :: "int \<Rightarrow> (challenge \<Rightarrow> challenge) \<Rightarrow> db \<Rightarrow> db" where
  "set_deploy cid f d = d\<lparr>challenges := update_where (\<lambda>c. ch_id c = cid) f (challenges d)\<rparr>"

definition remaining_time :: "rat \<Rightarrow> rat \<Rightarrow> rat \<Rightarrow> rat option" where
  "remaining_time now started estimate =
     (if estimate \<noteq> 0 then Some (max 0 (estimate - max 0 (now - started))) else None)"

definition deploy_duration ::
  "(int \<Rightarrow> string option) \<Rightarrow> (string \<Rightarrow> workflow) \<Rightarrow> rat \<Rightarrow> int \<Rightarrow> db \<Rightarrow> py_exc + (string \<times> rat option) reply \<times> db" where
  "deploy_duration get_name get_status now cid d =
     bindE (first_or_404 (challenge_by_id d cid)) (\<lambda>ch.
     if \<not> ch_require_deploy ch then Inr (Status 400, d)
     else case get_name (ch_id ch) of
       None \<Rightarrow> Inr (Status 404, d)
     | Some name \<Rightarrow>
         if name = [] then Inr (Status 404, d)
         else case (wf_phase (get_status name), wf_started (get_status name), wf_estimate (get_status name)) of
           (Some phase, Some started, Some estimate) \<Rightarrow>
             Inr (Body (phase, remaining_time now started estimate),
               if phase = ''Succeeded''
               then set_deploy cid (\<lambda>c. c\<lparr>ch_deploy_status := Some ''DEPLOY_SUCCESS''\<rparr>) d
               else if phase = ''Failed'' \<or> phase = ''Error''
               then set_deploy cid (\<lambda>c. c\<lparr>ch_deploy_status := Some ''DEPLOY_FAILED'', ch_state := ''hidden''\<rparr>) d
               else d)
         | _ \<Rightarrow> Inr (Status 500, d))"

lemma image_frame:
  "(\<And>x. x \<in> A \<Longrightarrow> P (f x) = P x) \<Longrightarrow> (\<And>x. x \<in> A \<Longrightarrow> P x \<Longrightarrow> f x = x) \<Longrightarrow>
   {y \<in> f ` A. P y} = {x \<in> A. P x}"
  by (auto intro: rev_image_eqI)

lemma cascade_hide_inv:
  "cascade_inv i cs (cascade_hide_dependents i cs)" "closed_below cs (cascade_hide_dependents i cs) {}"
proof -
  let ?st = "\<lparr>cc_stack = [i], cc_seen = [i], cc_hidden = [], cc_challenges = cs\<rparr>"
  have "cascade_inv i cs ?st" "closed_below cs ?st (set (cc_stack ?st))"
    by (simp_all add: cascade_inv_def closed_below_def hidden_by_def)
  from run_cascade_inv[OF this] show "cascade_inv i cs (cascade_hide_dependents i cs)"
      "closed_below cs (cascade_hide_dependents i cs) {}"
    by (simp_all add: cascade_hide_dependents_def)
qed

section \<open>Properties\<close>

text \<open>
  Property C17: hiding a challenge hides exactly the challenges that become unreachable with
  it: a challenge ends hidden when it was hidden before or when it depends on the hidden one
  through a chain of visible challenges; nothing else about any challenge changes, and the
  worklist always empties.
\<close>

theorem cascade_hides_dependents:
  "cc_stack (cascade_hide_dependents i cs) = [] \<and>
   cc_challenges (cascade_hide_dependents i cs) =
     hidden_by cs (map fst (cc_hidden (cascade_hide_dependents i cs))) \<and>
   fst ` set (cc_hidden (cascade_hide_dependents i cs)) = {x. x \<noteq> i \<and> (locks cs)\<^sup>*\<^sup>* i x}"
proof -
  have "cc_stack (run_cascade st) = []" for st
    by (induction st rule: run_cascade.induct) (simp add: run_cascade.simps)
  then show ?thesis
    using cascade_seen[OF cascade_hide_inv] cascade_hide_inv(1)[of i cs] by (auto simp: cascade_inv_def cascade_hide_dependents_def)
qed

text \<open>
  Also proved: after a rollback exactly the chosen version of the challenge is active, the
  versions of other challenges are untouched, and the challenge runs the version's image.
\<close>

theorem rollback_activates_one:
  assumes "rollback now cid vid d = Inr (Body d')" "distinct (map ve_id (versions d))"
  shows "{x \<in> set (versions d'). ve_challenge_id x = cid \<and> ve_is_active x} =
      (\<lambda>x. x\<lparr>ve_is_active := True\<rparr>) ` {x \<in> set (versions d). ve_id x = vid} \<and>
    card {x \<in> set (versions d'). ve_challenge_id x = cid \<and> ve_is_active x} = 1 \<and>
    {x \<in> set (versions d'). ve_challenge_id x \<noteq> cid} = {x \<in> set (versions d). ve_challenge_id x \<noteq> cid} \<and>
    (\<exists>v ch. first_where (\<lambda>x. ve_id x = vid) (versions d) = Some v \<and> challenge_by_id d' cid = Some ch \<and>
       ch_image_link ch = ve_image_link v \<and> ve_image_link v \<noteq> None)"
proof -
  from assms(1) obtain ch v where ch: "challenge_by_id d cid = Some ch" "ch_id ch = cid"
    and v: "v \<in> set (versions d)" "ve_id v = vid" "ve_challenge_id v = cid" "ve_image_link v \<noteq> None"
    and d': "versions d' = update_where (\<lambda>x. ve_id x = vid) (\<lambda>x. x\<lparr>ve_is_active := True\<rparr>)
        (update_where (\<lambda>x. ve_challenge_id x = cid) (\<lambda>x. x\<lparr>ve_is_active := False\<rparr>) (versions d))"
      "challenges d' = update_where (\<lambda>c. ch_id c = cid) (restore_version v now) (challenges d)"
    by (auto simp: rollback_def first_or_404_def challenge_by_id_def monad_simps
        split: option.splits if_splits dest!: first_where_SomeD)
  have one: "{x \<in> set (versions d). ve_id x = vid} = {v}"
    using assms(2) v by (auto simp: distinct_map inj_on_def)
  have same: "first_where (\<lambda>x. ve_id x = vid) (versions d) = Some v"
    using first_where_unique[OF assms(2) v(1)] v(2) by simp
  define f where "f x = (let y = (if ve_challenge_id x = cid then x\<lparr>ve_is_active := False\<rparr> else x) in
    if ve_id y = vid then y\<lparr>ve_is_active := True\<rparr> else y)" for x :: version
  have "versions d' = map f (versions d)"
    by (simp add: d' update_where_def f_def Let_def comp_def)
  then have img: "set (versions d') = f ` set (versions d)" by simp
  have only: "x = v" if "x \<in> set (versions d)" "ve_id x = vid" for x using one that by auto
  have chal: "ve_challenge_id (f x) = ve_challenge_id x" for x by (simp add: f_def Let_def)
  have fv: "f v = v\<lparr>ve_is_active := True\<rparr>" using v by (simp add: f_def)
  have idle: "\<not> ve_is_active (f x)" if "ve_challenge_id x = cid" "ve_id x \<noteq> vid" for x
    using that by (simp add: f_def)
  have "{x \<in> set (versions d'). ve_challenge_id x = cid \<and> ve_is_active x} = {f v}"
  proof -
    have "x = f v" if x: "x \<in> f ` set (versions d)" "ve_challenge_id x = cid" "ve_is_active x" for x
    proof -
      from x(1) obtain y where y: "y \<in> set (versions d)" "x = f y" by blast
      with x idle[of y] chal[of y] have "ve_id y = vid" by auto
      with y only show ?thesis by blast
    qed
    moreover have "f v \<in> f ` set (versions d)" using v(1) by (rule imageI)
    moreover have "ve_challenge_id (f v) = cid" "ve_is_active (f v)" using v by (simp_all add: fv)
    ultimately show ?thesis unfolding img by blast
  qed
  then have act: "{x \<in> set (versions d'). ve_challenge_id x = cid \<and> ve_is_active x} =
      (\<lambda>x. x\<lparr>ve_is_active := True\<rparr>) ` {x \<in> set (versions d). ve_id x = vid}"
    using one fv by simp
  have oth: "{x \<in> set (versions d'). ve_challenge_id x \<noteq> cid} = {x \<in> set (versions d). ve_challenge_id x \<noteq> cid}"
  proof -
    have "f x = x" if "x \<in> set (versions d)" "ve_challenge_id x \<noteq> cid" for x
      using only[of x] that v(3) by (auto simp: f_def)
    then show ?thesis using image_frame[of "set (versions d)" "\<lambda>x. ve_challenge_id x \<noteq> cid" f] chal img by simp
  qed
  have "challenge_by_id d' cid = Some (restore_version v now ch)"
  proof -
    have "first_where (\<lambda>c. ch_id c = cid) (update_where (\<lambda>c. ch_id c = cid) (restore_version v now) cs) =
        map_option (restore_version v now) (first_where (\<lambda>c. ch_id c = cid) cs)" for cs
      by (induction cs) (auto simp: update_where_def restore_version_def)
    then show ?thesis using ch(1) by (simp add: challenge_by_id_def d')
  qed
  moreover have "card {x \<in> set (versions d'). ve_challenge_id x = cid \<and> ve_is_active x} = 1"
    unfolding act one by simp
  ultimately show ?thesis using act oth same v(4) by (simp add: restore_version_def)
qed

definition offered :: "db \<Rightarrow> classes \<Rightarrow> bool \<Rightarrow> int list \<Rightarrow> challenge \<Rightarrow> bool" where
  "offered d classes admin_view solved ch =
     ((admin_view \<or> ch_state ch \<noteq> ''hidden'' \<and> ch_state ch \<noteq> ''locked'' \<and> gate_open d solved ch) \<and>
      (\<exists>name. get_chal_class classes (challenge_type ch) (Some (ch_id ch)) = Inr name))"

lemma get_all_challenges_set:
  "set (get_all_challenges d (Some b) matches) =
   {ch \<in> set (challenges d). matches ch \<and> (b \<or> ch_state ch \<noteq> ''hidden'' \<and> ch_state ch \<noteq> ''locked'')}"
  by (auto simp: get_all_challenges_def)

lemma list_item_Listed:
  "Listed ch name n s \<in> set (list_item d classes a solved counts dflt c) \<Longrightarrow>
   ch = c \<and> s = (ch_id c \<in> set solved) \<and> (gate_open d solved c \<or> a) \<and>
   get_chal_class classes (challenge_type c) (Some (ch_id c)) = Inr name"
  by (auto simp: list_item_def split: if_splits sum.splits)

lemma list_item_Masked:
  "Masked i \<in> set (list_item d classes a solved counts dflt c) \<Longrightarrow>
   i = ch_id c \<and> \<not> gate_open d solved c \<and> anonymized c \<and> \<not> a"
  by (auto simp: list_item_def split: if_splits sum.splits)

lemma list_item_offered:
  "gate_open d solved c \<or> a \<Longrightarrow> get_chal_class classes (challenge_type c) (Some (ch_id c)) = Inr name \<Longrightarrow>
   \<exists>n s. Listed c name n s \<in> set (list_item d classes a solved counts dflt c)"
  by (auto simp: list_item_def)

text \<open>
  Property C15: the challenges listed with their content are exactly the matching ones that are
  neither hidden nor locked, of an available type, and whose existing prerequisites the account
  has solved (an administrator's own view lists all); the solved marks are the account's; and
  an entry shown without content belongs to a visible, gated challenge that asks for it.
\<close>

theorem listing_respects_gates:
  assumes "challenge_list classes matches wants_admin c = Inr (Body items)"
    and "is_admin c = Some b" "my_solves c = Inr solved"
  shows "{ch. \<exists>name n s. Listed ch name n s \<in> set items} =
      {ch \<in> set (challenges (cx_db c)). matches ch \<and> offered (cx_db c) classes (b \<and> wants_admin) solved ch} \<and>
    (\<forall>ch name n s. Listed ch name n s \<notin> set items \<or> s = (ch_id ch \<in> set solved)) \<and>
    (\<forall>i. Masked i \<notin> set items \<or> (\<exists>ch\<in>set (challenges (cx_db c)). ch_id ch = i \<and> anonymized ch \<and>
        ch_state ch \<noteq> ''hidden'' \<and> ch_state ch \<noteq> ''locked'' \<and> \<not> gate_open (cx_db c) solved ch))"
proof -
  let ?d = "cx_db c" and ?a = "b \<and> wants_admin"
  have adm: "(if yes (is_admin c) then Some wants_admin else is_admin c) = Some ?a"
    using assms(2) by auto
  from assms obtain counts dflt where items: "items = concat (map (list_item ?d classes ?a solved counts dflt)
      (get_all_challenges ?d (Some ?a) matches))"
    unfolding challenge_list_def adm Let_def
    by (auto simp: monad_simps split: if_splits)
  have mem: "x \<in> set items \<longleftrightarrow> (\<exists>ch\<in>set (challenges ?d). matches ch \<and>
      (?a \<or> ch_state ch \<noteq> ''hidden'' \<and> ch_state ch \<noteq> ''locked'') \<and>
      x \<in> set (list_item ?d classes ?a solved counts dflt ch))" for x
    unfolding items by (auto simp: get_all_challenges_set)
  have "(\<exists>name n s. Listed ch name n s \<in> set items) \<longleftrightarrow>
      ch \<in> set (challenges ?d) \<and> matches ch \<and> offered ?d classes ?a solved ch" for ch
  proof
    assume "\<exists>name n s. Listed ch name n s \<in> set items"
    then obtain name n s ch' where x: "ch' \<in> set (challenges ?d)" "matches ch'"
      "?a \<or> ch_state ch' \<noteq> ''hidden'' \<and> ch_state ch' \<noteq> ''locked''"
      "Listed ch name n s \<in> set (list_item ?d classes ?a solved counts dflt ch')"
      using mem by blast
    from list_item_Listed[OF x(4)] x(1-3) show "ch \<in> set (challenges ?d) \<and> matches ch \<and> offered ?d classes ?a solved ch"
      by (auto simp: offered_def)
  next
    assume x: "ch \<in> set (challenges ?d) \<and> matches ch \<and> offered ?d classes ?a solved ch"
    then obtain name where n: "get_chal_class classes (challenge_type ch) (Some (ch_id ch)) = Inr name"
      "gate_open ?d solved ch \<or> ?a" by (auto simp: offered_def)
    from list_item_offered[OF n(2,1), of counts dflt] x show "\<exists>name n s. Listed ch name n s \<in> set items"
      unfolding mem offered_def by blast
  qed
  moreover have "Listed ch name n s \<notin> set items \<or> s = (ch_id ch \<in> set solved)" for ch name n s
    unfolding mem by (blast dest: list_item_Listed)
  moreover have "Masked i \<notin> set items \<or> (\<exists>ch\<in>set (challenges ?d). ch_id ch = i \<and> anonymized ch \<and>
        ch_state ch \<noteq> ''hidden'' \<and> ch_state ch \<noteq> ''locked'' \<and> \<not> gate_open ?d solved ch)" for i
    unfolding mem by (blast dest: list_item_Masked)
  ultimately show ?thesis by auto
qed

definition current_solves :: "ctx \<Rightarrow> int list" where
  "current_solves c = (case get_current_user c of Inr (Some u) \<Rightarrow> solved_ids (cx_db c) (cx_conf c) u | _ \<Rightarrow> [])"

definition current_unlocks :: "ctx \<Rightarrow> int list" where
  "current_unlocks c = (case get_current_user c of Inr (Some u) \<Rightarrow> unlocked_hints (cx_db c) (cx_conf c) u | _ \<Rightarrow> [])"

lemma hint_views_open:
  assumes "hint_views c unlocked hs = Inr vs" "v \<in> set vs" "hv_content v \<noteq> None"
  shows "hv_id v \<in> set unlocked \<or> ctf_ended (cx_conf c) (cx_now c) = Inr True"
  using assms
  by (induction hs arbitrary: vs) (auto simp: hint_views_def monad_simps split: if_splits)

lemma detail_gate_open:
  "detail_gate c ch = Inr True \<Longrightarrow> \<not> yes (staff c) \<Longrightarrow> gate_open (cx_db c) (current_solves c) ch"
  by (auto simp: detail_gate_def gate_open_def current_solves_def monad_simps Let_def split: if_splits option.splits)

lemma detail_hints_unlocked:
  assumes "detail_hints c ch = Inr vs"
  shows "\<exists>hs unlocked. set unlocked \<subseteq> set (current_unlocks c) \<and> hint_views c unlocked hs = Inr vs"
proof -
  from assms obtain unlocked where u: "hint_views c unlocked
      (filter (\<lambda>h. hi_challenge_id h = Some (ch_id ch)) (hints (cx_db c))) = Inr vs"
    "unlocked = [] \<or> unlocked = current_unlocks c"
    by (auto simp: detail_hints_def monad_simps current_unlocks_def split: if_splits option.splits)
  from u(2) have "set unlocked \<subseteq> set (current_unlocks c)" by auto
  with u(1) show ?thesis by blast
qed

text \<open>
  Property C16: a contestant who is shown a challenge in full sees one that is neither hidden
  nor locked and whose existing prerequisites the account has solved, and reads the content of
  a hint only if the account unlocked it or the competition is over.
\<close>

theorem detail_respects_gates:
  assumes "challenge_detail classes cid c = Inr (Body (FullDetail dt))" "\<not> yes (staff c)"
  shows "de_challenge dt \<in> set (challenges (cx_db c)) \<and> ch_id (de_challenge dt) = cid \<and>
    ch_state (de_challenge dt) \<noteq> ''hidden'' \<and> ch_state (de_challenge dt) \<noteq> ''locked'' \<and>
    gate_open (cx_db c) (current_solves c) (de_challenge dt) \<and>
    (\<forall>h\<in>set (de_hints dt). hv_content h = None \<or> hv_id h \<in> set (current_unlocks c) \<or>
      ctf_ended (cx_conf c) (cx_now c) = Inr True)"
proof -
  from assms(1) obtain ch where ch: "first_where (\<lambda>x. ch_id x = cid \<and> (yes (staff c) \<or>
        ch_state x \<noteq> ''hidden'' \<and> ch_state x \<noteq> ''locked'')) (challenges (cx_db c)) = Some ch"
    and g: "detail_gate c ch = Inr True" and h: "detail_hints c ch = Inr (de_hints dt)"
    and dt: "de_challenge dt = ch"
    by (auto simp: challenge_detail_def first_or_404_def monad_simps split: option.splits sum.splits if_splits)
  from detail_hints_unlocked[OF h] obtain hs unlocked where
    hs: "set unlocked \<subseteq> set (current_unlocks c)" "hint_views c unlocked hs = Inr (de_hints dt)"
    by blast
  have "hv_content x = None \<or> hv_id x \<in> set (current_unlocks c) \<or> ctf_ended (cx_conf c) (cx_now c) = Inr True"
    if "x \<in> set (de_hints dt)" for x
    using hint_views_open[OF hs(2) that] hs(1) by auto
  then show ?thesis
    using first_where_SomeD[OF ch] detail_gate_open[OF g assms(2)] assms(2) dt by auto
qed

text \<open>
  Also proved: the test that protects the solves of hidden challenges compares the role with
  the value \<open>False\<close>, so a logged-in contestant gets 404 while an anonymous visitor, for
  whom the role tests fall through to \<open>None\<close>, gets the solves.
\<close>

theorem anonymous_sees_hidden_solves:
  assumes "challenge_by_id (cx_db c) cid = Some ch" "ch_state ch = ''hidden''"
    and "is_users_mode (cx_conf c) \<or> is_teams_mode (cx_conf c)" "\<not> truthy (cx_conf c ''freeze'')"
  shows "if authed c then staff c \<noteq> Some False \<or> challenge_solves preview cid c = Inl (HTTPAbort 404)
    else \<exists>r. challenge_solves preview cid c = Inr (Body r)"
proof (cases "authed c")
  case False
  then have "staff c = None"
    by (simp add: staff_def py_or_def is_admin_def is_challenge_writer_def is_jury_def has_role_def)
  with False assms show ?thesis
    by (auto simp: challenge_solves_def first_or_404_def get_solves_for_challenge_id_def)
qed (use assms in \<open>auto simp: challenge_solves_def first_or_404_def\<close>)

text \<open>The loop of the cascade, round by round.\<close>

lemma run_cascade_rounds:
  "\<exists>n \<le> length (cc_stack st) + card (unseen st). cc_stack ((cascade_round ^^ n) st) = [] \<and> run_cascade st = (cascade_round ^^ n) st"
proof (induction st rule: run_cascade.induct)
  case (1 st)
  show ?case
  proof (cases "cc_stack st = []")
    case True
    then show ?thesis by (intro exI[of _ 0]) (simp add: run_cascade.simps[of st])
  next
    case False
    obtain n where n: "n \<le> length (cc_stack (cascade_round st)) + card (unseen (cascade_round st))"
      "cc_stack ((cascade_round ^^ n) (cascade_round st)) = []" "run_cascade (cascade_round st) = (cascade_round ^^ n) (cascade_round st)"
      using 1[OF False] by blast
    then show ?thesis
      using False cascade_round_less[OF False]
      by (intro exI[of _ "Suc n"]) (simp add: run_cascade.simps[of st] funpow_swap1)
  qed
qed

text \<open>
  Property C18: the hiding cascade ends on every graph of prerequisites, cycles included: its
  worklist is empty after at most one round more than there are challenges.
\<close>

theorem cascade_terminates:
  "\<exists>n \<le> Suc (card (ch_id ` set cs)).
     let st = (cascade_round ^^ n) \<lparr>cc_stack = [i], cc_seen = [i], cc_hidden = [], cc_challenges = cs\<rparr> in
     cc_stack st = [] \<and> cascade_hide_dependents i cs = st"
proof -
  let ?st = "\<lparr>cc_stack = [i], cc_seen = [i], cc_hidden = [], cc_challenges = cs\<rparr>"
  have "card (unseen ?st) \<le> card (ch_id ` set cs)" by (rule card_mono) (auto simp: unseen_def)
  moreover obtain n where "n \<le> length (cc_stack ?st) + card (unseen ?st)" "cc_stack ((cascade_round ^^ n) ?st) = []"
    "run_cascade ?st = (cascade_round ^^ n) ?st"
    using run_cascade_rounds by blast
  ultimately show ?thesis by (intro exI[of _ n]) (simp add: cascade_hide_dependents_def Let_def)
qed

section \<open>Witnesses\<close>

definition gated_challenge :: challenge where
  "gated_challenge = (sample_challenge 4 (Some 200))\<lparr>ch_requirements :=
     PDict [(''prerequisites'', PList [PInt 3]), (''anonymize'', PBool True)]\<rparr>"

definition sample_version :: "int \<Rightarrow> bool \<Rightarrow> version" where
  "sample_version i act = \<lparr>ve_id = i, ve_challenge_id = 3, ve_version_number = i,
     ve_image_link = Some ''img'', ve_deploy_file = None, ve_cpu_limit = Some 5, ve_cpu_request = None,
     ve_memory_limit = None, ve_memory_request = None, ve_use_gvisor = None, ve_harden_container = None,
     ve_max_deploy_count = None, ve_is_active = act, ve_created_by = None, ve_created_at = None,
     ve_notes = None\<rparr>"

definition sample_hint :: hint where
  "sample_hint = \<lparr>hi_id = 1, hi_type = Some ''standard'', hi_challenge_id = Some 3,
     hi_content = Some ''look'', hi_cost = Some 5, hi_requirements = PNone\<rparr>"

definition view_db :: db where
  "view_db = empty_db\<lparr>users := [sample_user 1 None], hints := [sample_hint],
     challenges := [gated_challenge, sample_challenge 3 (Some 100),
       (sample_challenge 5 (Some 1))\<lparr>ch_state := ''hidden''\<rparr>],
     versions := [sample_version 1 False, sample_version 2 True]\<rparr>"

definition view_conf :: config where
  "view_conf k = (if k = ''user_mode'' then PStr ''users''
     else if k = ''challenge_visibility'' \<or> k = ''score_visibility'' \<or> k = ''account_visibility''
     then PStr ''public'' else PNone)"

definition view_ctx :: "int option \<Rightarrow> ctx" where
  "view_ctx sid = (sample_ctx (sample_user 1 None) sid ''GET'' None)\<lparr>cx_db := view_db, cx_conf := view_conf\<rparr>"

definition standard_class :: classes where
  "standard_class = [(''standard'', None)]"

theorem rollback_activates_one_witness:
  "\<exists>d'. rollback 9 3 1 view_db = Inr (Body d') \<and>
     card {x \<in> set (versions d'). ve_challenge_id x = 3 \<and> ve_is_active x} = 1"
proof -
  let ?d = "case rollback 9 3 1 view_db of Inr (Body d') \<Rightarrow> d' | _ \<Rightarrow> view_db"
  have "rollback 9 3 1 view_db = Inr (Body ?d)" by code_simp
  moreover have "distinct (map ve_id (versions view_db))" by code_simp
  ultimately show ?thesis using rollback_activates_one by blast
qed

theorem listing_respects_gates_witness:
  "challenge_list standard_class (\<lambda>_. True) False (view_ctx (Some 1)) =
     Inr (Body [Listed (sample_challenge 3 (Some 100)) ''standard'' (Some 0) False, Masked 4]) \<and>
   (\<exists>ch\<in>set (challenges view_db). ch_id ch = 4 \<and> anonymized ch \<and> \<not> gate_open view_db [] ch)"
proof -
  have l: "challenge_list standard_class (\<lambda>_. True) False (view_ctx (Some 1)) =
     Inr (Body [Listed (sample_challenge 3 (Some 100)) ''standard'' (Some 0) False, Masked 4])"
    by code_simp
  have "is_admin (view_ctx (Some 1)) = Some False" "my_solves (view_ctx (Some 1)) = Inr []" by code_simp+
  note t = listing_respects_gates[OF l this]
  have "cx_db (view_ctx (Some 1)) = view_db" by (simp add: view_ctx_def)
  with t l show ?thesis by fastforce
qed

theorem detail_respects_gates_witness:
  "\<exists>dt. challenge_detail standard_class 3 (view_ctx (Some 1)) = Inr (Body (FullDetail dt)) \<and>
     (\<forall>h\<in>set (de_hints dt). hv_content h = None \<or> hv_id h \<in> set (current_unlocks (view_ctx (Some 1))) \<or>
       ctf_ended (cx_conf (view_ctx (Some 1))) (cx_now (view_ctx (Some 1))) = Inr True)"
proof -
  let ?dt = "case challenge_detail standard_class 3 (view_ctx (Some 1)) of
      Inr (Body (FullDetail dt)) \<Rightarrow> dt | _ \<Rightarrow> undefined"
  have "challenge_detail standard_class 3 (view_ctx (Some 1)) = Inr (Body (FullDetail ?dt))"
    by code_simp
  moreover have "\<not> yes (staff (view_ctx (Some 1)))" by code_simp
  ultimately show ?thesis using detail_respects_gates by blast
qed

theorem anonymous_sees_hidden_solves_witness:
  "\<exists>r. challenge_solves False 5 (view_ctx None) = Inr (Body r)"
proof -
  have "challenge_by_id (cx_db (view_ctx None)) 5 = Some ((sample_challenge 5 (Some 1))\<lparr>ch_state := ''hidden''\<rparr>)"
    "is_users_mode (cx_conf (view_ctx None))" "\<not> truthy (cx_conf (view_ctx None) ''freeze'')"
    "\<not> authed (view_ctx None)"
    by code_simp+
  then show ?thesis using anonymous_sees_hidden_solves[of "view_ctx None" 5 _ False] by auto
qed

end
