(* ===== verification/Attempt.thy ===== *)
theory Attempt imports Challenges begin

text \<open>
  Answer submission: \<open>ChallengeAttempt.post\<close> of \<^verbatim>\<open>api/v1/challenges.py\<close>, from the
  bearer token to the committed solve or fail.  The state is the database together with the
  cooldown entries the handler keeps in Redis (a plain key-value store); an exception keeps the
  state reached so far, since the scoring writers commit before the handler goes on.
\<close>

section \<open>State and replies\<close>

record attempt_state =
  at_db :: db
  at_cooldowns :: "((int \<times> int option) \<times> rat) list"

record attempt_reply =
  rp_code :: nat
  rp_status :: string
  rp_message :: string

text \<open>The handler leaves early by answering or by raising.\<close>

datatype leave = Raise py_exc | Answer attempt_reply

definition reply :: "nat \<Rightarrow> string \<Rightarrow> string \<Rightarrow> attempt_reply" where
  "reply code status message = \<lparr>rp_code = code, rp_status = status, rp_message = message\<rparr>"

definition answer_now :: "nat \<Rightarrow> string \<Rightarrow> string \<Rightarrow> leave + 'a" where
  "answer_now code status message = Inl (Answer (reply code status message))"

definition lift :: "py_exc + 'a \<Rightarrow> leave + 'a" where
  "lift r = (case r of Inl e \<Rightarrow> Inl (Raise e) | Inr x \<Rightarrow> Inr x)"

text \<open>
  The surroundings of a request: the regular-expression engine, the registered classes,
  whether the cache has a running instance of a challenge for a team, the client address.
\<close>

record env =
  ev_re_compiles :: "bool \<Rightarrow> string \<Rightarrow> bool"
  ev_re_match :: "bool \<Rightarrow> string \<Rightarrow> string \<Rightarrow> string option option"
  ev_classes :: classes
  ev_running :: "int \<Rightarrow> int option \<Rightarrow> bool"
  ev_ip :: string

section \<open>Identification\<close>

text \<open>What precedes the next occurrence of a separator.\<close>

fun before_sub :: "string \<Rightarrow> string \<Rightarrow> string" where
  "before_sub pat [] = []"
| "before_sub pat (c # s) = (if starts_with pat (c # s) then [] else c # before_sub pat s)"

definition get_token_from_header :: "request \<Rightarrow> string option" where
  "get_token_from_header r = (case rq_authorization r of
      None \<Rightarrow> None
    | Some h \<Rightarrow> if starts_with ''Bearer '' h then Some (before_sub ''Bearer '' (drop 7 h)) else None)"

definition error_text :: "py_exc \<Rightarrow> string" where
  "error_text e = (case e of ScoringValidationError field m \<Rightarrow> m | _ \<Rightarrow> [])"

definition checked :: "py_exc + 'a \<Rightarrow> leave + 'a" where
  "checked r = (case r of
      Inl (ScoringValidationError f m) \<Rightarrow> answer_now 400 ''invalid'' m
    | Inl e \<Rightarrow> Inl (Raise e)
    | Inr x \<Rightarrow> Inr x)"

text \<open>The token is looked up by value; neither its expiry nor a ban is consulted.\<close>

definition identify :: "ctx \<Rightarrow> pyval \<Rightarrow> db \<Rightarrow> leave + int \<times> user \<times> challenge" where
  "identify c body d = (case get_token_from_header (cx_request c) of
      None \<Rightarrow> answer_now 403 ''error'' ''Authorization missing''
    | Some value \<Rightarrow>
        if value = [] then answer_now 403 ''error'' ''Authorization missing''
        else bindE (checked (validate_attempt_input body)) (\<lambda>cid.
          case first_where (\<lambda>t. tk_value t = Some value) (tokens d) of
            None \<Rightarrow> answer_now 404 ''error'' ''Token not found''
          | Some t \<Rightarrow>
              (case (case tk_user_id t of None \<Rightarrow> None | Some i \<Rightarrow> user_by_id d i) of
                 None \<Rightarrow> answer_now 404 ''error'' ''User not found''
               | Some u \<Rightarrow>
                   (case challenge_by_id d cid of
                      None \<Rightarrow> answer_now 400 ''error'' ''Challenge not found''
                    | Some ch \<Rightarrow> Inr (cid, u, ch)))))"

definition submitted :: "pyval \<Rightarrow> string" where
  "submitted body = (case body of PDict data \<Rightarrow> (case dget data ''submission'' of PStr s \<Rightarrow> s | _ \<Rightarrow> []) | _ \<Rightarrow> [])"

section \<open>Class operations\<close>

text \<open>The sandbox class scores nothing itself; the other classes inherit the base operations.\<close>

definition class_attempt :: "env \<Rightarrow> string \<Rightarrow> db \<Rightarrow> int \<Rightarrow> string \<Rightarrow> py_exc + bool \<times> attempt_message" where
  "class_attempt e cls d cid s =
     (if cls = ''sandbox'' then Inr (False, Message ''Sandbox challenges are scored by the KYPO system.'')
      else attempt (ev_re_compiles e) (ev_re_match e) d cid s)"

definition class_solve ::
  "env \<Rightarrow> string \<Rightarrow> ctx \<Rightarrow> user \<Rightarrow> team option \<Rightarrow> int \<Rightarrow> string \<Rightarrow> db \<Rightarrow> py_exc + bool \<times> db" where
  "class_solve e cls c u t cid s d =
     (if cls = ''sandbox'' then Inr (True, d) else solve (cx_conf c) (utcnow c) (ev_ip e) u t cid s d)"

definition class_fail :: "env \<Rightarrow> string \<Rightarrow> ctx \<Rightarrow> user \<Rightarrow> team option \<Rightarrow> int \<Rightarrow> string \<Rightarrow> db \<Rightarrow> db" where
  "class_fail e cls c u t cid s d =
     (if cls = ''sandbox'' then d else fail (utcnow c) (ev_ip e) u t cid s d)"

section \<open>Admission\<close>

definition captain_blocked :: "config \<Rightarrow> user \<Rightarrow> team option \<Rightarrow> bool" where
  "captain_blocked conf u t =
     ((py_eq (conf ''captain_only_submit_challenge'') (PInt 1) \<or>
       py_eq (conf ''captain_only_submit_challenge'') (PStr ''true'')) \<and> user_type u = ''user'' \<and>
      (case t of None \<Rightarrow> True | Some tm \<Rightarrow> (case te_captain_id tm of None \<Rightarrow> True
         | Some k \<Rightarrow> k = 0 \<or> k \<noteq> us_id u)))"

definition cooldown_of :: "challenge \<Rightarrow> int" where
  "cooldown_of ch = (case ch_cooldown ch of None \<Rightarrow> 0 | Some s \<Rightarrow> s)"

definition cooldown_check ::
  "rat \<Rightarrow> int \<Rightarrow> challenge \<Rightarrow> int option \<Rightarrow> ((int \<times> int option) \<times> rat) list \<Rightarrow>
     leave + ((int \<times> int option) \<times> rat) list" where
  "cooldown_check now cid ch team_id store =
     (if cooldown_of ch \<le> 0 then Inr store
      else case map_of store (cid, team_id) of
        Some last_time \<Rightarrow>
          if now - last_time < of_int (cooldown_of ch)
          then answer_now 429 ''ratelimited'' (''Please wait '' @
            show_int (let left = of_int (cooldown_of ch) - (now - last_time) in if 0 \<le> left then \<lfloor>left\<rfloor> else \<lceil>left\<rceil>)
            @ '' seconds before submitting again.'')
          else Inr (put (cid, team_id) now store)
      | None \<Rightarrow> Inr (put (cid, team_id) now store))"

definition fails_of :: "db \<Rightarrow> config \<Rightarrow> user \<Rightarrow> int \<Rightarrow> nat" where
  "fails_of d conf u cid = length (filter (\<lambda>s. sub_challenge_id s = Some cid \<and>
     filter_eq (submission_account_id conf s) (user_account_id conf u)) (fails d))"

definition solved_by :: "db \<Rightarrow> config \<Rightarrow> user \<Rightarrow> int \<Rightarrow> bool" where
  "solved_by d conf u cid = list_ex (\<lambda>s. sub_challenge_id s = Some cid \<and>
     filter_eq (submission_account_id conf s) (user_account_id conf u)) (solves d)"

definition eligible :: "env \<Rightarrow> config \<Rightarrow> db \<Rightarrow> user \<Rightarrow> team option \<Rightarrow> int \<Rightarrow> challenge \<Rightarrow> leave + string" where
  "eligible e conf d u t cid ch =
     (if is_teams_mode conf \<and> t = None then Inl (Raise (HTTPAbort 403))
      else if ch_state ch = ''hidden'' then Inl (Raise (HTTPAbort 404))
      else if ch_state ch = ''locked'' then Inl (Raise (HTTPAbort 403))
      else if \<not> gate_open d (solved_ids d conf u) ch then Inl (Raise (HTTPAbort 403))
      else case get_chal_class (ev_classes e) (challenge_type ch) (Some cid) of
        Inl _ \<Rightarrow> answer_now 400 ''error'' ''Challenge type is unavailable''
      | Inr cls \<Rightarrow> Inr cls)"

definition kpm_limit :: "config \<Rightarrow> py_exc + int" where
  "kpm_limit conf = py_int (conf_default conf ''incorrect_submissions_per_min'' (PInt 10))"

section \<open>Judging\<close>

definition tries_left_message :: "string \<Rightarrow> int \<Rightarrow> string" where
  "tries_left_message message left =
     (if message \<noteq> [] \<and> last message \<in> set ''!().;?[]{}'' then message else message @ ''.'')
       @ '' You have '' @ show_int left @ '' '' @ (if left = 1 then ''try'' else ''tries'') @ '' remaining.''"

definition message_text :: "attempt_message \<Rightarrow> string" where
  "message_text m = (case m of Message s \<Rightarrow> s | FlagErrorMessage s \<Rightarrow> s)"

text \<open>May the outcome be recorded: within the competition, or by staff.\<close>

definition recordable :: "ctx \<Rightarrow> py_exc + bool" where
  "recordable c = bindE (ctftime (cx_conf c) (cx_now c)) (\<lambda>b. Inr (b \<or> yes (staff c)))"

definition judge_correct ::
  "env \<Rightarrow> ctx \<Rightarrow> string \<Rightarrow> user \<Rightarrow> team option \<Rightarrow> int \<Rightarrow> challenge \<Rightarrow> string \<Rightarrow> string \<Rightarrow> db \<Rightarrow>
     (py_exc + attempt_reply) \<times> db" where
  "judge_correct e c cls u t cid ch s message d =
     (let finish = (\<lambda>d'. (if ch_require_deploy ch \<and> ev_running e cid (us_team_id u) then Inl TypeError
            else Inr (reply 200 ''correct'' message), d')) in
      case recordable c of
        Inl x \<Rightarrow> (Inl x, d)
      | Inr False \<Rightarrow> finish d
      | Inr True \<Rightarrow>
          (case class_solve e cls c u t cid s d of
             Inl (ScoringValidationError f m) \<Rightarrow> (Inr (reply 400 ''invalid'' m), d)
           | Inl x \<Rightarrow> (Inl x, d)
           | Inr (False, d') \<Rightarrow> (Inr (reply 200 ''already_solved'' ''You or your teammate already solved this''), d')
           | Inr (True, d') \<Rightarrow> finish d'))"

definition judge_wrong ::
  "env \<Rightarrow> ctx \<Rightarrow> string \<Rightarrow> user \<Rightarrow> team option \<Rightarrow> int \<Rightarrow> int \<Rightarrow> nat \<Rightarrow> string \<Rightarrow> string \<Rightarrow> db \<Rightarrow>
     (py_exc + attempt_reply) \<times> db" where
  "judge_wrong e c cls u t cid max_tries failed s message d =
     (case recordable c of
        Inl x \<Rightarrow> (Inl x, d)
      | Inr rec \<Rightarrow>
          (Inr (reply 200 ''incorrect'' (if max_tries \<noteq> 0
              then tries_left_message message (max_tries - int failed - 1) else message)),
           if rec then class_fail e cls c u t cid s d else d))"

definition max_tries_of :: "challenge \<Rightarrow> int" where
  "max_tries_of ch = (case ch_max_attempts ch of None \<Rightarrow> 0 | Some m \<Rightarrow> m)"

definition judge ::
  "env \<Rightarrow> ctx \<Rightarrow> string \<Rightarrow> user \<Rightarrow> team option \<Rightarrow> int \<Rightarrow> challenge \<Rightarrow> nat \<Rightarrow> string \<Rightarrow> db \<Rightarrow>
     (py_exc + attempt_reply) \<times> db" where
  "judge e c cls u t cid ch failed s d =
     (case kpm_limit (cx_conf c) of
        Inl x \<Rightarrow> (Inl x, d)
      | Inr limit \<Rightarrow>
          if limit < int (get_wrong_submissions_per_minute d (cx_conf c) (utcnow c) (user_account_id (cx_conf c) u))
          then (case ctftime (cx_conf c) (cx_now c) of
              Inl x \<Rightarrow> (Inl x, d)
            | Inr b \<Rightarrow> (Inr (reply 429 ''ratelimited'' (''You'' @ [CHR 0x27] @ ''re submitting flags too fast. Slow down.'')),
                       if b then class_fail e cls c u t cid s d else d))
          else if solved_by d (cx_conf c) u cid
          then (Inr (reply 200 ''already_solved'' ''You or your teammate already solved this''), d)
          else if max_tries_of ch \<noteq> 0 \<and> 0 \<le> max_tries_of ch \<and> max_tries_of ch \<le> int failed
          then (Inr (reply 400 ''incorrect'' ''You have 0 tries remaining''), d)
          else case class_attempt e cls d cid s of
            Inl x \<Rightarrow> (Inl x, d)
          | Inr (_, FlagErrorMessage m) \<Rightarrow> (Inr (reply 400 ''error'' m), d)
          | Inr (True, Message m) \<Rightarrow> judge_correct e c cls u t cid ch s m d
          | Inr (False, Message m) \<Rightarrow> judge_wrong e c cls u t cid (max_tries_of ch) failed s m d)"

definition preview_reply :: "env \<Rightarrow> db \<Rightarrow> int \<Rightarrow> challenge \<Rightarrow> string \<Rightarrow> py_exc + attempt_reply" where
  "preview_reply e d cid ch s =
     (case get_chal_class (ev_classes e) (challenge_type ch) (Some cid) of
        Inl _ \<Rightarrow> Inr (reply 400 ''error'' ''Challenge type is unavailable'')
      | Inr cls \<Rightarrow> bindE (class_attempt e cls d cid s) (\<lambda>(ok, m). case m of
            FlagErrorMessage x \<Rightarrow> Inr (reply 400 ''error'' x)
          | Message x \<Rightarrow> Inr (reply 200 (if ok then ''correct'' else ''incorrect'') x)))"

text \<open>A step that ended early leaves its answer; the state is what it was at that point.\<close>

definition leave_result :: "leave \<Rightarrow> py_exc + attempt_reply" where
  "leave_result l = (case l of Raise x \<Rightarrow> Inl x | Answer r \<Rightarrow> Inr r)"

definition attempt_post ::
  "env \<Rightarrow> ctx \<Rightarrow> pyval \<Rightarrow> bool \<Rightarrow> attempt_state \<Rightarrow> (py_exc + attempt_reply) \<times> attempt_state" where
  "attempt_post e c body preview st =
     (let d = at_db st; conf = cx_conf c; s = submitted body in
      case identify c body d of
        Inl l \<Rightarrow> (leave_result l, st)
      | Inr (cid, u, ch) \<Rightarrow>
          let t = (case us_team_id u of None \<Rightarrow> None | Some i \<Rightarrow> team_by_id d i) in
          if yes (staff c) \<and> preview then (preview_reply e d cid ch s, st)
          else if ctf_paused conf then (Inr (reply 403 ''paused'' (config_text (ctf_name conf) @ '' is paused'')), st)
          else if captain_blocked conf u t
          then (Inr (reply 403 ''forbidden''
            ''Only the team captain has permission to submit flags for challenges.''), st)
          else case cooldown_check (cx_now c) cid ch (us_team_id u) (at_cooldowns st) of
            Inl l \<Rightarrow> (leave_result l, st)
          | Inr store \<Rightarrow>
              (case eligible e conf d u t cid ch of
                 Inl l \<Rightarrow> (leave_result l, st\<lparr>at_cooldowns := store\<rparr>)
               | Inr cls \<Rightarrow>
                   let (r, d') = judge e c cls u t cid ch (fails_of d conf u cid) s d in
                   (r, \<lparr>at_db = d', at_cooldowns = store\<rparr>)))"

text \<open>The decorated handler: outside the competition it is not entered.\<close>

definition challenge_attempt ::
  "env \<Rightarrow> ctx \<Rightarrow> pyval \<Rightarrow> bool \<Rightarrow> attempt_state \<Rightarrow> (py_exc + attempt_reply reply) \<times> attempt_state" where
  "challenge_attempt e c body preview st =
     (case during_ctf_time_only c (Inr (Body ())) of
        Inr (Body _) \<Rightarrow> let (r, st') = attempt_post e c body preview st in
          (bindE r (\<lambda>x. Inr (Body x)), st')
      | Inr (RedirectTo x) \<Rightarrow> (Inr (RedirectTo x), st)
      | Inr (Status n) \<Rightarrow> (Inr (Status n), st)
      | Inr NoReply \<Rightarrow> (Inr NoReply, st)
      | Inl x \<Rightarrow> (Inl x, st))"

section \<open>What an attempt can do to the state\<close>

text \<open>The ways a judgement changes the database: not at all, by a fail, by a solving transaction.\<close>

lemma judge_cases:
  assumes "judge e c cls u t cid ch failed s d = (r, d')"
  obtains (same) "d' = d"
  | (failed) "d' = fail (utcnow c) (ev_ip e) u t cid s d"
  | (solved) b m limit where "solve (cx_conf c) (utcnow c) (ev_ip e) u t cid s d = Inr (b, d')"
      "attempt (ev_re_compiles e) (ev_re_match e) d cid s = Inr (True, Message m)"
      "recordable c = Inr True" "kpm_limit (cx_conf c) = Inr limit"
      "int (get_wrong_submissions_per_minute d (cx_conf c) (utcnow c) (user_account_id (cx_conf c) u)) \<le> limit"
      "\<not> solved_by d (cx_conf c) u cid"
      "max_tries_of ch = 0 \<or> max_tries_of ch < 0 \<or> int failed < max_tries_of ch"
      "r = (if \<not> b then Inr (reply 200 ''already_solved'' ''You or your teammate already solved this'')
        else if ch_require_deploy ch \<and> ev_running e cid (us_team_id u) then Inl TypeError
        else Inr (reply 200 ''correct'' m))"
proof -
  from assms have "d' = d \<or> d' = fail (utcnow c) (ev_ip e) u t cid s d \<or>
      (\<exists>b m limit. solve (cx_conf c) (utcnow c) (ev_ip e) u t cid s d = Inr (b, d') \<and>
        attempt (ev_re_compiles e) (ev_re_match e) d cid s = Inr (True, Message m) \<and>
        recordable c = Inr True \<and> kpm_limit (cx_conf c) = Inr limit \<and>
        int (get_wrong_submissions_per_minute d (cx_conf c) (utcnow c) (user_account_id (cx_conf c) u)) \<le> limit \<and>
        \<not> solved_by d (cx_conf c) u cid \<and>
        (max_tries_of ch = 0 \<or> max_tries_of ch < 0 \<or> int failed < max_tries_of ch) \<and>
        r = (if \<not> b then Inr (reply 200 ''already_solved'' ''You or your teammate already solved this'')
          else if ch_require_deploy ch \<and> ev_running e cid (us_team_id u) then Inl TypeError
          else Inr (reply 200 ''correct'' m)))"
    by (auto simp: judge_def judge_correct_def judge_wrong_def class_attempt_def class_solve_def class_fail_def
        Let_def split: sum.splits if_splits attempt_message.splits prod.splits bool.splits py_exc.splits)
  with same failed solved show thesis by blast
qed

text \<open>How far an attempt got when it reaches the judgement.\<close>

lemma attempt_post_cases:
  assumes "attempt_post e c body preview st = (r, st')"
  obtains (same) "at_db st' = at_db st"
  | (judged) cid u ch t cls d' where "identify c body (at_db st) = Inr (cid, u, ch)"
      "t = (case us_team_id u of None \<Rightarrow> None | Some i \<Rightarrow> team_by_id (at_db st) i)"
      "\<not> ctf_paused (cx_conf c)" "\<not> captain_blocked (cx_conf c) u t"
      "eligible e (cx_conf c) (at_db st) u t cid ch = Inr cls"
      "judge e c cls u t cid ch (fails_of (at_db st) (cx_conf c) u cid) (submitted body) (at_db st) = (r, d')"
      "at_db st' = d'"
proof (cases "identify c body (at_db st)")
  case (Inl l)
  with assms same show thesis by (simp add: attempt_post_def)
next
  case (Inr x)
  obtain cid u ch where x: "x = (cid, u, ch)" by (cases x)
  define t where "t = (case us_team_id u of None \<Rightarrow> None | Some i \<Rightarrow> team_by_id (at_db st) i)"
  consider "yes (staff c) \<and> preview \<or> ctf_paused (cx_conf c) \<or> captain_blocked (cx_conf c) u t \<or>
      (\<exists>l. cooldown_check (cx_now c) cid ch (us_team_id u) (at_cooldowns st) = Inl l) \<or>
      (\<exists>l. eligible e (cx_conf c) (at_db st) u t cid ch = Inl l)"
    | store cls where "\<not> (yes (staff c) \<and> preview)" "\<not> ctf_paused (cx_conf c)" "\<not> captain_blocked (cx_conf c) u t"
      "cooldown_check (cx_now c) cid ch (us_team_id u) (at_cooldowns st) = Inr store"
      "eligible e (cx_conf c) (at_db st) u t cid ch = Inr cls"
    by (cases "cooldown_check (cx_now c) cid ch (us_team_id u) (at_cooldowns st)";
        cases "eligible e (cx_conf c) (at_db st) u t cid ch") blast+
  then show thesis
  proof cases
    case 1
    with assms Inr x have "at_db st' = at_db st"
      by (auto simp: attempt_post_def Let_def t_def[symmetric] split: if_splits sum.splits)
    then show thesis by (rule same)
  next
    case 2
    with assms Inr x judged[OF Inr[unfolded x] t_def] show thesis
      by (auto simp: attempt_post_def Let_def t_def[symmetric] split: prod.splits)
  qed
qed

lemma fail_solves: "scoring_ok d \<Longrightarrow> solves (fail now ip u t cid s d) = solves d"
proof -
  assume ok: "scoring_ok d"
  let ?n = "new_submission ''incorrect'' now ip u t cid s"
  have rows: "solve_rows (fail now ip u t cid s d) = solve_rows d" by (simp add: fail_def add_submission_def)
  then have old: "solve_of (fail now ip u t cid s d) x = solve_of d x" for x by (simp add: solve_of_def)
  have "first_where (\<lambda>r. sv_id r = fresh_id sub_id (submissions d)) (solve_rows d) = None"
    using ok fresh_id_gt[of _ "submissions d" sub_id]
    by (fastforce simp: table_simps scoring_ok_def child_of_def)
  then have "solve_of d (?n\<lparr>sub_id := fresh_id sub_id (submissions d)\<rparr>) = None"
    by (simp add: solve_of_def)
  then show ?thesis
    by (simp add: solves_def fail_def add_submission_def solve_of_def[abs_def] List.map_filter_def)
qed

lemma attempt_accepts:
  assumes "attempt rc rm d cid s = Inr (True, m)"
  shows "list_ex (\<lambda>f. flag_usable rc rm f (py_strip s) \<and> flag_matches rm f (py_strip s)) (flags_of d cid)"
  using assms attempt_loop_result[of rc rm "flags_of d cid" "py_strip s" None] by (auto simp: attempt_def)

lemma judge_ok: "scoring_ok d \<Longrightarrow> judge e c cls u t cid ch n s d = (r, d') \<Longrightarrow> scoring_ok d'"
  by (erule judge_cases)
     (auto simp: fail_def new_submission_def is_correct_def intro: add_submission_ok dest: solve_ok)

lemma eligible_facts:
  "eligible e conf d u t cid ch = Inr cls \<Longrightarrow> ch_state ch \<noteq> ''hidden'' \<and> ch_state ch \<noteq> ''locked'' \<and>
     gate_open d (solved_ids d conf u) ch \<and> \<not> (is_teams_mode conf \<and> t = None)"
  by (auto simp: eligible_def answer_now_def split: if_splits)

lemma identify_facts:
  assumes "identify c body d = Inr (cid, u, ch)"
  shows "challenge_by_id d cid = Some ch \<and>
     (\<exists>t\<in>set (tokens d). tk_value t = get_token_from_header (cx_request c) \<and> tk_user_id t = Some (us_id u))"
proof -
  from assms obtain tv where v: "get_token_from_header (cx_request c) = Some tv" "tv \<noteq> []"
    by (cases "get_token_from_header (cx_request c)") (auto simp: identify_def answer_now_def split: if_splits)
  define tk where "tk = first_where (\<lambda>t. tk_value t = Some tv) (tokens d)"
  from assms v obtain t where t: "tk = Some t"
    by (cases tk) (auto simp: identify_def answer_now_def monad_simps tk_def)
  define us where "us = (case tk_user_id t of None \<Rightarrow> None | Some i \<Rightarrow> user_by_id d i)"
  from assms v t obtain w where w: "us = Some w"
    by (cases us) (auto simp: identify_def answer_now_def monad_simps tk_def us_def)
  with assms v t have "challenge_by_id d cid = Some ch \<and> w = u"
    by (auto simp: identify_def answer_now_def monad_simps tk_def us_def split: option.splits)
  moreover from w have "tk_user_id t = Some (us_id w)"
    by (auto simp: us_def user_by_id_def split: option.splits dest: first_where_SomeD)
  ultimately show ?thesis using v t by (auto simp: tk_def dest!: first_where_SomeD intro!: bexI[of _ t])
qed

section \<open>Properties\<close>

text \<open>
  Property C1: whatever the request, the submission endpoint keeps the scoring invariant.
\<close>

theorem attempt_keeps_invariant:
  assumes "scoring_ok (at_db st)"
  shows "scoring_ok (at_db (snd (challenge_attempt e c body preview st)))"
proof -
  obtain r st' where p: "attempt_post e c body preview st = (r, st')" by (metis surj_pair)
  then have "scoring_ok (at_db st')"
    by (cases rule: attempt_post_cases) (use assms judge_ok in auto)
  with p assms show ?thesis
    by (auto simp: challenge_attempt_def split: sum.splits reply.splits)
qed

text \<open>
  Property C2: an attempt adds a solve only for the owner of the presented token, on a challenge
  that is neither hidden nor locked and whose existing prerequisites the account has solved,
  when the competition is not paused, a flag of the challenge accepts the answer, the account
  has not solved it, has tries left and is within the rate limit; and then it adds one solve.
\<close>

theorem attempt_scores_only_if:
  assumes "scoring_ok (at_db st)" "attempt_post e c body preview st = (r, st')"
    and "solves (at_db st') \<noteq> solves (at_db st)"
  shows "\<exists>cid u ch s limit. identify c body (at_db st) = Inr (cid, u, ch) \<and>
    solves (at_db st') = solves (at_db st) @ [s] \<and>
    sub_challenge_id s = Some cid \<and> sub_user_id s = Some (us_id u) \<and>
    (\<exists>t\<in>set (tokens (at_db st)). tk_value t = get_token_from_header (cx_request c) \<and> tk_user_id t = Some (us_id u)) \<and>
    challenge_by_id (at_db st) cid = Some ch \<and>
    ch_state ch \<noteq> ''hidden'' \<and> ch_state ch \<noteq> ''locked'' \<and>
    gate_open (at_db st) (solved_ids (at_db st) (cx_conf c) u) ch \<and>
    \<not> ctf_paused (cx_conf c) \<and> recordable c = Inr True \<and>
    list_ex (\<lambda>f. flag_usable (ev_re_compiles e) (ev_re_match e) f (py_strip (submitted body)) \<and>
      flag_matches (ev_re_match e) f (py_strip (submitted body))) (flags_of (at_db st) cid) \<and>
    \<not> solved_by (at_db st) (cx_conf c) u cid \<and>
    (max_tries_of ch \<le> 0 \<or> int (fails_of (at_db st) (cx_conf c) u cid) < max_tries_of ch) \<and>
    kpm_limit (cx_conf c) = Inr limit \<and>
    int (get_wrong_submissions_per_minute (at_db st) (cx_conf c) (utcnow c) (user_account_id (cx_conf c) u)) \<le> limit"
  using assms(2)
proof (cases rule: attempt_post_cases)
  case same
  then show ?thesis using assms(3) by (simp add: solves_def solve_of_def[abs_def])
next
  case (judged cid u ch t cls d')
  note facts = eligible_facts[OF judged(5)] identify_facts[OF judged(1)]
  from judged(6) show ?thesis
  proof (cases rule: judge_cases)
    case same
    then show ?thesis using assms(3) judged(7) by simp
  next
    case failed
    then show ?thesis using assms(1,3) judged(7) fail_solves by simp
  next
    case (solved b m limit)
    have "b" using solved(1) assms(3) judged(7) by (cases b) (auto elim: solve_Inr_cases)
    with solved(1) obtain sub d1 ch' row where i: "sub_challenge_id sub = Some cid" "sub_user_id sub = Some (us_id u)"
      "insert_solve sub (at_db st) = Inr d1" "recalculate d1 (cx_conf c) ch' row = Inr d'"
      by (elim solve_Inr_cases) auto
    then have "solves (at_db st') = solves (at_db st) @ [sub\<lparr>sub_id := fresh_id sub_id (submissions (at_db st))\<rparr>]"
      using solves_insert[OF assms(1)] recalculate_solves judged(7) by simp
    then show ?thesis
      using i facts judged solved attempt_accepts[OF solved(2)] by fastforce
  qed
qed

text \<open>
  Also proved: when the solved challenge has a running instance the handler raises after the
  solve was committed (\<open>force_stop\<close> is called with an argument it does not take), so the
  contestant gets an error for a correct, recorded answer.
\<close>

theorem running_instance_error:
  assumes "scoring_ok (at_db st)" "attempt_post e c body preview st = (r, st')"
    and "solves (at_db st') \<noteq> solves (at_db st)"
    and "identify c body (at_db st) = Inr (cid, u, ch)" "ch_require_deploy ch" "ev_running e cid (us_team_id u)"
  shows "r = Inl TypeError"
  using assms(2)
proof (cases rule: attempt_post_cases)
  case same
  then show ?thesis using assms(3) by (simp add: solves_def solve_of_def[abs_def])
next
  case (judged cid' u' ch' t cls d')
  then have eq: "cid' = cid" "u' = u" "ch' = ch" using assms(4) by auto
  from judged(6) show ?thesis
  proof (cases rule: judge_cases)
    case same
    then show ?thesis using assms(3) judged(7) by simp
  next
    case failed
    then show ?thesis using assms(1,3) judged(7) fail_solves by simp
  next
    case (solved b m limit)
    have "b" using solved(1) assms(3) judged(7) by (cases b) (auto elim: solve_Inr_cases)
    then show ?thesis using solved(8) assms(5,6) eq by simp
  qed
qed

text \<open>
  Also proved: once an attempt has started a cooldown for a challenge and a team, every attempt
  under the same pair is turned away until it has passed, and no other pair is affected.
  Accounts without a team all share the pair with no team.
\<close>

theorem cooldown_enforced:
  assumes "cooldown_check now cid ch team store = Inr store'" "0 < cooldown_of ch"
    and "later - now < of_int (cooldown_of ch)"
  shows "(\<exists>m. cooldown_check later cid ch team store' = Inl (Answer (reply 429 ''ratelimited'' m))) \<and>
    (\<forall>cid' ch' team'. (cid', team') = (cid, team) \<or> map_of store' (cid', team') = map_of store (cid', team'))"
proof -
  from assms(1,2) have "map_of store' = (map_of store)((cid, team) \<mapsto> now)"
    by (auto simp: cooldown_check_def answer_now_def split: option.splits if_splits)
  with assms(2,3) show ?thesis by (auto simp: cooldown_check_def answer_now_def)
qed

section \<open>Witnesses\<close>

definition sample_flag :: flag where
  "sample_flag = \<lparr>fl_id = 1, fl_challenge_id = Some 3, fl_type = Some ''static'', fl_content = Some ''flag'',
     fl_data = None\<rparr>"

definition play_state :: "user \<Rightarrow> bool \<Rightarrow> attempt_state" where
  "play_state u deploy = \<lparr>at_db = empty_db\<lparr>users := [u], tokens := [sample_token], flags := [sample_flag],
     challenges := [(sample_challenge 3 (Some 100))\<lparr>ch_require_deploy := deploy\<rparr>]\<rparr>, at_cooldowns = []\<rparr>"

definition play_env :: "bool \<Rightarrow> env" where
  "play_env running = \<lparr>ev_re_compiles = (\<lambda>_ _. False), ev_re_match = (\<lambda>_ _ _. None),
     ev_classes = standard_class, ev_running = (\<lambda>_ _. running), ev_ip = ''ip''\<rparr>"

definition play_ctx :: "user \<Rightarrow> rat \<Rightarrow> ctx" where
  "play_ctx u now = (sample_ctx u None ''POST'' None)\<lparr>cx_conf := mode_conf ''users'', cx_now := now\<rparr>"

definition play_body :: pyval where
  "play_body = PDict [(''challengeId'', PInt 3), (''submission'', PStr ''flag'')]"

lemma play_state_ok [simp]: "scoring_ok (at_db (play_state u b))"
  by (simp add: play_state_def scoring_ok_def empty_db_def List.map_filter_def)

theorem attempt_keeps_invariant_witness:
  "scoring_ok (at_db (snd (challenge_attempt (play_env False) (play_ctx (sample_user 7 None) 1) play_body False
     (play_state (sample_user 7 None) False))))"
  by (rule attempt_keeps_invariant) simp

theorem attempt_scores_only_if_witness:
  "list_ex (\<lambda>f. flag_matches (ev_re_match (play_env False)) f ''flag'') (flags_of (at_db (play_state (sample_user 7 None) False)) 3)"
proof -
  let ?st = "play_state (sample_user 7 None) False"
  let ?p = "attempt_post (play_env False) (play_ctx (sample_user 7 None) 1) play_body False ?st"
  have "solves (at_db (snd ?p)) \<noteq> solves (at_db ?st)" by code_simp
  from attempt_scores_only_if[OF play_state_ok surjective_pairing this]
  obtain cid u ch where "identify (play_ctx (sample_user 7 None) 1) play_body (at_db ?st) = Inr (cid, u, ch)"
    and ex: "list_ex (\<lambda>f. flag_usable (ev_re_compiles (play_env False)) (ev_re_match (play_env False)) f
        (py_strip (submitted play_body)) \<and>
      flag_matches (ev_re_match (play_env False)) f (py_strip (submitted play_body))) (flags_of (at_db ?st) cid)"
    by blast
  moreover have "identify (play_ctx (sample_user 7 None) 1) play_body (at_db ?st) =
      Inr (3, sample_user 7 None, sample_challenge 3 (Some 100))" by code_simp
  moreover have "py_strip (submitted play_body) = ''flag''" by code_simp
  ultimately show ?thesis by (auto simp: list_ex_iff)
qed

theorem running_instance_error_witness:
  "fst (attempt_post (play_env True) (play_ctx (sample_user 7 None) 1) play_body False
     (play_state (sample_user 7 None) True)) = Inl TypeError"
proof -
  let ?st = "play_state (sample_user 7 None) True"
  let ?p = "attempt_post (play_env True) (play_ctx (sample_user 7 None) 1) play_body False ?st"
  have s: "solves (at_db (snd ?p)) \<noteq> solves (at_db ?st)" by code_simp
  have i: "identify (play_ctx (sample_user 7 None) 1) play_body (at_db ?st) =
      Inr (3, sample_user 7 None, (sample_challenge 3 (Some 100))\<lparr>ch_require_deploy := True\<rparr>)" by code_simp
  have "ch_require_deploy ((sample_challenge 3 (Some 100))\<lparr>ch_require_deploy := True\<rparr>)"
    "ev_running (play_env True) 3 (us_team_id (sample_user 7 None))"
    by (simp_all add: play_env_def)
  then show ?thesis by (rule running_instance_error[OF play_state_ok surjective_pairing s i])
qed

theorem cooldown_enforced_witness:
  "\<exists>m. cooldown_check 12 3 ((sample_challenge 3 None)\<lparr>ch_cooldown := Some 5\<rparr>) None [((3, None), 10)] =
     Inl (Answer (reply 429 ''ratelimited'' m))"
proof -
  have "cooldown_check 10 3 ((sample_challenge 3 None)\<lparr>ch_cooldown := Some 5\<rparr>) None [] = Inr [((3, None), 10)]"
    by code_simp
  moreover have "0 < cooldown_of ((sample_challenge 3 None)\<lparr>ch_cooldown := Some 5\<rparr>)"
    "(12 :: rat) - 10 < of_int (cooldown_of ((sample_challenge 3 None)\<lparr>ch_cooldown := Some 5\<rparr>))"
    by (simp_all add: cooldown_of_def)
  ultimately show ?thesis using cooldown_enforced by blast
qed

text \<open>
  Also proved: the handler asks neither for the expiry of the token nor for a ban: a banned
  user whose token has expired submits a correct answer and the solve is recorded, although
  \<open>lookup_user_token\<close> rejects the same token and \<open>is_banned\<close> knows the ban.  (The
  pipeline's token step stops JSON requests with such a token; form submissions pass it.)
\<close>

theorem expired_token_of_banned_user_scores:
  "lookup_user_token (at_db (play_state banned_user False)) (utcnow (play_ctx banned_user 1)) ''tok'' =
     Inl UserTokenExpiredException \<and>
   is_banned (play_ctx banned_user 1) = Inr (Some True) \<and>
   fst (attempt_post (play_env False) (play_ctx banned_user 1) play_body False (play_state banned_user False)) =
     Inr (reply 200 ''correct'' ''Correct'') \<and>
   length (solves (at_db (snd (attempt_post (play_env False) (play_ctx banned_user 1) play_body False
     (play_state banned_user False))))) = 1"
  by (intro conjI; code_simp)

end
