(* ===== verification/Standings.thy ===== *)
theory Standings imports Scoring "HOL-Library.Option_ord" "HOL-Library.Multiset" begin

text \<open>
  \<^verbatim>\<open>CTFd/utils/scores/__init__.py\<close>: the three scoreboards, the counts the administrators
  see and the badges.  Each scoreboard is an SQL query: contributions are grouped per owner once
  for solves and once for awards, the two groupings are added up, joined with the accounts,
  filtered, ordered and limited.  Nulls come first in ascending order, as in MariaDB, and rows that
  the \<open>ORDER BY\<close> leaves tied come in primary-key order.  The optional extra columns
  (\<open>fields\<close>) no caller passes are left out.
\<close>

section \<open>Contributions\<close>

record contribution =
  co_owner :: "int option"
  co_value :: int
  co_id :: "int option"
  co_date :: date

text \<open>The inner join with the challenges and \<open>Challenges.value != 0\<close>, which a null fails.\<close>

definition solve_contribution :: "db \<Rightarrow> (submission \<Rightarrow> int option) \<Rightarrow> submission \<Rightarrow> contribution option" where
  "solve_contribution d owner s = (case solve_value d s of None \<Rightarrow> None
     | Some v \<Rightarrow> if v = 0 then None
        else Some \<lparr>co_owner = owner s, co_value = v, co_id = Some (sub_id s), co_date = sub_date s\<rparr>)"

definition award_contribution :: "(award \<Rightarrow> int option) \<Rightarrow> award \<Rightarrow> contribution option" where
  "award_contribution owner a = (case aw_value a of None \<Rightarrow> None
     | Some v \<Rightarrow> if v = 0 then None
        else Some \<lparr>co_owner = owner a, co_value = v, co_id = Some (aw_id a), co_date = aw_date a\<rparr>)"

text \<open>\<open>MAX\<close> ignores nulls and is null on nothing else.\<close>

definition greatest :: "int option list \<Rightarrow> int option" where
  "greatest xs = foldr max xs None"

definition tally :: "contribution list \<Rightarrow> int option \<Rightarrow> contribution" where
  "tally cs x = (let g = filter (\<lambda>c. co_owner c = x) cs in
     \<lparr>co_owner = x, co_value = sum_list (map co_value g), co_id = greatest (map co_id g),
      co_date = greatest (map co_date g)\<rparr>)"

definition group_by_owner :: "contribution list \<Rightarrow> contribution list" where
  "group_by_owner cs = map (tally cs) (remdups (map co_owner cs))"

definition contributions ::
  "int option \<Rightarrow> (submission \<Rightarrow> int option) \<Rightarrow> (award \<Rightarrow> int option) \<Rightarrow> db \<Rightarrow> contribution list \<times> contribution list" where
  "contributions b sowner aowner d =
     (filter (\<lambda>c. visible_at b (co_date c)) (List.map_filter (solve_contribution d sowner) (solves d)),
      filter (\<lambda>c. visible_at b (co_date c)) (List.map_filter (award_contribution aowner) (awards d)))"

definition sumscores ::
  "int option \<Rightarrow> (submission \<Rightarrow> int option) \<Rightarrow> (award \<Rightarrow> int option) \<Rightarrow> db \<Rightarrow> contribution list" where
  "sumscores b sowner aowner d = (let (ss, aws) = contributions b sowner aowner d in
     group_by_owner (group_by_owner ss @ group_by_owner aws))"

section \<open>Ranking\<close>

text \<open>What the queries select of a user or a team.\<close>

record entrant =
  en_id :: int
  en_oauth_id :: "int option"
  en_name :: string
  en_bracket_id :: "int option"
  en_team_id :: "int option"
  en_hidden :: "bool option"
  en_banned :: "bool option"

definition user_entrant :: "user \<Rightarrow> entrant" where
  "user_entrant u = \<lparr>en_id = us_id u, en_oauth_id = us_oauth_id u, en_name = us_name u,
     en_bracket_id = us_bracket_id u, en_team_id = us_team_id u, en_hidden = us_hidden u,
     en_banned = us_banned u\<rparr>"

definition team_entrant :: "team \<Rightarrow> entrant" where
  "team_entrant t = \<lparr>en_id = te_id t, en_oauth_id = te_oauth_id t, en_name = te_name t,
     en_bracket_id = te_bracket_id t, en_team_id = None, en_hidden = te_hidden t,
     en_banned = te_banned t\<rparr>"

definition public :: "entrant \<Rightarrow> bool" where
  "public e = (en_banned e = Some False \<and> en_hidden e = Some False)"

text \<open>The key of \<open>ORDER BY score DESC, date ASC, id ASC\<close>.\<close>

datatype rank = Rank (rk_score: int) (rk_date: "int option") (rk_id: "int option")

instantiation rank :: linorder
begin

definition less_eq_rank :: "rank \<Rightarrow> rank \<Rightarrow> bool" where
  "less_eq_rank a b = (rk_score b < rk_score a \<or> rk_score a = rk_score b \<and>
     (rk_date a < rk_date b \<or> rk_date a = rk_date b \<and> rk_id a \<le> rk_id b))"

definition less_rank :: "rank \<Rightarrow> rank \<Rightarrow> bool" where
  "less_rank a b = (a \<le> b \<and> a \<noteq> b)"

instance
proof
  fix x y z :: rank
  show "(x < y) = (x \<le> y \<and> \<not> y \<le> x)"
    by (cases x; cases y) (auto simp: less_rank_def less_eq_rank_def)
  show "x \<le> x" by (simp add: less_eq_rank_def)
  show "x \<le> y \<Longrightarrow> y \<le> z \<Longrightarrow> x \<le> z"
    by (auto simp: less_eq_rank_def)
  show "x \<le> y \<Longrightarrow> y \<le> x \<Longrightarrow> x = y"
    by (cases x; cases y) (auto simp: less_eq_rank_def)
  show "x \<le> y \<or> y \<le> x"
    by (auto simp: less_eq_rank_def)
qed

end

record standing =
  sd_entrant :: entrant
  sd_bracket_name :: "string option"
  sd_score :: int
  sd_date :: date
  sd_last :: "int option"

definition rank_of :: "standing \<Rightarrow> rank" where
  "rank_of s = Rank (sd_score s) (sd_date s) (sd_last s)"

definition bracket_name :: "db \<Rightarrow> int option \<Rightarrow> string option" where
  "bracket_name d b = (case b of None \<Rightarrow> None
     | Some i \<Rightarrow> (case first_where (\<lambda>r. br_id r = i) (brackets d) of None \<Rightarrow> None | Some r \<Rightarrow> br_name r))"

text \<open>The join of an account with the grouped scores, outer or inner.\<close>

definition joined :: "db \<Rightarrow> bool \<Rightarrow> contribution list \<Rightarrow> entrant \<Rightarrow> standing option" where
  "joined d outer totals e = (case first_where (\<lambda>c. co_owner c = Some (en_id e)) totals of
      None \<Rightarrow> if outer then Some \<lparr>sd_entrant = e, sd_bracket_name = bracket_name d (en_bracket_id e),
                sd_score = 0, sd_date = None, sd_last = None\<rparr> else None
    | Some c \<Rightarrow> Some \<lparr>sd_entrant = e, sd_bracket_name = bracket_name d (en_bracket_id e),
                sd_score = co_value c, sd_date = co_date c, sd_last = co_id c\<rparr>)"

definition limit_rows :: "nat option \<Rightarrow> 'r list \<Rightarrow> 'r list" where
  "limit_rows n rs = (case n of None \<Rightarrow> rs | Some k \<Rightarrow> take k rs)"

definition listed :: "bool \<Rightarrow> int option \<Rightarrow> entrant \<Rightarrow> bool" where
  "listed admin bracket e = ((admin \<or> public e) \<and> (bracket \<noteq> None \<longrightarrow> en_bracket_id e = bracket))"

definition ranking ::
  "db \<Rightarrow> bool \<Rightarrow> contribution list \<Rightarrow> entrant list \<Rightarrow> nat option \<Rightarrow> int option \<Rightarrow> bool \<Rightarrow> standing list" where
  "ranking d outer totals es n bracket admin =
     limit_rows n (sort_key rank_of (List.map_filter (joined d outer totals) (filter (listed admin bracket) es)))"

text \<open>\<open>Solves.account_id\<close> is \<open>None\<close> in neither mode, and has no label.\<close>

definition account_entrants :: "config \<Rightarrow> db \<Rightarrow> py_exc + entrant list" where
  "account_entrants conf d = (case get_model conf of
      None \<Rightarrow> Inl AttributeError
    | Some ModelUsers \<Rightarrow> Inr (map user_entrant (users d))
    | Some ModelTeams \<Rightarrow> Inr (map team_entrant (teams d)))"

definition get_standings ::
  "config \<Rightarrow> db \<Rightarrow> nat option \<Rightarrow> int option \<Rightarrow> bool \<Rightarrow> py_exc + standing list" where
  "get_standings conf d n bracket admin =
     bindE (account_entrants conf d) (\<lambda>es.
     bindE (freeze_bound conf admin) (\<lambda>b.
     Inr (ranking d True (sumscores b (submission_account_id conf) (award_account_id conf) d) es
       n bracket admin)))"

definition get_team_standings ::
  "config \<Rightarrow> db \<Rightarrow> nat option \<Rightarrow> int option \<Rightarrow> bool \<Rightarrow> py_exc + standing list" where
  "get_team_standings conf d n bracket admin =
     bindE (freeze_bound conf admin) (\<lambda>b.
     Inr (ranking d False (sumscores b sub_team_id aw_team_id d) (map team_entrant (teams d))
       n bracket admin))"

definition get_user_standings ::
  "config \<Rightarrow> db \<Rightarrow> nat option \<Rightarrow> int option \<Rightarrow> bool \<Rightarrow> py_exc + standing list" where
  "get_user_standings conf d n bracket admin =
     bindE (freeze_bound conf admin) (\<lambda>b.
     Inr (ranking d True (sumscores b sub_user_id aw_user_id d) (map user_entrant (users d))
       n bracket admin))"

section \<open>Places\<close>

text \<open>\<open>s[k::n]\<close>\<close>

function every :: "nat \<Rightarrow> 'a list \<Rightarrow> 'a list" where
  "every n xs = (if xs = [] \<or> n = 0 then [] else hd xs # every n (drop n xs))"
  by pat_completeness auto
termination
  by (relation "measure (\<lambda>(n, xs). length xs)") (auto simp: length_greater_0_conv)

declare every.simps [simp del]

definition ordinalize :: "nat \<Rightarrow> string" where
  "ordinalize n = (let k = n mod 10;
     i = (if n div 10 mod 10 \<noteq> 1 then 1 else 0) * (if k < 4 then 1 else 0) * k in
     show_int (int n) @ every 4 (drop i ''tsnrhtdd''))"

fun place_in :: "int \<Rightarrow> standing list \<Rightarrow> nat option" where
  "place_in i [] = None"
| "place_in i (s # ss) = (if en_id (sd_entrant s) = i then Some 1 else map_option Suc (place_in i ss))"

definition place_value :: "bool \<Rightarrow> nat option \<Rightarrow> pyval" where
  "place_value as_number p = (case p of None \<Rightarrow> PNone
     | Some n \<Rightarrow> if as_number then PInt (int n) else PStr (ordinalize n))"

definition user_get_place :: "config \<Rightarrow> db \<Rightarrow> user \<Rightarrow> bool \<Rightarrow> bool \<Rightarrow> py_exc + pyval" where
  "user_get_place conf d u admin as_number =
     bindE (get_user_standings conf d None None admin) (\<lambda>rows.
       Inr (place_value as_number (place_in (us_id u) rows)))"

definition team_get_place :: "config \<Rightarrow> db \<Rightarrow> team \<Rightarrow> bool \<Rightarrow> bool \<Rightarrow> py_exc + pyval" where
  "team_get_place conf d t admin as_number =
     bindE (get_team_standings conf d None None admin) (\<lambda>rows.
       Inr (place_value as_number (place_in (te_id t) rows)))"

section \<open>What a grouped score is\<close>

text \<open>The sum over all contributions of an owner, whatever the order they are grouped in.\<close>

definition owned :: "int option \<Rightarrow> contribution list \<Rightarrow> contribution list" where
  "owned x cs = filter (\<lambda>c. co_owner c = x) cs"

lemma owned_append [simp]: "owned x (as @ bs) = owned x as @ owned x bs"
  by (simp add: owned_def)

lemma owned_eq_Nil: "owned x cs = [] \<longleftrightarrow> x \<notin> co_owner ` set cs"
  by (auto simp: owned_def filter_empty_conv)

lemma tally_eq:
  "tally cs x = \<lparr>co_owner = x, co_value = sum_list (map co_value (owned x cs)),
     co_id = greatest (map co_id (owned x cs)), co_date = greatest (map co_date (owned x cs))\<rparr>"
  by (simp add: tally_def owned_def Let_def)

lemma co_owner_tally [simp]: "co_owner (tally cs x) = x"
  by (simp add: tally_eq)

lemma greatest_append [simp]: "greatest (xs @ ys) = max (greatest xs) (greatest ys)"
proof (induction xs)
  case Nil
  have "max None (greatest ys) = greatest ys"
    by (cases "greatest ys") (auto simp: max_def)
  then show ?case by (simp add: greatest_def)
qed (simp add: greatest_def max.assoc)

lemma greatest_simps [simp]: "greatest [] = None" "greatest [x] = x"
  by (cases x; simp add: greatest_def max_def)+

lemma filter_map_unique:
  "distinct xs \<Longrightarrow> (\<And>x. key (f x) = x) \<Longrightarrow>
   filter (\<lambda>c. key c = x) (map f xs) = (if x \<in> set xs then [f x] else [])"
  by (induction xs) auto

lemma owned_group_by_owner:
  "owned x (group_by_owner cs) = (if owned x cs = [] then [] else [tally cs x])"
  unfolding group_by_owner_def owned_def
  by (subst filter_map_unique) (auto simp: filter_empty_conv)

lemma first_where_owner:
  "first_where (\<lambda>c. co_owner c = x) cs = (case owned x cs of [] \<Rightarrow> None | c # _ \<Rightarrow> Some c)"
  unfolding owned_def by (induction cs) auto

text \<open>Grouping twice is grouping once: the union of the two groupings tells no difference.\<close>

lemma tally_regroup:
  "tally (group_by_owner as @ group_by_owner bs) x = tally (as @ bs) x"
  by (simp add: tally_eq owned_group_by_owner)

lemma sumscores_owner:
  "first_where (\<lambda>c. co_owner c = x) (sumscores b so ao d) =
     (let (ss, aws) = contributions b so ao d in
      if owned x (ss @ aws) = [] then None else Some (tally (ss @ aws) x))"
  by (simp add: sumscores_def first_where_owner owned_group_by_owner tally_regroup Let_def
      split: prod.split)

section \<open>The score of an owner\<close>

text \<open>
  The reference: the values of the solves and the awards of an owner that are visible, a null
  counting nothing.
\<close>

definition score_of ::
  "int option \<Rightarrow> (submission \<Rightarrow> int option) \<Rightarrow> (award \<Rightarrow> int option) \<Rightarrow> db \<Rightarrow> int \<Rightarrow> int" where
  "score_of b so ao d i =
     sum_values (map (solve_value d) (filter (\<lambda>s. so s = Some i \<and> visible_at b (sub_date s)) (solves d))) +
     sum_values (map aw_value (filter (\<lambda>a. ao a = Some i \<and> visible_at b (aw_date a)) (awards d)))"

lemma map_filter_simps [simp]:
  "List.map_filter f [] = []"
  "List.map_filter f (x # xs) = (case f x of None \<Rightarrow> List.map_filter f xs | Some y \<Rightarrow> y # List.map_filter f xs)"
  by (simp_all add: List.map_filter_def split: option.split)

lemma contributed_solves:
  "sum_list (map co_value (owned x (filter (\<lambda>c. visible_at b (co_date c))
     (List.map_filter (solve_contribution d so) ss)))) =
   sum_values (map (solve_value d) (filter (\<lambda>s. so s = x \<and> visible_at b (sub_date s)) ss))"
  by (induction ss) (auto simp: owned_def solve_contribution_def split: option.splits)

lemma contributed_awards:
  "sum_list (map co_value (owned x (filter (\<lambda>c. visible_at b (co_date c))
     (List.map_filter (award_contribution ao) ss)))) =
   sum_values (map aw_value (filter (\<lambda>a. ao a = x \<and> visible_at b (aw_date a)) ss))"
  by (induction ss) (auto simp: owned_def award_contribution_def split: option.splits)

lemma joined_score:
  "joined d outer (sumscores b so ao d) e = Some s \<Longrightarrow>
   sd_entrant s = e \<and> sd_score s = score_of b so ao d (en_id e)"
  by (auto simp: joined_def sumscores_owner contributions_def Let_def tally_eq score_of_def
      contributed_solves[symmetric] contributed_awards[symmetric] split: option.splits if_splits)

lemma joined_outer: "joined d True totals e \<noteq> None"
  by (simp add: joined_def split: option.split)

text \<open>The inner join drops an account exactly when it has no contribution at all.\<close>

definition contributes ::
  "int option \<Rightarrow> (submission \<Rightarrow> int option) \<Rightarrow> (award \<Rightarrow> int option) \<Rightarrow> db \<Rightarrow> int \<Rightarrow> bool" where
  "contributes b so ao d i =
     (list_ex (\<lambda>s. so s = Some i \<and> visible_at b (sub_date s) \<and> solve_value d s \<notin> {None, Some 0}) (solves d) \<or>
      list_ex (\<lambda>a. ao a = Some i \<and> visible_at b (aw_date a) \<and> aw_value a \<notin> {None, Some 0}) (awards d))"

lemma owned_solves_Nil:
  "owned (Some i) (filter (\<lambda>c. visible_at b (co_date c)) (List.map_filter (solve_contribution d so) ss)) = [] \<longleftrightarrow>
   \<not> list_ex (\<lambda>s. so s = Some i \<and> visible_at b (sub_date s) \<and> solve_value d s \<notin> {None, Some 0}) ss"
  by (induction ss) (auto simp: owned_def solve_contribution_def split: option.splits)

lemma owned_awards_Nil:
  "owned (Some i) (filter (\<lambda>c. visible_at b (co_date c)) (List.map_filter (award_contribution ao) ss)) = [] \<longleftrightarrow>
   \<not> list_ex (\<lambda>a. ao a = Some i \<and> visible_at b (aw_date a) \<and> aw_value a \<notin> {None, Some 0}) ss"
  by (induction ss) (auto simp: owned_def award_contribution_def split: option.splits)

lemma joined_inner:
  "joined d False (sumscores b so ao d) e \<noteq> None \<longleftrightarrow> contributes b so ao d (en_id e)"
  by (simp add: joined_def sumscores_owner contributions_def contributes_def owned_solves_Nil
      owned_awards_Nil split: option.split)

section \<open>What every scoreboard promises\<close>

text \<open>
  The contract the places and the views rely on: a limited board is the head of the whole one,
  rows are in rank order, each listed account that counts has exactly one row, with its score.
\<close>

locale scoreboard =
  fixes board :: "config \<Rightarrow> db \<Rightarrow> nat option \<Rightarrow> int option \<Rightarrow> bool \<Rightarrow> py_exc + standing list"
    and entrants :: "config \<Rightarrow> db \<Rightarrow> entrant list"
    and counts :: "int option \<Rightarrow> config \<Rightarrow> db \<Rightarrow> int \<Rightarrow> bool"
    and score :: "int option \<Rightarrow> config \<Rightarrow> db \<Rightarrow> int \<Rightarrow> int"
  assumes limited: "board conf d (Some n) br adm = bindE (board conf d None br adm) (\<lambda>rows. Inr (take n rows))"
    and ordered: "board conf d None br adm = Inr rows \<Longrightarrow> sorted (map rank_of rows)"
    and content: "board conf d None br adm = Inr rows \<Longrightarrow> freeze_bound conf adm = Inr b \<Longrightarrow>
      mset (map sd_entrant rows) =
      mset (filter (\<lambda>e. listed adm br e \<and> counts b conf d (en_id e)) (entrants conf d))"
    and scored: "board conf d None br adm = Inr rows \<Longrightarrow> freeze_bound conf adm = Inr b \<Longrightarrow>
      s \<in> set rows \<Longrightarrow> sd_score s = score b conf d (en_id (sd_entrant s))"
    and frozen: "board conf d None br adm = Inr rows \<Longrightarrow> \<exists>b. freeze_bound conf adm = Inr b"
begin

lemma members:
  assumes "board conf d None br adm = Inr rows" "freeze_bound conf adm = Inr b"
  shows "sd_entrant ` set rows = {e \<in> set (entrants conf d). listed adm br e \<and> counts b conf d (en_id e)}"
  using arg_cong[OF content[OF assms], of set_mset] by auto

lemma one_row:
  assumes "board conf d None br adm = Inr rows" "distinct (map en_id (entrants conf d))"
  shows "distinct (map (en_id \<circ> sd_entrant) rows)"
proof -
  obtain b where b: "freeze_bound conf adm = Inr b" using frozen[OF assms(1)] by blast
  let ?es = "filter (\<lambda>e. listed adm br e \<and> counts b conf d (en_id e)) (entrants conf d)"
  have "mset (map en_id (map sd_entrant rows)) = mset (map en_id ?es)"
    using arg_cong[OF content[OF assms(1) b], of "image_mset en_id"] by (simp only: mset_map)
  moreover have "distinct (map en_id ?es)" by (rule distinct_map_filter[OF assms(2)])
  ultimately have "distinct (map en_id (map sd_entrant rows))"
    by (metis mset_eq_imp_distinct_iff)
  then show ?thesis by simp
qed

lemma head_scores:
  assumes "board conf d (Some n) br adm = Inr best" "board conf d None br adm = Inr rows"
    and "s \<in> set best" "t \<in> set rows" "t \<notin> set best"
  shows "sd_score t \<le> sd_score s"
proof -
  have best: "best = take n rows" using assms(1,2) by (simp add: limited)
  have "t \<in> set (drop n rows)"
    using assms(4,5) best by (metis UnE append_take_drop_id set_append)
  moreover have "sorted (map rank_of (take n rows @ drop n rows))"
    using ordered[OF assms(2)] by simp
  ultimately have "rank_of s \<le> rank_of t"
    using assms(3) best unfolding map_append sorted_append by auto
  then show ?thesis by (auto simp: less_eq_rank_def rank_of_def)
qed

lemma better_first:
  assumes "board conf d None br adm = Inr rows" "i < length rows" "j < length rows"
    and "sd_score (rows ! j) < sd_score (rows ! i)"
  shows "i < j"
proof (rule ccontr)
  assume "\<not> i < j"
  then have "rank_of (rows ! j) \<le> rank_of (rows ! i)"
    using sorted_nth_mono[OF ordered[OF assms(1)], of j i] assms(2,3) by simp
  then show False using assms(4) by (auto simp: less_eq_rank_def rank_of_def)
qed

end

lemma place_in_Some:
  "place_in i rows = Some p \<Longrightarrow> 1 \<le> p \<and> p \<le> length rows \<and> en_id (sd_entrant (rows ! (p - 1))) = i"
proof (induction rows arbitrary: p)
  case (Cons s ss)
  show ?case
  proof (cases "en_id (sd_entrant s) = i")
    case False
    with Cons.prems obtain q where q: "place_in i ss = Some q" "p = Suc q" by auto
    then show ?thesis using Cons.IH[OF q(1)] by (auto simp: nth_Cons')
  qed (use Cons.prems in auto)
qed simp

lemma place_in_None: "place_in i rows = None \<longleftrightarrow> i \<notin> (en_id \<circ> sd_entrant) ` set rows"
  by (induction rows) auto

lemma map_filter_joined:
  "(\<And>e s. e \<in> set es \<Longrightarrow> f e = Some s \<Longrightarrow> sd_entrant s = e) \<Longrightarrow>
   map sd_entrant (List.map_filter f es) = filter (\<lambda>e. f e \<noteq> None) es"
  by (induction es) (auto split: option.splits)

lemma map_filter_joined_score:
  "s \<in> set (List.map_filter (joined d outer (sumscores b so ao d)) es) \<Longrightarrow>
   sd_score s = score_of b so ao d (en_id (sd_entrant s))"
  by (auto simp: set_map_filter dest: joined_score)

lemma joined_some:
  "joined d outer (sumscores b so ao d) e \<noteq> None \<longleftrightarrow> outer \<or> contributes b so ao d (en_id e)"
  by (cases outer) (simp_all only: joined_outer joined_inner simp_thms)

lemma ranking_content:
  "mset (map sd_entrant (ranking d outer (sumscores b so ao d) es None br adm)) =
   mset (filter (\<lambda>e. listed adm br e \<and> (outer \<or> contributes b so ao d (en_id e))) es)"
proof -
  have "mset (map sd_entrant (ranking d outer (sumscores b so ao d) es None br adm)) =
      mset (map sd_entrant (List.map_filter (joined d outer (sumscores b so ao d)) (filter (listed adm br) es)))"
    by (simp add: ranking_def limit_rows_def)
  also have "map sd_entrant (List.map_filter (joined d outer (sumscores b so ao d)) (filter (listed adm br) es)) =
      filter (\<lambda>e. joined d outer (sumscores b so ao d) e \<noteq> None) (filter (listed adm br) es)"
    by (rule map_filter_joined) (auto dest: joined_score)
  also have "\<dots> = filter (\<lambda>e. listed adm br e \<and> (outer \<or> contributes b so ao d (en_id e))) es"
    unfolding filter_filter joined_some by (rule refl)
  finally show ?thesis .
qed

lemma ranking_sorted: "sorted (map rank_of (ranking d outer totals es None br adm))"
  by (simp add: ranking_def limit_rows_def sorted_sort_key)

lemma ranking_take: "ranking d outer totals es (Some n) br adm = take n (ranking d outer totals es None br adm)"
  by (simp add: ranking_def limit_rows_def)

lemma ranking_score:
  "s \<in> set (ranking d outer (sumscores b so ao d) es None br adm) \<Longrightarrow>
   sd_score s = score_of b so ao d (en_id (sd_entrant s))"
  by (auto simp: ranking_def limit_rows_def dest: map_filter_joined_score)

lemma ranking_mset:
  "image_mset sd_entrant (mset (ranking d outer (sumscores b so ao d) es None br adm)) =
   filter_mset (\<lambda>e. listed adm br e \<and> (outer \<or> contributes b so ao d (en_id e))) (mset es)"
  using ranking_content[of d outer b so ao es br adm] by simp

lemmas ranking_facts = ranking_mset bindE_assoc ranking_sorted ranking_take ranking_score

interpretation team_board: scoreboard get_team_standings "\<lambda>conf d. map team_entrant (teams d)"
  "\<lambda>b conf d. contributes b sub_team_id aw_team_id d" "\<lambda>b conf d. score_of b sub_team_id aw_team_id d"
  by unfold_locales (auto simp: get_team_standings_def monad_simps ranking_facts)

interpretation user_board: scoreboard get_user_standings "\<lambda>conf d. map user_entrant (users d)"
  "\<lambda>b conf d i. True" "\<lambda>b conf d. score_of b sub_user_id aw_user_id d"
  by unfold_locales (auto simp: get_user_standings_def monad_simps ranking_facts)

definition entrants_of :: "config \<Rightarrow> db \<Rightarrow> entrant list" where
  "entrants_of conf d = (case account_entrants conf d of Inr es \<Rightarrow> es | Inl _ \<Rightarrow> [])"

interpretation account_board: scoreboard get_standings entrants_of
  "\<lambda>b conf d i. True" "\<lambda>b conf d. score_of b (submission_account_id conf) (award_account_id conf) d"
  by unfold_locales (auto simp: get_standings_def entrants_of_def monad_simps ranking_facts)

section \<open>Properties\<close>

lemma score_of_users:
  "raw_freeze row admin = Inr b \<Longrightarrow>
   user_get_score d row u admin = Inr (score_of b sub_user_id aw_user_id d (us_id u))"
  by (simp add: user_get_score_def score_of_def)

text \<open>
  Property C10: the standings of the current mode list each account once, exactly the accounts of the
  bracket that are neither banned nor hidden (all of them for an administrator), with the sum of
  the values of its visible solves and awards, in the order of score, date of the last contribution and
  row id; a limited board is the head of the whole one.  (The comments of the code promise ties
  by row id alone; the query compares the dates first.)
\<close>

theorem standings_correct:
  assumes "get_standings conf d None br admin = Inr rows" "account_entrants conf d = Inr es"
    and "freeze_bound conf admin = Inr b" "distinct (map en_id es)"
  shows "sorted (map rank_of rows) \<and> distinct (map (en_id \<circ> sd_entrant) rows) \<and>
    sd_entrant ` set rows = {e \<in> set es. listed admin br e} \<and>
    (\<forall>s. s \<in> set rows \<longrightarrow>
      sd_score s = score_of b (submission_account_id conf) (award_account_id conf) d (en_id (sd_entrant s))) \<and>
    get_standings conf d (Some n) br admin = Inr (take n rows)"
proof (intro conjI)
  have es: "entrants_of conf d = es" using assms(2) by (simp add: entrants_of_def)
  show "sorted (map rank_of rows)" by (rule account_board.ordered[OF assms(1)])
  show "distinct (map (en_id \<circ> sd_entrant) rows)"
    using account_board.one_row[OF assms(1)] assms(4) es by simp
  show "sd_entrant ` set rows = {e \<in> set es. listed admin br e}"
    using account_board.members[OF assms(1,3)] es by simp
  show "\<forall>s. s \<in> set rows \<longrightarrow>
      sd_score s = score_of b (submission_account_id conf) (award_account_id conf) d (en_id (sd_entrant s))"
    using account_board.scored[OF assms(1,3)] by simp
  show "get_standings conf d (Some n) br admin = Inr (take n rows)"
    by (simp add: account_board.limited assms(1))
qed

text \<open>
  Property C11: the scoreboard query and \<open>Users.get_score\<close>, which are written separately,
  agree on the score of every listed user, whenever the two readings of the freeze setting agree.
\<close>

theorem standings_agree_with_get_score:
  assumes "get_user_standings conf d n br admin = Inr rows" "s \<in> set rows"
    and "sd_entrant s = user_entrant u" "raw_freeze row admin = freeze_bound conf admin"
  shows "user_get_score d row u admin = Inr (sd_score s)"
proof -
  obtain b where b: "freeze_bound conf admin = Inr b"
    using assms(1) by (auto simp: get_user_standings_def monad_simps)
  obtain all where all: "get_user_standings conf d None br admin = Inr all" "s \<in> set all"
  proof (cases n)
    case (Some k)
    then show thesis using assms(1,2) that
      by (auto simp: user_board.limited bindE_Inr_iff dest: in_set_takeD)
  qed (use assms(1,2) that in simp)
  have "sd_score s = score_of b sub_user_id aw_user_id d (us_id u)"
    using user_board.scored[OF all(1) b all(2)] assms(3) by (simp add: user_entrant_def)
  then show ?thesis using assms(4) b by (simp add: score_of_users)
qed

lemma user_place_row:
  assumes "user_get_place conf d u admin True = Inr (PInt p)"
  obtains rows k b where "get_user_standings conf d None None admin = Inr rows" "freeze_bound conf admin = Inr b"
    "k < length rows" "p = int (Suc k)" "sd_score (rows ! k) = score_of b sub_user_id aw_user_id d (us_id u)"
proof -
  obtain rows q where rows: "get_user_standings conf d None None admin = Inr rows"
    and q: "place_in (us_id u) rows = Some q" "p = int q"
    using assms by (auto simp: user_get_place_def bindE_Inr_iff place_value_def split: option.splits)
  obtain b where b: "freeze_bound conf admin = Inr b" using user_board.frozen[OF rows] by blast
  from place_in_Some[OF q(1)] have "q - 1 < length rows" "en_id (sd_entrant (rows ! (q - 1))) = us_id u" "1 \<le> q"
    by auto
  then show thesis
    using that[OF rows b] user_board.scored[OF rows b, of "rows ! (q - 1)"] q(2) by auto
qed

text \<open>
  Also proved: \<open>Users.get_place\<close> orders users by the scores \<open>Users.get_score\<close>
  computes: whoever has more points has the better place.
\<close>

theorem better_score_better_place:
  assumes "user_get_place conf d u admin True = Inr (PInt p)"
    and "user_get_place conf d v admin True = Inr (PInt q)"
    and "raw_freeze row admin = freeze_bound conf admin"
    and "user_get_score d row u admin = Inr m" "user_get_score d row v admin = Inr n" "n < m"
  shows "p < q"
proof -
  obtain rows k b where u: "get_user_standings conf d None None admin = Inr rows" "freeze_bound conf admin = Inr b"
      "k < length rows" "p = int (Suc k)" "sd_score (rows ! k) = score_of b sub_user_id aw_user_id d (us_id u)"
    by (rule user_place_row[OF assms(1)])
  obtain rows' l b' where v: "get_user_standings conf d None None admin = Inr rows'" "freeze_bound conf admin = Inr b'"
      "l < length rows'" "q = int (Suc l)" "sd_score (rows' ! l) = score_of b' sub_user_id aw_user_id d (us_id v)"
    by (rule user_place_row[OF assms(2)])
  have same: "rows' = rows" "b' = b" using u(1,2) v(1,2) by simp_all
  have "sd_score (rows ! l) < sd_score (rows ! k)"
    using assms(3-6) u(2,5) v(5) same by (simp add: score_of_users)
  then have "k < l" using user_board.better_first[OF u(1,3)] v(3) same by simp
  then show ?thesis using u(4) v(4) by simp
qed

section \<open>Instances\<close>

text \<open>A player with a solve of 100 points, one with an award of 30, and a banned one.\<close>

definition board_db :: db where
  "board_db = empty_db\<lparr>
     users := [sample_user 1 (Some 7), sample_user 2 (Some 7), (sample_user 3 None)\<lparr>us_banned := Some True\<rparr>],
     teams := [sample_team 7 (Some 1)],
     challenges := [sample_challenge 3 (Some 100)],
     submissions := [\<lparr>sub_id = 1, sub_challenge_id = Some 3, sub_user_id = Some 2, sub_team_id = Some 7,
       sub_ip = None, sub_provided = None, sub_type = Some ''correct'', sub_date = Some 5\<rparr>],
     solve_rows := [\<lparr>sv_id = 1, sv_challenge_id = Some 3, sv_user_id = Some 2, sv_team_id = Some 7\<rparr>],
     awards := [\<lparr>aw_id = 1, aw_user_id = Some 1, aw_team_id = Some 7, aw_type = Some ''standard'',
       aw_name = ''bonus'', aw_description = None, aw_date = Some 4, aw_value = Some 30,
       aw_category = None, aw_icon = None, aw_requirements = PNone, aw_request_key = None,
       aw_request_hash = None\<rparr>]\<rparr>"

definition board_rows :: "standing list" where
  "board_rows = [
     \<lparr>sd_entrant = user_entrant (sample_user 2 (Some 7)), sd_bracket_name = None, sd_score = 100,
       sd_date = Some 5, sd_last = Some 1\<rparr>,
     \<lparr>sd_entrant = user_entrant (sample_user 1 (Some 7)), sd_bracket_name = None, sd_score = 30,
       sd_date = Some 4, sd_last = Some 1\<rparr>]"

lemma board_evaluated:
  "get_standings (mode_conf ''users'') board_db None None False = Inr board_rows"
  "get_user_standings (mode_conf ''users'') board_db None None False = Inr board_rows"
  "account_entrants (mode_conf ''users'') board_db = Inr (map user_entrant (users board_db))"
  "freeze_bound (mode_conf ''users'') False = Inr None"
  by code_simp+

theorem standings_correct_witness:
  "sorted (map rank_of board_rows) \<and>
   get_standings (mode_conf ''users'') board_db (Some 1) None False = Inr (take 1 board_rows)"
proof -
  have ids: "distinct (map en_id (map user_entrant (users board_db)))" by code_simp
  show ?thesis using standings_correct[OF board_evaluated(1,3,4) ids] by blast
qed

theorem standings_agree_with_get_score_witness:
  "user_get_score board_db None (sample_user 2 (Some 7)) False = Inr 100"
  using standings_agree_with_get_score[OF board_evaluated(2), of "hd board_rows" "sample_user 2 (Some 7)" None]
  by (simp add: board_rows_def board_evaluated(4))

theorem better_score_better_place_witness:
  "\<exists>p q. user_get_place (mode_conf ''users'') board_db (sample_user 2 (Some 7)) False True = Inr (PInt p) \<and>
     user_get_place (mode_conf ''users'') board_db (sample_user 1 (Some 7)) False True = Inr (PInt q) \<and> p < q"
proof (intro exI conjI)
  show places: "user_get_place (mode_conf ''users'') board_db (sample_user 2 (Some 7)) False True = Inr (PInt 1)"
    "user_get_place (mode_conf ''users'') board_db (sample_user 1 (Some 7)) False True = Inr (PInt 2)"
    by code_simp+
  show "(1::int) < 2"
  proof (rule better_score_better_place[OF places])
    show "user_get_score board_db None (sample_user 2 (Some 7)) False = Inr 100"
      "user_get_score board_db None (sample_user 1 (Some 7)) False = Inr 30"
      "raw_freeze None False = freeze_bound (mode_conf ''users'') False"
      by code_simp+
  qed simp
qed

end
