(* ===== verification/Honours.thy ===== *)
theory Honours imports Standings begin

text \<open>
  The rest of \<^verbatim>\<open>CTFd/utils/scores/__init__.py\<close>: the list of accepted
  submissions, the counts per team and per category that the administrators see, and the badges
  for the first and the last solver of each challenge.  The \<open>ILIKE\<close> match of the
  database is the argument \<open>like\<close>.
\<close>

section \<open>Accepted submissions\<close>

record accepted =
  ap_team_id :: int
  ap_team_name :: string
  ap_challenge_id :: int
  ap_challenge_name :: "string option"
  ap_time :: date
  ap_country :: "string option"

definition of_solve :: "db \<Rightarrow> submission \<Rightarrow> (team \<times> challenge) option" where
  "of_solve d s = (case (sub_team_id s, sub_challenge_id s) of
      (Some t, Some c) \<Rightarrow> (case (team_by_id d t, challenge_by_id d c) of
          (Some tm, Some ch) \<Rightarrow> Some (tm, ch) | _ \<Rightarrow> None)
    | _ \<Rightarrow> None)"

definition shown_team :: "bool \<Rightarrow> team \<Rightarrow> bool" where
  "shown_team admin t = (admin \<or> te_hidden t = Some False \<and> te_banned t = Some False)"

definition accepted_row :: "db \<Rightarrow> int option \<Rightarrow> bool \<Rightarrow> submission \<Rightarrow> accepted option" where
  "accepted_row d challenge_id admin s = (case of_solve d s of
      None \<Rightarrow> None
    | Some (t, c) \<Rightarrow>
        if (challenge_id = None \<or> sub_challenge_id s = challenge_id) \<and> shown_team admin t
        then Some \<lparr>ap_team_id = te_id t, ap_team_name = te_name t, ap_challenge_id = ch_id c,
          ap_challenge_name = ch_name c, ap_time = sub_date s, ap_country = te_country t\<rparr>
        else None)"

text \<open>\<open>Solves\<close> has no \<open>bracket_id\<close>: asking for a bracket raises.\<close>

definition getSubmitStandings ::
  "db \<Rightarrow> nat option \<Rightarrow> int option \<Rightarrow> int option \<Rightarrow> bool \<Rightarrow> py_exc + accepted list" where
  "getSubmitStandings d n bracket challenge_id admin =
     (if bracket \<noteq> None then Inl AttributeError
      else Inr (limit_rows n (sort_key ap_time (List.map_filter (accepted_row d challenge_id admin) (solves d)))))"

record last_row =
  lr_accepted :: accepted
  lr_user_id :: int
  lr_user_name :: string

text \<open>\<open>get_last_submission_user\<close> returns every matching solve, the latest first.\<close>

definition last_submission_row :: "db \<Rightarrow> int option \<Rightarrow> int option \<Rightarrow> submission \<Rightarrow> last_row option" where
  "last_submission_row d challenge_id team_id s = (case accepted_row d challenge_id True s of
      None \<Rightarrow> None
    | Some a \<Rightarrow> (case (case sub_user_id s of None \<Rightarrow> None | Some i \<Rightarrow> user_by_id d i) of
        None \<Rightarrow> None
      | Some u \<Rightarrow> if team_id = None \<or> sub_team_id s = team_id
          then Some \<lparr>lr_accepted = a, lr_user_id = us_id u, lr_user_name = us_name u\<rparr> else None))"

definition get_last_submission_user :: "db \<Rightarrow> int option \<Rightarrow> int option \<Rightarrow> last_row list" where
  "get_last_submission_user d challenge_id team_id =
     sort_desc (\<lambda>r. ap_time (lr_accepted r)) (List.map_filter (last_submission_row d challenge_id team_id) (solves d))"

section \<open>Counts per team\<close>

record team_count =
  tc_team :: team
  tc_solved :: nat

definition containing :: "string \<Rightarrow> string" where
  "containing s = ''%'' @ s @ ''%''"

definition team_solves :: "db \<Rightarrow> team \<Rightarrow> submission list" where
  "team_solves d t = filter (\<lambda>s. sub_team_id s = Some (te_id t)) (solves d)"

definition get_team_challenge_counts ::
  "(string \<Rightarrow> string \<Rightarrow> bool) \<Rightarrow> db \<Rightarrow> string option \<Rightarrow> nat option \<Rightarrow> bool option \<Rightarrow> bool option \<Rightarrow> bool \<Rightarrow> team_count list" where
  "get_team_challenge_counts like d name least hidden banned admin =
     sort_key (\<lambda>r. - int (tc_solved r))
       (filter (\<lambda>r. least = None \<or> the least \<le> tc_solved r)
       (map (\<lambda>t. \<lparr>tc_team = t, tc_solved = length (filter (\<lambda>s. sub_challenge_id s \<noteq> None) (team_solves d t))\<rparr>)
       (filter (\<lambda>t. team_solves d t \<noteq> [] \<and>
          (name = None \<or> name = Some [] \<or> like (te_name t) (containing (the name))) \<and>
          (if admin then (hidden = None \<or> te_hidden t = hidden) \<and> (banned = None \<or> te_banned t = banned)
           else te_hidden t = Some False \<and> te_banned t = Some False)) (teams d))))"

section \<open>Categories cleared\<close>

record topic_row =
  tr_team :: team
  tr_status :: string
  tr_last :: date

record topic_tally =
  tt_team :: team
  tt_count :: nat
  tt_last :: date

definition topic_challenges :: "db \<Rightarrow> string option \<Rightarrow> int list" where
  "topic_challenges d category =
     map ch_id (filter (\<lambda>c. filter_eq (ch_category c) category \<and> ch_state c \<noteq> ''hidden'') (challenges d))"

definition topic_solves :: "db \<Rightarrow> int list \<Rightarrow> team \<Rightarrow> submission list" where
  "topic_solves d ids t = filter (\<lambda>s. is_correct s \<and>
     (case sub_challenge_id s of None \<Rightarrow> False | Some c \<Rightarrow> c \<in> set ids)) (team_solves d t)"

definition topic_tallies ::
  "(string \<Rightarrow> string \<Rightarrow> bool) \<Rightarrow> db \<Rightarrow> string option \<Rightarrow> string option \<Rightarrow> bool \<Rightarrow> int list \<Rightarrow> topic_tally list" where
  "topic_tallies like d name country admin ids =
     map (\<lambda>t. \<lparr>tt_team = t, tt_count = length (topic_solves d ids t),
               tt_last = greatest (map sub_date (topic_solves d ids t))\<rparr>)
       (filter (\<lambda>t. topic_solves d ids t \<noteq> [] \<and> shown_team admin t \<and>
          (name = None \<or> name = Some [] \<or> like (te_name t) (containing (the name))) \<and>
          (country = None \<or> country = Some [] \<or>
            (case te_country t of None \<Rightarrow> False | Some c \<Rightarrow> like c (containing (the country))))) (teams d))"

text \<open>The teams that cleared the category, or else all teams by count and then by date.\<close>

definition topic_rows :: "nat \<Rightarrow> topic_tally list \<Rightarrow> topic_row list" where
  "topic_rows n ts = (let cleared = filter (\<lambda>r. tt_count r = n) ts in
     if cleared \<noteq> []
     then map (\<lambda>r. \<lparr>tr_team = tt_team r, tr_status = ''CLEARED'', tr_last = tt_last r\<rparr>) cleared
     else map (\<lambda>r. \<lparr>tr_team = tt_team r, tr_status = show_int (int (tt_count r)) @ '' solved'', tr_last = tt_last r\<rparr>)
       (sort_key (\<lambda>r. - int (tt_count r)) (sort_key tt_last ts)))"

definition get_teams_cleared_all_challenges_by_topic ::
  "(string \<Rightarrow> string \<Rightarrow> bool) \<Rightarrow> db \<Rightarrow> string option \<Rightarrow> string option \<Rightarrow> bool \<Rightarrow> (string option \<times> topic_row list) list" where
  "get_teams_cleared_all_challenges_by_topic like d name country admin =
     map (\<lambda>category. (category, topic_rows (length (topic_challenges d category))
         (topic_tallies like d name country admin (topic_challenges d category))))
       (filter (\<lambda>category. topic_challenges d category \<noteq> []) (remdups (map ch_category (challenges d))))"

section \<open>Badges\<close>

record assigned =
  as_name :: string
  as_description :: string
  as_team_name :: "string option"
  as_user_name :: "string option"

definition solves_by_date :: "db \<Rightarrow> int \<Rightarrow> submission list" where
  "solves_by_date d cid =
     sort_key sub_date (filter (\<lambda>s. sub_challenge_id s = Some cid \<and> is_correct s) (solves d))"

datatype criterion = FirstBlood | TopScorer

fun criterion_name :: "criterion \<Rightarrow> string" where
  "criterion_name FirstBlood = ''First Blood''"
| "criterion_name TopScorer = ''Top Scorer''"

fun pick :: "criterion \<Rightarrow> submission list \<Rightarrow> submission option" where
  "pick FirstBlood ss = (if ss = [] then None else Some (hd ss))"
| "pick TopScorer ss = (if ss = [] then None else Some (last ss))"

definition holds_badge :: "db \<Rightarrow> int \<Rightarrow> string \<Rightarrow> submission \<Rightarrow> bool" where
  "holds_badge d cid name s = list_ex (\<lambda>a. ac_challenge_id a = Some cid \<and> ac_name a = Some name \<and>
     filter_eq (ac_team_id a) (sub_team_id s) \<and> filter_eq (ac_user_id a) (sub_user_id s)) (achievements d)"

definition ensure_badge :: "int \<Rightarrow> string \<Rightarrow> submission \<Rightarrow> db \<Rightarrow> int \<times> db" where
  "ensure_badge cid name s d =
     (case first_where (\<lambda>b. ab_challenge_id b = Some cid \<and> ab_name b = Some name) (award_badges d) of
        Some b \<Rightarrow> (ab_id b, d)
      | None \<Rightarrow> let i = fresh_id ab_id (award_badges d) in
          (i, d\<lparr>award_badges := award_badges d @ [\<lparr>ab_id = i, ab_user_id = sub_user_id s,
             ab_team_id = sub_team_id s, ab_challenge_id = Some cid, ab_name = Some name\<rparr>]\<rparr>))"

definition describe_award :: "db \<Rightarrow> challenge \<Rightarrow> string \<Rightarrow> submission \<Rightarrow> assigned" where
  "describe_award d ch name s = \<lparr>as_name = name,
     as_description = ''Award for '' @ name @ '' in '' @ (case ch_name ch of None \<Rightarrow> ''None'' | Some n \<Rightarrow> n),
     as_team_name = map_option te_name (case sub_team_id s of None \<Rightarrow> None | Some t \<Rightarrow> team_by_id d t),
     as_user_name = map_option us_name (case sub_user_id s of None \<Rightarrow> None | Some u \<Rightarrow> user_by_id d u)\<rparr>"

definition assign_award :: "db \<times> assigned list \<Rightarrow> challenge \<times> criterion \<Rightarrow> db \<times> assigned list" where
  "assign_award st ct = (let (d, given) = st; (ch, cr) = ct; name = criterion_name cr in
     case pick cr (solves_by_date d (ch_id ch)) of
       None \<Rightarrow> (d, given)
     | Some s \<Rightarrow>
         if holds_badge d (ch_id ch) name s then (d, given)
         else let (b, d') = ensure_badge (ch_id ch) name s d in
           (d'\<lparr>achievements := achievements d' @ [\<lparr>ac_id = fresh_id ac_id (achievements d'),
              ac_user_id = sub_user_id s, ac_team_id = sub_team_id s, ac_challenge_id = Some (ch_id ch),
              ac_name = Some name, ac_achievement_id = Some b\<rparr>]\<rparr>,
            given @ [describe_award d ch name s]))"

definition calculate_and_assign_awards :: "db \<Rightarrow> db \<times> assigned list" where
  "calculate_and_assign_awards d =
     foldl assign_award (d, []) (List.product (challenges d) [FirstBlood, TopScorer])"

section \<open>Clearing a category\<close>

lemma distinct_solves:
  assumes "scoring_ok d"
  shows "distinct (solves d)"
proof -
  have "distinct (map sub_id (submissions d))" using assms by (simp add: scoring_ok_def)
  moreover have "map sub_id (List.map_filter (solve_of d) ss) =
      map sub_id (filter (\<lambda>s. solve_of d s \<noteq> None) ss)" for ss
    by (induction ss) (auto split: option.split dest: solve_of_Some)
  ultimately have "distinct (map sub_id (solves d))"
    by (simp add: solves_def distinct_map_filter)
  then show ?thesis by (simp add: distinct_map)
qed

text \<open>
  A team has as many solves in a set of challenges as it has solved challenges of the set, so it
  reaches the number of challenges exactly when it has solved every one.
\<close>

lemma topic_solves_full:
  assumes "scoring_ok d" "distinct ids"
  shows "length (topic_solves d ids t) = length ids \<longleftrightarrow>
    (\<forall>c\<in>set ids. \<exists>s\<in>set (solves d). sub_team_id s = Some (te_id t) \<and> sub_challenge_id s = Some c)"
proof -
  let ?S = "set (topic_solves d ids t)"
  have S: "?S = {s \<in> set (solves d). sub_team_id s = Some (te_id t) \<and> sub_challenge_id s \<in> Some ` set ids}"
    using set_solves_ok[OF assms(1)]
    by (auto simp: topic_solves_def team_solves_def split: option.splits)
  have inj: "inj_on sub_challenge_id ?S"
    unfolding inj_on_def S by (auto simp: image_iff intro: solves_unique[OF assms(1)])
  have "distinct (topic_solves d ids t)"
    using distinct_solves[OF assms(1)] by (simp add: topic_solves_def team_solves_def)
  then have "length (topic_solves d ids t) = card ?S" by (simp only: distinct_card)
  also have "\<dots> = card (sub_challenge_id ` ?S)" by (simp add: card_image[OF inj])
  finally have len: "length (topic_solves d ids t) = card (sub_challenge_id ` ?S)" .
  have sub: "sub_challenge_id ` ?S \<subseteq> Some ` set ids" using S by auto
  have ids: "card (Some ` set ids) = length ids"
    using assms(2) by (simp add: card_image distinct_card)
  have "card (sub_challenge_id ` ?S) = length ids \<longleftrightarrow> sub_challenge_id ` ?S = Some ` set ids"
    using card_subset_eq[OF _ sub] ids by auto
  also have "\<dots> \<longleftrightarrow> Some ` set ids \<subseteq> sub_challenge_id ` ?S" using sub by blast
  also have "\<dots> \<longleftrightarrow> (\<forall>c\<in>set ids. \<exists>s\<in>set (solves d). sub_team_id s = Some (te_id t) \<and> sub_challenge_id s = Some c)"
    unfolding S by (simp add: image_subset_iff) (auto simp: image_iff; metis)
  finally show ?thesis by (simp add: len)
qed

lemma solved_status: "show_int n @ '' solved'' \<noteq> ''CLEARED''"
proof
  assume "show_int n @ '' solved'' = ''CLEARED''"
  then have "last (show_int n @ '' solved'') = last ''CLEARED''" by simp
  then show False by simp
qed

lemma topic_rows_cleared:
  "r \<in> set (topic_rows n ts) \<and> tr_status r = ''CLEARED'' \<longleftrightarrow>
   (\<exists>q\<in>set ts. tt_count q = n \<and> r = \<lparr>tr_team = tt_team q, tr_status = ''CLEARED'', tr_last = tt_last q\<rparr>)"
  by (auto simp: topic_rows_def Let_def solved_status filter_empty_conv)

section \<open>Badges\<close>

definition awarded :: "db \<Rightarrow> challenge \<times> criterion \<Rightarrow> bool" where
  "awarded d ct = (case pick (snd ct) (solves_by_date d (ch_id (fst ct))) of None \<Rightarrow> True
     | Some s \<Rightarrow> holds_badge d (ch_id (fst ct)) (criterion_name (snd ct)) s)"

text \<open>What a step may change.\<close>

definition only_badges :: "db \<Rightarrow> db \<Rightarrow> bool" where
  "only_badges d d' = (\<exists>as bs.
     d' = d\<lparr>achievements := achievements d @ as, award_badges := award_badges d @ bs\<rparr>)"

lemma only_badges_refl: "only_badges d d"
  unfolding only_badges_def by (intro exI[of _ "[]"]) simp

lemma only_badges_grow:
  "only_badges d (d\<lparr>achievements := achievements d @ as, award_badges := award_badges d @ bs\<rparr>)"
  unfolding only_badges_def by blast

lemma only_badges_trans:
  assumes "only_badges a b" "only_badges b c"
  shows "only_badges a c"
proof -
  obtain as bs where b: "b = a\<lparr>achievements := achievements a @ as, award_badges := award_badges a @ bs\<rparr>"
    using assms(1) unfolding only_badges_def by blast
  obtain as' bs' where c: "c = b\<lparr>achievements := achievements b @ as', award_badges := award_badges b @ bs'\<rparr>"
    using assms(2) unfolding only_badges_def by blast
  have "c = a\<lparr>achievements := achievements a @ (as @ as'), award_badges := award_badges a @ (bs @ bs')\<rparr>"
    unfolding c b by simp
  then show ?thesis by (simp only: only_badges_grow)
qed

lemma only_badges_solves:
  assumes "only_badges d d'"
  shows "solves d' = solves d \<and> challenges d' = challenges d"
proof -
  obtain as bs where d': "d' = d\<lparr>achievements := achievements d @ as, award_badges := award_badges d @ bs\<rparr>"
    using assms unfolding only_badges_def by blast
  have "solves d' = solves d" by (rule solves_cong) (simp_all add: d')
  then show ?thesis by (simp add: d')
qed

lemma assign_award_awarded: "awarded d ct \<Longrightarrow> assign_award (d, given) ct = (d, given)"
  by (cases ct) (auto simp: assign_award_def awarded_def Let_def split: option.splits)

lemma ensure_badge_only:
  assumes "ensure_badge cid name s d = (b, d')"
  shows "\<exists>bs. d' = d\<lparr>award_badges := award_badges d @ bs\<rparr>"
proof (cases "first_where (\<lambda>b. ab_challenge_id b = Some cid \<and> ab_name b = Some name) (award_badges d)")
  case None
  with assms show ?thesis by (auto simp: ensure_badge_def Let_def)
next
  case (Some a)
  with assms have "d' = d\<lparr>award_badges := award_badges d @ []\<rparr>" by (simp add: ensure_badge_def)
  then show ?thesis by blast
qed

lemma assign_award_only: "only_badges d (fst (assign_award (d, given) ct))"
proof (cases "pick (snd ct) (solves_by_date d (ch_id (fst ct)))")
  case None
  then show ?thesis by (cases ct) (simp add: assign_award_def only_badges_refl)
next
  case (Some s)
  obtain b d' where e: "ensure_badge (ch_id (fst ct)) (criterion_name (snd ct)) s d = (b, d')"
    by fastforce
  obtain bs where d': "d' = d\<lparr>award_badges := award_badges d @ bs\<rparr>" using ensure_badge_only[OF e] by blast
  have grown: "only_badges d (d'\<lparr>achievements := achievements d' @ xs\<rparr>)" for xs
  proof -
    have "d'\<lparr>achievements := achievements d' @ xs\<rparr> =
        d\<lparr>achievements := achievements d @ xs, award_badges := award_badges d @ bs\<rparr>"
      unfolding d' by (cases d) simp
    then show ?thesis by (simp only: only_badges_grow)
  qed
  show ?thesis using Some e grown
    by (cases ct) (simp add: assign_award_def Let_def only_badges_refl)
qed

lemma holds_badge_mono: "only_badges d d' \<Longrightarrow> holds_badge d c n s \<Longrightarrow> holds_badge d' c n s"
  unfolding only_badges_def holds_badge_def list_ex_iff by (elim exE) auto

lemma awarded_mono: "only_badges d d' \<Longrightarrow> awarded d ct \<Longrightarrow> awarded d' ct"
  using only_badges_solves[of d d'] holds_badge_mono[of d d']
  by (auto simp: awarded_def solves_by_date_def split: option.splits)

lemma assign_award_done: "awarded (fst (assign_award (d, given) ct)) ct"
proof (cases "pick (snd ct) (solves_by_date d (ch_id (fst ct)))")
  case None
  then show ?thesis by (cases ct) (simp add: assign_award_def awarded_def)
next
  case (Some s)
  obtain b d' where e: "ensure_badge (ch_id (fst ct)) (criterion_name (snd ct)) s d = (b, d')"
    by fastforce
  have "solves (fst (assign_award (d, given) ct)) = solves d"
    using only_badges_solves[OF assign_award_only] by blast
  then show ?thesis using Some e
    by (cases ct) (auto simp: assign_award_def Let_def awarded_def solves_by_date_def holds_badge_def filter_eq_def)
qed

lemma assign_all:
  "only_badges d (fst (foldl assign_award (d, given) cts)) \<and>
   (\<forall>ct\<in>set cts. awarded (fst (foldl assign_award (d, given) cts)) ct)"
proof (induction cts arbitrary: d given)
  case (Cons ct cts)
  let ?st = "assign_award (d, given) ct"
  have IH: "only_badges (fst ?st) (fst (foldl assign_award ?st cts)) \<and>
      (\<forall>ct\<in>set cts. awarded (fst (foldl assign_award ?st cts)) ct)"
    using Cons.IH[of "fst ?st" "snd ?st"] by simp
  have "only_badges d (fst (foldl assign_award ?st cts))"
    using only_badges_trans[OF assign_award_only] IH by blast
  moreover have "awarded (fst (foldl assign_award ?st cts)) ct"
    using awarded_mono[OF _ assign_award_done] IH by blast
  ultimately show ?case using IH by simp
qed (simp add: only_badges_refl)

lemma assign_nothing:
  "\<forall>ct\<in>set cts. awarded d ct \<Longrightarrow> foldl assign_award (d, given) cts = (d, given)"
  by (induction cts) (simp_all add: assign_award_awarded)

lemma hd_sort_key:
  assumes "xs \<noteq> []"
  shows "hd (sort_key f xs) \<in> set xs \<and> (\<forall>y\<in>set xs. f (hd (sort_key f xs)) \<le> f y)"
proof -
  from assms have "sort_key f xs \<noteq> []" by (metis set_empty set_sort)
  then obtain z zs where z: "sort_key f xs = z # zs" by (cases "sort_key f xs") auto
  have "set xs = insert z (set zs)" using arg_cong[OF z, of set] by simp
  moreover have "\<forall>y\<in>set zs. f z \<le> f y" using sorted_sort_key[of f xs] by (simp add: z)
  ultimately show ?thesis by (simp add: z)
qed

section \<open>Properties\<close>

text \<open>
  Also proved: a team is reported as having cleared a category exactly when it is shown, has a
  solve in it and has solved every challenge of the category that is not hidden.
\<close>

theorem cleared_categories:
  assumes "scoring_ok d" "distinct (map ch_id (challenges d))"
    and "(category, rows) \<in> set (get_teams_cleared_all_challenges_by_topic like d None None admin)"
  shows "(\<exists>r\<in>set rows. tr_team r = t \<and> tr_status r = ''CLEARED'') \<longleftrightarrow>
    t \<in> set (teams d) \<and> shown_team admin t \<and>
    (\<forall>c\<in>set (challenges d). ch_category c = category \<and> ch_state c \<noteq> ''hidden'' \<longrightarrow>
      (\<exists>s\<in>set (solves d). sub_team_id s = Some (te_id t) \<and> sub_challenge_id s = Some (ch_id c)))"
proof -
  let ?ids = "topic_challenges d category"
  let ?ts = "topic_tallies like d None None admin ?ids"
  have rows: "rows = topic_rows (length ?ids) ?ts" and ne: "?ids \<noteq> []"
    using assms(3) by (auto simp: get_teams_cleared_all_challenges_by_topic_def)
  have ids: "distinct ?ids" using assms(2) by (simp add: topic_challenges_def distinct_map_filter)
  have "(\<exists>r\<in>set rows. tr_team r = t \<and> tr_status r = ''CLEARED'') \<longleftrightarrow>
      (\<exists>q\<in>set ?ts. tt_count q = length ?ids \<and> tt_team q = t)"
    using topic_rows_cleared[of _ "length ?ids" ?ts] unfolding rows
    by (metis (no_types, lifting) topic_row.select_convs(1,2))
  also have "\<dots> \<longleftrightarrow> t \<in> set (teams d) \<and> shown_team admin t \<and> length (topic_solves d ?ids t) = length ?ids"
    using ne by (auto simp: topic_tallies_def)
  finally show ?thesis
    unfolding topic_solves_full[OF assms(1) ids]
    by (auto simp: topic_challenges_def filter_eq_def)
qed

text \<open>
  Also proved: after the badges are assigned, the earliest accepted solver of every challenge holds
  its first-blood badge, only the two badge tables have grown, and assigning them again
  changes nothing.
\<close>

theorem badges_assigned:
  assumes "calculate_and_assign_awards d = (d', given)"
  shows "calculate_and_assign_awards d' = (d', []) \<and> only_badges d d' \<and>
    (\<forall>c s. c \<in> set (challenges d) \<and> s \<in> set (solves d) \<and> is_correct s \<and> sub_challenge_id s = Some (ch_id c) \<longrightarrow>
      (\<exists>f\<in>set (solves d). sub_challenge_id f = Some (ch_id c) \<and> sub_date f \<le> sub_date s \<and>
        holds_badge d' (ch_id c) ''First Blood'' f))"
proof (intro conjI allI impI)
  let ?cts = "List.product (challenges d) [FirstBlood, TopScorer]"
  have all: "only_badges d d'" "\<forall>ct\<in>set ?cts. awarded d' ct"
    using assign_all[of d "[]" ?cts] assms by (simp_all add: calculate_and_assign_awards_def)
  show "only_badges d d'" by (rule all(1))
  show "calculate_and_assign_awards d' = (d', [])"
    using assign_nothing[OF all(2)] only_badges_solves[OF all(1)]
    by (simp add: calculate_and_assign_awards_def)
  fix c s
  assume cs: "c \<in> set (challenges d) \<and> s \<in> set (solves d) \<and> is_correct s \<and> sub_challenge_id s = Some (ch_id c)"
  let ?ss = "filter (\<lambda>s. sub_challenge_id s = Some (ch_id c) \<and> is_correct s) (solves d)"
  let ?f = "hd (solves_by_date d (ch_id c))"
  have mem: "s \<in> set ?ss" using cs by simp
  then have "?ss \<noteq> []" by (metis empty_iff set_empty)
  from hd_sort_key[OF this, of sub_date] mem
  have first: "?f \<in> set ?ss" "sub_date ?f \<le> sub_date s"
    unfolding solves_by_date_def by blast+
  have "awarded d' (c, FirstBlood)" using all(2) cs by simp
  moreover have "solves_by_date d' (ch_id c) = solves_by_date d (ch_id c)"
    using only_badges_solves[OF all(1)] by (simp add: solves_by_date_def)
  moreover have "solves_by_date d (ch_id c) \<noteq> []"
    using \<open>?ss \<noteq> []\<close> unfolding solves_by_date_def by (metis set_empty set_sort)
  ultimately have "holds_badge d' (ch_id c) ''First Blood'' ?f" by (simp add: awarded_def)
  then show "\<exists>f\<in>set (solves d). sub_challenge_id f = Some (ch_id c) \<and> sub_date f \<le> sub_date s \<and>
      holds_badge d' (ch_id c) ''First Blood'' f"
    using first by auto
qed

section \<open>Instances\<close>

lemma scoring_ok_board: "scoring_ok board_db"
  unfolding scoring_ok_def
proof (intro conjI)
  have "{s \<in> set (submissions board_db). is_correct s} = set (filter is_correct (submissions board_db))"
    by auto
  moreover have "solve_rows board_db = map child_of (filter is_correct (submissions board_db))"
    by code_simp
  ultimately show "set (solve_rows board_db) = child_of ` {s \<in> set (submissions board_db). is_correct s}"
    by (simp only: set_map)
qed code_simp+

theorem cleared_categories_witness:
  "\<exists>s\<in>set (solves board_db). sub_team_id s = Some 7 \<and> sub_challenge_id s = Some 3"
proof -
  let ?t = "sample_team 7 (Some 1)" and ?like = "\<lambda>_ _. False"
  let ?rows = "[\<lparr>tr_team = ?t, tr_status = ''CLEARED'', tr_last = Some 5\<rparr>]"
  have "(Some ''web'', ?rows) \<in> set (get_teams_cleared_all_challenges_by_topic ?like board_db None None False)"
    "distinct (map ch_id (challenges board_db))"
    by code_simp+
  then show ?thesis
    using cleared_categories[OF scoring_ok_board, of "Some ''web''" ?rows ?like False ?t]
    by (auto simp: board_db_def sample_challenge_def sample_team_def)
qed

theorem badges_assigned_witness:
  "\<exists>d' given. calculate_and_assign_awards board_db = (d', given) \<and>
     calculate_and_assign_awards d' = (d', []) \<and> map as_name given = [''First Blood'', ''Top Scorer'']"
proof -
  obtain d' given where r: "calculate_and_assign_awards board_db = (d', given)" by fastforce
  have "map as_name (snd (calculate_and_assign_awards board_db)) = [''First Blood'', ''Top Scorer'']"
    by code_simp
  then show ?thesis using r badges_assigned[OF r] by auto
qed

end
