(* ===== verification/Scoreboard.thy ===== *)
theory Scoreboard imports Honours Access begin

text \<open>
  \<^verbatim>\<open>CTFd/api/v1/scoreboard.py\<close>: the whole scoreboard with the members of each team,
  the details of the leading accounts, and the fastest submissions.  The responses are modelled
  uncached and without the translated account type; an unreadable nested dictionary entry raises
  as in Python.
\<close>

section \<open>The members of each team\<close>

record member =
  mb_id :: int
  mb_oauth_id :: "int option"
  mb_name :: string
  mb_score :: int
  mb_bracket_id :: "int option"
  mb_bracket_name :: "string option"

type_synonym membership = "(int option \<times> (int \<times> member) list) list"

definition member_of :: "db \<Rightarrow> user \<Rightarrow> member" where
  "member_of d u = \<lparr>mb_id = us_id u, mb_oauth_id = us_oauth_id u, mb_name = us_name u, mb_score = 0,
     mb_bracket_id = us_bracket_id u, mb_bracket_name = bracket_name d (us_bracket_id u)\<rparr>"

text \<open>The default dictionary: a missing team reads as the empty dictionary.\<close>

definition inner :: "membership \<Rightarrow> int option \<Rightarrow> (int \<times> member) list" where
  "inner m t = (case map_of m t of None \<Rightarrow> [] | Some ms \<Rightarrow> ms)"

definition add_member :: "db \<Rightarrow> membership \<Rightarrow> user \<Rightarrow> membership" where
  "add_member d m u =
     (if us_hidden u = Some False \<and> us_banned u = Some False
      then put (us_team_id u) (put (us_id u) (member_of d u) (inner m (us_team_id u))) m else m)"

definition membership_of :: "db \<Rightarrow> membership" where
  "membership_of d = foldl (add_member d) [] (filter (\<lambda>u. us_team_id u \<noteq> None) (users d))"

text \<open>\<open>membership[u.team_id][u.user_id]["score"] = int(u.score)\<close>\<close>

definition set_score :: "membership \<Rightarrow> standing \<Rightarrow> py_exc + membership" where
  "set_score m s = (let e = sd_entrant s; ms = inner m (en_team_id e) in
     case map_of ms (en_id e) of
       None \<Rightarrow> Inl KeyError
     | Some mb \<Rightarrow> Inr (put (en_team_id e) (put (en_id e) (mb\<lparr>mb_score := sd_score s\<rparr>) ms) m))"

record board_entry =
  be_pos :: nat
  be_account_id :: int
  be_account_url :: "(string \<times> string \<times> int option) option"
  be_oauth_id :: "int option"
  be_name :: string
  be_score :: int
  be_bracket_id :: "int option"
  be_bracket_name :: "string option"
  be_members :: "member list option"

definition board_entry :: "config \<Rightarrow> membership option \<Rightarrow> nat \<times> standing \<Rightarrow> board_entry" where
  "board_entry conf m p = (let (i, s) = p; e = sd_entrant s in
     \<lparr>be_pos = i + 1, be_account_id = en_id e, be_account_url = generate_account_url conf (Some (en_id e)),
      be_oauth_id = en_oauth_id e, be_name = en_name e, be_score = sd_score s,
      be_bracket_id = en_bracket_id e, be_bracket_name = sd_bracket_name s,
      be_members = map_option (\<lambda>ms. map snd (inner ms (Some (en_id e)))) m\<rparr>)"

definition team_members_scored :: "config \<Rightarrow> db \<Rightarrow> py_exc + membership" where
  "team_members_scored conf d =
     bindE (get_user_standings conf d None None False) (\<lambda>rows. foldE set_score (membership_of d) rows)"

definition scoreboard_list :: "config \<Rightarrow> db \<Rightarrow> py_exc + board_entry list" where
  "scoreboard_list conf d =
     bindE (get_standings conf d None None False) (\<lambda>rows.
     bindE (if is_teams_mode conf then bindE (team_members_scored conf d) (\<lambda>m. Inr (Some m)) else Inr None) (\<lambda>m.
     Inr (map (board_entry conf m) (enumerate 0 rows))))"

definition get_scoreboard_list :: "ctx \<Rightarrow> py_exc + board_entry list reply" where
  "get_scoreboard_list c = check_account_visibility c (check_score_visibility c
     (bindE (scoreboard_list (cx_conf c) (cx_db c)) (\<lambda>r. Inr (Body r))))"

section \<open>The leading accounts\<close>

record gain =
  ga_account_id :: "int option"
  ga_team_id :: "int option"
  ga_user_id :: "int option"
  ga_value :: "int option"
  ga_date :: date

definition gain_of :: "config \<Rightarrow> award \<Rightarrow> gain" where
  "gain_of conf a = \<lparr>ga_account_id = award_account_id conf a, ga_team_id = aw_team_id a,
     ga_user_id = aw_user_id a, ga_value = aw_value a, ga_date = aw_date a\<rparr>"

text \<open>
  The sort key is the ISO text of the date: within a second the full second, written without a
  fraction, comes after every fraction because \<open>Z\<close> follows the dot.
\<close>

definition iso_key :: "int \<Rightarrow> int \<times> int" where
  "iso_key t = (t div 1000000, if t mod 1000000 = 0 then 1000000 else t mod 1000000)"

definition iso_le :: "int \<Rightarrow> int \<Rightarrow> bool" where
  "iso_le a b = (fst (iso_key a) < fst (iso_key b) \<or>
     fst (iso_key a) = fst (iso_key b) \<and> snd (iso_key a) \<le> snd (iso_key b))"

fun insert_iso :: "gain \<Rightarrow> gain list \<Rightarrow> gain list" where
  "insert_iso x [] = [x]"
| "insert_iso x (y # ys) =
     (if iso_le (the (ga_date x)) (the (ga_date y)) then x # y # ys else y # insert_iso x ys)"

definition sort_gains :: "gain list \<Rightarrow> py_exc + gain list" where
  "sort_gains gs = (if 2 \<le> length gs \<and> list_ex (\<lambda>g. ga_date g = None) gs then Inl TypeError
     else Inr (foldr insert_iso gs []))"

definition of_accounts :: "int list \<Rightarrow> int option \<Rightarrow> bool" where
  "of_accounts ids a = (case a of None \<Rightarrow> False | Some i \<Rightarrow> i \<in> set ids)"

record leader =
  le_entry :: standing
  le_url :: "(string \<times> string \<times> int option) option"
  le_solves :: "gain list"

text \<open>The rows of the mapping are read as \<open>solve.value\<close>, a column the table has no longer.\<close>

definition solve_gains :: "submission list \<Rightarrow> py_exc + gain list" where
  "solve_gains ss = (if ss = [] then Inr [] else Inl AttributeError)"

definition leaders :: "config \<Rightarrow> db \<Rightarrow> nat \<Rightarrow> int option \<Rightarrow> py_exc + leader list" where
  "leaders conf d n bracket =
     bindE (get_standings conf d (Some n) bracket False) (\<lambda>rows.
     let ids = map (\<lambda>s. en_id (sd_entrant s)) rows in
     bindE (freeze_bound conf False) (\<lambda>b.
     bindE (solve_gains (filter (\<lambda>s. of_accounts ids (submission_account_id conf s) \<and> visible_at b (sub_date s))
       (solves d))) (\<lambda>_.
     let gs = map (gain_of conf) (filter (\<lambda>a. of_accounts ids (award_account_id conf a) \<and> visible_at b (aw_date a)) (awards d)) in
     mapE (\<lambda>s. bindE (sort_gains (filter (\<lambda>g. ga_account_id g = Some (en_id (sd_entrant s))) gs)) (\<lambda>own.
       Inr \<lparr>le_entry = s, le_url = generate_account_url conf (Some (en_id (sd_entrant s))), le_solves = own\<rparr>)) rows)))"

text \<open>Places count from one; the second endpoint answers a list with an empty place zero.\<close>

definition scoreboard_detail :: "config \<Rightarrow> db \<Rightarrow> nat \<Rightarrow> int option \<Rightarrow> py_exc + (nat \<times> leader) list" where
  "scoreboard_detail conf d n bracket =
     bindE (leaders conf d n bracket) (\<lambda>ls. Inr (enumerate 1 ls))"

definition fastest_submissions :: "config \<Rightarrow> db \<Rightarrow> nat \<Rightarrow> int option \<Rightarrow> py_exc + leader option list" where
  "fastest_submissions conf d n bracket =
     bindE (leaders conf d n bracket) (\<lambda>ls. Inr (None # map Some ls))"

definition get_scoreboard_detail :: "nat \<Rightarrow> int option \<Rightarrow> ctx \<Rightarrow> py_exc + (nat \<times> leader) list reply" where
  "get_scoreboard_detail n bracket c = check_account_visibility c (check_score_visibility c
     (bindE (scoreboard_detail (cx_conf c) (cx_db c) n bracket) (\<lambda>r. Inr (Body r))))"

definition get_fastest_submissions :: "nat \<Rightarrow> int option \<Rightarrow> ctx \<Rightarrow> py_exc + leader option list reply" where
  "get_fastest_submissions n bracket c = check_account_visibility c (check_score_visibility c
     (bindE (fastest_submissions (cx_conf c) (cx_db c) n bracket) (\<lambda>r. Inr (Body r))))"

section \<open>Facts\<close>

definition lookup :: "membership \<Rightarrow> int option \<Rightarrow> int \<Rightarrow> member option" where
  "lookup m t i = map_of (inner m t) i"

lemma inner_put: "inner (put t ms m) u = (if u = t then ms else inner m u)"
  by (simp add: inner_def)

lemma lookup_add_member:
  "lookup (add_member d m u) t i =
     (if public (user_entrant u) \<and> t = us_team_id u \<and> i = us_id u then Some (member_of d u) else lookup m t i)"
  by (auto simp: add_member_def lookup_def inner_put public_def user_entrant_def)

lemma set_score_Inr:
  "set_score m s = Inr m' \<longleftrightarrow> (\<exists>mb. lookup m (en_team_id (sd_entrant s)) (en_id (sd_entrant s)) = Some mb \<and>
     m' = put (en_team_id (sd_entrant s)) (put (en_id (sd_entrant s)) (mb\<lparr>mb_score := sd_score s\<rparr>)
       (inner m (en_team_id (sd_entrant s)))) m)"
  by (auto simp: set_score_def lookup_def Let_def split: option.splits)

lemma set_score_Inl: "set_score m s = Inl e \<longleftrightarrow>
    lookup m (en_team_id (sd_entrant s)) (en_id (sd_entrant s)) = None \<and> e = KeyError"
  by (auto simp: set_score_def lookup_def Let_def split: option.splits)

lemma lookup_set_score:
  "set_score m s = Inr m' \<Longrightarrow> lookup m' t i =
     (if t = en_team_id (sd_entrant s) \<and> i = en_id (sd_entrant s)
      then map_option (\<lambda>mb. mb\<lparr>mb_score := sd_score s\<rparr>) (lookup m t i) else lookup m t i)"
  by (auto simp: set_score_Inr) (auto simp: lookup_def inner_put)

text \<open>No dictionary ever has an entry under the missing team.\<close>

lemma add_members_teamless:
  "lookup m None i = None \<Longrightarrow> \<forall>u\<in>set us. us_team_id u \<noteq> None \<Longrightarrow> lookup (foldl (add_member d) m us) None i = None"
  by (induction us arbitrary: m) (auto simp: lookup_add_member)

lemma membership_teamless: "lookup (membership_of d) None i = None"
  unfolding membership_of_def by (rule add_members_teamless) (auto simp: lookup_def inner_def)

lemma set_score_teamless: "set_score m s = Inr m' \<Longrightarrow> lookup m None i = None \<Longrightarrow> lookup m' None i = None"
  by (auto simp: lookup_set_score)

lemma set_scores_teamless:
  assumes "\<forall>i. lookup m None i = None" "s \<in> set rows" "en_team_id (sd_entrant s) = None"
  shows "foldE set_score m rows = Inl KeyError"
  using assms
proof (induction rows arbitrary: m)
  case (Cons r rows)
  show ?case
  proof (cases "set_score m r")
    case (Inl e)
    then show ?thesis by (simp add: set_score_Inl[THEN iffD1, OF Inl])
  next
    case (Inr m')
    then have "en_team_id (sd_entrant r) \<noteq> None"
      using Cons.prems(1) by (cases "en_team_id (sd_entrant r)") (auto simp: set_score_Inr)
    then have "s \<in> set rows" using Cons.prems(2,3) by auto
    then show ?thesis
      using Cons.IH[of m'] Cons.prems(1,3) set_score_teamless[OF Inr] Inr by simp
  qed
qed simp

lemma lookup_add_members:
  "lookup (foldl (add_member d) m us) t i =
     (case find (\<lambda>u. public (user_entrant u) \<and> us_team_id u = t \<and> us_id u = i) (rev us) of
        None \<Rightarrow> lookup m t i | Some u \<Rightarrow> Some (member_of d u))"
  by (induction us rule: rev_induct) (auto simp: lookup_add_member)

lemmas findD = first_where_SomeD[unfolded first_where_def]

lemma lookup_membership:
  assumes "lookup (membership_of d) t i = Some mb"
  shows "\<exists>u\<in>set (users d). public (user_entrant u) \<and> us_team_id u = t \<and> us_id u = i \<and> mb = member_of d u"
proof -
  let ?us = "filter (\<lambda>u. us_team_id u \<noteq> None) (users d)"
  have "lookup [] t i = None" by (simp add: lookup_def inner_def)
  with assms obtain u where "find (\<lambda>u. public (user_entrant u) \<and> us_team_id u = t \<and> us_id u = i) (rev ?us) = Some u"
      "mb = member_of d u"
    unfolding membership_of_def lookup_add_members by (auto split: option.splits)
  then show ?thesis using findD[of _ "rev ?us" u] by auto
qed

lemma lookup_membership_mem:
  assumes "distinct (map us_id (users d))" "u \<in> set (users d)" "public (user_entrant u)" "us_team_id u = Some t"
  shows "lookup (membership_of d) (Some t) (us_id u) = Some (member_of d u)"
proof (cases "lookup (membership_of d) (Some t) (us_id u)")
  case None
  then have "find (\<lambda>v. public (user_entrant v) \<and> us_team_id v = Some t \<and> us_id v = us_id u)
      (rev (filter (\<lambda>u. us_team_id u \<noteq> None) (users d))) = None"
    by (auto simp: membership_of_def lookup_add_members split: option.splits)
  then show ?thesis using assms(2-4) by (auto simp: find_None_iff)
next
  case (Some mb)
  then obtain v where v: "v \<in> set (users d)" "us_id v = us_id u" "mb = member_of d v"
    using lookup_membership[OF Some] by blast
  then have "v = u" using assms(1,2) by (meson distinct_map inj_onD)
  then show ?thesis using Some v by simp
qed

text \<open>The scores are written to existing members only, each with the score of its row.\<close>

lemma set_scores_lookup:
  "foldE set_score m rows = Inr m' \<Longrightarrow> distinct (map (en_id \<circ> sd_entrant) rows) \<Longrightarrow>
   lookup m' t i = (case find (\<lambda>s. en_team_id (sd_entrant s) = t \<and> en_id (sd_entrant s) = i) rows of
     None \<Rightarrow> lookup m t i
   | Some s \<Rightarrow> map_option (\<lambda>mb. mb\<lparr>mb_score := sd_score s\<rparr>) (lookup m t i))"
proof (induction rows arbitrary: m)
  case (Cons r rows)
  obtain m1 where m1: "set_score m r = Inr m1" "foldE set_score m1 rows = Inr m'"
    using Cons.prems(1) by (auto simp: bindE_Inr_iff)
  have "find (\<lambda>s. en_team_id (sd_entrant s) = t \<and> en_id (sd_entrant s) = i) rows = None"
    if "en_id (sd_entrant r) = i"
    using Cons.prems(2) that by (auto simp: find_None_iff image_iff)
  then show ?case
    using Cons.IH[OF m1(2)] Cons.prems(2) lookup_set_score[OF m1(1), of t i]
    by (cases "en_team_id (sd_entrant r) = t \<and> en_id (sd_entrant r) = i") (auto split: option.split)
qed simp

lemma set_scores_succeed:
  "\<forall>s\<in>set rows. lookup m (en_team_id (sd_entrant s)) (en_id (sd_entrant s)) \<noteq> None \<Longrightarrow>
   \<exists>m'. foldE set_score m rows = Inr m'"
proof (induction rows arbitrary: m)
  case (Cons r rows)
  then obtain m1 where m1: "set_score m r = Inr m1"
    by (auto simp: set_score_Inr)
  have "\<forall>s\<in>set rows. lookup m1 (en_team_id (sd_entrant s)) (en_id (sd_entrant s)) \<noteq> None"
    using Cons.prems by (auto simp: lookup_set_score[OF m1])
  then show ?case using Cons.IH m1 by simp
qed simp

text \<open>The values of a dictionary with distinct keys are what its lookups find.\<close>

definition keyed :: "membership \<Rightarrow> bool" where
  "keyed m = (\<forall>t. distinct (map fst (inner m t)))"

lemma keyed_steps:
  "keyed m \<Longrightarrow> keyed (add_member d m u)"
  "keyed m \<Longrightarrow> set_score m s = Inr m' \<Longrightarrow> keyed m'"
  by (auto simp: keyed_def add_member_def inner_put distinct_put set_score_Inr)

lemma keyed_membership: "keyed (membership_of d)"
proof -
  have "keyed (foldl (add_member d) m us)" if "keyed m" for m us
    using that by (induction us arbitrary: m) (auto intro: keyed_steps)
  then show ?thesis by (simp add: membership_of_def keyed_def inner_def)
qed

lemma inner_values:
  assumes "keyed m"
  shows "snd ` set (inner m t) = {mb. \<exists>i. lookup m t i = Some mb}"
  using ran_distinct[of "inner m t"] assms by (auto simp: keyed_def lookup_def ran_def)

lemma columns:
  "map be_account_id (map (board_entry conf m) (enumerate 0 rows)) = map (en_id \<circ> sd_entrant) rows"
  "map be_pos (map (board_entry conf m) (enumerate 0 rows)) = [1..<Suc (length rows)]"
  "map be_score (map (board_entry conf m) (enumerate 0 rows)) = map sd_score rows"
proof -
  have c: "be_account_id (board_entry conf m p) = en_id (sd_entrant (snd p))"
    "be_pos (board_entry conf m p) = Suc (fst p)" "be_score (board_entry conf m p) = sd_score (snd p)" for p
    by (simp_all add: board_entry_def Let_def split_beta)
  have snds: "map (\<lambda>p. f (snd p)) (enumerate 0 rows) = map f rows" for f :: "standing \<Rightarrow> int"
    by (simp only: map_map[unfolded comp_def, symmetric] map_snd_enumerate)
  have fsts: "map (\<lambda>p. Suc (fst p)) (enumerate 0 rows) = [1..<Suc (length rows)]"
  proof -
    have "map Suc (map fst (enumerate 0 rows)) = [Suc 0..<Suc (length rows)]"
      by (simp only: map_fst_enumerate map_Suc_upt add_0)
    then show ?thesis by (simp only: map_map comp_def One_nat_def)
  qed
  show "map be_account_id (map (board_entry conf m) (enumerate 0 rows)) = map (en_id \<circ> sd_entrant) rows"
    "map be_pos (map (board_entry conf m) (enumerate 0 rows)) = [1..<Suc (length rows)]"
    "map be_score (map (board_entry conf m) (enumerate 0 rows)) = map sd_score rows"
    unfolding map_map by (simp_all only: comp_def c snds[of "\<lambda>s. en_id (sd_entrant s)"] snds[of sd_score] fsts)
qed

lemma user_rows:
  assumes "get_user_standings conf d None None False = Inr us"
  shows "sd_entrant ` set us = user_entrant ` {u \<in> set (users d). public (user_entrant u)}"
proof -
  obtain b where "freeze_bound conf False = Inr b" using user_board.frozen[OF assms] by blast
  then show ?thesis using user_board.members[OF assms] by (auto simp: listed_def)
qed

lemma team_members_scored_Inr:
  assumes "get_user_standings conf d None None False = Inr us" "distinct (map us_id (users d))"
    and "\<forall>u\<in>set (users d). public (user_entrant u) \<longrightarrow> us_team_id u \<noteq> None"
  shows "\<exists>m. foldE set_score (membership_of d) us = Inr m"
proof (rule set_scores_succeed, rule ballI)
  fix s assume "s \<in> set us"
  then obtain u t where "u \<in> set (users d)" "public (user_entrant u)" "sd_entrant s = user_entrant u"
      "us_team_id u = Some t"
    using user_rows[OF assms(1)] assms(3) by (smt (verit) imageE imageI mem_Collect_eq not_None_eq)
  then show "lookup (membership_of d) (en_team_id (sd_entrant s)) (en_id (sd_entrant s)) \<noteq> None"
    using lookup_membership_mem[OF assms(2)] by (simp add: user_entrant_def)
qed

lemma scored_membership:
  assumes "get_user_standings conf d None None False = Inr us" "freeze_bound conf False = Inr b"
    and "distinct (map us_id (users d))" "foldE set_score (membership_of d) us = Inr m"
  shows "lookup m (Some t) i = Some mb \<longleftrightarrow>
    (\<exists>u\<in>set (users d). public (user_entrant u) \<and> us_team_id u = Some t \<and> us_id u = i \<and>
      mb = (member_of d u)\<lparr>mb_score := score_of b sub_user_id aw_user_id d (us_id u)\<rparr>)"
proof -
  let ?P = "\<lambda>s. en_team_id (sd_entrant s) = Some t \<and> en_id (sd_entrant s) = i"
  have "distinct (map (en_id \<circ> sd_entrant) us)"
    by (rule user_board.one_row[OF assms(1)]) (use assms(3) in \<open>simp add: user_entrant_def o_def\<close>)
  note final = set_scores_lookup[OF assms(4) this, of "Some t" i]
  have row: "\<exists>s. find ?P us = Some s \<and> sd_score s = score_of b sub_user_id aw_user_id d i"
    if u: "u \<in> set (users d)" "public (user_entrant u)" "us_team_id u = Some t" "us_id u = i" for u
  proof -
    have "user_entrant u \<in> sd_entrant ` set us" using user_rows[OF assms(1)] u(1,2) by blast
    then obtain r where "r \<in> set us" "sd_entrant r = user_entrant u" by force
    then have "r \<in> set us \<and> ?P r" using u(3,4) by (simp add: user_entrant_def)
    then have "find ?P us \<noteq> None" unfolding find_None_iff by blast
    then obtain s where s: "find ?P us = Some s" by blast
    then have "sd_score s = score_of b sub_user_id aw_user_id d i"
      using user_board.scored[OF assms(1,2)] by (auto dest!: findD)
    with s show ?thesis by blast
  qed
  show ?thesis
  proof
    assume l: "lookup m (Some t) i = Some mb"
    then obtain mb0 where mb0: "lookup (membership_of d) (Some t) i = Some mb0"
      using final by (auto split: option.splits)
    then obtain u where u: "u \<in> set (users d)" "public (user_entrant u)" "us_team_id u = Some t" "us_id u = i"
        "mb0 = member_of d u"
      using lookup_membership[OF mb0] by blast
    from row[OF u(1-4)] l final mb0 u
    show "\<exists>u\<in>set (users d). public (user_entrant u) \<and> us_team_id u = Some t \<and> us_id u = i \<and>
      mb = (member_of d u)\<lparr>mb_score := score_of b sub_user_id aw_user_id d (us_id u)\<rparr>"
      by (intro bexI[of _ u]) auto
  next
    assume "\<exists>u\<in>set (users d). public (user_entrant u) \<and> us_team_id u = Some t \<and> us_id u = i \<and>
      mb = (member_of d u)\<lparr>mb_score := score_of b sub_user_id aw_user_id d (us_id u)\<rparr>"
    then obtain u where u: "u \<in> set (users d)" "public (user_entrant u)" "us_team_id u = Some t" "us_id u = i"
      and mb: "mb = (member_of d u)\<lparr>mb_score := score_of b sub_user_id aw_user_id d (us_id u)\<rparr>"
      by blast
    show "lookup m (Some t) i = Some mb"
      using row[OF u] lookup_membership_mem[OF assms(3) u(1-3)] final u(4) mb by auto
  qed
qed

section \<open>Properties\<close>

text \<open>
  Property C12: once every user who is neither banned nor hidden has a team, the scoreboard of teams
  is answered: the rows are the standings with their positions, and each team lists exactly its
  members who are neither banned nor hidden, each with the score \<open>Users.get_score\<close> computes.
\<close>

theorem scoreboard_lists_members:
  assumes "is_teams_mode conf" "get_standings conf d None None False = Inr rows"
    and "distinct (map us_id (users d))" "raw_freeze row False = freeze_bound conf False"
    and "\<forall>u\<in>set (users d). public (user_entrant u) \<longrightarrow> us_team_id u \<noteq> None"
  shows "\<exists>entries. scoreboard_list conf d = Inr entries \<and>
    map be_account_id entries = map (en_id \<circ> sd_entrant) rows \<and>
    map be_pos entries = [1..<Suc (length rows)] \<and> map be_score entries = map sd_score rows \<and>
    (\<forall>e\<in>set entries. \<exists>ms. be_members e = Some ms \<and>
      (\<lambda>mb. (mb_id mb, Inr (mb_score mb))) ` set ms =
      (\<lambda>u. (us_id u, user_get_score d row u False)) `
        {u \<in> set (users d). public (user_entrant u) \<and> us_team_id u = Some (be_account_id e)})"
proof -
  obtain b where b: "freeze_bound conf False = Inr b" using account_board.frozen[OF assms(2)] by blast
  then obtain us where us: "get_user_standings conf d None None False = Inr us"
    by (simp add: get_user_standings_def)
  obtain m where m: "foldE set_score (membership_of d) us = Inr m"
    using team_members_scored_Inr[OF us assms(3,5)] by blast
  have keyed: "keyed m"
    using m keyed_membership by (rule foldE_invariant) (rule keyed_steps(2))
  have members: "(\<lambda>mb. (mb_id mb, Inr (mb_score mb))) ` set (map snd (inner m (Some t))) =
      (\<lambda>u. (us_id u, user_get_score d row u False)) `
        {u \<in> set (users d). public (user_entrant u) \<and> us_team_id u = Some t}" for t
  proof -
    have "set (map snd (inner m (Some t))) =
        (\<lambda>u. (member_of d u)\<lparr>mb_score := score_of b sub_user_id aw_user_id d (us_id u)\<rparr>) `
          {u \<in> set (users d). public (user_entrant u) \<and> us_team_id u = Some t}"
      unfolding set_map inner_values[OF keyed] scored_membership[OF us b assms(3) m] by blast
    then show ?thesis
      by (simp add: image_image score_of_users[OF trans[OF assms(4) b]]) (simp add: member_of_def)
  qed
  let ?es = "map (board_entry conf (Some m)) (enumerate 0 rows)"
  have "scoreboard_list conf d = Inr ?es"
    using assms(1,2) us m by (simp add: scoreboard_list_def team_members_scored_def)
  moreover have "map be_account_id ?es = map (en_id \<circ> sd_entrant) rows" "map be_pos ?es = [1..<Suc (length rows)]"
      "map be_score ?es = map sd_score rows"
    by (simp_all only: columns)
  moreover have "be_members e = Some (map snd (inner m (Some (be_account_id e))))" if "e \<in> set ?es" for e
    using that by (auto simp: board_entry_def Let_def)
  ultimately show ?thesis using members by blast
qed

text \<open>
  Also proved: in teams mode a single user who is neither banned nor hidden and has not joined a
  team makes the scoreboard raise, for everyone.
\<close>

theorem teamless_user_breaks_scoreboard:
  assumes "is_teams_mode conf" "get_standings conf d None None False = Inr rows"
    and "u \<in> set (users d)" "public (user_entrant u)" "us_team_id u = None"
  shows "scoreboard_list conf d = Inl KeyError"
proof -
  obtain b where b: "freeze_bound conf False = Inr b" using account_board.frozen[OF assms(2)] by blast
  then obtain us where us: "get_user_standings conf d None None False = Inr us"
    by (simp add: get_user_standings_def)
  have "user_entrant u \<in> sd_entrant ` set us"
    unfolding user_board.members[OF us b] using assms(3,4) by (simp add: listed_def)
  then obtain s where "s \<in> set us" "sd_entrant s = user_entrant u" by force
  then have "s \<in> set us" "en_team_id (sd_entrant s) = None"
    using assms(5) by (simp_all add: user_entrant_def)
  then have "foldE set_score (membership_of d) us = Inl KeyError"
    using set_scores_teamless membership_teamless by blast
  then show ?thesis using assms(1,2) us by (simp add: scoreboard_list_def team_members_scored_def)
qed

text \<open>
  Also proved: the leaders cannot be listed once one of them has a solve that counts: the rows are
  read through an attribute the model of solves does not have.
\<close>

theorem leaders_fail_on_solves:
  assumes "get_standings conf d (Some n) bracket False = Inr rows" "freeze_bound conf False = Inr b"
    and "r \<in> set rows" "s \<in> set (solves d)" "submission_account_id conf s = Some (en_id (sd_entrant r))"
    and "visible_at b (sub_date s)"
  shows "scoreboard_detail conf d n bracket = Inl AttributeError \<and>
    fastest_submissions conf d n bracket = Inl AttributeError"
proof -
  have "s \<in> set (filter (\<lambda>s. of_accounts (map (\<lambda>s. en_id (sd_entrant s)) rows) (submission_account_id conf s) \<and>
      visible_at b (sub_date s)) (solves d))" (is "s \<in> set ?ss")
    using assms(3-6) by (auto simp: of_accounts_def)
  then have "solve_gains ?ss = Inl AttributeError"
    unfolding solve_gains_def by (metis empty_iff set_empty)
  then have "leaders conf d n bracket = Inl AttributeError"
    using assms(1,2) by (simp add: leaders_def Let_def)
  then show ?thesis by (simp add: scoreboard_detail_def fastest_submissions_def)
qed

section \<open>Instances\<close>

definition team_rows :: "standing list" where
  "team_rows = [\<lparr>sd_entrant = team_entrant (sample_team 7 (Some 1)), sd_bracket_name = None, sd_score = 130,
     sd_date = Some 5, sd_last = Some 1\<rparr>]"

lemma team_board_evaluated:
  "get_standings (mode_conf ''teams'') board_db None None False = Inr team_rows"
  "get_standings (mode_conf ''teams'') board_db (Some 5) None False = Inr team_rows"
  "freeze_bound (mode_conf ''teams'') False = Inr None"
  by code_simp+

theorem scoreboard_lists_members_witness:
  "\<exists>entries. scoreboard_list (mode_conf ''teams'') board_db = Inr entries \<and> map be_account_id entries = [7]"
proof -
  have ids: "distinct (map us_id (users board_db))"
    and fr: "raw_freeze None False = freeze_bound (mode_conf ''teams'') False"
    by code_simp+
  have "list_all (\<lambda>u. public (user_entrant u) \<longrightarrow> us_team_id u \<noteq> None) (users board_db)" by code_simp
  then have teamed: "\<forall>u\<in>set (users board_db). public (user_entrant u) \<longrightarrow> us_team_id u \<noteq> None"
    by (simp only: list_all_iff)
  have seven: "map (en_id \<circ> sd_entrant) team_rows = [7]" by code_simp
  show ?thesis
    using scoreboard_lists_members[OF mode_conf_simps(3) team_board_evaluated(1) ids fr teamed]
    unfolding seven by (elim exE conjE) (intro exI conjI)
qed

definition teamless_db :: db where
  "teamless_db = board_db\<lparr>users := users board_db @ [sample_user 4 None]\<rparr>"

theorem teamless_user_breaks_scoreboard_witness:
  "scoreboard_list (mode_conf ''teams'') teamless_db = Inl KeyError"
proof (rule teamless_user_breaks_scoreboard)
  show "is_teams_mode (mode_conf ''teams'')" by simp
  show "get_standings (mode_conf ''teams'') teamless_db None None False = Inr team_rows" by code_simp
  show "sample_user 4 None \<in> set (users teamless_db)" by (simp add: teamless_db_def)
  show "public (user_entrant (sample_user 4 None))" "us_team_id (sample_user 4 None) = None" by code_simp+
qed

theorem leaders_fail_on_solves_witness:
  "scoreboard_detail (mode_conf ''teams'') board_db 5 None = Inl AttributeError"
proof -
  let ?r = "hd team_rows" and ?s = "hd (solves board_db)"
  have "?r \<in> set team_rows" by (simp add: team_rows_def)
  moreover have "solves board_db = [?s]" by code_simp
  then have "?s \<in> set (solves board_db)" by (metis list.set_intros(1))
  moreover have "submission_account_id (mode_conf ''teams'') ?s = Some (en_id (sd_entrant ?r))" by code_simp
  ultimately show ?thesis
    using leaders_fail_on_solves[OF team_board_evaluated(2,3)] by simp
qed

end
