(* ===== verification/HintShop.thy ===== *)
theory HintShop imports Challenges begin

text \<open>
  Hints and their purchase: \<^verbatim>\<open>api/v1/hints.py\<close>, \<^verbatim>\<open>api/v1/unlocks.py\<close> and the hint
  schema.  A purchase adds an unlock and an award of minus the cost.  The relationship field
  \<open>challenge\<close> of the schema and the rendered markup are left out; a request body of
  \<open>UnlockList.post\<close> is its type and its integer target.
\<close>

section \<open>Who asks\<close>

text \<open>\<open>auth_header.split(' ')[1]\<close> after the prefix; an unknown token has no \<open>user_id\<close>.\<close>

definition bearer_value :: "request \<Rightarrow> string option" where
  "bearer_value r = (case rq_authorization r of None \<Rightarrow> None
     | Some h \<Rightarrow> if starts_with ''Bearer '' h then Some (takeWhile (\<lambda>x. x \<noteq> CHR '' '') (drop 7 h)) else None)"

definition token_by_value :: "db \<Rightarrow> string \<Rightarrow> token option" where
  "token_by_value d v = first_where (\<lambda>t. tk_value t = Some v) (tokens d)"

definition bearer_user :: "ctx \<Rightarrow> py_exc + user option" where
  "bearer_user c = (case bearer_value (cx_request c) of
      None \<Rightarrow> get_current_user c
    | Some v \<Rightarrow> (case token_by_value (cx_db c) v of
        None \<Rightarrow> Inl AttributeError
      | Some t \<Rightarrow> Inr (case tk_user_id t of None \<Rightarrow> None | Some i \<Rightarrow> user_by_id (cx_db c) i)))"

section \<open>Reading a hint\<close>

definition free_hint :: "hint \<Rightarrow> bool" where
  "free_hint h = (hi_cost h = None \<or> hi_cost h = Some 0)"

text \<open>The prerequisites that still exist, and the hints that count as unlocked.\<close>

definition hint_prereqs :: "db \<Rightarrow> hint \<Rightarrow> int list" where
  "hint_prereqs d h = filter (\<lambda>i. i \<in> hi_id ` set (hints d)) (id_list (hint_prerequisites h))"

definition open_hints :: "db \<Rightarrow> config \<Rightarrow> user \<Rightarrow> int list" where
  "open_hints d conf u = unlocked_hints d conf u @ map hi_id (filter (\<lambda>h. hi_cost h = Some 0) (hints d))"

definition dump_hint :: "string \<Rightarrow> hint \<Rightarrow> hint_view" where
  "dump_hint view h = \<lparr>hv_id = hi_id h, hv_cost = hi_cost h,
     hv_content = (if view = ''locked'' then None else Some (hi_content h))\<rparr>"

datatype hint_reply = MustLogin | MustUnlockOthers | ShowHint string hint_view

definition hint_view_of :: "ctx \<Rightarrow> bool \<Rightarrow> user option \<Rightarrow> hint \<Rightarrow> py_exc + string" where
  "hint_view_of c preview u h =
     bindE (if free_hint h then Inr ''unlocked''
            else case u of
              None \<Rightarrow> Inl AttributeError
            | Some u \<Rightarrow> Inr (if hi_id h \<in> set (unlocked_hints (cx_db c) (cx_conf c) u)
                             then ''unlocked'' else ''locked'')) (\<lambda>view.
     Inr (if yes (is_admin c) \<and> preview then ''admin'' else view))"

definition hint_get :: "bool \<Rightarrow> int \<Rightarrow> ctx \<Rightarrow> py_exc + hint_reply reply" where
  "hint_get preview hid c =
     bindE (bearer_user c) (\<lambda>u.
     bindE (first_or_404 (first_where (\<lambda>h. hi_id h = hid) (hints (cx_db c)))) (\<lambda>h.
     if u = None \<and> (\<not> free_hint h \<or> truthy (hint_prerequisites h)) then Inr (Body MustLogin)
     else if truthy (hint_prerequisites h) \<and>
        \<not> set (hint_prereqs (cx_db c) h) \<subseteq> set (open_hints (cx_db c) (cx_conf c) (the u)) \<and>
        \<not> yes (is_admin c)
     then Inr (Body MustUnlockOthers)
     else bindE (hint_view_of c preview u h) (\<lambda>view. Inr (Body (ShowHint view (dump_hint view h))))))"

definition get_hint :: "bool \<Rightarrow> int \<Rightarrow> ctx \<Rightarrow> py_exc + hint_reply reply" where
  "get_hint preview hid c = during_ctf_time_only c (hint_get preview hid c)"

text \<open>\<open>HintListByChallenge.get\<close>: any known token reads ids and costs.\<close>

definition hint_list_by_challenge :: "int \<Rightarrow> ctx \<Rightarrow> py_exc + (int \<times> int option) list reply" where
  "hint_list_by_challenge cid c = during_ctf_time_only c (case bearer_value (cx_request c) of
      None \<Rightarrow> Inl (HTTPAbort 401)
    | Some v \<Rightarrow> Inr (case token_by_value (cx_db c) v of
        None \<Rightarrow> Status 401
      | Some t \<Rightarrow> if challenge_by_id (cx_db c) cid = None then Status 404
          else Body (map (\<lambda>h. (hi_id h, hi_cost h)) (filter (\<lambda>h. hi_challenge_id h = Some cid) (hints (cx_db c))))))"

section \<open>Editing hints\<close>

definition hint_input :: "db \<Rightarrow> bool \<Rightarrow> dict \<Rightarrow> py_exc + dict" where
  "hint_input d creating data =
     bindE (reference data ''challenge_id'' (\<lambda>i. challenge_by_id d i \<noteq> None) creating False) (\<lambda>data'.
     bindE (text_field data' ''content'' creating) (\<lambda>_.
     if has_key data' ''cost'' \<and>
        \<not> (case dget data' ''cost'' of PInt i \<Rightarrow> 0 \<le> i \<and> i \<le> 2147483647 | _ \<Rightarrow> False)
     then Inl (ValidationError ''Cost must be a nonnegative integer'' [''cost''])
     else Inr data'))"

definition given_int :: "dict \<Rightarrow> string \<Rightarrow> int option \<Rightarrow> int option" where
  "given_int data key old = (case map_of data key of Some (PInt i) \<Rightarrow> Some i | _ \<Rightarrow> old)"

definition given_str :: "dict \<Rightarrow> string \<Rightarrow> string option \<Rightarrow> string option" where
  "given_str data key old = (case map_of data key of Some (PStr s) \<Rightarrow> Some s | _ \<Rightarrow> old)"

definition fill_hint :: "dict \<Rightarrow> hint \<Rightarrow> hint" where
  "fill_hint data h = h\<lparr>hi_challenge_id := given_int data ''challenge_id'' (hi_challenge_id h),
     hi_content := given_str data ''content'' (hi_content h), hi_cost := given_int data ''cost'' (hi_cost h),
     hi_requirements := (if has_key data ''requirements'' then dget data ''requirements'' else hi_requirements h)\<rparr>"

definition hint_post :: "dict \<Rightarrow> db \<Rightarrow> py_exc + hint \<times> db" where
  "hint_post body d = bindE (hint_input d True body) (\<lambda>data.
     let h = fill_hint data \<lparr>hi_id = fresh_id hi_id (hints d), hi_type = Some ''standard'', hi_challenge_id = None,
       hi_content = None, hi_cost = Some 0, hi_requirements = PNone\<rparr> in
     Inr (h, d\<lparr>hints := hints d @ [h]\<rparr>))"

definition hint_patch :: "int \<Rightarrow> dict \<Rightarrow> db \<Rightarrow> py_exc + hint \<times> db" where
  "hint_patch hid body d =
     bindE (first_or_404 (first_where (\<lambda>h. hi_id h = hid) (hints d))) (\<lambda>h.
     bindE (hint_input d False body) (\<lambda>data.
     Inr (fill_hint data h, d\<lparr>hints := update_where (\<lambda>x. hi_id x = hid) (fill_hint data) (hints d)\<rparr>)))"

text \<open>The unlocks of a deleted hint stay: their target is a plain number.\<close>

definition hint_delete :: "int \<Rightarrow> db \<Rightarrow> py_exc + db" where
  "hint_delete hid d =
     bindE (first_or_404 (first_where (\<lambda>h. hi_id h = hid) (hints d))) (\<lambda>h.
     Inr (d\<lparr>hints := delete_where (\<lambda>x. hi_id x = hid) (hints d)\<rparr>))"

section \<open>Buying a hint\<close>

text \<open>\<open>user.account.get_score(admin=True)\<close>\<close>

definition account_score :: "db \<Rightarrow> config \<Rightarrow> user \<Rightarrow> py_exc + int" where
  "account_score d conf u =
     (if is_teams_mode conf then (case user_team d u of
        None \<Rightarrow> Inl AttributeError | Some t \<Rightarrow> team_get_score d None t True)
      else if is_users_mode conf then user_get_score d None u True
      else Inl AttributeError)"

datatype purchase = NoModel | TooExpensive | AlreadyUnlocked | Bought unlock

definition hint_description :: "db \<Rightarrow> hint \<Rightarrow> py_exc + string" where
  "hint_description d h = (case (case hi_challenge_id h of None \<Rightarrow> None | Some i \<Rightarrow> challenge_by_id d i) of
      None \<Rightarrow> Inl AttributeError
    | Some ch \<Rightarrow> Inr (''Hint for '' @ (case ch_name ch of None \<Rightarrow> ''None'' | Some n \<Rightarrow> n)))"

definition hint_award :: "db \<Rightarrow> int \<Rightarrow> user \<Rightarrow> hint \<Rightarrow> int \<Rightarrow> string \<Rightarrow> award" where
  "hint_award d now u h cost description = \<lparr>aw_id = fresh_id aw_id (awards d), aw_user_id = Some (us_id u),
     aw_team_id = us_team_id u, aw_type = Some ''standard'', aw_name = ''Hint '' @ show_int (hi_id h),
     aw_description = Some description, aw_date = Some now, aw_value = Some (- cost),
     aw_category = Some ''hints'', aw_icon = None, aw_requirements = PNone, aw_request_key = None,
     aw_request_hash = None\<rparr>"

definition already_unlocked :: "db \<Rightarrow> config \<Rightarrow> user \<Rightarrow> int \<Rightarrow> bool" where
  "already_unlocked d conf u target = list_ex (\<lambda>x. un_target x = Some target \<and> un_type x = Some ''hints'' \<and>
     filter_eq (unlock_account_id conf x) (user_account_id conf u)) (unlocks d)"

definition new_unlock :: "db \<Rightarrow> int \<Rightarrow> user \<Rightarrow> int \<Rightarrow> unlock" where
  "new_unlock d now u target = \<lparr>un_id = fresh_id un_id (unlocks d), un_user_id = Some (us_id u),
     un_team_id = us_team_id u, un_target = Some target, un_date = Some now, un_type = Some ''hints''\<rparr>"

definition buy_hint :: "config \<Rightarrow> int \<Rightarrow> user \<Rightarrow> int \<Rightarrow> db \<Rightarrow> py_exc + purchase \<times> db" where
  "buy_hint conf now u target d =
     bindE (first_or_404 (first_where (\<lambda>h. hi_id h = target) (hints d))) (\<lambda>h.
     bindE (account_score d conf u) (\<lambda>score.
     case hi_cost h of
       None \<Rightarrow> Inl TypeError
     | Some cost \<Rightarrow>
         if score < cost then Inr (TooExpensive, d)
         else if already_unlocked d conf u target then Inr (AlreadyUnlocked, d)
         else bindE (hint_description d h) (\<lambda>description.
           let x = new_unlock d now u target in
           Inr (Bought x, d\<lparr>unlocks := unlocks d @ [x],
             awards := awards d @ [hint_award d now u h cost description]\<rparr>))))"

text \<open>
  The type names any table: \<open>rows kind\<close> tells which ids another table of the models has, or
  that no model has that name.  No other model has a cost.
\<close>

definition unlock_post ::
  "(string \<Rightarrow> (int \<Rightarrow> bool) option) \<Rightarrow> string \<Rightarrow> int \<Rightarrow> ctx \<Rightarrow> py_exc + purchase \<times> db" where
  "unlock_post rows kind target c =
     bindE (bearer_user c) (\<lambda>u. case u of
       None \<Rightarrow> Inl AttributeError
     | Some u \<Rightarrow>
         if kind = ''hints'' then buy_hint (cx_conf c) (utcnow c) u target (cx_db c)
         else case rows kind of
           None \<Rightarrow> Inr (NoModel, cx_db c)
         | Some has \<Rightarrow> if has target then Inl AttributeError else Inl (HTTPAbort 404))"

definition post_unlock ::
  "(string \<Rightarrow> (int \<Rightarrow> bool) option) \<Rightarrow> string \<Rightarrow> int \<Rightarrow> ctx \<Rightarrow> py_exc + (purchase \<times> db) reply" where
  "post_unlock rows kind target c = during_ctf_time_only c (require_verified_emails c (authed_only c
     (bindE (unlock_post rows kind target c) (\<lambda>r. Inr (Body r)))))"

section \<open>What an award does to the scores\<close>

definition award_points :: "award \<Rightarrow> int" where
  "award_points a = (case aw_value a of None \<Rightarrow> 0 | Some v \<Rightarrow> v)"

lemma score_with_award:
  assumes "awards d' = awards d @ [a]" "submissions d' = submissions d" "solve_rows d' = solve_rows d"
    "challenges d' = challenges d" "user_get_score d None w True = Inr n"
  shows "user_get_score d' None w True = Inr (n + (if aw_user_id a = Some (us_id w) then award_points a else 0))"
proof -
  have "solves d' = solves d" by (rule solves_cong[OF assms(2,3)])
  moreover have "solve_value d' = solve_value d" by (rule solve_value_frame[OF assms(4)])
  ultimately show ?thesis
    using assms(5) by (auto simp: user_get_score_def assms(1) award_points_def split: option.split)
qed

lemma user_score_total: "\<exists>n. user_get_score d None w True = Inr n"
  by (simp add: user_get_score_def)

lemma foldE_sum:
  "(\<And>m. m \<in> set ms \<Longrightarrow> g m = Inr (f m)) \<Longrightarrow>
   foldE (\<lambda>score m. bindE (g m) (\<lambda>s. Inr (score + s))) (k::int) ms = Inr (k + sum_list (map f ms))"
  by (induction ms arbitrary: k) simp_all

lemma sum_list_one_changed:
  "distinct (map key ms) \<Longrightarrow> u \<in> set ms \<Longrightarrow>
   sum_list (map (\<lambda>m. f m + (if key m = key u then (c::int) else 0)) ms) = sum_list (map f ms) + c"
proof (induction ms)
  case (Cons m ms)
  have "sum_list (map (\<lambda>x. f x + (if key x = key u then c else 0)) ms) = sum_list (map f ms)"
    if "key u \<notin> key ` set ms"
    using that by (intro arg_cong[of _ _ sum_list] map_cong) (auto simp: rev_image_eqI)
  then show ?case using Cons by (cases "m = u") auto
qed simp

definition score_in :: "db \<Rightarrow> user \<Rightarrow> int" where
  "score_in d w = projr (user_get_score d None w True)"

lemma score_in: "user_get_score d None w True = Inr (score_in d w)"
  using user_score_total[of d w] by (auto simp: score_in_def)

lemma account_score_with_award:
  assumes "awards d' = awards d @ [a]" "submissions d' = submissions d" "solve_rows d' = solve_rows d"
    "challenges d' = challenges d" "users d' = users d" "teams d' = teams d"
    "aw_user_id a = Some (us_id u)" "u \<in> set (users d)" "distinct (map us_id (users d))"
    "account_score d conf u = Inr n"
  shows "account_score d' conf u = Inr (n + award_points a)"
proof (cases "is_teams_mode conf")
  case False
  then show ?thesis
    using assms(7,10) score_with_award[OF assms(1-4)] by (auto simp: account_score_def split: if_splits)
next
  case True
  then obtain t where t: "user_team d u = Some t" "team_get_score d None t True = Inr n"
    using assms(10) by (auto simp: account_score_def split: option.splits)
  have mem: "team_members d' t = team_members d t" using assms(5) by (simp add: team_members_def)
  have u: "u \<in> set (team_members d t)" "distinct (map us_id (team_members d t))"
    using t(1) assms(8,9)
    by (auto simp: team_members_def user_team_def team_by_id_def distinct_map_filter
        split: option.splits dest: first_where_SomeD)
  have new: "user_get_score d' None m True =
      Inr (score_in d m + (if us_id m = us_id u then award_points a else 0))" for m
    using score_with_award[OF assms(1-4) score_in[of d m]] assms(7) by auto
  have "team_get_score d' None t True = Inr (sum_list (map (score_in d) (team_members d t)) + award_points a)"
    unfolding team_get_score_def mem
    by (subst foldE_sum[OF new]) (simp add: sum_list_one_changed[OF u(2,1)])
  moreover have "n = sum_list (map (score_in d) (team_members d t))"
    using t(2) unfolding team_get_score_def by (subst (asm) foldE_sum[OF score_in]) simp
  moreover have "user_team d' u = user_team d u"
    using assms(6) by (simp add: user_team_def team_by_id_def split: option.split)
  ultimately show ?thesis using True t(1) by (simp add: account_score_def)
qed

section \<open>Properties\<close>

lemma buy_hintE:
  assumes "buy_hint conf now u target d = Inr (Bought x, d')"
  obtains h cost n description where "h \<in> set (hints d)" "hi_id h = target" "hi_cost h = Some cost"
    "account_score d conf u = Inr n" "cost \<le> n" "\<not> already_unlocked d conf u target" "x = new_unlock d now u target"
    "d' = d\<lparr>unlocks := unlocks d @ [x], awards := awards d @ [hint_award d now u h cost description]\<rparr>"
  using assms
  by (auto simp: buy_hint_def bindE_Inr_iff first_or_404_def Let_def split: option.splits if_splits
      dest!: first_where_SomeD)

text \<open>
  Property C22: a purchase costs the buyer's account exactly the price of the hint, which it could
  afford, adds one unlock of that hint for it, and changes no other user's score.
\<close>

theorem purchase_spends_cost:
  assumes "buy_hint conf now u target d = Inr (Bought x, d')"
    and "u \<in> set (users d)" "distinct (map us_id (users d))"
  shows "\<exists>cost n. (\<exists>h\<in>set (hints d). hi_id h = target \<and> hi_cost h = Some cost) \<and>
    account_score d conf u = Inr n \<and> cost \<le> n \<and> account_score d' conf u = Inr (n - cost) \<and>
    unlocks d' = unlocks d @ [x] \<and> un_target x = Some target \<and> un_user_id x = Some (us_id u) \<and>
    (\<forall>w. us_id w = us_id u \<or> user_get_score d' None w True = user_get_score d None w True)"
  using assms(1)
proof (cases rule: buy_hintE)
  case (1 h cost n description)
  let ?a = "hint_award d now u h cost description"
  have frame: "awards d' = awards d @ [?a]" "submissions d' = submissions d" "solve_rows d' = solve_rows d"
    "challenges d' = challenges d" "users d' = users d" "teams d' = teams d" "aw_user_id ?a = Some (us_id u)"
    "award_points ?a = - cost"
    by (simp_all add: 1(8) hint_award_def award_points_def)
  have "account_score d' conf u = Inr (n - cost)"
    using account_score_with_award[OF frame(1-7) assms(2,3) 1(4)] frame(8) by simp
  moreover have "us_id w = us_id u \<or> user_get_score d' None w True = user_get_score d None w True" for w
    using score_with_award[OF frame(1-4) score_in[of d w]] frame(7) score_in[of d w] by auto
  ultimately show ?thesis using 1 by (auto simp: new_unlock_def)
qed

text \<open>
  Also proved: an account that has unlocked a hint never pays for it again: whoever of the account
  asks, no later purchase of the hint goes through.
\<close>

theorem no_second_purchase:
  assumes "buy_hint conf now u target d = Inr (Bought x, d1)" "unlocks d1 = unlocks d @ [x]"
    and "set (unlocks d1) \<subseteq> set (unlocks d2)" "user_account_id conf v = user_account_id conf u"
  shows "\<nexists>y d3. buy_hint conf later v target d2 = Inr (Bought y, d3)"
proof -
  have x: "x = new_unlock d now u target" using assms(1) by (auto elim: buy_hintE)
  have "unlock_account_id conf x = user_account_id conf u"
    by (simp add: x new_unlock_def unlock_account_id_def user_account_id_def)
  moreover have "x \<in> set (unlocks d2)" using assms(2,3) by auto
  moreover have "un_target x = Some target" "un_type x = Some ''hints''" by (simp_all add: x new_unlock_def)
  ultimately have "already_unlocked d2 conf v target"
    using assms(4) unfolding already_unlocked_def list_ex_iff filter_eq_def by metis
  then show ?thesis by (auto elim: buy_hintE)
qed

text \<open>
  Property C23: outside an administrator's view the content of a hint is shown only when it is free
  or unlocked for the asking account, and only when every existing prerequisite hint is free or
  unlocked for it.
\<close>

theorem hint_content_gated:
  assumes "hint_get preview hid c = Inr (Body (ShowHint view v))" "hv_content v \<noteq> None"
    and "\<not> yes (is_admin c)"
  shows "\<exists>h\<in>set (hints (cx_db c)). hi_id h = hid \<and>
    (free_hint h \<or> (\<exists>u. bearer_user c = Inr (Some u) \<and> hid \<in> set (unlocked_hints (cx_db c) (cx_conf c) u))) \<and>
    (\<not> truthy (hint_prerequisites h) \<or> (\<exists>u. bearer_user c = Inr (Some u) \<and>
       set (hint_prereqs (cx_db c) h) \<subseteq> set (open_hints (cx_db c) (cx_conf c) u)))"
  using assms
  by (auto simp: hint_get_def hint_view_of_def bindE_Inr_iff first_or_404_def dump_hint_def
      split: option.splits if_splits dest!: first_where_SomeD intro!: bexI)

text \<open>
  Also proved: a free hint without prerequisites is shown to anyone while the competition runs,
  whatever the state of its challenge and the visibility of challenges.
\<close>

theorem free_hint_public:
  assumes "ctftime (cx_conf c) (cx_now c) = Inr True" "rq_authorization (cx_request c) = None" "\<not> authed c"
    and "h \<in> set (hints (cx_db c))" "distinct (map hi_id (hints (cx_db c)))"
    and "free_hint h" "\<not> truthy (hint_prerequisites h)"
  shows "\<exists>view. get_hint False (hi_id h) c = Inr (Body (ShowHint view (dump_hint view h))) \<and>
    hv_content (dump_hint view h) = Some (hi_content h)"
proof -
  have "first_where (\<lambda>x. hi_id x = hi_id h) (hints (cx_db c)) = Some h"
    by (rule first_where_unique[OF assms(5,4)])
  then show ?thesis
    using assms by (simp add: get_hint_def during_ctf_time_only_def hint_get_def bearer_user_def bearer_value_def
        get_current_user_def first_or_404_def hint_view_of_def dump_hint_def)
qed

section \<open>Instances\<close>

definition costly_hint :: hint where
  "costly_hint = sample_hint\<lparr>hi_id := 5, hi_challenge_id := Some 3, hi_cost := Some 40, hi_requirements := PNone\<rparr>"

definition shop_db :: db where
  "shop_db = answered ctf_db\<lparr>hints := [costly_hint, costly_hint\<lparr>hi_id := 6, hi_cost := Some 0\<rparr>]\<rparr>"

definition shop_ctx :: "int option \<Rightarrow> db \<Rightarrow> ctx" where
  "shop_ctx who d = (let c = sample_ctx (sample_user 1 None) who ''GET'' None in
     c\<lparr>cx_db := d, cx_conf := mode_conf ''users'', cx_request := (cx_request c)\<lparr>rq_authorization := None\<rparr>\<rparr>)"

definition bought :: db where
  "bought = snd (projr (buy_hint (mode_conf ''users'') 9 (sample_user 1 None) 5 shop_db))"

lemma buys: "buy_hint (mode_conf ''users'') 9 (sample_user 1 None) 5 shop_db =
    Inr (Bought (new_unlock shop_db 9 (sample_user 1 None) 5), bought)"
  unfolding bought_def by code_simp

theorem purchase_spends_cost_witness:
  "account_score bought (mode_conf ''users'') (sample_user 1 None) = Inr 60"
proof -
  have "distinct (map us_id (users shop_db))" "users shop_db = [sample_user 1 None]"
    "account_score shop_db (mode_conf ''users'') (sample_user 1 None) = Inr 100"
    "list_all (\<lambda>h. hi_id h \<noteq> 5 \<or> hi_cost h = Some 40) (hints shop_db)"
    by code_simp+
  then show ?thesis
    using purchase_spends_cost[OF buys] by (auto simp: list_all_iff)
qed

theorem no_second_purchase_witness:
  "\<nexists>y d3. buy_hint (mode_conf ''users'') 20 (sample_user 1 None) 5 bought = Inr (Bought y, d3)"
proof (rule no_second_purchase[OF buys])
  show "unlocks bought = unlocks shop_db @ [new_unlock shop_db 9 (sample_user 1 None) 5]" by code_simp
qed simp_all

theorem hint_content_gated_witness:
  "\<exists>h\<in>set (hints bought). hi_id h = 5 \<and> (free_hint h \<or> 5 \<in> set (unlocked_hints bought (mode_conf ''users'') (sample_user 1 None)))"
proof -
  let ?c = "shop_ctx (Some 1) bought"
  have "hint_get False 5 ?c = Inr (Body (ShowHint ''unlocked'' (dump_hint ''unlocked'' costly_hint)))"
    "hv_content (dump_hint ''unlocked'' costly_hint) \<noteq> None" "\<not> yes (is_admin ?c)"
    "bearer_user ?c = Inr (Some (sample_user 1 None))"
    by code_simp+
  moreover have "cx_db ?c = bought" "cx_conf ?c = mode_conf ''users''" by (simp_all add: shop_ctx_def Let_def)
  ultimately show ?thesis using hint_content_gated[of False 5 ?c] by auto
qed

theorem free_hint_public_witness:
  "\<exists>view. get_hint False 6 (shop_ctx None shop_db) = Inr (Body (ShowHint view (dump_hint view (costly_hint\<lparr>hi_id := 6, hi_cost := Some 0\<rparr>))))"
proof -
  let ?c = "shop_ctx None shop_db" and ?h = "costly_hint\<lparr>hi_id := 6, hi_cost := Some 0\<rparr>"
  have "ctftime (cx_conf ?c) (cx_now ?c) = Inr True" "rq_authorization (cx_request ?c) = None" "\<not> authed ?c"
    "distinct (map hi_id (hints (cx_db ?c)))" "free_hint ?h" "\<not> truthy (hint_prerequisites ?h)" "hi_id ?h = 6"
    "hints (cx_db ?c) = [costly_hint, ?h]"
    by code_simp+
  then show ?thesis using free_hint_public[of ?c ?h] by auto
qed

end
