(* ===== verification/AwardsApi.thy ===== *)
theory AwardsApi imports HintShop Standings begin

text \<open>
  \<^verbatim>\<open>api/v1/awards.py\<close> and the name rule of \<^verbatim>\<open>schemas/awards.py\<close>.  The library's
  conversion of the validated fields into a row is the argument \<open>load\<close> (and \<open>reload\<close> on top of
  an existing row), the SHA-256 digests are \<open>fingerprint\<close> (of the canonical JSON text of
  the award's fields) and \<open>sha\<close>; nothing is assumed of them.
\<close>

section \<open>Creating\<close>

definition validate_name :: "bool \<Rightarrow> dict \<Rightarrow> py_exc + dict" where
  "validate_name partial data =
     (if \<not> has_key data ''name'' \<and> partial then Inr data
      else case dget data ''name'' of
        PStr s \<Rightarrow> if py_strip s = [] \<or> 80 < length (py_strip s)
          then Inl (ValidationError ''Name must contain 1 to 80 characters'' [''name''])
          else Inr (put ''name'' (PStr (py_strip s)) data)
      | _ \<Rightarrow> Inl (ValidationError ''Name must contain 1 to 80 characters'' [''name'']))"

datatype award_reply = Created award | Replayed award | Conflict | Rejected string

text \<open>The row an id value selects; anything that is not an integer selects none.\<close>

definition user_by_value :: "db \<Rightarrow> pyval \<Rightarrow> user option" where
  "user_by_value d v = (case v of PInt i \<Rightarrow> user_by_id d i | _ \<Rightarrow> None)"

text \<open>In teams mode the team is taken from the user when the request names none.\<close>

definition with_award_team :: "config \<Rightarrow> db \<Rightarrow> dict \<Rightarrow> py_exc + dict option" where
  "with_award_team conf d req =
     (if is_teams_mode conf \<and> dget req ''team_id'' = PNone
      then bindE (first_or_404 (user_by_value d (dget req ''user_id''))) (\<lambda>u.
        Inr (case us_team_id u of None \<Rightarrow> None | Some t \<Rightarrow> Some (put ''team_id'' (PInt t) req)))
      else Inr (Some req))"

definition award_payload :: "award \<Rightarrow> dict" where
  "award_payload a = [(''user_id'', of_opt_int (aw_user_id a)), (''team_id'', of_opt_int (aw_team_id a)),
     (''name'', PStr (aw_name a)), (''description'', of_opt_str (aw_description a)),
     (''value'', of_opt_int (aw_value a)), (''category'', of_opt_str (aw_category a)),
     (''icon'', of_opt_str (aw_icon a)), (''requirements'', aw_requirements a)]"

definition idempotency_key :: "(dict \<Rightarrow> string) \<Rightarrow> string option \<Rightarrow> award \<Rightarrow> string" where
  "idempotency_key fingerprint header a =
     (case header of None \<Rightarrow> fingerprint (award_payload a) | Some k \<Rightarrow> k)"

definition request_key :: "(string \<Rightarrow> string) \<Rightarrow> int \<Rightarrow> string \<Rightarrow> string" where
  "request_key sha admin key = sha (show_int admin @ '':'' @ key)"

definition replay :: "string \<Rightarrow> award \<Rightarrow> award_reply" where
  "replay hash a = (if aw_request_hash a \<noteq> Some hash then Conflict else Replayed a)"

definition by_request_key :: "db \<Rightarrow> string \<Rightarrow> award option" where
  "by_request_key d k = first_where (\<lambda>a. aw_request_key a = Some k) (awards d)"

definition insert_award :: "(dict \<Rightarrow> string) \<Rightarrow> (string \<Rightarrow> string) \<Rightarrow> int \<Rightarrow> int \<Rightarrow> string option \<Rightarrow> award \<Rightarrow> db \<Rightarrow>
     award_reply \<times> db" where
  "insert_award fingerprint sha admin now header a d =
     (let key = idempotency_key fingerprint header a in
      if py_strip key = [] \<or> 128 < length key then (Rejected ''Idempotency-Key'', d)
      else case by_request_key d (request_key sha admin key) of
        Some b \<Rightarrow> (replay (fingerprint (award_payload a)) b, d)
      | None \<Rightarrow>
          let n = a\<lparr>aw_id := fresh_id aw_id (awards d), aw_date := Some now,
            aw_request_key := Some (request_key sha admin key),
            aw_request_hash := Some (fingerprint (award_payload a))\<rparr> in
          (Created n, d\<lparr>awards := awards d @ [n]\<rparr>))"

text \<open>An \<open>except\<close> clause that answers the field it names; other exceptions propagate.\<close>

definition rejecting ::
  "(py_exc \<Rightarrow> string option) \<Rightarrow> db \<Rightarrow> py_exc + 'a \<Rightarrow> ('a \<Rightarrow> py_exc + award_reply \<times> db) \<Rightarrow> py_exc + award_reply \<times> db" where
  "rejecting named d r f = (case r of Inr a \<Rightarrow> f a
     | Inl e \<Rightarrow> (case named e of Some n \<Rightarrow> Inr (Rejected n, d) | None \<Rightarrow> Inl e))"

fun scoring_field :: "py_exc \<Rightarrow> string option" where
  "scoring_field (ScoringValidationError f m) = Some f"
| "scoring_field _ = None"

fun schema_field :: "py_exc \<Rightarrow> string option" where
  "schema_field (ValidationError m fs) = Some (join_with '','' fs)"
| "schema_field _ = None"

fun input_field :: "py_exc \<Rightarrow> string option" where
  "input_field (ScoringValidationError f m) = Some f"
| "input_field (ValidationError m fs) = Some (join_with '','' fs)"
| "input_field _ = None"

lemma rejecting_Inr [monad_simps]:
  "rejecting named d r f = Inr x \<longleftrightarrow> (\<exists>a. r = Inr a \<and> f a = Inr x) \<or>
     (\<exists>e n. r = Inl e \<and> named e = Some n \<and> x = (Rejected n, d))"
  by (auto simp: rejecting_def split: sum.split option.split)

definition award_post ::
  "(dict \<Rightarrow> py_exc + award) \<Rightarrow> (dict \<Rightarrow> string) \<Rightarrow> (string \<Rightarrow> string) \<Rightarrow> config \<Rightarrow> int \<Rightarrow> int \<Rightarrow> string option \<Rightarrow>
     dict \<Rightarrow> db \<Rightarrow> py_exc + award_reply \<times> db" where
  "award_post load fingerprint sha conf admin now header req d =
     (if \<not> py_eq (dget_default req ''type'' (PStr ''standard'')) (PStr ''standard'') then Inr (Rejected ''type'', d)
      else rejecting scoring_field d (score_integer (dget req ''value'') ''value'' (- 2147483648)) (\<lambda>v.
        bindE (with_award_team conf d (put ''value'' (PInt v) req)) (\<lambda>r. case r of
          None \<Rightarrow> Inr (Rejected ''team_id'', d)
        | Some data \<Rightarrow> rejecting schema_field d (bindE (validate_name False data) load) (\<lambda>a.
            if (case aw_user_id a of None \<Rightarrow> True | Some i \<Rightarrow> user_by_id d i = None)
            then Inr (Rejected ''user_id'', d)
            else if (case aw_team_id a of None \<Rightarrow> False | Some t \<Rightarrow> team_by_id d t = None)
            then Inr (Rejected ''team_id'', d)
            else Inr (insert_award fingerprint sha admin now header a d)))))"

section \<open>Changing and removing\<close>

definition award_editable :: "string set" where
  "award_editable = {''name'', ''description'', ''value'', ''category'', ''icon'', ''requirements'', ''user_id'', ''team_id''}"

definition award_value_input :: "dict \<Rightarrow> py_exc + dict" where
  "award_value_input req = (if has_key req ''value''
     then bindE (score_integer (dget req ''value'') ''value'' (- 2147483648)) (\<lambda>v. Inr (put ''value'' (PInt v) req))
     else Inr req)"

text \<open>In teams mode the award follows its user's team.\<close>

definition award_team_rule :: "config \<Rightarrow> db \<Rightarrow> award \<Rightarrow> dict \<Rightarrow> dict option" where
  "award_team_rule conf d a req =
     (if is_teams_mode conf \<and> (has_key req ''user_id'' \<or> has_key req ''team_id'')
      then case user_by_value d (dget_default req ''user_id'' (of_opt_int (aw_user_id a))) of
          None \<Rightarrow> None
        | Some u \<Rightarrow> (case us_team_id u of
            None \<Rightarrow> None
          | Some t \<Rightarrow> if dget req ''team_id'' \<noteq> PNone \<and> \<not> py_eq (dget req ''team_id'') (PInt t) then None
                      else Some (put ''team_id'' (PInt t) req))
      else Some req)"

definition award_patch ::
  "(dict \<Rightarrow> award \<Rightarrow> py_exc + award) \<Rightarrow> config \<Rightarrow> pyval \<Rightarrow> dict \<Rightarrow> db \<Rightarrow> py_exc + award_reply \<times> db" where
  "award_patch reload conf award_id req d =
     (if \<not> fst ` set req \<subseteq> award_editable then Inr (Rejected ''body'', d)
      else rejecting input_field d (bindE (positive_id award_id ''id'') (\<lambda>i.
          bindE (reference req ''user_id'' (\<lambda>u. user_by_id d u \<noteq> None) False False) (\<lambda>r1.
          bindE (reference r1 ''team_id'' (\<lambda>t. team_by_id d t \<noteq> None) False True) (\<lambda>r2.
          bindE (award_value_input r2) (\<lambda>r3. Inr (i, r3)))))) (\<lambda>(i, data).
        bindE (first_or_404 (first_where (\<lambda>a. aw_id a = i) (awards d))) (\<lambda>a.
        case award_team_rule conf d a data of
          None \<Rightarrow> Inr (Rejected ''team_id'', d)
        | Some data' \<Rightarrow> rejecting schema_field d (bindE (validate_name True data') (\<lambda>x. reload x a)) (\<lambda>b.
            let b' = b\<lparr>aw_id := aw_id a, aw_date := aw_date a, aw_request_key := aw_request_key a,
              aw_request_hash := aw_request_hash a\<rparr> in
            Inr (Created b', d\<lparr>awards := update_where (\<lambda>x. aw_id x = i) (\<lambda>_. b') (awards d)\<rparr>)))))"

definition award_delete :: "int \<Rightarrow> db \<Rightarrow> py_exc + db" where
  "award_delete i d =
     bindE (first_or_404 (first_where (\<lambda>a. aw_id a = i) (awards d))) (\<lambda>_.
     Inr (d\<lparr>awards := delete_where (\<lambda>a. aw_id a = i) (awards d)\<rparr>))"

section \<open>The ledger\<close>

text \<open>
  Whatever writes the table of awards: the three endpoints and the purchase of hints.  The
  constraint on \<open>request_key\<close> and the ids hold in every state they reach.
\<close>

inductive ledger_step :: "config \<Rightarrow> db \<Rightarrow> db \<Rightarrow> bool" for conf where
  post: "award_post load fp sha conf admin now header req d = Inr (r, d') \<Longrightarrow> ledger_step conf d d'"
| patch: "award_patch reload conf i req d = Inr (r, d') \<Longrightarrow> ledger_step conf d d'"
| delete: "award_delete i d = Inr d' \<Longrightarrow> ledger_step conf d d'"
| buy: "buy_hint conf now u target d = Inr (p, d') \<Longrightarrow> ledger_step conf d d'"

inductive_cases ledger_stepE: "ledger_step conf d d'"

definition ledger_ok :: "db \<Rightarrow> bool" where
  "ledger_ok d = (distinct (map aw_id (awards d)) \<and> distinct (List.map_filter aw_request_key (awards d)))"

text \<open>What one step does to the awards: nothing, an appended row, a replaced row or a removed one.\<close>

lemma award_post_inserts:
  assumes "award_post load fp sha conf admin now header req d = Inr (r, d')"
  shows "d' = d \<and> (\<exists>n. r = Rejected n) \<or> (\<exists>a. insert_award fp sha admin now header a d = (r, d'))"
  using assms unfolding award_post_def
  by (auto simp: rejecting_Inr bindE_Inr_iff split: if_split_asm option.split_asm)

lemma insert_award_cases:
  assumes "insert_award fp sha admin now header a d = (r, d')"
  obtains (rejected) "d' = d" "r = Rejected ''Idempotency-Key''"
  | (seen) b key where "d' = d" "by_request_key d (request_key sha admin key) = Some b"
      "r = replay (fp (award_payload a)) b" "key = idempotency_key fp header a"
  | (fresh) n key where "d' = d\<lparr>awards := awards d @ [n]\<rparr>" "r = Created n" "aw_id n = fresh_id aw_id (awards d)"
      "aw_request_key n = Some (request_key sha admin key)" "by_request_key d (request_key sha admin key) = None"
      "key = idempotency_key fp header a" "aw_request_hash n = Some (fp (award_payload a))"
      "aw_user_id n = aw_user_id a" "aw_value n = aw_value a" "py_strip key \<noteq> []" "length key \<le> 128"
  using assms by (auto simp: insert_award_def Let_def split: if_split_asm option.split_asm)

lemma award_post_cases:
  assumes "award_post load fp sha conf admin now header req d = Inr (r, d')"
  obtains (same) "d' = d"
  | (created) n key where "d' = d\<lparr>awards := awards d @ [n]\<rparr>" "r = Created n" "aw_id n = fresh_id aw_id (awards d)"
      "aw_request_key n = Some (request_key sha admin key)" "by_request_key d (request_key sha admin key) = None"
  using award_post_inserts[OF assms] by (elim disjE exE conjE insert_award_cases) (use that in blast)+

lemma award_patch_cases:
  assumes "award_patch reload conf i req d = Inr (r, d')"
  obtains (same) "d' = d"
  | (changed) a b where "a \<in> set (awards d)" "aw_id b = aw_id a" "aw_request_key b = aw_request_key a"
      "d' = d\<lparr>awards := update_where (\<lambda>x. aw_id x = aw_id a) (\<lambda>_. b) (awards d)\<rparr>"
proof (cases "d' = d")
  case False
  then obtain j data a b0 where p: "first_where (\<lambda>a. aw_id a = j) (awards d) = Some a"
    and d': "d' = d\<lparr>awards := update_where (\<lambda>x. aw_id x = j) (\<lambda>_. b0\<lparr>aw_id := aw_id a, aw_date := aw_date a,
      aw_request_key := aw_request_key a, aw_request_hash := aw_request_hash a\<rparr>) (awards d)\<rparr>"
    using assms
    by (auto simp: award_patch_def monad_simps first_or_404_def Let_def split: if_splits option.splits)
  let ?b = "b0\<lparr>aw_id := aw_id a, aw_date := aw_date a, aw_request_key := aw_request_key a,
    aw_request_hash := aw_request_hash a\<rparr>"
  from first_where_SomeD[OF p] d' show thesis by (intro changed[of a ?b]) simp_all
qed (rule same)

lemma map_filter_update_where:
  "(\<And>x. x \<in> set xs \<Longrightarrow> p x \<Longrightarrow> key (f x) = key x) \<Longrightarrow>
   List.map_filter key (update_where p f xs) = List.map_filter key xs"
  by (induction xs) (auto simp: update_where_def split: option.split)

lemma distinct_map_filter_delete:
  "distinct (List.map_filter key xs) \<Longrightarrow> distinct (List.map_filter key (delete_where p xs))"
  by (induction xs) (auto simp: delete_where_def set_map_filter split: option.splits)

lemma no_key: "by_request_key d k = None \<Longrightarrow> k \<notin> set (List.map_filter aw_request_key (awards d))"
  by (auto simp: by_request_key_def table_simps set_map_filter)

lemma ledger_step_ok: "ledger_step conf d d' \<Longrightarrow> ledger_ok d \<Longrightarrow> ledger_ok d'"
proof (induction rule: ledger_step.induct)
  case (post load fp sha admin now header req d r d')
  from post(1) show ?case
  proof (cases rule: award_post_cases)
    case (created n key)
    then show ?thesis using post(2) no_key[OF created(5)] fresh_id_append[of aw_id "awards d" n]
      by (auto simp: ledger_ok_def)
  qed (use post in simp)
next
  case (patch reload i req d r d')
  from patch(1) show ?case
  proof (cases rule: award_patch_cases)
    case (changed a b)
    have "x = a" if "x \<in> set (awards d)" "aw_id x = aw_id a" for x
      using patch(2) changed(1) that by (auto simp: ledger_ok_def distinct_map dest: inj_onD)
    then have "List.map_filter aw_request_key (awards d') = List.map_filter aw_request_key (awards d)"
      using changed by (auto intro!: map_filter_update_where)
    moreover have "map aw_id (awards d') = map aw_id (awards d)"
      using changed by (auto intro!: map_update_where)
    ultimately show ?thesis using patch(2) by (simp add: ledger_ok_def)
  qed (use patch in simp)
next
  case (delete i d d')
  then show ?case
    by (auto simp: award_delete_def bindE_Inr_iff ledger_ok_def intro: distinct_delete_where distinct_map_filter_delete)
next
  case (buy now u target d p d')
  then have "d' = d \<or> (\<exists>a x. awards d' = awards d @ [a] \<and> aw_id a = fresh_id aw_id (awards d) \<and> aw_request_key a = None)"
    by (auto simp: buy_hint_def bindE_Inr_iff hint_award_def Let_def split: option.splits if_splits)
  then show ?case using buy(2) fresh_id_append[of aw_id "awards d"] by (auto simp: ledger_ok_def)
qed

section \<open>Properties\<close>

text \<open>
  Also proved: whatever the administrators do and the players buy, in any order, award ids stay
  distinct and at most one award carries any one idempotency key of an administrator.
\<close>

theorem award_ledger_invariant:
  assumes "(ledger_step conf)\<^sup>*\<^sup>* d d'" "ledger_ok d"
  shows "ledger_ok d' \<and> (\<forall>a b k. a \<in> set (awards d') \<and> b \<in> set (awards d') \<and>
    aw_request_key a = Some k \<and> aw_request_key b = Some k \<longrightarrow> a = b)"
proof -
  from assms have ok: "ledger_ok d'" by (induction rule: rtranclp_induct) (auto intro: ledger_step_ok)
  have "a = b" if "distinct (List.map_filter aw_request_key xs)" "a \<in> set xs" "b \<in> set xs"
    "aw_request_key a = Some k" "aw_request_key b = Some k" for a b k xs
    using that by (induction xs) (auto simp: set_map_filter split: option.splits)
  then show ?thesis using ok by (auto simp: ledger_ok_def)
qed

lemma award_post_lookups:
  assumes "users d2 = users d" "teams d2 = teams d"
    and "award_post load fp sha conf admin now header req d = Inr (Created n, d')"
  shows "\<exists>a. insert_award fp sha admin now header a d = (Created n, d') \<and>
    award_post load fp sha conf admin later header req d2 = Inr (insert_award fp sha admin later header a d2)"
proof -
  have same: "user_by_id d2 = user_by_id d" "team_by_id d2 = team_by_id d" "user_by_value d2 = user_by_value d"
    using assms(1,2) by (auto simp: user_by_id_def team_by_id_def user_by_value_def fun_eq_iff split: pyval.split)
  have team: "with_award_team conf d2 = with_award_team conf d"
    by (simp add: with_award_team_def same fun_eq_iff)
  obtain v data a where given: "py_eq (dget_default req ''type'' (PStr ''standard'')) (PStr ''standard'')"
    "score_integer (dget req ''value'') ''value'' (- 2147483648) = Inr v"
    "with_award_team conf d (put ''value'' (PInt v) req) = Inr (Some data)"
    "bindE (validate_name False data) load = Inr a"
    "\<not> (case aw_user_id a of None \<Rightarrow> True | Some i \<Rightarrow> user_by_id d i = None)"
    "\<not> (case aw_team_id a of None \<Rightarrow> False | Some t \<Rightarrow> team_by_id d t = None)"
    and made: "insert_award fp sha admin now header a d = (Created n, d')"
    using assms(3) unfolding award_post_def
    by (auto simp: rejecting_Inr bindE_Inr_iff split: if_split_asm option.split_asm)
  have "award_post load fp sha conf admin later header req d2 = Inr (insert_award fp sha admin later header a d2)"
    unfolding award_post_def team same using given by (simp add: rejecting_def)
  with made show ?thesis by blast
qed

text \<open>
  Also proved: creating an award gives its value to its user's score and to nobody else's; the same
  request sent again, at any later time and after any other awards, answers the award already
  made and changes nothing.
\<close>

theorem award_retry_safe:
  assumes "award_post load fp sha conf admin now header req d = Inr (Created a, d')"
    and "users d2 = users d" "teams d2 = teams d" "awards d2 = awards d' @ extra"
  shows "award_post load fp sha conf admin later header req d2 = Inr (Replayed a, d2) \<and>
    (\<forall>w. user_get_score d' None w True =
      Inr (score_in d w + (if aw_user_id a = Some (us_id w) then award_points a else 0)))"
proof -
  obtain a0 where a0: "insert_award fp sha admin now header a0 d = (Created a, d')"
    "award_post load fp sha conf admin later header req d2 = Inr (insert_award fp sha admin later header a0 d2)"
    using award_post_lookups[OF assms(2,3,1)] by blast
  from a0(1) show ?thesis
  proof (cases rule: insert_award_cases)
    case (seen b key)
    then show ?thesis by (simp add: replay_def split: if_splits)
  next
    case (fresh n key)
    have "by_request_key d2 (request_key sha admin key) = Some n"
      using fresh(1,4,5) assms(4) by (simp add: by_request_key_def first_where_append)
    then have "insert_award fp sha admin later header a0 d2 = (Replayed n, d2)"
      using fresh(6,7,10,11) by (simp add: insert_award_def replay_def)
    moreover have "user_get_score d' None w True =
        Inr (score_in d w + (if aw_user_id a = Some (us_id w) then award_points a else 0))" for w
      using fresh(1,2) by (intro score_with_award[OF _ _ _ _ score_in]) simp_all
    ultimately show ?thesis using a0(2) fresh(2) by simp
  qed simp
qed

section \<open>Instances\<close>

text \<open>A conversion of the fields, for the concrete runs below.\<close>

definition plain_load :: "dict \<Rightarrow> py_exc + award" where
  "plain_load data = (let int_of = (\<lambda>k. case dget data k of PInt i \<Rightarrow> Some i | _ \<Rightarrow> None);
       str_of = (\<lambda>k. case dget data k of PStr s \<Rightarrow> Some s | _ \<Rightarrow> None) in
     Inr \<lparr>aw_id = 0, aw_user_id = int_of ''user_id'', aw_team_id = int_of ''team_id'', aw_type = Some ''standard'',
       aw_name = (case str_of ''name'' of None \<Rightarrow> [] | Some s \<Rightarrow> s), aw_description = str_of ''description'',
       aw_date = None, aw_value = int_of ''value'', aw_category = str_of ''category'', aw_icon = str_of ''icon'',
       aw_requirements = dget data ''requirements'', aw_request_key = None, aw_request_hash = None\<rparr>)"

definition bonus_request :: "int \<Rightarrow> dict" where
  "bonus_request t = [(''name'', PStr '' bonus ''), (''user_id'', PInt 1), (''team_id'', PInt t), (''value'', PStr ''30'')]"

definition two_teams_db :: db where
  "two_teams_db = empty_db\<lparr>users := [sample_user 1 (Some 7)], teams := [sample_team 7 (Some 1), sample_team 8 None]\<rparr>"

definition post_bonus :: "int \<Rightarrow> db \<Rightarrow> py_exc + award_reply \<times> db" where
  "post_bonus t = award_post plain_load (\<lambda>_. ''digest'') (\<lambda>s. s) (mode_conf ''teams'') 1 5 None (bonus_request t)"

definition bonus :: award where
  "bonus = hd (awards (snd (projr (post_bonus 7 two_teams_db))))"

lemma bonus_created: "post_bonus 7 two_teams_db = Inr (Created bonus, two_teams_db\<lparr>awards := [bonus]\<rparr>)"
  unfolding bonus_def by code_simp

theorem award_ledger_invariant_witness: "ledger_ok (two_teams_db\<lparr>awards := [bonus]\<rparr>)"
proof -
  have "(ledger_step (mode_conf ''teams''))\<^sup>*\<^sup>* two_teams_db (two_teams_db\<lparr>awards := [bonus]\<rparr>)"
    using bonus_created unfolding post_bonus_def by (intro r_into_rtranclp ledger_step.post)
  moreover have "ledger_ok two_teams_db" by code_simp
  ultimately show ?thesis using award_ledger_invariant by blast
qed

theorem award_retry_safe_witness:
  "post_bonus 7 (two_teams_db\<lparr>awards := [bonus]\<rparr>) = Inr (Replayed bonus, two_teams_db\<lparr>awards := [bonus]\<rparr>)"
  using award_retry_safe[OF bonus_created[unfolded post_bonus_def], of "two_teams_db\<lparr>awards := [bonus]\<rparr>" "[]" 5]
  unfolding post_bonus_def by simp

text \<open>
  Also proved: creating an award does not check that the named team is the user's, as changing one
  does: the standings then count points for a team whose own score does not have them.
\<close>

theorem award_team_unchecked:
  "case post_bonus 8 two_teams_db of
     Inr (Created a, d) \<Rightarrow> us_team_id (sample_user 1 (Some 7)) \<noteq> aw_team_id a \<and>
       team_get_score d None (sample_team 8 None) True = Inr 0 \<and>
       (case get_standings (mode_conf ''teams'') d None None True of
          Inr rows \<Rightarrow> map (\<lambda>s. (en_id (sd_entrant s), sd_score s)) rows = [(8, 30), (7, 0)]
        | Inl e \<Rightarrow> False) \<and>
       fst (projr (award_patch (\<lambda>x a. Inr a) (mode_conf ''teams'') (PInt (aw_id a)) [(''team_id'', PInt 8)] d)) =
         Rejected ''team_id''
   | _ \<Rightarrow> False"
  by code_simp

end
