(* ===== verification/LoginLimit.thy ===== *)
theory LoginLimit imports Access begin

text \<open>
  \<^verbatim>\<open>utils/security/login_limit.py\<close>: fixed windows of login attempts per client address and
  per account.  The in-memory cache and the Redis commands are arguments.  The commands are described
  by the locale \<open>redis_commands\<close> (a key lives until its deadline), and the bound on the attempts is
  proved for the Redis counter from the interface it provides, \<open>login_counter\<close>.  No bound is claimed
  for the in-memory cache of the tests, which drops entries above its threshold.  Times are
  seconds; the key is the prefix followed by a digest, of which nothing is assumed.
\<close>

section \<open>The two counters\<close>

text \<open>The Lua script, over the commands \<open>INCR\<close>, \<open>EXPIRE\<close> and \<open>TTL\<close>.\<close>

definition login_counter_script ::
  "('s \<Rightarrow> rat \<Rightarrow> string \<Rightarrow> nat \<times> 's) \<Rightarrow> ('s \<Rightarrow> rat \<Rightarrow> string \<Rightarrow> int \<Rightarrow> 's) \<Rightarrow> ('s \<Rightarrow> rat \<Rightarrow> string \<Rightarrow> int) \<Rightarrow>
     int \<Rightarrow> 's \<Rightarrow> rat \<Rightarrow> string \<Rightarrow> (nat \<times> int) \<times> 's" where
  "login_counter_script incr expire ttl window s now key =
     (let (n, s1) = incr s now key;
          s2 = (if n = 1 then expire s1 now key window else s1);
          left = ttl s2 now key in
      if left < 0 then ((n, window), expire s2 now key window) else ((n, left), s2))"

definition consume_redis ::
  "('s \<Rightarrow> rat \<Rightarrow> string \<Rightarrow> nat \<times> 's) \<Rightarrow> ('s \<Rightarrow> rat \<Rightarrow> string \<Rightarrow> int \<Rightarrow> 's) \<Rightarrow> ('s \<Rightarrow> rat \<Rightarrow> string \<Rightarrow> int) \<Rightarrow>
     int \<Rightarrow> 's \<Rightarrow> rat \<Rightarrow> string \<Rightarrow> (nat \<times> int) \<times> 's" where
  "consume_redis incr expire ttl window s now key =
     (let ((n, left), s') = login_counter_script incr expire ttl window s now key in ((n, max 1 left), s'))"

text \<open>The in-memory path; \<open>int\<close> truncates, and the difference is positive.\<close>

definition consume_simple ::
  "('s \<Rightarrow> rat \<Rightarrow> string \<Rightarrow> (nat \<times> rat) option) \<Rightarrow> ('s \<Rightarrow> rat \<Rightarrow> string \<Rightarrow> nat \<times> rat \<Rightarrow> int \<Rightarrow> 's) \<Rightarrow>
     int \<Rightarrow> 's \<Rightarrow> rat \<Rightarrow> string \<Rightarrow> (nat \<times> int) \<times> 's" where
  "consume_simple get set_entry window s now key =
     (let (n, expires) = (case get s now key of
            Some (c, e) \<Rightarrow> if now < e then (c, e) else (0, now + of_int window)
          | None \<Rightarrow> (0, now + of_int window));
          ttl = max 1 \<lfloor>expires - now + 999 / 1000\<rfloor> in
      ((Suc n, ttl), set_entry s now key (Suc n, expires) ttl))"

datatype backend = RedisBackend | SimpleBackend | OtherBackend

text \<open>\<open>consume_login_budget\<close> over the two stores, after the key is formed.\<close>

definition login_key :: "(string \<Rightarrow> string) \<Rightarrow> string \<Rightarrow> string" where
  "login_key digest identity = ''fctf:management:security:login:'' @ digest identity"

definition consume_login_budget ::
  "backend \<Rightarrow> ('s \<Rightarrow> rat \<Rightarrow> string \<Rightarrow> (nat \<times> int) \<times> 's) \<Rightarrow> ('s \<Rightarrow> rat \<Rightarrow> string \<Rightarrow> (nat \<times> int) \<times> 's) \<Rightarrow>
     's \<Rightarrow> rat \<Rightarrow> string \<Rightarrow> py_exc + (nat \<times> int) \<times> 's" where
  "consume_login_budget b redis simple s now key = (case b of
      RedisBackend \<Rightarrow> Inr (redis s now key)
    | SimpleBackend \<Rightarrow> Inr (simple s now key)
    | OtherBackend \<Rightarrow> Inl (RuntimeError ''Login limiting requires Redis or SimpleCache''))"

section \<open>The decorator\<close>

datatype verdict = Admitted | TooMany int | Unavailable

definition account_named :: "(string \<Rightarrow> string) \<Rightarrow> db \<Rightarrow> string \<Rightarrow> user option" where
  "account_named lower d name = first_where (\<lambda>u. lower (us_name u) = name \<or> map_option lower (us_email u) = Some name) (users d)"

definition login_identity :: "(string \<Rightarrow> string) \<Rightarrow> db \<Rightarrow> string \<Rightarrow> string" where
  "login_identity lower d name = (case account_named lower d name of
      Some u \<Rightarrow> ''user:'' @ show_int (us_id u) | None \<Rightarrow> ''account:'' @ name)"

definition login_name :: "string option \<Rightarrow> string" where
  "login_name form_name = (case form_name of None \<Rightarrow> [] | Some n \<Rightarrow> py_lower (py_strip n))"

text \<open>One identity is charged and compared with its limit.\<close>

definition check_budget ::
  "('s \<Rightarrow> rat \<Rightarrow> string \<Rightarrow> py_exc + (nat \<times> int) \<times> 's) \<Rightarrow> nat \<Rightarrow> string \<Rightarrow> rat \<Rightarrow> 's \<Rightarrow> verdict \<times> 's" where
  "check_budget consume limit key now s = (case consume s now key of
      Inl _ \<Rightarrow> (Unavailable, s)
    | Inr ((n, retry), s') \<Rightarrow> (if limit < n then TooMany retry else Admitted, s'))"

record login_request =
  lg_post :: bool
  lg_ip :: string
  lg_name :: "string option"
  lg_time :: rat

definition limit_login ::
  "('s \<Rightarrow> rat \<Rightarrow> string \<Rightarrow> py_exc + (nat \<times> int) \<times> 's) \<Rightarrow> (string \<Rightarrow> string) \<Rightarrow> (string \<Rightarrow> string) \<Rightarrow> db \<Rightarrow>
     login_request \<Rightarrow> 's \<Rightarrow> verdict \<times> 's" where
  "limit_login consume digest lower d r s =
     (if \<not> lg_post r then (Admitted, s)
      else let name = login_name (lg_name r) in
        case check_budget consume 20 (login_key digest (''ip:'' @ lg_ip r)) (lg_time r) s of
          (Admitted, s1) \<Rightarrow>
            if name = [] then (Admitted, s1)
            else check_budget consume 5 (login_key digest (login_identity lower d name)) (lg_time r) s1
        | other \<Rightarrow> other)"

fun login_run ::
  "('s \<Rightarrow> rat \<Rightarrow> string \<Rightarrow> py_exc + (nat \<times> int) \<times> 's) \<Rightarrow> (string \<Rightarrow> string) \<Rightarrow> (string \<Rightarrow> string) \<Rightarrow> db \<Rightarrow>
     login_request list \<Rightarrow> 's \<Rightarrow> verdict list" where
  "login_run consume digest lower d [] s = []"
| "login_run consume digest lower d (r # rs) s =
     (let (v, s') = limit_login consume digest lower d r s in v # login_run consume digest lower d rs s')"

text \<open>The key a request is charged under, and its limit.\<close>

datatype charge = ByAddress | ByAccount

fun charge_limit :: "charge \<Rightarrow> nat" where
  "charge_limit ByAddress = 20"
| "charge_limit ByAccount = 5"

fun charged :: "charge \<Rightarrow> (string \<Rightarrow> string) \<Rightarrow> (string \<Rightarrow> string) \<Rightarrow> db \<Rightarrow> string \<Rightarrow> login_request \<Rightarrow> bool" where
  "charged ByAddress digest lower d k r = (lg_post r \<and> login_key digest (''ip:'' @ lg_ip r) = k)"
| "charged ByAccount digest lower d k r = (lg_post r \<and> login_name (lg_name r) \<noteq> [] \<and>
     login_key digest (login_identity lower d (login_name (lg_name r))) = k)"

section \<open>What the decorator relies on\<close>

text \<open>
  A counter of attempts: \<open>count_at s t k\<close> is what the current window of \<open>k\<close> holds at time
  \<open>t\<close>, \<open>horizon s k\<close> a time before which a running window does not end.
\<close>

locale login_counter =
  fixes consume :: "'s \<Rightarrow> rat \<Rightarrow> string \<Rightarrow> (nat \<times> int) \<times> 's"
    and count_at :: "'s \<Rightarrow> rat \<Rightarrow> string \<Rightarrow> nat"
    and horizon :: "'s \<Rightarrow> string \<Rightarrow> rat"
    and span :: rat
    and valid :: "'s \<Rightarrow> bool"
  assumes counts: "valid s \<Longrightarrow> consume s t k = ((n, r), s') \<Longrightarrow> n = Suc (count_at s t k) \<and> 1 \<le> r \<and> valid s'"
    and idle: "count_at s t k = 0 \<Longrightarrow> t \<le> t' \<Longrightarrow> count_at s t' k = 0"
    and kept: "valid s \<Longrightarrow> consume s t k = ((n, r), s') \<Longrightarrow> t \<le> t' \<Longrightarrow> t' < horizon s' k \<Longrightarrow> count_at s' t' k = n"
    and window: "valid s \<Longrightarrow> consume s t k = ((n, r), s') \<Longrightarrow>
      t + span \<le> horizon s' k \<or> 0 < count_at s t k \<and> horizon s k \<le> horizon s' k"
    and others: "consume s t k = ((n, r), s') \<Longrightarrow> k' \<noteq> k \<Longrightarrow>
      count_at s' t' k' = count_at s t' k' \<and> horizon s' k' = horizon s k'"
begin

text \<open>From time \<open>t\<close> to \<open>h\<close> the key holds \<open>c\<close> attempts.\<close>

definition tracked :: "'s \<Rightarrow> rat \<Rightarrow> string \<Rightarrow> rat \<Rightarrow> nat \<Rightarrow> bool" where
  "tracked s t k h c = (valid s \<and> (\<forall>t'. t \<le> t' \<and> t' < h \<longrightarrow> count_at s t' k = c) \<and> (0 < c \<longrightarrow> h \<le> horizon s k))"

lemma tracked_start: "valid s \<Longrightarrow> count_at s t k = 0 \<Longrightarrow> tracked s t k h 0"
  using idle by (auto simp: tracked_def)

lemma tracked_consume:
  assumes "tracked s t k h c" "t \<le> u" "u < h" "h \<le> u + span" "consume s u j = ((n, r), s')"
  shows "tracked s' u k h (if j = k then Suc c else c) \<and> (j = k \<longrightarrow> n = Suc c)"
proof (cases "j = k")
  case True
  have s: "valid s" and c: "count_at s u k = c" using assms(1-3) by (auto simp: tracked_def)
  have n: "n = Suc c" "valid s'" using counts[OF s assms(5)] c True by auto
  have "h \<le> horizon s' k"
    using window[OF s assms(5)] assms(1,4) c True by (auto simp: tracked_def)
  moreover have "count_at s' t' k = n" if "u \<le> t'" "t' < horizon s' k" for t'
    using kept[OF s assms(5) that(1)] that(2) True by simp
  ultimately show ?thesis using n True by (auto simp: tracked_def)
next
  case False
  then show ?thesis
    using assms(1,2) others[OF assms(5), of k] counts[OF _ assms(5)] by (auto simp: tracked_def)
qed

lemma tracked_check:
  assumes "tracked s t k h c" "t \<le> u" "u < h" "h \<le> u + span"
    and "check_budget (\<lambda>s t k. Inr (consume s t k)) limit j u s = (v, s')"
  shows "\<exists>c'. tracked s' u k h c' \<and> c \<le> c' \<and> (j = k \<and> v = Admitted \<longrightarrow> c < limit \<and> Suc c \<le> c')"
proof -
  obtain n r s1 where p: "consume s u j = ((n, r), s1)" by (metis surj_pair)
  then have "s' = s1" "v = (if limit < n then TooMany r else Admitted)"
    using assms(5) by (auto simp: check_budget_def)
  then show ?thesis
    using tracked_consume[OF assms(1-4) p]
    by (intro exI[of _ "if j = k then Suc c else c"]) (auto split: if_splits)
qed

lemma tracked_later: "tracked s t k h c \<Longrightarrow> t \<le> u \<Longrightarrow> tracked s u k h c"
  by (auto simp: tracked_def)

lemma tracked_login:
  assumes "tracked s t k h c" "t \<le> lg_time r" "lg_time r < h" "h \<le> lg_time r + span"
    and "limit_login (\<lambda>s t k. Inr (consume s t k)) digest lower d r s = (v, s')"
  shows "\<exists>c'. tracked s' (lg_time r) k h c' \<and> c \<le> c' \<and>
    (charged ch digest lower d k r \<and> v = Admitted \<longrightarrow> c < charge_limit ch \<and> Suc c \<le> c')"
proof (cases "lg_post r")
  case False
  then show ?thesis using assms tracked_later[OF assms(1,2)] by (cases ch) (auto simp: limit_login_def)
next
  case True
  let ?name = "login_name (lg_name r)"
  obtain v1 s1 where c1: "check_budget (\<lambda>s t k. Inr (consume s t k)) 20 (login_key digest (''ip:'' @ lg_ip r)) (lg_time r) s = (v1, s1)"
    by fastforce
  obtain c1 where t1: "tracked s1 (lg_time r) k h c1" "c \<le> c1"
    and ip: "login_key digest (''ip:'' @ lg_ip r) = k \<and> v1 = Admitted \<longrightarrow> c < 20 \<and> Suc c \<le> c1"
    using tracked_check[OF assms(1-4) c1] by blast
  show ?thesis
  proof (cases "v1 = Admitted \<and> ?name \<noteq> []")
    case False
    then have "v = v1" "s' = s1" using assms(5) True c1
      by (auto simp: limit_login_def Let_def split: verdict.splits if_splits)
    then show ?thesis using t1 ip False by (intro exI[of _ c1]) (cases ch; auto)
  next
    case True': True
    then have c2: "check_budget (\<lambda>s t k. Inr (consume s t k)) 5 (login_key digest (login_identity lower d ?name)) (lg_time r) s1 = (v, s')"
      using assms(5) True c1 by (auto simp: limit_login_def Let_def)
    obtain c2 where t2: "tracked s' (lg_time r) k h c2" "c1 \<le> c2"
      and ac: "login_key digest (login_identity lower d ?name) = k \<and> v = Admitted \<longrightarrow> c1 < 5 \<and> Suc c1 \<le> c2"
      using tracked_check[OF t1(1) order_refl assms(3,4) c2] by blast
    show ?thesis using t1 t2 ip ac True' by (intro exI[of _ c2]) (cases ch; auto)
  qed
qed

lemma login_run_bound:
  assumes "tracked s t k h c" "h \<le> t + span" "sorted (map lg_time rs)" "\<forall>r\<in>set rs. t \<le> lg_time r \<and> lg_time r < h"
  shows "length (filter (\<lambda>(r, v). charged ch digest lower d k r \<and> v = Admitted)
      (zip rs (login_run (\<lambda>s t k. Inr (consume s t k)) digest lower d rs s))) \<le> charge_limit ch - c"
  using assms
proof (induction rs arbitrary: s t c)
  case (Cons r rs)
  obtain v s' where p: "limit_login (\<lambda>s t k. Inr (consume s t k)) digest lower d r s = (v, s')" by fastforce
  have r: "t \<le> lg_time r" "lg_time r < h" "h \<le> lg_time r + span" using Cons.prems by auto
  obtain c' where c': "tracked s' (lg_time r) k h c'" "c \<le> c'"
    "charged ch digest lower d k r \<and> v = Admitted \<longrightarrow> c < charge_limit ch \<and> Suc c \<le> c'"
    using tracked_login[OF Cons.prems(1) r p] by blast
  have "\<forall>q\<in>set rs. lg_time r \<le> lg_time q \<and> lg_time q < h" "sorted (map lg_time rs)"
    using Cons.prems(3,4) by auto
  note IH = Cons.IH[OF c'(1) r(3) this(2,1)]
  show ?case using IH c' by (auto simp: p)
qed simp

end

section \<open>The in-memory counter\<close>

text \<open>
  As long as the cache serves the entry, an attempt raises its count and keeps its end; when the
  entry has ended, or the cache has dropped it before, the attempt is the first of a new window.
\<close>

lemma consume_simple_counts:
  assumes "get s now k = Some (c, e)" "now < e"
  shows "\<exists>ttl \<ge> 1. consume_simple get set_entry w s now k = ((Suc c, ttl), set_entry s now k (Suc c, e) ttl) \<and> e < now + of_int ttl + 1 / 1000"
proof -
  let ?ttl = "max 1 \<lfloor>e - now + 999 / 1000\<rfloor>"
  have "e - now < of_int ?ttl + 1 / 1000" by (simp add: max_def) linarith
  then show ?thesis using assms by (intro exI[of _ ?ttl]) (simp add: consume_simple_def Let_def)
qed

lemma consume_simple_restarts:
  "get s now k = None \<or> (\<exists>c e. get s now k = Some (c, e) \<and> e \<le> now) \<Longrightarrow> fst (fst (consume_simple get set_entry w s now k)) = 1"
  by (auto simp: consume_simple_def Let_def)

section \<open>The Redis counter\<close>

text \<open>Every counter has a deadline: the script leaves none without.\<close>

definition all_expire :: "('s \<Rightarrow> string \<Rightarrow> (nat \<times> rat option) option) \<Rightarrow> 's \<Rightarrow> bool" where
  "all_expire peek s = (\<forall>k c dl. peek s k = Some (c, dl) \<longrightarrow> dl \<noteq> None \<and> 0 < c)"

text \<open>
  The commands: \<open>INCR\<close> starts a missing or expired key at one without a deadline and keeps
  the deadline of a live one, \<open>EXPIRE\<close> sets it, \<open>TTL\<close> is negative exactly when the key
  has none.
\<close>

locale redis_commands =
  fixes peek :: "'s \<Rightarrow> string \<Rightarrow> (nat \<times> rat option) option"
    and incr :: "'s \<Rightarrow> rat \<Rightarrow> string \<Rightarrow> nat \<times> 's"
    and expire :: "'s \<Rightarrow> rat \<Rightarrow> string \<Rightarrow> int \<Rightarrow> 's"
    and ttl :: "'s \<Rightarrow> rat \<Rightarrow> string \<Rightarrow> int"
    and window_length :: int
    and live :: "'s \<Rightarrow> rat \<Rightarrow> string \<Rightarrow> nat"
  assumes live_def: "live s t k = (case peek s k of
        Some (c, dl) \<Rightarrow> if (case dl of None \<Rightarrow> True | Some x \<Rightarrow> t < x) then c else 0 | None \<Rightarrow> 0)"
    and incr_count: "fst (incr s t k) = Suc (live s t k)"
    and incr_peek: "peek (snd (incr s t k)) j = (if j = k
        then Some (Suc (live s t k), if live s t k = 0 then None else snd (the (peek s k))) else peek s j)"
    and expire_peek: "peek (expire s t k n) j = (if j = k
        then map_option (\<lambda>(c, dl). (c, Some (t + of_int n))) (peek s k) else peek s j)"
    and ttl_sign: "peek s k = Some (c, dl) \<Longrightarrow> ttl s t k < 0 \<longleftrightarrow> dl = None"
    and window_pos: "0 < window_length"
begin

definition deadline :: "'s \<Rightarrow> string \<Rightarrow> rat" where
  "deadline s k = (case peek s k of Some (c, Some x) \<Rightarrow> x | _ \<Rightarrow> 0)"

lemma script_writes:
  assumes "consume_redis incr expire ttl window_length s t k = ((n, r), s')" "all_expire peek s"
  obtains x where "n = Suc (live s t k)" "1 \<le> r" "\<And>j. peek s' j = (if j = k then Some (n, Some x) else peek s j)"
    "live s t k = 0 \<and> x = t + of_int window_length \<or> 0 < live s t k \<and> deadline s k = x"
proof -
  obtain s1 where s1: "incr s t k = (Suc (live s t k), s1)" using incr_count by (metis surjective_pairing)
  have p1: "peek s1 j = (if j = k then Some (Suc (live s t k), if live s t k = 0 then None else snd (the (peek s k)))
      else peek s j)" for j
    using incr_peek[of s t k j] s1 by simp
  show thesis
  proof (cases "live s t k = 0")
    case True
    let ?s2 = "expire s1 t k window_length"
    have p2: "peek ?s2 j = (if j = k then Some (1, Some (t + of_int window_length)) else peek s j)" for j
      using p1[of j] p1[of k] True by (simp add: expire_peek)
    then have "\<not> ttl ?s2 t k < 0" using ttl_sign[of ?s2 k 1 "Some (t + of_int window_length)"] by simp
    then have "n = 1" "1 \<le> r" "s' = ?s2"
      using assms(1) s1 True by (auto simp: consume_redis_def login_counter_script_def Let_def)
    then show thesis using that[of "t + of_int window_length"] p2 True by simp
  next
    case False
    have has: "dl \<noteq> None \<and> 0 < c" if "peek s k = Some (c, dl)" for c dl
      using assms(2) that unfolding all_expire_def by blast
    obtain x where x: "peek s k = Some (live s t k, Some x)"
      using False unfolding live_def[of s t k] by (auto split: option.splits if_splits dest: has)
    then have p2: "peek s1 j = (if j = k then Some (Suc (live s t k), Some x) else peek s j)" for j
      using p1[of j] False by simp
    then have "\<not> ttl s1 t k < 0" using ttl_sign[of s1 k "Suc (live s t k)" "Some x"] by simp
    then have "n = Suc (live s t k)" "1 \<le> r" "s' = s1"
      using assms(1) s1 False by (auto simp: consume_redis_def login_counter_script_def Let_def)
    then show thesis using that[of x] p2 False x by (simp add: deadline_def)
  qed
qed

lemma script_others:
  "consume_redis incr expire ttl window_length s t k = ((n, r), s') \<Longrightarrow> j \<noteq> k \<Longrightarrow> peek s' j = peek s j"
  using incr_peek[of s t k j]
  by (auto simp: consume_redis_def login_counter_script_def Let_def expire_peek split: prod.splits if_splits)

end

sublocale redis_commands \<subseteq> redis: login_counter "consume_redis incr expire ttl window_length" live deadline
  "of_int window_length" "all_expire peek"
proof
  fix s :: 's and t t' :: rat and k k' n r s'
  show "live s t k = 0 \<Longrightarrow> t \<le> t' \<Longrightarrow> live s t' k = 0"
    by (auto simp: live_def split: option.splits if_splits)
  assume p: "consume_redis incr expire ttl window_length s t k = ((n, r), s')"
  show "k' \<noteq> k \<Longrightarrow> live s' t' k' = live s t' k' \<and> deadline s' k' = deadline s k'"
    using script_others[OF p] by (simp add: live_def deadline_def)
  assume ok: "all_expire peek s"
  obtain x where w: "n = Suc (live s t k)" "1 \<le> r" "\<And>j. peek s' j = (if j = k then Some (n, Some x) else peek s j)"
    "live s t k = 0 \<and> x = t + of_int window_length \<or> 0 < live s t k \<and> deadline s k = x"
    using script_writes[OF p ok] by blast
  show "n = Suc (live s t k) \<and> 1 \<le> r \<and> all_expire peek s'"
    using w(1-3) ok by (auto simp: all_expire_def)
  show "t + of_int window_length \<le> deadline s' k \<or> 0 < live s t k \<and> deadline s k \<le> deadline s' k"
    using w(3,4) by (auto simp: deadline_def)
  show "t \<le> t' \<Longrightarrow> t' < deadline s' k \<Longrightarrow> live s' t' k = n"
    using w(3) by (auto simp: live_def deadline_def)
qed

context redis_commands
begin

lemma redis_bound:
  assumes "all_expire peek s" "live s t k = 0" "sorted (map lg_time rs)" "\<forall>r\<in>set rs. t \<le> lg_time r \<and> lg_time r < t + of_int window_length"
  shows "length (filter (\<lambda>(r, v). charged ch digest lower d k r \<and> v = Admitted)
      (zip rs (login_run (\<lambda>s t k. Inr (consume_redis incr expire ttl window_length s t k)) digest lower d rs s))) \<le> charge_limit ch"
  using redis.login_run_bound[OF redis.tracked_start, of s t k "t + of_int window_length" rs ch digest lower d] assms by simp

end

section \<open>A table of counters\<close>

text \<open>A store that behaves as Redis documents its commands, on which the interface is interpreted.\<close>

type_synonym counters = "(string \<times> nat \<times> rat option) list"

definition counter_live :: "counters \<Rightarrow> rat \<Rightarrow> string \<Rightarrow> nat" where
  "counter_live s t k = (case map_of s k of
      Some (c, dl) \<Rightarrow> if (case dl of None \<Rightarrow> True | Some x \<Rightarrow> t < x) then c else 0 | None \<Rightarrow> 0)"

definition counter_incr :: "counters \<Rightarrow> rat \<Rightarrow> string \<Rightarrow> nat \<times> counters" where
  "counter_incr s t k = (let n = counter_live s t k in
     (Suc n, put k (Suc n, if n = 0 then None else snd (the (map_of s k))) s))"

definition counter_expire :: "counters \<Rightarrow> rat \<Rightarrow> string \<Rightarrow> int \<Rightarrow> counters" where
  "counter_expire s t k n = (case map_of s k of None \<Rightarrow> s | Some (c, dl) \<Rightarrow> put k (c, Some (t + of_int n)) s)"

definition counter_ttl :: "counters \<Rightarrow> rat \<Rightarrow> string \<Rightarrow> int" where
  "counter_ttl s t k = (case map_of s k of None \<Rightarrow> - 2 | Some (c, None) \<Rightarrow> - 1 | Some (c, Some x) \<Rightarrow> max 0 \<lfloor>x - t + 1 / 2\<rfloor>)"

interpretation counter_store: redis_commands map_of counter_incr counter_expire counter_ttl 300 counter_live
  by unfold_locales
    (auto simp: counter_live_def counter_incr_def counter_expire_def counter_ttl_def Let_def split: option.splits)

section \<open>Properties\<close>

text \<open>The limiter on a Redis cache; \<open>simple\<close> is the branch it does not take there.\<close>

definition redis_budget where
  "redis_budget incr expire ttl simple = consume_login_budget RedisBackend (consume_redis incr expire ttl 300) simple"

definition admissions :: "charge \<Rightarrow> (string \<Rightarrow> string) \<Rightarrow> (string \<Rightarrow> string) \<Rightarrow> db \<Rightarrow> string \<Rightarrow> login_request list \<Rightarrow> verdict list \<Rightarrow> nat" where
  "admissions ch digest lower d k rs vs =
     length (filter (\<lambda>(r, v). charged ch digest lower d k r \<and> v = Admitted) (zip rs vs))"


text \<open>
  Also proved: when the counter cannot be reached no attempt is let through.
\<close>

theorem login_fails_closed:
  assumes "lg_post r" "\<And>s t k. \<exists>e. consume s t k = Inl e"
  shows "fst (limit_login consume digest lower d r s) = Unavailable"
  using assms(1) assms(2)[of s "lg_time r" "login_key digest (''ip:'' @ lg_ip r)"]
  by (auto simp: limit_login_def check_budget_def Let_def)

definition six_logins :: "login_request list" where
  "six_logins = map (\<lambda>i. \<lparr>lg_post = True, lg_ip = ''10.0.0.1'', lg_name = Some (if even i then '' Player '' else ''p@x''),
     lg_time = of_nat i\<rparr>) [0..<6]"

definition login_db :: db where
  "login_db = empty_db\<lparr>users := [(sample_user 1 None)\<lparr>us_email := Some ''P@x''\<rparr>]\<rparr>"

definition counted_logins :: "verdict list" where
  "counted_logins = login_run (redis_budget counter_incr counter_expire counter_ttl (\<lambda>s _ _. ((1, 1), s))) (\<lambda>s. s) py_lower login_db six_logins []"


theorem login_fails_closed_witness:
  "fst (limit_login (\<lambda>s t k. consume_login_budget OtherBackend (\<lambda>s t k. ((1, 1), s)) (\<lambda>s t k. ((1, 1), s)) s t k)
     (\<lambda>s. s) py_lower login_db (hd six_logins) ()) = Unavailable"
  by (rule login_fails_closed) (simp_all add: six_logins_def upt_rec consume_login_budget_def)

end
