(* ===== verification/Profiles.thy ===== *)
theory Profiles imports Access begin

text \<open>
  \<^verbatim>\<open>schemas/users.py\<close> and \<^verbatim>\<open>schemas/teams.py\<close>: what the two account schemas accept
  before the serializer converts the fields, and what they show.  The pre-load steps run in
  alphabetical order, as the library finds them; \<open>sql_lower\<close> is the database's \<open>LOWER\<close> and
  \<open>verify\<close> passlib's comparison of a password with a hash.
\<close>

section \<open>Profile fields\<close>

text \<open>The definition and the entry a row of the request selects; only integers select rows.\<close>

definition field_by_value :: "string \<Rightarrow> db \<Rightarrow> pyval \<Rightarrow> field_def option" where
  "field_by_value kind d v = (case v of
      PInt i \<Rightarrow> first_where (\<lambda>f. fd_type f = Some kind \<and> fd_id f = i) (field_defs d) | _ \<Rightarrow> None)"

definition owner_entries :: "string \<Rightarrow> db \<Rightarrow> int \<Rightarrow> field_entry list" where
  "owner_entries kind d owner = filter (\<lambda>e. fe_type e = Some kind \<and> fe_owner_id e = Some owner) (field_entries d)"

definition entry_for :: "string \<Rightarrow> db \<Rightarrow> int \<Rightarrow> int \<Rightarrow> field_entry option" where
  "entry_for kind d owner field = first_where (\<lambda>e. fe_field_id e = Some field) (owner_entries kind d owner)"

definition field_error :: "field_def \<Rightarrow> string \<Rightarrow> py_exc" where
  "field_error f what = ValidationError (''Field '' @ (case fd_name f of None \<Rightarrow> ''None'' | Some n \<Rightarrow> n) @ what) [''fields'']"

definition blank_text :: "pyval \<Rightarrow> bool" where
  "blank_text v = (case v of PStr s \<Rightarrow> py_strip s = [] | _ \<Rightarrow> False)"

text \<open>
  One row: its own id is discarded, the id of the owner's entry takes its place.  With
  \<open>strict\<close>, for a contestant, required fields may not be blank and entries of fields that are
  not editable stay as they are.
\<close>

definition field_step ::
  "string \<Rightarrow> bool \<Rightarrow> db \<Rightarrow> int \<Rightarrow> dict list \<times> int list \<Rightarrow> pyval \<Rightarrow> py_exc + dict list \<times> int list" where
  "field_step kind strict d owner acc v = (case v of
      PDict f \<Rightarrow>
        let f0 = del ''id'' f in
        bindE (first_or_404 (field_by_value kind d (dget f0 ''field_id''))) (\<lambda>fd.
        let e = entry_for kind d owner (fd_id fd) in
        if strict \<and> fd_required fd = Some True \<and> blank_text (dget f0 ''value'')
        then Inl (field_error fd '' is required'')
        else if strict \<and> fd_editable fd = Some False \<and> e \<noteq> None
        then Inl (field_error fd '' cannot be editted'')
        else Inr (case e of
            None \<Rightarrow> (fst acc @ [f0], snd acc)
          | Some e \<Rightarrow> (fst acc @ [put ''id'' (PInt (fe_id e)) f0], snd acc @ [fe_id e])))
    | PList l \<Rightarrow> Inl TypeError
    | _ \<Rightarrow> Inl AttributeError)"

text \<open>The entries the request leaves out are appended, so that they are not deleted.\<close>

definition keep_entries :: "string \<Rightarrow> db \<Rightarrow> int \<Rightarrow> dict list \<times> int list \<Rightarrow> dict list" where
  "keep_entries kind d owner acc =
     fst acc @ map (\<lambda>e. [(''id'', PInt (fe_id e))]) (filter (\<lambda>e. fe_id e \<notin> set (snd acc)) (owner_entries kind d owner))"

definition rewrite_fields :: "string \<Rightarrow> bool \<Rightarrow> db \<Rightarrow> int \<Rightarrow> pyval list \<Rightarrow> py_exc + dict list" where
  "rewrite_fields kind strict d owner fs =
     bindE (foldE (field_step kind strict d owner) ([], []) fs) (\<lambda>acc. Inr (keep_entries kind d owner acc))"

text \<open>A \<open>fields\<close> value that is not a list: what the loop and the append make of it.\<close>

definition field_rows :: "string \<Rightarrow> db \<Rightarrow> int \<Rightarrow> pyval \<Rightarrow> py_exc + pyval list" where
  "field_rows kind d owner v = (case v of
      PList l \<Rightarrow> Inr l
    | PStr s \<Rightarrow> if s = [] \<and> owner_entries kind d owner = [] then Inr [] else Inl AttributeError
    | PDict p \<Rightarrow> if p = [] \<and> owner_entries kind d owner = [] then Inr [] else Inl AttributeError
    | _ \<Rightarrow> Inl TypeError)"

text \<open>
  \<open>process_fields\<close>: which entries of a dump are withheld.  The view is compared with a name, so a
  view given as a list of fields withholds nothing.
\<close>

datatype view_arg = NamedView string | ListedView "string list" | NoView

definition withheld :: "string \<Rightarrow> db \<Rightarrow> view_arg \<Rightarrow> int list" where
  "withheld kind d view = map fd_id (filter (\<lambda>f. fd_type f = Some kind \<and>
     (if view = NamedView ''user'' then fd_public f = Some False
      else if view = NamedView ''self'' then fd_editable f = Some False \<and> fd_public f = Some False
      else False)) (field_defs d))"

definition process_fields :: "string \<Rightarrow> db \<Rightarrow> view_arg \<Rightarrow> field_entry list \<Rightarrow> field_entry list" where
  "process_fields kind d view es = filter (\<lambda>e. case fe_field_id e of None \<Rightarrow> True
     | Some f \<Rightarrow> f \<notin> set (withheld kind d view)) es"

section \<open>The users schema\<close>

definition user_view :: "string \<Rightarrow> string list option" where
  "user_view name =
     (if name = ''user'' then Some [''website'', ''name'', ''country'', ''affiliation'', ''bracket_id'', ''id'',
        ''oauth_id'', ''fields'', ''team_id'']
      else if name = ''self'' then Some [''website'', ''name'', ''email'', ''language'', ''country'', ''affiliation'',
        ''bracket_id'', ''id'', ''oauth_id'', ''password'', ''fields'', ''team_id'']
      else if name = ''admin'' then Some [''website'', ''name'', ''created'', ''country'', ''banned'', ''email'', ''language'',
        ''affiliation'', ''secret'', ''bracket_id'', ''hidden'', ''id'', ''oauth_id'', ''password'', ''type'', ''verified'',
        ''fields'', ''team_id'']
      else None)"

text \<open>The fields of a view that a request can set, and those a response shows.\<close>

definition user_loads :: "string list \<Rightarrow> string list" where
  "user_loads fs = filter (\<lambda>f. f \<notin> {''id'', ''oauth_id'', ''created''}) fs"

definition user_shows :: "string list \<Rightarrow> string list" where
  "user_shows fs = filter (\<lambda>f. f \<noteq> ''password'') fs"

definition user_validate_type :: "string list \<Rightarrow> string list \<Rightarrow> dict \<Rightarrow> py_exc + dict" where
  "user_validate_type challenge_classes flag_classes data =
     bindE (validate_type_payload challenge_classes flag_classes ''users'' data) (\<lambda>_. Inr data)"

definition name_taken :: "(string \<Rightarrow> string) \<Rightarrow> db \<Rightarrow> int option \<Rightarrow> string \<Rightarrow> bool" where
  "name_taken sql_lower d target name =
     list_ex (\<lambda>u. sql_lower (us_name u) = py_lower name \<and> target \<noteq> Some (us_id u)) (users d)"

definition named :: "string \<Rightarrow> py_exc + 'a \<Rightarrow> py_exc + 'a" where
  "named field r = (case r of Inl (ValidationError m fs) \<Rightarrow> Inl (ValidationError m [field]) | _ \<Rightarrow> r)"

definition user_validate_name :: "(string \<Rightarrow> string) \<Rightarrow> ctx \<Rightarrow> user option \<Rightarrow> dict \<Rightarrow> py_exc + dict" where
  "user_validate_name sql_lower c target data =
     (case dget data ''name'' of
        PNone \<Rightarrow> Inr data
      | v \<Rightarrow>
          bindE (named ''name'' (validate_account_name v)) (\<lambda>_.
          let name = (case v of PStr s \<Rightarrow> py_strip s | _ \<Rightarrow> []) in
          bindE (get_current_user c) (\<lambda>me.
          bindE (if yes (is_admin c) then Inr (map_option us_id target)
                 else case me of
                   None \<Rightarrow> Inl AttributeError
                 | Some m \<Rightarrow>
                     if name \<noteq> us_name m \<and> \<not> truthy (conf_default (cx_conf c) ''name_changes'' (PBool True))
                     then Inl (ValidationError ''Name changes are disabled'' [''name''])
                     else Inr (Some (us_id m))) (\<lambda>target_id.
          if name_taken sql_lower (cx_db c) target_id name
          then Inl (ValidationError ''User name has already been taken'' [''name''])
          else Inr (put ''name'' (PStr name) data)))))"

text \<open>\<open>check_email_is_whitelisted\<close>\<close>

definition ends_with :: "string \<Rightarrow> string \<Rightarrow> bool" where
  "ends_with suffix s = starts_with (rev suffix) (rev s)"

definition email_domain :: "string \<Rightarrow> string" where
  "email_domain s = tl (dropWhile (\<lambda>c. c \<noteq> CHR ''@'') s)"

fun domain_allowed :: "string \<Rightarrow> string list \<Rightarrow> bool" where
  "domain_allowed domain [] = False"
| "domain_allowed domain (a # as) =
     (if starts_with ''*.'' a then
        (if CHR ''*'' \<in> set domain then False
         else if ends_with (tl a) domain then True else domain_allowed domain as)
      else if domain = a then True else domain_allowed domain as)"

definition check_email_is_whitelisted :: "config \<Rightarrow> string \<Rightarrow> py_exc + bool" where
  "check_email_is_whitelisted conf email = (case conf ''domain_whitelist'' of
      PStr w \<Rightarrow> Inr (w = [] \<or> domain_allowed (email_domain email) (map py_strip (split_on (CHR '','') w)))
    | v \<Rightarrow> if truthy v then Inl AttributeError else Inr True)"

text \<open>
  \<open>validate_email\<close>: a contestant who changes the address proves the password; with address
  verification the account becomes unverified, which is the second result.
\<close>

definition email_taken :: "db \<Rightarrow> string \<Rightarrow> user option" where
  "email_taken d email = first_where (\<lambda>u. us_email u = Some email) (users d)"

definition taken_email :: "'a option \<Rightarrow> ('a \<Rightarrow> bool) \<Rightarrow> py_exc + unit" where
  "taken_email found other = (case found of
      None \<Rightarrow> Inr ()
    | Some x \<Rightarrow> if other x then Inl (ValidationError ''Email address has already been used'' [''email'']) else Inr ())"

definition confirmed :: "(pyval \<Rightarrow> string option \<Rightarrow> py_exc + bool) \<Rightarrow> dict \<Rightarrow> string option \<Rightarrow> py_exc + unit" where
  "confirmed verify data hash =
     (if \<not> truthy (dget data ''confirm'')
      then Inl (ValidationError ''Please confirm your current password'' [''confirm''])
      else bindE (verify (dget data ''confirm'') hash) (\<lambda>ok.
        if \<not> ok then Inl (ValidationError ''Your previous password is incorrect'' [''confirm'']) else Inr ()))"

definition own_email_change ::
  "(pyval \<Rightarrow> string option \<Rightarrow> py_exc + bool) \<Rightarrow> ctx \<Rightarrow> user \<Rightarrow> string \<Rightarrow> dict \<Rightarrow> py_exc + bool" where
  "own_email_change verify c me email data =
     (if us_email me = Some email then Inr False
      else bindE (confirmed verify data (us_password me)) (\<lambda>_.
        bindE (taken_email (email_taken (cx_db c) email) (\<lambda>_. True)) (\<lambda>_.
        bindE (check_email_is_whitelisted (cx_conf c) email) (\<lambda>ok.
        if \<not> ok then Inl (ValidationError ''Email address is not from an allowed domain'' [''email''])
        else Inr (truthy (cx_conf c ''verify_emails''))))))"

definition user_validate_email ::
  "(pyval \<Rightarrow> string option \<Rightarrow> py_exc + bool) \<Rightarrow> ctx \<Rightarrow> dict \<Rightarrow> py_exc + bool" where
  "user_validate_email verify c data = (case dget data ''email'' of
      PNone \<Rightarrow> Inr False
    | PStr e \<Rightarrow>
        let email = py_strip e; found = email_taken (cx_db c) email in
        bindE (get_current_user c) (\<lambda>me.
        if yes (is_admin c) then
          bindE (if truthy (dget data ''id'') then taken_email found (\<lambda>u. \<not> py_eq (PInt (us_id u)) (dget data ''id''))
                 else taken_email found (\<lambda>u. case me of None \<Rightarrow> True | Some m \<Rightarrow> us_id m \<noteq> us_id u)) (\<lambda>_. Inr False)
        else case me of None \<Rightarrow> Inl AttributeError | Some m \<Rightarrow> own_email_change verify c m email data)
    | _ \<Rightarrow> Inl AttributeError)"

definition drop_password :: "dict \<Rightarrow> dict" where
  "drop_password data = del ''confirm'' (del ''password'' data)"

definition user_validate_password ::
  "(pyval \<Rightarrow> string option \<Rightarrow> py_exc + bool) \<Rightarrow> ctx \<Rightarrow> view_arg \<Rightarrow> dict \<Rightarrow> py_exc + dict" where
  "user_validate_password verify c view data =
     bindE (get_current_user c) (\<lambda>target.
     if yes (is_admin c) \<and> view \<noteq> NamedView ''self'' then Inr data
     else
       let password = truthy (dget data ''password''); confirm = truthy (dget data ''confirm'') in
       if password \<and> \<not> confirm then Inl (ValidationError ''Please confirm your current password'' [''confirm''])
       else case target of
         None \<Rightarrow> Inl AttributeError
       | Some t \<Rightarrow>
           if us_password t = None then Inr (drop_password data)
           else if password \<and> confirm
           then bindE (confirmed verify data (us_password t)) (\<lambda>_. Inr data)
           else Inr (drop_password data))"

definition bracket_of_type :: "db \<Rightarrow> string \<Rightarrow> int \<Rightarrow> bool" where
  "bracket_of_type d kind i = list_ex (\<lambda>b. br_id b = i \<and> br_type b = Some kind) (brackets d)"

text \<open>Once the reference is checked the bracket exists, so only a change is refused.\<close>

definition user_validate_bracket :: "ctx \<Rightarrow> dict \<Rightarrow> py_exc + dict" where
  "user_validate_bracket c data =
     bindE (reference data ''team_id'' (\<lambda>i. team_by_id (cx_db c) i \<noteq> None) False True) (\<lambda>d1.
     bindE (reference d1 ''bracket_id'' (bracket_of_type (cx_db c) ''users'') False True) (\<lambda>d2.
     case dget d2 ''bracket_id'' of
       PInt b \<Rightarrow>
         bindE (get_current_user c) (\<lambda>me.
         if yes (is_admin c) then Inr d2
         else case me of
           None \<Rightarrow> Inl AttributeError
         | Some m \<Rightarrow> if us_bracket_id m = Some b \<or> us_bracket_id m = None then Inr d2
             else Inl (ValidationError ''Please contact an admin to change your bracket'' [''bracket_id'']))
     | _ \<Rightarrow> Inr d2))"

definition all_dicts :: "pyval list \<Rightarrow> bool" where
  "all_dicts l = list_all (\<lambda>v. case v of PDict _ \<Rightarrow> True | _ \<Rightarrow> False) l"

definition reference_field :: "db \<Rightarrow> pyval \<Rightarrow> py_exc + pyval" where
  "reference_field d v = (case v of
      PDict f \<Rightarrow> bindE (reference f ''field_id'' (\<lambda>i. field_by_value ''user'' d (PInt i) \<noteq> None) True False) (\<lambda>f'. Inr (PDict f'))
    | _ \<Rightarrow> Inr v)"

definition user_validate_fields :: "ctx \<Rightarrow> view_arg \<Rightarrow> user option \<Rightarrow> dict \<Rightarrow> py_exc + dict" where
  "user_validate_fields c view target data =
     (case dget data ''fields'' of
        PNone \<Rightarrow> Inr data
      | PList l \<Rightarrow>
          if \<not> all_dicts l then Inl (ValidationError ''Fields must be a list of objects'' [''fields''])
          else bindE (mapE (reference_field (cx_db c)) l) (\<lambda>l'.
            bindE (get_current_user c) (\<lambda>me.
            bindE (if yes (is_admin c)
                   then (case (view, target) of
                       (NamedView v, Some t) \<Rightarrow>
                         if v = ''admin'' then bindE (rewrite_fields ''user'' False (cx_db c) (us_id t) l') (\<lambda>r. Inr (map PDict r))
                         else Inr l'
                     | _ \<Rightarrow> Inr l')
                   else case me of
                       None \<Rightarrow> Inl AttributeError
                     | Some m \<Rightarrow> bindE (rewrite_fields ''user'' True (cx_db c) (us_id m) l') (\<lambda>r. Inr (map PDict r))) (\<lambda>r.
            Inr (put ''fields'' (PList r) data))))
      | _ \<Rightarrow> Inl (ValidationError ''Fields must be a list of objects'' [''fields'']))"

text \<open>The steps together: the data the serializer gets, and whether the caller becomes unverified.\<close>

definition user_pre_load ::
  "string list \<Rightarrow> string list \<Rightarrow> (string \<Rightarrow> string) \<Rightarrow> (pyval \<Rightarrow> string option \<Rightarrow> py_exc + bool) \<Rightarrow> ctx \<Rightarrow> view_arg \<Rightarrow>
     user option \<Rightarrow> dict \<Rightarrow> py_exc + dict \<times> bool" where
  "user_pre_load challenge_classes flag_classes sql_lower verify c view target data =
     bindE (user_validate_bracket c data) (\<lambda>d1.
     bindE (user_validate_email verify c d1) (\<lambda>unverify.
     bindE (user_validate_fields c view target d1) (\<lambda>d2.
     bindE (user_validate_name sql_lower c target d2) (\<lambda>d3.
     bindE (user_validate_password verify c view d3) (\<lambda>d4.
     bindE (user_validate_type challenge_classes flag_classes d4) (\<lambda>d5. Inr (d5, unverify)))))))"

section \<open>The teams schema\<close>

definition team_view :: "string \<Rightarrow> string list option" where
  "team_view name =
     (if name = ''user'' then Some [''website'', ''name'', ''country'', ''affiliation'', ''bracket_id'', ''members'', ''id'',
        ''oauth_id'', ''captain_id'', ''fields'']
      else if name = ''self'' then Some [''website'', ''name'', ''email'', ''country'', ''affiliation'', ''bracket_id'',
        ''members'', ''id'', ''oauth_id'', ''password'', ''captain_id'', ''fields'']
      else if name = ''admin'' then Some [''website'', ''name'', ''created'', ''country'', ''banned'', ''email'', ''affiliation'',
        ''secret'', ''bracket_id'', ''members'', ''hidden'', ''id'', ''oauth_id'', ''password'', ''captain_id'', ''fields'']
      else None)"

definition team_loads :: "string list \<Rightarrow> string list" where
  "team_loads fs = filter (\<lambda>f. f \<notin> {''id'', ''oauth_id'', ''created'', ''members''}) fs"

definition team_named :: "db \<Rightarrow> string \<Rightarrow> team option" where
  "team_named d name = first_where (\<lambda>t. te_name t = name) (teams d)"

definition team_name_error :: "py_exc" where
  "team_name_error = ValidationError ''Team name has already been taken'' [''name'']"

text \<open>The name itself is loaded as it was sent: only the comparison strips it.\<close>

definition team_validate_name :: "ctx \<Rightarrow> dict \<Rightarrow> py_exc + unit" where
  "team_validate_name c data = (case dget data ''name'' of
      PNone \<Rightarrow> Inr ()
    | PStr n \<Rightarrow>
        let existing = team_named (cx_db c) (py_strip n) in
        bindE (get_current_team c) (\<lambda>mine.
        if yes (is_admin c) then
          bindE (py_int (dget_default data ''id'' (PInt 0))) (\<lambda>i.
          case existing of
            None \<Rightarrow> Inr ()
          | Some x \<Rightarrow>
              if i \<noteq> 0 then (if te_id x \<noteq> i then Inl team_name_error else Inr ())
              else case mine of
                None \<Rightarrow> Inl team_name_error
              | Some m \<Rightarrow> if te_id m \<noteq> te_id x then Inl team_name_error else Inr ())
        else case mine of
          None \<Rightarrow> Inl AttributeError
        | Some m \<Rightarrow>
            if n = te_name m then Inr ()
            else if \<not> truthy (conf_default (cx_conf c) ''name_changes'' (PBool True))
            then Inl (ValidationError ''Name changes are disabled'' [''name''])
            else if existing \<noteq> None then Inl team_name_error else Inr ())
    | _ \<Rightarrow> Inl AttributeError)"

definition team_validate_email :: "ctx \<Rightarrow> dict \<Rightarrow> py_exc + unit" where
  "team_validate_email c data = (case dget data ''email'' of
      PNone \<Rightarrow> Inr ()
    | v \<Rightarrow>
        let existing = first_where (\<lambda>t. of_opt_str (te_email t) = v) (teams (cx_db c)) in
        if yes (is_admin c)
        then (if truthy (dget data ''id'') then taken_email existing (\<lambda>t. \<not> py_eq (PInt (te_id t)) (dget data ''id''))
              else taken_email existing (\<lambda>_. True))
        else bindE (get_current_team c) (\<lambda>mine. case mine of
            None \<Rightarrow> Inl AttributeError
          | Some m \<Rightarrow> if v = of_opt_str (te_email m) then Inr () else taken_email existing (\<lambda>_. True)))"

definition team_validate_password ::
  "(pyval \<Rightarrow> string option \<Rightarrow> py_exc + bool) \<Rightarrow> ctx \<Rightarrow> dict \<Rightarrow> py_exc + dict" where
  "team_validate_password verify c data =
     (if yes (is_admin c) then Inr data
      else bindE (get_current_team c) (\<lambda>t. bindE (get_current_user c) (\<lambda>u. case (t, u) of
        (Some t, Some u) \<Rightarrow>
          if te_captain_id t \<noteq> Some (us_id u)
          then Inl (ValidationError ''Only the captain can change the team password'' [''captain_id''])
          else if truthy (dget data ''password'') \<and> \<not> truthy (dget data ''confirm'')
          then Inl (ValidationError ''Please confirm your current password'' [''confirm''])
          else if truthy (dget data ''password'') \<and> truthy (dget data ''confirm'')
          then bindE (verify (dget data ''confirm'') (te_password t)) (\<lambda>of_team.
            bindE (verify (dget data ''confirm'') (us_password u)) (\<lambda>of_captain.
            if of_team \<or> of_captain then Inr data
            else Inl (ValidationError ''Your previous password is incorrect'' [''confirm''])))
          else Inr (drop_password data)
      | _ \<Rightarrow> Inl AttributeError)))"

definition team_validate_captain :: "ctx \<Rightarrow> team option \<Rightarrow> dict \<Rightarrow> py_exc + dict" where
  "team_validate_captain c target data =
     bindE (reference data ''captain_id'' (\<lambda>i. user_by_id (cx_db c) i \<noteq> None) False True) (\<lambda>d1.
     case dget d1 ''captain_id'' of
       PInt i \<Rightarrow> (case user_by_id (cx_db c) i of
           None \<Rightarrow> Inl AttributeError
         | Some captain \<Rightarrow>
             if yes (is_admin c) then
               (if target = None \<and> us_team_id captain = None then Inr d1
                else if (case target of None \<Rightarrow> False | Some t \<Rightarrow> us_team_id captain = Some (te_id t)) then Inr d1
                else Inl (ValidationError ''Invalid Captain ID'' [''captain_id'']))
             else bindE (get_current_team c) (\<lambda>t. bindE (get_current_user c) (\<lambda>u. case (t, u) of
               (Some t, Some u) \<Rightarrow>
                 if te_captain_id t = Some (us_id u) then
                   (if us_team_id captain = Some (te_id t) then Inr d1
                    else Inl (ValidationError ''Only team members can be promoted to captain'' [''captain_id'']))
                 else Inl (ValidationError ''Only the captain can change team captain'' [''captain_id''])
             | _ \<Rightarrow> Inl AttributeError)))
     | _ \<Rightarrow> Inr d1)"

text \<open>Where the source builds the error for an unknown bracket it does not raise it.\<close>

definition team_validate_bracket :: "ctx \<Rightarrow> dict \<Rightarrow> py_exc + dict" where
  "team_validate_bracket c data =
     (let v = dget data ''bracket_id'' in
      if v = PNone \<or> v = PStr [] then Inr (put ''bracket_id'' PNone data)
      else if yes (is_admin c) then Inr data
      else bindE (get_current_team c) (\<lambda>t. case t of
          None \<Rightarrow> Inl AttributeError
        | Some t \<Rightarrow> bindE (py_int v) (\<lambda>i.
            if te_bracket_id t = Some i \<or> te_bracket_id t = None then Inr data
            else Inl (ValidationError ''Please contact an admin to change your bracket'' [''bracket_id'']))))"

definition team_validate_fields :: "ctx \<Rightarrow> view_arg \<Rightarrow> team option \<Rightarrow> dict \<Rightarrow> py_exc + dict" where
  "team_validate_fields c view target data =
     (if dget data ''fields'' = PNone then Inr data
      else bindE (get_current_team c) (\<lambda>mine.
        let rewrite = (\<lambda>strict owner.
          bindE (field_rows ''team'' (cx_db c) owner (dget data ''fields'')) (\<lambda>l.
          bindE (rewrite_fields ''team'' strict (cx_db c) owner l) (\<lambda>r.
          Inr (put ''fields'' (PList (map PDict r)) data)))) in
        if yes (is_admin c)
        then (case target of
            Some t \<Rightarrow> if view = NamedView ''admin'' then rewrite False (te_id t) else Inr data
          | None \<Rightarrow> Inr data)
        else case mine of None \<Rightarrow> Inl AttributeError | Some t \<Rightarrow> rewrite True (te_id t)))"

definition team_pre_load ::
  "(pyval \<Rightarrow> string option \<Rightarrow> py_exc + bool) \<Rightarrow> ctx \<Rightarrow> view_arg \<Rightarrow> team option \<Rightarrow> dict \<Rightarrow> py_exc + dict" where
  "team_pre_load verify c view target data =
     bindE (team_validate_bracket c data) (\<lambda>d1.
     bindE (team_validate_captain c target d1) (\<lambda>d2.
     bindE (team_validate_email c d2) (\<lambda>_.
     bindE (team_validate_fields c view target d2) (\<lambda>d3.
     bindE (team_validate_name c d3) (\<lambda>_.
     team_validate_password verify c d3)))))"

section \<open>What the profile fields of a request become\<close>

text \<open>Entries have distinct ids, and an owner has one entry for a field.\<close>

definition entries_ok :: "string \<Rightarrow> db \<Rightarrow> bool" where
  "entries_ok kind d = (distinct (map fe_id (field_entries d)) \<and>
     distinct (map fd_id (field_defs d)) \<and>
     (\<forall>e\<in>set (field_entries d). \<forall>e'\<in>set (field_entries d). fe_type e = Some kind \<longrightarrow> fe_type e' = Some kind \<longrightarrow>
        fe_owner_id e = fe_owner_id e' \<longrightarrow> fe_field_id e = fe_field_id e' \<longrightarrow> e = e'))"

text \<open>A row of the rewritten list: a new one, or one that carries the id of the entry of its field.\<close>

definition rewritten :: "string \<Rightarrow> bool \<Rightarrow> db \<Rightarrow> int \<Rightarrow> dict \<Rightarrow> bool" where
  "rewritten kind strict d owner r \<longleftrightarrow>
     (\<exists>fd. field_by_value kind d (dget r ''field_id'') = Some fd \<and>
       (case entry_for kind d owner (fd_id fd) of
          None \<Rightarrow> \<not> has_key r ''id''
        | Some e \<Rightarrow> dget r ''id'' = PInt (fe_id e) \<and> (strict \<longrightarrow> fd_editable fd \<noteq> Some False)) \<and>
       (strict \<longrightarrow> fd_required fd = Some True \<longrightarrow> \<not> blank_text (dget r ''value'')))"

lemma field_step_rewritten:
  assumes "field_step kind strict d owner acc v = Inr acc'"
  obtains r where "fst acc' = fst acc @ [r]" "rewritten kind strict d owner r"
    "snd acc' = snd acc @ (case dget r ''id'' of PInt i \<Rightarrow> [i] | _ \<Rightarrow> [])"
proof -
  obtain f where f: "v = PDict f" using assms by (cases v) (auto simp: field_step_def)
  obtain fd where fd: "field_by_value kind d (dget f ''field_id'') = Some fd"
    using assms by (auto simp: field_step_def f bindE_Inr_iff first_or_404_def Let_def split: option.splits)
  show thesis
  proof (cases "entry_for kind d owner (fd_id fd)")
    case None
    then show thesis
      using assms fd that[of "del ''id'' f"]
      by (auto simp: field_step_def f first_or_404_def Let_def rewritten_def dget_def split: if_splits)
  next
    case (Some e)
    then show thesis
      using assms fd that[of "put ''id'' (PInt (fe_id e)) (del ''id'' f)"]
      by (auto simp: field_step_def f first_or_404_def Let_def rewritten_def dget_def split: if_splits)
  qed
qed

definition row_id :: "dict \<Rightarrow> int option" where
  "row_id r = (case dget r ''id'' of PInt i \<Rightarrow> Some i | _ \<Rightarrow> None)"

lemma row_id_Some: "row_id r = Some i \<longleftrightarrow> dget r ''id'' = PInt i"
  by (auto simp: row_id_def split: pyval.split)

definition row_ids :: "dict list \<Rightarrow> int list" where
  "row_ids rs = List.map_filter row_id rs"

lemma row_ids_append [simp]: "row_ids (xs @ ys) = row_ids xs @ row_ids ys"
  by (simp add: row_ids_def List.map_filter_def)

lemma field_steps_rewritten:
  "foldE (field_step kind strict d owner) acc fs = Inr acc' \<Longrightarrow>
   snd acc = row_ids (fst acc) \<Longrightarrow> list_all (rewritten kind strict d owner) (fst acc) \<Longrightarrow>
   snd acc' = row_ids (fst acc') \<and> list_all (rewritten kind strict d owner) (fst acc')"
proof (induction fs arbitrary: acc)
  case (Cons v fs)
  then obtain acc1 where st: "field_step kind strict d owner acc v = Inr acc1" "foldE (field_step kind strict d owner) acc1 fs = Inr acc'"
    by (auto simp: bindE_Inr_iff)
  obtain r where r: "fst acc1 = fst acc @ [r]" "rewritten kind strict d owner r"
    "snd acc1 = snd acc @ (case dget r ''id'' of PInt i \<Rightarrow> [i] | _ \<Rightarrow> [])"
    using field_step_rewritten[OF st(1)] by blast
  have "row_ids [r] = (case dget r ''id'' of PInt i \<Rightarrow> [i] | _ \<Rightarrow> [])"
    by (simp add: row_ids_def List.map_filter_simps row_id_def split: pyval.split)
  then show ?case using Cons.IH[OF st(2)] Cons.prems(2,3) r by simp
qed simp

lemma row_ids_iff: "i \<in> set (row_ids rs) \<longleftrightarrow> (\<exists>r\<in>set rs. dget r ''id'' = PInt i)"
  by (simp add: row_ids_def set_map_filter row_id_Some)

lemma entry_forD: "entry_for kind d owner f = Some e \<Longrightarrow> e \<in> set (owner_entries kind d owner) \<and> fe_field_id e = Some f"
  unfolding entry_for_def by (drule first_where_SomeD) simp

lemma field_by_valueD: "field_by_value kind d v = Some f \<Longrightarrow> f \<in> set (field_defs d)"
  by (auto simp: field_by_value_def split: pyval.splits dest: first_where_SomeD)

lemma rewritten_entry:
  assumes "rewritten kind strict d owner r" "dget r ''id'' = PInt i"
  obtains fd e where "field_by_value kind d (dget r ''field_id'') = Some fd" "entry_for kind d owner (fd_id fd) = Some e"
    "fe_id e = i" "strict \<Longrightarrow> fd_editable fd \<noteq> Some False"
  using assms by (auto simp: rewritten_def dget_def split: option.splits)

text \<open>
  Also proved: the rewritten profile fields of a contestant.  Every entry the account has is
  listed, so none is deleted; no row touches an entry of another account; an entry of a field
  that is not editable is listed by its id alone, without a value; a required field is not blank.
\<close>

theorem profile_fields_kept:
  assumes "rewrite_fields kind True d owner fs = Inr rs" "entries_ok kind d"
  shows "(\<forall>e\<in>set (owner_entries kind d owner). fe_id e \<in> set (row_ids rs)) \<and>
    (\<forall>i\<in>set (row_ids rs). \<exists>e\<in>set (owner_entries kind d owner). fe_id e = i) \<and>
    (\<forall>r\<in>set rs. \<forall>e\<in>set (owner_entries kind d owner). \<forall>fd\<in>set (field_defs d).
       dget r ''id'' = PInt (fe_id e) \<longrightarrow> fe_field_id e = Some (fd_id fd) \<longrightarrow> fd_editable fd = Some False \<longrightarrow>
       r = [(''id'', PInt (fe_id e))]) \<and>
    (\<forall>r\<in>set rs. \<forall>fd. has_key r ''field_id'' \<longrightarrow> field_by_value kind d (dget r ''field_id'') = Some fd \<longrightarrow>
       fd_required fd = Some True \<longrightarrow> \<not> blank_text (dget r ''value''))"
proof -
  obtain acc where acc: "foldE (field_step kind True d owner) ([], []) fs = Inr acc" "rs = keep_entries kind d owner acc"
    using assms(1) by (auto simp: rewrite_fields_def bindE_Inr_iff)
  have ids: "snd acc = row_ids (fst acc)" and rows: "\<And>r. r \<in> set (fst acc) \<Longrightarrow> rewritten kind True d owner r"
    using field_steps_rewritten[OF acc(1)] by (auto simp: row_ids_def List.map_filter_simps list_all_iff)
  let ?left = "filter (\<lambda>e. fe_id e \<notin> set (snd acc)) (owner_entries kind d owner)"
  have left: "row_ids (map (\<lambda>e. [(''id'', PInt (fe_id e))]) ?left) = map fe_id ?left"
    by (simp add: row_ids_def List.map_filter_def row_id_def dget_def comp_def)
  have rs: "rs = fst acc @ map (\<lambda>e. [(''id'', PInt (fe_id e))]) ?left" by (simp add: acc(2) keep_entries_def)
  have inj: "inj_on fe_id (set (field_entries d))" "inj_on fd_id (set (field_defs d))"
    using assms(2) unfolding entries_ok_def distinct_map by blast+
  have rsE: "r \<in> set (fst acc) \<or> (\<exists>x\<in>set ?left. r = [(''id'', PInt (fe_id x))])" if "r \<in> set rs" for r
    using that by (auto simp: rs)
  have listed: "fe_id e \<in> set (row_ids rs)" if "e \<in> set (owner_entries kind d owner)" for e
    unfolding rs row_ids_append left set_append ids[symmetric] using that by auto
  have owned: "\<exists>e\<in>set (owner_entries kind d owner). fe_id e = i" if "i \<in> set (row_ids rs)" for i
  proof -
    obtain r where r: "r \<in> set rs" "dget r ''id'' = PInt i" using \<open>i \<in> set (row_ids rs)\<close> by (auto simp: row_ids_iff)
    from rsE[OF r(1)] show ?thesis
    proof
      assume "r \<in> set (fst acc)"
      then have "rewritten kind True d owner r" by (rule rows)
      then obtain f e where "entry_for kind d owner f = Some e" "fe_id e = i"
        using r(2) by (rule rewritten_entry)
      then show ?thesis using entry_forD[of kind d owner f e] by blast
    next
      assume "\<exists>x\<in>set ?left. r = [(''id'', PInt (fe_id x))]"
      then obtain x where "x \<in> set ?left" "r = [(''id'', PInt (fe_id x))]" by (elim bexE)
      moreover from this(2) have "i = fe_id x" using r(2) by (simp add: dget_def)
      ultimately show ?thesis by auto
    qed
  qed
  have untouched: "r = [(''id'', PInt (fe_id e))]"
    if p: "r \<in> set rs" "e \<in> set (owner_entries kind d owner)" "fd \<in> set (field_defs d)" "dget r ''id'' = PInt (fe_id e)"
      "fe_field_id e = Some (fd_id fd)" "fd_editable fd = Some False" for r e fd
    using rsE[OF p(1)]
  proof
    assume "r \<in> set (fst acc)"
    then obtain fd' e' where x: "field_by_value kind d (dget r ''field_id'') = Some fd'"
      "entry_for kind d owner (fd_id fd') = Some e'" "fe_id e' = fe_id e" "fd_editable fd' \<noteq> Some False"
      using rewritten_entry[OF rows p(4)] by blast
    have "e' \<in> set (field_entries d)" "e \<in> set (field_entries d)"
      using entry_forD[OF x(2)] p(2) by (auto simp: owner_entries_def)
    then have "e' = e" using inj_onD[OF inj(1) x(3)] by blast
    then have "fd_id fd' = fd_id fd" using entry_forD[OF x(2)] p(5) by simp
    then have "fd' = fd"
      using inj_onD[OF inj(2) _ field_by_valueD[OF x(1)] p(3)] by blast
    then show ?thesis using x(4) p(6) by simp
  qed (use p(4) in \<open>auto simp: dget_def\<close>)
  have filled: "\<not> blank_text (dget r ''value'')"
    if "r \<in> set rs" "has_key r ''field_id''" "field_by_value kind d (dget r ''field_id'') = Some fd" "fd_required fd = Some True"
    for r fd
    using rsE[OF that(1)] rows[of r] that(2-4) by (auto simp: rewritten_def)
  show ?thesis using listed owned untouched filled by blast
qed

text \<open>A contestant with one fixed and one free entry who sends a value for the free one.\<close>

definition profile_db :: db where
  "profile_db = empty_db\<lparr>field_defs := [
      \<lparr>fd_id = 1, fd_name = None, fd_type = Some ''user'', fd_field_type = Some ''text'', fd_description = None,
        fd_required = Some False, fd_public = Some True, fd_editable = Some False\<rparr>,
      \<lparr>fd_id = 2, fd_name = None, fd_type = Some ''user'', fd_field_type = Some ''text'', fd_description = None,
        fd_required = Some True, fd_public = Some True, fd_editable = Some True\<rparr>],
    field_entries := [
      \<lparr>fe_id = 10, fe_type = Some ''user'', fe_value = PStr ''x'', fe_field_id = Some 1, fe_owner_id = Some 7\<rparr>,
      \<lparr>fe_id = 11, fe_type = Some ''user'', fe_value = PStr ''y'', fe_field_id = Some 2, fe_owner_id = Some 7\<rparr>]\<rparr>"

definition profile_rows :: "dict list" where
  "profile_rows = [[(''field_id'', PInt 2), (''value'', PStr ''z''), (''id'', PInt 11)], [(''id'', PInt 10)]]"

theorem profile_fields_kept_witness:
  "rewrite_fields ''user'' True profile_db 7 [PDict [(''id'', PInt 99), (''field_id'', PInt 2), (''value'', PStr ''z'')]] =
     Inr profile_rows \<and> [(''id'', PInt 10)] \<in> set profile_rows \<and>
   fe_id ` set (owner_entries ''user'' profile_db 7) \<subseteq> set (row_ids profile_rows)"
proof -
  have r: "rewrite_fields ''user'' True profile_db 7 [PDict [(''id'', PInt 99), (''field_id'', PInt 2), (''value'', PStr ''z'')]] =
     Inr profile_rows" by code_simp
  have "entries_ok ''user'' profile_db" by (simp add: entries_ok_def profile_db_def)
  from profile_fields_kept[OF r this] r show ?thesis by (auto simp: profile_rows_def)
qed

section \<open>Changing one's own password and address\<close>

lemma reference_dget:
  "reference data f ok req nullable = Inr data' \<Longrightarrow> k \<noteq> f \<Longrightarrow> dget data' k = dget data k \<and> (has_key data' k \<longleftrightarrow> has_key data k)"
  by (auto simp: reference_def bindE_Inr_iff split: if_splits)

lemma user_bracketE:
  assumes "user_validate_bracket c data = Inr d2"
  obtains d1 where "reference data ''team_id'' (\<lambda>i. team_by_id (cx_db c) i \<noteq> None) False True = Inr d1"
    "reference d1 ''bracket_id'' (bracket_of_type (cx_db c) ''users'') False True = Inr d2"
  using assms unfolding user_validate_bracket_def bindE_Inr_iff
  by (elim exE conjE) (auto simp: bindE_Inr_iff split: pyval.splits option.splits if_split_asm)

lemma user_bracket_dget:
  "user_validate_bracket c data = Inr d1 \<Longrightarrow> k \<notin> {''team_id'', ''bracket_id''} \<Longrightarrow> dget d1 k = dget data k"
  by (erule user_bracketE) (simp add: reference_dget)

lemma user_fields_dget: "user_validate_fields c view target data = Inr d2 \<Longrightarrow> k \<noteq> ''fields'' \<Longrightarrow> dget d2 k = dget data k"
  by (auto simp: user_validate_fields_def bindE_Inr_iff split: pyval.splits if_splits)

lemma user_name_dget: "user_validate_name l c target data = Inr d3 \<Longrightarrow> k \<noteq> ''name'' \<Longrightarrow> dget d3 k = dget data k"
  by (auto simp: user_validate_name_def bindE_Inr_iff Let_def split: pyval.splits if_splits option.splits)

lemma user_type_dget: "user_validate_type cc fc data = Inr d \<Longrightarrow> d = data"
  by (auto simp: user_validate_type_def bindE_Inr_iff)

lemma confirmed_Inr: "confirmed verify data hash = Inr () \<Longrightarrow> verify (dget data ''confirm'') hash = Inr True"
  by (auto simp: confirmed_def bindE_Inr_iff split: if_splits)

lemma own_password:
  assumes "user_validate_password verify c (NamedView ''self'') data = Inr d4" "get_current_user c = Inr (Some me)"
    "has_key d4 ''password''"
  shows "verify (dget data ''confirm'') (us_password me) = Inr True"
  using assms by (auto simp: user_validate_password_def drop_password_def Let_def bindE_Inr_iff
      split: if_splits dest: confirmed_Inr)

lemma user_pre_loadE:
  assumes "user_pre_load cc fc l verify c view target data = Inr (data', unverify)"
  obtains d1 d2 d3 where "user_validate_bracket c data = Inr d1" "user_validate_email verify c d1 = Inr unverify"
    "user_validate_fields c view target d1 = Inr d2" "user_validate_name l c target d2 = Inr d3"
    "user_validate_password verify c view d3 = Inr data'"
  using assms by (auto simp: user_pre_load_def bindE_Inr_iff dest!: user_type_dget)

text \<open>
  Also proved: whoever edits the own profile, administrators included, sets a new password only
  with the current one as confirmation; and nobody but an administrator changes the address
  without it.
\<close>

theorem own_secrets_confirmed:
  assumes "user_pre_load cc fc l verify c (NamedView ''self'') target data = Inr (data', unverify)"
    and "get_current_user c = Inr (Some me)"
    and "has_key data' ''password'' \<or>
      \<not> yes (is_admin c) \<and> dget data ''email'' \<noteq> PNone \<and> (\<forall>e. dget data ''email'' = PStr e \<longrightarrow> us_email me \<noteq> Some (py_strip e))"
  shows "verify (dget data ''confirm'') (us_password me) = Inr True"
  using assms(1)
proof (cases rule: user_pre_loadE)
  case (1 d1 d2 d3)
  have same: "dget d1 k = dget data k" "dget d3 k = dget data k" if "k \<in> {''confirm'', ''email''}" for k
    using that user_bracket_dget[OF 1(1), of k] user_fields_dget[OF 1(3), of k] user_name_dget[OF 1(4), of k] by auto
  from assms(3) show ?thesis
  proof
    assume "has_key data' ''password''"
    then show ?thesis using own_password[OF 1(5) assms(2)] same(2)[of "''confirm''"] by simp
  next
    assume e: "\<not> yes (is_admin c) \<and> dget data ''email'' \<noteq> PNone \<and> (\<forall>e. dget data ''email'' = PStr e \<longrightarrow> us_email me \<noteq> Some (py_strip e))"
    then obtain m where m: "dget data ''email'' = PStr m"
      using 1(2) same(1)[of "''email''"] by (auto simp: user_validate_email_def split: pyval.splits)
    then have "own_email_change verify c me (py_strip m) d1 = Inr unverify"
      using 1(2) e assms(2) same(1)[of "''email''"] by (simp add: user_validate_email_def)
    then have "confirmed verify d1 (us_password me) = Inr ()"
      using e m by (auto simp: own_email_change_def bindE_Inr_iff)
    then show ?thesis using confirmed_Inr same(1)[of "''confirm''"] by fastforce
  qed
qed

definition profile_ctx :: ctx where
  "profile_ctx = sample_ctx ((sample_user 7 None)\<lparr>us_password := Some ''hash''\<rparr>) (Some 7) ''PATCH'' None"

definition new_password :: dict where
  "new_password = [(''password'', PStr ''new''), (''confirm'', PStr ''old'')]"

theorem own_secrets_confirmed_witness:
  "user_pre_load [] [] id (\<lambda>v h. Inr (v = PStr ''old'')) profile_ctx (NamedView ''self'') None new_password =
     Inr (new_password, False) \<and> dget new_password ''confirm'' = PStr ''old''"
proof -
  let ?me = "(sample_user 7 None)\<lparr>us_password := Some ''hash''\<rparr>"
  have me: "get_current_user profile_ctx = Inr (Some ?me)"
    by (simp add: profile_ctx_def sample_ctx_def get_current_user_def authed_def session_user_def stale_session_def
        user_by_id_def sample_user_def)
  have r: "user_pre_load [] [] id (\<lambda>v h. Inr (v = PStr ''old'')) profile_ctx (NamedView ''self'') None new_password =
     Inr (new_password, False)"
    by code_simp
  then show ?thesis using own_secrets_confirmed[OF r me] by (simp add: new_password_def dget_def)
qed

end
