(* ===== verification/UsersApi.thy ===== *)
theory UsersApi imports Profiles HintShop Standings begin

text \<open>
  \<^verbatim>\<open>api/v1/users.py\<close>.  The serializer that turns validated data into a row and its profile
  entries is the argument \<open>load\<close>: it gets the fields of the view a request can set, the data,
  the row to change and the id of the row.  \<open>name_key\<close> is the generated column
  \<open>lower(trim(name))\<close>, whose uniqueness, like that of the addresses, the database enforces on
  commit.  Listing with filters and pages, notification mail and audit rows are left out.
\<close>

section \<open>Outcomes and commits\<close>

datatype 'r outcome = Done 'r | Refused string

definition refusing :: "db \<Rightarrow> py_exc + 'a \<Rightarrow> ('a \<Rightarrow> py_exc + 'r outcome \<times> db) \<Rightarrow> py_exc + 'r outcome \<times> db" where
  "refusing d r f = (case r of Inr a \<Rightarrow> f a
     | Inl (ValidationError m fs) \<Rightarrow> Inr (Refused (join_with '','' fs), d) | Inl e \<Rightarrow> Inl e)"

lemma refusing_Done [monad_simps]:
  "refusing d r f = Inr (Done x, d') \<longleftrightarrow> (\<exists>a. r = Inr a \<and> f a = Inr (Done x, d'))"
  by (auto simp: refusing_def split: sum.split py_exc.split)

lemma refusing_Inr: "refusing d r f = Inr (x, d') \<Longrightarrow> (\<exists>a. r = Inr a \<and> f a = Inr (x, d')) \<or> d' = d"
  by (auto simp: refusing_def split: sum.splits py_exc.splits)

text \<open>
  The UNIQUE columns of the table (generated name, address, id at the identity provider).  The handlers do not
  look for a clash themselves: the commit raises \<open>IntegrityError\<close>, which they answer with a
  refusal after a rollback.
\<close>

definition unique_accounts :: "(string \<Rightarrow> string) \<Rightarrow> db \<Rightarrow> bool" where
  "unique_accounts name_key d = (distinct (map (\<lambda>u. name_key (us_name u)) (users d)) \<and>
     distinct (List.map_filter us_email (users d)) \<and> distinct (List.map_filter us_oauth_id (users d)))"

definition commit_accounts :: "(string \<Rightarrow> string) \<Rightarrow> db \<Rightarrow> 'r \<Rightarrow> db \<Rightarrow> 'r outcome \<times> db" where
  "commit_accounts name_key old r new =
     (if unique_accounts name_key new then (Done r, new) else (Refused ''name'', old))"

type_synonym user_loader =
  "string list \<Rightarrow> dict \<Rightarrow> user option \<Rightarrow> int \<Rightarrow> field_entry list \<Rightarrow> py_exc + user \<times> field_entry list"

text \<open>What the users schema checks of a request, before the serializer.\<close>

type_synonym user_checker = "ctx \<Rightarrow> view_arg \<Rightarrow> user option \<Rightarrow> dict \<Rightarrow> py_exc + dict \<times> bool"

definition view_fields :: "string \<Rightarrow> string list" where
  "view_fields name = (case user_view name of None \<Rightarrow> [] | Some fs \<Rightarrow> user_loads fs)"

section \<open>Writing\<close>

definition user_post :: "user_loader \<Rightarrow> user_checker \<Rightarrow> (string \<Rightarrow> string) \<Rightarrow> ctx \<Rightarrow> dict \<Rightarrow> py_exc + user outcome \<times> db" where
  "user_post load check name_key c req =
     (let d = cx_db c; i = fresh_id us_id (users d) in
      refusing d (check c (NamedView ''admin'') None req) (\<lambda>(data, _).
      refusing d (load (view_fields ''admin'') data None i (field_entries d)) (\<lambda>(u, es).
      let n = u\<lparr>us_id := i\<rparr> in
      Inr (commit_accounts name_key d n (d\<lparr>users := users d @ [n], field_entries := es\<rparr>)))))"

definition replace_user :: "user \<Rightarrow> db \<Rightarrow> db" where
  "replace_user u d = d\<lparr>users := update_where (\<lambda>x. us_id x = us_id u) (\<lambda>_. u) (users d)\<rparr>"

text \<open>The tokens of an account go when its password, role, team or standing changes.\<close>

definition auth_changed :: "user \<Rightarrow> user \<Rightarrow> bool" where
  "auth_changed u u' = (us_type u \<noteq> us_type u' \<or> us_team_id u \<noteq> us_team_id u' \<or> us_banned u \<noteq> us_banned u' \<or>
     us_hidden u \<noteq> us_hidden u' \<or> us_verified u \<noteq> us_verified u')"

definition bans :: "dict \<Rightarrow> bool" where
  "bans data = (dget data ''banned'' = PBool True \<or> dget data ''banned'' = PStr ''true'')"

definition user_patch ::
  "user_loader \<Rightarrow> user_checker \<Rightarrow> (string \<Rightarrow> string) \<Rightarrow> ctx \<Rightarrow> int \<Rightarrow> dict \<Rightarrow> py_exc + user outcome \<times> db" where
  "user_patch load check name_key c i req =
     (let d = cx_db c in
      bindE (first_or_404 (user_by_id d i)) (\<lambda>u.
      let data = put ''id'' (PInt i) req in
      if se_id (cx_session c) = Some i \<and> bans data then Inr (Refused ''id'', d)
      else refusing d (check c (NamedView ''admin'') (Some u) data) (\<lambda>(data', _).
        refusing d (load (view_fields ''admin'') data' (Some u) i (field_entries d)) (\<lambda>(u', es).
        let n = u'\<lparr>us_id := i\<rparr>;
            d1 = (if us_password n \<noteq> us_password u \<or> auth_changed u n then revoke_user_tokens [i] d else d) in
        Inr (commit_accounts name_key d n (replace_user n d1\<lparr>field_entries := es\<rparr>))))))"

definition user_patch_me ::
  "user_loader \<Rightarrow> user_checker \<Rightarrow> (string \<Rightarrow> string) \<Rightarrow> ctx \<Rightarrow> dict \<Rightarrow> py_exc + (user \<times> session) outcome \<times> db" where
  "user_patch_me load check name_key c req =
     (let d = cx_db c in
      bindE (get_current_user c) (\<lambda>me. case me of
        None \<Rightarrow> Inl AttributeError
      | Some u \<Rightarrow>
          refusing d (check c (NamedView ''self'') (Some u) req) (\<lambda>(data, unverify).
          refusing d (load (view_fields ''self'') data (Some u) (us_id u) (field_entries d)) (\<lambda>(u', es).
          let n = (if unverify then u'\<lparr>us_id := us_id u, us_verified := Some False\<rparr> else u'\<lparr>us_id := us_id u\<rparr>);
              d1 = (if us_password n \<noteq> us_password u then revoke_user_tokens [us_id u] d else d) in
          Inr (commit_accounts name_key d (n, update_user (cx_hmac c) n (cx_session c))
            (replace_user n d1\<lparr>field_entries := es\<rparr>))))))"

text \<open>\<open>validate_password\<close> and \<open>UserConstant.patch\<close>.\<close>

definition ascii_letter :: "char \<Rightarrow> bool" where
  "ascii_letter c = (let n = py_ord c in (65 \<le> n \<and> n \<le> 90) \<or> (97 \<le> n \<and> n \<le> 122))"

definition special_char :: "char \<Rightarrow> bool" where
  "special_char c = (c \<in> set ''@$!%*#?&'')"

definition strong_body :: "string \<Rightarrow> bool" where
  "strong_body s = (8 \<le> length s \<and> list_all (\<lambda>c. ascii_letter c \<or> dec_char c \<or> special_char c) s \<and>
     list_ex ascii_letter s \<and> list_ex dec_char s \<and> list_ex special_char s)"

definition validate_password :: "string \<Rightarrow> bool" where
  "validate_password s = (strong_body s \<or> (s \<noteq> [] \<and> last s = CHR 0x0A \<and> strong_body (butlast s)))"

definition authenticate_user :: "ctx \<Rightarrow> py_exc + user option" where
  "authenticate_user c = (case bearer_value (cx_request c) of
      None \<Rightarrow> get_current_user c
    | Some v \<Rightarrow> Inr (case token_by_value (cx_db c) v of
        None \<Rightarrow> None
      | Some t \<Rightarrow> (case tk_user_id t of None \<Rightarrow> None | Some i \<Rightarrow> user_by_id (cx_db c) i)))"

definition profile_patch ::
  "user_loader \<Rightarrow> user_checker \<Rightarrow> (string \<Rightarrow> string) \<Rightarrow> ctx \<Rightarrow> pyval \<Rightarrow> pyval \<Rightarrow>
     py_exc + (user \<times> session) outcome \<times> db" where
  "profile_patch load check name_key c password confirm =
     (let d = cx_db c in
      bindE (authenticate_user c) (\<lambda>me. case me of
        None \<Rightarrow> Inr (Refused ''Authentication failed.'', d)
      | Some u \<Rightarrow>
          if \<not> truthy password \<or> \<not> truthy confirm then Inr (Refused ''Both fields are required.'', d)
          else case password of
            PStr p \<Rightarrow>
              if \<not> validate_password p then Inr (Refused ''Password does not meet the required criteria.'', d)
              else if password = confirm then Inr (Refused ''Password and confirm must not be the same.'', d)
              else refusing d (check c (NamedView ''self'') (Some u) [(''password'', password), (''confirm'', confirm)])
                (\<lambda>(data, _).
                refusing d (load (view_fields ''self'') data (Some u) (us_id u) (field_entries d)) (\<lambda>(u', es).
                let n = u'\<lparr>us_id := us_id u\<rparr>;
                    new = replace_user n (revoke_user_tokens [us_id u] d)\<lparr>field_entries := es\<rparr> in
                if unique_accounts name_key new
                then Inr (Done (n, update_user (cx_hmac c) n (cx_session c)), new) else Inl IntegrityError))
          | _ \<Rightarrow> Inl TypeError))"

section \<open>Deleting\<close>

text \<open>
  What the database removes with a challenge.  The key of \<open>challenges.user_id\<close> has no
  \<open>ondelete\<close> rule and is not nullable, so the purge deletes the challenges an account wrote.
\<close>

definition db_cascade_challenge :: "int \<Rightarrow> db \<Rightarrow> db" where
  "db_cascade_challenge i d = cascade_challenge i (delete_notes i
     (d\<lparr>flags := delete_where (\<lambda>f. fl_challenge_id f = Some i) (flags d),
       files := delete_where (\<lambda>f. fi_challenge_id f = Some i) (files d)\<rparr>))"

definition authored :: "int \<Rightarrow> db \<Rightarrow> int list" where
  "authored i d = map ch_id (filter (\<lambda>c. ch_user_id c = i) (challenges d))"

definition doomed :: "(submission \<Rightarrow> bool) \<Rightarrow> db \<Rightarrow> int set" where
  "doomed p d = sub_id ` {s \<in> set (submissions d). p s}"

definition purge_rows :: "int \<Rightarrow> db \<Rightarrow> db" where
  "purge_rows i d =
     (let badges = ab_id ` {b \<in> set (award_badges d). ab_user_id b = Some i} in
      d\<lparr>awards := delete_where (\<lambda>a. aw_user_id a = Some i) (awards d),
        achievements := delete_where (\<lambda>a. ac_user_id a = Some i \<or>
          (case ac_achievement_id a of None \<Rightarrow> False | Some b \<Rightarrow> b \<in> badges)) (achievements d),
        award_badges := delete_where (\<lambda>b. ab_user_id b = Some i) (award_badges d),
        submissions := delete_where (\<lambda>s. sub_user_id s = Some i) (submissions d),
        solve_rows := delete_where (\<lambda>r. sv_user_id r = Some i \<or> sv_id r \<in> doomed (\<lambda>s. sub_user_id s = Some i) d) (solve_rows d),
        unlocks := delete_where (\<lambda>u. un_user_id u = Some i) (unlocks d),
        tokens := delete_where (\<lambda>t. tk_user_id t = Some i) (tokens d),
        versions := update_where (\<lambda>v. ve_created_by v = Some i) (\<lambda>v. v\<lparr>ve_created_by := None\<rparr>) (versions d),
        teams := update_where (\<lambda>t. te_captain_id t = Some i) (\<lambda>t. t\<lparr>te_captain_id := None\<rparr>) (teams d)\<rparr>)"

definition purge_user_references :: "int list \<Rightarrow> int \<Rightarrow> db \<Rightarrow> py_exc + db" where
  "purge_user_references deploy_refs i d =
     (if \<exists>j\<in>set (authored i d). j \<in> set deploy_refs then Inl IntegrityError
      else Inr (purge_rows i (fold db_cascade_challenge (authored i d) d)))"

definition user_delete :: "int list \<Rightarrow> ctx \<Rightarrow> int \<Rightarrow> py_exc + unit outcome \<times> db" where
  "user_delete deploy_refs c i =
     (let d = cx_db c in
      if se_id (cx_session c) = Some i then Inr (Refused ''id'', d)
      else bindE (first_or_404 (user_by_id d i)) (\<lambda>u.
        bindE (purge_user_references deploy_refs i d) (\<lambda>d1.
        Inr (Done (), d1\<lparr>users := delete_where (\<lambda>u. us_id u = i) (users d1),
          field_entries := delete_where (\<lambda>e. fe_type e = Some ''user'' \<and> fe_owner_id e = Some i) (field_entries d1)\<rparr>))))"

section \<open>Reading\<close>

text \<open>A dump: the fields shown (\<open>None\<close> for all of them), the profile entries, place and score.\<close>

record profile =
  pr_user :: user
  pr_fields :: "string list option"
  pr_entries :: "field_entry list"
  pr_place :: pyval
  pr_score :: pyval

definition if_visible :: "ctx \<Rightarrow> py_exc + pyval \<Rightarrow> py_exc + pyval" where
  "if_visible c r = bindE (scores_visible c) (\<lambda>v. if v then r else Inr PNone)"

definition dump_user :: "ctx \<Rightarrow> view_arg \<Rightarrow> user \<Rightarrow> py_exc + string list option \<times> field_entry list" where
  "dump_user c view u =
     (let es = process_fields ''user'' (cx_db c) view (owner_entries ''user'' (cx_db c) (us_id u)) in
      case view of
        NamedView v \<Rightarrow> (case user_view v of None \<Rightarrow> Inl KeyError | Some fs \<Rightarrow> Inr (Some (user_shows fs), es))
      | ListedView fs \<Rightarrow> Inr (Some (user_shows fs), es)
      | NoView \<Rightarrow> Inr (None, es))"

definition concealed :: "ctx \<Rightarrow> bool option \<Rightarrow> bool option \<Rightarrow> bool" where
  "concealed c ban hide = ((ban = Some True \<or> hide = Some True) \<and> is_admin c = Some False)"

definition user_public_get :: "string option \<Rightarrow> ctx \<Rightarrow> int \<Rightarrow> py_exc + profile reply" where
  "user_public_get freeze_row c i = check_account_visibility c (
     bindE (first_or_404 (user_by_id (cx_db c) i)) (\<lambda>u.
     if concealed c (us_banned u) (us_hidden u) then Inl (HTTPAbort 404)
     else bindE (dump_user c (case get_current_user_type c (Some ''user'') of None \<Rightarrow> NoView | Some t \<Rightarrow> NamedView t) u) (\<lambda>(fs, es).
       bindE (if_visible c (user_get_place (cx_conf c) (cx_db c) u False False)) (\<lambda>place.
       bindE (if_visible c (bindE (user_get_score (cx_db c) freeze_row u False) (\<lambda>n. Inr (PInt n)))) (\<lambda>score.
       Inr (Body \<lparr>pr_user = u, pr_fields = fs, pr_entries = es, pr_place = place, pr_score = score\<rparr>))))))"

definition user_private_get :: "ctx \<Rightarrow> py_exc + profile reply" where
  "user_private_get c = authed_only c (
     bindE (get_current_user c) (\<lambda>me. case me of
       None \<Rightarrow> Inl AttributeError
     | Some u \<Rightarrow>
         bindE (dump_user c (NamedView ''self'') u) (\<lambda>(fs, es).
         bindE (if_visible c (user_get_place (cx_conf c) (cx_db c) u False False)) (\<lambda>place.
         bindE (user_get_score (cx_db c) None u True) (\<lambda>score.
         Inr (Body \<lparr>pr_user = u, pr_fields = fs, pr_entries = es, pr_place = place, pr_score = PInt score\<rparr>))))))"

text \<open>
  The lists of solves, fails and awards of an account: the view, the rows and their number.
  Fails are counted but shown to administrators only.  Whoever is not known to be no
  administrator sees past the freeze.
\<close>

definition row_view :: "ctx \<Rightarrow> string" where
  "row_view c = (if yes (is_admin c) then ''admin'' else ''user'')"

definition past_freeze :: "ctx \<Rightarrow> bool" where
  "past_freeze c = (is_admin c \<noteq> Some False)"

definition listing :: "ctx \<Rightarrow> py_exc + 'r list \<Rightarrow> py_exc + (string \<times> 'r list \<times> nat) reply" where
  "listing c rows = bindE rows (\<lambda>rs. Inr (Body (row_view c, rs, length rs)))"

definition fails_listing :: "ctx \<Rightarrow> py_exc + 'r list \<Rightarrow> py_exc + (string \<times> 'r list \<times> nat) reply" where
  "fails_listing c rows = bindE rows (\<lambda>rs. Inr (Body (row_view c, if yes (is_admin c) then rs else [], length rs)))"

definition my_rows :: "ctx \<Rightarrow> (user \<Rightarrow> py_exc + 'r reply) \<Rightarrow> py_exc + 'r reply" where
  "my_rows c f = authed_only c (bindE (get_current_user c) (\<lambda>me. case me of None \<Rightarrow> Inl AttributeError | Some u \<Rightarrow> f u))"

definition rows_of :: "ctx \<Rightarrow> int \<Rightarrow> (user \<Rightarrow> py_exc + 'r reply) \<Rightarrow> py_exc + 'r reply" where
  "rows_of c i f = check_account_visibility c (check_score_visibility c (
     bindE (first_or_404 (user_by_id (cx_db c) i)) (\<lambda>u.
     if concealed c (us_banned u) (us_hidden u) then Inl (HTTPAbort 404) else f u)))"

definition user_private_solves :: "ctx \<Rightarrow> py_exc + (string \<times> submission list \<times> nat) reply" where
  "user_private_solves c = my_rows c (\<lambda>u. listing c (user_get_solves (cx_db c) (cx_conf c) u True))"

definition user_private_fails :: "ctx \<Rightarrow> py_exc + (string \<times> submission list \<times> nat) reply" where
  "user_private_fails c = my_rows c (\<lambda>u. fails_listing c (user_get_fails (cx_db c) (cx_conf c) u True))"

definition user_private_awards :: "ctx \<Rightarrow> py_exc + (string \<times> award list \<times> nat) reply" where
  "user_private_awards c = my_rows c (\<lambda>u. listing c (user_get_awards (cx_db c) (cx_conf c) u True))"

definition user_public_solves :: "ctx \<Rightarrow> int \<Rightarrow> py_exc + (string \<times> submission list \<times> nat) reply" where
  "user_public_solves c i = rows_of c i (\<lambda>u. listing c (user_get_solves (cx_db c) (cx_conf c) u (past_freeze c)))"

definition user_public_fails :: "ctx \<Rightarrow> int \<Rightarrow> py_exc + (string \<times> submission list \<times> nat) reply" where
  "user_public_fails c i = rows_of c i (\<lambda>u. fails_listing c (user_get_fails (cx_db c) (cx_conf c) u (past_freeze c)))"

definition user_public_awards :: "ctx \<Rightarrow> int \<Rightarrow> py_exc + (string \<times> award list \<times> nat) reply" where
  "user_public_awards c i = rows_of c i (\<lambda>u. listing c (user_get_awards (cx_db c) (cx_conf c) u (past_freeze c)))"

text \<open>\<open>UserConstant.get\<close>: name, address and team of the caller.\<close>

definition user_profile :: "ctx \<Rightarrow> py_exc + (string \<times> string option \<times> string) reply" where
  "user_profile c = check_account_visibility c (
     bindE (authenticate_user c) (\<lambda>me. case me of
       None \<Rightarrow> Inr (Status 404)
     | Some u \<Rightarrow>
         if concealed c (us_banned u) (us_hidden u) then Inl (HTTPAbort 404)
         else Inr (case user_team (cx_db c) u of
             None \<Rightarrow> Status 404 | Some t \<Rightarrow> Body (us_name u, us_email u, te_name t))))"

text \<open>\<open>UserEmails.post\<close>: \<open>sendmail\<close> answers whether the mail went out.\<close>

definition user_email_post ::
  "config \<Rightarrow> (string option \<Rightarrow> string \<Rightarrow> bool) \<Rightarrow> ctx \<Rightarrow> int \<Rightarrow> pyval \<Rightarrow> py_exc + unit outcome" where
  "user_email_post app sendmail c i text = (case text of
      PStr s \<Rightarrow>
        bindE (first_or_404 (user_by_id (cx_db c) i)) (\<lambda>u.
        Inr (if get_mail_provider app (cx_conf c) = PNone then Refused ''Email settings not configured''
             else if py_strip s = [] then Refused ''Email text cannot be empty''
             else if sendmail (us_email u) (py_strip s) then Done () else Refused ''mail''))
    | _ \<Rightarrow> Inr (Refused ''text''))"

section \<open>The table of accounts\<close>

lemma map_filter_by_map: "List.map_filter f xs = List.map_filter (\<lambda>x. x) (map f xs)"
  by (simp add: List.map_filter_def filter_map comp_def)

lemma replace_user_ids [simp]: "map us_id (users (replace_user u d)) = map us_id (users d)"
  unfolding replace_user_def by (simp, rule map_update_where) simp

lemma revoke_users [simp]: "users (revoke_user_tokens is d) = users d"
  by (simp add: revoke_user_tokens_def)

lemma users_cascade [simp]: "users (fold db_cascade_challenge is d) = users d"
  by (induction "is" arbitrary: d)
    (simp_all add: db_cascade_challenge_def cascade_challenge_def delete_notes_def)

text \<open>
  Property C29: a change of an account by an administrator that alters its password, role, team,
  ban, visibility or verification leaves the account without access tokens, and no token of
  another account is touched.
\<close>

theorem auth_change_revokes:
  assumes "user_patch load check name_key c i req = Inr (Done n, d')" "user_by_id (cx_db c) i = Some u"
    and "us_password n \<noteq> us_password u \<or> auth_changed u n"
  shows "tokens d' = delete_where (\<lambda>t. is_user_token t \<and> tk_user_id t = Some i) (tokens (cx_db c)) \<and>
    user_by_id d' i = Some n"
proof -
  obtain es where c: "d' = replace_user n (revoke_user_tokens [i] (cx_db c))\<lparr>field_entries := es\<rparr>" "us_id n = i"
    using assms
    by (auto simp: user_patch_def Let_def monad_simps first_or_404_def commit_accounts_def split: if_split_asm)
  have "(\<lambda>t. is_user_token t \<and> tk_user_id t = Some i) =
    (\<lambda>t. is_user_token t \<and> (case tk_user_id t of None \<Rightarrow> False | Some j \<Rightarrow> j \<in> set [i]))"
    by (auto simp: fun_eq_iff split: option.split)
  then have "tokens d' = delete_where (\<lambda>t. is_user_token t \<and> tk_user_id t = Some i) (tokens (cx_db c))"
    by (simp add: c(1) replace_user_def revoke_user_tokens_def)
  moreover have "first_where (\<lambda>x. us_id x = i) (update_where (\<lambda>x. us_id x = i) (\<lambda>_. n) us) = Some n"
    if "first_where (\<lambda>x. us_id x = i) us = Some u" for us
    using that c(2) by (induction us) (auto simp: update_where_def split: if_splits)
  ultimately show ?thesis using assms(2) c by (simp add: user_by_id_def replace_user_def revoke_user_tokens_def)
qed

lemma cascade_challenges:
  "x \<in> set (challenges (fold db_cascade_challenge js d)) \<Longrightarrow>
   \<exists>y\<in>set (challenges d). ch_user_id y = ch_user_id x \<and> ch_id y = ch_id x \<and> ch_id x \<notin> set js"
proof (induction js arbitrary: d)
  case (Cons j js)
  then obtain y where y: "y \<in> set (challenges (db_cascade_challenge j d))" "ch_user_id y = ch_user_id x" "ch_id y = ch_id x"
    "ch_id x \<notin> set js" by auto
  then show ?case
    by (auto simp: db_cascade_challenge_def cascade_challenge_def delete_notes_def table_simps)
qed auto

lemma db_cascade_answers [simp]:
  "submissions (db_cascade_challenge j d) = delete_where (\<lambda>s. sub_challenge_id s = Some j) (submissions d)"
  "solve_rows (db_cascade_challenge j d) = delete_where (\<lambda>r. sv_challenge_id r = Some j) (solve_rows d)"
  by (simp_all add: db_cascade_challenge_def cascade_challenge_def delete_notes_def)

lemma cascade_answers:
  "s \<in> set (submissions (fold db_cascade_challenge js d)) \<Longrightarrow> s \<in> set (submissions d) \<and> sub_challenge_id s \<notin> Some ` set js"
  "r \<in> set (solve_rows (fold db_cascade_challenge js d)) \<Longrightarrow> r \<in> set (solve_rows d) \<and> sv_challenge_id r \<notin> Some ` set js"
  by (induction js arbitrary: d) (fastforce simp: set_delete_where)+

lemma user_deleteE:
  assumes "user_delete refs c i = Inr (Done (), d')"
  obtains d1 where "d1 = fold db_cascade_challenge (authored i (cx_db c)) (cx_db c)" "se_id (cx_session c) \<noteq> Some i"
    "d' = (purge_rows i d1)\<lparr>users := delete_where (\<lambda>u. us_id u = i) (users (cx_db c)),
      field_entries := delete_where (\<lambda>e. fe_type e = Some ''user'' \<and> fe_owner_id e = Some i) (field_entries (purge_rows i d1))\<rparr>"
  using assms by (auto simp: user_delete_def bindE_Inr_iff purge_user_references_def Let_def purge_rows_def split: if_splits)

text \<open>
  Also proved: after the deletion of an account no row of the model refers to it: not as the
  owner of answers, solves, awards, badges, unlocks, tokens or profile entries, not as the author
  of a challenge or a version, not as a captain.  Every other account is untouched.
\<close>

theorem user_delete_clean:
  assumes "user_delete refs c i = Inr (Done (), d')"
  shows "users d' = filter (\<lambda>u. us_id u \<noteq> i) (users (cx_db c)) \<and> se_id (cx_session c) \<noteq> Some i \<and>
    (\<forall>x\<in>set (challenges d'). ch_user_id x \<noteq> i) \<and> (\<forall>x\<in>set (submissions d'). sub_user_id x \<noteq> Some i) \<and>
    (\<forall>x\<in>set (solve_rows d'). sv_user_id x \<noteq> Some i) \<and> (\<forall>x\<in>set (awards d'). aw_user_id x \<noteq> Some i) \<and>
    (\<forall>x\<in>set (unlocks d'). un_user_id x \<noteq> Some i) \<and> (\<forall>x\<in>set (tokens d'). tk_user_id x \<noteq> Some i) \<and>
    (\<forall>x\<in>set (achievements d'). ac_user_id x \<noteq> Some i) \<and> (\<forall>x\<in>set (award_badges d'). ab_user_id x \<noteq> Some i) \<and>
    (\<forall>x\<in>set (versions d'). ve_created_by x \<noteq> Some i) \<and> (\<forall>x\<in>set (teams d'). te_captain_id x \<noteq> Some i) \<and>
    (\<forall>x\<in>set (field_entries d'). fe_type x = Some ''user'' \<longrightarrow> fe_owner_id x \<noteq> Some i)"
  using assms
proof (cases rule: user_deleteE)
  case (1 d1)
  have "ch_user_id x \<noteq> i" if "x \<in> set (challenges d1)" for x
    using cascade_challenges[of x "authored i (cx_db c)" "cx_db c"] that
    unfolding 1(1) authored_def by (force simp: image_iff)
  then show ?thesis using 1(2) by (auto simp: 1(3) purge_rows_def Let_def table_simps delete_where_def)
qed

text \<open>
  Also proved: with an account go the challenges it wrote and, with them, the answers and solves
  of everybody else on them.
\<close>

theorem author_deletion_erases_answers:
  assumes "user_delete refs c i = Inr (Done (), d')" "ch \<in> set (challenges (cx_db c))" "ch_user_id ch = i"
  shows "(\<forall>s\<in>set (submissions d'). sub_challenge_id s \<noteq> Some (ch_id ch)) \<and>
    (\<forall>r\<in>set (solve_rows d'). sv_challenge_id r \<noteq> Some (ch_id ch)) \<and>
    (\<forall>x\<in>set (challenges d'). ch_id x \<noteq> ch_id ch)"
  using assms(1)
proof (cases rule: user_deleteE)
  case (1 d1)
  have mine: "ch_id ch \<in> set (authored i (cx_db c))" using assms(2,3) by (auto simp: authored_def)
  then show ?thesis
    using cascade_answers[of _ "authored i (cx_db c)" "cx_db c"] cascade_challenges[of _ "authored i (cx_db c)" "cx_db c"]
    by (fastforce simp: 1(1,3) purge_rows_def Let_def table_simps)
qed

text \<open>
  Also proved: the view a contestant may edit of the own account contains the team, which the
  schema only checks to exist: a loader that stores the fields it is given moves any user into
  any team, without an invitation, a password or a limit on its size.
\<close>

theorem self_chosen_team:
  assumes "get_current_user c = Inr (Some u)" "team_by_id (cx_db c) t \<noteq> None" "0 < t" "t \<le> 2147483647"
    and "\<forall>n es. load (view_fields ''self'') [(''team_id'', PInt t)] (Some u) n es = Inr (u\<lparr>us_team_id := Some t\<rparr>, es)"
    and "unique_accounts name_key (cx_db c)" "u \<in> set (users (cx_db c))" "distinct (map us_id (users (cx_db c)))"
  shows "''team_id'' \<in> set (view_fields ''self'') \<and>
    (\<exists>n s d'. user_patch_me load (user_pre_load cc fc l verify) name_key c [(''team_id'', PInt t)] = Inr (Done (n, s), d') \<and>
      user_by_id d' (us_id u) = Some (u\<lparr>us_team_id := Some t\<rparr>))"
proof -
  let ?d = "[(''team_id'', PInt t)]" and ?n = "u\<lparr>us_team_id := Some t\<rparr>"
  have "user_validate_password verify c (NamedView ''self'') ?d = Inr ?d"
    using assms(1) by (simp add: user_validate_password_def dget_def Let_def drop_password_def del_def)
  then have check: "user_pre_load cc fc l verify c (NamedView ''self'') (Some u) ?d = Inr (?d, False)"
    using assms(2-4)
    by (simp add: user_pre_load_def user_validate_bracket_def reference_def in_id_range_def dget_def user_validate_email_def
        user_validate_fields_def user_validate_name_def user_validate_type_def validate_type_payload_def put_def)
  let ?new = "replace_user ?n (cx_db c)\<lparr>field_entries := field_entries (cx_db c)\<rparr>"
  have others: "x = u" if "x \<in> set (users (cx_db c))" "us_id x = us_id u" for x
    using inj_onD[OF _ that(2,1) assms(7)] assms(8) by (simp add: distinct_map)
  then have "map f (users ?new) = map f (users (cx_db c))" if "f ?n = f u" for f :: "user \<Rightarrow> 'b"
    using that by (auto simp: replace_user_def update_where_def)
  from this[of "\<lambda>u. name_key (us_name u)"] this[of us_email] this[of us_oauth_id]
  have "unique_accounts name_key ?new"
    using assms(6) unfolding unique_accounts_def map_filter_by_map[of us_email] map_filter_by_map[of us_oauth_id] by simp
  then have "user_patch_me load (user_pre_load cc fc l verify) name_key c ?d =
      Inr (Done (?n, update_user (cx_hmac c) ?n (cx_session c)), ?new)"
    using assms(1,5) by (simp add: user_patch_me_def check refusing_def Let_def commit_accounts_def)
  moreover have "user_by_id ?new (us_id u) = Some ?n"
  proof -
    have "distinct (map us_id (users ?new))" using assms(8) replace_user_ids[of ?n "cx_db c"] by simp
    moreover have "?n \<in> set (users ?new)" using assms(7) by (auto simp: replace_user_def set_update_where)
    ultimately show ?thesis using first_where_unique[of us_id "users ?new" ?n] by (simp add: user_by_id_def)
  qed
  moreover have "''team_id'' \<in> set (view_fields ''self'')" by code_simp
  ultimately show ?thesis by blast
qed

text \<open>
  Also proved: a challenge writer or a juror is refused every visible profile by an exception: the
  schema has no view named after their role.
\<close>

theorem staff_profile_fails:
  assumes "authed c" "get_current_user_attrs c = Some me" "user_type me \<in> {''challenge_writer'', ''jury''}"
    and "conf_is c ''account_visibility'' ''public''" "user_by_id (cx_db c) i = Some u" "\<not> concealed c (us_banned u) (us_hidden u)"
  shows "user_public_get freeze_row c i = Inl KeyError"
  using assms
  by (auto simp: user_public_get_def check_account_visibility_def first_or_404_def get_current_user_type_def
      dump_user_def user_view_def Let_def)

section \<open>Witnesses\<close>

text \<open>The administrator 1, the contestant 7 and a team.\<close>

definition admin_1 :: user where
  "admin_1 = (sample_user 1 None)\<lparr>us_name := ''admin'', us_type := Some ''admin''\<rparr>"

definition accounts_db :: db where
  "accounts_db = empty_db\<lparr>users := [admin_1, sample_user 7 None], teams := [sample_team 3 None], tokens := [sample_token]\<rparr>"

definition accounts_ctx :: "int \<Rightarrow> ctx" where
  "accounts_ctx i = (sample_ctx admin_1 (Some i) ''PATCH'' None)\<lparr>cx_db := accounts_db\<rparr>"

text \<open>A loader that stores the role and the team it is given.\<close>

definition store_role_and_team :: user_loader where
  "store_role_and_team fs data target i es = (case target of
      None \<Rightarrow> Inl TypeError
    | Some u \<Rightarrow> Inr (u\<lparr>us_type := given_str data ''type'' (us_type u), us_team_id := given_int data ''team_id'' (us_team_id u)\<rparr>, es))"

definition checks :: user_checker where
  "checks = user_pre_load [] [] id (\<lambda>v h. Inr False)"

definition juror_7 :: user where
  "juror_7 = (sample_user 7 None)\<lparr>us_type := Some ''jury''\<rparr>"

lemma promote_7: "user_patch store_role_and_team checks id (accounts_ctx 1) 7 [(''type'', PStr ''jury'')] =
    Inr (Done juror_7, accounts_db\<lparr>users := [admin_1, juror_7], tokens := []\<rparr>)"
  by code_simp

theorem auth_change_revokes_witness:
  "tokens accounts_db = [sample_token] \<and>
   delete_where (\<lambda>t. is_user_token t \<and> tk_user_id t = Some 7) (tokens accounts_db) = []"
proof -
  have "user_by_id (cx_db (accounts_ctx 1)) 7 = Some (sample_user 7 None)" by code_simp
  from auth_change_revokes[OF promote_7 this] show ?thesis
    by (simp add: auth_changed_def juror_7_def sample_user_def accounts_db_def accounts_ctx_def)
qed

text \<open>The contestant 7 wrote the challenge 5, which the player 8 solved.\<close>

definition author_db :: db where
  "author_db = empty_db\<lparr>users := [admin_1, sample_user 7 None, (sample_user 8 None)\<lparr>us_name := ''solver''\<rparr>],
     challenges := [(sample_challenge 5 (Some 100))\<lparr>ch_user_id := 7\<rparr>],
     submissions := [\<lparr>sub_id = 1, sub_challenge_id = Some 5, sub_user_id = Some 8, sub_team_id = None, sub_ip = None,
       sub_provided = None, sub_type = Some ''correct'', sub_date = None\<rparr>],
     solve_rows := [\<lparr>sv_id = 1, sv_challenge_id = Some 5, sv_user_id = Some 8, sv_team_id = None\<rparr>]\<rparr>"

definition author_ctx :: ctx where
  "author_ctx = (accounts_ctx 1)\<lparr>cx_db := author_db\<rparr>"

definition without_author :: db where
  "without_author = empty_db\<lparr>users := [admin_1, (sample_user 8 None)\<lparr>us_name := ''solver''\<rparr>]\<rparr>"

lemma delete_7: "user_delete [] author_ctx 7 = Inr (Done (), without_author)"
  by code_simp

theorem user_delete_clean_witness:
  "users without_author = filter (\<lambda>u. us_id u \<noteq> 7) (users author_db)"
  using user_delete_clean[OF delete_7] by (simp add: author_ctx_def)

theorem author_deletion_erases_answers_witness:
  "solve_rows author_db \<noteq> [] \<and> (\<forall>r\<in>set (solve_rows without_author). sv_challenge_id r \<noteq> Some 5)"
proof -
  have "(sample_challenge 5 (Some 100))\<lparr>ch_user_id := 7\<rparr> \<in> set (challenges (cx_db author_ctx))"
    by (simp add: author_ctx_def author_db_def)
  from author_deletion_erases_answers[OF delete_7 this] show ?thesis
    by (simp add: author_db_def sample_challenge_def)
qed

theorem self_chosen_team_witness:
  "\<exists>n s d'. user_patch_me store_role_and_team checks id (accounts_ctx 7) [(''team_id'', PInt 3)] = Inr (Done (n, s), d') \<and>
    user_by_id d' 7 = Some (sample_user 7 (Some 3))"
proof -
  have me: "get_current_user (accounts_ctx 7) = Inr (Some (sample_user 7 None))" by code_simp
  have ok: "team_by_id (cx_db (accounts_ctx 7)) 3 \<noteq> None" "unique_accounts id (cx_db (accounts_ctx 7))"
    "distinct (map us_id (users (cx_db (accounts_ctx 7))))" by code_simp+
  have load: "\<forall>n es. store_role_and_team (view_fields ''self'') [(''team_id'', PInt 3)] (Some (sample_user 7 None)) n es =
    Inr ((sample_user 7 None)\<lparr>us_team_id := Some 3\<rparr>, es)"
    by (simp add: store_role_and_team_def given_str_def given_int_def sample_user_def)
  have mem: "sample_user 7 None \<in> set (users (cx_db (accounts_ctx 7)))" by (simp add: accounts_ctx_def accounts_db_def)
  show ?thesis
    using self_chosen_team[of "accounts_ctx 7" "sample_user 7 None" 3 store_role_and_team id "[]" "[]" id "\<lambda>v h. Inr False"]
      me ok load mem by (simp add: checks_def) (simp add: sample_user_def)
qed

theorem staff_profile_fails_witness:
  "user_public_get None ((accounts_ctx 7)\<lparr>cx_db := accounts_db\<lparr>users := [admin_1, juror_7]\<rparr>,
     cx_conf := (\<lambda>k. if k = ''account_visibility'' then PStr ''public'' else PNone)\<rparr>) 1 = Inl KeyError"
  by (rule staff_profile_fails[where me = juror_7 and u = admin_1]) code_simp+

end
