(* ===== verification/Encoding.thy ===== *)
theory Encoding imports PyVal begin

text \<open>
  The parts of \<^verbatim>\<open>base64\<close> and \<^verbatim>\<open>json\<close> the invite codes go through, as CPython runs
  them: the URL-safe alphabet, the lenient decoder with its four positions, the compact ASCII
  writer of flat objects and the reader of arbitrary JSON text.  Floats are read as exact
  rationals; the names \<open>NaN\<close> and \<open>Infinity\<close> and characters beyond Latin-1 are read errors here.
\<close>

section \<open>Base64\<close>

definition b64_alphabet :: string where
  "b64_alphabet = ''ABCDEFGHIJKLMNOPQRSTUVWXYZabcdefghijklmnopqrstuvwxyz0123456789-_''"

definition b64_char :: "nat \<Rightarrow> char" where
  "b64_char n = b64_alphabet ! n"

fun position :: "char \<Rightarrow> string \<Rightarrow> nat option" where
  "position c [] = None"
| "position c (x # xs) = (if c = x then Some 0 else map_option Suc (position c xs))"

text \<open>The decoder maps \<open>-\<close> and \<open>_\<close> to \<open>+\<close> and \<open>/\<close> first, so it takes both spellings.\<close>

definition b64_val :: "char \<Rightarrow> nat option" where
  "b64_val c = (if c = CHR ''+'' then Some 62 else if c = CHR ''/'' then Some 63 else position c b64_alphabet)"

definition byte :: "nat \<Rightarrow> char" where
  "byte n = char_of n"

fun urlsafe_b64encode :: "string \<Rightarrow> string" where
  "urlsafe_b64encode [] = []"
| "urlsafe_b64encode [a] = [b64_char (py_ord a div 4), b64_char (py_ord a mod 4 * 16), CHR ''='', CHR ''='']"
| "urlsafe_b64encode [a, b] = [b64_char (py_ord a div 4), b64_char (py_ord a mod 4 * 16 + py_ord b div 16),
     b64_char (py_ord b mod 16 * 4), CHR ''='']"
| "urlsafe_b64encode (a # b # c # r) = b64_char (py_ord a div 4) # b64_char (py_ord a mod 4 * 16 + py_ord b div 16) #
     b64_char (py_ord b mod 16 * 4 + py_ord c div 64) # b64_char (py_ord c mod 64) # urlsafe_b64encode r"

text \<open>
  The decoder: its position in the group of four, the bits carried over and the padding seen;
  characters outside the alphabet are skipped, a complete padding ends the input.
\<close>

fun a2b :: "nat \<Rightarrow> nat \<Rightarrow> nat \<Rightarrow> string \<Rightarrow> string option" where
  "a2b q left pads [] = (if q = 0 then Some [] else None)"
| "a2b q left pads (c # cs) =
     (if c = CHR ''='' then
        if 2 \<le> q \<and> 4 \<le> q + Suc pads then Some []
        else a2b q left (if 2 \<le> q then Suc pads else pads) cs
      else case b64_val c of
        None \<Rightarrow> a2b q left pads cs
      | Some v \<Rightarrow>
          if q = 0 then a2b 1 v 0 cs
          else if q = 1 then map_option ((#) (byte (left * 4 + v div 16))) (a2b 2 (v mod 16) 0 cs)
          else if q = 2 then map_option ((#) (byte (left * 16 + v div 4))) (a2b 3 (v mod 4) 0 cs)
          else map_option ((#) (byte (left * 64 + v))) (a2b 0 0 0 cs))"

definition urlsafe_b64decode :: "string \<Rightarrow> string option" where
  "urlsafe_b64decode s = a2b 0 0 0 s"

definition rstrip_char :: "char \<Rightarrow> string \<Rightarrow> string" where
  "rstrip_char c s = rev (dropWhile (\<lambda>x. x = c) (rev s))"

definition padding :: "string \<Rightarrow> string" where
  "padding s = replicate ((4 - length s mod 4) mod 4) (CHR ''='')"

lemma b64_val_char: "n < 64 \<Longrightarrow> b64_val (b64_char n) = Some n \<and> b64_char n \<noteq> CHR ''='' \<and> b64_char n \<noteq> CHR ''.''
  \<and> py_ord (b64_char n) < 128 \<and> \<not> py_isspace (b64_char n)"
proof -
  have "list_all (\<lambda>n. b64_val (b64_char n) = Some n \<and> b64_char n \<noteq> CHR ''='' \<and> b64_char n \<noteq> CHR ''.''
    \<and> py_ord (b64_char n) < 128 \<and> \<not> py_isspace (b64_char n)) [0..<64]"
    by code_simp
  then show "n < 64 \<Longrightarrow> ?thesis" by (simp add: list_all_iff)
qed

lemma byte_ord [simp]: "byte (py_ord c) = c"
  by (simp add: byte_def py_ord_def)

lemma radix: "n < k \<Longrightarrow> (m * k + n) div k = m" "n < k \<Longrightarrow> (m * k + n) mod k = n" for m n k :: nat
  by simp_all

lemma sextets:
  fixes a b c :: nat assumes "a < 256" "b < 256" "c < 256"
  shows "a div 4 < 64 \<and> a mod 4 * 16 < 64 \<and> a mod 4 * 16 + b div 16 < 64 \<and> b mod 16 * 4 < 64 \<and>
    b mod 16 * 4 + c div 64 < 64 \<and> c mod 64 < 64 \<and>
    a div 4 * 4 + (a mod 4 * 16) div 16 = a \<and> a div 4 * 4 + (a mod 4 * 16 + b div 16) div 16 = a \<and>
    (a mod 4 * 16 + b div 16) mod 16 * 16 + (b mod 16 * 4) div 4 = b \<and>
    (a mod 4 * 16 + b div 16) mod 16 * 16 + (b mod 16 * 4 + c div 64) div 4 = b \<and>
    (b mod 16 * 4 + c div 64) mod 4 * 64 + c mod 64 = c"
proof -
  have lt: "a div 4 < 64" "b div 16 < 16" "c div 64 < 4" using assms by auto
  have "a mod 4 < 4" "b mod 16 < 16" "c mod 64 < 64" by auto
  then have "a mod 4 * 16 + b div 16 < 64" "b mod 16 * 4 + c div 64 < 64" "a mod 4 * 16 < 64" "b mod 16 * 4 < 64"
    using lt by linarith+
  then show ?thesis using lt by (simp add: radix)
qed

text \<open>The groups of the bytes of a string.\<close>

lemma byte_sextets: fixes x y z defines "a \<equiv> py_ord x" and "b \<equiv> py_ord y" and "c \<equiv> py_ord z"
  shows "a div 4 < 64 \<and> a mod 4 * 16 < 64 \<and> a mod 4 * 16 + b div 16 < 64 \<and> b mod 16 * 4 < 64 \<and>
    b mod 16 * 4 + c div 64 < 64 \<and> c mod 64 < 64 \<and>
    a div 4 * 4 + (a mod 4 * 16) div 16 = a \<and> a div 4 * 4 + (a mod 4 * 16 + b div 16) div 16 = a \<and>
    (a mod 4 * 16 + b div 16) mod 16 * 16 + (b mod 16 * 4) div 4 = b \<and>
    (a mod 4 * 16 + b div 16) mod 16 * 16 + (b mod 16 * 4 + c div 64) div 4 = b \<and>
    (b mod 16 * 4 + c div 64) mod 4 * 64 + c mod 64 = c"
  unfolding a_def b_def c_def by (rule sextets) (rule py_ord_bound)+

lemma a2b_data:
  "n < 64 \<Longrightarrow> a2b 0 l p (b64_char n # s) = a2b 1 n 0 s"
  "n < 64 \<Longrightarrow> a2b 1 l p (b64_char n # s) = map_option ((#) (byte (l * 4 + n div 16))) (a2b 2 (n mod 16) 0 s)"
  "n < 64 \<Longrightarrow> a2b 2 l p (b64_char n # s) = map_option ((#) (byte (l * 16 + n div 4))) (a2b 3 (n mod 4) 0 s)"
  "n < 64 \<Longrightarrow> a2b 3 l p (b64_char n # s) = map_option ((#) (byte (l * 64 + n))) (a2b 0 0 0 s)"
  by (simp_all add: b64_val_char)

lemma a2b_group:
  assumes "m < 64" "n < 64" "k < 64"
  shows "j < 64 \<Longrightarrow> a2b 0 0 0 (b64_char m # b64_char n # b64_char k # b64_char j # s) = map_option
      (\<lambda>r. byte (m * 4 + n div 16) # byte (n mod 16 * 16 + k div 4) # byte (k mod 4 * 64 + j) # r) (a2b 0 0 0 s)"
    "a2b 0 0 0 [b64_char m, b64_char n, b64_char k, CHR ''=''] =
      Some [byte (m * 4 + n div 16), byte (n mod 16 * 16 + k div 4)]"
  by (simp_all only: a2b_data assms option.map_comp comp_def)
    (simp only: a2b.simps, simp)

lemma a2b_single:
  "m < 64 \<Longrightarrow> n < 64 \<Longrightarrow>
   a2b 0 0 0 [b64_char m, b64_char n, CHR ''='', CHR ''=''] = Some [byte (m * 4 + n div 16)]"
  by (simp only: a2b_data) (simp only: a2b.simps, simp)

lemma b64_round_trip: "urlsafe_b64decode (urlsafe_b64encode s) = Some s"
  unfolding urlsafe_b64decode_def
proof (induction s rule: urlsafe_b64encode.induct)
  case (2 a)
  show ?case using byte_sextets[of a a a]
    by (simp only: urlsafe_b64encode.simps a2b_group a2b_single byte_ord)
next
  case (3 a b)
  show ?case using byte_sextets[of a b b]
    by (simp only: urlsafe_b64encode.simps a2b_group byte_ord)
next
  case (4 a b c r)
  show ?case using byte_sextets[of a b c]
    by (simp only: urlsafe_b64encode.simps a2b_group byte_ord 4 option.map)
qed simp

text \<open>What the encoder writes: alphabet characters, then at most two equal signs.\<close>

definition b64_text :: "string \<Rightarrow> bool" where
  "b64_text s = list_all (\<lambda>c. c \<noteq> CHR ''='' \<and> c \<noteq> CHR ''.'' \<and> py_ord c < 128 \<and> \<not> py_isspace c) s"

lemma b64_shape: "\<exists>t k. urlsafe_b64encode s = t @ replicate k (CHR ''='') \<and> b64_text t \<and> k < 4 \<and>
  length (urlsafe_b64encode s) mod 4 = 0"
proof (induction s rule: urlsafe_b64encode.induct)
  case (2 a)
  show ?case
    using byte_sextets[of a a a]
    by (intro exI[of _ "[b64_char (py_ord a div 4), b64_char (py_ord a mod 4 * 16)]"] exI[of _ 2])
      (simp add: b64_text_def b64_val_char numeral_2_eq_2)
next
  case (3 a b)
  show ?case
    using byte_sextets[of a b b]
    by (intro exI[of _ "[b64_char (py_ord a div 4), b64_char (py_ord a mod 4 * 16 + py_ord b div 16),
      b64_char (py_ord b mod 16 * 4)]"] exI[of _ 1]) (simp add: b64_text_def b64_val_char)
next
  case (4 a b c r)
  then obtain t k where t: "urlsafe_b64encode r = t @ replicate k (CHR ''='')" "b64_text t" "k < 4"
    "length (urlsafe_b64encode r) mod 4 = 0" by (elim exE conjE) (rule that)
  show ?case
    using byte_sextets[of a b c] t
    by (intro exI[of _ "b64_char (py_ord a div 4) # b64_char (py_ord a mod 4 * 16 + py_ord b div 16) #
      b64_char (py_ord b mod 16 * 4 + py_ord c div 64) # b64_char (py_ord c mod 64) # t"] exI[of _ k])
      (auto simp: b64_text_def b64_val_char mod_Suc)
qed (intro exI[of _ "[]"] exI[of _ 0], simp add: b64_text_def)

lemma rstrip_padding:
  "b64_text t \<Longrightarrow> rstrip_char (CHR ''='') (t @ replicate k (CHR ''='')) = t"
proof (induction k)
  case 0
  then show ?case by (cases t rule: rev_cases) (auto simp: rstrip_char_def b64_text_def)
next
  case (Suc k)
  have "rev (t @ replicate (Suc k) (CHR ''='')) = CHR ''='' # rev (t @ replicate k (CHR ''=''))"
    by (simp add: replicate_append_same)
  then show ?case using Suc unfolding rstrip_char_def by (simp only: dropWhile.simps simp_thms if_True)
qed

lemma padding_length:
  fixes n k :: nat assumes "(n + k) mod 4 = 0" "k < 4" shows "k = (4 - n mod 4) mod 4"
proof -
  have "(n mod 4 + k) mod 4 = 0" using assms(1) by (simp add: mod_add_left_eq)
  moreover have "n mod 4 \<in> {0, 1, 2, 3}" "k \<in> {0, 1, 2, 3}" using assms(2) by auto
  ultimately show ?thesis by (elim insertE emptyE) simp_all
qed

text \<open>Stripping the padding and putting it back is lossless.\<close>

lemma b64_unpadded:
  fixes s defines "p \<equiv> rstrip_char (CHR ''='') (urlsafe_b64encode s)"
  shows "urlsafe_b64decode (p @ padding p) = Some s" "b64_text p"
proof -
  obtain t k where t: "urlsafe_b64encode s = t @ replicate k (CHR ''='')" "b64_text t" "k < 4"
    "length (urlsafe_b64encode s) mod 4 = 0" using b64_shape[of s] by (elim exE conjE) (rule that)
  have p: "p = t" by (simp add: p_def t(1) rstrip_padding[OF t(2)])
  have "(length t + k) mod 4 = 0" using t(4) unfolding t(1) by simp
  then have "k = (4 - length t mod 4) mod 4" using t(3) by (rule padding_length)
  then have "p @ padding p = urlsafe_b64encode s" unfolding p padding_def t(1) by (simp only:)
  then show "urlsafe_b64decode (p @ padding p) = Some s" by (simp only: b64_round_trip)
  show "b64_text p" by (simp add: p t(2))
qed

section \<open>UTF-8\<close>

text \<open>Decoding to Latin-1: one byte below 128, two bytes up to 255.\<close>

fun utf8_decode :: "string \<Rightarrow> string option" where
  "utf8_decode [] = Some []"
| "utf8_decode [c] = (if py_ord c < 128 then Some [c] else None)"
| "utf8_decode (c # d # r) =
     (if py_ord c < 128 then map_option ((#) c) (utf8_decode (d # r))
      else if py_ord c \<in> {194, 195} \<and> 128 \<le> py_ord d \<and> py_ord d < 192
      then map_option ((#) (byte ((py_ord c - 192) * 64 + (py_ord d - 128)))) (utf8_decode r)
      else None)"

definition is_ascii :: "string \<Rightarrow> bool" where
  "is_ascii s = list_all (\<lambda>c. py_ord c < 128) s"

lemma utf8_decode_ascii: "is_ascii s \<Longrightarrow> utf8_decode s = Some s"
  by (induction s rule: utf8_decode.induct) (auto simp: is_ascii_def)

end
