(* ===== verification/Json.thy ===== *)
theory Json imports PyVal begin

text \<open>
  The parts of \<^verbatim>\<open>json\<close> the handlers use: \<open>json.dumps(.., separators=(",", ":"), sort_keys=True)\<close>
  of a flat object of integers and strings, and \<open>json.loads\<close> of any text, as CPython's scanner
  reads it.  A level of nesting consumes a character in at most two calls, so twice the length of the
  text is enough fuel (\<open>json_fuel\<close>).
  Floats are read as exact rationals; \<open>NaN\<close>, \<open>Infinity\<close> and characters beyond Latin-1 are read
  errors here.
\<close>

section \<open>Writing\<close>

definition quote_char :: char where "quote_char = CHR 0x22"

definition backslash :: char where "backslash = CHR 0x5C"

definition hex_digit :: "nat \<Rightarrow> char" where
  "hex_digit n = ''0123456789abcdef'' ! n"

definition escaped :: "char \<Rightarrow> string" where
  "escaped c =
     (if c = quote_char then [backslash, quote_char]
      else if c = backslash then [backslash, backslash]
      else if py_ord c = 10 then [backslash, CHR ''n'']
      else if py_ord c = 13 then [backslash, CHR ''r'']
      else if py_ord c = 9 then [backslash, CHR ''t'']
      else if py_ord c = 12 then [backslash, CHR ''f'']
      else if py_ord c = 8 then [backslash, CHR ''b'']
      else if 32 \<le> py_ord c \<and> py_ord c \<le> 126 then [c]
      else [backslash, CHR ''u'', CHR ''0'', CHR ''0'', hex_digit (py_ord c div 16), hex_digit (py_ord c mod 16)])"

definition json_str :: "string \<Rightarrow> string" where
  "json_str s = quote_char # concat (map escaped s) @ [quote_char]"

text \<open>Printing an integer of more than 4300 digits raises, like reading one.\<close>

definition json_int :: "int \<Rightarrow> py_exc + string" where
  "json_int i = (if max_int_digits < length (show_nat (nat \<bar>i\<bar>)) then Inl (ValueError ''Exceeds the limit'')
                 else Inr (show_int i))"

fun json_scalar :: "pyval \<Rightarrow> py_exc + string" where
  "json_scalar (PInt i) = json_int i"
| "json_scalar (PStr s) = Inr (json_str s)"
| "json_scalar _ = Inl TypeError"

fun json_fields :: "dict \<Rightarrow> py_exc + string" where
  "json_fields [] = Inr ''}''"
| "json_fields [(k, v)] = bindE (json_scalar v) (\<lambda>t. Inr (json_str k @ '':'' @ t @ ''}''))"
| "json_fields ((k, v) # p # r) =
     bindE (json_scalar v) (\<lambda>t. bindE (json_fields (p # r)) (\<lambda>rest. Inr (json_str k @ '':'' @ t @ '','' @ rest)))"

definition json_object :: "dict \<Rightarrow> py_exc + string" where
  "json_object d = bindE (json_fields d) (\<lambda>t. Inr (CHR ''{'' # t))"

section \<open>Reading\<close>

definition json_space :: "char \<Rightarrow> bool" where
  "json_space c = (py_ord c \<in> {32, 9, 10, 13})"

definition skip_ws :: "string \<Rightarrow> string" where
  "skip_ws s = dropWhile json_space s"

definition hex_val :: "char \<Rightarrow> nat option" where
  "hex_val c = (let n = py_ord c in
     if 48 \<le> n \<and> n \<le> 57 then Some (n - 48)
     else if 97 \<le> n \<and> n \<le> 102 then Some (n - 87)
     else if 65 \<le> n \<and> n \<le> 70 then Some (n - 55) else None)"

definition code_point :: "char \<Rightarrow> char \<Rightarrow> char \<Rightarrow> char \<Rightarrow> char option" where
  "code_point a b c d = (case (hex_val a, hex_val b, hex_val c, hex_val d) of
      (Some w, Some x, Some y, Some z) \<Rightarrow>
        if w = 0 \<and> x = 0 then Some (char_of (16 * y + z)) else None
    | _ \<Rightarrow> None)"

definition unescape :: "char \<Rightarrow> char option" where
  "unescape c =
     (if c = quote_char \<or> c = backslash \<or> c = CHR ''/'' then Some c
      else if c = CHR ''b'' then Some (char_of (8::nat)) else if c = CHR ''f'' then Some (char_of (12::nat))
      else if c = CHR ''n'' then Some (char_of (10::nat)) else if c = CHR ''r'' then Some (char_of (13::nat))
      else if c = CHR ''t'' then Some (char_of (9::nat)) else None)"

definition consing :: "char \<Rightarrow> (string \<times> string) option \<Rightarrow> (string \<times> string) option" where
  "consing c r = map_option (\<lambda>(s, rest). (c # s, rest)) r"

definition uncons :: "string \<Rightarrow> (char \<times> string) option" where
  "uncons s = (case s of [] \<Rightarrow> None | c # r \<Rightarrow> Some (c, r))"

lemma consing_Some: "consing c m = Some (t, r) \<longleftrightarrow> (\<exists>u. m = Some (u, r) \<and> t = c # u)"
  by (auto simp: consing_def)

text \<open>An escape sequence, after its backslash.\<close>

fun read_escape :: "string \<Rightarrow> (char \<times> string) option" where
  "read_escape [] = None"
| "read_escape (e # r) =
     (if e = CHR ''u'' then
        if length r < 4 then None
        else Option.bind (code_point (r ! 0) (r ! 1) (r ! 2) (r ! 3)) (\<lambda>x. Some (x, drop 4 r))
      else Option.bind (unescape e) (\<lambda>x. Some (x, r)))"

lemma read_escape_consumes: "read_escape s = Some (x, r) \<Longrightarrow> length r < length s"
  by (cases s) (auto simp: bind_eq_Some_conv split: if_splits)

text \<open>The rest of a string literal, after its opening quote.\<close>

function read_str :: "string \<Rightarrow> (string \<times> string) option" where
  "read_str [] = None"
| "read_str (c # r) =
     (if c = quote_char then Some ([], r)
      else if c = backslash then Option.bind (read_escape r) (\<lambda>(x, r'). consing x (read_str r'))
      else if py_ord c < 32 then None
      else consing c (read_str r))"
  by pat_completeness auto
termination
  by (relation "measure length") (auto dest: read_escape_consumes)

text \<open>The integer part of a number: a zero, or digits that do not begin with one.\<close>

fun read_int_part :: "string \<Rightarrow> (string \<times> string) option" where
  "read_int_part [] = None"
| "read_int_part (c # r) =
     (if c = CHR ''0'' then Some ([c], r)
      else if dec_char c then Some (c # takeWhile dec_char r, dropWhile dec_char r)
      else None)"

fun read_frac :: "string \<Rightarrow> string option \<times> string" where
  "read_frac (p # c # r) =
     (if p = CHR ''.'' \<and> dec_char c then (Some (c # takeWhile dec_char r), dropWhile dec_char r) else (None, p # c # r))"
| "read_frac s = (None, s)"

definition read_exp :: "string \<Rightarrow> int option \<times> string" where
  "read_exp s = (if s = [] then (None, s)
     else let (neg, ds) = split_sign (tl s); digits = takeWhile dec_char ds in
       if hd s \<in> {CHR ''e'', CHR ''E''} \<and> digits \<noteq> []
       then (Some (if neg then - digits_value digits else digits_value digits), dropWhile dec_char ds)
       else (None, s))"

definition ten_power :: "int \<Rightarrow> rat" where
  "ten_power e = (if 0 \<le> e then 10 ^ nat e else 1 / 10 ^ nat (- e))"

definition read_sign :: "string \<Rightarrow> int \<times> string" where
  "read_sign s = (if s \<noteq> [] \<and> hd s = CHR ''-'' then (- 1, tl s) else (1, s))"

definition number_value :: "int \<Rightarrow> string \<Rightarrow> string option \<Rightarrow> int option \<Rightarrow> pyval option" where
  "number_value sg ds fr ex =
     (if fr = None \<and> ex = None
      then (if max_int_digits < length ds then None else Some (PInt (sg * digits_value ds)))
      else let fs = (case fr of None \<Rightarrow> [] | Some f \<Rightarrow> f); e = (case ex of None \<Rightarrow> 0 | Some x \<Rightarrow> x) in
        Some (PFloat (of_int sg * of_int (digits_value (ds @ fs)) * ten_power (e - int (length fs)))))"

definition read_number :: "string \<Rightarrow> (pyval \<times> string) option" where
  "read_number s = Option.bind (read_int_part (snd (read_sign s))) (\<lambda>(ds, r1).
     let (fr, r2) = read_frac r1; (ex, r3) = read_exp r2 in
     Option.bind (number_value (fst (read_sign s)) ds fr ex) (\<lambda>v. Some (v, r3)))"

definition read_word :: "string \<Rightarrow> pyval \<Rightarrow> string \<Rightarrow> (pyval \<times> string) option" where
  "read_word w v s = (if starts_with w s then Some (v, drop (length w) s) else None)"

text \<open>
  A value; the elements of a list after its bracket (at an element); the fields of an object at
  a field name.  A repeated name keeps its last value.
\<close>

fun read_value :: "nat \<Rightarrow> string \<Rightarrow> (pyval \<times> string) option"
  and read_items :: "nat \<Rightarrow> pyval list \<Rightarrow> string \<Rightarrow> (pyval \<times> string) option"
  and read_fields :: "nat \<Rightarrow> dict \<Rightarrow> string \<Rightarrow> (pyval \<times> string) option" where
  "read_value 0 s = None"
| "read_value (Suc f) s = Option.bind (uncons s) (\<lambda>(c, r).
     if c = quote_char then Option.bind (read_str r) (\<lambda>(t, r'). Some (PStr t, r'))
     else if c = CHR ''{'' then Option.bind (uncons (skip_ws r)) (\<lambda>(x, r1).
       if x = CHR ''}'' then Some (PDict [], r1) else read_fields f [] (skip_ws r))
     else if c = CHR ''['' then Option.bind (uncons (skip_ws r)) (\<lambda>(x, r1).
       if x = CHR '']'' then Some (PList [], r1) else read_items f [] (skip_ws r))
     else if c = CHR ''n'' then read_word ''null'' PNone s
     else if c = CHR ''t'' then read_word ''true'' (PBool True) s
     else if c = CHR ''f'' then read_word ''false'' (PBool False) s
     else read_number s)"
| "read_items 0 acc s = None"
| "read_items (Suc f) acc s =
     Option.bind (read_value f s) (\<lambda>(v, r1).
     Option.bind (uncons (skip_ws r1)) (\<lambda>(x, r2).
     if x = CHR '']'' then Some (PList (acc @ [v]), r2)
     else if x = CHR '','' then read_items f (acc @ [v]) (skip_ws r2) else None))"
| "read_fields 0 acc s = None"
| "read_fields (Suc f) acc s =
     Option.bind (uncons s) (\<lambda>(q, r). if q \<noteq> quote_char then None
     else Option.bind (read_str r) (\<lambda>(k, r1).
     Option.bind (uncons (skip_ws r1)) (\<lambda>(col, r2). if col \<noteq> CHR '':'' then None
     else Option.bind (read_value f (skip_ws r2)) (\<lambda>(v, r3).
     Option.bind (uncons (skip_ws r3)) (\<lambda>(x, r4).
     if x = CHR ''}'' then Some (PDict (put k v acc), r4)
     else if x = CHR '','' then read_fields f (put k v acc) (skip_ws r4) else None)))))"

definition json_loads :: "string \<Rightarrow> pyval option" where
  "json_loads s = (case read_value (Suc (2 * length s)) (skip_ws s) of
      None \<Rightarrow> None
    | Some (v, rest) \<Rightarrow> if skip_ws rest = [] then Some v else None)"

section \<open>The fuel is enough\<close>

lemma length_skip_ws: "length (skip_ws s) \<le> length s"
  by (simp add: skip_ws_def length_dropWhile_le)

lemma uncons_consumes: "uncons s = Some (x, r) \<Longrightarrow> length r < length s"
  by (cases s) (auto simp: uncons_def)

lemma uncons_skip: "uncons (skip_ws s) = Some (x, r) \<Longrightarrow> length r < length s"
  using uncons_consumes length_skip_ws[of s] by fastforce

lemma read_str_consumes: "read_str s = Some (t, r) \<Longrightarrow> length r < length s"
proof (induction s arbitrary: t r rule: read_str.induct)
  case (2 c r0)
  have esc: "length r < length r0" if b: "Option.bind (read_escape r0) (\<lambda>(x, r'). consing x (read_str r')) = Some (t, r)"
    "c \<noteq> quote_char" "c = backslash"
  proof -
    obtain x r1 t' where e: "read_escape r0 = Some (x, r1)" "read_str r1 = Some (t', r)"
      using b(1) by (auto simp: bind_eq_Some_conv consing_Some)
    then show ?thesis using 2(1)[OF b(2,3) e(1) refl e(2)] read_escape_consumes[OF e(1)] by simp
  qed
  show ?case using 2(2,3) esc by (auto simp: consing_Some less_SucI split: if_split_asm)
qed simp

lemma read_frac_consumes: "read_frac s = (x, r) \<Longrightarrow> length r \<le> length s"
  by (induction s rule: read_frac.induct)
    (auto split: if_splits intro: le_trans[OF length_dropWhile_le])

lemma split_sign_length: "split_sign s = (x, r) \<Longrightarrow> length r \<le> length s"
  by (cases s) (auto split: if_splits)

lemma read_exp_consumes: "read_exp s = (x, r) \<Longrightarrow> length r \<le> length s"
proof -
  assume a: "read_exp s = (x, r)"
  obtain n ds where d: "split_sign (tl s) = (n, ds)" by fastforce
  have "length (dropWhile dec_char ds) \<le> length s"
    using length_dropWhile_le[of dec_char ds] split_sign_length[OF d] by simp
  then show ?thesis using a by (auto simp: read_exp_def d Let_def split: if_split_asm)
qed

lemma read_int_part_consumes: "read_int_part s = Some (x, r) \<Longrightarrow> length r < length s"
  using length_dropWhile_le[of dec_char "tl s"] by (cases s) (auto split: if_splits)

lemma read_number_consumes: "read_number s = Some (v, r) \<Longrightarrow> length r < length s"
proof -
  assume a: "read_number s = Some (v, r)"
  then obtain ds r1 where i: "read_int_part (snd (read_sign s)) = Some (ds, r1)"
    by (auto simp: read_number_def bind_eq_Some_conv)
  obtain fr r2 ex r3 where fe: "read_frac r1 = (fr, r2)" "read_exp r2 = (ex, r3)" by fastforce
  have "r = r3" using a by (auto simp: read_number_def i fe bind_eq_Some_conv)
  moreover have "length (snd (read_sign s)) \<le> length s" by (simp add: read_sign_def)
  ultimately show ?thesis
    using read_int_part_consumes[OF i] read_frac_consumes[OF fe(1)] read_exp_consumes[OF fe(2)] by simp
qed

lemma read_word_consumes: "read_word w v s = Some (u, r) \<Longrightarrow> w \<noteq> [] \<Longrightarrow> length r < length s"
  by (cases s) (auto simp: read_word_def starts_with_def split: if_splits)

text \<open>The step of each reader, given what the readers with less fuel consume.\<close>

lemma if_cases: "(if b then x else y) = z \<Longrightarrow> (b \<Longrightarrow> x = z \<Longrightarrow> P) \<Longrightarrow> (\<not> b \<Longrightarrow> y = z \<Longrightarrow> P) \<Longrightarrow> P"
  by (cases b) auto

definition consuming :: "(string \<Rightarrow> (pyval \<times> string) option) \<Rightarrow> bool" where
  "consuming p = (\<forall>s v r. p s = Some (v, r) \<longrightarrow> length r < length s)"

lemma consumingD: "consuming p \<Longrightarrow> p s = Some (v, r) \<Longrightarrow> length r < length s"
  unfolding consuming_def by blast

lemma read_value_step:
  assumes "consuming (read_items f [])" "consuming (read_fields f [])" shows "consuming (read_value (Suc f))"
  unfolding consuming_def
proof (intro allI impI)
  fix s v r assume a: "read_value (Suc f) s = Some (v, r)"
  then obtain c t where u: "uncons s = Some (c, t)" by (auto simp: bind_eq_Some_conv)
  note less = uncons_consumes[OF u] length_skip_ws[of t]
  have kw: "length r < length s" if "read_word ''null'' PNone s = Some (v, r) \<or> read_word ''true'' (PBool True) s = Some (v, r)
    \<or> read_word ''false'' (PBool False) s = Some (v, r)" using that read_word_consumes by blast
  have sub: "length r < length s" if "Option.bind (uncons (skip_ws t)) (\<lambda>(x, r1). if x = y then Some (w, r1) else p (skip_ws t)) =
     Some (v, r)" "consuming p" for p y w
    using that less uncons_skip[of t] consumingD[OF that(2), of "skip_ws t" v r]
    by (fastforce simp: bind_eq_Some_conv split: if_split_asm)
  have str: "length r < length s" if "Option.bind (read_str t) (\<lambda>(w, r'). Some (PStr w, r')) = Some (v, r)"
    using that less by (auto simp: bind_eq_Some_conv dest: read_str_consumes)
  show "length r < length s"
    using a unfolding read_value.simps u bind.bind_lunit prod.case
    by (elim if_cases) (use kw sub assms str read_number_consumes in blast)+
qed

lemma read_items_step:
  assumes "consuming (read_value f)" "\<And>acc. consuming (read_items f acc)" shows "consuming (read_items (Suc f) acc)"
  unfolding consuming_def
proof (intro allI impI)
  fix s v r assume "read_items (Suc f) acc s = Some (v, r)"
  then obtain w r1 x r2 where p: "read_value f s = Some (w, r1)" "uncons (skip_ws r1) = Some (x, r2)"
    and "r = r2 \<or> read_items f (acc @ [w]) (skip_ws r2) = Some (v, r)"
    by (auto simp: bind_eq_Some_conv split: if_split_asm)
  then have "length r \<le> length r2"
    using consumingD[OF assms(2)] length_skip_ws[of r2] by (metis less_imp_le_nat order.trans order_refl)
  then show "length r < length s" using consumingD[OF assms(1) p(1)] uncons_skip[OF p(2)] by simp
qed

lemma read_fields_step:
  assumes "consuming (read_value f)" "\<And>acc. consuming (read_fields f acc)" shows "consuming (read_fields (Suc f) acc)"
  unfolding consuming_def
proof (intro allI impI)
  fix s v r assume "read_fields (Suc f) acc s = Some (v, r)"
  then obtain q t k r1 x1 r2 w r3 x2 r4 where p: "uncons s = Some (q, t)" "read_str t = Some (k, r1)"
    "uncons (skip_ws r1) = Some (x1, r2)" "read_value f (skip_ws r2) = Some (w, r3)" "uncons (skip_ws r3) = Some (x2, r4)"
    and "r = r4 \<or> read_fields f (put k w acc) (skip_ws r4) = Some (v, r)"
    by (auto simp: bind_eq_Some_conv split: if_split_asm)
  then have "length r \<le> length r4"
    using consumingD[OF assms(2)] length_skip_ws[of r4] by (metis less_imp_le_nat order.trans order_refl)
  then show "length r < length s"
    using uncons_consumes[OF p(1)] read_str_consumes[OF p(2)] uncons_skip[OF p(3)] length_skip_ws[of r2]
      consumingD[OF assms(1) p(4)] uncons_skip[OF p(5)] by linarith
qed

lemma readers_consume: "consuming (read_value f) \<and> (\<forall>acc. consuming (read_items f acc)) \<and> (\<forall>acc. consuming (read_fields f acc))"
proof (induction f)
  case 0
  show ?case by (simp add: consuming_def)
next
  case (Suc f)
  then show ?case using read_value_step read_items_step read_fields_step by blast
qed

lemmas value_consumes = consumingD[where p = "read_value f" for f, OF conjunct1[OF readers_consume]]

text \<open>More fuel changes nothing.\<close>

lemma read_value_fuel:
  assumes "\<And>s. 2 * length s + 1 < f \<Longrightarrow> read_items (Suc f) [] s = read_items f [] s"
    and "\<And>s. 2 * length s < f \<Longrightarrow> read_fields (Suc f) [] s = read_fields f [] s" and "2 * length s < Suc f"
  shows "read_value (Suc (Suc f)) s = read_value (Suc f) s"
proof (cases "uncons s")
  case (Some p)
  obtain c t where p: "p = (c, t)" by fastforce
  have "2 * length (skip_ws t) + 1 < f"
    using assms(3) uncons_consumes[OF Some[unfolded p]] length_skip_ws[of t] by linarith
  then have "read_items (Suc f) [] (skip_ws t) = read_items f [] (skip_ws t)"
    "read_fields (Suc f) [] (skip_ws t) = read_fields f [] (skip_ws t)"
    using assms(1,2) by simp_all
  then show ?thesis unfolding read_value.simps Some p bind.bind_lunit prod.case by (simp only:)
qed simp

lemma read_items_fuel:
  assumes "\<And>s. 2 * length s < f \<Longrightarrow> read_value (Suc f) s = read_value f s"
    and "\<And>acc s. 2 * length s + 1 < f \<Longrightarrow> read_items (Suc f) acc s = read_items f acc s" and "2 * length s + 1 < Suc f"
  shows "read_items (Suc (Suc f)) acc s = read_items (Suc f) acc s"
proof -
  have v: "read_value (Suc f) s = read_value f s" using assms(1,3) by simp
  have rest: "read_items (Suc f) vs (skip_ws r2) = read_items f vs (skip_ws r2)"
    if "read_value f s = Some (w, r1)" "uncons (skip_ws r1) = Some (x, r2)" for w r1 x r2 vs
    using assms(3) value_consumes[OF that(1)] uncons_skip[OF that(2)] length_skip_ws[of r2]
    by (intro assms(2)) linarith
  show ?thesis unfolding read_items.simps(2)[of "Suc f" acc s] read_items.simps(2)[of f acc s] v
    by (auto simp: rest simp del: read_items.simps read_value.simps split: prod.split intro!: bind_option_cong)
qed

lemma read_fields_fuel:
  assumes "\<And>s. 2 * length s < f \<Longrightarrow> read_value (Suc f) s = read_value f s"
    and "\<And>acc s. 2 * length s < f \<Longrightarrow> read_fields (Suc f) acc s = read_fields f acc s" and "2 * length s < Suc f"
  shows "read_fields (Suc (Suc f)) acc s = read_fields (Suc f) acc s"
proof -
  have v: "read_value (Suc f) (skip_ws r2) = read_value f (skip_ws r2)"
    if "uncons s = Some (q, t)" "read_str t = Some (k, r1)" "uncons (skip_ws r1) = Some (x, r2)" for q t k r1 x r2
    using assms(3) uncons_consumes[OF that(1)] read_str_consumes[OF that(2)] uncons_skip[OF that(3)] length_skip_ws[of r2]
    by (intro assms(1)) linarith
  have rest: "read_fields (Suc f) d (skip_ws r4) = read_fields f d (skip_ws r4)"
    if "uncons s = Some (q, t)" "read_str t = Some (k, r1)" "uncons (skip_ws r1) = Some (x, r2)"
      "read_value f (skip_ws r2) = Some (w, r3)" "uncons (skip_ws r3) = Some (y, r4)" for q t k r1 x r2 w r3 y r4 d
    using assms(3) uncons_consumes[OF that(1)] read_str_consumes[OF that(2)] uncons_skip[OF that(3)] length_skip_ws[of r2]
      value_consumes[OF that(4)] uncons_skip[OF that(5)] length_skip_ws[of r4]
    by (intro assms(2)) linarith
  show ?thesis unfolding read_fields.simps(2)[of "Suc f" acc s] read_fields.simps(2)[of f acc s]
    by (auto simp: v rest simp del: read_fields.simps read_value.simps split: prod.split intro!: bind_option_cong)
qed

lemma json_fuel:
  "(\<forall>s. 2 * length s < f \<longrightarrow> read_value (Suc f) s = read_value f s) \<and>
   (\<forall>acc s. 2 * length s + 1 < f \<longrightarrow> read_items (Suc f) acc s = read_items f acc s) \<and>
   (\<forall>acc s. 2 * length s < f \<longrightarrow> read_fields (Suc f) acc s = read_fields f acc s)"
proof (induction f)
  case (Suc f)
  then show ?case by (intro conjI allI impI read_value_fuel read_items_fuel read_fields_fuel) simp_all
qed simp

section \<open>Reading what was written\<close>

lemma hex_val_digit: "n < 16 \<Longrightarrow> hex_val (hex_digit n) = Some n"
proof -
  have "list_all (\<lambda>n. hex_val (hex_digit n) = Some n) [0..<16]" by code_simp
  then show "n < 16 \<Longrightarrow> ?thesis" by (simp add: list_all_iff)
qed

lemma read_escaped_unicode:
  "read_escape (CHR ''u'' # CHR ''0'' # CHR ''0'' # hex_digit (py_ord c div 16) # hex_digit (py_ord c mod 16) # r) = Some (c, r)"
proof -
  have "hex_val (CHR ''0'') = Some 0" by code_simp
  moreover have "py_ord c div 16 < 16" using py_ord_bound[of c] by simp
  moreover have "char_of (16 * (py_ord c div 16) + py_ord c mod 16) = c" by (simp add: py_ord_def)
  ultimately show ?thesis by (simp add: code_point_def hex_val_digit)
qed

lemma special_chars: "quote_char \<noteq> backslash" "py_ord quote_char = 34" "py_ord backslash = 92"
  by (simp_all add: quote_char_def backslash_def py_ord_def)

lemma char_of_py_ord: "py_ord c = n \<Longrightarrow> char_of n = c"
  by (auto simp: py_ord_def)

lemma read_unescape: "unescape e = Some x \<Longrightarrow> e \<noteq> CHR ''u'' \<Longrightarrow> read_escape (e # r) = Some (x, r)"
  by simp

lemma read_str_escaped: "read_str (escaped c @ r) = consing c (read_str r)"
proof -
  have short: "read_str (backslash # e # r) = consing c (read_str r)" if "unescape e = Some c" "e \<noteq> CHR ''u''" for e
    using read_unescape[OF that] special_chars(1) by simp
  have un: "unescape quote_char = Some quote_char" "unescape backslash = Some backslash"
    "unescape (CHR ''n'') = Some (char_of (10::nat))" "unescape (CHR ''r'') = Some (char_of (13::nat))"
    "unescape (CHR ''t'') = Some (char_of (9::nat))" "unescape (CHR ''f'') = Some (char_of (12::nat))"
    "unescape (CHR ''b'') = Some (char_of (8::nat))"
    by code_simp+
  have "quote_char \<noteq> CHR ''u''" "backslash \<noteq> CHR ''u''" by code_simp+
  then show ?thesis
    using short un special_chars read_escaped_unicode[of c r] char_of_py_ord[of c]
    by (auto simp: escaped_def)
qed

lemma read_json_str: "read_str (concat (map escaped s) @ quote_char # r) = Some (s, r)"
  by (induction s) (simp_all add: read_str_escaped consing_def)

lemma ord_zero: "py_ord (CHR ''0'') = 48" by code_simp

lemma show_nat_0: "show_nat 0 = ''0''" by code_simp

lemma show_nat_head: "0 < n \<Longrightarrow> hd (show_nat n) \<noteq> CHR ''0'' \<and> show_nat n \<noteq> []"
proof (induction n rule: show_nat.induct)
  case (1 n)
  show ?case
  proof (cases "n < 10")
    case True
    have "char_of (48 + n) \<noteq> CHR ''0''"
    proof
      assume "char_of (48 + n) = CHR ''0''"
      then have "py_ord (char_of (48 + n)) = 48" by (simp only: ord_zero)
      then show False using py_ord_char_of[of "48 + n"] True 1(2) by simp
    qed
    then show ?thesis using True by (subst (1 2) show_nat.simps) simp
  next
    case False
    then show ?thesis using 1 by (subst (1 2) show_nat.simps) simp
  qed
qed

lemma takeWhile_decimal: "list_all p s \<Longrightarrow> r = [] \<or> \<not> p (hd r) \<Longrightarrow> takeWhile p (s @ r) = s \<and> dropWhile p (s @ r) = r"
  by (cases r) (auto simp: list_all_iff takeWhile_append dropWhile_append)

lemma read_int_part_show:
  assumes "r = [] \<or> \<not> dec_char (hd r)" shows "read_int_part (show_nat n @ r) = Some (show_nat n, r)"
proof (cases "n = 0")
  case True
  then show ?thesis by (simp add: show_nat_0)
next
  case False
  then obtain c t where c: "show_nat n = c # t" "c \<noteq> CHR ''0''"
    using show_nat_head[of n] by (cases "show_nat n") auto
  then have "dec_char c" "list_all dec_char t" using show_nat_decimal[of n] by (auto simp: py_isdecimal_def)
  then show ?thesis using c takeWhile_decimal[of dec_char t r] assms by simp
qed

text \<open>An integer, before a character that cannot continue it.\<close>

definition ends_number :: "string \<Rightarrow> bool" where
  "ends_number r = (\<exists>c t. r = c # t \<and> c \<in> {CHR '','', CHR ''}''})"

lemma read_json_int:
  assumes "json_int i = Inr t" "ends_number r" shows "read_number (t @ r) = Some (PInt i, r)"
proof -
  let ?n = "nat \<bar>i\<bar>"
  from assms(2) obtain c u where r: "r = c # u" "c = CHR '','' \<or> c = CHR ''}''" by (auto simp: ends_number_def)
  have stop: "\<not> dec_char c" "c \<noteq> CHR ''.''" "c \<noteq> CHR ''e''" "c \<noteq> CHR ''E''"
    using r(2) by (elim disjE; simp add: dec_char_def py_ord_def)+
  have ip: "read_int_part (show_nat ?n @ r) = Some (show_nat ?n, r)"
    by (rule read_int_part_show) (simp add: r stop)
  have fr: "read_frac r = (None, r)" by (cases u) (simp_all add: r stop)
  have ex: "read_exp r = (None, r)" by (simp add: read_exp_def r stop split: prod.split)
  have sg: "read_sign (t @ r) = (if i < 0 then - 1 else 1, show_nat ?n @ r)"
  proof (cases "i < 0")
    case False
    have "show_nat ?n \<noteq> []" "hd (show_nat ?n) \<noteq> CHR ''-''"
      using show_nat_decimal[of ?n] by (auto simp: py_isdecimal_def list_all_iff dec_char_def py_ord_def dest!: bspec[OF _ hd_in_set])
    then show ?thesis using assms(1) False by (auto simp: json_int_def show_int_def read_sign_def split: if_splits)
  qed (use assms(1) in \<open>auto simp: json_int_def show_int_def read_sign_def split: if_splits\<close>)
  show ?thesis
    using assms(1)
    by (auto simp: read_number_def sg ip fr ex number_value_def json_int_def digits_value_show_nat split: if_splits)
qed

lemma json_int_head: "json_int i = Inr t \<Longrightarrow> \<exists>c u. t = c # u \<and> (dec_char c \<or> c = CHR ''-'')"
  using show_nat_decimal[of "nat \<bar>i\<bar>"]
  by (cases "show_nat (nat \<bar>i\<bar>)") (auto simp: json_int_def show_int_def py_isdecimal_def split: if_splits)

lemma read_json_scalar:
  assumes "json_scalar v = Inr t" "ends_number r" shows "read_value (Suc f) (t @ r) = Some (v, r) \<and> skip_ws (t @ r) = t @ r"
proof (cases v)
  case (PStr s)
  then show ?thesis using assms(1)
    by (auto simp: json_str_def uncons_def read_json_str skip_ws_def json_space_def special_chars)
next
  case (PInt i)
  then obtain c u where c: "t = c # u" "dec_char c \<or> c = CHR ''-''" using json_int_head[of i t] assms(1) by auto
  have d: "\<not> dec_char x" if "x \<in> {quote_char, CHR ''{'', CHR ''['', CHR ''n'', CHR ''t'', CHR ''f''} \<or> json_space x" for x
    using that by (auto simp: dec_char_def json_space_def quote_char_def py_ord_def)
  have m: "CHR ''-'' \<notin> {quote_char, CHR ''{'', CHR ''['', CHR ''n'', CHR ''t'', CHR ''f''} \<and> \<not> json_space (CHR ''-'')"
    by code_simp
  have "\<not> (c \<in> {quote_char, CHR ''{'', CHR ''['', CHR ''n'', CHR ''t'', CHR ''f''} \<or> json_space c)"
    using c(2)
  proof
    assume "dec_char c" then show ?thesis by (rule contrapos_pn[OF _ d])
  qed (use m in simp)
  then show ?thesis
    using read_json_int[of i t r] PInt assms c(1) by (simp add: uncons_def skip_ws_def)
qed (use assms in simp_all)

lemma put_new: "k \<notin> fst ` set d \<Longrightarrow> put k v d = d @ [(k, v)]"
  unfolding put_def by (induction d) auto

lemma skip_ws_idle: "\<not> json_space c \<Longrightarrow> skip_ws (c # s) = c # s"
  by (simp add: skip_ws_def)

lemma not_space: "\<not> json_space (CHR '':'')" "\<not> json_space (CHR '','')" "\<not> json_space (CHR ''}'')" "\<not> json_space quote_char"
  "\<not> json_space (CHR ''{'')"
  by code_simp+

lemma read_json_fields:
  "json_fields d = Inr t \<Longrightarrow> d \<noteq> [] \<Longrightarrow> distinct (map fst (acc @ d)) \<Longrightarrow> length d < f \<Longrightarrow>
   read_fields f acc (t @ r) = Some (PDict (acc @ d), r) \<and> (\<exists>u. t = quote_char # u)"
proof (induction d arbitrary: acc t f rule: json_fields.induct)
  case (2 k v)
  then obtain w g where w: "json_scalar v = Inr w" "t = json_str k @ '':'' @ w @ ''}''" "f = Suc (Suc g)"
    by (cases f; cases "f - 1") (auto simp: bindE_Inr_iff)
  have v: "read_value (Suc g) (w @ CHR ''}'' # r) = Some (v, CHR ''}'' # r)" "skip_ws (w @ CHR ''}'' # r) = w @ CHR ''}'' # r"
    using read_json_scalar[OF w(1), of "CHR ''}'' # r" g] by (simp_all add: ends_number_def)
  show ?case using 2(3) v
    by (simp add: w json_str_def uncons_def read_json_str skip_ws_idle not_space put_new del: read_value.simps)
next
  case (3 k v p q)
  from 3(2) obtain w rest where w: "json_scalar v = Inr w" "json_fields (p # q) = Inr rest"
    "t = json_str k @ '':'' @ w @ '','' @ rest" by (auto simp: bindE_Inr_iff)
  obtain g where g: "f = Suc (Suc g)" using 3(5) by (cases f; cases "f - 1") auto
  have v: "read_value (Suc g) (w @ CHR '','' # u) = Some (v, CHR '','' # u)" "skip_ws (w @ CHR '','' # u) = w @ CHR '','' # u" for u
    using read_json_scalar[OF w(1), of "CHR '','' # u" g] by (simp_all add: ends_number_def)
  have ih: "read_fields (Suc g) (acc @ [(k, v)]) (rest @ r) = Some (PDict ((acc @ [(k, v)]) @ p # q), r)"
    "\<exists>u. rest = quote_char # u"
    using 3(1)[OF w(1) w(2), of "acc @ [(k, v)]" "Suc g"] 3(4,5) g by auto
  then obtain u where u: "rest = quote_char # u" by blast
  have "k \<notin> fst ` set acc" using 3(4) by auto
  then show ?case using v ih(1)
    by (simp add: w g u json_str_def uncons_def read_json_str skip_ws_idle not_space put_new
        del: read_value.simps read_fields.simps(1) add: read_fields.simps(2)[of "Suc g" acc])
qed simp

lemma json_fields_length: "json_fields d = Inr t \<Longrightarrow> length d < length t"
  by (induction d arbitrary: t rule: json_fields.induct) (force simp: bindE_Inr_iff json_str_def)+

lemma json_round_trip:
  assumes "json_object d = Inr t" "d \<noteq> []" "distinct (map fst d)" shows "json_loads t = Some (PDict d)"
proof -
  obtain u where t: "json_fields d = Inr u" "t = CHR ''{'' # u" using assms(1) by (auto simp: json_object_def bindE_Inr_iff)
  have "length d < 2 * length t" using json_fields_length[OF t(1)] t(2) by simp
  then have r: "read_fields (2 * length t) [] u = Some (PDict d, [])" "\<exists>w. u = quote_char # w"
    using read_json_fields[OF t(1) assms(2), of "[]" "2 * length t" "[]"] assms(3) by auto
  then have "skip_ws u = u" "uncons u \<noteq> None" "u \<noteq> []" "hd u = quote_char"
    by (auto simp: skip_ws_idle not_space uncons_def)
  moreover have "quote_char \<noteq> CHR ''}''" "quote_char \<noteq> CHR ''{''" by code_simp+
  ultimately have "read_value (Suc (2 * length t)) t = Some (PDict d, [])"
    using r(1) by (cases u) (simp_all add: t(2) uncons_def)
  then show ?thesis by (simp add: json_loads_def t(2) skip_ws_idle not_space skip_ws_def)
qed

end
