(* ===== verification/Invites.thy ===== *)
theory Invites imports Encoding Json Access begin

text \<open>
  Team invite codes, \<open>Teams.get_invite_code\<close> and \<open>Teams.load_invite_code\<close> of
  \<^verbatim>\<open>models/__init__.py\<close> with their helpers, and the endpoint \<open>team_invite\<close> of
  \<^verbatim>\<open>views.py\<close> through which contestants join.  The digest HMAC-SHA256 (as hexadecimal text,
  \<open>mac\<close>, and as bytes, \<open>mac_raw\<close>), \<open>bcrypt.checkpw\<close> and passlib's verification are arguments;
  nothing is assumed of them.  A call that raises is the left summand.
\<close>

section \<open>Codes\<close>

definition invite_secret_key :: "string option \<Rightarrow> py_exc + string" where
  "invite_secret_key private_key = (case private_key of
      None \<Rightarrow> Inl (RuntimeError ''Server PRIVATE_KEY is not configured'')
    | Some k \<Rightarrow> if k = [] then Inl (RuntimeError ''Server PRIVATE_KEY is not configured'') else Inr k)"

definition encode_team_invite_payload :: "dict \<Rightarrow> py_exc + string" where
  "encode_team_invite_payload payload =
     bindE (json_object payload) (\<lambda>t. Inr (rstrip_char (CHR ''='') (urlsafe_b64encode t)))"

definition decode_team_invite_payload :: "string \<Rightarrow> string option" where
  "decode_team_invite_payload s = Option.bind (urlsafe_b64decode (s @ padding s)) utf8_decode"

definition team_invite_signature :: "(string \<Rightarrow> string \<Rightarrow> string) \<Rightarrow> string \<Rightarrow> string \<Rightarrow> py_exc + string" where
  "team_invite_signature mac text key =
     (if is_ascii text then Inr (mac key text) else Inl (ValueError ''ordinal not in range(128)''))"

definition team_invite_verification ::
  "(string \<Rightarrow> string \<Rightarrow> string) \<Rightarrow> int \<Rightarrow> string option \<Rightarrow> string \<Rightarrow> py_exc + string" where
  "team_invite_verification mac team_id password key =
     team_invite_signature mac (show_int team_id @ '':'' @ (case password of None \<Rightarrow> [] | Some p \<Rightarrow> p)) key"

text \<open>The keys in sorted order; \<open>int(time.time())\<close> of a nonnegative time.\<close>

definition invite_object :: "rat \<Rightarrow> int \<Rightarrow> string \<Rightarrow> dict" where
  "invite_object now team_id v =
     [(''exp'', PInt (\<lfloor>now\<rfloor> + 86400)), (''id'', PInt team_id), (''v'', PStr v)]"

definition get_invite_code ::
  "(string \<Rightarrow> string \<Rightarrow> string) \<Rightarrow> string option \<Rightarrow> rat \<Rightarrow> team \<Rightarrow> py_exc + string" where
  "get_invite_code mac private_key now t =
     bindE (invite_secret_key private_key) (\<lambda>key.
     bindE (team_invite_verification mac (te_id t) (te_password t) key) (\<lambda>v.
     bindE (encode_team_invite_payload (invite_object now (te_id t) v)) (\<lambda>payload.
     bindE (team_invite_signature mac payload key) (\<lambda>signature.
     Inr (payload @ ''.'' @ signature)))))"

text \<open>\<open>code.split(".", 1)\<close>: what is before and after the first dot.\<close>

definition split_code :: "string \<Rightarrow> (string \<times> string) option" where
  "split_code code = (if CHR ''.'' \<in> set code
     then Some (takeWhile (\<lambda>c. c \<noteq> CHR ''.'') code, tl (dropWhile (\<lambda>c. c \<noteq> CHR ''.'') code)) else None)"

text \<open>The block whose exceptions all become \<open>TeamTokenInvalidException\<close>.\<close>

definition read_invite :: "string \<Rightarrow> (dict \<times> int \<times> int) option" where
  "read_invite payload =
     Option.bind (decode_team_invite_payload payload) (\<lambda>s.
     Option.bind (json_loads s) (\<lambda>v. case v of
       PDict d \<Rightarrow>
         if \<not> has_key d ''id'' then None
         else (case (py_int (dget d ''id''), py_int (dget_default d ''exp'' (PInt 0))) of
             (Inr i, Inr e) \<Rightarrow> Some (d, i, e) | _ \<Rightarrow> None)
     | _ \<Rightarrow> None))"

definition load_invite_code ::
  "(string \<Rightarrow> string \<Rightarrow> string) \<Rightarrow> string option \<Rightarrow> rat \<Rightarrow> db \<Rightarrow> string \<Rightarrow> py_exc + team" where
  "load_invite_code mac private_key now d code = (case split_code code of
      None \<Rightarrow> Inl TeamTokenInvalidException
    | Some (payload, signature) \<Rightarrow>
        bindE (invite_secret_key private_key) (\<lambda>key.
        bindE (team_invite_signature mac payload key) (\<lambda>expected.
        if expected \<noteq> signature then Inl TeamTokenInvalidException
        else case read_invite payload of
          None \<Rightarrow> Inl TeamTokenInvalidException
        | Some (obj, team_id, expiration) \<Rightarrow>
            if expiration < \<lfloor>now\<rfloor> then Inl TeamTokenExpiredException
            else bindE (first_or_404 (team_by_id d team_id)) (\<lambda>t.
              bindE (team_invite_verification mac (te_id t) (te_password t) key) (\<lambda>v.
              if \<not> has_key obj ''v'' then Inl KeyError
              else if py_eq (PStr v) (dget obj ''v'') then Inr t else Inl TeamTokenInvalidException)))))"

section \<open>Passwords of contestants\<close>

definition bcrypt_char :: "char \<Rightarrow> bool" where
  "bcrypt_char c = (let n = py_ord c in c = CHR ''.'' \<or> c = CHR ''/'' \<or> dec_char c \<or>
     (65 \<le> n \<and> n \<le> 90) \<or> (97 \<le> n \<and> n \<le> 122))"

definition after :: "string \<Rightarrow> string \<Rightarrow> string option" where
  "after p s = (if starts_with p s then Some (drop (length p) s) else None)"

text \<open>The salt, an optional dollar, the digest, and nothing but a final newline.\<close>

definition salt_and_digest :: "string \<Rightarrow> (string \<times> string) option" where
  "salt_and_digest s =
     (let salt = take 22 s; r = drop 22 s; r' = (if r \<noteq> [] \<and> hd r = CHR ''$'' then tl r else r) in
      if length salt = 22 \<and> list_all bcrypt_char salt \<and> length (take 31 r') = 31 \<and> list_all bcrypt_char (take 31 r')
         \<and> (drop 31 r' = [] \<or> drop 31 r' = [CHR 0x0A])
      then Some (salt, take 31 r') else None)"

definition parse_contestant_hash :: "string \<Rightarrow> (string \<times> int \<times> string \<times> string) option" where
  "parse_contestant_hash s =
     Option.bind (after ''$bcrypt-sha256$v=2,t='' s) (\<lambda>r0. let t = take 2 r0 in
     if t \<notin> {''2a'', ''2b''} then None else
     Option.bind (after '',r='' (drop 2 r0)) (\<lambda>r1. let rounds = takeWhile dec_char r1 in
     if rounds = [] \<or> 2 < length rounds then None else
     Option.bind (after ''$'' (dropWhile dec_char r1)) (\<lambda>r2.
     Option.bind (salt_and_digest r2) (\<lambda>(salt, digest). Some (t, digits_value rounds, salt, digest)))))"

definition two_digits :: "int \<Rightarrow> string" where
  "two_digits n = (if n < 10 then CHR ''0'' # show_int n else show_int n)"

text \<open>\<open>base64.b64encode\<close>: the standard alphabet.\<close>

definition b64encode :: "string \<Rightarrow> string" where
  "b64encode s = map (\<lambda>c. if c = CHR ''-'' then CHR ''+'' else if c = CHR ''_'' then CHR ''/'' else c) (urlsafe_b64encode s)"

definition verify_contestant_password ::
  "(string \<Rightarrow> string \<Rightarrow> string) \<Rightarrow> (string \<Rightarrow> string \<Rightarrow> py_exc + bool) \<Rightarrow> (string \<Rightarrow> string \<Rightarrow> py_exc + bool) \<Rightarrow>
     string \<Rightarrow> string option \<Rightarrow> bool" where
  "verify_contestant_password mac_raw checkpw verify plaintext hash = (case hash of
      None \<Rightarrow> False
    | Some h \<Rightarrow>
        if h = [] then False
        else if starts_with ''$bcrypt-sha256$v=2'' h then (case parse_contestant_hash h of
            None \<Rightarrow> False
          | Some (t, rounds, salt, digest) \<Rightarrow>
              checkpw (b64encode (mac_raw salt plaintext)) (''$'' @ t @ ''$'' @ two_digits rounds @ ''$'' @ salt @ digest) = Inr True)
        else verify plaintext h = Inr True)"

section \<open>Joining\<close>

datatype invite_page = InviteForm "team option" "string list" | InviteSuccess string

text \<open>The stripped code of the query string, and what it resolves to.\<close>

definition resolve_code ::
  "(string \<Rightarrow> string \<Rightarrow> string) \<Rightarrow> string option \<Rightarrow> rat \<Rightarrow> db \<Rightarrow> string \<Rightarrow> py_exc + team option \<times> string list" where
  "resolve_code mac private_key now d code =
     (if code = [] then Inr (None, [''Invalid or missing invite code.''])
      else case load_invite_code mac private_key now d code of
        Inr t \<Rightarrow> Inr (Some t, [])
      | Inl TeamTokenExpiredException \<Rightarrow> Inr (None, [''This invite link has expired. Please ask the admin for a new one.''])
      | Inl TeamTokenInvalidException \<Rightarrow> Inr (None, [''This invite link is invalid.''])
      | Inl e \<Rightarrow> Inl e)"

definition join_team :: "user \<Rightarrow> team \<Rightarrow> db \<Rightarrow> db" where
  "join_team u t d = d\<lparr>users := update_where (\<lambda>x. us_id x = us_id u) (us_team_id_update (\<lambda>_. Some (te_id t))) (users d)\<rparr>"

definition invite_obstacle :: "(string option \<Rightarrow> bool) \<Rightarrow> user option \<Rightarrow> team \<Rightarrow> string option" where
  "invite_obstacle password_ok u t = (case u of
      None \<Rightarrow> Some ''Invalid username or password.''
    | Some u \<Rightarrow>
        if \<not> password_ok (us_password u) then Some ''Invalid username or password.''
        else if us_verified u = Some False then Some ''Your account must be verified before joining a team.''
        else if us_team_id u \<noteq> None then
          (if us_team_id u = Some (te_id t) then Some ''You are already a member of this team.''
           else Some ''You are already in another team. Please contact an admin.'')
        else if te_banned t = Some True then Some ''This team has been banned.''
        else None)"

definition team_invite ::
  "(string \<Rightarrow> string \<Rightarrow> string) \<Rightarrow> (string \<Rightarrow> string option \<Rightarrow> bool) \<Rightarrow> string option \<Rightarrow> rat \<Rightarrow>
     bool \<Rightarrow> string \<Rightarrow> string \<Rightarrow> string \<Rightarrow> db \<Rightarrow> py_exc + invite_page \<times> db" where
  "team_invite mac check private_key now posting code_arg username password d =
     bindE (resolve_code mac private_key now d (py_strip code_arg)) (\<lambda>(t, errors). case t of
       None \<Rightarrow> Inr (InviteForm None errors, d)
     | Some t \<Rightarrow>
         if \<not> posting then Inr (InviteForm (Some t) errors, d)
         else let name = py_strip username in
           if name = [] \<or> password = [] then Inr (InviteForm (Some t) [''Username and password are required.''], d)
           else let u = first_where (\<lambda>u. us_name u = name) (users d) in
             case invite_obstacle (check password) u t of
               Some e \<Rightarrow> Inr (InviteForm (Some t) [e], d)
             | None \<Rightarrow> Inr (InviteSuccess (te_name t), join_team (the u) t d))"

section \<open>Codes that were issued\<close>

lemma split_code_at: "CHR ''.'' \<notin> set p \<Longrightarrow> split_code (p @ ''.'' @ s) = Some (p, s)"
  by (auto simp: split_code_def takeWhile_append dropWhile_append takeWhile_eq_all_conv dropWhile_eq_Nil_conv)

lemma split_code_parts: "split_code code = Some (p, s) \<Longrightarrow> code = p @ ''.'' @ s"
proof -
  assume a: "split_code code = Some (p, s)"
  then have "CHR ''.'' \<in> set code" by (auto simp: split_code_def split: if_splits)
  then obtain q r where "code = q @ CHR ''.'' # r" "CHR ''.'' \<notin> set q" by (metis split_list_first)
  then show ?thesis using a split_code_at[of q r] by simp
qed

lemma escaped_ascii: "is_ascii (escaped c)"
proof -
  have "list_all (\<lambda>n. py_ord (hex_digit n) < 128) [0..<16]" by code_simp
  then have h: "py_ord (hex_digit n) < 128" if "n < 16" for n using that by (simp add: list_all_iff)
  have n: "py_ord c div 16 < 16" "py_ord c mod 16 < 16" using py_ord_bound[of c] by auto
  have "is_ascii [backslash, CHR ''u'', CHR ''0'', CHR ''0'']" by code_simp
  moreover have "is_ascii ''nrtfb''" by code_simp
  ultimately show ?thesis
    using h[OF n(1)] h[OF n(2)] special_chars by (auto simp: escaped_def is_ascii_def)
qed

lemma is_ascii_simps [simp]: "is_ascii (a @ b) \<longleftrightarrow> is_ascii a \<and> is_ascii b"
  "is_ascii (c # b) \<longleftrightarrow> py_ord c < 128 \<and> is_ascii b"
  by (simp_all add: is_ascii_def)

lemma json_str_ascii: "is_ascii (json_str s)"
proof -
  have "is_ascii (concat (map escaped s))" using escaped_ascii by (induction s) (simp_all add: is_ascii_def)
  then show ?thesis using special_chars by (simp add: json_str_def is_ascii_def)
qed

lemma show_nat_ascii: "is_ascii (show_nat n)"
  using show_nat_decimal[of n] by (auto simp: is_ascii_def py_isdecimal_def dec_char_def list_all_iff)

lemma json_scalar_ascii: "json_scalar v = Inr t \<Longrightarrow> is_ascii t"
proof (cases v)
  case (PInt i)
  have "is_ascii ''-''" by code_simp
  moreover assume "json_scalar v = Inr t"
  ultimately show ?thesis using PInt show_nat_ascii
    by (auto simp: json_int_def show_int_def is_ascii_def split: if_splits)
qed (auto simp: json_str_ascii)

lemma json_object_ascii: "json_object d = Inr t \<Longrightarrow> is_ascii t"
proof -
  have p: "is_ascii '':{},''" by code_simp
  have "json_fields d = Inr t \<Longrightarrow> is_ascii t" for d t
  proof (induction d arbitrary: t rule: json_fields.induct)
    case 1
    then show ?case using p by (auto simp: is_ascii_def)
  next
    case (2 k v)
    then show ?case using p json_str_ascii[of k] json_scalar_ascii[of v] by (auto simp: bindE_Inr_iff is_ascii_def)
  next
    case (3 k v q r)
    then show ?case using p json_str_ascii[of k] json_scalar_ascii[of v] by (auto simp: bindE_Inr_iff is_ascii_def)
  qed
  then show "json_object d = Inr t \<Longrightarrow> ?thesis" using p by (auto simp: json_object_def bindE_Inr_iff is_ascii_def)
qed

lemma payload_round_trip:
  assumes "encode_team_invite_payload d = Inr payload"
  shows "\<exists>t. json_object d = Inr t \<and> decode_team_invite_payload payload = Some t" "CHR ''.'' \<notin> set payload" "is_ascii payload"
    "list_all (\<lambda>c. \<not> py_isspace c) payload"
proof -
  obtain t where t: "json_object d = Inr t" "payload = rstrip_char (CHR ''='') (urlsafe_b64encode t)"
    using assms by (auto simp: encode_team_invite_payload_def bindE_Inr_iff)
  show "\<exists>t. json_object d = Inr t \<and> decode_team_invite_payload payload = Some t"
    using t b64_unpadded(1)[of t] utf8_decode_ascii[OF json_object_ascii[OF t(1)]]
    by (simp add: decode_team_invite_payload_def)
  have "b64_text payload" using b64_unpadded(2)[of t] t(2) by simp
  then show "CHR ''.'' \<notin> set payload" "is_ascii payload" "list_all (\<lambda>c. \<not> py_isspace c) payload" by (auto simp: b64_text_def is_ascii_def list_all_iff)
qed

lemma read_invite_issued:
  assumes "encode_team_invite_payload (invite_object now i v) = Inr payload"
  shows "read_invite payload = Some (invite_object now i v, i, \<lfloor>now\<rfloor> + 86400)"
proof -
  obtain t where t: "json_object (invite_object now i v) = Inr t" "decode_team_invite_payload payload = Some t"
    using payload_round_trip(1)[OF assms] by blast
  have "json_loads t = Some (PDict (invite_object now i v))"
    by (rule json_round_trip[OF t(1)]) (simp_all add: invite_object_def)
  then show ?thesis by (simp add: read_invite_def t(2) dget_default_def dget_def) (simp add: invite_object_def)
qed

lemma get_invite_codeE:
  assumes "get_invite_code mac private_key now t = Inr code"
  obtains key v payload signature where "invite_secret_key private_key = Inr key" "the private_key = key"
    "team_invite_verification mac (te_id t) (te_password t) key = Inr v"
    "encode_team_invite_payload (invite_object now (te_id t) v) = Inr payload"
    "team_invite_signature mac payload key = Inr signature" "code = payload @ ''.'' @ signature"
proof -
  have "the private_key = key" if "invite_secret_key private_key = Inr key" for key
    using that by (auto simp: invite_secret_key_def split: option.splits if_splits)
  then show thesis using assms that by (auto simp: get_invite_code_def bindE_Inr_iff)
qed

lemma load_issued:
  assumes "get_invite_code mac private_key now t = Inr code"
    "team_invite_verification mac (te_id t) (te_password t) (the private_key) = Inr v"
  shows "load_invite_code mac private_key later d code =
    (if \<lfloor>now\<rfloor> + 86400 < \<lfloor>later\<rfloor> then Inl TeamTokenExpiredException
     else bindE (first_or_404 (team_by_id d (te_id t))) (\<lambda>t'.
       bindE (team_invite_verification mac (te_id t') (te_password t') (the private_key)) (\<lambda>w.
       if w = v then Inr t' else Inl TeamTokenInvalidException)))"
  using assms(1)
proof (cases rule: get_invite_codeE)
  case (1 key w payload signature)
  have [simp]: "w = v" using 1(2,3) assms(2) by simp
  have sp: "split_code code = Some (payload, signature)"
    unfolding 1(6) by (rule split_code_at[OF payload_round_trip(2)[OF 1(4)]])
  have v: "has_key (invite_object now (te_id t) w) ''v''" "dget (invite_object now (te_id t) w) ''v'' = PStr v"
    by (simp_all add: invite_object_def dget_def)
  show ?thesis
    unfolding load_invite_code_def sp option.case prod.case 1(1,2,5) bindE.simps read_invite_issued[OF 1(4)] v(2)
    using v(1) by (simp only: simp_thms if_True if_False py_eq_str pyval.inject eq_commute[of v])
qed

lemma verification_total:
  "is_ascii (case p of None \<Rightarrow> [] | Some q \<Rightarrow> q) \<Longrightarrow> \<exists>w. team_invite_verification mac i p key = Inr w"
proof -
  have "is_ascii ''-:''" by code_simp
  then have "is_ascii (show_int i @ '':'')" using show_nat_ascii by (auto simp: show_int_def)
  then show "is_ascii (case p of None \<Rightarrow> [] | Some q \<Rightarrow> q) \<Longrightarrow> ?thesis"
    by (auto simp: team_invite_verification_def team_invite_signature_def split: option.splits)
qed

section \<open>Properties\<close>

text \<open>
  Property C26: what becomes of an issued code, for every digest and every later state of the
  tables.  It loads the team it was issued for until a day has passed; then it has expired.
  When the team's password has changed so that its digest differs, the code is invalid; a deleted
  team answers 404.
\<close>

theorem invite_round_trip:
  assumes "get_invite_code mac private_key now t = Inr code"
    and "\<forall>t'. team_by_id d (te_id t) = Some t' \<longrightarrow> is_ascii (case te_password t' of None \<Rightarrow> [] | Some p \<Rightarrow> p)"
  shows "load_invite_code mac private_key later d code =
    (if \<lfloor>now\<rfloor> + 86400 < \<lfloor>later\<rfloor> then Inl TeamTokenExpiredException
     else case team_by_id d (te_id t) of
       None \<Rightarrow> Inl (HTTPAbort 404)
     | Some t' \<Rightarrow>
         if team_invite_verification mac (te_id t) (te_password t') (the private_key) =
            team_invite_verification mac (te_id t) (te_password t) (the private_key)
         then Inr t' else Inl TeamTokenInvalidException)"
proof -
  let ?verify = "\<lambda>t'. team_invite_verification mac (te_id t') (te_password t') (the private_key)"
  obtain v where v: "?verify t = Inr v" using assms(1) by (auto elim: get_invite_codeE)
  show ?thesis
  proof (cases "team_by_id d (te_id t)")
    case None
    then show ?thesis by (simp add: load_issued[OF assms(1) v] first_or_404_def)
  next
    case (Some t')
    obtain w where w: "?verify t' = Inr w" using verification_total assms(2) Some by blast
    have i: "te_id t' = te_id t" using first_where_SomeD[OF Some[unfolded team_by_id_def]] by simp
    show ?thesis unfolding load_issued[OF assms(1) v] using w v by (simp add: Some first_or_404_def i)
  qed
qed

lemma invite_joins:
  assumes "team_invite mac check private_key now posting code username password d = Inr (page, d')" "d' \<noteq> d"
  shows "posting \<and> (\<exists>t u payload signature. page = InviteSuccess (te_name t) \<and>
    py_strip code = payload @ ''.'' @ signature \<and> mac (the private_key) payload = signature \<and>
    t \<in> set (teams d) \<and> te_banned t \<noteq> Some True \<and>
    u \<in> set (users d) \<and> us_name u = py_strip username \<and> check password (us_password u) \<and>
    us_verified u \<noteq> Some False \<and> us_team_id u = None \<and> d' = join_team u t d)"
proof -
  let ?code = "py_strip code"
  obtain t where t: "resolve_code mac private_key now d ?code = Inr (Some t, [])" and posting
    and ob: "invite_obstacle (check password) (first_where (\<lambda>u. us_name u = py_strip username) (users d)) t = None"
    and d': "d' = join_team (the (first_where (\<lambda>u. us_name u = py_strip username) (users d))) t d"
    and page: "page = InviteSuccess (te_name t)"
    using assms
    by (fastforce simp: team_invite_def bindE_Inr_iff resolve_code_def Let_def
        split: option.splits if_splits sum.splits py_exc.splits)
  obtain u where u: "first_where (\<lambda>u. us_name u = py_strip username) (users d) = Some u"
    "check password (us_password u)" "us_verified u \<noteq> Some False" "us_team_id u = None" "te_banned t \<noteq> Some True"
    using ob by (auto simp: invite_obstacle_def split: option.splits if_splits)
  have load: "load_invite_code mac private_key now d ?code = Inr t"
    using t by (auto simp: resolve_code_def split: if_splits sum.splits py_exc.splits)
  then obtain payload signature key where s: "split_code ?code = Some (payload, signature)"
    "invite_secret_key private_key = Inr key" "team_invite_signature mac payload key = Inr signature" "t \<in> set (teams d)"
    by (auto simp: load_invite_code_def bindE_Inr_iff first_or_404_def team_by_id_def split: option.splits if_splits
        dest!: first_where_SomeD)
  have "key = the private_key" using s(2) by (auto simp: invite_secret_key_def split: option.splits if_splits)
  then have "mac (the private_key) payload = signature"
    using s(3) by (auto simp: team_invite_signature_def split: if_splits)
  then show ?thesis
    using \<open>posting\<close> page split_code_parts[OF s(1)] s(4) u d' first_where_SomeD[OF u(1)] by auto
qed

text \<open>
  Property C27: joining changes the tables only by setting the team of one user, who was without a
  team, not unverified and has shown the right password; the team is not banned, and the code
  ends in the digest, under the server's key, of what stands before its first dot.
\<close>

theorem invite_join_safe:
  assumes "team_invite mac check private_key now posting code username password d = Inr (page, d')" "d' \<noteq> d"
  shows "posting \<and> (\<exists>t u payload signature. page = InviteSuccess (te_name t) \<and>
    py_strip code = payload @ ''.'' @ signature \<and> mac (the private_key) payload = signature \<and>
    t \<in> set (teams d) \<and> te_banned t \<noteq> Some True \<and>
    u \<in> set (users d) \<and> us_name u = py_strip username \<and> check password (us_password u) \<and>
    us_verified u \<noteq> Some False \<and> us_team_id u = None \<and> d' = join_team u t d)"
  using assms by (rule invite_joins)

section \<open>Witnesses\<close>

text \<open>A toy digest, one team, one contestant.\<close>

definition toy_mac :: "string \<Rightarrow> string \<Rightarrow> string" where
  "toy_mac k s = k @ take 2 s"

definition invite_db :: db where
  "invite_db = empty_db\<lparr>users := [sample_user 7 None], teams := [sample_team 3 None]\<rparr>"

definition invite_code_3 :: string where
  "invite_code_3 = projr (get_invite_code toy_mac (Some ''key'') 100 (sample_team 3 None))"

lemma invite_verification_3: "team_invite_verification toy_mac 3 None ''key'' = Inr ''key3:''"
  by code_simp

lemma digit_chars: "char_of (48::nat) = CHR ''0''" "char_of (51::nat) = CHR ''3''" "char_of (53::nat) = CHR ''5''"
  "char_of (54::nat) = CHR ''6''" "char_of (56::nat) = CHR ''8''"
  by code_simp+

lemma invite_code_3: "get_invite_code toy_mac (Some ''key'') 100 (sample_team 3 None) = Inr invite_code_3"
proof -
  have n: "show_nat 86500 = ''86500''" "show_nat 3 = ''3''" by (simp_all add: show_nat.simps digit_chars)
  obtain payload where p: "encode_team_invite_payload (invite_object 100 3 ''key3:'') = Inr payload"
    by (simp add: encode_team_invite_payload_def invite_object_def json_object_def json_int_def max_int_digits_def
        show_int_def n)
  then have "get_invite_code toy_mac (Some ''key'') 100 (sample_team 3 None) =
      Inr (payload @ ''.'' @ toy_mac ''key'' payload)"
    using payload_round_trip(3)[OF p] invite_verification_3
    by (simp add: get_invite_code_def invite_secret_key_def sample_team_def team_invite_signature_def)
  then show ?thesis by (simp add: invite_code_3_def)
qed

lemma invite_db_team: "team_by_id invite_db 3 = Some (sample_team 3 None)"
  by (simp add: team_by_id_def invite_db_def sample_team_def)

theorem invite_round_trip_witness:
  "load_invite_code toy_mac (Some ''key'') 200 invite_db invite_code_3 = Inr (sample_team 3 None)"
  using invite_round_trip[OF invite_code_3, of invite_db 200] invite_db_team
  by (simp add: sample_team_def is_ascii_def)

lemma invite_code_3_plain: "py_strip invite_code_3 = invite_code_3" "invite_code_3 \<noteq> []"
proof -
  obtain v payload signature where p: "encode_team_invite_payload (invite_object 100 3 v) = Inr payload"
    "team_invite_signature toy_mac payload ''key'' = Inr signature" "invite_code_3 = payload @ ''.'' @ signature"
    using invite_code_3 by (elim get_invite_codeE) (auto simp: sample_team_def)
  have "signature = ''key'' @ take 2 payload"
    using p(2) by (auto simp: team_invite_signature_def toy_mac_def split: if_splits)
  moreover have "list_all (\<lambda>c. \<not> py_isspace c) ''.key''" by code_simp
  moreover have "list_all (\<lambda>c. \<not> py_isspace c) (take 2 payload)"
    using payload_round_trip(4)[OF p(1)] by (auto simp: list_all_iff dest: in_set_takeD)
  ultimately have "list_all (\<lambda>c. \<not> py_isspace c) invite_code_3"
    unfolding p(3) using payload_round_trip(4)[OF p(1)] by simp
  then show "py_strip invite_code_3 = invite_code_3" by (rule strip_idle)
  show "invite_code_3 \<noteq> []" by (simp add: p(3))
qed

theorem invite_join_safe_witness:
  "\<exists>d'. us_team_id (sample_user 7 None) = None \<and>
   team_invite toy_mac (\<lambda>p h. p = ''pw'') (Some ''key'') 200 True invite_code_3 ''player'' ''pw'' invite_db =
     Inr (InviteSuccess ''team'', d') \<and> (\<exists>u\<in>set (users invite_db). d' = join_team u (sample_team 3 None) invite_db)"
proof -
  let ?d = "join_team (sample_user 7 None) (sample_team 3 None) invite_db"
  have "load_invite_code toy_mac (Some ''key'') 200 invite_db invite_code_3 = Inr (sample_team 3 None)"
    using load_issued[OF invite_code_3, of "''key3:''"] invite_verification_3 invite_db_team
    by (simp add: sample_team_def first_or_404_def)
  then have "resolve_code toy_mac (Some ''key'') 200 invite_db invite_code_3 = Inr (Some (sample_team 3 None), [])"
    by (simp add: resolve_code_def invite_code_3_plain)
  moreover have "py_strip ''player'' = ''player''" by code_simp
  moreover have "first_where (\<lambda>u. us_name u = ''player'') (users invite_db) = Some (sample_user 7 None)"
    by (simp add: invite_db_def sample_user_def)
  ultimately have r: "team_invite toy_mac (\<lambda>p h. p = ''pw'') (Some ''key'') 200 True invite_code_3 ''player'' ''pw'' invite_db =
     Inr (InviteSuccess ''team'', ?d)"
    by (simp add: team_invite_def invite_code_3_plain invite_obstacle_def)
      (simp add: sample_user_def sample_team_def)
  moreover have "users ?d \<noteq> users invite_db"
    by (simp add: join_team_def invite_db_def update_where_def sample_user_def)
  then have "?d \<noteq> invite_db" by metis
  ultimately show ?thesis using invite_join_safe[OF r] by (auto simp: invite_db_def)
qed

end
