(* ===== verification/TeamsApi.thy ===== *)
theory TeamsApi imports UsersApi Invites begin

text \<open>
  \<^verbatim>\<open>api/v1/teams.py\<close>.  As for users the serializer is an argument; creating the account on the
  external range platform is the argument \<open>kypo\<close>, whose failure only becomes a warning, and its
  table is left out, as are the filtered listing and the audit rows.  Deleting a team removes
  what the foreign keys of the other tables cascade.
\<close>

type_synonym team_loader =
  "string list \<Rightarrow> dict \<Rightarrow> team option \<Rightarrow> int \<Rightarrow> field_entry list \<Rightarrow> py_exc + team \<times> field_entry list"

type_synonym team_checker = "ctx \<Rightarrow> view_arg \<Rightarrow> team option \<Rightarrow> dict \<Rightarrow> py_exc + dict"

section \<open>Creating and editing\<close>

definition team_fields :: "string \<Rightarrow> string list" where
  "team_fields name = (case team_view name of None \<Rightarrow> [] | Some fs \<Rightarrow> team_loads fs)"

definition unique_teams :: "db \<Rightarrow> bool" where
  "unique_teams d = (distinct (List.map_filter te_email (teams d)) \<and> distinct (List.map_filter te_oauth_id (teams d)))"

definition commit_teams :: "db \<Rightarrow> 'r \<Rightarrow> db \<Rightarrow> py_exc + 'r outcome \<times> db" where
  "commit_teams old r new = (if unique_teams new then Inr (Done r, new) else Inl IntegrityError)"

definition set_team :: "int option \<Rightarrow> (user \<Rightarrow> bool) \<Rightarrow> db \<Rightarrow> db" where
  "set_team t p d = d\<lparr>users := update_where p (us_team_id_update (\<lambda>_. t)) (users d)\<rparr>"

text \<open>The captain of a new team must not belong to another; the warning is the second result.\<close>

definition kypo_warning :: "(int \<Rightarrow> string \<Rightarrow> py_exc + unit) \<Rightarrow> team \<Rightarrow> string option" where
  "kypo_warning kypo t = (case kypo (te_id t) (te_name t) of
      Inr _ \<Rightarrow> None
    | Inl (ValueError m) \<Rightarrow> Some m
    | Inl _ \<Rightarrow> Some ''KYPO account'')"

definition team_post ::
  "team_loader \<Rightarrow> team_checker \<Rightarrow> (int \<Rightarrow> string \<Rightarrow> py_exc + unit) \<Rightarrow> ctx \<Rightarrow> dict \<Rightarrow>
     py_exc + (team \<times> string option) outcome \<times> db" where
  "team_post load check kypo c req =
     (let d = cx_db c; i = fresh_id te_id (teams d) in
      refusing d (check c (ListedView (the (team_view ''admin''))) None req) (\<lambda>data.
      refusing d (load (team_fields ''admin'') data None i (field_entries d)) (\<lambda>(t, es).
      let n = t\<lparr>te_id := i\<rparr>; new = d\<lparr>teams := teams d @ [n], field_entries := es\<rparr> in
      case te_captain_id n of
        None \<Rightarrow> commit_teams d (n, kypo_warning kypo n) new
      | Some k \<Rightarrow>
          if (case user_by_id d k of None \<Rightarrow> True | Some u \<Rightarrow> us_team_id u \<noteq> None) then Inr (Refused ''captain_id'', d)
          else commit_teams d (n, kypo_warning kypo n) (set_team (Some i) (\<lambda>u. us_id u = k) new))))"

definition replace_team :: "team \<Rightarrow> db \<Rightarrow> db" where
  "replace_team t d = d\<lparr>teams := update_where (\<lambda>x. te_id x = te_id t) (\<lambda>_. t) (teams d)\<rparr>"

definition team_patch :: "team_loader \<Rightarrow> team_checker \<Rightarrow> ctx \<Rightarrow> int \<Rightarrow> dict \<Rightarrow> py_exc + team outcome \<times> db" where
  "team_patch load check c i req =
     (let d = cx_db c in
      bindE (first_or_404 (team_by_id d i)) (\<lambda>t.
      let clear = has_key req ''bracket_id'' \<and> dget req ''bracket_id'' = PNone;
          data = put ''id'' (PInt i) (if clear then del ''bracket_id'' req else req) in
      refusing d (check c (NamedView ''admin'') (Some t) data) (\<lambda>data'.
      refusing d (load (team_fields ''admin'') data' (Some t) i (field_entries d)) (\<lambda>(t', es).
      let n = (if clear then t'\<lparr>te_id := i, te_bracket_id := None\<rparr> else t'\<lparr>te_id := i\<rparr>) in
      commit_teams d n (replace_team n d\<lparr>field_entries := es\<rparr>)))))"

definition my_team :: "ctx \<Rightarrow> (team \<Rightarrow> py_exc + 'r) \<Rightarrow> py_exc + 'r" where
  "my_team c f = bindE (get_current_team c) (\<lambda>t. case t of None \<Rightarrow> Inl AttributeError | Some t \<Rightarrow> f t)"

definition captain_of :: "ctx \<Rightarrow> team \<Rightarrow> bool" where
  "captain_of c t = (te_captain_id t = se_id (cx_session c))"

definition team_patch_me :: "team_loader \<Rightarrow> team_checker \<Rightarrow> ctx \<Rightarrow> dict \<Rightarrow> py_exc + team outcome \<times> db" where
  "team_patch_me load check c req =
     (let d = cx_db c in
      my_team c (\<lambda>t.
      if \<not> captain_of c t then Inr (Refused ''Only team captains can edit team information'', d)
      else refusing d (check c (NamedView ''self'') (Some t) req) (\<lambda>data.
        refusing d (load (team_fields ''self'') data (Some t) (te_id t) (field_entries d)) (\<lambda>(t', es).
        let n = t'\<lparr>te_id := te_id t\<rparr> in
        commit_teams d n (replace_team n d\<lparr>field_entries := es\<rparr>)))))"

section \<open>Deleting and disbanding\<close>

definition cascade_team :: "int \<Rightarrow> db \<Rightarrow> db" where
  "cascade_team t d =
     (let badges = ab_id ` {b \<in> set (award_badges d). ab_team_id b = Some t} in
      d\<lparr>teams := delete_where (\<lambda>x. te_id x = t) (teams d),
        awards := delete_where (\<lambda>a. aw_team_id a = Some t) (awards d),
        achievements := delete_where (\<lambda>a. ac_team_id a = Some t \<or>
          (case ac_achievement_id a of None \<Rightarrow> False | Some b \<Rightarrow> b \<in> badges)) (achievements d),
        award_badges := delete_where (\<lambda>b. ab_team_id b = Some t) (award_badges d),
        submissions := delete_where (\<lambda>s. sub_team_id s = Some t) (submissions d),
        solve_rows := delete_where (\<lambda>r. sv_team_id r = Some t \<or> sv_id r \<in> doomed (\<lambda>s. sub_team_id s = Some t) d) (solve_rows d),
        unlocks := delete_where (\<lambda>u. un_team_id u = Some t) (unlocks d),
        field_entries := delete_where (\<lambda>e. fe_type e = Some ''team'' \<and> fe_owner_id e = Some t) (field_entries d)\<rparr>)"

definition release_and_delete :: "int \<Rightarrow> db \<Rightarrow> db" where
  "release_and_delete t d = cascade_team t (set_team None (\<lambda>u. us_team_id u = Some t) d)"

definition team_delete :: "ctx \<Rightarrow> int \<Rightarrow> py_exc + db" where
  "team_delete c i = bindE (first_or_404 (team_by_id (cx_db c) i)) (\<lambda>t. Inr (release_and_delete i (cx_db c)))"

text \<open>What counts as having taken part; the first three respect the freeze.\<close>

definition performed_actions :: "db \<Rightarrow> config \<Rightarrow> team \<Rightarrow> py_exc + bool" where
  "performed_actions d conf t =
     bindE (team_get_solves d conf t False) (\<lambda>ss.
     bindE (team_get_fails d conf t False) (\<lambda>fs.
     bindE (team_get_awards d conf t False) (\<lambda>as.
     Inr (ss \<noteq> [] \<or> fs \<noteq> [] \<or> as \<noteq> [] \<or> filter (\<lambda>s. sub_team_id s = Some (te_id t)) (submissions d) \<noteq> [] \<or>
       filter (\<lambda>u. un_team_id u = Some (te_id t)) (unlocks d) \<noteq> []))))"

definition team_disband :: "ctx \<Rightarrow> py_exc + unit outcome \<times> db" where
  "team_disband c =
     (let d = cx_db c in
      if py_eq (conf_default (cx_conf c) ''team_disbanding'' (PStr ''inactive_only'')) (PStr ''disabled'')
      then Inr (Refused ''Team disbanding is currently disabled'', d)
      else my_team c (\<lambda>t.
        if \<not> captain_of c t then Inr (Refused ''Only team captains can disband their team'', d)
        else bindE (performed_actions d (cx_conf c) t) (\<lambda>acted.
          if acted then Inr (Refused ''You cannot disband your team as it has participated in the event.'', d)
          else Inr (Done (), release_and_delete (te_id t) d))))"

section \<open>Members\<close>

datatype members_reply = Code string | Members "user list"

definition team_me_code ::
  "(string \<Rightarrow> string \<Rightarrow> string) \<Rightarrow> string option \<Rightarrow> ctx \<Rightarrow> py_exc + members_reply outcome" where
  "team_me_code mac private_key c = my_team c (\<lambda>t.
     if \<not> captain_of c t then Inr (Refused ''Only team captains can generate invite codes'')
     else bindE (get_invite_code mac private_key (cx_now c) t) (\<lambda>code. Inr (Done (Code code))))"

text \<open>
  The \<open>user_id\<close> of the body, \<open>None\<close> when there is none: then the answer is a code.  \<open>as_id\<close> is the number
  the database compares the column with when the value is no integer.
\<close>

definition team_members_post ::
  "(pyval \<Rightarrow> int option) \<Rightarrow> (string \<Rightarrow> string \<Rightarrow> string) \<Rightarrow> string option \<Rightarrow> ctx \<Rightarrow> int \<Rightarrow> pyval \<Rightarrow> py_exc + members_reply outcome \<times> db" where
  "team_members_post as_id mac private_key c i user_id =
     (let d = cx_db c in
      bindE (first_or_404 (team_by_id d i)) (\<lambda>t.
      if user_id = PNone
      then bindE (get_invite_code mac private_key (cx_now c) t) (\<lambda>code. Inr (Done (Code code), d))
      else bindE (first_or_404 (Option.bind (case user_id of PInt u \<Rightarrow> Some u | v \<Rightarrow> as_id v) (user_by_id d))) (\<lambda>u.
        if us_verified u = Some False then Inr (Refused ''User must be verified before adding to a team'', d)
        else if us_team_id u \<noteq> None then Inr (Refused ''User has already joined a team'', d)
        else let d' = join_team u t d in Inr (Done (Members (team_members d' t)), d'))))"

definition forget_member :: "int \<Rightarrow> db \<Rightarrow> db" where
  "forget_member u d =
     (set_team None (\<lambda>x. us_id x = u) d)\<lparr>
       submissions := delete_where (\<lambda>s. sub_user_id s = Some u) (submissions d),
       solve_rows := delete_where (\<lambda>r. sv_id r \<in> doomed (\<lambda>s. sub_user_id s = Some u) d) (solve_rows d),
       awards := delete_where (\<lambda>a. aw_user_id a = Some u) (awards d),
       unlocks := delete_where (\<lambda>x. un_user_id x = Some u) (unlocks d)\<rparr>"

definition team_members_delete :: "ctx \<Rightarrow> int \<Rightarrow> pyval \<Rightarrow> py_exc + members_reply outcome \<times> db" where
  "team_members_delete c i user_id =
     (let d = cx_db c in
      bindE (first_or_404 (team_by_id d i)) (\<lambda>t.
      case user_id of
        PInt k \<Rightarrow>
          if k \<le> 0 then Inr (Refused ''A positive user_id is required'', d)
          else bindE (first_or_404 (user_by_id d k)) (\<lambda>u.
            if us_team_id u = Some (te_id t)
            then let d' = forget_member k d in Inr (Done (Members (team_members d' t)), d')
            else Inr (Refused ''User is not part of this team'', d))
      | _ \<Rightarrow> Inr (Refused ''A positive user_id is required'', d)))"

section \<open>Reading\<close>

record team_profile =
  tp_team :: team
  tp_fields :: "string list option"
  tp_members :: "user list"
  tp_entries :: "field_entry list"
  tp_place :: pyval
  tp_score :: pyval

definition team_shows :: "string list \<Rightarrow> string list" where
  "team_shows fs = filter (\<lambda>f. f \<noteq> ''password'') fs"

definition dump_team :: "ctx \<Rightarrow> view_arg \<Rightarrow> team \<Rightarrow> py_exc + string list option \<times> field_entry list" where
  "dump_team c view t =
     (let es = process_fields ''team'' (cx_db c) view (owner_entries ''team'' (cx_db c) (te_id t)) in
      case view of
        NamedView v \<Rightarrow> (case team_view v of None \<Rightarrow> Inl KeyError | Some fs \<Rightarrow> Inr (Some (team_shows fs), es))
      | ListedView fs \<Rightarrow> Inr (Some (team_shows fs), es)
      | NoView \<Rightarrow> Inr (None, es))"

text \<open>The view is looked up by the visitor's role and passed as a list; unknown roles get none.\<close>

definition public_team_view :: "ctx \<Rightarrow> view_arg" where
  "public_team_view c = (case get_current_user_type c (Some ''user'') of
      None \<Rightarrow> NoView
    | Some ty \<Rightarrow> (case team_view ty of None \<Rightarrow> NoView | Some fs \<Rightarrow> ListedView fs))"

definition team_public_get :: "string option \<Rightarrow> ctx \<Rightarrow> int \<Rightarrow> py_exc + team_profile reply" where
  "team_public_get freeze_row c i = require_team_mode c (check_account_visibility c (
     bindE (first_or_404 (team_by_id (cx_db c) i)) (\<lambda>t.
     if concealed c (te_banned t) (te_hidden t) then Inl (HTTPAbort 404)
     else bindE (dump_team c (public_team_view c) t) (\<lambda>(fs, es).
       bindE (if_visible c (team_get_place (cx_conf c) (cx_db c) t False False)) (\<lambda>place.
       bindE (if_visible c (bindE (team_get_score (cx_db c) freeze_row t False) (\<lambda>n. Inr (PInt n)))) (\<lambda>score.
       Inr (Body \<lparr>tp_team = t, tp_fields = fs, tp_members = team_members (cx_db c) t, tp_entries = es,
         tp_place = place, tp_score = score\<rparr>)))))))"

definition team_private_get :: "ctx \<Rightarrow> py_exc + team_profile reply" where
  "team_private_get c = require_team_mode c (authed_only c (require_team c (my_team c (\<lambda>t.
     bindE (dump_team c (NamedView ''self'') t) (\<lambda>(fs, es).
     bindE (if_visible c (team_get_place (cx_conf c) (cx_db c) t False False)) (\<lambda>place.
     bindE (team_get_score (cx_db c) None t True) (\<lambda>score.
     Inr (Body \<lparr>tp_team = t, tp_fields = fs, tp_members = team_members (cx_db c) t, tp_entries = es,
       tp_place = place, tp_score = PInt score\<rparr>))))))))"

definition my_team_rows :: "ctx \<Rightarrow> (team \<Rightarrow> py_exc + 'r reply) \<Rightarrow> py_exc + 'r reply" where
  "my_team_rows c f = require_team_mode c (authed_only c (require_team c (my_team c f)))"

definition team_rows :: "ctx \<Rightarrow> int \<Rightarrow> (team \<Rightarrow> py_exc + 'r reply) \<Rightarrow> py_exc + 'r reply" where
  "team_rows c i f = require_team_mode c (check_account_visibility c (check_score_visibility c (
     bindE (first_or_404 (team_by_id (cx_db c) i)) (\<lambda>t.
     if concealed c (te_banned t) (te_hidden t) then Inl (HTTPAbort 404) else f t))))"

definition team_private_solves :: "ctx \<Rightarrow> py_exc + (string \<times> submission list \<times> nat) reply" where
  "team_private_solves c = my_team_rows c (\<lambda>t. listing c (team_get_solves (cx_db c) (cx_conf c) t True))"

definition team_private_fails :: "ctx \<Rightarrow> py_exc + (string \<times> submission list \<times> nat) reply" where
  "team_private_fails c = my_team_rows c (\<lambda>t. fails_listing c (team_get_fails (cx_db c) (cx_conf c) t True))"

definition team_private_awards :: "ctx \<Rightarrow> py_exc + (string \<times> award list \<times> nat) reply" where
  "team_private_awards c = my_team_rows c (\<lambda>t. listing c (team_get_awards (cx_db c) (cx_conf c) t True))"

definition team_public_solves :: "ctx \<Rightarrow> int \<Rightarrow> py_exc + (string \<times> submission list \<times> nat) reply" where
  "team_public_solves c i = team_rows c i (\<lambda>t. listing c (team_get_solves (cx_db c) (cx_conf c) t (past_freeze c)))"

definition team_public_fails :: "ctx \<Rightarrow> int \<Rightarrow> py_exc + (string \<times> submission list \<times> nat) reply" where
  "team_public_fails c i = team_rows c i (\<lambda>t. fails_listing c (team_get_fails (cx_db c) (cx_conf c) t (past_freeze c)))"

definition team_public_awards :: "ctx \<Rightarrow> int \<Rightarrow> py_exc + (string \<times> award list \<times> nat) reply" where
  "team_public_awards c i = team_rows c i (\<lambda>t. listing c (team_get_awards (cx_db c) (cx_conf c) t (past_freeze c)))"

text \<open>\<open>TeamContestant.get\<close>, for the portal: only a bearer token identifies the caller.\<close>

record contestant_team =
  ct_name :: string
  ct_place :: pyval
  ct_members :: "(string \<times> string option \<times> int) list"
  ct_score :: int
  ct_total :: int

definition bearer_team :: "ctx \<Rightarrow> team option" where
  "bearer_team c = (case bearer_value (cx_request c) of
      None \<Rightarrow> None
    | Some v \<Rightarrow> (case token_by_value (cx_db c) v of
        None \<Rightarrow> None
      | Some t \<Rightarrow> (case tk_user_id t of
          None \<Rightarrow> None
        | Some i \<Rightarrow> (case user_by_id (cx_db c) i of None \<Rightarrow> None | Some u \<Rightarrow> user_team (cx_db c) u))))"

definition visible_total :: "db \<Rightarrow> int" where
  "visible_total d = sum_list (map (\<lambda>ch. case ch_value ch of None \<Rightarrow> 0 | Some v \<Rightarrow> v)
     (filter (\<lambda>ch. ch_state ch = ''visible'') (challenges d)))"

definition team_contestant :: "ctx \<Rightarrow> py_exc + contestant_team reply" where
  "team_contestant c = check_account_visibility c (case bearer_team c of
      None \<Rightarrow> Inr (Status 401)
    | Some t \<Rightarrow>
        bindE (mapE (\<lambda>m. bindE (user_get_score (cx_db c) None m True) (\<lambda>s. Inr (us_name m, us_email m, s)))
          (team_members (cx_db c) t)) (\<lambda>ms.
        bindE (team_get_place (cx_conf c) (cx_db c) t True False) (\<lambda>place.
        bindE (team_get_score (cx_db c) None t True) (\<lambda>score.
        Inr (Body \<lparr>ct_name = te_name t, ct_place = place, ct_members = ms, ct_score = score,
          ct_total = visible_total (cx_db c)\<rparr>)))))"

section \<open>Teams and their members\<close>

text \<open>The writers of the two tables, the invitation of \<open>Invites\<close> among them.\<close>

inductive team_step :: "db \<Rightarrow> db \<Rightarrow> bool" where
  post: "team_post load check kypo c req = Inr (r, d') \<Longrightarrow> team_step (cx_db c) d'"
| patch: "team_patch load check c i req = Inr (s, d') \<Longrightarrow> team_step (cx_db c) d'"
| patch_me: "team_patch_me load check c req = Inr (s, d') \<Longrightarrow> team_step (cx_db c) d'"
| delete: "team_delete c i = Inr d' \<Longrightarrow> team_step (cx_db c) d'"
| disband: "team_disband c = Inr (u, d') \<Longrightarrow> team_step (cx_db c) d'"
| add_member: "team_members_post as_id mac private_key c i user_id = Inr (m, d') \<Longrightarrow> team_step (cx_db c) d'"
| remove_member: "team_members_delete c i user_id = Inr (m, d') \<Longrightarrow> team_step (cx_db c) d'"
| invite: "team_invite mac verify private_key now posting code name password d = Inr (page, d') \<Longrightarrow> team_step d d'"

definition rosters_ok :: "db \<Rightarrow> bool" where
  "rosters_ok d = (unique_teams d \<and> distinct (map te_id (teams d)) \<and>
     list_all (\<lambda>u. case us_team_id u of None \<Rightarrow> True | Some t \<Rightarrow> t \<in> te_id ` set (teams d)) (users d))"

lemma refusing_InrE:
  assumes "refusing d r f = Inr (x, d')"
  obtains "d' = d" | a where "r = Inr a" "f a = Inr (x, d')"
  using refusing_Inr[OF assms] by blast

text \<open>
  A step replaces the teams by teams with the same ids, a fresh one or fewer, and sends users
  to teams that remain.
\<close>

lemma rosters_okI:
  assumes "rosters_ok d" "unique_teams d'" "distinct (map te_id (teams d'))"
    and "\<And>u. u \<in> set (users d') \<Longrightarrow> us_team_id u = None \<or> the (us_team_id u) \<in> te_id ` set (teams d') \<or>
      (\<exists>w\<in>set (users d). us_team_id w = us_team_id u \<and> (the (us_team_id w) \<in> te_id ` set (teams d) \<longrightarrow> the (us_team_id w) \<in> te_id ` set (teams d')))"
  shows "rosters_ok d'"
  using assms unfolding rosters_ok_def list_all_iff by (fastforce split: option.splits)

lemma unique_teams_cong: "teams d' = teams d \<Longrightarrow> unique_teams d' = unique_teams d"
  by (simp add: unique_teams_def)

lemma unique_teams_delete: "unique_teams d \<Longrightarrow> teams d' = delete_where p (teams d) \<Longrightarrow> unique_teams d'"
  by (auto simp: unique_teams_def delete_where_def distinct_map_filter_filter)

lemma rosters_release: "rosters_ok d \<Longrightarrow> rosters_ok (release_and_delete t d)"
  by (rule rosters_okI)
    (auto simp: release_and_delete_def cascade_team_def set_team_def Let_def table_simps rosters_ok_def distinct_delete_where
      elim!: unique_teams_delete)

lemma rosters_joined:
  assumes "rosters_ok d" "t \<in> set (teams d)" shows "rosters_ok (join_team u t d)"
  by (rule rosters_okI[OF assms(1)])
    (use assms in \<open>auto simp: join_team_def rosters_ok_def table_simps cong: unique_teams_cong\<close>)

lemma rosters_forget: "rosters_ok d \<Longrightarrow> rosters_ok (forget_member u d)"
  by (rule rosters_okI)
    (auto simp: forget_member_def set_team_def Let_def table_simps rosters_ok_def cong: unique_teams_cong)

lemma rosters_replace:
  assumes "rosters_ok d" "unique_teams (replace_team n d\<lparr>field_entries := es\<rparr>)"
  shows "rosters_ok (replace_team n d\<lparr>field_entries := es\<rparr>)"
proof -
  have ids: "map te_id (teams (replace_team n d)) = map te_id (teams d)"
    unfolding replace_team_def by (simp, rule map_update_where) simp
  then have "te_id ` set (teams (replace_team n d)) = te_id ` set (teams d)" by (metis set_map)
  then show ?thesis
    by (intro rosters_okI[OF assms]) (use assms(1) ids in \<open>auto simp: rosters_ok_def replace_team_def\<close>)
qed

lemma rosters_new:
  assumes "rosters_ok d" "te_id n = fresh_id te_id (teams d)"
    and "d' = d\<lparr>teams := teams d @ [n], field_entries := es\<rparr> \<or>
      d' = set_team (Some (te_id n)) p (d\<lparr>teams := teams d @ [n], field_entries := es\<rparr>)" "unique_teams d'"
  shows "rosters_ok d'"
  by (rule rosters_okI[OF assms(1) assms(4)])
    (use assms(1-3) fresh_id_notin[of te_id "teams d"] in \<open>auto simp: rosters_ok_def set_team_def table_simps\<close>)

lemma commit_teams_Inr:
  "commit_teams d r new = Inr (x, d') \<longleftrightarrow> unique_teams new \<and> x = Done r \<and> d' = new"
  by (auto simp: commit_teams_def)

lemma team_post_ok:
  assumes "team_post load check kypo c req = Inr (r, d')" "rosters_ok (cx_db c)" shows "rosters_ok d'"
proof -
  have new: "rosters_ok d'" if "commit_teams (cx_db c) q (cx_db c\<lparr>teams := teams (cx_db c) @ [n], field_entries := es\<rparr>) = Inr (r, d')"
    "te_id n = fresh_id te_id (teams (cx_db c))" for q n es
    using rosters_new[OF assms(2) that(2), of d' es] that(1) by (simp add: commit_teams_Inr)
  have led: "rosters_ok d'" if "commit_teams (cx_db c) q (set_team (Some k) p
      (cx_db c\<lparr>teams := teams (cx_db c) @ [n], field_entries := es\<rparr>)) = Inr (r, d')"
    "te_id n = fresh_id te_id (teams (cx_db c))" "k = te_id n" for q n es p k
    using rosters_new[OF assms(2) that(2), of d' es p] that(1,3) by (simp add: commit_teams_Inr)
  show ?thesis
    using assms(1) unfolding team_post_def Let_def
    by (elim refusing_InrE; (simp add: assms(2))?; simp split: prod.split_asm option.split_asm if_split_asm)
      (use assms(2) in \<open>simp_all, auto elim: new led\<close>)
qed

lemma team_patch_ok:
  "team_patch load check c i req = Inr (r, d') \<Longrightarrow> rosters_ok (cx_db c) \<Longrightarrow> rosters_ok d'"
  unfolding team_patch_def Let_def bindE_Inr_iff
  by (elim exE conjE refusing_InrE; clarsimp simp: commit_teams_Inr split: if_split_asm)
    (rule rosters_replace; assumption)+

lemma team_patch_me_ok:
  "team_patch_me load check c req = Inr (r, d') \<Longrightarrow> rosters_ok (cx_db c) \<Longrightarrow> rosters_ok d'"
  unfolding team_patch_me_def my_team_def Let_def bindE_Inr_iff
  by (elim exE conjE, simp split: option.split_asm if_split_asm)
    (elim refusing_InrE, simp, auto simp: commit_teams_Inr intro: rosters_replace elim!: refusing_InrE)

lemma team_disbandD:
  "team_disband c = Inr (r, d') \<Longrightarrow> d' = cx_db c \<or> (\<exists>t. get_current_team c = Inr (Some t) \<and>
     performed_actions (cx_db c) (cx_conf c) t = Inr False \<and> te_captain_id t = se_id (cx_session c) \<and>
     r = Done () \<and> d' = release_and_delete (te_id t) (cx_db c))"
  unfolding team_disband_def my_team_def captain_of_def Let_def
  by (auto simp: bindE_Inr_iff split: if_split_asm option.split_asm)

lemma team_members_postD:
  "team_members_post as_id mac private_key c i user_id = Inr (m, d') \<Longrightarrow> d' = cx_db c \<or>
     (\<exists>t u. team_by_id (cx_db c) i = Some t \<and> us_team_id u = None \<and> d' = join_team u t (cx_db c))"
  unfolding team_members_post_def Let_def first_or_404_def
  by (auto simp: bindE_Inr_iff split: if_split_asm option.split_asm)

lemma team_members_deleteD:
  assumes "team_members_delete c i user_id = Inr (m, d')"
  shows "d' = cx_db c \<or> (\<exists>t k. team_by_id (cx_db c) i = Some t \<and> user_id = PInt k \<and>
     d' = forget_member k (cx_db c) \<and> m = Done (Members (team_members d' t)))"
proof (cases user_id)
  case (PInt k)
  then show ?thesis using assms unfolding team_members_delete_def Let_def first_or_404_def
    by (auto simp: bindE_Inr_iff split: if_split_asm option.split_asm)
qed (use assms in \<open>auto simp: team_members_delete_def Let_def bindE_Inr_iff\<close>)

lemma team_inviteD:
  "team_invite mac verify private_key now posting code name password d = Inr (page, d') \<Longrightarrow>
     d' = d \<or> (\<exists>t u. t \<in> set (teams d) \<and> d' = join_team u t d)"
  using invite_joins[of mac verify private_key now posting code name password d page d'] by blast

text \<open>
  Property C30: the ids, addresses and OAuth ids of teams stay unique and every member's team
  exists, whatever the endpoints for teams and invitations do.
\<close>

theorem team_membership_invariant:
  assumes "team_step d d'" "rosters_ok d" shows "rosters_ok d'"
  using assms
proof (induction rule: team_step.induct)
  case (delete c i d') then show ?case by (auto simp: team_delete_def bindE_Inr_iff intro: rosters_release)
next
  case (disband c u d') then show ?case by (auto dest!: team_disbandD intro: rosters_release)
next
  case (add_member mac private_key c i user_id m d')
  then show ?case by (auto dest!: team_members_postD first_where_SomeD simp: team_by_id_def intro: rosters_joined)
next
  case (remove_member c i user_id m d') then show ?case by (auto dest!: team_members_deleteD intro: rosters_forget)
next
  case (invite mac verify private_key now posting code name password d page d')
  then show ?case by (auto dest!: team_inviteD intro: rosters_joined)
qed (blast intro: team_post_ok team_patch_ok team_patch_me_ok)+

section \<open>What leaves with a team or a member\<close>

lemma release_and_delete_rows:
  "users (release_and_delete t d) = update_where (\<lambda>u. us_team_id u = Some t) (us_team_id_update (\<lambda>_. None)) (users d)"
  "teams (release_and_delete t d) = delete_where (\<lambda>x. te_id x = t) (teams d)"
  "submissions (release_and_delete t d) = delete_where (\<lambda>s. sub_team_id s = Some t) (submissions d)"
  "unlocks (release_and_delete t d) = delete_where (\<lambda>u. un_team_id u = Some t) (unlocks d)"
  "awards (release_and_delete t d) = delete_where (\<lambda>a. aw_team_id a = Some t) (awards d)"
  "award_badges (release_and_delete t d) = delete_where (\<lambda>b. ab_team_id b = Some t) (award_badges d)"
  "field_entries (release_and_delete t d) =
    delete_where (\<lambda>e. fe_type e = Some ''team'' \<and> fe_owner_id e = Some t) (field_entries d)"
  "r \<in> set (solve_rows (release_and_delete t d)) \<Longrightarrow> sv_team_id r \<noteq> Some t"
  "a \<in> set (achievements (release_and_delete t d)) \<Longrightarrow> ac_team_id a \<noteq> Some t"
  "challenges (release_and_delete t d) = challenges d"
  unfolding release_and_delete_def cascade_team_def set_team_def Let_def by (simp_all add: delete_where_def)

lemma no_row_of_team:
  assumes "scoring_ok d" "\<forall>s\<in>set (submissions d). sub_team_id s \<noteq> Some t" "r \<in> set (solve_rows d)"
  shows "sv_team_id r \<noteq> Some t"
  using assms by (auto simp: scoring_ok_def child_of_def)

text \<open>
  Also proved: disbanding never loses an answer or an unlock: where a captain's request is done,
  no submission, solve or unlock of any team is removed, and exactly the members of the team
  are left without one.
\<close>

theorem disband_loses_no_answers:
  assumes "team_disband c = Inr (Done (), d')" "scoring_ok (cx_db c)"
  shows "submissions d' = submissions (cx_db c) \<and> solve_rows d' = solve_rows (cx_db c) \<and> unlocks d' = unlocks (cx_db c) \<and>
    (\<exists>t. te_captain_id t = se_id (cx_session c) \<and> get_current_team c = Inr (Some t) \<and> teams d' = filter (\<lambda>x. te_id x \<noteq> te_id t) (teams (cx_db c)) \<and>
      users d' = map (\<lambda>u. if us_team_id u = Some (te_id t) then u\<lparr>us_team_id := None\<rparr> else u) (users (cx_db c)))"
proof -
  obtain t where t: "get_current_team c = Inr (Some t)" "performed_actions (cx_db c) (cx_conf c) t = Inr False"
    "te_captain_id t = se_id (cx_session c)" and d': "d' = release_and_delete (te_id t) (cx_db c)"
    using assms(1) unfolding team_disband_def my_team_def captain_of_def Let_def
    by (auto simp: bindE_Inr_iff split: if_split_asm option.split_asm)
  have none: "\<forall>s\<in>set (submissions (cx_db c)). sub_team_id s \<noteq> Some (te_id t)"
    "\<forall>u\<in>set (unlocks (cx_db c)). un_team_id u \<noteq> Some (te_id t)"
    using t(2) by (auto simp: performed_actions_def bindE_Inr_iff filter_empty_conv)
  have "delete_where p rs = rs" if "\<forall>r\<in>set rs. \<not> p r" for p and rs :: "'x list"
    using that by (simp add: delete_where_def)
  note keep = this
  have "doomed (\<lambda>s. sub_team_id s = Some (te_id t)) (cx_db c) = {}" using none(1) by (auto simp: doomed_def)
  then have "solve_rows d' = solve_rows (cx_db c)"
    using no_row_of_team[OF assms(2) none(1)]
    unfolding d' release_and_delete_def cascade_team_def set_team_def Let_def doomed_def by (auto intro!: keep)
  moreover have "submissions d' = submissions (cx_db c)" "unlocks d' = unlocks (cx_db c)"
    using none by (simp_all add: d' release_and_delete_rows keep)
  ultimately show ?thesis
    using t(1,3) by (auto simp: d' release_and_delete_rows delete_where_def update_where_def)
qed

lemma forgotten_users:
  "users (forget_member k d) = update_where (\<lambda>x. us_id x = k) (us_team_id_update (\<lambda>_. None)) (users d)"
  by (simp add: forget_member_def set_team_def)

text \<open>
  Also proved: whoever is removed from a team stays its captain.  From then on no member of the
  team can edit it: each of them is refused.
\<close>

theorem removed_captain_locks_team:
  assumes "team_members_delete c i (PInt k) = Inr (Done m, d')" "team_by_id (cx_db c) i = Some t" "te_captain_id t = Some k"
    and "cx_db later = d'" "get_current_user later = Inr (Some u)" "us_team_id u = Some i"
  shows "team_patch_me load check later req = Inr (Refused ''Only team captains can edit team information'', d')"
proof -
  have d': "d' = forget_member k (cx_db c)"
    using assms(1,2) by (auto simp: team_members_delete_def Let_def bindE_Inr_iff first_or_404_def split: if_splits option.splits)
  have s: "authed later" "session_user later = Some u"
    using assms(5) by (auto simp: get_current_user_def split: if_splits option.splits)
  then have u: "u \<in> set (users d')" "se_id (cx_session later) = Some (us_id u)"
    using assms(4) by (auto simp: session_user_def user_by_id_def split: option.splits dest!: first_where_SomeD)
  have "us_team_id x = None" if "x \<in> set (users (forget_member k d))" "us_id x = k" for x d
    using that by (simp add: forgotten_users table_simps) (erule imageE, simp)
  then have "us_id u \<noteq> k" using u(1) assms(6) d' by fastforce
  moreover have "get_current_team later = Inr (Some t)"
    using s(1) assms(2,4,5,6) by (simp add: get_current_team_def user_team_def d' forget_member_def set_team_def team_by_id_def)
  ultimately show ?thesis
    using assms(3,4) u(2) by (simp add: team_patch_me_def my_team_def captain_of_def)
qed

definition mentions_team :: "int \<Rightarrow> db \<Rightarrow> bool" where
  "mentions_team t d = (t \<in> te_id ` set (teams d) \<or> Some t \<in> us_team_id ` set (users d) \<or>
     Some t \<in> sub_team_id ` set (submissions d) \<or> Some t \<in> sv_team_id ` set (solve_rows d) \<or>
     Some t \<in> un_team_id ` set (unlocks d) \<or> Some t \<in> aw_team_id ` set (awards d) \<or>
     Some t \<in> ab_team_id ` set (award_badges d) \<or> Some t \<in> ac_team_id ` set (achievements d) \<or>
     (\<exists>e\<in>set (field_entries d). fe_type e = Some ''team'' \<and> fe_owner_id e = Some t))"

text \<open>
  Also proved: deleting a team leaves no row of any table that refers to it: no member, answer,
  solve, unlock, award, badge or profile entry.
\<close>

theorem team_delete_clean:
  assumes "team_delete c i = Inr d'"
  shows "\<not> mentions_team i d' \<and> (\<forall>j. j \<noteq> i \<longrightarrow> team_by_id d' j = team_by_id (cx_db c) j) \<and>
    map us_id (users d') = map us_id (users (cx_db c)) \<and> challenges d' = challenges (cx_db c)"
proof -
  have d': "d' = release_and_delete i (cx_db c)" using assms by (auto simp: team_delete_def bindE_Inr_iff)
  have "\<not> mentions_team i d'"
    unfolding mentions_team_def d' de_Morgan_disj
    by (intro conjI) (auto simp: release_and_delete_rows(1-7) table_simps dest: release_and_delete_rows(8,9))
  moreover have "first_where (\<lambda>x. te_id x = j) (delete_where (\<lambda>x. te_id x = i) ts) = first_where (\<lambda>x. te_id x = j) ts"
    if "j \<noteq> i" for j and ts :: "team list"
    using that by (induction ts) (auto simp: delete_where_def)
  moreover have "map us_id (update_where p (us_team_id_update g) us) = map us_id us" for p g and us :: "user list"
    by (rule map_update_where) simp
  ultimately show ?thesis
    by (simp add: d' release_and_delete_rows team_by_id_def)
qed

text \<open>
  Also proved: the public page of a team shows every profile entry of the team, also those of
  fields that are not public, because the view is given as a list; a juror or a challenge
  writer gets all attributes, the address and the secret among them.
\<close>

theorem team_page_shows_private_entries:
  assumes "team_public_get freeze_row c i = Inr (Body p)"
  shows "tp_entries p = owner_entries ''team'' (cx_db c) i \<and>
    (get_current_user_type c (Some ''user'') \<in> {Some ''jury'', Some ''challenge_writer''} \<longrightarrow> tp_fields p = None)"
proof -
  have all: "process_fields k d v es = es" if "v = NoView \<or> (\<exists>fs. v = ListedView fs)" for k d v es
    using that by (auto simp: process_fields_def withheld_def split: option.split)
  have view: "public_team_view c = NoView \<or> (\<exists>fs. public_team_view c = ListedView fs)"
    by (auto simp: public_team_view_def split: option.split)
  obtain t fs es where t: "team_by_id (cx_db c) i = Some t" "dump_team c (public_team_view c) t = Inr (fs, es)"
    "tp_entries p = es" "tp_fields p = fs"
    using assms
    by (auto simp: team_public_get_def require_team_mode_def check_account_visibility_def bindE_Inr_iff first_or_404_def deny_def
        split: if_splits option.splits)
  have "te_id t = i" using t(1) by (auto simp: team_by_id_def dest: first_where_SomeD)
  then show ?thesis
    using t(2-4) view by (auto simp: dump_team_def public_team_view_def team_view_def all)
qed

section \<open>Witnesses\<close>

text \<open>Team 3 of the captain 7 and the player 8; an entry of a private field.\<close>

definition player_8 :: user where
  "player_8 = (sample_user 8 (Some 3))\<lparr>us_name := ''mate''\<rparr>"

definition roster_db :: db where
  "roster_db = empty_db\<lparr>users := [sample_user 7 (Some 3), player_8], teams := [sample_team 3 (Some 7)],
     field_entries := [\<lparr>fe_id = 1, fe_type = Some ''team'', fe_value = PStr ''private'', fe_field_id = Some 2, fe_owner_id = Some 3\<rparr>]\<rparr>"

definition roster_ctx :: "int \<Rightarrow> db \<Rightarrow> ctx" where
  "roster_ctx i d = (sample_ctx (sample_user 7 (Some 3)) (Some i) ''PATCH'' None)\<lparr>cx_db := d, cx_conf := mode_conf ''teams''\<rparr>"

definition released_db :: db where
  "released_db = empty_db\<lparr>users := [sample_user 7 None, player_8\<lparr>us_team_id := None\<rparr>]\<rparr>"

lemma disband_3: "team_disband (roster_ctx 7 roster_db) = Inr (Done (), released_db)"
  by code_simp

theorem team_membership_invariant_witness: "rosters_ok released_db"
proof (rule team_membership_invariant)
  show "team_step roster_db released_db" using team_step.disband[OF disband_3] by (simp add: roster_ctx_def)
  show "rosters_ok roster_db" by code_simp
qed

theorem disband_loses_no_answers_witness:
  "submissions released_db = submissions roster_db \<and> unlocks released_db = unlocks roster_db"
proof -
  have "scoring_ok (cx_db (roster_ctx 7 roster_db))" by code_simp
  from disband_loses_no_answers[OF disband_3 this] show ?thesis by (simp add: roster_ctx_def)
qed

theorem team_delete_clean_witness: "\<not> mentions_team 3 released_db"
proof -
  have "team_delete (roster_ctx 1 roster_db) 3 = Inr released_db" by code_simp
  from team_delete_clean[OF this] show ?thesis by simp
qed

definition without_captain :: db where
  "without_captain = roster_db\<lparr>users := [sample_user 7 None, player_8]\<rparr>"

theorem removed_captain_locks_team_witness:
  "team_patch_me (\<lambda>_ _ _ _ es. Inl TypeError) (\<lambda>_ _ _ req. Inr req) (roster_ctx 8 without_captain) [(''name'', PStr ''new'')] =
     Inr (Refused ''Only team captains can edit team information'', without_captain)"
proof (rule removed_captain_locks_team)
  show "team_members_delete (roster_ctx 1 roster_db) 3 (PInt 7) = Inr (Done (Members [player_8]), without_captain)" by code_simp
  show "team_by_id (cx_db (roster_ctx 1 roster_db)) 3 = Some (sample_team 3 (Some 7))"
    "te_captain_id (sample_team 3 (Some 7)) = Some 7"
    "cx_db (roster_ctx 8 without_captain) = without_captain" "us_team_id player_8 = Some 3" by code_simp+
  show "get_current_user (roster_ctx 8 without_captain) = Inr (Some player_8)" by code_simp
qed

definition juror_ctx :: ctx where
  "juror_ctx = (roster_ctx 9 (roster_db\<lparr>users := users roster_db @ [(sample_user 9 None)\<lparr>us_type := Some ''jury''\<rparr>],
     field_defs := []\<rparr>))\<lparr>cx_conf := (\<lambda>k. if k = ''user_mode'' then PStr ''teams''
       else if k = ''account_visibility'' then PStr ''public'' else if k = ''score_visibility'' then PStr ''hidden'' else PNone)\<rparr>"

definition juror_page :: team_profile where
  "juror_page = \<lparr>tp_team = sample_team 3 (Some 7), tp_fields = None, tp_members = [sample_user 7 (Some 3), player_8],
     tp_entries = field_entries roster_db, tp_place = PNone, tp_score = PNone\<rparr>"

theorem team_page_shows_private_entries_witness: "tp_fields juror_page = None"
proof -
  have "team_public_get None juror_ctx 3 = Inr (Body juror_page)" by code_simp
  moreover have "get_current_user_type juror_ctx (Some ''user'') = Some ''jury''" by code_simp
  ultimately show ?thesis using team_page_shows_private_entries[of None juror_ctx 3 juror_page] by simp
qed

end
