(* ===== verification/SubmissionsApi.thy ===== *)
theory SubmissionsApi imports Scoring HintShop begin

text \<open>
  \<^verbatim>\<open>api/v1/submissions.py\<close>: the administrators' view of the answers, with the text filters
  of \<^verbatim>\<open>utils/helpers/models.py\<close>.  An administrator creates, re-grades and deletes answers; like the
  writers of \<open>Scoring\<close> each handler locks the challenge, so it is one step from database to
  database, and an exception leaves the database as it was.  The serializer is the argument
  \<open>load\<close>, the pagination \<open>page\<close>, the database's text comparison \<open>like\<close> and its
  comparison of a number with a text \<open>num_eq\<close>; the audit rows and caches are left out.
\<close>

section \<open>Filters\<close>

datatype cell = IntCell "int option" | TextCell "string option"

definition matches_cell :: "(int \<Rightarrow> string \<Rightarrow> bool) \<Rightarrow> (string \<Rightarrow> string \<Rightarrow> bool) \<Rightarrow> string \<Rightarrow> cell \<Rightarrow> bool" where
  "matches_cell num_eq like q cl = (case cl of
      IntCell v \<Rightarrow> (case v of None \<Rightarrow> False | Some n \<Rightarrow> num_eq n q)
    | TextCell v \<Rightarrow> (case v of None \<Rightarrow> False | Some s \<Rightarrow> like (''%'' @ q @ ''%'') s))"

text \<open>No filter without a query, nor for a field that is neither a column nor an extra one.\<close>

definition build_model_filters ::
  "(int \<Rightarrow> string \<Rightarrow> bool) \<Rightarrow> (string \<Rightarrow> string \<Rightarrow> bool) \<Rightarrow> (string \<Rightarrow> ('r \<Rightarrow> cell) option) \<Rightarrow>
     (string \<Rightarrow> ('r \<Rightarrow> cell) option) \<Rightarrow> string option \<Rightarrow> string \<Rightarrow> ('r \<Rightarrow> bool) list" where
  "build_model_filters num_eq like columns extra query field = (case query of
      None \<Rightarrow> []
    | Some q \<Rightarrow> if q = [] then [] else
        (case columns field of
           Some col \<Rightarrow> [\<lambda>r. matches_cell num_eq like q (col r)]
         | None \<Rightarrow> (case extra field of
             Some col \<Rightarrow> [\<lambda>r. matches_cell num_eq like q (col r)]
           | None \<Rightarrow> [])))"

definition submission_columns :: "string \<Rightarrow> (submission \<Rightarrow> cell) option" where
  "submission_columns f =
     (if f = ''id'' then Some (\<lambda>s. IntCell (Some (sub_id s)))
      else if f = ''challenge_id'' then Some (\<lambda>s. IntCell (sub_challenge_id s))
      else if f = ''user_id'' then Some (\<lambda>s. IntCell (sub_user_id s))
      else if f = ''team_id'' then Some (\<lambda>s. IntCell (sub_team_id s))
      else if f = ''ip'' then Some (\<lambda>s. TextCell (sub_ip s))
      else if f = ''provided'' then Some (\<lambda>s. TextCell (sub_provided s))
      else if f = ''type'' then Some (\<lambda>s. TextCell (sub_type s))
      else None)"

text \<open>The arguments that were given, compared for equality (\<open>filter_by\<close>).\<close>

definition given_columns :: "(string \<times> cell) list \<Rightarrow> submission \<Rightarrow> bool" where
  "given_columns args s = list_all (\<lambda>(f, v). case submission_columns f of None \<Rightarrow> False | Some col \<Rightarrow> col s = v) args"

definition submissions_list ::
  "(int \<Rightarrow> string \<Rightarrow> bool) \<Rightarrow> (string \<Rightarrow> string \<Rightarrow> bool) \<Rightarrow> (submission list \<Rightarrow> 'p) \<Rightarrow> ctx \<Rightarrow>
     (string \<times> cell) list \<Rightarrow> string option \<Rightarrow> string \<Rightarrow> py_exc + 'p reply" where
  "submissions_list num_eq like page c args q field = admins_only c (
     let fs = build_model_filters num_eq like submission_columns (\<lambda>_. None) q field in
     Inr (Body (page (filter (\<lambda>s. given_columns args s \<and> list_all (\<lambda>f. f s) fs) (submissions (cx_db c))))))"

definition submission_by_id :: "db \<Rightarrow> int \<Rightarrow> submission option" where
  "submission_by_id d i = first_where (\<lambda>s. sub_id s = i) (submissions d)"

definition submission_get :: "ctx \<Rightarrow> int \<Rightarrow> py_exc + submission reply" where
  "submission_get c i = admins_only c (bindE (first_or_404 (submission_by_id (cx_db c) i)) (\<lambda>s. Inr (Body s)))"

section \<open>Grading\<close>

text \<open>An answer of the handlers: the row, or a status with the field it complains about.\<close>

datatype graded = Graded submission | Denied nat string

definition rolling_back :: "db \<Rightarrow> py_exc + graded \<times> db \<Rightarrow> py_exc + graded \<times> db" where
  "rolling_back d r = (case r of
      Inl (ScoringValidationError f m) \<Rightarrow> Inr (Denied 400 f, d)
    | Inl IntegrityError \<Rightarrow> Inr (Denied 409 ''submission'', d)
    | _ \<Rightarrow> r)"

definition lock_of :: "db \<Rightarrow> submission \<Rightarrow> py_exc + challenge \<times> dyn_row option" where
  "lock_of d s = (case sub_challenge_id s of None \<Rightarrow> Inl (HTTPAbort 404) | Some i \<Rightarrow> lock_challenge d i)"

definition store_submission :: "submission \<Rightarrow> db \<Rightarrow> py_exc + db" where
  "store_submission s d = (if is_correct s then insert_solve s d else Inr (add_submission s d))"

definition submission_post ::
  "(string \<Rightarrow> dict \<Rightarrow> py_exc + submission) \<Rightarrow> config \<Rightarrow> db \<Rightarrow> dict \<Rightarrow> py_exc + graded \<times> db" where
  "submission_post load conf d req = (case dget req ''type'' of
      PStr kind \<Rightarrow>
        if kind \<notin> {''correct'', ''incorrect'', ''discard''} then Inr (Denied 400 ''type'', d)
        else (case load kind req of
            Inl (ValidationError m fs) \<Rightarrow> Inr (Denied 400 m, d)
          | Inl e \<Rightarrow> Inl e
          | Inr s0 \<Rightarrow> rolling_back d (
              let s1 = s0\<lparr>sub_type := Some kind\<rparr> in
              bindE (lock_of d s1) (\<lambda>(ch, row).
              bindE (validate_solve_account d conf s1) (\<lambda>s.
              if is_correct s \<and> existing_solve d s \<noteq> None then Inr (Denied 409 ''type'', d)
              else bindE (store_submission s d) (\<lambda>d1.
                bindE (if is_correct s then recalculate d1 conf ch row else Inr d1) (\<lambda>d2.
                Inr (Graded (last (submissions d1)), d2)))))))
    | _ \<Rightarrow> Inr (Denied 400 ''type'', d))"

text \<open>
  Re-grading: the child row of a solve is inserted and deleted by statements of its own, under
  the id the submission has.  Rows of a table are kept in the order of their ids.
\<close>

definition insert_child :: "submission \<Rightarrow> db \<Rightarrow> py_exc + db" where
  "insert_child s d =
     (if list_ex (unique_clash s) (solve_rows d) \<or> list_ex (\<lambda>r. sv_id r = sub_id s) (solve_rows d) then Inl IntegrityError
      else Inr (d\<lparr>solve_rows := insort_key sv_id (child_of s) (solve_rows d)\<rparr>))"

definition delete_child :: "submission \<Rightarrow> db \<Rightarrow> db" where
  "delete_child s d = d\<lparr>solve_rows := delete_where (\<lambda>r. sv_id r = sub_id s) (solve_rows d)\<rparr>"

definition regrade_row :: "submission \<Rightarrow> string \<Rightarrow> db \<Rightarrow> db" where
  "regrade_row s kind d = d\<lparr>submissions := update_where (\<lambda>x. sub_id x = sub_id s)
     (\<lambda>x. x\<lparr>sub_type := Some kind, sub_team_id := sub_team_id s\<rparr>) (submissions d)\<rparr>"

definition regrade :: "config \<Rightarrow> submission \<Rightarrow> string \<Rightarrow> challenge \<Rightarrow> dyn_row option \<Rightarrow> db \<Rightarrow> py_exc + graded \<times> db" where
  "regrade conf s kind ch row d =
     (let finish = (\<lambda>s' d1. let d2 = regrade_row s' kind d1 in
        bindE (if is_correct s \<noteq> (kind = ''correct'') then recalculate d2 conf ch row else Inr d2) (\<lambda>d3.
        Inr (Graded (s'\<lparr>sub_type := Some kind\<rparr>), d3))) in
      if kind = ''correct'' \<and> \<not> is_correct s
      then bindE (validate_solve_account d conf s) (\<lambda>s'.
        if existing_solve d s' \<noteq> None then Inr (Denied 409 ''type'', d)
        else bindE (insert_child s' d) (finish s'))
      else if kind = ''incorrect'' \<and> is_correct s then finish s (delete_child s d)
      else finish s d)"

definition submission_patch :: "config \<Rightarrow> db \<Rightarrow> int \<Rightarrow> dict \<Rightarrow> py_exc + graded \<times> db" where
  "submission_patch conf d i req =
     bindE (first_or_404 (submission_by_id d i)) (\<lambda>s. case dget req ''type'' of
       PStr kind \<Rightarrow>
         if kind \<notin> {''correct'', ''incorrect''} then Inr (Denied 400 ''type'', d)
         else rolling_back d (bindE (lock_of d s) (\<lambda>(ch, row). regrade conf s kind ch row d))
     | _ \<Rightarrow> Inr (Denied 400 ''type'', d))"

text \<open>Deleting an incorrect answer of a team gives the team its attempt back on the counter.\<close>

definition attempt_key :: "int \<Rightarrow> int \<Rightarrow> string" where
  "attempt_key challenge team = ''attempt_count_'' @ show_int challenge @ ''_'' @ show_int team"

definition give_back :: "submission \<Rightarrow> (string \<Rightarrow> int option) \<Rightarrow> string \<Rightarrow> int option" where
  "give_back s counters = (case (sub_challenge_id s, sub_team_id s) of
      (Some ch, Some t) \<Rightarrow>
        if sub_type s = Some ''incorrect'' \<and> t \<noteq> 0
        then (case counters (attempt_key ch t) of
            None \<Rightarrow> counters
          | Some n \<Rightarrow> counters(attempt_key ch t := if n - 1 \<le> 0 then None else Some (n - 1)))
        else counters
    | _ \<Rightarrow> counters)"

definition drop_submission :: "submission \<Rightarrow> db \<Rightarrow> db" where
  "drop_submission s d = (delete_child s d)\<lparr>submissions := delete_where (\<lambda>x. sub_id x = sub_id s) (submissions d)\<rparr>"

definition submission_delete ::
  "config \<Rightarrow> db \<Rightarrow> int \<Rightarrow> (string \<Rightarrow> int option) \<Rightarrow> py_exc + graded \<times> db \<times> (string \<Rightarrow> int option)" where
  "submission_delete conf d i counters =
     bindE (first_or_404 (submission_by_id d i)) (\<lambda>s.
     bindE (lock_of d s) (\<lambda>(ch, row).
     case (if is_correct s then recalculate (drop_submission s d) conf ch row else Inr (drop_submission s d)) of
       Inl (ScoringValidationError f m) \<Rightarrow> Inr (Denied 400 f, d, counters)
     | Inl e \<Rightarrow> Inl e
     | Inr d' \<Rightarrow> Inr (Graded s, d', give_back s counters)))"

section \<open>The contestants' list\<close>

text \<open>
  The correct answers of the caller's team by date.  Sorting dates fails when one of several is
  missing, a missing date, user, challenge or team when it is read.
\<close>

record solved_entry =
  se_user :: string
  se_sub :: int
  se_date :: int
  se_value :: "int option"
  se_name :: "string option"
  se_team :: string

definition solved_row :: "db \<Rightarrow> submission \<Rightarrow> py_exc + solved_entry" where
  "solved_row d s = (case (Option.bind (sub_user_id s) (user_by_id d), sub_date s,
        Option.bind (sub_challenge_id s) (challenge_by_id d), Option.bind (sub_team_id s) (team_by_id d)) of
      (Some u, Some t, Some ch, Some tm) \<Rightarrow> Inr \<lparr>se_user = us_name u, se_sub = sub_id s, se_date = t,
        se_value = ch_value ch, se_name = ch_name ch, se_team = te_name tm\<rparr>
    | _ \<Rightarrow> Inl AttributeError)"

definition bearer_caller :: "ctx \<Rightarrow> user option" where
  "bearer_caller c = Option.bind (bearer_value (cx_request c)) (\<lambda>v.
     Option.bind (token_by_value (cx_db c) v) (\<lambda>t. Option.bind (tk_user_id t) (user_by_id (cx_db c))))"

definition submission_contestant :: "ctx \<Rightarrow> py_exc + solved_entry list reply" where
  "submission_contestant c = check_account_visibility c (case bearer_caller c of
      None \<Rightarrow> Inr (Status 401)
    | Some u \<Rightarrow>
        let rows = filter (\<lambda>s. filter_eq (sub_team_id s) (us_team_id u) \<and> is_correct s) (submissions (cx_db c)) in
        if 1 < length rows \<and> list_ex (\<lambda>s. sub_date s = None) rows then Inl TypeError
        else bindE (mapE (solved_row (cx_db c)) (sort_key (\<lambda>s. the (sub_date s)) rows)) (\<lambda>es. Inr (Body es)))"

section \<open>The invariant of the answers\<close>

text \<open>
  Two facts are kept by everything that writes answers, the contestants' \<open>solve\<close> and
  \<open>fail\<close> as well as the administrators' handlers: the scoring invariant, and that the stored
  value of a dynamic challenge is what its decay function gives for the current solves.
\<close>

definition value_current :: "config \<Rightarrow> db \<Rightarrow> dyn_row \<Rightarrow> bool" where
  "value_current conf d r = (case challenge_by_id d (dy_id r) of
      None \<Rightarrow> True
    | Some ch \<Rightarrow> challenge_type ch = ''dynamic'' \<and> dynamic_by_id d (dy_id r) = Some r \<longrightarrow>
        decay_value d conf r = (case ch_value ch of None \<Rightarrow> Inl TypeError | Some v \<Rightarrow> Inr v))"

definition values_current :: "config \<Rightarrow> db \<Rightarrow> bool" where
  "values_current conf d = list_all (value_current conf d) (dynamic_rows d)"

definition correct_answers :: "db \<Rightarrow> submission set" where
  "correct_answers d = {s \<in> set (submissions d). is_correct s}"

definition elsewhere :: "int \<Rightarrow> db \<Rightarrow> submission set" where
  "elsewhere i d = {s \<in> correct_answers d. sub_challenge_id s \<noteq> Some i}"

definition same_tables :: "db \<Rightarrow> db \<Rightarrow> bool" where
  "same_tables d d1 \<longleftrightarrow> users d1 = users d \<and> teams d1 = teams d \<and> challenges d1 = challenges d \<and> dynamic_rows d1 = dynamic_rows d"

text \<open>What a writer does: nothing to the solves, or a change at one challenge that is then recalculated.\<close>

definition locked_change :: "config \<Rightarrow> db \<Rightarrow> db \<Rightarrow> bool" where
  "locked_change conf d d' \<longleftrightarrow> (\<exists>d1. scoring_ok d1 \<and> same_tables d d1 \<and>
     (d' = d1 \<and> correct_answers d1 = correct_answers d \<or>
      (\<exists>i ch row. lock_challenge d i = Inr (ch, row) \<and> recalculate d1 conf ch row = Inr d' \<and> elsewhere i d1 = elsewhere i d)))"

lemma same_tables_refl [simp]: "same_tables d d" by (simp add: same_tables_def)

lemma unchanged: "scoring_ok d \<Longrightarrow> locked_change conf d d"
  unfolding locked_change_def by (intro exI[of _ d]) simp

lemma solve_count_card:
  assumes "scoring_ok d" "is_teams_mode conf \<or> is_users_mode conf"
  shows "get_solve_count d conf i =
    Inr (card {s \<in> correct_answers d. sub_challenge_id s = Some i \<and> counted_solve d conf s})"
proof -
  have "distinct (map sub_id (solves d))"
  proof -
    have "map sub_id (List.map_filter (solve_of d) xs) = map sub_id (filter (\<lambda>s. solve_of d s \<noteq> None) xs)" for xs
      by (induction xs) (auto simp: List.map_filter_simps solve_of_def with_child_def split: option.splits)
    then show ?thesis using assms(1) by (simp add: solves_def scoring_ok_def distinct_map_filter)
  qed
  then have "distinct (solves d)" by (rule distinct_map[THEN iffD1, THEN conjunct1])
  then show ?thesis
    using assms set_solves_ok[OF assms(1)]
    by (auto simp: get_solve_count_def correct_answers_def distinct_card[symmetric] intro!: arg_cong[where f = card])
qed

lemma solve_count_eq:
  assumes "scoring_ok d" "scoring_ok d1" "same_tables d d1"
    and "{s \<in> correct_answers d1. sub_challenge_id s = Some j} = {s \<in> correct_answers d. sub_challenge_id s = Some j}"
  shows "get_solve_count d1 conf j = get_solve_count d conf j"
proof (cases "is_teams_mode conf \<or> is_users_mode conf")
  case True
  have "counted_solve d1 conf = counted_solve d conf" using assms(3) by (simp add: counted_solve_def same_tables_def fun_eq_iff)
  then have "{s \<in> correct_answers d1. sub_challenge_id s = Some j \<and> counted_solve d1 conf s} =
    {s \<in> correct_answers d. sub_challenge_id s = Some j \<and> counted_solve d conf s}"
    using assms(4) by auto
  then show ?thesis by (simp add: solve_count_card[OF assms(1) True] solve_count_card[OF assms(2) True])
qed (simp add: get_solve_count_def)

lemma decay_value_cong: "get_solve_count d1 conf (dy_id r) = get_solve_count d conf (dy_id r) \<Longrightarrow> decay_value d1 conf r = decay_value d conf r"
  by (simp add: decay_value_def)

lemma recalculate_frame:
  "recalculate d1 conf ch row = Inr d' \<Longrightarrow> same_tables d d1 \<Longrightarrow>
     users d' = users d \<and> teams d' = teams d \<and> dynamic_rows d' = dynamic_rows d \<and>
     submissions d' = submissions d1 \<and> solve_rows d' = solve_rows d1"
  by (drule recalculate_Inr) (auto simp: same_tables_def split: option.splits)

lemma locked_change_scoring: "locked_change conf d d' \<Longrightarrow> scoring_ok d'"
  unfolding locked_change_def using recalculate_solves scoring_ok_cong by metis

lemma value_currentI:
  assumes "value_current conf d r" "challenge_by_id d1 (dy_id r) = challenge_by_id d (dy_id r)"
    and "dynamic_rows d1 = dynamic_rows d" "decay_value d1 conf r = decay_value d conf r"
  shows "value_current conf d1 r"
  using assms(1) unfolding value_current_def dynamic_by_id_def assms(2-4) .

lemma lock_challengeD:
  assumes "lock_challenge d i = Inr (ch, row)"
  shows "challenge_by_id d i = Some ch" "row = (if challenge_type ch = ''dynamic'' then dynamic_by_id d i else None)"
proof -
  show c: "challenge_by_id d i = Some ch"
    using assms by (cases "challenge_by_id d i") (auto simp: lock_challenge_def first_or_404_def bindE_Inr_iff split: if_split_asm)
  show "row = (if challenge_type ch = ''dynamic'' then dynamic_by_id d i else None)"
    using assms c by (cases "dynamic_by_id d i") (simp_all add: lock_challenge_def first_or_404_def split: if_split_asm)
qed

lemma locked_recalculation:
  "lock_challenge d i = Inr (ch, row) \<Longrightarrow> recalculate d1 conf ch row = Inr d' \<Longrightarrow> d' = d1 \<or> (\<exists>v. d' = set_value i v d1)"
  by (drule recalculate_Inr)
    (auto simp: lock_challenge_def bindE_Inr_iff first_or_404_def dynamic_by_id_def
      split: option.splits if_splits dest!: first_where_SomeD)

lemma locked_change_current:
  assumes "scoring_ok d" "values_current conf d" "locked_change conf d d'"
  shows "values_current conf d'"
proof -
  obtain d1 where d1: "scoring_ok d1" "same_tables d d1"
    and ch: "d' = d1 \<and> correct_answers d1 = correct_answers d \<or>
      (\<exists>i ch row. lock_challenge d i = Inr (ch, row) \<and> recalculate d1 conf ch row = Inr d' \<and> elsewhere i d1 = elsewhere i d)"
    using assms(3) unfolding locked_change_def by blast
  have t: "challenges d1 = challenges d" "dynamic_rows d1 = dynamic_rows d" using d1(2) by (simp_all add: same_tables_def)
  have count: "get_solve_count d1 conf j = get_solve_count d conf j" if "elsewhere i d1 = elsewhere i d" "j \<noteq> i" for i j
  proof (rule solve_count_eq[OF assms(1) d1])
    have "{s \<in> correct_answers x. sub_challenge_id s = Some j} = {s \<in> elsewhere i x. sub_challenge_id s = Some j}" for x
      using that(2) by (auto simp: elsewhere_def)
    then show "{s \<in> correct_answers d1. sub_challenge_id s = Some j} = {s \<in> correct_answers d. sub_challenge_id s = Some j}"
      by (simp only: that(1))
  qed
  have old: "value_current conf d r" if "r \<in> set (dynamic_rows d)" for r
    using that assms(2) by (simp add: values_current_def list_all_iff)
  from ch show ?thesis
  proof (elim disjE exE conjE)
    assume c: "d' = d1" "correct_answers d1 = correct_answers d"
    have "get_solve_count d1 conf j = get_solve_count d conf j" for j
      by (rule solve_count_eq[OF assms(1) d1]) (simp add: c(2))
    then show ?thesis unfolding c(1) values_current_def list_all_iff t
      by (auto intro!: value_currentI[OF old] decay_value_cong simp: t challenge_by_id_def)
  next
    fix i ch row assume l: "lock_challenge d i = Inr (ch, row)" and r: "recalculate d1 conf ch row = Inr d'"
      and e: "elsewhere i d1 = elsewhere i d"
    have fr: "dynamic_rows d' = dynamic_rows d" using recalculate_frame[OF r d1(2)] by simp
    have dv: "decay_value d' conf x = decay_value d1 conf x" for x
      using recalculate_Inr[OF r] by (auto split: option.splits)
    have "value_current conf d' x" if x: "x \<in> set (dynamic_rows d)" for x
    proof (cases "dy_id x = i")
      case False
      have "challenge_by_id d' (dy_id x) = challenge_by_id d1 (dy_id x)"
        using locked_recalculation[OF l r] False challenge_by_id_set_value_other by auto
      then have "challenge_by_id d' (dy_id x) = challenge_by_id d (dy_id x)" by (simp add: challenge_by_id_def t)
      then show ?thesis
        by (rule value_currentI[OF old[OF x] _ fr]) (unfold dv, rule decay_value_cong[OF count[OF e False]])
    next
      case True
      note c = lock_challengeD[OF l]
      show ?thesis
      proof (cases row)
        case None
        then have "challenge_type ch \<noteq> ''dynamic'' \<or> dynamic_by_id d i = None" using c(2) by (simp split: if_splits)
        moreover have "challenge_by_id d' i = Some ch"
          using recalculate_Inr[OF r] None c(1) t by (simp add: challenge_by_id_def)
        ultimately show ?thesis using True fr by (auto simp: value_current_def dynamic_by_id_def)
      next
        case (Some y)
        then have y: "dynamic_by_id d i = Some y" "dy_id y = i"
          using c(2) by (auto simp: dynamic_by_id_def split: if_splits dest: first_where_SomeD)
        obtain v where v: "decay_value d1 conf y = Inr v" "d' = set_value i v d1"
          using recalculate_Inr[OF r] Some y(2) by auto
        have "challenge_by_id d' i = Some (ch\<lparr>ch_value := Some v\<rparr>)"
          using c(1) t by (simp add: v(2) challenge_by_id_set_value) (simp add: challenge_by_id_def)
        then show ?thesis
          using True y(1) v(1) dv fr by (auto simp: value_current_def dynamic_by_id_def)
      qed
    qed
    then show ?thesis by (simp add: values_current_def list_all_iff fr)
  qed
qed

section \<open>Each writer is such a change\<close>

lemma distinct_map_filter_insort:
  "distinct (List.map_filter f (insort_key k x xs)) = distinct (List.map_filter f (x # xs))"
  by (induction xs) (auto simp: List.map_filter_simps set_map_filter set_insort_key split: option.splits)

lemma distinct_map_insort: "distinct (map f (insort_key k x xs)) = distinct (map f (x # xs))"
  by (induction xs) (auto simp: set_insort_key)

lemma sv_id_child: "sv_id (child_of s) = sub_id s"
  by (simp add: child_of_def)

text \<open>Replacing one submission, with the child rows that go with the new one.\<close>

lemma replaced_scoring_ok:
  assumes ok: "scoring_ok d" and s: "s \<in> set (submissions d)" and ids: "map sub_id (submissions d') = map sub_id (submissions d)"
    and set: "set (submissions d') = insert n {x \<in> set (submissions d). sub_id x \<noteq> sub_id s}" and n: "sub_id n = sub_id s"
    and rows: "is_correct n \<and> insert_child n d = Inr d1 \<or> \<not> is_correct n \<and> d1 = delete_child s d"
      "solve_rows d' = solve_rows d1"
  shows "scoring_ok d'"
proof -
  let ?C = "\<lambda>ss. child_of ` {s \<in> ss. is_correct s}"
  have rowsd: "set (solve_rows d) = ?C (set (submissions d))" and dist: "distinct (map sub_id (submissions d))"
    using ok by (simp_all add: scoring_ok_def)
  have kept: "r \<in> ?C {x \<in> set (submissions d). sub_id x \<noteq> sub_id s} \<longleftrightarrow> r \<in> set (solve_rows d) \<and> sv_id r \<noteq> sub_id s" for r
    unfolding rowsd by (auto simp: sv_id_child)
  from rows(1) have "set (solve_rows d') = ?C (set (submissions d')) \<and> distinct (map sv_id (solve_rows d')) \<and>
    distinct (List.map_filter (solve_key sv_user_id) (solve_rows d')) \<and> distinct (List.map_filter (solve_key sv_team_id) (solve_rows d'))"
  proof (elim disjE conjE)
    assume c: "is_correct n" and i: "insert_child n d = Inr d1"
    have d1: "solve_rows d' = insort_key sv_id (child_of n) (solve_rows d)" "\<forall>r\<in>set (solve_rows d). \<not> unique_clash n r"
      "\<forall>r\<in>set (solve_rows d). sv_id r \<noteq> sub_id n"
      using i rows(2) by (auto simp: insert_child_def list_ex_iff split: if_splits)
    have "set (solve_rows d') = insert (child_of n) {r \<in> set (solve_rows d). sv_id r \<noteq> sub_id s}"
      using d1(1,3) n by (auto simp: set_insort_key)
    also have "\<dots> = insert (child_of n) (?C {x \<in> set (submissions d). sub_id x \<noteq> sub_id s})" using kept by blast
    also have "\<dots> = ?C (set (submissions d'))" unfolding set using c by auto
    finally have 1: "set (solve_rows d') = ?C (set (submissions d'))" .
    have 2: "distinct (map sv_id (solve_rows d'))"
      using ok d1(1,3) by (auto simp: scoring_ok_def distinct_map_insort sv_id_child)
    have "distinct (List.map_filter (solve_key f) (solve_rows d'))"
      if "distinct (List.map_filter (solve_key f) (solve_rows d))" "f = sv_user_id \<or> f = sv_team_id" for f
      unfolding d1(1) distinct_map_filter_insort using that d1(2)
      by (auto simp: List.map_filter_simps set_map_filter solve_key_def unique_clash_def child_of_def split: option.splits)
    with 1 2 ok show ?thesis by (simp add: scoring_ok_def)
  next
    assume c: "\<not> is_correct n" and i: "d1 = delete_child s d"
    have d1: "solve_rows d' = filter (\<lambda>r. sv_id r \<noteq> sub_id s) (solve_rows d)"
      using i rows(2) by (simp add: delete_child_def delete_where_def)
    have "set (solve_rows d') = ?C {x \<in> set (submissions d). sub_id x \<noteq> sub_id s}" using d1 kept by auto
    then have "set (solve_rows d') = ?C (set (submissions d'))" unfolding set using c by auto
    then show ?thesis using ok d1 by (auto simp: scoring_ok_def distinct_map_filter distinct_map_filter_filter)
  qed
  then show ?thesis using dist ids unfolding scoring_ok_def by simp
qed

lemma regrade_row_set:
  assumes "s0 \<in> set (submissions d)" "distinct (map sub_id (submissions d))" "sub_id s = sub_id s0"
  shows "set (submissions (regrade_row s kind d)) =
      insert (s0\<lparr>sub_type := Some kind, sub_team_id := sub_team_id s\<rparr>) {x \<in> set (submissions d). sub_id x \<noteq> sub_id s0}"
    and "map sub_id (submissions (regrade_row s kind d)) = map sub_id (submissions d)"
proof -
  have "{x \<in> set (submissions d). sub_id x = sub_id s0} = {s0}" using assms(1,2) by (auto simp: distinct_map inj_on_def)
  then show "set (submissions (regrade_row s kind d)) =
      insert (s0\<lparr>sub_type := Some kind, sub_team_id := sub_team_id s\<rparr>) {x \<in> set (submissions d). sub_id x \<noteq> sub_id s0}"
    by (simp add: regrade_row_def table_simps assms(3))
  show "map sub_id (submissions (regrade_row s kind d)) = map sub_id (submissions d)"
    by (simp add: regrade_row_def map_update_where)
qed

lemma inserted_change:
  assumes ok: "scoring_ok d" and i: "insert_solve s d = Inr d1" "is_correct s" "sub_challenge_id s = Some j"
    and l: "lock_challenge d j = Inr (ch, row)" and r: "recalculate d1 conf ch row = Inr d'"
  shows "locked_change conf d d'"
proof -
  have "submissions d1 = submissions d @ [s\<lparr>sub_id := fresh_id sub_id (submissions d)\<rparr>]"
    using i(1) by (auto simp: insert_solve_def add_submission_def split: if_splits)
  then have "elsewhere j d1 = elsewhere j d" using i(3) by (auto simp: elsewhere_def correct_answers_def)
  moreover have "same_tables d d1" using insert_solve_frame[OF i(1)] by (simp add: same_tables_def)
  ultimately show ?thesis
    using insert_solve_ok[OF ok i(1,2)] l r unfolding locked_change_def by blast
qed

lemma added_change:
  assumes "scoring_ok d" "\<not> is_correct s" shows "locked_change conf d (add_submission s d)"
proof -
  have "correct_answers (add_submission s d) = correct_answers d"
    using assms(2) by (auto simp: correct_answers_def add_submission_def is_correct_def)
  moreover have "same_tables d (add_submission s d)" by (simp add: same_tables_def add_submission_def)
  ultimately show ?thesis using add_submission_ok[OF assms] unfolding locked_change_def by blast
qed

lemma solve_change: "solve conf now ip u t cid provided d = Inr (b, d') \<Longrightarrow> scoring_ok d \<Longrightarrow> locked_change conf d d'"
  by (erule solve_Inr_cases) (auto intro: unchanged inserted_change)

lemma fail_change: "scoring_ok d \<Longrightarrow> locked_change conf d (fail now ip u t cid provided d)"
  by (simp add: fail_def added_change is_correct_def new_submission_def)

lemma rolling_back_Inr:
  assumes "rolling_back d r = Inr (g, d')" obtains "d' = d" | "r = Inr (g, d')"
  using assms by (auto simp: rolling_back_def split: sum.splits py_exc.splits)

lemma lock_ofD: "lock_of d s = Inr (ch, row) \<Longrightarrow> \<exists>i. sub_challenge_id s = Some i \<and> lock_challenge d i = Inr (ch, row)"
  by (simp add: lock_of_def split: option.splits)

lemma post_change:
  assumes "submission_post load conf d req = Inr (g, d')" "scoring_ok d" shows "locked_change conf d d'"
proof -
  consider "d' = d" | kind s0 where "rolling_back d (
      let s1 = s0\<lparr>sub_type := Some kind\<rparr> in
      bindE (lock_of d s1) (\<lambda>(ch, row).
      bindE (validate_solve_account d conf s1) (\<lambda>s.
      if is_correct s \<and> existing_solve d s \<noteq> None then Inr (Denied 409 ''type'', d)
      else bindE (store_submission s d) (\<lambda>d1.
        bindE (if is_correct s then recalculate d1 conf ch row else Inr d1) (\<lambda>d2.
        Inr (Graded (last (submissions d1)), d2)))))) = Inr (g, d')"
    using assms(1) by (auto simp: submission_post_def split: pyval.splits if_splits sum.splits py_exc.splits)
  then show ?thesis
  proof cases
    case (2 kind s0)
    let ?s1 = "s0\<lparr>sub_type := Some kind\<rparr>"
    from 2 consider "d' = d" | ch row s d1 where "lock_of d ?s1 = Inr (ch, row)" "validate_solve_account d conf ?s1 = Inr s"
      "store_submission s d = Inr d1" "(if is_correct s then recalculate d1 conf ch row else Inr d1) = Inr d'"
      by (elim rolling_back_Inr) (auto simp: Let_def bindE_Inr_iff split: if_split_asm)
    then show ?thesis
    proof cases
      case (2 ch row s d1)
      have c: "sub_challenge_id s = sub_challenge_id ?s1"
        using 2(2) by (auto elim: validate_solve_account_Inr)
      obtain i where i: "sub_challenge_id s = Some i" "lock_challenge d i = Inr (ch, row)"
        using lock_ofD[OF 2(1)] c by auto
      show ?thesis
      proof (cases "is_correct s")
        case True
        then show ?thesis using inserted_change[OF assms(2) _ True i(1,2)] 2(3,4) by (simp add: store_submission_def)
      next
        case False
        then show ?thesis using added_change[OF assms(2) False] 2(3,4) by (simp add: store_submission_def)
      qed
    qed (simp add: unchanged assms(2))
  qed (simp add: unchanged assms(2))
qed

lemma submission_by_idD: "submission_by_id d i = Some s \<Longrightarrow> s \<in> set (submissions d) \<and> sub_id s = i"
  by (auto simp: submission_by_id_def dest: first_where_SomeD)

text \<open>The rows after a re-grading, before the value is recalculated.\<close>

lemma regraded:
  assumes ok: "scoring_ok d" and s: "s \<in> set (submissions d)" and kind: "kind = ''correct'' \<or> kind = ''incorrect''"
    and s': "sub_id s' = sub_id s" "\<And>x. s'\<lparr>sub_type := x\<rparr> = s\<lparr>sub_type := x, sub_team_id := sub_team_id s'\<rparr>"
    and d1: "kind = ''correct'' \<and> \<not> is_correct s \<and> insert_child s' d = Inr d1 \<or>
      kind = ''incorrect'' \<and> is_correct s \<and> s' = s \<and> d1 = delete_child s d \<or> (is_correct s \<longleftrightarrow> kind = ''correct'') \<and> s' = s \<and> d1 = d"
  shows "scoring_ok (regrade_row s' kind d1)" "same_tables d (regrade_row s' kind d1)"
    "correct_answers (regrade_row s' kind d1) =
      (if kind = ''correct'' then insert (s'\<lparr>sub_type := Some kind\<rparr>) else id) {x \<in> correct_answers d. sub_id x \<noteq> sub_id s}"
proof -
  let ?n = "s'\<lparr>sub_type := Some kind\<rparr>" and ?d = "regrade_row s' kind d1"
  have sub1: "submissions d1 = submissions d" "challenges d1 = challenges d" "dynamic_rows d1 = dynamic_rows d"
    "users d1 = users d" "teams d1 = teams d"
    using d1 by (auto simp: insert_child_def delete_child_def split: if_splits)
  have dist: "distinct (map sub_id (submissions d))" using ok by (simp add: scoring_ok_def)
  have n: "?n = s\<lparr>sub_type := Some kind, sub_team_id := sub_team_id s'\<rparr>" by (rule s'(2))
  have rows: "set (submissions ?d) = insert ?n {x \<in> set (submissions d). sub_id x \<noteq> sub_id s}"
    "map sub_id (submissions ?d) = map sub_id (submissions d)" "solve_rows ?d = solve_rows d1"
    using regrade_row_set[of s d1 s' kind] s dist s'(1) by (simp_all add: sub1 n regrade_row_def)
  have nc: "is_correct ?n \<longleftrightarrow> kind = ''correct''" by (simp add: is_correct_def)
  show "correct_answers ?d = (if kind = ''correct'' then insert ?n else id) {x \<in> correct_answers d. sub_id x \<noteq> sub_id s}"
    using rows(1) nc by (auto simp: correct_answers_def)
  show "same_tables d ?d" by (simp add: same_tables_def regrade_row_def sub1)
  show "scoring_ok ?d"
    using d1
  proof (elim disjE conjE)
    assume c: "kind = ''correct''" "insert_child s' d = Inr d1"
    have "insert_child ?n d = insert_child s' d"
      by (simp add: insert_child_def unique_clash_def[abs_def] child_of_def)
    then show ?thesis using replaced_scoring_ok[OF ok s rows(2,1)] s'(1) c nc rows(3) by simp
  next
    assume "kind = ''incorrect''" "d1 = delete_child s d"
    then show ?thesis using replaced_scoring_ok[OF ok s rows(2,1)] s'(1) nc rows(3) by simp
  next
    assume c: "is_correct s \<longleftrightarrow> kind = ''correct''" "s' = s" "d1 = d"
    show ?thesis
    proof (cases "kind = ''correct''")
      case True
      then have "s\<lparr>sub_type := Some kind\<rparr> = s" using c(1) by (simp add: is_correct_def)
      moreover have "s\<lparr>sub_type := Some kind\<rparr> = s\<lparr>sub_type := Some kind, sub_team_id := sub_team_id s\<rparr>" by simp
      ultimately have "x\<lparr>sub_type := Some kind, sub_team_id := sub_team_id s\<rparr> = x" if "x \<in> set (submissions d)" "sub_id x = sub_id s" for x
        using that s dist by (metis inj_onD distinct_map)
      then have "submissions ?d = submissions d"
        by (simp add: regrade_row_def c(2,3) update_where_def map_idI)
      then show ?thesis using ok rows(3) c(3) scoring_ok_cong[of ?d d] by simp
    next
      case False
      have "delete_child s d = d"
      proof -
        have "sv_id r \<noteq> sub_id s" if "r \<in> set (solve_rows d)" for r
        proof -
          have "r \<in> child_of ` {s \<in> set (submissions d). is_correct s}" using that ok by (simp add: scoring_ok_def)
          then obtain x where x: "x \<in> set (submissions d)" "is_correct x" "r = child_of x" by blast
          then have "x \<noteq> s" using False c(1) by auto
          then show ?thesis using x(1,3) s dist by (auto simp: sv_id_child distinct_map dest: inj_onD)
        qed
        then show ?thesis by (simp add: delete_child_def delete_where_def)
      qed
      then show ?thesis using replaced_scoring_ok[OF ok s rows(2,1), of d] s'(1) nc rows(3) False c(3) by simp
    qed
  qed
qed

lemma correct_same_id:
  assumes "scoring_ok d" "s \<in> set (submissions d)"
  shows "{x \<in> correct_answers d. sub_id x \<noteq> sub_id s} = correct_answers d - {s}"
  using assms by (auto simp: correct_answers_def scoring_ok_def distinct_map dest: inj_onD)

lemma regrade_change:
  assumes ok: "scoring_ok d" and s: "s \<in> set (submissions d)" and kind: "kind = ''correct'' \<or> kind = ''incorrect''"
    and l: "lock_of d s = Inr (ch, row)" and r: "regrade conf s kind ch row d = Inr (g, d')"
  shows "locked_change conf d d'"
proof -
  obtain i where i: "sub_challenge_id s = Some i" "lock_challenge d i = Inr (ch, row)" using lock_ofD[OF l] by blast
  have fin: "locked_change conf d d'"
    if g: "bindE (if is_correct s \<noteq> (kind = ''correct'') then recalculate (regrade_row s' kind d1) conf ch row
            else Inr (regrade_row s' kind d1)) (\<lambda>d3. Inr (Graded (s'\<lparr>sub_type := Some kind\<rparr>), d3)) = Inr (g, d')"
      and s': "s' = s\<lparr>sub_team_id := t\<rparr>"
      and d1: "kind = ''correct'' \<and> \<not> is_correct s \<and> insert_child s' d = Inr d1 \<or>
        kind = ''incorrect'' \<and> is_correct s \<and> s' = s \<and> d1 = delete_child s d \<or> (is_correct s \<longleftrightarrow> kind = ''correct'') \<and> s' = s \<and> d1 = d"
    for s' d1 t
  proof -
    let ?n = "s'\<lparr>sub_type := Some kind\<rparr>" and ?d = "regrade_row s' kind d1"
    note R = regraded[OF ok s kind _ _ d1]
    have R: "scoring_ok ?d" "same_tables d ?d"
      "correct_answers ?d = (if kind = ''correct'' then insert ?n else id) (correct_answers d - {s})"
      using R correct_same_id[OF ok s] by (simp_all add: s')
    have ni: "sub_challenge_id ?n = Some i" by (simp add: s' i)
    have e: "elsewhere i ?d = elsewhere i d"
      using R(3) ni i(1) by (auto simp: elsewhere_def split: if_splits)
    show ?thesis
    proof (cases "is_correct s \<noteq> (kind = ''correct'')")
      case True
      then have "recalculate ?d conf ch row = Inr d'" using g by (auto simp: bindE_Inr_iff)
      then show ?thesis using R(1,2) e i(2) unfolding locked_change_def by blast
    next
      case False
      then have d': "d' = ?d" and same: "s' = s" using g d1 by auto
      have "correct_answers ?d = correct_answers d"
      proof (cases "is_correct s")
        case True
        then have k: "kind = ''correct''" "sub_type s = Some ''correct''" using False by (auto simp: is_correct_def)
        then have "?n = s" by (simp add: same)
        then show ?thesis using R(3) k s True by (auto simp: correct_answers_def)
      next
        case F: False
        then show ?thesis using R(3) False by (auto simp: correct_answers_def)
      qed
      then show ?thesis using R(1,2) d' unfolding locked_change_def by blast
    qed
  qed
  show ?thesis
  proof (cases "kind = ''correct'' \<and> \<not> is_correct s")
    case True
    then consider "d' = d" | s' d1 where "validate_solve_account d conf s = Inr s'" "insert_child s' d = Inr d1"
      "bindE (if is_correct s \<noteq> (kind = ''correct'') then recalculate (regrade_row s' kind d1) conf ch row
            else Inr (regrade_row s' kind d1)) (\<lambda>d3. Inr (Graded (s'\<lparr>sub_type := Some kind\<rparr>), d3)) = Inr (g, d')"
      using r by (auto simp: regrade_def Let_def bindE_Inr_iff split: if_split_asm)
    then show ?thesis
    proof cases
      case (2 s' d1)
      obtain t where "s' = s\<lparr>sub_team_id := t\<rparr>" using 2(1) by (auto elim: validate_solve_account_Inr)
      then show ?thesis using fin[OF 2(3)] 2(2) True by blast
    qed (simp add: unchanged ok)
  next
    case False
    show ?thesis
    proof (cases "is_correct s \<and> kind = ''incorrect''")
      case True
      then show ?thesis using r False fin[of s "delete_child s d" "sub_team_id s"] by (simp add: regrade_def Let_def)
    next
      case n: False
      then have "is_correct s \<longleftrightarrow> kind = ''correct''" using False kind by auto
      then show ?thesis using r False n fin[of s d "sub_team_id s"] by (simp add: regrade_def Let_def split: if_split_asm)
    qed
  qed
qed

lemma patchD:
  assumes "submission_patch conf d i req = Inr (g, d')"
  shows "d' = d \<or> (\<exists>s kind ch row. submission_by_id d i = Some s \<and> dget req ''type'' = PStr kind \<and> kind \<in> {''correct'', ''incorrect''} \<and>
    lock_of d s = Inr (ch, row) \<and> regrade conf s kind ch row d = Inr (g, d'))"
    and "g = Graded a \<Longrightarrow> \<exists>s kind ch row. submission_by_id d i = Some s \<and> dget req ''type'' = PStr kind \<and>
      lock_of d s = Inr (ch, row) \<and> regrade conf s kind ch row d = Inr (g, d')"
proof -
  obtain s where s: "submission_by_id d i = Some s"
    using assms by (auto simp: submission_patch_def bindE_Inr_iff first_or_404_def split: option.splits)
  have "(g, d') = (Denied 400 ''type'', d) \<or> (\<exists>kind. dget req ''type'' = PStr kind \<and> kind \<in> {''correct'', ''incorrect''} \<and>
      rolling_back d (bindE (lock_of d s) (\<lambda>(ch, row). regrade conf s kind ch row d)) = Inr (g, d'))"
    using assms s by (auto simp: submission_patch_def bindE_Inr_iff first_or_404_def split: pyval.splits if_split_asm)
  then have "(\<exists>f n. g = Denied n f \<and> d' = d) \<or> (\<exists>kind ch row. dget req ''type'' = PStr kind \<and> kind \<in> {''correct'', ''incorrect''} \<and>
      lock_of d s = Inr (ch, row) \<and> regrade conf s kind ch row d = Inr (g, d'))"
    by (elim disjE exE conjE) (auto simp: rolling_back_def bindE_Inr_iff split: sum.splits py_exc.splits)
  with s show "d' = d \<or> (\<exists>s kind ch row. submission_by_id d i = Some s \<and> dget req ''type'' = PStr kind \<and> kind \<in> {''correct'', ''incorrect''} \<and>
    lock_of d s = Inr (ch, row) \<and> regrade conf s kind ch row d = Inr (g, d'))"
    and "g = Graded a \<Longrightarrow> \<exists>s kind ch row. submission_by_id d i = Some s \<and> dget req ''type'' = PStr kind \<and>
      lock_of d s = Inr (ch, row) \<and> regrade conf s kind ch row d = Inr (g, d')"
    by blast+
qed

lemma patch_change: "submission_patch conf d i req = Inr (g, d') \<Longrightarrow> scoring_ok d \<Longrightarrow> locked_change conf d d'"
  by (drule patchD(1)) (auto simp: unchanged dest!: submission_by_idD intro: regrade_change)

lemma dropped:
  assumes "scoring_ok d" "s \<in> set (submissions d)"
  shows "scoring_ok (drop_submission s d)" "correct_answers (drop_submission s d) = correct_answers d - {s}"
    "same_tables d (drop_submission s d)"
proof -
  let ?S = "{x \<in> set (submissions d). sub_id x \<noteq> sub_id s}"
  have rows: "set (solve_rows d) = child_of ` {x \<in> set (submissions d). is_correct x}"
    using assms(1) by (simp add: scoring_ok_def)
  have "{r \<in> set (solve_rows d). sv_id r \<noteq> sub_id s} = child_of ` {x \<in> ?S. is_correct x}"
    unfolding rows by (auto simp: sv_id_child)
  then show "scoring_ok (drop_submission s d)"
    using assms(1) by (simp add: scoring_ok_def drop_submission_def delete_child_def delete_where_def distinct_map_filter
        distinct_map_filter_filter)
  have "correct_answers (drop_submission s d) = {x \<in> correct_answers d. sub_id x \<noteq> sub_id s}"
    by (auto simp: correct_answers_def drop_submission_def delete_child_def table_simps)
  then show "correct_answers (drop_submission s d) = correct_answers d - {s}"
    using correct_same_id[OF assms] by simp
  show "same_tables d (drop_submission s d)" by (simp add: same_tables_def drop_submission_def delete_child_def)
qed

lemma delete_change:
  assumes "submission_delete conf d i counters = Inr (g, d', counters')" "scoring_ok d"
  shows "locked_change conf d d'"
proof -
  obtain s where s0: "submission_by_id d i = Some s"
    using assms(1) by (cases "submission_by_id d i") (simp_all add: submission_delete_def first_or_404_def)
  let ?r = "\<lambda>ch row. if is_correct s then recalculate (drop_submission s d) conf ch row else Inr (drop_submission s d)"
  obtain ch row where l: "lock_of d s = Inr (ch, row)" and c: "(case ?r ch row of
       Inl (ScoringValidationError f m) \<Rightarrow> Inr (Denied 400 f, d, counters)
     | Inl e \<Rightarrow> Inl e
     | Inr d' \<Rightarrow> Inr (Graded s, d', give_back s counters)) = Inr (g, d', counters')"
    using assms(1) by (cases "lock_of d s") (auto simp: submission_delete_def first_or_404_def s0)
  have d': "d' = d \<or> ?r ch row = Inr d'"
  proof (cases "?r ch row")
    case (Inl e)
    then show ?thesis using c by (cases e) simp_all
  next
    case (Inr x)
    then show ?thesis using c by simp
  qed
  have s: "s \<in> set (submissions d)" "lock_of d s = Inr (ch, row)" using l submission_by_idD[OF s0] by simp_all
  obtain j where j: "sub_challenge_id s = Some j" "lock_challenge d j = Inr (ch, row)" using lock_ofD[OF s(2)] by blast
  note dr = dropped[OF assms(2) s(1)]
  have "elsewhere j (drop_submission s d) = elsewhere j d" using j(1) by (auto simp: elsewhere_def dr(2))
  moreover have "\<not> is_correct s \<Longrightarrow> correct_answers (drop_submission s d) = correct_answers d"
    unfolding dr(2) by (auto simp: correct_answers_def)
  ultimately show ?thesis
    using d' dr(1,3) j(2) unchanged[OF assms(2)] unfolding locked_change_def by (metis Inr_inject)
qed

text \<open>Every writer of answers: the contestants' two and the administrators' three.\<close>

inductive score_write :: "config \<Rightarrow> db \<Rightarrow> db \<Rightarrow> bool" for conf where
  solve: "solve conf now ip u t cid provided d = Inr (b, d') \<Longrightarrow> score_write conf d d'"
| fail: "score_write conf d (fail now ip u t cid provided d)"
| create: "submission_post load conf d req = Inr (g, d') \<Longrightarrow> score_write conf d d'"
| regrade: "submission_patch conf d i req = Inr (g, d') \<Longrightarrow> score_write conf d d'"
| remove: "submission_delete conf d i counters = Inr (g, d', counters') \<Longrightarrow> score_write conf d d'"

text \<open>
  Property C6: whatever contestants answer and administrators re-grade, no challenge is solved
  twice by a user or a team, the solves are the correct answers, and the stored value of every
  dynamic challenge is the one its decay function gives for the solves there are.
\<close>

theorem scores_stay_current:
  assumes "rtranclp (score_write conf) d d'" "scoring_ok d" "values_current conf d"
  shows "scoring_ok d' \<and> values_current conf d'"
  using assms
proof (induction rule: rtranclp_induct)
  case (step d1 d2)
  then have ok: "scoring_ok d1" "values_current conf d1" by simp_all
  from step.hyps(2) have "locked_change conf d1 d2"
    using ok(1) by cases (blast intro: solve_change fail_change post_change patch_change delete_change)+
  then show ?case using locked_change_scoring locked_change_current[OF ok] by blast
qed simp

text \<open>What a re-grading that was carried out did to the rows.\<close>

lemma regraded_incorrect:
  assumes "regrade conf s ''incorrect'' ch row d = Inr (Graded a, d')" "is_correct s"
  shows "a = s\<lparr>sub_type := Some ''incorrect''\<rparr>" "submissions d' = submissions (regrade_row s ''incorrect'' d)"
    "solve_rows d' = delete_where (\<lambda>r. sv_id r = sub_id s) (solve_rows d)" "users d' = users d" "teams d' = teams d"
  using assms
  by (auto simp: regrade_def Let_def bindE_Inr_iff delete_child_def regrade_row_def dest!: recalculate_solves)

lemma regraded_correct:
  assumes "regrade conf s ''correct'' ch row d = Inr (Graded a, d')" "\<not> is_correct s"
    and "sub_team_id s \<noteq> None \<or> \<not> is_teams_mode conf"
  shows "a = s\<lparr>sub_type := Some ''correct''\<rparr>" "submissions d' = submissions (regrade_row s ''correct'' d)"
    "solve_rows d' = insort_key sv_id (child_of s) (solve_rows d)"
proof -
  obtain s' where v: "validate_solve_account d conf s = Inr s'"
    and r: "existing_solve d s' = None" "bindE (insert_child s' d) (\<lambda>d1. bindE (recalculate (regrade_row s' ''correct'' d1) conf ch row)
        (\<lambda>d3. Inr (Graded (s'\<lparr>sub_type := Some ''correct''\<rparr>), d3))) = Inr (Graded a, d')"
    using assms(1,2) by (auto simp: regrade_def Let_def bindE_Inr_iff split: if_split_asm)
  have s': "s' = s"
    using v assms(3) by (auto simp: validate_solve_account_def solve_team_def split: option.splits if_splits)
  show "a = s\<lparr>sub_type := Some ''correct''\<rparr>" "submissions d' = submissions (regrade_row s ''correct'' d)"
    "solve_rows d' = insort_key sv_id (child_of s) (solve_rows d)"
    using r(2) unfolding s'
    by (auto simp: bindE_Inr_iff insert_child_def regrade_row_def split: if_splits dest!: recalculate_solves)
qed

text \<open>
  In team mode an answer without a team takes the team its author has by now, or is refused: it is
  never what it was before.
\<close>

lemma teamless_answer_changed:
  assumes "regrade conf s ''correct'' ch row d = Inr (Graded b, d')" "\<not> is_correct s" "sub_team_id s = None" "is_teams_mode conf"
  shows "sub_team_id b \<noteq> None"
  using assms
  by (auto simp: regrade_def Let_def bindE_Inr_iff validate_solve_account_def solve_team_def insert_child_def
      split: option.splits if_splits)

text \<open>
  Property C7: marking a correct answer as incorrect and correct again restores the answers and
  the solves, when the answer names a team or the platform is not in team mode (in team mode an answer
  without a team comes back with a team: \<open>teamless_answer_changed\<close>).
\<close>

theorem regrade_round_trip:
  assumes "scoring_ok d" "submission_by_id d i = Some s" "is_correct s" "sub_team_id s \<noteq> None \<or> \<not> is_teams_mode conf"
    and "submission_patch conf d i [(''type'', PStr ''incorrect'')] = Inr (Graded a, d1)"
    and "submission_patch conf d1 i [(''type'', PStr ''correct'')] = Inr (Graded b, d2)"
  shows "a = s\<lparr>sub_type := Some ''incorrect''\<rparr> \<and> b = s \<and> submissions d2 = submissions d \<and>
    set (solve_rows d2) = set (solve_rows d) \<and> sub_id s \<notin> sv_id ` set (solve_rows d1)"
proof -
  let ?w = "s\<lparr>sub_type := Some ''incorrect''\<rparr>"
  have s: "s \<in> set (submissions d)" "sub_id s = i" using submission_by_idD[OF assms(2)] by simp_all
  have dist: "distinct (map sub_id (submissions d))" using assms(1) by (simp add: scoring_ok_def)
  from patchD(2)[OF assms(5) refl] assms(2) obtain ch row where r1: "regrade conf s ''incorrect'' ch row d = Inr (Graded a, d1)"
    by (auto simp: dget_def)
  note R1 = regraded_incorrect[OF r1 assms(3)]
  have sub1: "set (submissions d1) = insert ?w {x \<in> set (submissions d). sub_id x \<noteq> i}" "distinct (map sub_id (submissions d1))"
    using regrade_row_set[OF s(1) dist refl, of "''incorrect''"] dist s(2) by (simp_all add: R1(2))
  have "submission_by_id d1 i = Some ?w"
    using first_where_unique[OF sub1(2), of ?w] sub1(1) s(2) by (simp add: submission_by_id_def)
  with patchD(2)[OF assms(6) refl] obtain ch' row' where r2: "regrade conf ?w ''correct'' ch' row' d1 = Inr (Graded b, d2)"
    by (auto simp: dget_def)
  have nc: "\<not> is_correct ?w" "sub_team_id ?w \<noteq> None \<or> \<not> is_teams_mode conf" using assms(4) by (simp_all add: is_correct_def)
  note R2 = regraded_correct[OF r2 nc]
  have b: "b = s" using assms(3) by (simp add: R2(1) is_correct_def)
  have "f (g x) = x" if "x \<in> set (submissions d)" "f = (\<lambda>x. if sub_id x = i then x\<lparr>sub_type := Some ''correct'', sub_team_id := sub_team_id s\<rparr> else x)"
    "g = (\<lambda>x. if sub_id x = i then x\<lparr>sub_type := Some ''incorrect'', sub_team_id := sub_team_id s\<rparr> else x)" for x f g
  proof (cases "sub_id x = i")
    case True
    then have "x = s" using that(1) s dist by (auto simp: distinct_map dest: inj_onD)
    then show ?thesis using assms(3) True that(2,3) by (simp add: is_correct_def)
  qed (simp add: that(2,3))
  then have subs: "submissions d2 = submissions d"
    by (simp add: R2(2) R1(2) regrade_row_def update_where_def s(2) comp_def) (rule map_idI, auto)
  have "child_of s \<in> set (solve_rows d)" using assms(1,3) s(1) by (simp add: scoring_ok_def)
  moreover have "r = child_of s" if "r \<in> set (solve_rows d)" "sv_id r = sub_id s" for r
  proof -
    have "inj_on sv_id (set (solve_rows d))" using assms(1) unfolding scoring_ok_def distinct_map by (elim conjE)
    then show ?thesis using that \<open>child_of s \<in> set (solve_rows d)\<close> by (simp add: inj_onD sv_id_child)
  qed
  moreover have "child_of ?w = child_of s" by (simp add: child_of_def)
  ultimately have "set (solve_rows d2) = set (solve_rows d)"
    by (auto simp: R2(3) R1(3) set_insort_key table_simps)
  then show ?thesis using b subs R1(1,3) by (auto simp: table_simps)
qed

section \<open>Witnesses\<close>

text \<open>The dynamic challenge 3, wrongly answered by the player 1 and then marked correct.\<close>

definition grading_conf :: config where
  "grading_conf = mode_conf ''users''"

definition graded_challenge :: challenge where
  "graded_challenge = (sample_challenge 3 (Some 500))\<lparr>ch_type := Some ''dynamic''\<rparr>"

definition wrong_answer :: submission where
  "wrong_answer = \<lparr>sub_id = 1, sub_challenge_id = Some 3, sub_user_id = Some 1, sub_team_id = None, sub_ip = Some ''ip'',
     sub_provided = Some ''flag'', sub_type = Some ''incorrect'', sub_date = Some 5\<rparr>"

definition grading_db :: db where
  "grading_db = dynamic_db\<lparr>challenges := [graded_challenge], submissions := [wrong_answer]\<rparr>"

definition marked_db :: db where
  "marked_db = grading_db\<lparr>submissions := [wrong_answer\<lparr>sub_type := Some ''correct''\<rparr>],
     solve_rows := [child_of wrong_answer]\<rparr>"

lemma mark_correct:
  "submission_patch grading_conf grading_db 1 [(''type'', PStr ''correct'')] =
     Inr (Graded (wrong_answer\<lparr>sub_type := Some ''correct''\<rparr>), marked_db)"
  by code_simp

lemma mark_incorrect:
  "submission_patch grading_conf marked_db 1 [(''type'', PStr ''incorrect'')] = Inr (Graded wrong_answer, grading_db)"
  by code_simp

lemma grading_db_ok: "scoring_ok grading_db" "values_current grading_conf grading_db"
  by code_simp+

theorem scores_stay_current_witness: "scoring_ok marked_db \<and> values_current grading_conf marked_db"
  using scores_stay_current[OF r_into_rtranclp[where r = "score_write grading_conf"] grading_db_ok,
      OF score_write.regrade[OF mark_correct]] .

theorem regrade_round_trip_witness: "submissions marked_db \<noteq> [] \<and> set (solve_rows marked_db) = {child_of wrong_answer}"
proof -
  have ok: "scoring_ok marked_db" by code_simp
  have s: "submission_by_id marked_db 1 = Some (wrong_answer\<lparr>sub_type := Some ''correct''\<rparr>)"
    "is_correct (wrong_answer\<lparr>sub_type := Some ''correct''\<rparr>)" "\<not> is_teams_mode grading_conf" by code_simp+
  from regrade_round_trip[OF ok s(1,2) disjI2[OF s(3)] mark_incorrect mark_correct] show ?thesis
    by (simp add: marked_db_def)
qed

end
