(* ===== verification/ChallengeEdit.thy ===== *)
theory ChallengeEdit imports Challenges SubmissionsApi Json begin

text \<open>
  Creating and editing challenges: \<^verbatim>\<open>schemas/challenges.py\<close>, \<open>create\<close>, \<open>update\<close> and
  \<open>read\<close> of \<^verbatim>\<open>plugins/challenges/__init__.py\<close> and
  \<^verbatim>\<open>plugins/dynamic_challenges/__init__.py\<close>, and the handlers \<open>ChallengeList.post\<close>,
  \<open>Challenge.patch\<close> and \<open>Challenge.delete\<close> of \<^verbatim>\<open>api/v1/challenges.py\<close> for the standard
  and the dynamic class.  What the mapper and the database driver make of a value for a column
  of each type is the argument \<open>conv\<close>; \<open>rest\<close> are the serializer's checks of single fields,
  \<open>dumps\<close> and \<open>str_of\<close> are \<open>json.dumps\<close> and \<open>str\<close>.  Files, caches and audit rows are left out.
\<close>

section \<open>The schema\<close>

text \<open>\<open>ChallengeRequirementsValidator\<close>: the prerequisites become integers.\<close>

definition prerequisites_error :: py_exc where
  "prerequisites_error = ValidationError ''Prerequisites must contain unique, existing challenge IDs'' []"

definition validate_requirements :: "db \<Rightarrow> pyval \<Rightarrow> py_exc + pyval" where
  "validate_requirements d v = (case v of
      PDict req \<Rightarrow> (case dget_default req ''prerequisites'' (PList []) of
          PList items \<Rightarrow>
            bindE (mapE (\<lambda>x. positive_id x ''requirements'') items) (\<lambda>ids.
            if \<not> distinct ids \<or> \<not> set ids \<subseteq> ch_id ` set (challenges d) then Inl prerequisites_error
            else if has_key req ''anonymize'' \<and> \<not> (case dget req ''anonymize'' of PBool b \<Rightarrow> True | _ \<Rightarrow> False)
            then Inl (ValidationError ''Anonymize must be a boolean'' [])
            else Inr (PDict (put ''prerequisites'' (PList (map PInt ids)) req)))
        | _ \<Rightarrow> Inl (ValidationError ''Prerequisites must be a list of challenge IDs'' []))
    | _ \<Rightarrow> Inl (ValidationError ''Error parsing challenge requirements'' []))"

text \<open>Scoring errors become validation errors.\<close>

definition as_validation :: "py_exc + 'a \<Rightarrow> py_exc + 'a" where
  "as_validation r = (case r of Inl (ScoringValidationError f m) \<Rightarrow> Inl (ValidationError m [f]) | _ \<Rightarrow> r)"

definition target_type :: "dict \<Rightarrow> pyval" where
  "target_type data = (let t = dget data ''scoring-type-radio'' in if truthy t then t else dget data ''type'')"

definition challenge_pre_load ::
  "string list \<Rightarrow> string list \<Rightarrow> db \<Rightarrow> bool \<Rightarrow> dict \<Rightarrow> py_exc + dict" where
  "challenge_pre_load classes flag_classes d partial data =
     bindE (validate_type_payload classes flag_classes ''challenges'' data) (\<lambda>_.
     if has_key data ''state'' \<and> dget data ''state'' \<notin> {PStr ''visible'', PStr ''hidden'', PStr ''locked''}
     then Inl (ValidationError ''State must be visible, hidden or locked'' [''state''])
     else bindE (reference data ''user_id'' (\<lambda>i. user_by_id d i \<noteq> None) False False) (\<lambda>data.
     bindE (text_field data ''name'' (\<not> partial)) (\<lambda>_.
     bindE (text_field data ''category'' (\<not> partial)) (\<lambda>_.
     if \<not> partial \<and> \<not> has_key data ''type'' then Inl (ValidationError ''Challenge type is required'' [''type''])
     else as_validation (
       bindE (if has_key data ''time_limit''
              then bindE (score_integer (dget data ''time_limit'') ''time_limit'' (-1)) (\<lambda>_. Inr data)
              else Inr (if \<not> partial \<and> dget data ''type'' = PStr ''sandbox'' then put ''time_limit'' (PInt 60) data else data))
         (\<lambda>data.
       bindE (validate_score_fields data (target_type data \<in> {PNone, PStr ''dynamic''})) (\<lambda>_.
       bindE (if \<not> partial \<and> dget data ''type'' = PStr ''dynamic'' then bindE (dynamic_config data []) (\<lambda>_. Inr ()) else Inr ())
         (\<lambda>_. Inr data))))))))"

text \<open>Loading: the \<open>pre_load\<close> step, the requirements, the checks of the other fields.\<close>

definition challenge_load ::
  "(bool \<Rightarrow> dict \<Rightarrow> py_exc + unit) \<Rightarrow> string list \<Rightarrow> string list \<Rightarrow> db \<Rightarrow> bool \<Rightarrow> dict \<Rightarrow> py_exc + dict" where
  "challenge_load rest classes flag_classes d partial data =
     bindE (challenge_pre_load classes flag_classes d partial data) (\<lambda>data.
     bindE (if has_key data ''requirements'' \<and> dget data ''requirements'' \<noteq> PNone
            then bindE (validate_requirements d (dget data ''requirements'')) (\<lambda>r. Inr (put ''requirements'' r data))
            else Inr data) (\<lambda>data.
     bindE (rest partial data) (\<lambda>_. Inr data)))"

section \<open>Normalising a request\<close>

definition try_int :: "string \<Rightarrow> dict \<Rightarrow> dict" where
  "try_int key data = (if has_key data key \<and> dget data key \<noteq> PNone
     then (case py_int (dget data key) of Inr i \<Rightarrow> put key (PInt i) data | Inl e \<Rightarrow> data) else data)"

definition to_flag :: "string \<Rightarrow> dict \<Rightarrow> dict" where
  "to_flag key data = (case dget data key of
      PStr s \<Rightarrow> put key (PBool (py_lower s \<in> {''true'', ''1'', ''yes'', ''on''})) data
    | _ \<Rightarrow> data)"

definition no_difficulty :: "pyval \<Rightarrow> bool" where
  "no_difficulty v = (v = PNone \<or> (case v of PStr s \<Rightarrow> py_strip s = [] | _ \<Rightarrow> False))"

definition normalise_difficulty :: "dict \<Rightarrow> dict" where
  "normalise_difficulty data = (if has_key data ''difficulty''
     then let v = dget data ''difficulty'' in
       put ''difficulty'' (if no_difficulty v then PNone else case py_int v of Inr i \<Rightarrow> PInt i | Inl e \<Rightarrow> PNone) data
     else data)"

definition LIMIT_KEYS :: "string list" where
  "LIMIT_KEYS = [''cpu_limit'', ''cpu_request'', ''memory_limit'', ''memory_request'', ''max_deploy_count'']"

definition normalise :: "dict \<Rightarrow> dict" where
  "normalise data = normalise_difficulty
     (fold to_flag [''use_gvisor'', ''harden_container'', ''shared_instant''] (fold try_int LIMIT_KEYS data))"

section \<open>Attributes\<close>

record converters =
  to_int :: "pyval \<Rightarrow> py_exc + int option"
  to_text :: "pyval \<Rightarrow> py_exc + string option"
  to_bool :: "pyval \<Rightarrow> py_exc + bool option"
  to_date :: "pyval \<Rightarrow> py_exc + date"

definition required :: "py_exc + 'a option \<Rightarrow> py_exc + 'a" where
  "required r = bindE r (\<lambda>x. case x of None \<Rightarrow> Inl IntegrityError | Some v \<Rightarrow> Inr v)"

definition store :: "py_exc + 'a \<Rightarrow> ('a \<Rightarrow> challenge) \<Rightarrow> py_exc + challenge" where
  "store r f = bindE r (\<lambda>v. Inr (f v))"

definition challenge_columns :: "converters \<Rightarrow> pyval \<Rightarrow> challenge \<Rightarrow> (string \<times> (py_exc + challenge)) list" where
  "challenge_columns cv v c =
    [(''id'', store (required (to_int cv v)) (\<lambda>x. c\<lparr>ch_id := x\<rparr>)),
     (''name'', store (to_text cv v) (\<lambda>x. c\<lparr>ch_name := x\<rparr>)),
     (''description'', store (to_text cv v) (\<lambda>x. c\<lparr>ch_description := x\<rparr>)),
     (''connection_info'', store (to_text cv v) (\<lambda>x. c\<lparr>ch_connection_info := x\<rparr>)),
     (''next_id'', store (to_int cv v) (\<lambda>x. c\<lparr>ch_next_id := x\<rparr>)),
     (''max_attempts'', store (to_int cv v) (\<lambda>x. c\<lparr>ch_max_attempts := x\<rparr>)),
     (''value'', store (score_integer v ''value'' 0) (\<lambda>x. c\<lparr>ch_value := Some x\<rparr>)),
     (''category'', store (to_text cv v) (\<lambda>x. c\<lparr>ch_category := x\<rparr>)),
     (''state'', store (required (to_text cv v)) (\<lambda>x. c\<lparr>ch_state := x\<rparr>)),
     (''requirements'', Inr (c\<lparr>ch_requirements := v\<rparr>)),
     (''time_limit'', store (to_int cv v) (\<lambda>x. c\<lparr>ch_time_limit := x\<rparr>)),
     (''time_finished'', store (to_date cv v) (\<lambda>x. c\<lparr>ch_time_finished := x\<rparr>)),
     (''start_time'', store (to_date cv v) (\<lambda>x. c\<lparr>ch_start_time := x\<rparr>)),
     (''user_id'', store (required (to_int cv v)) (\<lambda>x. c\<lparr>ch_user_id := x\<rparr>)),
     (''cooldown'', store (to_int cv v) (\<lambda>x. c\<lparr>ch_cooldown := x\<rparr>)),
     (''require_deploy'', store (required (to_bool cv v)) (\<lambda>x. c\<lparr>ch_require_deploy := x\<rparr>)),
     (''deploy_status'', store (to_text cv v) (\<lambda>x. c\<lparr>ch_deploy_status := x\<rparr>)),
     (''last_update'', store (to_date cv v) (\<lambda>x. c\<lparr>ch_last_update := x\<rparr>)),
     (''image_link'', store (to_text cv v) (\<lambda>x. c\<lparr>ch_image_link := x\<rparr>)),
     (''deploy_file'', store (to_text cv v) (\<lambda>x. c\<lparr>ch_deploy_file := x\<rparr>)),
     (''cpu_limit'', store (to_int cv v) (\<lambda>x. c\<lparr>ch_cpu_limit := x\<rparr>)),
     (''cpu_request'', store (to_int cv v) (\<lambda>x. c\<lparr>ch_cpu_request := x\<rparr>)),
     (''memory_limit'', store (to_int cv v) (\<lambda>x. c\<lparr>ch_memory_limit := x\<rparr>)),
     (''memory_request'', store (to_int cv v) (\<lambda>x. c\<lparr>ch_memory_request := x\<rparr>)),
     (''use_gvisor'', store (to_bool cv v) (\<lambda>x. c\<lparr>ch_use_gvisor := x\<rparr>)),
     (''harden_container'', store (to_bool cv v) (\<lambda>x. c\<lparr>ch_harden_container := x\<rparr>)),
     (''max_deploy_count'', store (to_int cv v) (\<lambda>x. c\<lparr>ch_max_deploy_count := x\<rparr>)),
     (''difficulty'', store (to_int cv v) (\<lambda>x. c\<lparr>ch_difficulty := x\<rparr>)),
     (''shared_instant'', store (required (to_bool cv v)) (\<lambda>x. c\<lparr>ch_shared_instant := x\<rparr>)),
     (''connection_protocol'', store (required (to_text cv v)) (\<lambda>x. c\<lparr>ch_connection_protocol := x\<rparr>))]"

text \<open>Properties cannot be set, relations not to plain values; any other name is just an attribute.\<close>

definition unassignable :: "string list" where
  "unassignable = [''html'', ''plugin_class'', ''files'', ''tags'', ''hints'', ''flags'', ''comments'', ''topics'',
     ''deploy_histories'', ''versions'']"

definition set_attr :: "converters \<Rightarrow> string \<Rightarrow> pyval \<Rightarrow> challenge \<Rightarrow> py_exc + challenge" where
  "set_attr cv key v c = (case map_of (challenge_columns cv v c) key of
      Some r \<Rightarrow> r
    | None \<Rightarrow> if key \<in> set unassignable then Inl AttributeError else Inr c)"

text \<open>\<open>for attr, value in data.items(): if attr != 'type': setattr(..)\<close>\<close>

definition set_attrs :: "converters \<Rightarrow> dict \<Rightarrow> challenge \<Rightarrow> py_exc + challenge" where
  "set_attrs cv data c = foldE (\<lambda>c (k, v). if k = ''type'' then Inr c else set_attr cv k v c) c data"

section \<open>update\<close>

text \<open>
  \<open>expose_port\<close> is kept in the JSON of \<open>image_link\<close>: what is there and is not an object
  becomes its \<open>imageLink\<close>.
\<close>

definition image_object :: "challenge \<Rightarrow> dict" where
  "image_object c = (case ch_image_link c of
      None \<Rightarrow> []
    | Some l \<Rightarrow> if l = [] then [] else (case json_loads l of
        Some (PDict obj) \<Rightarrow> obj
      | _ \<Rightarrow> [(''imageLink'', PStr l)]))"

definition set_port :: "(dict \<Rightarrow> string) \<Rightarrow> (pyval \<Rightarrow> string) \<Rightarrow> dict \<Rightarrow> challenge \<Rightarrow> challenge" where
  "set_port dumps str_of data c = (if has_key data ''expose_port'' \<and> dget data ''expose_port'' \<noteq> PNone
     then c\<lparr>ch_image_link := Some (dumps (put ''exposedPort'' (PStr (str_of (dget data ''expose_port''))) (image_object c)))\<rparr>
     else c)"

definition without_port :: "dict \<Rightarrow> dict" where
  "without_port data = (if dget data ''expose_port'' \<noteq> PNone then del ''expose_port'' data else data)"

definition base_update ::
  "converters \<Rightarrow> (dict \<Rightarrow> string) \<Rightarrow> (pyval \<Rightarrow> string) \<Rightarrow> dict \<Rightarrow> challenge \<Rightarrow> py_exc + challenge" where
  "base_update cv dumps str_of data0 c =
     bindE (validate_score_fields data0 False) (\<lambda>_.
     bindE (if has_key data0 ''time_limit''
            then bindE (score_integer (dget data0 ''time_limit'') ''time_limit'' (-1)) (\<lambda>t. Inr (put ''time_limit'' (PInt t) data0))
            else Inr data0) (\<lambda>data1.
     let data = normalise data1 in
     set_attrs cv (without_port data) (set_port dumps str_of data c)))"

text \<open>\<open>DynamicValueChallenge.update\<close>: the configuration goes to the child row, then the value is recalculated.\<close>

definition config_fields :: "dyn_config \<Rightarrow> dict" where
  "config_fields g = [(''initial'', PInt (dc_initial g)), (''minimum'', PInt (dc_minimum g)),
     (''decay'', PInt (dc_decay g)), (''function'', dc_function g)]"

definition function_name :: "pyval \<Rightarrow> string option" where
  "function_name v = (case v of PStr s \<Rightarrow> Some s | _ \<Rightarrow> None)"

definition row_of_config :: "int \<Rightarrow> dyn_config \<Rightarrow> dyn_row" where
  "row_of_config i g = \<lparr>dy_id = i, dy_initial = Some (dc_initial g), dy_minimum = Some (dc_minimum g),
     dy_decay = Some (dc_decay g), dy_function = function_name (dc_function g)\<rparr>"

definition put_challenge :: "int \<Rightarrow> challenge \<Rightarrow> db \<Rightarrow> db" where
  "put_challenge i c d = d\<lparr>challenges := update_where (\<lambda>x. ch_id x = i) (\<lambda>_. c) (challenges d)\<rparr>"

definition put_row :: "dyn_row \<Rightarrow> db \<Rightarrow> db" where
  "put_row r d = d\<lparr>dynamic_rows := update_where (\<lambda>x. dy_id x = dy_id r) (\<lambda>_. r) (dynamic_rows d)\<rparr>"

definition dynamic_update ::
  "converters \<Rightarrow> config \<Rightarrow> dict \<Rightarrow> challenge \<Rightarrow> dyn_row \<Rightarrow> db \<Rightarrow> py_exc + db" where
  "dynamic_update cv conf data c r d =
     bindE (validate_score_fields data True) (\<lambda>_.
     bindE (dynamic_config data (dyn_attrs r)) (\<lambda>g.
     bindE (set_attrs cv (fold (\<lambda>(k, v). put k v) (config_fields g) data) c) (\<lambda>c'.
     if ch_id c' \<noteq> ch_id c then Inl IntegrityError
     else let r' = row_of_config (ch_id c) g in
       calculate_value (put_row r' (put_challenge (ch_id c) c' d)) conf r')))"

section \<open>create\<close>

text \<open>
  The keyword arguments of the model: a name that is no attribute is refused, the type is checked
  against the registered classes; columns that are not given have their defaults.
\<close>

definition new_challenge :: "int \<Rightarrow> challenge" where
  "new_challenge i = \<lparr>ch_id = i, ch_name = None, ch_description = None, ch_connection_info = None, ch_next_id = None,
     ch_max_attempts = Some 0, ch_value = None, ch_category = None, ch_type = Some ''standard'', ch_state = ''visible'',
     ch_requirements = PNone, ch_time_limit = None, ch_time_finished = None, ch_start_time = None, ch_user_id = 0,
     ch_cooldown = Some 0, ch_require_deploy = False, ch_deploy_status = Some ''CREATED'', ch_last_update = None,
     ch_image_link = None, ch_deploy_file = None, ch_cpu_limit = None, ch_cpu_request = None, ch_memory_limit = None,
     ch_memory_request = None, ch_use_gvisor = None, ch_harden_container = Some True, ch_max_deploy_count = Some 0,
     ch_difficulty = None, ch_shared_instant = False, ch_connection_protocol = ''http''\<rparr>"

definition column_names :: "string list" where
  "column_names = map fst (challenge_columns \<lparr>to_int = \<lambda>_. Inr None, to_text = \<lambda>_. Inr None, to_bool = \<lambda>_. Inr None,
     to_date = \<lambda>_. Inr None\<rparr> PNone (new_challenge 0))"

definition create_attr :: "converters \<Rightarrow> string list \<Rightarrow> string list \<Rightarrow> string list \<Rightarrow> challenge \<Rightarrow> string \<times> pyval \<Rightarrow> py_exc + challenge" where
  "create_attr cv classes flag_classes extra c kv = (case kv of (k, v) \<Rightarrow>
     if k = ''type'' then bindE (require_supported_type classes flag_classes ''challenges'' v) (\<lambda>t. Inr (c\<lparr>ch_type := Some t\<rparr>))
     else if k \<notin> set column_names \<union> set unassignable \<union> set extra then Inl TypeError
     else set_attr cv k v c)"

text \<open>The row gets its id from the database unless one is given; an author is required.\<close>

definition insert_challenge :: "dict \<Rightarrow> challenge \<Rightarrow> db \<Rightarrow> py_exc + db" where
  "insert_challenge data c d =
     (if \<not> has_key data ''user_id'' \<or> ch_id c \<in> ch_id ` set (challenges d) then Inl IntegrityError
      else Inr (d\<lparr>challenges := insort_key ch_id c (challenges d)\<rparr>))"

definition create_data :: "bool \<Rightarrow> dict \<Rightarrow> py_exc + dict" where
  "create_data dynamic data =
     bindE (validate_score_fields data dynamic) (\<lambda>_.
     bindE (score_integer (dget data ''time_limit'') ''time_limit'' (-1)) (\<lambda>t.
     Inr (normalise (put ''time_limit'' (PInt t) data))))"

definition base_create ::
  "converters \<Rightarrow> string list \<Rightarrow> string list \<Rightarrow> dict \<Rightarrow> db \<Rightarrow> py_exc + challenge \<times> db" where
  "base_create cv classes flag_classes data0 d =
     bindE (create_data False data0) (\<lambda>data.
     bindE (foldE (create_attr cv classes flag_classes []) (new_challenge (fresh_id ch_id (challenges d))) data) (\<lambda>c.
     bindE (insert_challenge data c d) (\<lambda>d'. Inr (c, d'))))"

definition dynamic_create ::
  "converters \<Rightarrow> string list \<Rightarrow> string list \<Rightarrow> dict \<Rightarrow> db \<Rightarrow> py_exc + challenge \<times> db" where
  "dynamic_create cv classes flag_classes data0 d =
     bindE (create_data True data0) (\<lambda>data.
     bindE (dynamic_config data []) (\<lambda>g.
     bindE (foldE (create_attr cv classes flag_classes [''initial'', ''minimum'', ''decay'', ''function''])
              ((new_challenge (fresh_id ch_id (challenges d)))\<lparr>ch_type := Some ''dynamic''\<rparr>)
              (fold (\<lambda>(k, v). put k v) (config_fields g) data)) (\<lambda>c0.
     let c = c0\<lparr>ch_value := Some (dc_initial g)\<rparr> in
     bindE (insert_challenge data c d) (\<lambda>d'.
     if ch_id c \<in> dy_id ` set (dynamic_rows d) then Inl IntegrityError
     else Inr (c, d'\<lparr>dynamic_rows := insort_key dy_id (row_of_config (ch_id c) g) (dynamic_rows d')\<rparr>)))))"

section \<open>read\<close>

definition base_read :: "challenge \<Rightarrow> dict" where
  "base_read c =
    [(''id'', PInt (ch_id c)), (''name'', of_opt_str (ch_name c)), (''value'', of_opt_int (ch_value c)),
     (''description'', of_opt_str (ch_description c)), (''connection_info'', of_opt_str (ch_connection_info c)),
     (''next_id'', of_opt_int (ch_next_id c)), (''category'', of_opt_str (ch_category c)), (''state'', PStr (ch_state c)),
     (''max_attempts'', of_opt_int (ch_max_attempts c)), (''type'', PStr (challenge_type c)),
     (''require_deploy'', PBool (ch_require_deploy c)), (''max_deploy_count'', of_opt_int (ch_max_deploy_count c)),
     (''shared_instant'', PBool (ch_shared_instant c))]"

definition dynamic_read :: "challenge \<Rightarrow> dyn_row \<Rightarrow> dict" where
  "dynamic_read c r =
    [(''id'', PInt (ch_id c)), (''name'', of_opt_str (ch_name c)), (''value'', of_opt_int (ch_value c)),
     (''initial'', of_opt_int (dy_initial r)), (''decay'', of_opt_int (dy_decay r)), (''minimum'', of_opt_int (dy_minimum r)),
     (''function'', of_opt_str (dy_function r)),
     (''description'', of_opt_str (ch_description c)), (''connection_info'', of_opt_str (ch_connection_info c)),
     (''next_id'', of_opt_int (ch_next_id c)), (''category'', of_opt_str (ch_category c)), (''state'', PStr (ch_state c)),
     (''max_attempts'', of_opt_int (ch_max_attempts c)), (''type'', PStr (challenge_type c))]"

section \<open>The handlers\<close>

text \<open>
  A body that changes the id of a challenge succeeds only while nothing refers to the old id.
\<close>

definition referenced :: "int list \<Rightarrow> int \<Rightarrow> db \<Rightarrow> bool" where
  "referenced deploy_refs i d = (i \<in> set deploy_refs \<or>
     Some i \<in> ch_next_id ` set (challenges d) \<or> i \<in> dy_id ` set (dynamic_rows d) \<or>
     Some i \<in> hi_challenge_id ` set (hints d) \<or> i \<in> ve_challenge_id ` set (versions d) \<or>
     Some i \<in> fl_challenge_id ` set (flags d) \<or> Some i \<in> fi_challenge_id ` set (files d) \<or>
     Some i \<in> ta_challenge_id ` set (tags d) \<or> Some i \<in> sub_challenge_id ` set (submissions d) \<or>
     Some i \<in> sv_challenge_id ` set (solve_rows d) \<or> Some i \<in> ac_challenge_id ` set (achievements d) \<or>
     Some i \<in> ab_challenge_id ` set (award_badges d))"

definition base_commit :: "int list \<Rightarrow> int \<Rightarrow> challenge \<Rightarrow> db \<Rightarrow> py_exc + db" where
  "base_commit deploy_refs i c d =
     (if ch_id c \<noteq> i \<and> (referenced deploy_refs i d \<or> ch_id c \<in> ch_id ` set (challenges d)) then Inl IntegrityError
      else Inr (put_challenge i c d))"

text \<open>An answer: the challenge, or a status with the field complained about.\<close>

datatype edited = Edited challenge | EditDenied nat string

definition trimmed :: "string \<Rightarrow> dict \<Rightarrow> dict option" where
  "trimmed key data = (if has_key data key
     then (case dget data key of PStr s \<Rightarrow> Some (put key (PStr (py_strip s)) data) | _ \<Rightarrow> None) else Some data)"

definition denied_by :: "py_exc + 'a \<Rightarrow> (string \<Rightarrow> 'r) \<Rightarrow> (py_exc \<Rightarrow> 'r) \<Rightarrow> ('a \<Rightarrow> 'r) \<Rightarrow> 'r" where
  "denied_by r bad other f = (case r of
      Inr a \<Rightarrow> f a
    | Inl (ValidationError m fs) \<Rightarrow> bad m
    | Inl e \<Rightarrow> other e)"

text \<open>
  \<open>form\<close> tells whether the body came as a form: the class then reads the body again, without
  what the handler trimmed and normalised.  A scoring error of the class is not among those the
  handler turns into an answer.
\<close>

definition challenge_post ::
  "converters \<Rightarrow> (bool \<Rightarrow> dict \<Rightarrow> py_exc + unit) \<Rightarrow> string list \<Rightarrow> string list \<Rightarrow> bool \<Rightarrow> pyval \<Rightarrow> db \<Rightarrow>
     py_exc + edited \<times> db" where
  "challenge_post cv rest classes flag_classes form body d = (case body of
      PDict data0 \<Rightarrow>
       (case trimmed ''name'' data0 of
          None \<Rightarrow> Inr (EditDenied 400 ''name'', d)
        | Some data1 \<Rightarrow> (case trimmed ''category'' data1 of
          None \<Rightarrow> Inr (EditDenied 400 ''category'', d)
        | Some data2 \<Rightarrow>
            if \<not> truthy (dget data2 ''name'') then Inr (EditDenied 400 ''name'', d)
            else if \<not> truthy (dget data2 ''category'') then Inr (EditDenied 400 ''category'', d)
            else if (case dget data2 ''category'' of PStr s \<Rightarrow> 20 < length s | _ \<Rightarrow> False) then Inr (EditDenied 400 ''category'', d)
            else denied_by (challenge_load rest classes flag_classes d False (normalise_difficulty data2))
              (\<lambda>m. Inr (EditDenied 400 m, d)) Inl (\<lambda>data3.
              let given = (if form then data0 else data3) in
              bindE (case dget data3 ''type'' of
                  PStr t \<Rightarrow> if t = ''standard'' then base_create cv classes flag_classes given d
                    else if t = ''dynamic'' then dynamic_create cv classes flag_classes given d else Inl KeyError
                | _ \<Rightarrow> Inl KeyError)
                (\<lambda>(c, d'). Inr (Edited c, d')))))
    | _ \<Rightarrow> Inr (EditDenied 400 ''body'', d))"

text \<open>Who may edit: administrators and the author among the challenge writers.\<close>

definition may_edit :: "user \<Rightarrow> challenge \<Rightarrow> bool" where
  "may_edit u c = (us_type u = Some ''admin'' \<or> us_type u = Some ''challenge_writer'' \<and> ch_user_id c = us_id u)"

text \<open>The only change of type is between the two classes, announced by the radio button.\<close>

definition type_change_ok :: "dict \<Rightarrow> challenge \<Rightarrow> bool" where
  "type_change_ok data c =
     (let now = PStr (challenge_type c); wanted = dget_default data ''type'' now in
      wanted = now \<or> {now, wanted} = {PStr ''standard'', PStr ''dynamic''} \<and> dget data ''scoring-type-radio'' = wanted)"

definition set_type :: "int \<Rightarrow> string \<Rightarrow> db \<Rightarrow> db" where
  "set_type i t d = d\<lparr>challenges := update_where (\<lambda>c. ch_id c = i) (\<lambda>c. c\<lparr>ch_type := Some t\<rparr>) (challenges d)\<rparr>"

text \<open>The conversion, before the class updates the challenge.\<close>

definition convert :: "pyval \<Rightarrow> challenge \<Rightarrow> dyn_config option \<Rightarrow> db \<Rightarrow> db" where
  "convert radio c g d =
     (if radio = PStr ''standard'' \<and> challenge_type c = ''dynamic''
      then set_type (ch_id c) ''standard'' (d\<lparr>dynamic_rows := delete_where (\<lambda>r. dy_id r = ch_id c) (dynamic_rows d)\<rparr>)
      else if radio = PStr ''dynamic'' \<and> challenge_type c = ''standard''
      then set_type (ch_id c) ''dynamic'' (d\<lparr>dynamic_rows := insort_key dy_id (row_of_config (ch_id c) (the g)) (dynamic_rows d)\<rparr>)
      else d)"

text \<open>The new database with the id the challenge now has.\<close>

definition class_update ::
  "converters \<Rightarrow> (dict \<Rightarrow> string) \<Rightarrow> (pyval \<Rightarrow> string) \<Rightarrow> int list \<Rightarrow> config \<Rightarrow> dict \<Rightarrow> int \<Rightarrow> db \<Rightarrow> py_exc + int \<times> db" where
  "class_update cv dumps str_of deploy_refs conf data i d =
     bindE (lock_challenge d i) (\<lambda>(c, row). case row of
       Some r \<Rightarrow> bindE (dynamic_update cv conf data c r d) (\<lambda>d'. Inr (i, d'))
     | None \<Rightarrow> bindE (base_update cv dumps str_of data c) (\<lambda>c'.
         bindE (base_commit deploy_refs i c' d) (\<lambda>d'. Inr (ch_id c', d'))))"

definition finish_edit :: "pyval \<Rightarrow> string \<Rightarrow> int \<times> db \<Rightarrow> edited \<times> db" where
  "finish_edit requested_state earlier r = (case r of (i, d) \<Rightarrow>
     let c = the (challenge_by_id d i);
         d' = d\<lparr>challenges := after_update requested_state earlier c (challenges d)\<rparr> in
     (Edited (the (challenge_by_id d' i)), d'))"

text \<open>The exceptions that become an answer: scoring errors, and with the flag validation errors.\<close>

definition answering :: "db \<Rightarrow> bool \<Rightarrow> py_exc + 'a \<Rightarrow> ('a \<Rightarrow> py_exc + edited \<times> db) \<Rightarrow> py_exc + edited \<times> db" where
  "answering d validation r f = (case r of
      Inr a \<Rightarrow> f a
    | Inl (ScoringValidationError m e) \<Rightarrow> Inr (EditDenied 400 m, d)
    | Inl (ValidationError m fs) \<Rightarrow> if validation then Inr (EditDenied 400 m, d) else Inl (ValidationError m fs)
    | Inl e \<Rightarrow> Inl e)"

lemma answering_Inr:
  "answering d v r f = Inr (e, d') \<Longrightarrow> (\<exists>a. r = Inr a \<and> f a = Inr (e, d')) \<or> d' = d \<and> (\<exists>n m. e = EditDenied n m)"
  by (auto simp: answering_def split: sum.splits py_exc.splits if_splits)

definition edit_class ::
  "converters \<Rightarrow> (dict \<Rightarrow> string) \<Rightarrow> (pyval \<Rightarrow> string) \<Rightarrow> string list \<Rightarrow> int list \<Rightarrow> config \<Rightarrow> dict \<Rightarrow> challenge \<Rightarrow> db \<Rightarrow>
     py_exc + edited \<times> db" where
  "edit_class cv dumps str_of classes deploy_refs conf data ch d =
     (let i = ch_id ch; radio = dget data ''scoring-type-radio'' in
      if radio \<notin> {PNone, PStr ''standard'', PStr ''dynamic''} then Inr (EditDenied 400 ''type'', d)
      else if \<not> type_change_ok data ch then Inr (EditDenied 400 ''type'', d)
      else if challenge_type ch \<notin> set classes \<or> challenge_type ch = ''dynamic'' \<and> dynamic_by_id d i = None
      then Inr (EditDenied 400 ''type'', d)
      else if challenge_type ch \<notin> {''standard'', ''dynamic''} then Inl (RuntimeError ''class of a plugin'')
      else bindE (lock_challenge d i) (\<lambda>(ch, row).
        let wants = (if truthy radio then radio = PStr ''dynamic'' else challenge_type ch = ''dynamic'') in
        answering d False (if wants then bindE (dynamic_config data (case row of None \<Rightarrow> [] | Some r \<Rightarrow> dyn_attrs r)) (\<lambda>g. Inr (Some g))
              else Inr None) (\<lambda>g.
        answering d True (class_update cv dumps str_of deploy_refs conf data i (convert radio ch g d)) (\<lambda>r.
        Inr (finish_edit (dget data ''state'') (ch_state ch) r)))))"

definition challenge_patch ::
  "converters \<Rightarrow> (dict \<Rightarrow> string) \<Rightarrow> (pyval \<Rightarrow> string) \<Rightarrow> (bool \<Rightarrow> dict \<Rightarrow> py_exc + unit) \<Rightarrow> string list \<Rightarrow> string list \<Rightarrow>
     int list \<Rightarrow> ctx \<Rightarrow> int \<Rightarrow> pyval \<Rightarrow> py_exc + edited \<times> db" where
  "challenge_patch cv dumps str_of rest classes flag_classes deploy_refs c i body =
     (let d = cx_db c in case body of
      PDict data0 \<Rightarrow> (case se_id (cx_session c) of None \<Rightarrow> Inl KeyError | Some me \<Rightarrow>
        denied_by (challenge_load rest classes flag_classes d True (put ''user_id'' (PInt me) (normalise_difficulty data0)))
          (\<lambda>m. Inr (EditDenied 400 m, d)) Inl (\<lambda>data1.
        bindE (first_or_404 (challenge_by_id d i)) (\<lambda>ch.
        case user_by_id d me of
          None \<Rightarrow> Inl AttributeError
        | Some u \<Rightarrow>
            if \<not> may_edit u ch then Inr (EditDenied 403 ''user'', d)
            else edit_class cv dumps str_of classes deploy_refs (cx_conf c) (put ''user_id'' (PInt (ch_user_id ch)) data1) ch d)))
    | _ \<Rightarrow> Inr (EditDenied 400 ''_schema'', d))"

text \<open>The histories of the challenge are deleted first, so no key holds the challenge back.\<close>

definition challenge_delete :: "string list \<Rightarrow> int list \<Rightarrow> int \<Rightarrow> db \<Rightarrow> py_exc + (edited option \<times> int list) \<times> db" where
  "challenge_delete classes deploy_refs i d =
     bindE (first_or_404 (challenge_by_id d i)) (\<lambda>ch.
     if challenge_type ch \<notin> set classes \<or> challenge_type ch = ''dynamic'' \<and> dynamic_by_id d i = None
     then Inr ((Some (EditDenied 400 ''type''), deploy_refs), d)
     else let refs = filter (\<lambda>j. j \<noteq> i) deploy_refs in
       case delete_challenge refs i d of
         (None, d') \<Rightarrow> Inr ((None, refs), d')
       | (Some e, d') \<Rightarrow> Inl e)"

section \<open>Attributes that stay\<close>

lemma Inr_store: "Inr c' = store r f \<longleftrightarrow> (\<exists>v. r = Inr v \<and> c' = f v)"
  by (cases r) (auto simp: store_def)

lemma columns_keep_type:
  "(k, Inr c') \<in> set (challenge_columns cv v c) \<Longrightarrow> ch_type c' = ch_type c"
  unfolding challenge_columns_def by (auto simp: Inr_store)

lemma columns_keep_id:
  "(k, Inr c') \<in> set (challenge_columns cv v c) \<Longrightarrow> k \<noteq> ''id'' \<Longrightarrow> ch_id c' = ch_id c"
  unfolding challenge_columns_def by (auto simp: Inr_store)

lemma columns_keep_author:
  "(k, Inr c') \<in> set (challenge_columns cv v c) \<Longrightarrow> k \<noteq> ''user_id'' \<Longrightarrow> ch_user_id c' = ch_user_id c"
  unfolding challenge_columns_def by (auto simp: Inr_store)

lemma set_attr_cases:
  assumes "set_attr cv k v c = Inr c'" shows "c' = c \<or> (k, Inr c') \<in> set (challenge_columns cv v c)"
proof (cases "map_of (challenge_columns cv v c) k")
  case None
  then show ?thesis using assms unfolding set_attr_def by (simp split: if_split_asm)
next
  case (Some r)
  then show ?thesis using assms map_of_SomeD[OF Some] unfolding set_attr_def by simp
qed

lemma set_attr_type: "set_attr cv k v c = Inr c' \<Longrightarrow> ch_type c' = ch_type c"
  using set_attr_cases columns_keep_type by metis

lemma set_attr_id: "set_attr cv k v c = Inr c' \<Longrightarrow> k \<noteq> ''id'' \<Longrightarrow> ch_id c' = ch_id c"
  using set_attr_cases columns_keep_id by metis

lemma set_attrs_keep_type:
  assumes "set_attrs cv data c = Inr c'" shows "ch_type c' = ch_type c"
proof (rule foldE_invariant[OF assms[unfolded set_attrs_def], where P = "\<lambda>x. ch_type x = ch_type c"])
  fix s kv s' assume "ch_type s = ch_type c" "(case kv of (k, v) \<Rightarrow> if k = ''type'' then Inr s else set_attr cv k v s) = Inr s'"
  then show "ch_type s' = ch_type c" using set_attr_type[of cv "fst kv" "snd kv" s s'] by (simp add: case_prod_beta split: if_split_asm)
qed simp

lemma set_attrs_keep_id:
  assumes "set_attrs cv data c = Inr c'" "''id'' \<notin> fst ` set data" shows "ch_id c' = ch_id c"
proof (rule foldE_invariant[OF assms(1)[unfolded set_attrs_def], where P = "\<lambda>x. ch_id x = ch_id c"])
  fix s kv s' assume "ch_id s = ch_id c" "(case kv of (k, v) \<Rightarrow> if k = ''type'' then Inr s else set_attr cv k v s) = Inr s'"
    "kv \<in> set data"
  moreover have "fst kv \<noteq> ''id''" using assms(2) \<open>kv \<in> set data\<close> by (metis imageI)
  ultimately show "ch_id s' = ch_id c" using set_attr_id[of cv "fst kv" "snd kv" s s'] by (simp add: case_prod_beta split: if_split_asm)
qed simp

lemma set_port_keeps [simp]: "ch_type (set_port dumps str_of data c) = ch_type c" "ch_id (set_port dumps str_of data c) = ch_id c"
  by (simp_all add: set_port_def)

lemma base_update_type: "base_update cv dumps str_of data c = Inr c' \<Longrightarrow> ch_type c' = ch_type c"
  by (auto simp: base_update_def bindE_Inr_iff Let_def dest!: set_attrs_keep_type)

section \<open>What an edit changes\<close>

lemma challenge_by_id_update:
  "(\<And>c. ch_id c = i \<Longrightarrow> ch_id (f c) = i) \<Longrightarrow> j \<noteq> i \<Longrightarrow>
   first_where (\<lambda>c. ch_id c = j) (update_where (\<lambda>c. ch_id c = i) f cs) = first_where (\<lambda>c. ch_id c = j) cs"
  by (induction cs) (auto simp: update_where_def)

text \<open>
  An edit of a challenge leaves the accounts, the answers, the other challenges and their child
  rows, and leaves the challenge with a current value.
\<close>

definition edited_only :: "config \<Rightarrow> int \<Rightarrow> db \<Rightarrow> db \<Rightarrow> bool" where
  "edited_only conf i d d' \<longleftrightarrow> users d' = users d \<and> teams d' = teams d \<and> submissions d' = submissions d \<and> solve_rows d' = solve_rows d \<and>
     (\<forall>j. j \<noteq> i \<longrightarrow> dynamic_by_id d' j = dynamic_by_id d j) \<and>
     {r \<in> set (dynamic_rows d'). dy_id r \<noteq> i} \<subseteq> set (dynamic_rows d)"

lemma edited_only_counts:
  assumes "edited_only conf i d d'" shows "decay_value d' conf r = decay_value d conf r"
proof -
  have "solves d' = solves d" "counted_solve d' conf = counted_solve d conf"
    using assms by (auto simp: edited_only_def counted_solve_def fun_eq_iff intro!: solves_cong)
  then show ?thesis by (simp add: decay_value_def get_solve_count_def)
qed

lemma edited_values_current:
  assumes "values_current conf d" "edited_only conf i d d'"
    and others: "\<And>j. j \<noteq> i \<Longrightarrow> dynamic_by_id d' j \<noteq> None \<Longrightarrow> (\<exists>c. challenge_by_id d' j = Some c \<and> challenge_type c \<noteq> ''dynamic'') \<or>
      challenge_by_id d' j = challenge_by_id d j"
    and here: "\<And>r. r \<in> set (dynamic_rows d') \<Longrightarrow> dy_id r = i \<Longrightarrow> value_current conf d' r"
  shows "values_current conf d'"
proof -
  have "value_current conf d' r" if r: "r \<in> set (dynamic_rows d')" for r
  proof (cases "dy_id r = i")
    case False
    have e: "dynamic_by_id d' (dy_id r) = dynamic_by_id d (dy_id r)" "r \<in> set (dynamic_rows d)"
      using assms(2) r False by (auto simp: edited_only_def)
    then have old: "value_current conf d r" using assms(1) by (simp add: values_current_def list_all_iff)
    show ?thesis
    proof (cases "dynamic_by_id d' (dy_id r)")
      case None
      then show ?thesis by (simp add: value_current_def split: option.split)
    next
      case (Some x)
      then consider c where "challenge_by_id d' (dy_id r) = Some c" "challenge_type c \<noteq> ''dynamic''"
        | "challenge_by_id d' (dy_id r) = challenge_by_id d (dy_id r)"
        using others[OF False] by auto
      then show ?thesis
      proof cases
        case 1 then show ?thesis by (simp add: value_current_def)
      next
        case 2
        show ?thesis using old unfolding value_current_def e(1) 2 edited_only_counts[OF assms(2)] .
      qed
    qed
  qed (simp add: here r)
  then show ?thesis by (simp add: values_current_def list_all_iff)
qed

lemma edited_only_trans:
  "edited_only conf i d d1 \<Longrightarrow> edited_only conf i d1 d2 \<Longrightarrow> edited_only conf i d d2"
  unfolding edited_only_def by auto

lemma dynamic_by_id_update:
  assumes "j \<noteq> dy_id r"
  shows "first_where (\<lambda>x. dy_id x = j) (update_where (\<lambda>x. dy_id x = dy_id r) (\<lambda>_. r) rs) = first_where (\<lambda>x. dy_id x = j) rs"
  using assms by (induction rs) (auto simp: update_where_def)

lemma put_challenge_same: "challenge_by_id d i \<noteq> None \<Longrightarrow> ch_id c = i \<Longrightarrow> challenge_by_id (put_challenge i c d) i = Some c"
proof -
  have "first_where (\<lambda>x. ch_id x = i) cs \<noteq> None \<Longrightarrow> ch_id c = i \<Longrightarrow>
    first_where (\<lambda>x. ch_id x = i) (update_where (\<lambda>x. ch_id x = i) (\<lambda>_. c) cs) = Some c" for cs
    by (induction cs) (auto simp: update_where_def)
  then show "challenge_by_id d i \<noteq> None \<Longrightarrow> ch_id c = i \<Longrightarrow> ?thesis" by (simp add: challenge_by_id_def put_challenge_def)
qed

lemma put_challenge_cases:
  "challenge_by_id (put_challenge i c d) j = Some c \<or> (if j = i then challenge_by_id (put_challenge i c d) j = None
     else challenge_by_id (put_challenge i c d) j = challenge_by_id d j)"
proof -
  have "first_where (\<lambda>x. ch_id x = j) (update_where (\<lambda>x. ch_id x = i) (\<lambda>_. c) cs) = Some c \<or>
    first_where (\<lambda>x. ch_id x = j) (update_where (\<lambda>x. ch_id x = i) (\<lambda>_. c) cs) =
      (if j = i then None else first_where (\<lambda>x. ch_id x = j) cs)" for cs
    by (induction cs) (auto simp: update_where_def)
  from this[of "challenges d"] show ?thesis by (auto simp: challenge_by_id_def put_challenge_def)
qed

lemma put_challenge_frame [simp]:
  "users (put_challenge i c d) = users d" "teams (put_challenge i c d) = teams d"
  "submissions (put_challenge i c d) = submissions d" "solve_rows (put_challenge i c d) = solve_rows d"
  "dynamic_rows (put_challenge i c d) = dynamic_rows d"
  by (simp_all add: put_challenge_def)

lemma put_row_frame [simp]:
  "users (put_row r d) = users d" "teams (put_row r d) = teams d" "submissions (put_row r d) = submissions d"
  "solve_rows (put_row r d) = solve_rows d" "challenges (put_row r d) = challenges d"
  by (simp_all add: put_row_def)

lemma dynamic_update_edits:
  assumes "dynamic_update cv conf data c r d = Inr d'" "challenge_by_id d i = Some c" "dynamic_by_id d i = Some r"
  shows "edited_only conf i d d'" "\<And>j. j \<noteq> i \<Longrightarrow> challenge_by_id d' j = challenge_by_id d j"
    "\<And>x. x \<in> set (dynamic_rows d') \<Longrightarrow> dy_id x = i \<Longrightarrow> value_current conf d' x"
proof -
  have ci: "ch_id c = i" using assms(2) by (auto simp: challenge_by_id_def dest: first_where_SomeD)
  obtain g c' where c': "ch_id c' = i" and v: "calculate_value (put_row (row_of_config i g) (put_challenge i c' d)) conf (row_of_config i g) = Inr d'"
    using assms(1) ci by (auto simp: dynamic_update_def bindE_Inr_iff Let_def split: if_split_asm)
  let ?r = "row_of_config i g" and ?d = "put_row (row_of_config i g) (put_challenge i c' d)"
  have ri: "dy_id ?r = i" by (simp add: row_of_config_def)
  obtain n where n: "decay_value ?d conf ?r = Inr n" "d' = set_value i n ?d"
    using v ri by (auto simp: calculate_value_def bindE_Inr_iff monad_simps split: if_split_asm)
  have chs: "challenge_by_id ?d j = challenge_by_id (put_challenge i c' d) j" for j by (simp add: challenge_by_id_def)
  show "edited_only conf i d d'"
    unfolding edited_only_def n(2) using ri
    by (auto simp: put_row_def dynamic_by_id_def dynamic_by_id_update[where r = ?r, unfolded ri] table_simps)
  show "challenge_by_id d' j = challenge_by_id d j" if "j \<noteq> i" for j
    using that challenge_by_id_update[where f = "\<lambda>_. c'" and i = i] c'
    by (simp add: n(2) challenge_by_id_set_value_other chs) (simp add: challenge_by_id_def put_challenge_def)
  show "value_current conf d' x" if "x \<in> set (dynamic_rows d')" "dy_id x = i" for x
  proof -
    have x: "x = ?r" using that ri by (auto simp: n(2) put_row_def table_simps)
    have "challenge_by_id d' i = Some (c'\<lparr>ch_value := Some n\<rparr>)"
      using put_challenge_same[of d i c'] assms(2) c' by (simp add: n(2) challenge_by_id_set_value chs)
    then show ?thesis using n(1) by (simp add: x value_current_def ri n(2))
  qed
qed

lemma base_update_edits:
  assumes "base_update cv dumps str_of data c = Inr c'" "base_commit refs i c' d = Inr d'"
    and "challenge_by_id d i = Some c" "challenge_type c \<noteq> ''dynamic''"
  shows "edited_only conf i d d'"
    "\<And>j. j \<noteq> i \<Longrightarrow> (\<exists>c. challenge_by_id d' j = Some c \<and> challenge_type c \<noteq> ''dynamic'') \<or> challenge_by_id d' j = challenge_by_id d j"
    "\<And>x. dy_id x = i \<Longrightarrow> value_current conf d' x"
proof -
  have d': "d' = put_challenge i c' d" using assms(2) by (simp add: base_commit_def split: if_split_asm)
  have t: "challenge_type c' \<noteq> ''dynamic''" using base_update_type[OF assms(1)] assms(4) by (simp add: challenge_type_def)
  show "edited_only conf i d d'" by (auto simp: edited_only_def d' dynamic_by_id_def)
  show "(\<exists>c. challenge_by_id d' j = Some c \<and> challenge_type c \<noteq> ''dynamic'') \<or> challenge_by_id d' j = challenge_by_id d j"
    if "j \<noteq> i" for j
    using put_challenge_cases[of i c' d j] that t by (auto simp: d')
  show "value_current conf d' x" if "dy_id x = i" for x
    using put_challenge_cases[of i c' d i] t that by (auto simp: value_current_def d')
qed

lemma converted_edits:
  "edited_only conf (ch_id c) d (convert radio c g d)"
  "j \<noteq> ch_id c \<Longrightarrow> challenge_by_id (convert radio c g d) j = challenge_by_id d j"
proof -
  have ins: "first_where (\<lambda>r. dy_id r = j) (insort_key dy_id y rs) = first_where (\<lambda>r. dy_id r = j) rs" if "j \<noteq> dy_id y" for j y rs
    using that by (induction rs) auto
  have del: "first_where (\<lambda>r. dy_id r = j) (delete_where (\<lambda>r. dy_id r = i) rs) = first_where (\<lambda>r. dy_id r = j) rs" if "j \<noteq> i" for i j rs
    using that by (induction rs) (auto simp: delete_where_def)
  show "edited_only conf (ch_id c) d (convert radio c g d)"
    by (auto simp: edited_only_def convert_def set_type_def dynamic_by_id_def ins del row_of_config_def set_insort_key table_simps)
  show "j \<noteq> ch_id c \<Longrightarrow> challenge_by_id (convert radio c g d) j = challenge_by_id d j"
    by (simp add: convert_def set_type_def challenge_by_id_def challenge_by_id_update)
qed

text \<open>Hiding changes nothing the values depend on.\<close>

definition scored :: "challenge \<Rightarrow> int \<times> string option \<times> int option \<times> int" where
  "scored c = (ch_id c, ch_type c, ch_value c, ch_user_id c)"

lemma scored_found:
  "map scored cs' = map scored cs \<Longrightarrow>
   map_option scored (first_where (\<lambda>c. ch_id c = i) cs') = map_option scored (first_where (\<lambda>c. ch_id c = i) cs)"
proof (induction cs arbitrary: cs')
  case (Cons c cs)
  show ?case
  proof (cases cs')
    case c': (Cons x xs)
    then show ?thesis using Cons.prems Cons.IH[of xs] by (simp add: scored_def)
  qed (use Cons.prems in simp)
qed simp

lemma hidden_by_scored [simp]: "map scored (hidden_by cs ids) = map scored cs"
  by (auto simp: hidden_by_def scored_def)

lemma after_update_scored: "map scored (after_update st earlier c cs) = map scored cs"
proof -
  have "map scored (cc_challenges (cascade_hide_dependents i xs)) = map scored xs" for i xs
    using cascade_hide_inv(1)[of i xs] by (simp add: cascade_inv_def)
  moreover have "map scored (hide_challenge i xs) = map scored xs" for i xs
    by (auto simp: hide_challenge_def update_where_def scored_def)
  ultimately show ?thesis by (simp add: after_update_def)
qed

lemma values_current_scored:
  assumes "map scored (challenges d') = map scored (challenges d)" "dynamic_rows d' = dynamic_rows d"
    and "users d' = users d" "teams d' = teams d" "submissions d' = submissions d" "solve_rows d' = solve_rows d"
  shows "values_current conf d' = values_current conf d"
proof -
  have "edited_only conf 0 d d'" using assms(2-6) by (auto simp: edited_only_def dynamic_by_id_def)
  note dv = edited_only_counts[OF this]
  have "map_option scored (challenge_by_id d' i) = map_option scored (challenge_by_id d i)" for i
    using scored_found[OF assms(1)] by (simp add: challenge_by_id_def)
  note same = this
  have "value_current conf d' r = value_current conf d r" for r
    using same[of "dy_id r"]
    by (cases "challenge_by_id d' (dy_id r)"; cases "challenge_by_id d (dy_id r)")
      (simp_all add: value_current_def scored_def challenge_type_def dv dynamic_by_id_def assms(2))
  then have "value_current conf d' = value_current conf d" by (rule ext)
  then show ?thesis by (simp add: values_current_def assms(2))
qed

text \<open>The edit as a whole: refused without effect, or the class's update followed by the hiding.\<close>

lemma edit_class_cases:
  assumes "edit_class cv dumps str_of classes refs conf data ch d = Inr (e, d')" "challenge_by_id d (ch_id ch) = Some ch"
  obtains "d' = d" "\<exists>n m. e = EditDenied n m"
  | g j d1 where "class_update cv dumps str_of refs conf data (ch_id ch) (convert (dget data ''scoring-type-radio'') ch g d) = Inr (j, d1)"
      "(e, d') = finish_edit (dget data ''state'') (ch_state ch) (j, d1)"
proof (cases "lock_challenge d (ch_id ch)")
  case (Inl x)
  then show ?thesis using assms that(1) unfolding edit_class_def Let_def by (auto split: if_split_asm)
next
  case (Inr cr)
  obtain c row where cr: "cr = (c, row)" by (cases cr)
  then have l: "lock_challenge d (ch_id ch) = Inr (ch, row)"
    using Inr assms(2) lock_challengeD(1)[of d "ch_id ch" c row] by simp
  let ?r = "\<lambda>g. class_update cv dumps str_of refs conf data (ch_id ch) (convert (dget data ''scoring-type-radio'') ch g d)"
  consider "d' = d" "\<exists>n m. e = EditDenied n m" | r where "answering d False r (\<lambda>g. answering d True (?r g)
      (\<lambda>r. Inr (finish_edit (dget data ''state'') (ch_state ch) r))) = Inr (e, d')"
    using assms(1) l unfolding edit_class_def Let_def by (simp split: if_split_asm) blast+
  then show ?thesis
  proof cases
    case (2 r)
    then consider "d' = d" "\<exists>n m. e = EditDenied n m" | g x where "?r g = Inr x" "finish_edit (dget data ''state'') (ch_state ch) x = (e, d')"
      by (fastforce dest!: answering_Inr)
    then show ?thesis
    proof cases
      case (2 g x)
      then show ?thesis using that(2)[of g "fst x" "snd x"] by simp
    qed (rule that(1))
  qed (rule that(1))
qed

lemma class_update_edits:
  assumes "class_update cv dumps str_of refs conf data i d = Inr (j, d')"
  shows "edited_only conf i d d'"
    "\<And>k. k \<noteq> i \<Longrightarrow> (\<exists>c. challenge_by_id d' k = Some c \<and> challenge_type c \<noteq> ''dynamic'') \<or> challenge_by_id d' k = challenge_by_id d k"
    "\<And>x. x \<in> set (dynamic_rows d') \<Longrightarrow> dy_id x = i \<Longrightarrow> value_current conf d' x"
proof -
  obtain c row where l: "lock_challenge d i = Inr (c, row)"
    using assms by (auto simp: class_update_def bindE_Inr_iff)
  note L = lock_challengeD[OF l]
  have "edited_only conf i d d' \<and>
    (\<forall>k. k \<noteq> i \<longrightarrow> (\<exists>c. challenge_by_id d' k = Some c \<and> challenge_type c \<noteq> ''dynamic'') \<or> challenge_by_id d' k = challenge_by_id d k) \<and>
    (\<forall>x. x \<in> set (dynamic_rows d') \<longrightarrow> dy_id x = i \<longrightarrow> value_current conf d' x)"
  proof (cases row)
    case (Some r)
    then have "dynamic_update cv conf data c r d = Inr d'" using assms l by (auto simp: class_update_def bindE_Inr_iff)
    moreover have "dynamic_by_id d i = Some r" using L(2) Some by (simp split: if_split_asm)
    ultimately show ?thesis using dynamic_update_edits L(1) by metis
  next
    case None
    then obtain c' where "base_update cv dumps str_of data c = Inr c'" "base_commit refs i c' d = Inr d'"
      using assms l by (auto simp: class_update_def bindE_Inr_iff)
    moreover have "challenge_type c \<noteq> ''dynamic''"
      using l None L(1) by (auto simp: lock_challenge_def first_or_404_def bindE_Inr_iff)
    ultimately show ?thesis using base_update_edits L(1) by metis
  qed
  then show "edited_only conf i d d'"
    "\<And>k. k \<noteq> i \<Longrightarrow> (\<exists>c. challenge_by_id d' k = Some c \<and> challenge_type c \<noteq> ''dynamic'') \<or> challenge_by_id d' k = challenge_by_id d k"
    "\<And>x. x \<in> set (dynamic_rows d') \<Longrightarrow> dy_id x = i \<Longrightarrow> value_current conf d' x"
    by blast+
qed

text \<open>What a request to edit leads to: an answer without effect, or the edit of a challenge by someone who may.\<close>

lemma challenge_patch_cases:
  assumes "challenge_patch cv dumps str_of rest classes flag_classes refs c i body = Inr (e, d')"
  obtains "d' = cx_db c" "\<exists>n m. e = EditDenied n m"
  | u ch data where "se_id (cx_session c) = Some (us_id u)" "user_by_id (cx_db c) (us_id u) = Some u"
      "challenge_by_id (cx_db c) i = Some ch" "may_edit u ch"
      "edit_class cv dumps str_of classes refs (cx_conf c) (put ''user_id'' (PInt (ch_user_id ch)) data) ch (cx_db c) = Inr (e, d')"
proof (cases body)
  case (PDict data0)
  obtain me where me: "se_id (cx_session c) = Some me"
    using assms PDict by (auto simp: challenge_patch_def Let_def split: option.splits)
  let ?l = "challenge_load rest classes flag_classes (cx_db c) True (put ''user_id'' (PInt me) (normalise_difficulty data0))"
  show ?thesis
  proof (cases ?l)
    case (Inl x)
    then show ?thesis using assms me PDict that(1) by (cases x) (auto simp: challenge_patch_def denied_by_def Let_def)
  next
    case (Inr data1)
    then obtain ch where ch: "challenge_by_id (cx_db c) i = Some ch"
      using assms me PDict by (auto simp: challenge_patch_def denied_by_def Let_def bindE_Inr_iff first_or_404_def split: option.splits)
    then obtain u where u: "user_by_id (cx_db c) me = Some u"
      using assms me PDict Inr by (auto simp: challenge_patch_def denied_by_def Let_def first_or_404_def split: option.splits)
    then have "us_id u = me" by (auto simp: user_by_id_def dest: first_where_SomeD)
    then show ?thesis
      using assms me PDict Inr ch u that
      by (auto simp: challenge_patch_def denied_by_def Let_def first_or_404_def split: if_split_asm)
  qed
qed (use assms that(1) in \<open>auto simp: challenge_patch_def Let_def\<close>)

text \<open>
  Property C8: only an administrator, or the challenge writer who is its author, changes a
  challenge: any other request leaves the database as it was.
\<close>

theorem challenge_edit_authorised:
  assumes "challenge_patch cv dumps str_of rest classes flag_classes refs c i body = Inr (e, d')" "d' \<noteq> cx_db c"
  shows "\<exists>u ch. se_id (cx_session c) = Some (us_id u) \<and> user_by_id (cx_db c) (us_id u) = Some u \<and>
    challenge_by_id (cx_db c) i = Some ch \<and>
    (us_type u = Some ''admin'' \<or> us_type u = Some ''challenge_writer'' \<and> ch_user_id ch = us_id u)"
  using assms by (auto elim!: challenge_patch_cases simp: may_edit_def)

text \<open>
  Also proved: editing a challenge, its conversion between the two classes included, leaves every
  answer, solve and account as it was, and the stored value of every dynamic challenge is the
  one its decay function gives.
\<close>

theorem challenge_edit_keeps_scores:
  assumes "challenge_patch cv dumps str_of rest classes flag_classes refs c i body = Inr (e, d')"
    and "values_current (cx_conf c) (cx_db c)"
  shows "values_current (cx_conf c) d' \<and> submissions d' = submissions (cx_db c) \<and> solve_rows d' = solve_rows (cx_db c) \<and>
    users d' = users (cx_db c) \<and> teams d' = teams (cx_db c)"
  using assms(1)
proof (cases rule: challenge_patch_cases)
  case (2 u ch data)
  have ci: "ch_id ch = i" using 2(3) by (auto simp: challenge_by_id_def dest: first_where_SomeD)
  have "challenge_by_id (cx_db c) (ch_id ch) = Some ch" using 2(3) ci by simp
  with 2(5) show ?thesis
  proof (cases rule: edit_class_cases)
    case (2 g j d1)
    let ?d0 = "convert (dget (put ''user_id'' (PInt (ch_user_id ch)) data) ''scoring-type-radio'') ch g (cx_db c)"
    note cu = class_update_edits[OF 2(1)] and co = converted_edits(1)[where conf = "cx_conf c"] converted_edits(2)
    have only: "edited_only (cx_conf c) i (cx_db c) d1"
      by (rule edited_only_trans[OF co(1)[of ch, unfolded ci] cu(1)[unfolded ci]])
    have "values_current (cx_conf c) d1"
    proof (rule edited_values_current[OF assms(2) only])
      fix k assume "k \<noteq> i"
      then show "(\<exists>c. challenge_by_id d1 k = Some c \<and> challenge_type c \<noteq> ''dynamic'') \<or> challenge_by_id d1 k = challenge_by_id (cx_db c) k"
        using cu(2)[of k] co(2)[of k] ci by auto
    next
      fix r assume "r \<in> set (dynamic_rows d1)" "dy_id r = i"
      then show "value_current (cx_conf c) d1 r" using cu(3) ci by simp
    qed
    moreover have "d' = d1\<lparr>challenges := after_update (dget (put ''user_id'' (PInt (ch_user_id ch)) data) ''state'') (ch_state ch)
        (the (challenge_by_id d1 j)) (challenges d1)\<rparr>"
      using 2(2) by (simp add: finish_edit_def Let_def)
    ultimately show ?thesis
      using values_current_scored[of d' d1 "cx_conf c"] only after_update_scored by (simp add: edited_only_def)
  qed (use assms(2) in auto)
qed (use assms(2) in simp)

section \<open>Types and child rows\<close>

text \<open>
  Challenges have distinct ids, and exactly the dynamic ones have a row in the child table.
\<close>

definition kind_of :: "challenge \<Rightarrow> int \<times> bool" where
  "kind_of c = (ch_id c, challenge_type c = ''dynamic'')"

definition types_ok :: "db \<Rightarrow> bool" where
  "types_ok d = (distinct (map ch_id (challenges d)) \<and> distinct (map dy_id (dynamic_rows d)) \<and>
     set (map dy_id (dynamic_rows d)) = fst ` {k \<in> set (map kind_of (challenges d)). snd k})"

lemma types_ok_kinds:
  "types_ok d = (distinct (map fst (map kind_of (challenges d))) \<and> distinct (map dy_id (dynamic_rows d)) \<and>
     set (map dy_id (dynamic_rows d)) = fst ` {k \<in> set (map kind_of (challenges d)). snd k})"
  by (simp add: types_ok_def kind_of_def comp_def)

lemma types_ok_same:
  assumes "map kind_of (challenges d') = map kind_of (challenges d)" "map dy_id (dynamic_rows d') = map dy_id (dynamic_rows d)"
  shows "types_ok d' = types_ok d"
  unfolding types_ok_kinds assms ..

text \<open>Replacing the entry of one id in an association list with distinct keys.\<close>

definition rekind :: "int \<Rightarrow> int \<times> bool \<Rightarrow> (int \<times> bool) list \<Rightarrow> (int \<times> bool) list" where
  "rekind i k ks = map (\<lambda>x. if fst x = i then k else x) ks"

lemma rekind_distinct:
  assumes "distinct (map fst ks)" "fst k = i \<or> fst k \<notin> fst ` set ks" shows "distinct (map fst (rekind i k ks))"
proof -
  have "map fst (rekind i k ks) = map (\<lambda>j. if j = i then fst k else j) (map fst ks)" by (simp add: rekind_def)
  moreover have "inj_on (\<lambda>j. if j = i then fst k else j) (set (map fst ks))"
    using assms(2) by (auto simp: inj_on_def) (metis fst_conv imageI)+
  ultimately show ?thesis using assms(1) by (simp only: distinct_map)
qed

lemma unique_entry:
  assumes "distinct (map fst ks)" "(i, b) \<in> set ks" "x \<in> set ks" shows "fst x = i \<longleftrightarrow> x = (i, b)"
  using assms by (cases x) (auto dest: eq_key_imp_eq_value)

lemma rekind_set:
  assumes "distinct (map fst ks)" "(i, b) \<in> set ks" shows "set (rekind i k ks) = insert k (set ks - {(i, b)})"
proof -
  have "set (rekind i k ks) = (\<lambda>x. if x = (i, b) then k else x) ` set ks"
    unfolding rekind_def set_map by (rule image_cong) (use unique_entry[OF assms] in auto)
  then show ?thesis using assms(2) by auto
qed

text \<open>The entries that are true, after the entry of an id has changed.\<close>

lemma rekind_true:
  assumes "distinct (map fst ks)" "(i, b) \<in> set ks"
  shows "fst ` {x \<in> set (rekind i (j, b') ks). snd x} = (fst ` {x \<in> set ks. snd x} - {i}) \<union> (if b' then {j} else {})"
proof -
  have "{x \<in> set (rekind i (j, b') ks). snd x} = {x \<in> set ks. snd x \<and> fst x \<noteq> i} \<union> (if b' then {(j, True)} else {})"
    using unique_entry[OF assms] unfolding rekind_set[OF assms] by auto
  then show ?thesis by (auto split: if_splits)
qed

lemma put_challenge_kinds:
  "map kind_of (challenges (put_challenge i c d)) = rekind i (kind_of c) (map kind_of (challenges d))"
  by (auto simp: put_challenge_def update_where_def rekind_def kind_of_def)

lemma set_type_kinds:
  "map kind_of (challenges (set_type i t d)) = rekind i (i, t = ''dynamic'') (map kind_of (challenges d))"
  by (auto simp: set_type_def update_where_def rekind_def kind_of_def challenge_type_def)

lemma set_value_kinds: "map kind_of (challenges (set_value i v d)) = map kind_of (challenges d)"
  by (auto simp: set_value_def update_where_def kind_of_def challenge_type_def)

lemma found_kind: "challenge_by_id d i = Some c \<Longrightarrow> (i, challenge_type c = ''dynamic'') \<in> set (map kind_of (challenges d))"
  by (force simp: challenge_by_id_def kind_of_def dest: first_where_SomeD)

lemma put_challenge_types:
  assumes "types_ok d" "challenge_by_id d i = Some c" "challenge_type c' = challenge_type c"
    and "ch_id c' = i \<or> ch_id c' \<notin> ch_id ` set (challenges d) \<and> challenge_type c \<noteq> ''dynamic''"
  shows "types_ok (put_challenge i c' d)"
proof -
  let ?ks = "map kind_of (challenges d)" and ?b = "challenge_type c = ''dynamic''"
  have k: "kind_of c' = (ch_id c', ?b)" by (simp add: kind_of_def assms(3))
  have ids: "fst ` set ?ks = ch_id ` set (challenges d)" by (force simp: kind_of_def)
  note t = assms(1)[unfolded types_ok_kinds] and f = found_kind[OF assms(2)]
  have "distinct (map fst (rekind i (kind_of c') ?ks))"
    by (rule rekind_distinct) (use t assms(4) in \<open>unfold k ids, auto\<close>)
  moreover have "fst ` {x \<in> set (rekind i (kind_of c') ?ks). snd x} = fst ` {x \<in> set ?ks. snd x}"
  proof -
    have d: "distinct (map fst ?ks)" using t by blast
    have "?b \<longleftrightarrow> i \<in> fst ` {x \<in> set ?ks. snd x}"
      using f eq_key_imp_eq_value[OF d f, of True] by (auto simp: image_iff simp del: set_map)
    then show ?thesis using assms(4) unfolding k rekind_true[OF d f] by (auto simp del: set_map)
  qed
  ultimately show ?thesis using t by (simp only: types_ok_kinds put_challenge_kinds put_challenge_frame)
qed

lemma set_type_rows:
  assumes "types_ok d" "(i, b) \<in> set (map kind_of (challenges d))"
    and "distinct (map dy_id rs)" "set (map dy_id rs) = set (map dy_id (dynamic_rows d)) - {i} \<union> (if t = ''dynamic'' then {i} else {})"
  shows "types_ok (set_type i t (d\<lparr>dynamic_rows := rs\<rparr>))"
proof -
  let ?ks = "map kind_of (challenges d)"
  note t = assms(1)[unfolded types_ok_kinds]
  then have d: "distinct (map fst ?ks)" by blast
  have "distinct (map fst (rekind i (i, t = ''dynamic'') ?ks))" by (rule rekind_distinct[OF d]) simp
  moreover have "fst ` {x \<in> set (rekind i (i, t = ''dynamic'') ?ks). snd x} = set (map dy_id rs)"
    using t unfolding rekind_true[OF d assms(2)] assms(4) by argo
  moreover have "map kind_of (challenges (set_type i t (d\<lparr>dynamic_rows := rs\<rparr>))) = rekind i (i, t = ''dynamic'') ?ks"
    by (simp add: set_type_kinds del: map_map)
  moreover have "dynamic_rows (set_type i t (d\<lparr>dynamic_rows := rs\<rparr>)) = rs" by (simp add: set_type_def)
  ultimately show ?thesis using assms(3) by (simp only: types_ok_kinds)
qed

lemma convert_types:
  assumes "types_ok d" "challenge_by_id d (ch_id c) = Some c" shows "types_ok (convert radio c g d)"
proof -
  note k = found_kind[OF assms(2)]
  have rows: "distinct (map dy_id (dynamic_rows d))" "set (map dy_id (dynamic_rows d)) = fst ` {k \<in> set (map kind_of (challenges d)). snd k}"
    "distinct (map fst (map kind_of (challenges d)))"
    using assms(1)[unfolded types_ok_kinds] by blast+
  consider "challenge_type c = ''dynamic''" "convert radio c g d =
      set_type (ch_id c) ''standard'' (d\<lparr>dynamic_rows := delete_where (\<lambda>r. dy_id r = ch_id c) (dynamic_rows d)\<rparr>)"
    | "challenge_type c = ''standard''" "convert radio c g d =
      set_type (ch_id c) ''dynamic'' (d\<lparr>dynamic_rows := insort_key dy_id (row_of_config (ch_id c) (the g)) (dynamic_rows d)\<rparr>)"
    | "convert radio c g d = d"
    unfolding convert_def by meson
  then show ?thesis
  proof cases
    case 1
    show ?thesis unfolding 1(2)
      by (rule set_type_rows[OF assms(1) k])
        (use rows(1) in \<open>auto simp: 1(1) distinct_delete_where table_simps\<close>)
  next
    case 2
    have d: "distinct (map fst (map kind_of (challenges d)))" using rows(3) .
    have "ch_id c \<notin> set (map dy_id (dynamic_rows d))"
      using eq_key_imp_eq_value[OF d k, of True] 2(1) unfolding rows(2) by (auto simp del: set_map)
    then show ?thesis unfolding 2(2)
      by (intro set_type_rows[OF assms(1) k])
        (use rows(1) in \<open>auto simp: 2(1) distinct_map_insort set_insort_key row_of_config_def\<close>)
  qed (simp add: assms(1))
qed

text \<open>The two updates.\<close>

lemma dynamic_update_types:
  assumes "dynamic_update cv conf data c r d = Inr d'" "challenge_by_id d i = Some c" "types_ok d"
  shows "types_ok d'"
proof -
  have ci: "ch_id c = i" using assms(2) by (auto simp: challenge_by_id_def dest: first_where_SomeD)
  obtain g data' c' where c': "ch_id c' = i" "set_attrs cv data' c = Inr c'"
    and v: "calculate_value (put_row (row_of_config i g) (put_challenge i c' d)) conf (row_of_config i g) = Inr d'"
    using assms(1) ci by (auto simp: dynamic_update_def bindE_Inr_iff Let_def split: if_split_asm)
  obtain n where n: "d' = set_value i n (put_row (row_of_config i g) (put_challenge i c' d))"
    using v by (auto simp: calculate_value_def bindE_Inr_iff monad_simps row_of_config_def split: if_split_asm)
  have "types_ok (put_challenge i c' d)"
    by (rule put_challenge_types[OF assms(3,2)]) (use c' set_attrs_keep_type in \<open>auto simp: challenge_type_def\<close>)
  moreover have "map dy_id (dynamic_rows d') = map dy_id (dynamic_rows (put_challenge i c' d))"
    by (auto simp: n put_row_def update_where_def)
  ultimately show ?thesis using types_ok_same[of d' "put_challenge i c' d"] by (simp add: n set_value_kinds del: map_map)
qed

lemma base_update_types:
  assumes "base_update cv dumps str_of data c = Inr c'" "base_commit refs i c' d = Inr d'"
    and "challenge_by_id d i = Some c" "challenge_type c \<noteq> ''dynamic''" "types_ok d"
  shows "types_ok d'"
proof -
  have d': "d' = put_challenge i c' d" "ch_id c' = i \<or> ch_id c' \<notin> ch_id ` set (challenges d)"
    using assms(2) by (auto simp: base_commit_def split: if_split_asm)
  show ?thesis unfolding d'(1)
    by (rule put_challenge_types[OF assms(5,3)])
      (use d'(2) assms(4) base_update_type[OF assms(1)] in \<open>auto simp: challenge_type_def\<close>)
qed

lemma class_update_types:
  assumes "class_update cv dumps str_of refs conf data i d = Inr (j, d')" "types_ok d" shows "types_ok d'"
proof -
  obtain c row where l: "lock_challenge d i = Inr (c, row)"
    using assms by (auto simp: class_update_def bindE_Inr_iff)
  note L = lock_challengeD[OF l]
  show ?thesis
  proof (cases row)
    case (Some r)
    then have "dynamic_update cv conf data c r d = Inr d'" using assms l by (auto simp: class_update_def bindE_Inr_iff)
    then show ?thesis using dynamic_update_types L(1) assms(2) by metis
  next
    case None
    then obtain c' where "base_update cv dumps str_of data c = Inr c'" "base_commit refs i c' d = Inr d'"
      using assms l by (auto simp: class_update_def bindE_Inr_iff)
    moreover have "challenge_type c \<noteq> ''dynamic''"
      using l None L(1) by (auto simp: lock_challenge_def first_or_404_def bindE_Inr_iff)
    ultimately show ?thesis using base_update_types L(1) assms(2) by metis
  qed
qed

text \<open>
  Property C9: the two-table storage of challenges stays consistent: after any edit, conversions
  and changes of the id included, ids are distinct and exactly the challenges of type
  \<open>dynamic\<close> have their one row in the table of the dynamic class.
\<close>

theorem challenge_types_consistent:
  assumes "challenge_patch cv dumps str_of rest classes flag_classes refs c i body = Inr (e, d')" "types_ok (cx_db c)"
  shows "types_ok d'"
  using assms(1)
proof (cases rule: challenge_patch_cases)
  case (2 u ch data)
  have ch: "challenge_by_id (cx_db c) (ch_id ch) = Some ch"
    using 2(3) by (auto simp: challenge_by_id_def dest: first_where_SomeD)
  with 2(5) show ?thesis
  proof (cases rule: edit_class_cases)
    case (2 g j d1)
    have d1: "types_ok d1" by (rule class_update_types[OF 2(1) convert_types[OF assms(2) ch]])
    have d': "d' = d1\<lparr>challenges := after_update (dget (put ''user_id'' (PInt (ch_user_id ch)) data) ''state'') (ch_state ch)
        (the (challenge_by_id d1 j)) (challenges d1)\<rparr>"
      using 2(2) by (simp add: finish_edit_def Let_def)
    have "kind_of = (\<lambda>(i, t, v). (i, process_result_value t = ''dynamic'')) \<circ> scored"
      by (auto simp: kind_of_def scored_def challenge_type_def)
    then have "map kind_of cs = map (\<lambda>(i, t, v). (i, process_result_value t = ''dynamic'')) (map scored cs)" for cs
      by (simp only: map_map)
    then have "map kind_of (challenges d') = map kind_of (challenges d1)" by (simp add: d' after_update_scored del: map_map)
    then show ?thesis using d1 types_ok_same[of d' d1] d' by simp
  qed (use assms(2) in auto)
qed (use assms(2) in simp)

section \<open>Witnesses\<close>

text \<open>An administrator makes a dynamic challenge a standard one.\<close>

definition sample_converters :: converters where
  "sample_converters = \<lparr>to_int = \<lambda>v. case v of PInt i \<Rightarrow> Inr (Some i) | PNone \<Rightarrow> Inr None | _ \<Rightarrow> Inl TypeError,
     to_text = \<lambda>v. case v of PStr s \<Rightarrow> Inr (Some s) | PNone \<Rightarrow> Inr None | _ \<Rightarrow> Inl TypeError,
     to_bool = \<lambda>v. case v of PBool b \<Rightarrow> Inr (Some b) | PNone \<Rightarrow> Inr None | _ \<Rightarrow> Inl TypeError,
     to_date = \<lambda>v. case v of PInt i \<Rightarrow> Inr (Some i) | PNone \<Rightarrow> Inr None | _ \<Rightarrow> Inl TypeError\<rparr>"

definition editor :: user where
  "editor = (sample_user 1 None)\<lparr>us_type := Some ''admin''\<rparr>"

definition dynamic_challenge :: challenge where
  "dynamic_challenge = (sample_challenge 3 (Some 500))\<lparr>ch_type := Some ''dynamic''\<rparr>"

definition edit_ctx :: ctx where
  "edit_ctx = (sample_ctx editor (Some 1) ''PATCH'' None)\<lparr>cx_db := empty_db\<lparr>users := [editor],
     challenges := [dynamic_challenge], dynamic_rows := [sample_dynamic]\<rparr>, cx_conf := grading_conf\<rparr>"

definition edit_data :: dict where
  "edit_data = [(''type'', PStr ''standard''), (''scoring-type-radio'', PStr ''standard'')]"

definition edited_db :: db where
  "edited_db = empty_db\<lparr>users := [editor], challenges := [sample_challenge 3 (Some 500)]\<rparr>"

definition edit_sample :: "py_exc + edited \<times> db" where
  "edit_sample = challenge_patch sample_converters (\<lambda>_. []) (\<lambda>_. []) (\<lambda>_ _. Inr ()) [''standard'', ''dynamic'']
     [''static''] [] edit_ctx 3 (PDict edit_data)"

lemma sample_load:
  "challenge_load (\<lambda>_ _. Inr ()) [''standard'', ''dynamic''] [''static''] (cx_db edit_ctx) True
     (put ''user_id'' (PInt 1) (normalise_difficulty edit_data)) = Inr (edit_data @ [(''user_id'', PInt 1)])"
  by code_simp

lemma sample_update:
  "base_update sample_converters (\<lambda>_. []) (\<lambda>_. []) (edit_data @ [(''user_id'', PInt 1)]) (sample_challenge 3 (Some 500)) =
     Inr (sample_challenge 3 (Some 500))"
proof -
  have "validate_score_fields (edit_data @ [(''user_id'', PInt 1)]) False = Inr ()"
    "normalise (edit_data @ [(''user_id'', PInt 1)]) = edit_data @ [(''user_id'', PInt 1)]"
    "set_attrs sample_converters (without_port (edit_data @ [(''user_id'', PInt 1)]))
       (set_port (\<lambda>_. []) (\<lambda>_. []) (edit_data @ [(''user_id'', PInt 1)]) (sample_challenge 3 (Some 500))) = Inr (sample_challenge 3 (Some 500))"
    "\<not> has_key (edit_data @ [(''user_id'', PInt 1)]) ''time_limit''"
    by code_simp+
  then show ?thesis by (simp add: base_update_def Let_def)
qed

lemma sample_class_update:
  "class_update sample_converters (\<lambda>_. []) (\<lambda>_. []) [] grading_conf (edit_data @ [(''user_id'', PInt 1)]) 3 edited_db =
     Inr (3, edited_db)"
proof -
  have "lock_challenge edited_db 3 = Inr (sample_challenge 3 (Some 500), None)"
    "base_commit [] 3 (sample_challenge 3 (Some 500)) edited_db = Inr edited_db"
    by code_simp+
  moreover have "ch_id (sample_challenge 3 (Some 500)) = 3" by (simp add: sample_challenge_def)
  ultimately show ?thesis by (simp add: class_update_def sample_update)
qed

lemma sample_edit_class:
  "edit_class sample_converters (\<lambda>_. []) (\<lambda>_. []) [''standard'', ''dynamic''] [] grading_conf
     (edit_data @ [(''user_id'', PInt 1)]) dynamic_challenge (cx_db edit_ctx) = Inr (Edited (sample_challenge 3 (Some 500)), edited_db)"
proof -
  have "ch_id dynamic_challenge = 3" "challenge_type dynamic_challenge = ''dynamic''"
    "dget (edit_data @ [(''user_id'', PInt 1)]) ''scoring-type-radio'' = PStr ''standard''"
    "type_change_ok (edit_data @ [(''user_id'', PInt 1)]) dynamic_challenge"
    "dynamic_by_id (cx_db edit_ctx) 3 = Some sample_dynamic"
    "lock_challenge (cx_db edit_ctx) 3 = Inr (dynamic_challenge, Some sample_dynamic)"
    "convert (PStr ''standard'') dynamic_challenge None (cx_db edit_ctx) = edited_db"
    "finish_edit PNone ''visible'' (3, edited_db) = (Edited (sample_challenge 3 (Some 500)), edited_db)"
    "dget (edit_data @ [(''user_id'', PInt 1)]) ''state'' = PNone" "ch_state dynamic_challenge = ''visible''"
    by code_simp+
  then show ?thesis by (simp add: edit_class_def Let_def answering_def sample_class_update)
qed

lemma edit_sample_result: "edit_sample = Inr (Edited (sample_challenge 3 (Some 500)), edited_db)"
proof -
  have "se_id (cx_session edit_ctx) = Some 1" "challenge_by_id (cx_db edit_ctx) 3 = Some dynamic_challenge"
    "user_by_id (cx_db edit_ctx) 1 = Some editor" "may_edit editor dynamic_challenge"
    "put ''user_id'' (PInt (ch_user_id dynamic_challenge)) (edit_data @ [(''user_id'', PInt 1)]) = edit_data @ [(''user_id'', PInt 1)]"
    by code_simp+
  moreover have "cx_conf edit_ctx = grading_conf" by (simp add: edit_ctx_def)
  ultimately show ?thesis
    by (simp add: edit_sample_def challenge_patch_def sample_load denied_by_def first_or_404_def sample_edit_class)
qed

lemma edit_ctx_ok: "types_ok (cx_db edit_ctx)" "values_current (cx_conf edit_ctx) (cx_db edit_ctx)"
  by code_simp+

theorem challenge_edit_authorised_witness:
  "\<exists>u. se_id (cx_session edit_ctx) = Some (us_id u) \<and> user_by_id (cx_db edit_ctx) (us_id u) = Some u \<and>
    (us_type u = Some ''admin'' \<or> us_type u = Some ''challenge_writer'')"
proof -
  have "dynamic_rows edited_db \<noteq> dynamic_rows (cx_db edit_ctx)" by (simp add: edited_db_def edit_ctx_def empty_db_def)
  then have "edited_db \<noteq> cx_db edit_ctx" by metis
  from challenge_edit_authorised[OF edit_sample_result[unfolded edit_sample_def] this] show ?thesis by blast
qed

theorem challenge_edit_keeps_scores_witness: "values_current grading_conf edited_db \<and> users edited_db = [editor]"
  using challenge_edit_keeps_scores[OF edit_sample_result[unfolded edit_sample_def] edit_ctx_ok(2)]
  by (auto simp: edit_ctx_def)

theorem challenge_types_consistent_witness: "types_ok edited_db \<and> dynamic_rows edited_db = []"
  using challenge_types_consistent[OF edit_sample_result[unfolded edit_sample_def] edit_ctx_ok(1)]
  by (simp add: edited_db_def empty_db_def)

end
