(* ===== verification/Rewards.thy ===== *)
theory Rewards imports Decay "HOL-Library.Multiset" begin

text \<open>
  Reward queries: \<^verbatim>\<open>utils/rewards/query_engine.py\<close> (the checks of a query and the SQL text
  compiled from it), \<^verbatim>\<open>utils/rewards/reward_templates.py\<close> (the templates and the builder),
  \<^verbatim>\<open>utils/rewards/multi_criteria.py\<close> (the combination of several queries) and the endpoints
  of \<^verbatim>\<open>admin/rewards.py\<close> that use them.  The database that runs the text is the argument
  \<open>run\<close>, the columns its tables have are \<open>columns\<close>; messages leave out the offending value.
\<close>

section \<open>Query specifications\<close>

definition ALLOWED_ENTITIES :: "string list" where
  "ALLOWED_ENTITIES = [''team'', ''solve'']"

definition ALLOWED_METRICS :: "string list" where
  "ALLOWED_METRICS = [''TEAM_TOTAL_SCORE'', ''TEAM_SOLVED_COUNT'', ''FIRST_BLOOD'', ''TEAM_FIRST_BLOOD_COUNT'',
     ''WRONG_SUBMISSION_COUNT'', ''TEAM_CATEGORY_CLEAR_COUNT'', ''TEAM_PERFECT_SOLVE_COUNT'']"

definition FILTER_FIELDS :: "string list" where
  "FILTER_FIELDS = [''category'', ''rank'', ''solved_count'', ''wrong_count'', ''solve_time'', ''first_blood'', ''hint_used'',
     ''total_score'', ''first_blood_count'', ''category_clear_count'', ''team_id'', ''challenge_id'', ''bracket_id'',
     ''full_clear_category'', ''first_clear_each_category'']"

definition FILTER_OPERATORS :: "string list" where
  "FILTER_OPERATORS = [''='', ''IN'', ''<='', ''>='', ''<'', ''>'']"

definition ORDER_FIELDS :: "string list" where
  "ORDER_FIELDS = [''entity_id'', ''entity_name'', ''metric_value'', ''last_solve_date'']"

definition ORDER_DIRECTIONS :: "string list" where
  "ORDER_DIRECTIONS = [''asc'', ''desc'']"

record filter_spec =
  fs_field :: string
  fs_operator :: string
  fs_value :: pyval

record query_spec =
  qs_rule :: string
  qs_entity :: string
  qs_metric :: string
  qs_filters :: "filter_spec list"
  qs_limit :: pyval
  qs_order :: dict

text \<open>Membership in a set of names: lists and objects are not hashable.\<close>

definition named_in :: "string list \<Rightarrow> string \<Rightarrow> pyval \<Rightarrow> py_exc + string" where
  "named_in names msg v = (case v of
      PStr s \<Rightarrow> if s \<in> set names then Inr s else Inl (QuerySpecError msg)
    | PList _ \<Rightarrow> Inl TypeError
    | PDict _ \<Rightarrow> Inl TypeError
    | _ \<Rightarrow> Inl (QuerySpecError msg))"

definition parse_filter :: "pyval \<Rightarrow> py_exc + filter_spec" where
  "parse_filter f = (case f of
      PDict d \<Rightarrow>
        bindE (named_in FILTER_FIELDS ''Invalid filter field'' (dget d ''field'')) (\<lambda>field.
        bindE (named_in FILTER_OPERATORS ''Invalid filter operator'' (dget d ''operator'')) (\<lambda>op.
        if op = ''IN'' \<and> \<not> (case dget d ''value'' of PList _ \<Rightarrow> True | _ \<Rightarrow> False)
        then Inl (QuerySpecError ''IN operator requires a list value'')
        else Inr \<lparr>fs_field = field, fs_operator = op, fs_value = dget d ''value''\<rparr>))
    | _ \<Rightarrow> Inl AttributeError)"

definition positive_limit :: "pyval \<Rightarrow> bool" where
  "positive_limit v = (case v of PInt i \<Rightarrow> 0 < i | PBool b \<Rightarrow> b | _ \<Rightarrow> False)"

definition validate_query_spec :: "dict \<Rightarrow> py_exc + query_spec" where
  "validate_query_spec payload =
     (case dget payload ''rule'' of
        PStr rule \<Rightarrow>
          if rule = [] then Inl (QuerySpecError ''Missing or invalid rule'') else
          bindE (named_in ALLOWED_ENTITIES ''Invalid entity'' (dget payload ''entity'')) (\<lambda>entity.
          bindE (named_in ALLOWED_METRICS ''Invalid metric'' (dget payload ''metric'')) (\<lambda>metric.
          case dget_default payload ''filters'' (PList []) of
            PList fs \<Rightarrow>
              let limit = dget_default payload ''limit'' (PInt 500) in
              if \<not> positive_limit limit then Inl (QuerySpecError ''limit must be a positive integer'') else
              (case dget_default payload ''order'' (PDict []) of
                 PDict order \<Rightarrow>
                   bindE (if dget order ''field'' = PNone then Inr []
                          else named_in ORDER_FIELDS ''Invalid order field'' (dget order ''field'')) (\<lambda>_.
                   bindE (named_in ORDER_DIRECTIONS ''Invalid order direction'' (dget_default order ''direction'' (PStr ''asc''))) (\<lambda>_.
                   bindE (mapE parse_filter fs) (\<lambda>parsed.
                   Inr \<lparr>qs_rule = rule, qs_entity = entity, qs_metric = metric, qs_filters = parsed,
                     qs_limit = limit, qs_order = order\<rparr>)))
               | _ \<Rightarrow> Inl AttributeError)
          | _ \<Rightarrow> Inl (QuerySpecError ''filters must be a list'')))
      | _ \<Rightarrow> Inl (QuerySpecError ''Missing or invalid rule''))"

text \<open>The columns the queries read.\<close>

definition require_columns :: "(string \<Rightarrow> string list) \<Rightarrow> string \<Rightarrow> string list \<Rightarrow> py_exc + unit" where
  "require_columns columns table cols =
     (if set cols \<subseteq> set (columns table) then Inr () else Inl (QuerySpecError ''Schema mismatch''))"

definition assert_schema :: "(string \<Rightarrow> string list) \<Rightarrow> string \<Rightarrow> py_exc + unit" where
  "assert_schema columns entity = checkE (\<lambda>(t, cols). require_columns columns t cols)
     ([(''submissions'', [''id'', ''team_id'', ''user_id'', ''challenge_id'', ''date'', ''type'']),
       (''solves'', [''id'']),
       (''challenges'', [''id'', ''value'', ''category'', ''name'']),
       (''unlocks'', [''team_id'', ''user_id'', ''target'', ''type'']),
       (''hints'', [''id'', ''challenge_id'']),
       (''awards'', [''id'', ''team_id'', ''user_id'', ''value'', ''date''])] @
      (if entity = ''team'' then [(''teams'', [''id'', ''name''])] else []))"

section \<open>Filters\<close>

text \<open>
  What the loop over the filters collects: bound parameters, the conditions on the solves, on
  the aggregates and on the rank, and the three special filters.
\<close>

record collected =
  co_params :: dict
  co_base :: "string list"
  co_agg :: "string list"
  co_rank :: "string list"
  co_bracket :: "string option"
  co_full_clear :: pyval
  co_first_clear :: bool

definition no_conditions :: collected where
  "no_conditions = \<lparr>co_params = [], co_base = [], co_agg = [], co_rank = [], co_bracket = None,
     co_full_clear = PNone, co_first_clear = False\<rparr>"

definition param_key :: "nat \<Rightarrow> string" where
  "param_key i = ''param_'' @ show_nat i"

definition item_key :: "string \<Rightarrow> nat \<Rightarrow> string" where
  "item_key key j = key @ ''_'' @ show_nat j"

definition bind_param :: "string \<Rightarrow> pyval \<Rightarrow> collected \<Rightarrow> collected" where
  "bind_param key v c = c\<lparr>co_params := put key v (co_params c)\<rparr>"

definition base_condition :: "string \<Rightarrow> collected \<Rightarrow> collected" where
  "base_condition s c = c\<lparr>co_base := co_base c @ [s]\<rparr>"

definition agg_condition :: "string \<Rightarrow> collected \<Rightarrow> collected" where
  "agg_condition s c = c\<lparr>co_agg := co_agg c @ [s]\<rparr>"

definition rank_condition :: "string \<Rightarrow> collected \<Rightarrow> collected" where
  "rank_condition s c = c\<lparr>co_rank := co_rank c @ [s]\<rparr>"

definition compared :: "string \<Rightarrow> string \<Rightarrow> string \<Rightarrow> string" where
  "compared col op key = col @ '' '' @ op @ '' :'' @ key"

definition placeholders :: "string \<Rightarrow> nat \<Rightarrow> string" where
  "placeholders key n = join_with '', '' (map (\<lambda>j. '':'' @ item_key key j) [0..<n])"

text \<open>\<open>col IN (..)\<close> with a parameter per element, converted by \<open>conv\<close>.\<close>

definition in_filter :: "string \<Rightarrow> (pyval \<Rightarrow> py_exc + pyval) \<Rightarrow> string \<Rightarrow> pyval list \<Rightarrow> collected \<Rightarrow> py_exc + collected" where
  "in_filter col conv key vs c =
     bindE (foldE (\<lambda>c (j, v). bindE (conv v) (\<lambda>w. Inr (bind_param (item_key key j) w c))) c (enumerate 0 vs)) (\<lambda>c'.
     Inr (base_condition (col @ '' IN ('' @ placeholders key (length vs) @ '')'') c'))"

definition as_int :: "pyval \<Rightarrow> py_exc + pyval" where
  "as_int v = bindE (py_int v) (\<lambda>i. Inr (PInt i))"

definition compile_filter :: "string \<Rightarrow> collected \<Rightarrow> nat \<times> filter_spec \<Rightarrow> py_exc + collected" where
  "compile_filter entity c x = (case x of (idx, f) \<Rightarrow>
     let key = param_key idx; field = fs_field f; op = fs_operator f; v = fs_value f in
     if field = ''category'' then
       (if op = ''IN'' then (case v of PList vs \<Rightarrow> in_filter ''sf.category'' Inr key vs c | _ \<Rightarrow> Inl TypeError)
        else Inr (base_condition (compared ''sf.category'' op key) (bind_param key v c)))
     else if field = ''solve_time'' then Inr (base_condition (compared ''sf.solve_time'' op key) (bind_param key v c))
     else if field = ''first_blood'' then
       Inr (base_condition (compared ''sf.is_first_blood'' ''='' key) (bind_param key (PBool (truthy v)) c))
     else if field = ''hint_used'' then
       Inr (base_condition (compared ''sf.hint_used'' ''='' key) (bind_param key (PBool (truthy v)) c))
     else if field = ''solved_count'' then Inr (agg_condition (compared ''solved_count'' op key) (bind_param key v c))
     else if field = ''wrong_count'' then
       Inr (agg_condition (compared (if entity = ''solve'' then ''wrong_before'' else ''wrong_count'') op key) (bind_param key v c))
     else if field = ''rank'' then
       (if entity \<noteq> ''team'' then Inl (QuerySpecError ''rank filter only supported for team entities'')
        else Inr (rank_condition (compared ''rank'' op key) (bind_param key v c)))
     else if field = ''total_score'' then Inr (agg_condition (compared ''total_score'' op key) (bind_param key v c))
     else if field = ''first_blood_count'' then Inr (agg_condition (compared ''first_blood_count'' op key) (bind_param key v c))
     else if field = ''category_clear_count'' then
       Inr (agg_condition (compared ''category_clear_count'' op key) (bind_param key v c))
     else if field = ''team_id'' then
       bindE (as_int v) (\<lambda>w. Inr (base_condition (compared ''sf.team_id'' ''='' key) (bind_param key w c)))
     else if field = ''challenge_id'' then
       (if op = ''IN'' then (case v of PList vs \<Rightarrow> in_filter ''sf.challenge_id'' as_int key vs c | _ \<Rightarrow> Inl TypeError)
        else bindE (as_int v) (\<lambda>w. Inr (base_condition (compared ''sf.challenge_id'' op key) (bind_param key w c))))
     else if field = ''bracket_id'' then
       bindE (as_int v) (\<lambda>w. Inr ((bind_param key w c)\<lparr>co_bracket := Some ('':'' @ key)\<rparr>))
     else if field = ''full_clear_category'' then
       Inr (agg_condition ''full_clear_pass = 1'' ((bind_param key v c)\<lparr>co_full_clear := v\<rparr>))
     else if field = ''first_clear_each_category'' then Inr (c\<lparr>co_first_clear := truthy v\<rparr>)
     else Inr c)"

definition compile_filters :: "string \<Rightarrow> filter_spec list \<Rightarrow> py_exc + collected" where
  "compile_filters entity fs = foldE (compile_filter entity) no_conditions (enumerate 0 fs)"

section \<open>The text of a query\<close>

definition newline :: string where
  "newline = [CHR 0x0A]"

definition quoted :: "string \<Rightarrow> string" where
  "quoted s = CHR 0x27 # s @ [CHR 0x27]"

text \<open>A triple-quoted literal that opens and closes with a line break.\<close>

definition sql_text :: "string list \<Rightarrow> string" where
  "sql_text ls = newline @ concat (map (\<lambda>l. l @ newline) ls)"

definition where_clause :: "string \<Rightarrow> string list \<Rightarrow> string" where
  "where_clause lead conds = (if conds = [] then [] else lead @ '' '' @ join_with '' AND '' conds)"

definition bracket_clause :: "string option \<Rightarrow> string" where
  "bracket_clause b = (case b of None \<Rightarrow> [] | Some p \<Rightarrow> ''WHERE t.bracket_id = '' @ p)"

definition metric_column :: "string \<Rightarrow> string" where
  "metric_column metric =
     (if metric = ''TEAM_TOTAL_SCORE'' then ''total_score''
      else if metric = ''TEAM_SOLVED_COUNT'' then ''solved_count''
      else if metric = ''TEAM_FIRST_BLOOD_COUNT'' then ''first_blood_count''
      else if metric = ''WRONG_SUBMISSION_COUNT'' then ''wrong_count''
      else if metric = ''TEAM_CATEGORY_CLEAR_COUNT'' then ''category_clear_count''
      else ''perfect_solve_count'')"

definition rank_order :: "string \<Rightarrow> bool \<Rightarrow> string" where
  "rank_order metric full_clear_first =
     (if full_clear_first then ''ta.category_full_clear_date ASC, ta.entity_id ASC''
      else if metric = ''TEAM_TOTAL_SCORE''
      then ''ta.total_score DESC, ta.solved_count DESC, ta.last_solve_date ASC, ta.entity_id ASC''
      else if metric = ''TEAM_SOLVED_COUNT''
      then ''ta.solved_count DESC, ta.total_score DESC, ta.last_solve_date ASC, ta.entity_id ASC''
      else ''ta.'' @ metric_column metric @ '' DESC, ta.total_score DESC, ta.last_solve_date ASC, ta.entity_id ASC'')"

definition solve_time_expr :: "string \<Rightarrow> string" where
  "solve_time_expr dialect = (if dialect = ''mysql'' \<or> dialect = ''mariadb''
     then ''UNIX_TIMESTAMP(s.date)'' else ''EXTRACT(EPOCH FROM s.date)'')"

definition order_clause :: "dict \<Rightarrow> string" where
  "order_clause order = (case dget order ''field'' of
      PStr field \<Rightarrow> if field = [] then ''ORDER BY entity_id ASC'' else
        ''ORDER BY '' @ field @ '' '' @
        (if dget_default order ''direction'' (PStr ''asc'') = PStr ''desc'' then ''DESC'' else ''ASC'') @ '', entity_id ASC''
    | _ \<Rightarrow> ''ORDER BY entity_id ASC'')"

definition ranked_order_clause :: string where
  "ranked_order_clause = ''ORDER BY rank ASC, entity_id ASC''"

definition base_ctes :: "string \<Rightarrow> string \<Rightarrow> string" where
  "base_ctes solve_time base = sql_text
    [''WITH base_solves AS ('',
     ''    SELECT'',
     ''        s.id AS solve_id,'',
     ''        s.team_id,'',
     ''        s.user_id,'',
     ''        s.challenge_id,'',
     ''        s.date AS solve_date,'',
     ''        c.value AS challenge_value,'',
     ''        c.category AS category,'',
     ''        c.name AS challenge_name,'',
     ''        '' @ solve_time @ '' AS solve_time'',
     ''    FROM submissions s'',
     ''    JOIN solves sol ON sol.id = s.id'',
     ''    JOIN challenges c ON c.id = s.challenge_id'',
     ''    WHERE s.type = '' @ quoted ''correct'',
     ''),'',
     ''first_bloods AS ('',
     ''    SELECT challenge_id, MIN(solve_date) AS first_blood_date'',
     ''    FROM base_solves'',
     ''    GROUP BY challenge_id'',
     ''),'',
     ''hint_usage AS ('',
     ''    SELECT u.team_id, h.challenge_id'',
     ''    FROM unlocks u'',
     ''    JOIN hints h ON h.id = u.target'',
     ''    WHERE u.type = '' @ quoted ''hints'',
     ''    GROUP BY u.team_id, h.challenge_id'',
     ''),'',
     ''solves_enriched AS ('',
     ''    SELECT'',
     ''        b.*,'',
     ''        (b.solve_date = fb.first_blood_date) AS is_first_blood,'',
     ''        CASE WHEN hu.challenge_id IS NULL THEN FALSE ELSE TRUE END AS hint_used'',
     ''    FROM base_solves b'',
     ''    LEFT JOIN first_bloods fb ON fb.challenge_id = b.challenge_id'',
     ''    LEFT JOIN hint_usage hu'',
     ''        ON hu.challenge_id = b.challenge_id'',
     ''        AND hu.team_id = b.team_id'',
     ''),'',
     ''solves_filtered AS ('',
     ''    SELECT *'',
     ''    FROM solves_enriched sf'',
     ''    '' @ base,
     ''),'',
     ''category_totals AS ('',
     ''    SELECT c.category, COUNT(DISTINCT c.id) AS total_challenges'',
     ''    FROM challenges c'',
     ''    GROUP BY c.category'',
     ''),'',
     ''team_awards AS ('',
     ''    SELECT team_id, COALESCE(SUM(value), 0) AS award_value'',
     ''    FROM awards'',
     ''    WHERE team_id IS NOT NULL AND value != 0'',
     ''    GROUP BY team_id'',
     ''),'',
     ''wrong_team AS ('',
     ''    SELECT team_id, COUNT(*) AS wrong_count'',
     ''    FROM submissions'',
     ''    WHERE type = '' @ quoted ''incorrect'',
     ''    GROUP BY team_id'',
     ''),'',
     ''wrong_before AS ('',
     ''    SELECT'',
     ''        s.id AS solve_id,'',
     ''        COUNT(w.id) AS wrong_before'',
     ''    FROM submissions s'',
     ''    JOIN solves sol ON sol.id = s.id'',
     ''    LEFT JOIN submissions w'',
     ''        ON w.challenge_id = s.challenge_id'',
     ''        AND w.type = '' @ quoted ''incorrect'',
     ''        AND w.date < s.date'',
     ''        AND w.team_id = s.team_id'',
     ''    GROUP BY s.id'',
     '')'']"

definition first_clear_sql :: "string \<Rightarrow> string \<Rightarrow> string option \<Rightarrow> string" where
  "first_clear_sql solve_time base bracket = sql_text
    [base_ctes solve_time base @ '','',
     ''team_category_completion AS ('',
     ''    SELECT'',
     ''        t.id AS entity_id,'',
     ''        t.name AS entity_name,'',
     ''        sf.category AS category,'',
     ''        COUNT(DISTINCT sf.challenge_id) AS solved_count,'',
     ''        MAX(sf.solve_date) AS full_clear_date,'',
     ''        ct.total_challenges'',
     ''    FROM teams t'',
     ''    JOIN solves_filtered sf ON sf.team_id = t.id'',
     ''    JOIN category_totals ct ON ct.category = sf.category'',
     ''    '' @ bracket_clause bracket,
     ''    GROUP BY t.id, t.name, sf.category, ct.total_challenges'',
     ''    HAVING COUNT(DISTINCT sf.challenge_id) >= ct.total_challenges'',
     ''),'',
     ''ranked AS ('',
     ''    SELECT'',
     ''        tcc.*,'',
     ''        RANK() OVER (PARTITION BY tcc.category ORDER BY tcc.full_clear_date ASC, tcc.entity_id ASC) AS rank'',
     ''    FROM team_category_completion tcc'',
     '')'',
     ''SELECT entity_id, entity_name, category, solved_count AS metric_value, full_clear_date AS last_solve_date, rank'',
     ''FROM ranked'',
     ''WHERE rank = 1'',
     ''ORDER BY category ASC, entity_id ASC'',
     ''LIMIT :limit'']"

definition team_sql :: "string \<Rightarrow> string \<Rightarrow> string option \<Rightarrow> string \<Rightarrow> string \<Rightarrow> string \<Rightarrow> string" where
  "team_sql solve_time base bracket metric rank_by final = sql_text
    [base_ctes solve_time base @ '','',
     ''team_agg AS ('',
     ''    SELECT'',
     ''        t.id AS entity_id,'',
     ''        t.name AS entity_name,'',
     ''        COUNT(sf.solve_id) AS solved_count,'',
     ''        COUNT(DISTINCT CASE WHEN :full_clear_category IS NOT NULL AND sf.category = :full_clear_category THEN sf.challenge_id END) AS category_solved_count,'',
     ''        COALESCE((SELECT ct.total_challenges FROM category_totals ct WHERE ct.category = :full_clear_category), 0) AS category_total_count,'',
     ''        MAX(CASE WHEN :full_clear_category IS NOT NULL AND sf.category = :full_clear_category THEN sf.solve_date END) AS category_full_clear_date,'',
     ''        COALESCE(SUM(sf.challenge_value), 0) + COALESCE(ta.award_value, 0) AS total_score,'',
     ''        MIN(sf.solve_time) AS fastest_solve,'',
     ''        AVG(sf.solve_time) AS avg_solve_time,'',
     ''        COALESCE(SUM(CASE WHEN sf.is_first_blood THEN 1 ELSE 0 END), 0) AS first_blood_count,'',
     ''        COUNT(DISTINCT sf.category) AS category_clear_count,'',
     ''        COALESCE('',
     ''            SUM(CASE WHEN sf.solve_id IS NOT NULL AND COALESCE(wb.wrong_before, 0) = 0 THEN 1 ELSE 0 END),'',
     ''            0'',
     ''        ) AS perfect_solve_count,'',
     ''        COALESCE(wt.wrong_count, 0) AS wrong_count,'',
     ''        MAX(sf.solve_date) AS last_solve_date'',
     ''    FROM teams t'',
     ''    LEFT JOIN solves_filtered sf ON sf.team_id = t.id'',
     ''    LEFT JOIN wrong_team wt ON wt.team_id = t.id'',
     ''    LEFT JOIN wrong_before wb ON wb.solve_id = sf.solve_id'',
     ''    LEFT JOIN team_awards ta ON ta.team_id = t.id'',
     ''    '' @ bracket_clause bracket,
     ''    GROUP BY t.id, t.name, wt.wrong_count, ta.award_value'',
     ''),'',
     ''ranked AS ('',
     ''    SELECT'',
     ''        ta.*,'',
     ''        CASE'',
     ''            WHEN :full_clear_category IS NULL THEN 1'',
     ''            WHEN ta.category_total_count > 0 AND ta.category_solved_count >= ta.category_total_count THEN 1'',
     ''            ELSE 0'',
     ''        END AS full_clear_pass,'',
     ''        RANK() OVER (ORDER BY '' @ rank_by @ '') AS rank'',
     ''    FROM team_agg ta'',
     '')'',
     ''SELECT entity_id, entity_name, '' @ metric @ '' AS metric_value, COALESCE(category_full_clear_date, last_solve_date) AS last_solve_date, solved_count, rank'',
     ''FROM ranked'',
     final,
     ranked_order_clause,
     ''LIMIT :limit'']"

definition solve_sql :: "string \<Rightarrow> string \<Rightarrow> string option \<Rightarrow> string \<Rightarrow> string \<Rightarrow> string \<Rightarrow> string" where
  "solve_sql solve_time base bracket metric final order = sql_text
    [base_ctes solve_time base @ '','',
     ''solve_rows AS ('',
     ''    SELECT'',
     ''        sf.solve_id AS entity_id,'',
     ''        sf.challenge_name AS entity_name,'',
     ''        sf.category AS category,'',
     ''        sf.solve_time,'',
     ''        sf.is_first_blood,'',
     ''        sf.hint_used,'',
     ''        sf.team_id,'',
     ''        sf.user_id,'',
     ''        COALESCE(wb.wrong_before, 0) AS wrong_before'',
     ''    FROM solves_filtered sf'',
     ''    LEFT JOIN wrong_before wb ON wb.solve_id = sf.solve_id'',
     '')'',
     ''SELECT '',
     ''    sr.entity_id, '',
     ''    sr.entity_name, '',
     ''    sr.category, '',
     ''    '' @ metric @ '' AS metric_value,'',
     ''    t.name AS team_name'',
     ''FROM solve_rows sr'',
     ''LEFT JOIN teams t ON t.id = sr.team_id'',
     bracket_clause bracket,
     final,
     order,
     ''LIMIT :limit'']"

text \<open>Rows the metric says nothing about are left out.\<close>

definition metric_condition :: "string \<Rightarrow> string list" where
  "metric_condition metric = (if metric = ''FIRST_BLOOD'' then [] else [metric_column metric @ '' > 0''])"

definition compile_query ::
  "(string \<Rightarrow> string list) \<Rightarrow> string \<Rightarrow> query_spec \<Rightarrow> py_exc + string \<times> dict" where
  "compile_query columns dialect s =
     (let metric = qs_metric s; entity = qs_entity s in
      bindE (assert_schema columns entity) (\<lambda>_.
      if entity = ''solve'' \<and> metric \<notin> {''FIRST_BLOOD'', ''WRONG_SUBMISSION_COUNT''}
      then Inl (QuerySpecError ''Metric is not supported for solve entities'')
      else if entity = ''team'' \<and> metric = ''FIRST_BLOOD''
      then Inl (QuerySpecError ''Metric is not supported for team entities'')
      else bindE (compile_filters entity (qs_filters s)) (\<lambda>c.
      let solve_time = solve_time_expr dialect; base = where_clause ''WHERE'' (co_base c);
          params = put ''full_clear_category'' (co_full_clear c) (put ''limit'' (qs_limit s) (co_params c)) in
      if entity = ''team''
      then let final = where_clause ''WHERE'' (co_rank c @ co_agg c @ metric_condition metric);
               earliest = truthy (co_full_clear c) \<and> dget (qs_order s) ''field'' = PStr ''last_solve_date'' \<and>
                 dget_default (qs_order s) ''direction'' (PStr ''asc'') = PStr ''asc'' in
           if co_first_clear c then Inr (first_clear_sql solve_time base (co_bracket c), params)
           else Inr (team_sql solve_time base (co_bracket c) (metric_column metric) (rank_order metric earliest) final, params)
      else let final = where_clause (if co_bracket c = None then ''WHERE'' else ''AND'') (co_rank c @ co_agg c);
               expr = (if metric = ''FIRST_BLOOD'' then ''CASE WHEN is_first_blood THEN 1 ELSE 0 END''
                 else ''COALESCE(wrong_before, 0)'') in
           Inr (solve_sql solve_time base (co_bracket c) expr final (order_clause (qs_order s)), params))))"

section \<open>Running a query\<close>

definition has_zone :: "string \<Rightarrow> bool" where
  "has_zone s = (let r = rev s; sign = (\<lambda>c. c = CHR ''+'' \<or> c = CHR ''-'') in
     case r of [] \<Rightarrow> False | c # _ \<Rightarrow> c = CHR ''Z'' \<or> c = CHR ''z'' \<or>
       (case r of b # a # t # _ \<Rightarrow> dec_char b \<and> dec_char a \<and> sign t | _ \<Rightarrow> False) \<or>
       (case r of d # c # b # a # t # _ \<Rightarrow> dec_char d \<and> dec_char c \<and> dec_char b \<and> dec_char a \<and> sign t | _ \<Rightarrow> False) \<or>
       (case r of d # c # m # b # a # t # _ \<Rightarrow> dec_char d \<and> dec_char c \<and> m = CHR '':'' \<and> dec_char b \<and> dec_char a \<and> sign t
        | _ \<Rightarrow> False))"

text \<open>A date arrives as the text of its ISO form.\<close>

definition serialize_utc_datetime :: "pyval \<Rightarrow> pyval" where
  "serialize_utc_datetime v = (case v of
      PStr s \<Rightarrow> let raw = py_strip s; normalized = map (\<lambda>c. if c = CHR '' '' then CHR ''T'' else c) raw in
        if raw = [] then PNone else if has_zone normalized then PStr normalized else PStr (normalized @ ''Z'')
    | _ \<Rightarrow> PNone)"

definition result_row :: "dict \<Rightarrow> dict" where
  "result_row row =
     [(''entity_id'', dget row ''entity_id''), (''entity_name'', dget row ''entity_name''), (''metric_value'', dget row ''metric_value'')] @
     (if has_key row ''category'' then [(''category'', dget row ''category'')] else []) @
     (if has_key row ''team_name'' then [(''team_name'', dget row ''team_name'')] else []) @
     (if has_key row ''last_solve_date'' then [(''last_solve_date'', serialize_utc_datetime (dget row ''last_solve_date''))] else []) @
     (if has_key row ''solved_count'' then [(''solved_count'', dget row ''solved_count'')] else []) @
     (if has_key row ''rank'' then [(''rank'', dget row ''rank'')] else [])"

record query_result =
  qr_rule :: string
  qr_sql :: string
  qr_rows :: "dict list"

type_synonym runner = "string \<Rightarrow> dict \<Rightarrow> py_exc + dict list"

definition execute_query :: "runner \<Rightarrow> (string \<Rightarrow> string list) \<Rightarrow> string \<Rightarrow> query_spec \<Rightarrow> py_exc + query_result" where
  "execute_query run columns dialect s =
     bindE (compile_query columns dialect s) (\<lambda>(sql, params).
     bindE (run sql params) (\<lambda>rows.
     Inr \<lparr>qr_rule = qs_rule s, qr_sql = py_strip sql, qr_rows = map result_row rows\<rparr>))"

section \<open>Templates\<close>

record reward_template =
  rt_id :: string
  rt_name :: string
  rt_description :: string
  rt_category :: string
  rt_icon :: string
  rt_config :: dict
  rt_params :: "string list"
  rt_example :: string

definition REWARD_TEMPLATES :: "(string \<times> reward_template option) list" where
  "REWARD_TEMPLATES =
    [(''top_teams_by_score'', Some \<lparr>rt_id = ''top_teams_by_score'', rt_name = ''Top Teams by Score'',
       rt_description = ''Award the top N teams with highest scores'',
       rt_category = ''ranking'', rt_icon = ''trophy'',
       rt_config = [(''entity'', PStr ''team''), (''metric'', PStr ''TEAM_TOTAL_SCORE''), (''order'', PDict [(''field'', PStr ''metric_value''), (''direction'', PStr ''desc'')])],
       rt_params = [''limit'', ''min_score''], rt_example = ''Award top 3 teams: limit=3''\<rparr>),
     (''bottom_teams_by_score'', None),
     (''top_users_by_score'', None),
     (''teams_by_rank_range'', None),
     (''first_blood_hunters'', Some \<lparr>rt_id = ''first_blood_hunters'', rt_name = ''First Blood Hunters'',
       rt_description = ''Award teams with most first bloods'',
       rt_category = ''achievement'', rt_icon = ''tint'',
       rt_config = [(''entity'', PStr ''team''), (''metric'', PStr ''TEAM_FIRST_BLOOD_COUNT''), (''order'', PDict [(''field'', PStr ''metric_value''), (''direction'', PStr ''desc'')])],
       rt_params = [''limit'', ''min_count''], rt_example = ''Top 3 first blood hunters: limit=3, min_count=1''\<rparr>),
     (''category_masters'', Some \<lparr>rt_id = ''category_masters'', rt_name = ''Category Masters'',
       rt_description = ''Award teams who solved all challenges in most categories'',
       rt_category = ''achievement'', rt_icon = ''layer-group'',
       rt_config = [(''entity'', PStr ''team''), (''metric'', PStr ''TEAM_CATEGORY_CLEAR_COUNT''), (''order'', PDict [(''field'', PStr ''metric_value''), (''direction'', PStr ''desc'')])],
       rt_params = [''limit'', ''min_categories_solved''], rt_example = ''Teams clearing >=2 categories: min_categories_solved=2''\<rparr>),
     (''first_clear_each_category'', Some \<lparr>rt_id = ''first_clear_each_category'', rt_name = ''First Full-Clear By Category'',
       rt_description = ''Show the first team that fully cleared each category'',
       rt_category = ''achievement'', rt_icon = ''stopwatch'',
       rt_config = [(''entity'', PStr ''team''), (''metric'', PStr ''TEAM_SOLVED_COUNT''), (''order'', PDict [(''field'', PStr ''last_solve_date''), (''direction'', PStr ''asc'')])],
       rt_params = [], rt_example = ''Show first team per category''\<rparr>),
     (''perfect_solvers'', Some \<lparr>rt_id = ''perfect_solvers'', rt_name = ''Perfect Solvers'',
       rt_description = ''Award teams with most perfect solves (no wrong submissions)'',
       rt_category = ''achievement'', rt_icon = ''bullseye'',
       rt_config = [(''entity'', PStr ''team''), (''metric'', PStr ''TEAM_PERFECT_SOLVE_COUNT''), (''order'', PDict [(''field'', PStr ''metric_value''), (''direction'', PStr ''desc'')])],
       rt_params = [''limit'', ''min_perfect_solves''], rt_example = ''Top 5 perfect solvers: limit=5, min_perfect_solves=3''\<rparr>),
     (''most_attempts'', None),
     (''solve_count_champions'', Some \<lparr>rt_id = ''solve_count_champions'', rt_name = ''Solve Count Champions'',
       rt_description = ''Award teams who solved the most challenges (regardless of score)'',
       rt_category = ''achievement'', rt_icon = ''tasks'',
       rt_config = [(''entity'', PStr ''team''), (''metric'', PStr ''TEAM_SOLVED_COUNT''), (''order'', PDict [(''field'', PStr ''metric_value''), (''direction'', PStr ''desc'')])],
       rt_params = [''limit'', ''min_solves''], rt_example = ''Most challenges solved: limit=5, min_solves=10''\<rparr>),
     (''category_specific_top'', None),
     (''first_blood_by_category'', Some \<lparr>rt_id = ''first_blood_by_category'', rt_name = ''First Blood by Category'',
       rt_description = ''Show first blood teams for each challenge, grouped by category'',
       rt_category = ''special'', rt_icon = ''flag-checkered'',
       rt_config = [(''entity'', PStr ''solve''), (''metric'', PStr ''FIRST_BLOOD''), (''order'', PDict [(''field'', PStr ''entity_id''), (''direction'', PStr ''asc'')]), (''only_first_blood'', PBool True)],
       rt_params = [''category''], rt_example = ''First bloods in Forensics: category='' @ quoted ''Forensics''\<rparr>),
     (''specific_challenge_solvers'', None),
     (''no_hints_solvers'', Some \<lparr>rt_id = ''no_hints_solvers'', rt_name = ''No Hints Solvers'',
       rt_description = ''Award teams who solved the most challenges without using hints'',
       rt_category = ''achievement'', rt_icon = ''brain'',
       rt_config = [(''entity'', PStr ''team''), (''metric'', PStr ''TEAM_SOLVED_COUNT''), (''order'', PDict [(''field'', PStr ''metric_value''), (''direction'', PStr ''desc'')]), (''no_hints'', PBool True)],
       rt_params = [''limit'', ''category'', ''min_solves''], rt_example = ''No hints in Crypto: category='' @ quoted ''Crypto'' @ '', min_solves=3''\<rparr>),
     (''fastest_solvers'', None),
     (''teams_clear_all_challenges'', None)]"

definition get_template :: "string \<Rightarrow> reward_template option" where
  "get_template i = (case map_of REWARD_TEMPLATES i of Some t \<Rightarrow> t | None \<Rightarrow> None)"

definition list_templates :: "string \<Rightarrow> reward_template list" where
  "list_templates category = (let ts = List.map_filter snd REWARD_TEMPLATES in
     if category = [] then ts else filter (\<lambda>t. rt_category t = category) ts)"

section \<open>The builder\<close>

definition filter_dict :: "string \<Rightarrow> string \<Rightarrow> pyval \<Rightarrow> pyval" where
  "filter_dict field op v = PDict [(''field'', PStr field), (''operator'', PStr op), (''value'', v)]"

text \<open>A filter whose argument may be missing.\<close>

definition given :: "string \<Rightarrow> string \<Rightarrow> pyval \<Rightarrow> pyval list" where
  "given field op v = (if v = PNone then [] else [filter_dict field op v])"

definition add_category_filter :: "pyval \<Rightarrow> py_exc + pyval list" where
  "add_category_filter v = (case v of
      PList xs \<Rightarrow> Inr (case xs of [] \<Rightarrow> [] | [x] \<Rightarrow> [filter_dict ''category'' ''='' x] | _ \<Rightarrow> [filter_dict ''category'' ''IN'' v])
    | PStr s \<Rightarrow> Inr (case s of [] \<Rightarrow> [] | [c] \<Rightarrow> [filter_dict ''category'' ''='' (PStr [c])] | _ \<Rightarrow> [filter_dict ''category'' ''IN'' v])
    | PDict d \<Rightarrow> (case d of [] \<Rightarrow> Inr [] | [x] \<Rightarrow> Inl KeyError | _ \<Rightarrow> Inr [filter_dict ''category'' ''IN'' v])
    | _ \<Rightarrow> Inl TypeError)"

definition add_perfect_solve_filter :: "pyval \<Rightarrow> py_exc + pyval list" where
  "add_perfect_solve_filter v = (case numeric v of
      None \<Rightarrow> Inl TypeError
    | Some q \<Rightarrow> Inr (if 0 < q then [filter_dict ''solved_count'' ''>='' v] else []))"

definition add_challenge_filter :: "pyval \<Rightarrow> pyval list" where
  "add_challenge_filter v = (case v of PNone \<Rightarrow> [] | PList _ \<Rightarrow> [filter_dict ''challenge_id'' ''IN'' v]
     | _ \<Rightarrow> [filter_dict ''challenge_id'' ''='' v])"

definition add_bracket_filter :: "pyval \<Rightarrow> py_exc + pyval list" where
  "add_bracket_filter v = (if v = PNone then Inr [] else bindE (py_int v) (\<lambda>i. Inr [filter_dict ''bracket_id'' ''='' (PInt i)]))"

definition chosen :: "reward_template \<Rightarrow> dict \<Rightarrow> string \<Rightarrow> bool" where
  "chosen t p key = (truthy (dget (rt_config t) key) \<or> truthy (dget p key))"

definition builder_filters :: "reward_template \<Rightarrow> dict \<Rightarrow> py_exc + pyval list" where
  "builder_filters t p =
     bindE (if has_key p ''categories'' then add_category_filter (dget p ''categories'')
            else if has_key p ''category'' then add_category_filter (PList [dget p ''category'']) else Inr []) (\<lambda>categories.
     bindE (if has_key p ''min_perfect_solves'' then add_perfect_solve_filter (dget p ''min_perfect_solves'') else Inr []) (\<lambda>perfect.
     bindE (add_bracket_filter (dget p ''bracket_id'')) (\<lambda>bracket.
     Inr ((if rt_id t = ''first_clear_each_category'' then [filter_dict ''first_clear_each_category'' ''='' (PBool True)] else []) @
       given ''rank'' ''>='' (dget p ''min_rank'') @ given ''rank'' ''<='' (dget p ''max_rank'') @
       given ''total_score'' ''>='' (dget p ''min_score'') @ given ''total_score'' ''<='' (dget p ''max_score'') @
       categories @ given ''solved_count'' ''>='' (dget p ''min_solves'') @
       given ''wrong_count'' ''>='' (dget p ''min_attempts'') @ given ''wrong_count'' ''<='' (dget p ''max_attempts'') @
       perfect @
       (if chosen t p ''only_first_blood'' then [filter_dict ''first_blood'' ''='' (PBool True)] else []) @
       (if chosen t p ''no_hints'' then [filter_dict ''hint_used'' ''='' (PBool False)] else []) @
       given ''solve_time'' ''<='' (dget p ''max_solve_time'') @ given ''first_blood_count'' ''>='' (dget p ''min_count'') @
       given ''category_clear_count'' ''>='' (dget p ''min_categories_solved'') @
       given ''team_id'' ''='' (dget p ''team_id'') @ add_challenge_filter (dget p ''challenge_id'') @ bracket))))"

definition builder_config :: "reward_template \<Rightarrow> dict" where
  "builder_config t = (if rt_id t = ''first_clear_each_category''
     then put ''order'' (PDict [(''field'', PStr ''last_solve_date''), (''direction'', PStr ''asc'')])
       (put ''metric'' (PStr ''TEAM_SOLVED_COUNT'') (rt_config t))
     else rt_config t)"

definition builder_build :: "reward_template \<Rightarrow> pyval \<Rightarrow> pyval list \<Rightarrow> dict" where
  "builder_build t limit fs = (let config = builder_config t in
     [(''rule'', PStr (rt_id t)), (''entity'', dget config ''entity''), (''metric'', dget config ''metric''),
      (''filters'', PList fs), (''limit'', limit), (''order'', dget_default config ''order'' (PDict []))])"

text \<open>Parameters that are no object fail with some exception; all of them are answered alike.\<close>

definition build_query_from_template :: "pyval \<Rightarrow> pyval \<Rightarrow> py_exc + dict option" where
  "build_query_from_template i params = (case i of
      PStr s \<Rightarrow> (case get_template s of
          None \<Rightarrow> Inr None
        | Some t \<Rightarrow> (case params of
              PDict p \<Rightarrow> bindE (builder_filters t p) (\<lambda>fs. Inr (Some (builder_build t (dget_default p ''limit'' (PInt 50)) fs)))
            | _ \<Rightarrow> Inl AttributeError))
    | PList _ \<Rightarrow> Inl TypeError
    | PDict _ \<Rightarrow> Inl TypeError
    | _ \<Rightarrow> Inr None)"

section \<open>Several criteria\<close>

record criteria_rule =
  cr_template :: pyval
  cr_params :: pyval
  cr_weight :: pyval

record criteria_query =
  cq_rules :: "criteria_rule list"
  cq_logic :: pyval
  cq_method :: pyval

definition criteria_rule_of :: "pyval \<Rightarrow> py_exc + criteria_rule" where
  "criteria_rule_of r = (case r of
      PDict d \<Rightarrow> if has_key d ''template_id''
        then Inr \<lparr>cr_template = dget d ''template_id'', cr_params = dget_default d ''params'' (PDict []),
          cr_weight = dget_default d ''weight'' (PFloat 1)\<rparr>
        else Inl KeyError
    | _ \<Rightarrow> Inl TypeError)"

definition create_multi_criteria_query :: "pyval list \<Rightarrow> pyval \<Rightarrow> pyval \<Rightarrow> py_exc + criteria_query" where
  "create_multi_criteria_query rules logic combine =
     bindE (mapE criteria_rule_of rules) (\<lambda>rs. Inr \<lparr>cq_rules = rs, cq_logic = logic, cq_method = combine\<rparr>)"

definition run_rule :: "runner \<Rightarrow> (string \<Rightarrow> string list) \<Rightarrow> string \<Rightarrow> criteria_rule \<Rightarrow> py_exc + criteria_rule \<times> dict list" where
  "run_rule run columns dialect r =
     bindE (build_query_from_template (cr_template r) (cr_params r)) (\<lambda>q. case q of
       None \<Rightarrow> Inl (ValueError ''Template not found'')
     | Some d \<Rightarrow> bindE (validate_query_spec d) (\<lambda>s. bindE (execute_query run columns dialect s) (\<lambda>res. Inr (r, qr_rows res))))"

definition entity_of :: "dict \<Rightarrow> pyval" where
  "entity_of row = dget row ''entity_id''"

definition combine_intersection :: "(criteria_rule \<times> dict list) list \<Rightarrow> dict list" where
  "combine_intersection results = (case results of [] \<Rightarrow> []
     | (r, rows) # _ \<Rightarrow> filter (\<lambda>row. list_all (\<lambda>(_, rs). entity_of row \<in> entity_of ` set rs) results) rows)"

definition union_step :: "(pyval \<times> dict) list \<Rightarrow> dict \<Rightarrow> (pyval \<times> dict) list" where
  "union_step seen row = (if has_key seen (entity_of row) then seen else seen @ [(entity_of row, row)])"

definition combine_union :: "(criteria_rule \<times> dict list) list \<Rightarrow> dict list" where
  "combine_union results = map snd (foldl union_step [] (concat (map snd results)))"

text \<open>
  Arithmetic on numbers: integers exactly, otherwise in double precision.  Values that are no
  numbers end in a type error, since the sum starts from the integer 0.
\<close>

definition py_number :: "pyval \<Rightarrow> py_exc + (int + rat)" where
  "py_number v = (case v of PInt i \<Rightarrow> Inr (Inl i) | PBool b \<Rightarrow> Inr (Inl (if b then 1 else 0)) | PFloat q \<Rightarrow> Inr (Inr q) | _ \<Rightarrow> Inl TypeError)"

definition as_double :: "int + rat \<Rightarrow> rat" where
  "as_double x = (case x of Inl i \<Rightarrow> fl (of_int i) | Inr q \<Rightarrow> q)"

definition py_times :: "pyval \<Rightarrow> pyval \<Rightarrow> py_exc + pyval" where
  "py_times a b = bindE (py_number a) (\<lambda>x. bindE (py_number b) (\<lambda>y. Inr (case (x, y) of
      (Inl i, Inl j) \<Rightarrow> PInt (i * j) | _ \<Rightarrow> PFloat (fl (as_double x * as_double y)))))"

definition py_plus :: "pyval \<Rightarrow> pyval \<Rightarrow> py_exc + pyval" where
  "py_plus a b = bindE (py_number a) (\<lambda>x. bindE (py_number b) (\<lambda>y. Inr (case (x, y) of
      (Inl i, Inl j) \<Rightarrow> PInt (i + j) | _ \<Rightarrow> PFloat (fl (as_double x + as_double y)))))"

type_synonym scoreboard = "(pyval \<times> pyval \<times> dict) list"

definition add_weighted :: "scoreboard \<Rightarrow> pyval \<times> dict \<Rightarrow> py_exc + scoreboard" where
  "add_weighted scores x = (case x of (weight, row) \<Rightarrow>
     let metric = dget_default row ''metric_value'' (PInt 0) in
     bindE (py_times (if truthy metric then metric else PInt 0) weight) (\<lambda>part.
     let (score, data) = (case map_of scores (entity_of row) of Some e \<Rightarrow> e | None \<Rightarrow> (PInt 0, row)) in
     bindE (py_plus score part) (\<lambda>score'. Inr (put (entity_of row) (score', data) scores))))"

definition weighted_rows :: "(criteria_rule \<times> dict list) list \<Rightarrow> (pyval \<times> dict) list" where
  "weighted_rows results = concat (map (\<lambda>(r, rows). map (\<lambda>row. (cr_weight r, row)) rows) results)"

definition score_key :: "dict \<Rightarrow> rat" where
  "score_key row = (case numeric (dget row ''combined_score'') of Some q \<Rightarrow> - q | None \<Rightarrow> 0)"

definition combine_weighted_score :: "(criteria_rule \<times> dict list) list \<Rightarrow> py_exc + dict list" where
  "combine_weighted_score results =
     bindE (foldE add_weighted [] (weighted_rows results)) (\<lambda>scores.
     Inr (sort_key score_key (map (\<lambda>(_, score, row). put ''metric_value'' score (put ''combined_score'' score row)) scores)))"

record combined =
  cb_rows :: "dict list"
  cb_details :: "(pyval \<times> nat) list"

definition execute_criteria :: "runner \<Rightarrow> (string \<Rightarrow> string list) \<Rightarrow> string \<Rightarrow> criteria_query \<Rightarrow> py_exc + combined" where
  "execute_criteria run columns dialect q =
     bindE (mapE (run_rule run columns dialect) (cq_rules q)) (\<lambda>results.
     bindE (if cq_method q = PStr ''intersection'' then Inr (combine_intersection results)
            else if cq_method q = PStr ''union'' then Inr (combine_union results)
            else if cq_method q = PStr ''weighted_score'' then combine_weighted_score results
            else Inl (ValueError ''Unknown combine method'')) (\<lambda>rows.
     Inr \<lparr>cb_rows = rows, cb_details = map (\<lambda>(r, rs). (cr_template r, length rs)) results\<rparr>))"

record criteria_preset =
  pr_description :: string
  pr_rules :: "dict list"
  pr_logic :: string
  pr_method :: string

definition MULTI_CRITERIA_PRESETS :: "(string \<times> criteria_preset) list" where
  "MULTI_CRITERIA_PRESETS =
    [(''elite_performers'', \<lparr>pr_description = ''Elite performers: Top scorers who also have multiple first bloods'',
       pr_rules = [[(''template_id'', PStr ''top_teams_by_score''), (''params'', PDict [(''limit'', PInt 20)])],
         [(''template_id'', PStr ''first_blood_hunters''), (''params'', PDict [(''min_count'', PInt 3)])]],
       pr_logic = ''AND'', pr_method = ''intersection''\<rparr>),
     (''category_specialists'', \<lparr>pr_description = ''Teams mastering specific categories with perfect solves'',
       pr_rules = [[(''template_id'', PStr ''category_masters''), (''params'', PDict [(''min_categories'', PInt 2)])],
         [(''template_id'', PStr ''perfect_solvers''), (''params'', PDict [(''min_perfect_solves'', PInt 5)])]],
       pr_logic = ''AND'', pr_method = ''intersection''\<rparr>),
     (''high_performers_any'', \<lparr>pr_description = ''High performers: Top scorers OR most solves OR most first bloods'',
       pr_rules = [[(''template_id'', PStr ''top_teams_by_score''), (''params'', PDict [(''limit'', PInt 10)])],
         [(''template_id'', PStr ''solve_count_champions''), (''params'', PDict [(''limit'', PInt 10)])],
         [(''template_id'', PStr ''first_blood_hunters''), (''params'', PDict [(''limit'', PInt 10)])]],
       pr_logic = ''OR'', pr_method = ''union''\<rparr>),
     (''overall_excellence'', \<lparr>pr_description = ''Overall excellence score: Weighted combination of score, solves, and first bloods'',
       pr_rules = [[(''template_id'', PStr ''top_teams_by_score''), (''params'', PDict [(''limit'', PInt 100)]), (''weight'', PFloat (fl (5 / 10)))],
         [(''template_id'', PStr ''solve_count_champions''), (''params'', PDict [(''limit'', PInt 100)]), (''weight'', PFloat (fl (3 / 10)))],
         [(''template_id'', PStr ''first_blood_hunters''), (''params'', PDict [(''limit'', PInt 100)]), (''weight'', PFloat (fl (2 / 10)))]],
       pr_logic = ''WEIGHTED'', pr_method = ''weighted_score''\<rparr>)]"

definition get_multi_criteria_preset :: "pyval \<Rightarrow> py_exc + criteria_query option" where
  "get_multi_criteria_preset i = (case i of
      PStr s \<Rightarrow> (case map_of MULTI_CRITERIA_PRESETS s of
          None \<Rightarrow> Inr None
        | Some p \<Rightarrow> bindE (create_multi_criteria_query (map PDict (pr_rules p)) (PStr (pr_logic p)) (PStr (pr_method p))) (\<lambda>q. Inr (Some q)))
    | PList _ \<Rightarrow> Inl TypeError
    | PDict _ \<Rightarrow> Inl TypeError
    | _ \<Rightarrow> Inr None)"

section \<open>The endpoints\<close>

datatype 'a rewarded = Rewarded 'a | RewardDenied nat string

text \<open>\<open>request.get_json() or {}\<close>, of which attributes are read.\<close>

definition json_object :: "pyval \<Rightarrow> py_exc + dict" where
  "json_object v = (if \<not> truthy v then Inr [] else case v of PDict d \<Rightarrow> Inr d | _ \<Rightarrow> Inl AttributeError)"

definition rewards_query :: "runner \<Rightarrow> (string \<Rightarrow> string list) \<Rightarrow> string \<Rightarrow> pyval \<Rightarrow> py_exc + query_result rewarded" where
  "rewards_query run columns dialect body =
     bindE (json_object body) (\<lambda>payload.
     case bindE (validate_query_spec payload) (execute_query run columns dialect) of
       Inr res \<Rightarrow> Inr (Rewarded res)
     | Inl (QuerySpecError m) \<Rightarrow> Inr (RewardDenied 400 m)
     | Inl e \<Rightarrow> Inl e)"

definition preview_reward :: "runner \<Rightarrow> (string \<Rightarrow> string list) \<Rightarrow> string \<Rightarrow> pyval \<Rightarrow> py_exc + query_result rewarded" where
  "preview_reward run columns dialect body =
     bindE (json_object body) (\<lambda>payload.
     let i = dget payload ''template_id'' in
     if \<not> truthy i then Inr (RewardDenied 400 ''template_id is required'')
     else case bindE (build_query_from_template i (dget_default payload ''params'' (PDict []))) (\<lambda>q. case q of
         None \<Rightarrow> Inr None
       | Some d \<Rightarrow> bindE (validate_query_spec d) (\<lambda>s. bindE (execute_query run columns dialect s) (\<lambda>res. Inr (Some res)))) of
       Inr None \<Rightarrow> Inr (RewardDenied 404 ''Template not found'')
     | Inr (Some res) \<Rightarrow> Inr (Rewarded res)
     | Inl (QuerySpecError m) \<Rightarrow> Inr (RewardDenied 400 m)
     | Inl e \<Rightarrow> Inr (RewardDenied 500 ''Unexpected error''))"

text \<open>A rule list that is no list is iterated all the same: its elements are no rules.\<close>

definition rule_items :: "pyval \<Rightarrow> py_exc + pyval list" where
  "rule_items v = (case v of PList xs \<Rightarrow> Inr xs | PDict d \<Rightarrow> Inr (map (PStr \<circ> fst) d)
     | PStr s \<Rightarrow> Inr (map (\<lambda>c. PStr [c]) s) | _ \<Rightarrow> Inl TypeError)"

definition preview_multi_criteria :: "runner \<Rightarrow> (string \<Rightarrow> string list) \<Rightarrow> string \<Rightarrow> pyval \<Rightarrow> py_exc + combined rewarded" where
  "preview_multi_criteria run columns dialect body =
     bindE (json_object body) (\<lambda>payload.
     let i = dget payload ''preset_id''; rules = dget_default payload ''rules'' (PList []);
         finish = (\<lambda>q. case execute_criteria run columns dialect q of
           Inr c \<Rightarrow> Inr (Rewarded c) | Inl e \<Rightarrow> Inr (RewardDenied 500 ''Execution error'')) in
     if truthy i then bindE (get_multi_criteria_preset i) (\<lambda>q. case q of
         None \<Rightarrow> Inr (RewardDenied 404 ''Preset not found'') | Some q \<Rightarrow> finish q)
     else if \<not> truthy rules then Inr (RewardDenied 400 ''No rules provided'')
     else case bindE (rule_items rules) (\<lambda>rs. create_multi_criteria_query rs (dget_default payload ''logic'' (PStr ''AND''))
         (dget_default payload ''combine_method'' (PStr ''intersection''))) of
       Inl e \<Rightarrow> Inr (RewardDenied 400 ''Invalid query'')
     | Inr q \<Rightarrow> finish q)"

text \<open>The solved challenges of a team, the expandable part of a result row.\<close>

definition category_masters_sql :: string where
  "category_masters_sql = sql_text
    [''            SELECT'',
     ''                sf.category,'',
     ''                COUNT(DISTINCT sf.challenge_id) AS solved_count,'',
     ''                ct.total_challenges,'',
     ''                MAX(sf.solve_date) AS full_clear_date'',
     ''            FROM ('',
     ''                SELECT s.id AS solve_id, c.id AS challenge_id, c.name AS challenge_name,'',
     ''                       c.category, c.value AS challenge_value, s.date AS solve_date'',
     ''                FROM submissions s'',
     ''                JOIN solves sol ON sol.id = s.id'',
     ''                JOIN challenges c ON c.id = s.challenge_id'',
     ''                WHERE s.type = '' @ quoted ''correct'' @ '' AND s.team_id = :entity_id'',
     ''            ) sf'',
     ''            JOIN ('',
     ''                SELECT category, COUNT(*) AS total_challenges'',
     ''                FROM challenges WHERE state = '' @ quoted ''visible'',
     ''                GROUP BY category'',
     ''            ) ct ON ct.category = sf.category'',
     ''            GROUP BY sf.category, ct.total_challenges'',
     ''            HAVING COUNT(DISTINCT sf.challenge_id) >= ct.total_challenges'',
     ''            ORDER BY full_clear_date ASC''] @ ''        ''"

definition details_join :: "string \<Rightarrow> string" where
  "details_join i = (if i = ''first_blood_hunters'' then sql_text
    [''            JOIN ('',
     ''                SELECT challenge_id, MIN(date) AS fb_date'',
     ''                FROM submissions'',
     ''                WHERE type = '' @ quoted ''correct'',
     ''                GROUP BY challenge_id'',
     ''            ) fb ON fb.challenge_id = s.challenge_id AND fb.fb_date = s.date''] @ ''        '' else [])"

definition details_where :: "string \<Rightarrow> string" where
  "details_where i = (if i = ''perfect_solvers'' then sql_text
    [''            AND NOT EXISTS ('',
     ''                SELECT 1 FROM submissions w'',
     ''                WHERE w.challenge_id = s.challenge_id'',
     ''                AND w.type = '' @ quoted ''incorrect'',
     ''                AND w.date < s.date'',
     ''                AND w.team_id = :entity_id'',
     ''            )''] @ ''        ''
   else if i = ''no_hints_solvers'' then sql_text
    [''            AND NOT EXISTS ('',
     ''                SELECT 1 FROM unlocks u'',
     ''                JOIN hints h ON h.id = u.target'',
     ''                WHERE u.type = '' @ quoted ''hints'',
     ''                AND h.challenge_id = s.challenge_id'',
     ''                AND u.team_id = :entity_id'',
     ''            )''] @ ''        '' else [])"

definition details_sql :: "string \<Rightarrow> string" where
  "details_sql i = (if i = ''category_masters'' then category_masters_sql
     else let extra_join = details_join i; extra_where = details_where i in sql_text
    [''        SELECT'',
     ''            c.id AS challenge_id,'',
     ''            c.name AS challenge_name,'',
     ''            c.category,'',
     ''            c.value AS score,'',
     ''            s.date AS solve_date'',
     ''        FROM submissions s'',
     ''        JOIN solves sol ON sol.id = s.id'',
     ''        JOIN challenges c ON c.id = s.challenge_id'',
     ''        '' @ extra_join,
     ''        WHERE s.type = '' @ quoted ''correct'',
     ''        AND '' @ ''s.team_id'' @ '' = :entity_id'',
     ''        '' @ extra_where,
     ''        ORDER BY c.category, c.name''] @ ''    '')"

definition detail_row :: "string \<Rightarrow> dict \<Rightarrow> dict" where
  "detail_row i row = (if i = ''category_masters''
     then [(''category'', dget row ''category''), (''solved_count'', dget row ''solved_count''),
       (''total_challenges'', dget row ''total_challenges''), (''full_clear_date'', serialize_utc_datetime (dget row ''full_clear_date''))]
     else [(''challenge_id'', dget row ''challenge_id''), (''challenge_name'', dget row ''challenge_name''),
       (''category'', dget row ''category''), (''score'', dget row ''score''),
       (''solve_date'', serialize_utc_datetime (dget row ''solve_date''))])"

definition template_name :: "pyval \<Rightarrow> string" where
  "template_name v = (case v of PStr s \<Rightarrow> s | _ \<Rightarrow> [])"

definition rewards_details :: "runner \<Rightarrow> pyval \<Rightarrow> py_exc + dict list rewarded" where
  "rewards_details run body =
     bindE (json_object body) (\<lambda>payload.
     let i = template_name (dget payload ''template_id''); entity = dget payload ''entity_id'' in
     if \<not> truthy entity then Inr (RewardDenied 400 ''entity_id is required'')
     else bindE (py_int entity) (\<lambda>e.
       bindE (run (details_sql i) [(''entity_id'', PInt e)]) (\<lambda>rows. Inr (Rewarded (map (detail_row i) rows)))))"

section \<open>Values never reach the text\<close>

text \<open>
  What of a filter the text depends on: its field and operator, the length of a list, and
  whether one of the two clearing filters is on.
\<close>

definition filter_shape :: "filter_spec \<Rightarrow> string \<times> string \<times> nat \<times> bool" where
  "filter_shape f = (fs_field f, fs_operator f, (case fs_value f of PList vs \<Rightarrow> length vs | _ \<Rightarrow> 0),
     fs_field f \<in> {''full_clear_category'', ''first_clear_each_category''} \<and> truthy (fs_value f))"

definition query_shape :: "query_spec \<Rightarrow> string \<times> string \<times> (string \<times> string \<times> nat \<times> bool) list \<times> pyval \<times> pyval" where
  "query_shape s = (qs_entity s, qs_metric s, map filter_shape (qs_filters s), dget (qs_order s) ''field'',
     dget_default (qs_order s) ''direction'' (PStr ''asc''))"

definition same_text :: "collected \<Rightarrow> collected \<Rightarrow> bool" where
  "same_text c d = (co_base c = co_base d \<and> co_agg c = co_agg d \<and> co_rank c = co_rank d \<and> co_bracket c = co_bracket d \<and>
     co_first_clear c = co_first_clear d \<and> truthy (co_full_clear c) = truthy (co_full_clear d))"

lemma same_text_refl [simp]: "same_text c c"
  by (simp add: same_text_def)

lemma same_text_trans: "same_text a b \<Longrightarrow> same_text b c \<Longrightarrow> same_text a c"
  by (simp add: same_text_def)

lemma same_text_sym: "same_text a b \<Longrightarrow> same_text b a"
  by (simp add: same_text_def)

lemma same_text_steps [simp]:
  "same_text (bind_param k v c) d = same_text c d" "same_text c (bind_param k v d) = same_text c d"
  "same_text c d \<Longrightarrow> same_text (base_condition s c) (base_condition s d)"
  "same_text c d \<Longrightarrow> same_text (agg_condition s c) (agg_condition s d)"
  "same_text c d \<Longrightarrow> same_text (rank_condition s c) (rank_condition s d)"
  "same_text c d \<Longrightarrow> same_text (c\<lparr>co_bracket := b\<rparr>) (d\<lparr>co_bracket := b\<rparr>)"
  "same_text c d \<Longrightarrow> x = y \<Longrightarrow> same_text (c\<lparr>co_first_clear := x\<rparr>) (d\<lparr>co_first_clear := y\<rparr>)"
  "same_text c d \<Longrightarrow> truthy v = truthy w \<Longrightarrow> same_text (c\<lparr>co_full_clear := v\<rparr>) (d\<lparr>co_full_clear := w\<rparr>)"
  by (simp_all add: same_text_def bind_param_def base_condition_def agg_condition_def rank_condition_def)

lemma in_filter_text:
  assumes "in_filter col conv key vs c = Inr c'"
  obtains d where "c' = base_condition (col @ '' IN ('' @ placeholders key (length vs) @ '')'') d" "same_text d c"
proof -
  obtain d where d: "foldE (\<lambda>c (j, v). bindE (conv v) (\<lambda>w. Inr (bind_param (item_key key j) w c))) c (enumerate 0 vs) = Inr d"
    "c' = base_condition (col @ '' IN ('' @ placeholders key (length vs) @ '')'') d"
    using assms by (auto simp: in_filter_def bindE_Inr_iff)
  have "same_text d c"
    by (rule foldE_invariant[OF d(1), where P = "\<lambda>x. same_text x c"]) (auto simp: bindE_Inr_iff)
  with d(2) show ?thesis by (rule that)
qed

lemma compile_filter_text:
  assumes "compile_filter entity c (i, f) = Inr c'" "compile_filter entity d (i, g) = Inr d'"
    and "filter_shape f = filter_shape g" "same_text c d"
  shows "same_text c' d'"
proof -
  have s: "fs_field g = fs_field f" "fs_operator g = fs_operator f"
    and len: "\<And>vs ws. fs_value f = PList vs \<Longrightarrow> fs_value g = PList ws \<Longrightarrow> length ws = length vs"
    using assms(3) by (auto simp: filter_shape_def)
  have inF: "same_text c' d'" if v: "fs_value f = PList vs" "fs_value g = PList ws"
    and i: "in_filter col conv key vs c = Inr c'" "in_filter col conv key ws d = Inr d'" for col conv key vs ws
  proof -
    obtain a where a: "c' = base_condition (col @ '' IN ('' @ placeholders key (length vs) @ '')'') a" "same_text a c"
      using in_filter_text[OF i(1)] .
    obtain b where b: "d' = base_condition (col @ '' IN ('' @ placeholders key (length ws) @ '')'') b" "same_text b d"
      using in_filter_text[OF i(2)] .
    have "same_text a b" using a(2) b(2) assms(4) same_text_trans same_text_sym by metis
    then show ?thesis using len[OF v] by (simp add: a(1) b(1))
  qed
  note cf = compile_filter_def Let_def s bindE_Inr_iff
  consider "fs_field f \<in> {''solve_time'', ''first_blood'', ''hint_used'', ''solved_count''}"
    | "fs_field f \<in> {''total_score'', ''first_blood_count'', ''category_clear_count''}"
    | "fs_field f = ''wrong_count''" | "fs_field f = ''rank''" | "fs_field f = ''team_id''" | "fs_field f = ''bracket_id''"
    | "fs_field f \<in> {''full_clear_category'', ''first_clear_each_category''}"
    | "fs_field f = ''category''" | "fs_field f = ''challenge_id''" | "fs_field f \<notin> set FILTER_FIELDS"
    by (auto simp: FILTER_FIELDS_def)
  then show ?thesis
  proof cases
    case 1 then show ?thesis using assms(1,2,4) by (elim insertE emptyE) (simp_all add: cf, auto)
  next
    case 2 then show ?thesis using assms(1,2,4) by (elim insertE emptyE) (simp_all add: cf, auto)
  next
    case 3 then show ?thesis using assms(1,2,4) by (simp add: cf) auto
  next
    case 4 then show ?thesis using assms(1,2,4) by (simp add: cf split: if_split_asm) auto
  next
    case 5 then show ?thesis using assms(1,2,4) by (simp add: cf) auto
  next
    case 6 then show ?thesis using assms(1,2,4) by (simp add: cf) auto
  next
    case 7
    then have "truthy (fs_value f) = truthy (fs_value g)" using assms(3) s by (auto simp: filter_shape_def)
    then show ?thesis using 7 assms(1,2,4) by (elim insertE emptyE) (simp_all add: cf, auto)
  next
    case 8
    then show ?thesis
    proof (cases "fs_operator f = ''IN''")
      case True
      then obtain vs ws where "fs_value f = PList vs" "fs_value g = PList ws"
        using 8 assms(1,2) by (simp add: cf split: pyval.split_asm)
      then show ?thesis using inF[of vs ws "''sf.category''" Inr "param_key i"] True 8 assms(1,2) by (simp add: cf)
    qed (use 8 assms(1,2,4) in \<open>simp add: cf, auto\<close>)
  next
    case 9
    then show ?thesis
    proof (cases "fs_operator f = ''IN''")
      case True
      then obtain vs ws where "fs_value f = PList vs" "fs_value g = PList ws"
        using 9 assms(1,2) by (simp add: cf split: pyval.split_asm)
      then show ?thesis using inF[of vs ws "''sf.challenge_id''" as_int "param_key i"] True 9 assms(1,2) by (simp add: cf)
    qed (use 9 assms(1,2,4) in \<open>simp add: cf, auto\<close>)
  next
    case 10
    then show ?thesis using assms(1,2,4) by (simp add: cf FILTER_FIELDS_def)
  qed
qed

lemma compile_filters_text:
  assumes "foldE (compile_filter entity) c (enumerate n fs) = Inr c'" "foldE (compile_filter entity) d (enumerate n gs) = Inr d'"
    and "map filter_shape fs = map filter_shape gs" "same_text c d"
  shows "same_text c' d'"
  using assms
proof (induction fs arbitrary: gs c d n)
  case (Cons f fs)
  then obtain g gs' where g: "gs = g # gs'" "filter_shape f = filter_shape g" "map filter_shape fs = map filter_shape gs'"
    by (cases gs) auto
  obtain x where x: "compile_filter entity c (n, f) = Inr x" "foldE (compile_filter entity) x (enumerate (Suc n) fs) = Inr c'"
    using Cons.prems(1) by (auto simp: bindE_Inr_iff)
  obtain y where y: "compile_filter entity d (n, g) = Inr y" "foldE (compile_filter entity) y (enumerate (Suc n) gs') = Inr d'"
    using Cons.prems(2) g(1) by (auto simp: bindE_Inr_iff)
  show ?case by (rule Cons.IH[OF x(2) y(2) g(3) compile_filter_text[OF x(1) y(1) g(2) Cons.prems(4)]])
qed simp

text \<open>
  Property C31: the text of a reward query never contains a value of the request: two queries
  that differ in the values of their filters and in the limit compile to the same SQL, so
  every value reaches the database as a bound parameter.
\<close>

theorem reward_query_injection_free:
  assumes "compile_query columns dialect s = Inr (sql, params)" "compile_query columns dialect s' = Inr (sql', params')"
    and "query_shape s = query_shape s'"
  shows "sql = sql'"
proof -
  have shape: "qs_entity s' = qs_entity s" "qs_metric s' = qs_metric s" "map filter_shape (qs_filters s) = map filter_shape (qs_filters s')"
    "dget (qs_order s') ''field'' = dget (qs_order s) ''field''"
    "dget_default (qs_order s') ''direction'' (PStr ''asc'') = dget_default (qs_order s) ''direction'' (PStr ''asc'')"
    using assms(3) by (auto simp: query_shape_def)
  obtain c where c: "compile_filters (qs_entity s) (qs_filters s) = Inr c"
    using assms(1) by (auto simp: compile_query_def Let_def bindE_Inr_iff split: if_split_asm)
  obtain d where d: "compile_filters (qs_entity s) (qs_filters s') = Inr d"
    using assms(2) shape by (auto simp: compile_query_def Let_def bindE_Inr_iff split: if_split_asm)
  have "same_text c d"
    by (rule compile_filters_text[OF c[unfolded compile_filters_def] d[unfolded compile_filters_def] shape(3)]) simp
  then have t: "co_base d = co_base c" "co_agg d = co_agg c" "co_rank d = co_rank c" "co_bracket d = co_bracket c"
    "co_first_clear d = co_first_clear c" "truthy (co_full_clear d) = truthy (co_full_clear c)"
    by (simp_all add: same_text_def)
  have o: "order_clause (qs_order s') = order_clause (qs_order s)" by (simp add: order_clause_def shape)
  show ?thesis
    using assms(1,2) unfolding compile_query_def Let_def shape c d o
    by (simp add: t bindE_Inr_iff split: if_split_asm)
qed

section \<open>Templates compile to valid queries\<close>

definition good_filter :: "pyval \<Rightarrow> bool" where
  "good_filter x = (\<exists>field op v. x = filter_dict field op v \<and> field \<in> set FILTER_FIELDS \<and> op \<in> set FILTER_OPERATORS \<and>
     (op = ''IN'' \<longrightarrow> (\<exists>vs. v = PList vs)))"

lemma good_filterI:
  "field \<in> set FILTER_FIELDS \<Longrightarrow> op \<in> set FILTER_OPERATORS \<Longrightarrow> op \<noteq> ''IN'' \<or> (\<exists>vs. v = PList vs) \<Longrightarrow> good_filter (filter_dict field op v)"
  unfolding good_filter_def by blast

lemma parse_good: "good_filter x \<Longrightarrow> \<exists>f. parse_filter x = Inr f"
  by (auto simp: good_filter_def filter_dict_def parse_filter_def dget_def named_in_def)

lemma mapE_succeeds: "(\<And>x. x \<in> set xs \<Longrightarrow> \<exists>y. f x = Inr y) \<Longrightarrow> \<exists>ys. mapE f xs = Inr ys"
  by (induction xs) fastforce+

lemma given_good: "field \<in> set FILTER_FIELDS \<Longrightarrow> op \<in> set FILTER_OPERATORS \<Longrightarrow> op \<noteq> ''IN'' \<Longrightarrow> x \<in> set (given field op v) \<Longrightarrow> good_filter x"
  by (auto simp: given_def good_filterI split: if_split_asm)

lemma names [simp]:
  "''='' \<in> set FILTER_OPERATORS" "''IN'' \<in> set FILTER_OPERATORS" "''<='' \<in> set FILTER_OPERATORS" "''>='' \<in> set FILTER_OPERATORS"
  "''category'' \<in> set FILTER_FIELDS" "''rank'' \<in> set FILTER_FIELDS" "''solved_count'' \<in> set FILTER_FIELDS"
  "''wrong_count'' \<in> set FILTER_FIELDS" "''solve_time'' \<in> set FILTER_FIELDS" "''first_blood'' \<in> set FILTER_FIELDS"
  "''hint_used'' \<in> set FILTER_FIELDS" "''total_score'' \<in> set FILTER_FIELDS" "''first_blood_count'' \<in> set FILTER_FIELDS"
  "''category_clear_count'' \<in> set FILTER_FIELDS" "''team_id'' \<in> set FILTER_FIELDS" "''challenge_id'' \<in> set FILTER_FIELDS"
  "''bracket_id'' \<in> set FILTER_FIELDS" "''first_clear_each_category'' \<in> set FILTER_FIELDS"
  by (simp_all add: FILTER_OPERATORS_def FILTER_FIELDS_def)

lemma category_filter_good: "add_category_filter (PList vs) = Inr fs \<Longrightarrow> x \<in> set fs \<Longrightarrow> good_filter x"
  by (auto simp: add_category_filter_def good_filterI split: list.splits)

lemma builder_filters_good:
  assumes "builder_filters t p = Inr fs" "has_key p ''categories'' \<longrightarrow> (\<exists>vs. dget p ''categories'' = PList vs)" "x \<in> set fs"
  shows "good_filter x"
proof -
  obtain cs ps bs where parts:
    "(if has_key p ''categories'' then add_category_filter (dget p ''categories'')
      else if has_key p ''category'' then add_category_filter (PList [dget p ''category'']) else Inr []) = Inr cs"
    "(if has_key p ''min_perfect_solves'' then add_perfect_solve_filter (dget p ''min_perfect_solves'') else Inr []) = Inr ps"
    "add_bracket_filter (dget p ''bracket_id'') = Inr bs"
    and fs: "fs = (if rt_id t = ''first_clear_each_category'' then [filter_dict ''first_clear_each_category'' ''='' (PBool True)] else []) @
       given ''rank'' ''>='' (dget p ''min_rank'') @ given ''rank'' ''<='' (dget p ''max_rank'') @
       given ''total_score'' ''>='' (dget p ''min_score'') @ given ''total_score'' ''<='' (dget p ''max_score'') @
       cs @ given ''solved_count'' ''>='' (dget p ''min_solves'') @
       given ''wrong_count'' ''>='' (dget p ''min_attempts'') @ given ''wrong_count'' ''<='' (dget p ''max_attempts'') @ ps @
       (if chosen t p ''only_first_blood'' then [filter_dict ''first_blood'' ''='' (PBool True)] else []) @
       (if chosen t p ''no_hints'' then [filter_dict ''hint_used'' ''='' (PBool False)] else []) @
       given ''solve_time'' ''<='' (dget p ''max_solve_time'') @ given ''first_blood_count'' ''>='' (dget p ''min_count'') @
       given ''category_clear_count'' ''>='' (dget p ''min_categories_solved'') @
       given ''team_id'' ''='' (dget p ''team_id'') @ add_challenge_filter (dget p ''challenge_id'') @ bs"
    using assms(1) unfolding builder_filters_def bindE_Inr_iff by blast
  have "good_filter x" if "x \<in> set cs"
    using parts(1) assms(2) that category_filter_good by (auto split: if_split_asm)
  moreover have "good_filter x" if "x \<in> set ps"
    using parts(2) that by (auto simp: add_perfect_solve_filter_def good_filterI split: if_split_asm option.splits)
  moreover have "good_filter x" if "x \<in> set bs"
    using parts(3) that by (auto simp: add_bracket_filter_def bindE_Inr_iff good_filterI split: if_split_asm)
  moreover have "good_filter x" if "x \<in> set (add_challenge_filter (dget p ''challenge_id''))"
    using that by (auto simp: add_challenge_filter_def good_filterI split: pyval.splits)
  ultimately show ?thesis
    using assms(3) unfolding fs by (auto simp: good_filterI split: if_split_asm elim!: given_good[rotated 3])
qed
text \<open>The configuration of every template passes the checks.\<close>

definition config_valid :: "reward_template \<Rightarrow> bool" where
  "config_valid t = (rt_id t \<noteq> [] \<and>
     (case dget (builder_config t) ''entity'' of PStr e \<Rightarrow> e \<in> set ALLOWED_ENTITIES | _ \<Rightarrow> False) \<and>
     (case dget (builder_config t) ''metric'' of PStr m \<Rightarrow> m \<in> set ALLOWED_METRICS | _ \<Rightarrow> False) \<and>
     (case dget_default (builder_config t) ''order'' (PDict []) of
        PDict order \<Rightarrow> (case dget order ''field'' of PStr f \<Rightarrow> f \<in> set ORDER_FIELDS | _ \<Rightarrow> False) \<and>
          (case dget_default order ''direction'' (PStr ''asc'') of PStr x \<Rightarrow> x \<in> set ORDER_DIRECTIONS | _ \<Rightarrow> False)
      | _ \<Rightarrow> False))"

lemma templates_valid: "list_all (\<lambda>(i, t). case t of None \<Rightarrow> True | Some t \<Rightarrow> rt_id t = i \<and> config_valid t) REWARD_TEMPLATES"
  by code_simp

lemma get_template_valid:
  assumes "get_template i = Some t" shows "rt_id t = i \<and> config_valid t"
proof -
  have "(i, Some t) \<in> set REWARD_TEMPLATES" using assms by (auto simp: get_template_def split: option.splits dest: map_of_SomeD)
  then show ?thesis using templates_valid by (fastforce simp: list_all_iff)
qed

text \<open>
  Also proved: whatever parameters an organiser gives a template, as long as the limit is a
  positive integer and the categories are a list, the query built from it passes the checks of
  the query engine, under the name of the template and with the limit asked for.
\<close>

theorem template_queries_valid:
  assumes "build_query_from_template (PStr i) (PDict p) = Inr (Some q)"
    and "positive_limit (dget_default p ''limit'' (PInt 50))"
    and "has_key p ''categories'' \<longrightarrow> (\<exists>vs. dget p ''categories'' = PList vs)"
  shows "\<exists>s. validate_query_spec q = Inr s \<and> qs_rule s = i \<and> qs_limit s = dget_default p ''limit'' (PInt 50)"
proof -
  obtain t fs where t: "get_template i = Some t" "builder_filters t p = Inr fs"
    "q = builder_build t (dget_default p ''limit'' (PInt 50)) fs"
    using assms(1) by (auto simp: build_query_from_template_def bindE_Inr_iff split: option.splits)
  note v = get_template_valid[OF t(1)]
  obtain parsed where parsed: "mapE parse_filter fs = Inr parsed"
    using mapE_succeeds[of fs parse_filter] builder_filters_good[OF t(2) assms(3)] parse_good by blast
  obtain entity metric order field direction where c:
    "dget (builder_config t) ''entity'' = PStr entity" "entity \<in> set ALLOWED_ENTITIES"
    "dget (builder_config t) ''metric'' = PStr metric" "metric \<in> set ALLOWED_METRICS"
    "dget_default (builder_config t) ''order'' (PDict []) = PDict order"
    "dget order ''field'' = PStr field" "field \<in> set ORDER_FIELDS"
    "dget_default order ''direction'' (PStr ''asc'') = PStr direction" "direction \<in> set ORDER_DIRECTIONS"
    using v by (auto simp: config_valid_def split: pyval.splits)
  have q: "dget q ''rule'' = PStr i" "dget q ''entity'' = PStr entity" "dget q ''metric'' = PStr metric"
    "dget_default q ''filters'' (PList []) = PList fs" "dget_default q ''limit'' (PInt 500) = dget_default p ''limit'' (PInt 50)"
    "dget_default q ''order'' (PDict []) = PDict order" "i \<noteq> []"
    using v c by (auto simp: t(3) builder_build_def Let_def dget_def dget_default_def config_valid_def split: option.splits)
  show ?thesis
    by (simp add: validate_query_spec_def q named_in_def c assms(2) parsed Let_def)
qed

text \<open>A parameter of a preset that the builder does not read, and a filter on the wrong count.\<close>

lemma preset_parameter_ignored:
  "build_query_from_template (PStr ''category_masters'') (PDict [(''min_categories'', PInt 2)]) =
   build_query_from_template (PStr ''category_masters'') (PDict [])"
  by code_simp

lemma perfect_filter_counts_solves:
  "add_perfect_solve_filter (PInt 3) = Inr [filter_dict ''solved_count'' ''>='' (PInt 3)]"
  by code_simp

section \<open>Combining criteria\<close>

definition keyed_by :: "('v \<Rightarrow> 'k) \<Rightarrow> ('k \<times> 'v) list \<Rightarrow> bool" where
  "keyed_by f kvs = list_all (\<lambda>(k, v). k = f v) kvs"

lemma keyed_by_simps [simp]:
  "keyed_by f []" "keyed_by f (kv # kvs) = (fst kv = f (snd kv) \<and> keyed_by f kvs)"
  "keyed_by f (xs @ ys) = (keyed_by f xs \<and> keyed_by f ys)"
  by (auto simp: keyed_by_def)

lemma keyed_map: "keyed_by f kvs \<Longrightarrow> map (\<lambda>x. f (snd x)) kvs = map fst kvs"
  by (induction kvs) auto

lemma keyed_lookup: "keyed_by f kvs \<Longrightarrow> map_of kvs k = Some v \<Longrightarrow> f v = k"
  by (induction kvs) (auto split: if_split_asm)

lemma keyed_put: "keyed_by f kvs \<Longrightarrow> f v = k \<Longrightarrow> keyed_by f (put k v kvs)"
  unfolding put_def by (induction kvs) auto

lemma keys_put: "fst ` set (put k v d) = insert k (fst ` set d)"
  by (simp add: put_def dom_update)

definition union_ok :: "pyval set \<Rightarrow> (pyval \<times> dict) list \<Rightarrow> bool" where
  "union_ok E seen = (distinct (map fst seen) \<and> keyed_by entity_of seen \<and> fst ` set seen = E)"

lemma union_step_ok: "union_ok E seen \<Longrightarrow> union_ok (insert (entity_of row) E) (union_step seen row)"
proof -
  have "has_key seen (entity_of row) \<longleftrightarrow> entity_of row \<in> fst ` set seen" by (force simp: has_key_def list_ex_iff simp del: has_key_iff)
  then show "union_ok E seen \<Longrightarrow> ?thesis" unfolding union_step_def union_ok_def by auto
qed

lemma union_fold_ok: "union_ok E seen \<Longrightarrow> union_ok (E \<union> entity_of ` set rows) (foldl union_step seen rows)"
proof (induction rows arbitrary: E seen)
  case (Cons row rows)
  from Cons.IH[OF union_step_ok[OF Cons.prems, of row]] show ?case by simp
qed simp

lemma combine_union_entities:
  "distinct (map entity_of (combine_union results))"
  "entity_of ` set (combine_union results) = (\<Union>x\<in>set results. entity_of ` set (snd x))"
proof -
  have ok: "union_ok (entity_of ` set (concat (map snd results))) (foldl union_step [] (concat (map snd results)))"
    using union_fold_ok[of "{}" "[]"] by (simp add: union_ok_def)
  then have k: "keyed_by entity_of (foldl union_step [] (concat (map snd results)))" by (simp add: union_ok_def)
  have m: "map entity_of (combine_union results) = map fst (foldl union_step [] (concat (map snd results)))"
    unfolding keyed_map[OF k, symmetric] combine_union_def by simp
  show "distinct (map entity_of (combine_union results))" unfolding m using ok by (simp add: union_ok_def)
  have "entity_of ` set (combine_union results) = entity_of ` set (concat (map snd results))"
    using arg_cong[OF m, of set] ok by (simp only: union_ok_def set_map)
  then show "entity_of ` set (combine_union results) = (\<Union>x\<in>set results. entity_of ` set (snd x))" by auto
qed

definition scores_ok :: "pyval set \<Rightarrow> scoreboard \<Rightarrow> bool" where
  "scores_ok E scores = (distinct (map fst scores) \<and> keyed_by (entity_of \<circ> snd) scores \<and> fst ` set scores = E)"

lemma scores_ok_put: "scores_ok E scores \<Longrightarrow> entity_of row = e \<Longrightarrow> scores_ok (insert e E) (put e (score, row) scores)"
  by (simp add: scores_ok_def distinct_put keys_put keyed_put)

lemma add_weighted_ok:
  assumes "add_weighted scores (w, row) = Inr scores'" "scores_ok E scores"
  shows "scores_ok (insert (entity_of row) E) scores'"
proof (cases "map_of scores (entity_of row)")
  case None
  then obtain score where "scores' = put (entity_of row) (score, row) scores"
    using assms(1) by (auto simp: add_weighted_def Let_def bindE_Inr_iff)
  then show ?thesis using scores_ok_put[OF assms(2)] by simp
next
  case (Some x)
  then obtain score where s: "scores' = put (entity_of row) (score, snd x) scores"
    using assms(1) by (cases x) (auto simp: add_weighted_def Let_def bindE_Inr_iff)
  have "entity_of (snd x) = entity_of row" using keyed_lookup[OF _ Some, of "entity_of \<circ> snd"] assms(2) by (simp add: scores_ok_def)
  then show ?thesis unfolding s by (rule scores_ok_put[OF assms(2)])
qed

lemma fold_weighted_ok:
  "foldE add_weighted scores rows = Inr scores' \<Longrightarrow> scores_ok E scores \<Longrightarrow> scores_ok (E \<union> entity_of ` snd ` set rows) scores'"
proof (induction rows arbitrary: scores E)
  case (Cons x rows)
  then obtain s where s: "add_weighted scores x = Inr s" "foldE add_weighted s rows = Inr scores'" by (auto simp: bindE_Inr_iff)
  have "scores_ok (insert (entity_of (snd x)) E) s" using add_weighted_ok[of scores "fst x" "snd x" s E] s(1) Cons.prems(2) by simp
  then have "scores_ok (insert (entity_of (snd x)) E \<union> entity_of ` snd ` set rows) scores'" by (rule Cons.IH[OF s(2)])
  then show ?case by simp
qed simp

lemma weighted_rows_snd: "snd ` set (weighted_rows results) = (\<Union>x\<in>set results. set (snd x))"
  by (induction results) (auto simp: weighted_rows_def image_Un image_image)

lemma combine_weighted_entities:
  assumes "combine_weighted_score results = Inr rows"
  shows "distinct (map entity_of rows)" "entity_of ` set rows = (\<Union>x\<in>set results. entity_of ` set (snd x))"
    "sorted (map score_key rows)"
proof -
  obtain scores where s: "foldE add_weighted [] (weighted_rows results) = Inr scores"
    and rows: "rows = sort_key score_key (map (\<lambda>(_, score, row). put ''metric_value'' score (put ''combined_score'' score row)) scores)"
    using assms by (auto simp: combine_weighted_score_def bindE_Inr_iff)
  have ok: "scores_ok (entity_of ` snd ` set (weighted_rows results)) scores"
    using fold_weighted_ok[OF s, of "{}"] by (simp add: scores_ok_def)
  let ?rows = "map (\<lambda>(_, score, row). put ''metric_value'' score (put ''combined_score'' score row)) scores"
  have "map entity_of ?rows = map (\<lambda>x. (entity_of \<circ> snd) (snd x)) scores" by (auto simp: entity_of_def)
  also have "\<dots> = map fst scores" by (rule keyed_map[where f = "entity_of \<circ> snd"]) (use ok in \<open>simp add: scores_ok_def\<close>)
  finally have m: "map entity_of ?rows = map fst scores" .
  have "mset (map entity_of rows) = mset (map fst scores)" unfolding rows m[symmetric] by (simp only: mset_map mset_sort)
  then have "distinct (map entity_of rows) = distinct (map fst scores)" "set (map entity_of rows) = set (map fst scores)"
    by (metis mset_eq_imp_distinct_iff, metis mset_eq_setD)
  then show "distinct (map entity_of rows)" "entity_of ` set rows = (\<Union>x\<in>set results. entity_of ` set (snd x))"
    using ok unfolding scores_ok_def weighted_rows_snd by (simp_all only: set_map) auto
  show "sorted (map score_key rows)" by (simp add: rows)
qed

text \<open>
  Also proved: a query of several criteria lists, for an intersection, exactly the accounts
  every criterion lists and, for a union or a weighted score, exactly those some criterion
  lists, each once; weighted results come in the order of falling scores.
\<close>

theorem criteria_combined:
  assumes "execute_criteria run columns dialect q = Inr c" "mapE (run_rule run columns dialect) (cq_rules q) = Inr results"
    and "results \<noteq> []"
  shows "entity_of ` set (cb_rows c) =
      (if cq_method q = PStr ''intersection'' then (\<Inter>x\<in>set results. entity_of ` set (snd x))
       else (\<Union>x\<in>set results. entity_of ` set (snd x))) \<and>
    (cq_method q = PStr ''intersection'' \<or> distinct (map entity_of (cb_rows c))) \<and>
    (cq_method q = PStr ''weighted_score'' \<longrightarrow> sorted (map score_key (cb_rows c)))"
proof -
  obtain r rs rest where results: "results = (r, rs) # rest" using assms(3) by (cases results) auto
  have inter: "entity_of ` set (combine_intersection results) = (\<Inter>x\<in>set results. entity_of ` set (snd x))"
    unfolding combine_intersection_def results by (fastforce simp: list_all_iff)
  have rows: "(if cq_method q = PStr ''intersection'' then Inr (combine_intersection results)
      else if cq_method q = PStr ''union'' then Inr (combine_union results)
      else if cq_method q = PStr ''weighted_score'' then combine_weighted_score results
      else Inl (ValueError ''Unknown combine method'')) = Inr (cb_rows c)"
    using assms(1,2) unfolding execute_criteria_def bindE_Inr_iff by (metis (no_types, lifting) Inr_inject combined.select_convs(1))
  consider "cq_method q = PStr ''intersection''" "cb_rows c = combine_intersection results"
    | "cq_method q = PStr ''union''" "cb_rows c = combine_union results"
    | "cq_method q = PStr ''weighted_score''" "combine_weighted_score results = Inr (cb_rows c)"
    using rows by (auto split: if_split_asm)
  then show ?thesis
    by cases (simp_all add: inter combine_union_entities combine_weighted_entities)
qed

section \<open>Witnesses\<close>

definition sample_columns :: "string \<Rightarrow> string list" where
  "sample_columns t = [''id'', ''team_id'', ''user_id'', ''challenge_id'', ''date'', ''type'', ''value'', ''category'', ''name'', ''target'']"

definition web_query :: "string \<Rightarrow> query_spec" where
  "web_query v = \<lparr>qs_rule = ''r'', qs_entity = ''team'', qs_metric = ''TEAM_TOTAL_SCORE'',
     qs_filters = [\<lparr>fs_field = ''category'', fs_operator = ''='', fs_value = PStr v\<rparr>], qs_limit = PInt 10, qs_order = []\<rparr>"

lemma sample_schema: "assert_schema sample_columns ''team'' = Inr ()"
  by code_simp

lemma team_query_compiles:
  assumes "qs_entity s = ''team''" "qs_metric s \<noteq> ''FIRST_BLOOD''" "compile_filters ''team'' (qs_filters s) = Inr c"
  shows "\<exists>sql p. compile_query sample_columns dialect s = Inr (sql, p)"
  using assms by (simp add: compile_query_def sample_schema Let_def)

lemma web_query_compiles: "\<exists>sql p. compile_query sample_columns dialect (web_query v) = Inr (sql, p)"
  by (rule team_query_compiles) (simp_all add: web_query_def compile_filters_def compile_filter_def Let_def)

theorem reward_query_injection_free_witness:
  "\<exists>sql p p'. compile_query sample_columns ''mysql'' (web_query ''Web'') = Inr (sql, p) \<and>
     compile_query sample_columns ''mysql'' (web_query ''x; DROP TABLE users'') = Inr (sql, p')"
proof -
  obtain sql p where 1: "compile_query sample_columns ''mysql'' (web_query ''Web'') = Inr (sql, p)"
    using web_query_compiles by blast
  obtain sql' p' where 2: "compile_query sample_columns ''mysql'' (web_query ''x; DROP TABLE users'') = Inr (sql', p')"
    using web_query_compiles by blast
  have "query_shape (web_query ''Web'') = query_shape (web_query ''x; DROP TABLE users'')"
    by (simp add: query_shape_def web_query_def filter_shape_def)
  from reward_query_injection_free[OF 1 2 this] 1 2 show ?thesis by blast
qed

definition top_query :: dict where
  "top_query = [(''rule'', PStr ''top_teams_by_score''), (''entity'', PStr ''team''), (''metric'', PStr ''TEAM_TOTAL_SCORE''),
     (''filters'', PList [filter_dict ''category'' ''='' (PStr ''Web'')]), (''limit'', PInt 3),
     (''order'', PDict [(''field'', PStr ''metric_value''), (''direction'', PStr ''desc'')])]"

definition top_params :: dict where
  "top_params = [(''limit'', PInt 3), (''category'', PStr ''Web'')]"

lemma top_query_built: "build_query_from_template (PStr ''top_teams_by_score'') (PDict top_params) = Inr (Some top_query)"
  by code_simp

theorem template_queries_valid_witness:
  "\<exists>s. validate_query_spec top_query = Inr s \<and> qs_rule s = ''top_teams_by_score'' \<and> qs_limit s = PInt 3"
proof -
  have "positive_limit (dget_default top_params ''limit'' (PInt 50))" "\<not> has_key top_params ''categories''"
    "dget_default top_params ''limit'' (PInt 50) = PInt 3" by code_simp+
  with template_queries_valid[OF top_query_built] show ?thesis by simp
qed

definition sample_rule :: criteria_rule where
  "sample_rule = \<lparr>cr_template = PStr ''top_teams_by_score'', cr_params = PDict top_params, cr_weight = PFloat 1\<rparr>"

definition result_rows :: "dict list" where
  "result_rows = [[(''entity_id'', PInt 7), (''entity_name'', PStr ''a''), (''metric_value'', PInt 500)],
     [(''entity_id'', PInt 3), (''entity_name'', PStr ''b''), (''metric_value'', PInt 900)]]"

definition sample_criteria :: criteria_query where
  "sample_criteria = \<lparr>cq_rules = [sample_rule, sample_rule], cq_logic = PStr ''OR'', cq_method = PStr ''union''\<rparr>"

lemma sample_rule_runs: "run_rule (\<lambda>_ _. Inr result_rows) sample_columns ''mysql'' sample_rule = Inr (sample_rule, result_rows)"
proof -
  let ?s = "\<lparr>qs_rule = ''top_teams_by_score'', qs_entity = ''team'', qs_metric = ''TEAM_TOTAL_SCORE'',
    qs_filters = [\<lparr>fs_field = ''category'', fs_operator = ''='', fs_value = PStr ''Web''\<rparr>], qs_limit = PInt 3,
    qs_order = [(''field'', PStr ''metric_value''), (''direction'', PStr ''desc'')]\<rparr>"
  have v: "validate_query_spec top_query = Inr ?s" by code_simp
  obtain sql p where "compile_query sample_columns ''mysql'' ?s = Inr (sql, p)"
    using team_query_compiles[of ?s] by (simp add: compile_filters_def compile_filter_def Let_def) blast
  then have "\<exists>x. execute_query (\<lambda>_ _. Inr result_rows) sample_columns ''mysql'' ?s = Inr x \<and> qr_rows x = map result_row result_rows"
    by (simp add: execute_query_def)
  moreover have "map result_row result_rows = result_rows" by code_simp
  ultimately show ?thesis by (auto simp: run_rule_def sample_rule_def top_query_built v)
qed

theorem criteria_combined_witness:
  "\<exists>c. execute_criteria (\<lambda>_ _. Inr result_rows) sample_columns ''mysql'' sample_criteria = Inr c \<and>
     entity_of ` set (cb_rows c) = {PInt 7, PInt 3}"
proof -
  have m: "mapE (run_rule (\<lambda>_ _. Inr result_rows) sample_columns ''mysql'') (cq_rules sample_criteria) =
      Inr [(sample_rule, result_rows), (sample_rule, result_rows)]"
    by (simp add: sample_criteria_def sample_rule_runs)
  obtain c where c: "execute_criteria (\<lambda>_ _. Inr result_rows) sample_columns ''mysql'' sample_criteria = Inr c"
    by (simp add: execute_criteria_def m) (simp add: sample_criteria_def)
  have "entity_of ` set result_rows = {PInt 7, PInt 3}" by (simp add: result_rows_def entity_of_def dget_def)
  then show ?thesis using criteria_combined[OF c m] c by (auto simp: sample_criteria_def)
qed

end
