(* ===== verification/Poller.thy ===== *)
theory Poller imports SubmissionsApi begin

text \<open>
  The synchronisation with the cyber range: \<^verbatim>\<open>utils/kypo_poller.py\<close>, the readers of
  \<^verbatim>\<open>plugins/sandbox_challenges/routes.py\<close> and the token cache and passwords of
  \<^verbatim>\<open>utils/keycloak_service.py\<close>.  The answers of the range, of Keycloak and of the Redis
  server are arguments; the database is the one of the scoring model.  Exceptions while a
  participant is read end the work on the instance; which one it was does not matter.
\<close>

section \<open>Text\<close>

definition contains :: "string \<Rightarrow> string \<Rightarrow> bool" where
  "contains p s = list_ex (\<lambda>i. take (length p) (drop i s) = p) [0..<Suc (length s)]"

definition ends_with :: "string \<Rightarrow> string \<Rightarrow> bool" where
  "ends_with p s = starts_with (rev p) (rev s)"

text \<open>
  \<open>upper\<close>: a character whose upper case is beyond Latin-1 stays as it is, which no comparison
  with an English word notices.
\<close>

definition py_upper_char :: "char \<Rightarrow> string" where
  "py_upper_char c = (let n = py_ord c in
     if (97 \<le> n \<and> n \<le> 122) \<or> (224 \<le> n \<and> n \<le> 254 \<and> n \<noteq> 247) then [char_of (n - 32)]
     else if n = 223 then ''SS'' else [c])"

definition py_upper :: "string \<Rightarrow> string" where
  "py_upper s = concat (map py_upper_char s)"

text \<open>\<open>isalnum\<close> on one character: letters, digits, superscripts and fractions.\<close>

definition py_isalnum :: "char \<Rightarrow> bool" where
  "py_isalnum c = (let n = py_ord c in
     (48 \<le> n \<and> n \<le> 57) \<or> (65 \<le> n \<and> n \<le> 90) \<or> (97 \<le> n \<and> n \<le> 122) \<or>
     n \<in> {170, 178, 179, 181, 185, 186, 188, 189, 190} \<or> (192 \<le> n \<and> n \<noteq> 215 \<and> n \<noteq> 247))"

section \<open>Progress of a training run\<close>

fun filterE :: "('a \<Rightarrow> 'e + bool) \<Rightarrow> 'a list \<Rightarrow> 'e + 'a list" where
  "filterE p [] = Inr []"
| "filterE p (x # xs) = bindE (p x) (\<lambda>b. bindE (filterE p xs) (\<lambda>ys. Inr (if b then x # ys else ys)))"

definition object_of :: "pyval \<Rightarrow> py_exc + dict" where
  "object_of v = (case v of PDict d \<Rightarrow> Inr d | _ \<Rightarrow> Inl AttributeError)"

text \<open>\<open>v or []\<close>, iterated; \<open>v or ''\<close>, of which a method is called; \<open>int(v or 0)\<close>.\<close>

definition list_or :: "pyval \<Rightarrow> py_exc + pyval list" where
  "list_or v = (if \<not> truthy v then Inr [] else case v of PList xs \<Rightarrow> Inr xs | _ \<Rightarrow> Inl TypeError)"

definition text_or :: "pyval \<Rightarrow> py_exc + string" where
  "text_or v = (if \<not> truthy v then Inr [] else case v of PStr s \<Rightarrow> Inr s | _ \<Rightarrow> Inl AttributeError)"

definition int_or :: "pyval \<Rightarrow> py_exc + int" where
  "int_or v = py_int (if truthy v then v else PInt 0)"

definition in_text :: "string \<Rightarrow> pyval \<Rightarrow> py_exc + bool" where
  "in_text p v = (if \<not> truthy v then Inr False else case v of
      PStr s \<Rightarrow> Inr (contains p s) | PList xs \<Rightarrow> Inr (PStr p \<in> set xs) | PDict d \<Rightarrow> Inr (has_key d p) | _ \<Rightarrow> Inl TypeError)"

definition completed_events :: "dict \<Rightarrow> py_exc + dict list" where
  "completed_events level =
     bindE (list_or (dget level ''events'')) (\<lambda>es. bindE (mapE object_of es) (\<lambda>ds.
     filterE (\<lambda>e. in_text ''LevelCompleted'' (dget e ''type'')) ds))"

definition get_level_score :: "dict \<Rightarrow> py_exc + int" where
  "get_level_score level = bindE (completed_events level) (\<lambda>cs.
     if cs \<noteq> [] then int_or (dget (last cs) ''actual_score_in_level'')
     else if dget level ''score'' \<noteq> PNone then int_or (dget level ''score'') else Inr 0)"

definition level_state :: "dict \<Rightarrow> py_exc + string" where
  "level_state level = bindE (text_or (dget level ''state'')) (\<lambda>s. Inr (py_upper s))"

definition level_is_completed :: "dict \<Rightarrow> py_exc + bool" where
  "level_is_completed level = bindE (level_state level) (\<lambda>s.
     if s = ''FINISHED'' then Inr True else bindE (completed_events level) (\<lambda>cs. Inr (cs \<noteq> [])))"

definition calc_status_and_score :: "pyval \<Rightarrow> py_exc + string \<times> int" where
  "calc_status_and_score levels =
     bindE (list_or levels) (\<lambda>vs. if vs = [] then Inr (''NOT_STARTED'', 0) else
     bindE (mapE object_of vs) (\<lambda>lvs.
     bindE (mapE get_level_score lvs) (\<lambda>scores.
     bindE (mapE level_state lvs) (\<lambda>states.
     bindE (mapE level_is_completed lvs) (\<lambda>done_levels.
     Inr (if list_all id done_levels then ''FINISHED''
          else if list_ex (\<lambda>s. s = ''RUNNING'' \<or> s = ''FINISHED'') states then ''IN_PROGRESS'' else ''NOT_STARTED'',
          sum_list scores))))))"

section \<open>Which team a participant is\<close>

record kypo_account =
  ka_team_id :: int
  ka_user_id :: string
  ka_username :: string
  ka_password :: string

record kypo_config =
  kc_challenge_id :: int
  kc_instance_id :: int
  kc_access_token :: string
  kc_instance_type :: "string option"
  kc_base_url :: "string option"

text \<open>Names as keys: the account, the display name of today, and the name within the account's.\<close>

definition display_name :: "string \<Rightarrow> string" where
  "display_name name = name @ '' FCTF Team''"

definition add_account ::
  "db \<Rightarrow> (string \<times> int) list \<times> (string \<times> int) list \<Rightarrow> kypo_account \<Rightarrow> (string \<times> int) list \<times> (string \<times> int) list" where
  "add_account d acc a = (case acc of (names, safe) \<Rightarrow>
     let t = ka_team_id a; u = ka_username a;
         names1 = put (py_lower u) t (put u t names);
         names2 = (case team_by_id d t of None \<Rightarrow> names1
           | Some team \<Rightarrow> let n = display_name (te_name team) in put (py_lower n) t (put n t names1));
         parts = split_on CHR ''_'' u in
     (names2, if 3 \<le> length parts \<and> hd parts = ''fctf'' then put (join_with ''_'' (butlast (tl parts))) t safe else safe))"

definition account_names :: "db \<Rightarrow> kypo_account list \<Rightarrow> (string \<times> int) list \<times> (string \<times> int) list" where
  "account_names d accounts = foldl (add_account d) ([], []) accounts"

definition safe_first :: "string \<Rightarrow> string" where
  "safe_first name = take 20 (map (\<lambda>c. if py_isalnum c then c else CHR ''_'') (py_lower name))"

definition find_team :: "(string \<times> int) list \<times> (string \<times> int) list \<Rightarrow> string \<Rightarrow> int option" where
  "find_team ns name = (case map_of (fst ns) name of
      Some t \<Rightarrow> Some t
    | None \<Rightarrow> (case map_of (fst ns) (py_lower name) of
        Some t \<Rightarrow> Some t
      | None \<Rightarrow> if ends_with '' fctf team'' (py_lower name)
          then map_of (snd ns) (safe_first (py_strip (take (length name - 10) name))) else None))"

section \<open>Recording a solve\<close>

text \<open>
  The statements of \<open>_insert_solve\<close>: the answer, then its row in the child table, which
  \<open>INSERT IGNORE\<close> leaves out when it breaks a unique constraint.  A missing team or challenge
  breaks a foreign key and rolls everything back.
\<close>

definition representative :: "db \<Rightarrow> team \<Rightarrow> int option" where
  "representative d t = (case te_captain_id t of
      Some u \<Rightarrow> if u \<noteq> 0 then Some u else (case team_members d t of [] \<Rightarrow> Some u | m # _ \<Rightarrow> Some (us_id m))
    | None \<Rightarrow> (case team_members d t of [] \<Rightarrow> None | m # _ \<Rightarrow> Some (us_id m)))"

definition kypo_answer :: "int \<Rightarrow> int \<Rightarrow> int option \<Rightarrow> int \<Rightarrow> submission" where
  "kypo_answer now cid uid tid = \<lparr>sub_id = 0, sub_challenge_id = Some cid, sub_user_id = uid, sub_team_id = Some tid,
     sub_ip = Some [], sub_provided = Some ''(kypo)'', sub_type = Some ''correct'', sub_date = Some now\<rparr>"

definition solved_by_team :: "db \<Rightarrow> int \<Rightarrow> int \<Rightarrow> bool" where
  "solved_by_team d cid tid = list_ex (\<lambda>r. sv_challenge_id r = Some cid \<and> sv_team_id r = Some tid) (solve_rows d)"

definition record_solve :: "int \<Rightarrow> int \<Rightarrow> int \<Rightarrow> db \<Rightarrow> db" where
  "record_solve now cid tid d =
     (if solved_by_team d cid tid then d
      else case team_by_id d tid of
        None \<Rightarrow> d
      | Some t \<Rightarrow> if challenge_by_id d cid = None then d
          else let s = kypo_answer now cid (representative d t) tid in
            case insert_solve s d of Inr d' \<Rightarrow> d' | Inl e \<Rightarrow> add_submission s d)"

section \<open>One cycle\<close>

record range_state =
  rg_db :: db
  rg_cache :: "(string \<times> int \<times> dict) list"

definition REDIS_TTL :: int where
  "REDIS_TTL = 7200"

definition redis_key :: "int \<Rightarrow> int \<Rightarrow> string" where
  "redis_key cid tid = ''kypo_progress_'' @ show_int cid @ ''_'' @ show_int tid"

definition cache_progress :: "int \<Rightarrow> int \<Rightarrow> int \<Rightarrow> dict \<Rightarrow> range_state \<Rightarrow> range_state" where
  "cache_progress now cid tid payload st = st\<lparr>rg_cache := put (redis_key cid tid) (now + REDIS_TTL, payload) (rg_cache st)\<rparr>"

definition sync_participant ::
  "int \<Rightarrow> string \<Rightarrow> kypo_config \<Rightarrow> (string \<times> int) list \<times> (string \<times> int) list \<Rightarrow> range_state \<Rightarrow> pyval \<Rightarrow> py_exc + range_state" where
  "sync_participant now stamp cfg ns st p =
     bindE (object_of p) (\<lambda>participant.
     case dget_default participant ''name'' (PStr []) of
       PStr name \<Rightarrow> (case find_team ns name of
           None \<Rightarrow> Inr st
         | Some tid \<Rightarrow>
             let levels = dget_default participant ''levels'' (PList []) in
             bindE (calc_status_and_score levels) (\<lambda>(status, score).
             let st' = cache_progress now (kc_challenge_id cfg) tid
                   [(''challenge_id'', PInt (kc_challenge_id cfg)), (''team_id'', PInt tid),
                    (''training_run_id'', dget participant ''training_run_id''), (''kypo_username'', PStr name),
                    (''kypo_instance_id'', PInt (kc_instance_id cfg)), (''status'', PStr status), (''score'', PInt score),
                    (''levels'', levels), (''last_synced'', PStr stamp)] st in
             Inr (if status = ''FINISHED'' then st'\<lparr>rg_db := record_solve now (kc_challenge_id cfg) tid (rg_db st')\<rparr> else st')))
     | _ \<Rightarrow> Inl AttributeError)"

text \<open>An exception ends the loop; what was done before it stays.\<close>

fun run_until :: "('s \<Rightarrow> 'a \<Rightarrow> 'e + 's) \<Rightarrow> 's \<Rightarrow> 'a list \<Rightarrow> 's" where
  "run_until f s [] = s"
| "run_until f s (x # xs) = (case f s x of Inl e \<Rightarrow> s | Inr s' \<Rightarrow> run_until f s' xs)"

definition service_base :: "string \<Rightarrow> string \<Rightarrow> string" where
  "service_base base_url kind = (if kind = ''adaptive'' then base_url @ ''/adaptive-training/api/v1'' else base_url @ ''/training/api/v1'')"

type_synonym fetcher = "string \<Rightarrow> string \<Rightarrow> int \<Rightarrow> py_exc + dict"

definition sync_instance ::
  "fetcher \<Rightarrow> string \<Rightarrow> string \<Rightarrow> int \<Rightarrow> string \<Rightarrow> (string \<times> int) list \<times> (string \<times> int) list \<Rightarrow> range_state \<Rightarrow> kypo_config \<Rightarrow> range_state" where
  "sync_instance fetch token base_url now stamp ns st cfg =
     (let kind = (case kc_instance_type cfg of Some k \<Rightarrow> if k = [] then ''linear'' else k | None \<Rightarrow> ''linear'') in
      case fetch token (service_base base_url kind) (kc_instance_id cfg) of
        Inl e \<Rightarrow> st
      | Inr data \<Rightarrow> (case dget_default data ''progress'' (PList []) of
            PList ps \<Rightarrow> run_until (sync_participant now stamp cfg ns) st ps
          | _ \<Rightarrow> st))"

definition run_poll_cycle ::
  "fetcher \<Rightarrow> py_exc + string \<Rightarrow> string \<Rightarrow> int \<Rightarrow> string \<Rightarrow> kypo_config list \<Rightarrow> kypo_account list \<Rightarrow> range_state \<Rightarrow> range_state" where
  "run_poll_cycle fetch admin_token base_url now stamp configs accounts st =
     (let ns = account_names (rg_db st) accounts in
      if configs = [] \<or> fst ns = [] then st
      else case admin_token of Inl e \<Rightarrow> st | Inr token \<Rightarrow> foldl (sync_instance fetch token base_url now stamp ns) st configs)"

section \<open>What a cycle changes\<close>

lemma record_solve_cases:
  obtains "record_solve now cid tid d = d"
  | t where "team_by_id d tid = Some t" "challenge_by_id d cid \<noteq> None" "\<not> solved_by_team d cid tid"
      "insert_solve (kypo_answer now cid (representative d t) tid) d = Inr (record_solve now cid tid d)"
  | t e where "team_by_id d tid = Some t" "challenge_by_id d cid \<noteq> None" "\<not> solved_by_team d cid tid"
      "insert_solve (kypo_answer now cid (representative d t) tid) d = Inl e"
      "record_solve now cid tid d = add_submission (kypo_answer now cid (representative d t) tid) d"
proof (cases "solved_by_team d cid tid \<or> challenge_by_id d cid = None")
  case True
  then show ?thesis using that(1) by (auto simp: record_solve_def split: option.splits)
next
  case False
  then obtain ch where ch: "challenge_by_id d cid = Some ch" by auto
  show ?thesis
  proof (cases "team_by_id d tid")
    case None
    then show ?thesis using False that(1) by (simp add: record_solve_def)
  next
    case (Some t)
    show ?thesis
    proof (cases "insert_solve (kypo_answer now cid (representative d t) tid) d")
      case (Inl e)
      then show ?thesis using that(3)[of t e] Some False ch by (simp add: record_solve_def Let_def)
    next
      case (Inr d')
      then show ?thesis using that(2)[of t] Some False ch by (simp add: record_solve_def Let_def)
    qed
  qed
qed

text \<open>Rows are only added, the new answers satisfy a predicate, and each new row of the solve table is one of theirs.\<close>

definition grown :: "(submission \<Rightarrow> bool) \<Rightarrow> db \<Rightarrow> db \<Rightarrow> bool" where
  "grown F d d' = (\<exists>new rows. submissions d' = submissions d @ new \<and> solve_rows d' = solve_rows d @ rows \<and> list_all F new \<and>
     set rows \<subseteq> child_of ` set new \<and> d' = d\<lparr>submissions := submissions d', solve_rows := solve_rows d'\<rparr>)"

lemma grown_refl [simp]: "grown F d d"
  unfolding grown_def by (intro exI[of _ "[]"]) simp

lemma grown_trans: "grown F a b \<Longrightarrow> grown F b c \<Longrightarrow> grown F a c"
proof -
  assume "grown F a b" "grown F b c"
  then obtain n1 r1 n2 r2 where b: "submissions b = submissions a @ n1" "solve_rows b = solve_rows a @ r1" "list_all F n1" "set r1 \<subseteq> child_of ` set n1"
      "b = a\<lparr>submissions := submissions b, solve_rows := solve_rows b\<rparr>"
    and c: "submissions c = submissions b @ n2" "solve_rows c = solve_rows b @ r2" "list_all F n2" "set r2 \<subseteq> child_of ` set n2"
      "c = b\<lparr>submissions := submissions c, solve_rows := solve_rows c\<rparr>"
    unfolding grown_def by blast
  have "b\<lparr>submissions := x, solve_rows := y\<rparr> = a\<lparr>submissions := x, solve_rows := y\<rparr>" for x y by (subst b(5)) simp
  then have "c = a\<lparr>submissions := submissions c, solve_rows := solve_rows c\<rparr>" by (rule trans[OF c(5)])
  then show ?thesis
    unfolding grown_def using b c by (intro exI[of _ "n1 @ n2"] exI[of _ "r1 @ r2"]) auto
qed

definition kypo_row :: "(int \<Rightarrow> int \<Rightarrow> bool) \<Rightarrow> submission \<Rightarrow> bool" where
  "kypo_row F s = (sub_provided s = Some ''(kypo)'' \<and> sub_type s = Some ''correct'' \<and>
     (case (sub_challenge_id s, sub_team_id s) of (Some cid, Some tid) \<Rightarrow> F cid tid | _ \<Rightarrow> False))"

lemma record_solve_grown: "F cid tid \<Longrightarrow> grown (kypo_row F) d (record_solve now cid tid d)"
proof (cases rule: record_solve_cases[of now cid tid d])
  case (2 t)
  assume F: "F cid tid"
  let ?s = "kypo_answer now cid (representative d t) tid"
  have "record_solve now cid tid d = (add_submission ?s d)\<lparr>solve_rows := solve_rows d @
      [\<lparr>sv_id = fresh_id sub_id (submissions d), sv_challenge_id = Some cid, sv_user_id = representative d t, sv_team_id = Some tid\<rparr>]\<rparr>"
    using 2(4) by (auto simp: insert_solve_def kypo_answer_def split: if_splits)
  then show ?thesis
    unfolding grown_def add_submission_def
    by (intro exI[of _ "[?s\<lparr>sub_id := fresh_id sub_id (submissions d)\<rparr>]"]) (auto simp: kypo_row_def kypo_answer_def child_of_def F)
next
  case (3 t e)
  assume F: "F cid tid"
  show ?thesis
    unfolding grown_def 3(5) add_submission_def
    by (intro exI[of _ "[kypo_answer now cid (representative d t) tid\<lparr>sub_id := fresh_id sub_id (submissions d)\<rparr>]"] exI[of _ "[]"])
      (auto simp: kypo_row_def kypo_answer_def F)
qed simp

lemma run_until_invariant:
  assumes "P s" "\<And>s x s'. P s \<Longrightarrow> x \<in> set xs \<Longrightarrow> f s x = Inr s' \<Longrightarrow> P s'" shows "P (run_until f s xs)"
  using assms
proof (induction xs arbitrary: s)
  case (Cons x xs)
  show ?case
  proof (cases "f s x")
    case (Inr s')
    have "P s'" by (rule Cons.prems(2)[OF Cons.prems(1) list.set_intros(1) Inr])
    then have "P (run_until f s' xs)" by (rule Cons.IH) (rule Cons.prems(2)[OF _ list.set_intros(2)])
    then show ?thesis by (simp add: Inr)
  qed (simp add: Cons.prems(1))
qed simp

text \<open>The range reports that the run of a team on an instance is finished.\<close>

definition reported_finished :: "fetcher \<Rightarrow> string \<Rightarrow> string \<Rightarrow> (string \<times> int) list \<times> (string \<times> int) list \<Rightarrow> kypo_config \<Rightarrow> int \<Rightarrow> bool" where
  "reported_finished fetch token base_url ns cfg tid \<longleftrightarrow> (\<exists>kind data ps participant name score.
     fetch token (service_base base_url kind) (kc_instance_id cfg) = Inr data \<and>
     dget_default data ''progress'' (PList []) = PList ps \<and> PDict participant \<in> set ps \<and>
     dget_default participant ''name'' (PStr []) = PStr name \<and> find_team ns name = Some tid \<and>
     calc_status_and_score (dget_default participant ''levels'' (PList [])) = Inr (''FINISHED'', score))"

lemma sync_participant_grown:
  assumes "sync_participant now stamp cfg ns st (PDict participant) = Inr st'"
    and "\<And>name tid score. dget_default participant ''name'' (PStr []) = PStr name \<Longrightarrow> find_team ns name = Some tid \<Longrightarrow>
      calc_status_and_score (dget_default participant ''levels'' (PList [])) = Inr (''FINISHED'', score) \<Longrightarrow> F (kc_challenge_id cfg) tid"
  shows "grown (kypo_row F) (rg_db st) (rg_db st')"
proof -
  obtain name where name: "dget_default participant ''name'' (PStr []) = PStr name"
    using assms(1) by (auto simp: sync_participant_def object_of_def split: pyval.splits)
  show ?thesis
  proof (cases "find_team ns name")
    case None
    then show ?thesis using assms(1) name by (simp add: sync_participant_def object_of_def)
  next
    case (Some tid)
    then obtain status score where status: "calc_status_and_score (dget_default participant ''levels'' (PList [])) = Inr (status, score)"
      and st': "rg_db st' = (if status = ''FINISHED'' then record_solve now (kc_challenge_id cfg) tid (rg_db st) else rg_db st)"
      using assms(1) name by (auto simp: sync_participant_def object_of_def Let_def bindE_Inr_iff cache_progress_def)
    show ?thesis
    proof (cases "status = ''FINISHED''")
      case True
      then have "F (kc_challenge_id cfg) tid" using assms(2)[OF name Some] status by simp
      then show ?thesis using True by (simp add: st' record_solve_grown)
    qed (simp add: st')
  qed
qed

lemma sync_instance_grown:
  "grown (kypo_row (\<lambda>c t. c = kc_challenge_id cfg \<and> reported_finished fetch token base_url ns cfg t))
     (rg_db st) (rg_db (sync_instance fetch token base_url now stamp ns st cfg))"
proof -
  let ?F = "\<lambda>c t. c = kc_challenge_id cfg \<and> reported_finished fetch token base_url ns cfg t"
  let ?kind = "case kc_instance_type cfg of Some k \<Rightarrow> if k = [] then ''linear'' else k | None \<Rightarrow> ''linear''"
  show ?thesis
  proof (cases "fetch token (service_base base_url ?kind) (kc_instance_id cfg)")
    case (Inl e)
    then show ?thesis unfolding sync_instance_def Let_def by simp
  next
    case (Inr data)
    show ?thesis
    proof (cases "dget_default data ''progress'' (PList [])")
      case (PList ps)
      have "grown (kypo_row ?F) (rg_db st) (rg_db (run_until (sync_participant now stamp cfg ns) st ps))"
      proof (rule run_until_invariant)
        fix s x s' assume g: "grown (kypo_row ?F) (rg_db st) (rg_db s)" and x: "x \<in> set ps"
          and s': "sync_participant now stamp cfg ns s x = Inr s'"
        obtain participant where p: "x = PDict participant" using s' by (auto simp: sync_participant_def object_of_def split: pyval.splits)
        have "grown (kypo_row ?F) (rg_db s) (rg_db s')"
          by (rule sync_participant_grown[OF s'[unfolded p]]) (unfold reported_finished_def, use Inr PList x p in blast)
        with g show "grown (kypo_row ?F) (rg_db st) (rg_db s')" by (rule grown_trans)
      qed simp
      then show ?thesis using Inr PList unfolding sync_instance_def Let_def by simp
    qed (use Inr in \<open>simp_all add: sync_instance_def Let_def\<close>)
  qed
qed

lemma grown_mono: "grown (kypo_row F) d d' \<Longrightarrow> (\<And>c t. F c t \<Longrightarrow> G c t) \<Longrightarrow> grown (kypo_row G) d d'"
  unfolding grown_def kypo_row_def by (fastforce elim!: list.pred_mono_strong split: prod.splits option.splits)

lemma cycle_grown:
  "grown (kypo_row (\<lambda>c t. \<exists>cfg\<in>set configs. c = kc_challenge_id cfg \<and> reported_finished fetch token base_url ns cfg t))
     (rg_db st) (rg_db (foldl (sync_instance fetch token base_url now stamp ns) st configs))"
proof (induction configs rule: rev_induct)
  case (snoc cfg configs)
  let ?st = "foldl (sync_instance fetch token base_url now stamp ns) st configs"
  have "grown (kypo_row (\<lambda>c t. \<exists>cfg\<in>set (configs @ [cfg]). c = kc_challenge_id cfg \<and> reported_finished fetch token base_url ns cfg t))
      (rg_db st) (rg_db ?st)"
    by (rule grown_mono[OF snoc]) auto
  moreover have "grown (kypo_row (\<lambda>c t. \<exists>cfg\<in>set (configs @ [cfg]). c = kc_challenge_id cfg \<and> reported_finished fetch token base_url ns cfg t))
      (rg_db ?st) (rg_db (sync_instance fetch token base_url now stamp ns ?st cfg))"
    by (rule grown_mono[OF sync_instance_grown]) auto
  ultimately show ?case using grown_trans by auto
qed simp

text \<open>Names lead to teams that hold an account.\<close>

lemma put_range: "snd ` set d \<subseteq> T \<Longrightarrow> v \<in> T \<Longrightarrow> snd ` set (put k v d) \<subseteq> T"
  unfolding put_def by (induction d) auto

definition names_within :: "int set \<Rightarrow> (string \<times> int) list \<times> (string \<times> int) list \<Rightarrow> bool" where
  "names_within T ns = (snd ` set (fst ns) \<subseteq> T \<and> snd ` set (snd ns) \<subseteq> T)"

lemma add_account_within:
  assumes "names_within T ns" "ka_team_id a \<in> T" shows "names_within T (add_account d ns a)"
proof -
  obtain names safe where ns: "ns = (names, safe)" by (cases ns)
  have r: "snd ` set names \<subseteq> T" "snd ` set safe \<subseteq> T" using assms(1) by (simp_all add: names_within_def ns)
  have "snd ` set (fst (add_account d ns a)) \<subseteq> T"
    unfolding add_account_def ns Let_def prod.case fst_conv
    by (cases "team_by_id d (ka_team_id a)") (simp_all add: put_range r(1) assms(2))
  moreover have "snd ` set (snd (add_account d ns a)) \<subseteq> T"
    unfolding add_account_def ns Let_def prod.case snd_conv by (simp add: put_range r(2) assms(2))
  ultimately show ?thesis by (simp add: names_within_def)
qed

lemma account_names_within: "set as \<subseteq> {a. ka_team_id a \<in> T} \<Longrightarrow> names_within T (account_names d as)"
proof (induction as rule: rev_induct)
  case (snoc a as)
  then show ?case using add_account_within[of T "account_names d as" a d] by (simp add: account_names_def)
qed (simp add: account_names_def names_within_def)

lemma find_team_account: "find_team (account_names d as) name = Some t \<Longrightarrow> t \<in> ka_team_id ` set as"
  using account_names_within[of as "ka_team_id ` set as" d]
  by (force simp: names_within_def find_team_def split: option.splits if_splits dest!: map_of_SomeD)

text \<open>
  Property C32: a synchronisation only ever adds answers, and adds one only for a team that
  holds an account on the range, on a challenge configured for it, after the range has
  reported every level of that team's run as finished; every row of the solve table stays where it is and a
  new one belongs to one of these answers; no other table is touched.
\<close>

theorem poll_cycle_adds_finished_runs:
  "let d = rg_db st; d' = rg_db (run_poll_cycle fetch admin_token base_url now stamp configs accounts st) in
   \<exists>new rows. submissions d' = submissions d @ new \<and> solve_rows d' = solve_rows d @ rows \<and> set rows \<subseteq> child_of ` set new \<and>
     d' = d\<lparr>submissions := submissions d', solve_rows := solve_rows d'\<rparr> \<and>
     list_all (\<lambda>s. sub_type s = Some ''correct'' \<and> (\<exists>cfg\<in>set configs. \<exists>token tid. admin_token = Inr token \<and> sub_challenge_id s = Some (kc_challenge_id cfg) \<and>
       sub_team_id s = Some tid \<and> tid \<in> ka_team_id ` set accounts \<and>
       reported_finished fetch token base_url (account_names d accounts) cfg tid)) new"
proof (cases "configs = [] \<or> fst (account_names (rg_db st) accounts) = [] \<or> isl admin_token")
  case True
  then have "run_poll_cycle fetch admin_token base_url now stamp configs accounts st = st"
    by (auto simp: run_poll_cycle_def Let_def isl_def)
  then show ?thesis unfolding Let_def by (intro exI[of _ "[]"]) simp
next
  case False
  then obtain token where token: "admin_token = Inr token" by (cases admin_token) auto
  let ?ns = "account_names (rg_db st) accounts"
  let ?F = "\<lambda>c t. \<exists>cfg\<in>set configs. c = kc_challenge_id cfg \<and> reported_finished fetch token base_url ?ns cfg t"
  have cycle: "run_poll_cycle fetch admin_token base_url now stamp configs accounts st =
      foldl (sync_instance fetch token base_url now stamp ?ns) st configs"
    using False token by (simp add: run_poll_cycle_def Let_def)
  have row: "sub_type s = Some ''correct'' \<and> (\<exists>cfg\<in>set configs. \<exists>token tid. admin_token = Inr token \<and> sub_challenge_id s = Some (kc_challenge_id cfg) \<and>
      sub_team_id s = Some tid \<and> tid \<in> ka_team_id ` set accounts \<and> reported_finished fetch token base_url ?ns cfg tid)"
    if "kypo_row ?F s" for s
    using that token find_team_account[of "rg_db st" accounts] unfolding kypo_row_def reported_finished_def
    by (fastforce split: option.splits)
  obtain new rows where g: "submissions (rg_db (foldl (sync_instance fetch token base_url now stamp ?ns) st configs)) = submissions (rg_db st) @ new"
      "solve_rows (rg_db (foldl (sync_instance fetch token base_url now stamp ?ns) st configs)) = solve_rows (rg_db st) @ rows"
      "list_all (kypo_row ?F) new" "set rows \<subseteq> child_of ` set new"
      "rg_db (foldl (sync_instance fetch token base_url now stamp ?ns) st configs) = (rg_db st)\<lparr>
        submissions := submissions (rg_db (foldl (sync_instance fetch token base_url now stamp ?ns) st configs)),
        solve_rows := solve_rows (rg_db (foldl (sync_instance fetch token base_url now stamp ?ns) st configs))\<rparr>"
    using cycle_grown[of configs fetch token base_url ?ns st now stamp] unfolding grown_def by blast
  show ?thesis
    unfolding Let_def cycle by (intro exI[of _ new] exI[of _ rows] conjI g(1,2,4,5) list.pred_mono_strong[OF g(3)] row)
qed


text \<open>
  Also proved: when that member has solved the challenge in another team, the row of the child
  table is ignored, the team stays without a solve, and every further report adds one more
  correct answer that counts for nobody.
\<close>

theorem ignored_solve_repeats:
  assumes "team_by_id d tid = Some t" "challenge_by_id d cid = Some c" "\<not> solved_by_team d cid tid"
    and "representative d t = Some u" "r \<in> set (solve_rows d)" "sv_challenge_id r = Some cid" "sv_user_id r = Some u"
  shows "\<not> solved_by_team ((record_solve now cid tid ^^ n) d) cid tid \<and>
    length (submissions ((record_solve now cid tid ^^ n) d)) = length (submissions d) + n"
proof -
  have step: "record_solve now cid tid x = add_submission (kypo_answer now cid (Some u) tid) x"
    if x: "solve_rows x = solve_rows d" "teams x = teams d" "users x = users d" "challenges x = challenges d" for x
  proof -
    have m: "team_members x t = team_members d t" using x(3) by (simp add: team_members_def)
    have "representative x t = Some u" using assms(4) unfolding representative_def m .
    moreover have "team_by_id x tid = Some t" "challenge_by_id x cid = Some c" "\<not> solved_by_team x cid tid"
      using assms(1-3) x by (simp_all add: team_by_id_def challenge_by_id_def solved_by_team_def)
    moreover have "list_ex (unique_clash (kypo_answer now cid (Some u) tid)) (solve_rows x)"
      using assms(5-7) x(1) by (auto simp: list_ex_iff unique_clash_def kypo_answer_def intro!: bexI[of _ r])
    ultimately show ?thesis by (simp add: record_solve_def Let_def insert_solve_def)
  qed
  have "solve_rows ((record_solve now cid tid ^^ n) d) = solve_rows d \<and> teams ((record_solve now cid tid ^^ n) d) = teams d \<and>
      users ((record_solve now cid tid ^^ n) d) = users d \<and> challenges ((record_solve now cid tid ^^ n) d) = challenges d \<and>
      length (submissions ((record_solve now cid tid ^^ n) d)) = length (submissions d) + n"
    by (induction n) (simp_all add: step add_submission_def)
  then show ?thesis using assms(3) by (simp add: solved_by_team_def)
qed

section \<open>Instances and stored progress\<close>

definition DEFINITION_KEYS :: "string list" where
  "DEFINITION_KEYS = [''training_definition_id'', ''trainingDefinitionId'', ''training_definition'', ''trainingDefinition'']"

fun first_definition :: "dict \<Rightarrow> string list \<Rightarrow> py_exc + pyval" where
  "first_definition item [] = Inr PNone"
| "first_definition item (key # keys) =
     (let val = (case dget item key of PDict d \<Rightarrow> dget d ''id'' | v \<Rightarrow> v) in
      if val = PNone then first_definition item keys else bindE (py_int val) (\<lambda>i. Inr (PInt i)))"

definition extract_definition_id :: "dict \<Rightarrow> py_exc + pyval" where
  "extract_definition_id item = first_definition item DEFINITION_KEYS"

definition instance_entry :: "(pyval \<Rightarrow> string) \<Rightarrow> string \<Rightarrow> pyval \<Rightarrow> py_exc + dict" where
  "instance_entry str_of kind v = bindE (object_of v) (\<lambda>item.
     if \<not> has_key item ''id'' then Inl KeyError
     else bindE (extract_definition_id item) (\<lambda>definition_id. Inr
       [(''id'', dget item ''id''), (''title'', dget_default item ''title'' (PStr (''Instance '' @ str_of (dget item ''id'')))),
        (''access_token'', dget_default item ''access_token'' (PStr [])), (''instance_type'', PStr kind),
        (''training_definition_id'', definition_id)]))"

definition page_items :: "dict \<Rightarrow> pyval list option" where
  "page_items body = (case dget_default body ''content'' (PList []) of PList xs \<Rightarrow> Some xs | _ \<Rightarrow> None)"

definition last_page :: "dict \<Rightarrow> bool" where
  "last_page body = (truthy (dget_default body ''last'' (PBool True)) \<or> page_items body = Some [])"

text \<open>The loop over the pages; \<open>get_page\<close> is the request for one of them.\<close>

partial_function (option) fetch_instances ::
  "(pyval \<Rightarrow> string) \<Rightarrow> (nat \<Rightarrow> py_exc + dict) \<Rightarrow> string \<Rightarrow> nat \<Rightarrow> dict list \<Rightarrow> (py_exc + dict list) option" where
  "fetch_instances str_of get_page kind page results =
     (case get_page page of
        Inl e \<Rightarrow> Some (Inl e)
      | Inr body \<Rightarrow> (case page_items body of
          None \<Rightarrow> Some (Inl TypeError)
        | Some items \<Rightarrow> (case mapE (instance_entry str_of kind) items of
            Inl e \<Rightarrow> Some (Inl e)
          | Inr rows \<Rightarrow> if last_page body then Some (Inr (results @ rows))
              else fetch_instances str_of get_page kind (Suc page) (results @ rows))))"

definition more_pages :: "(nat \<Rightarrow> py_exc + dict) \<Rightarrow> nat \<Rightarrow> bool" where
  "more_pages get_page i = (case get_page i of Inl e \<Rightarrow> False | Inr body \<Rightarrow> \<not> last_page body)"

definition page_entries :: "(pyval \<Rightarrow> string) \<Rightarrow> (nat \<Rightarrow> py_exc + dict) \<Rightarrow> string \<Rightarrow> nat \<Rightarrow> dict list" where
  "page_entries str_of get_page kind i = (case get_page i of Inl e \<Rightarrow> [] | Inr body \<Rightarrow>
     (case page_items body of None \<Rightarrow> [] | Some items \<Rightarrow> (case mapE (instance_entry str_of kind) items of Inl e \<Rightarrow> [] | Inr rows \<Rightarrow> rows)))"

lemma fetch_instances_from:
  assumes "\<And>i. m \<le> i \<Longrightarrow> i < m + k \<Longrightarrow> more_pages get_page i" "\<not> more_pages get_page (m + k)"
  shows "\<exists>r. fetch_instances str_of get_page kind m results = Some r \<and>
    (isl r \<or> r = Inr (results @ concat (map (page_entries str_of get_page kind) [m..<Suc (m + k)])))"
  using assms
proof (induction k arbitrary: m results)
  case 0
  then show ?case
    by (subst fetch_instances.simps) (auto simp: more_pages_def page_entries_def split: sum.splits option.splits)
next
  case (Suc k)
  obtain body where body: "get_page m = Inr body" "\<not> last_page body"
    using Suc.prems(1)[of m] by (auto simp: more_pages_def split: sum.splits)
  show ?case
  proof (cases "\<exists>items rows. page_items body = Some items \<and> mapE (instance_entry str_of kind) items = Inr rows")
    case True
    then obtain items rows where r: "page_items body = Some items" "mapE (instance_entry str_of kind) items = Inr rows" by blast
    have "fetch_instances str_of get_page kind m results = fetch_instances str_of get_page kind (Suc m) (results @ rows)"
      by (subst fetch_instances.simps) (simp add: body r)
    moreover have "\<exists>r. fetch_instances str_of get_page kind (Suc m) (results @ rows) = Some r \<and>
        (isl r \<or> r = Inr ((results @ rows) @ concat (map (page_entries str_of get_page kind) [Suc m..<Suc (Suc m + k)])))"
      by (rule Suc.IH) (use Suc.prems in auto)
    moreover have "page_entries str_of get_page kind m = rows" by (simp add: page_entries_def body r)
    ultimately show ?thesis by (simp add: upt_conv_Cons del: upt_Suc)
  next
    case False
    then show ?thesis
      by (subst fetch_instances.simps) (auto simp: body split: option.splits sum.splits)
  qed
qed

text \<open>
  Also proved: the listing of the training instances returns: as soon as the range answers with
  a page that is the last one, is empty or is an error, the loop ends, with an exception or
  with the entries of all pages in their order.
\<close>

theorem instance_listing_terminates:
  assumes "\<not> more_pages get_page n"
  shows "\<exists>k r. k \<le> n \<and> fetch_instances str_of get_page kind 0 [] = Some r \<and>
    (isl r \<or> r = Inr (concat (map (page_entries str_of get_page kind) [0..<Suc k])))"
proof -
  define k where "k = (LEAST i. \<not> more_pages get_page i)"
  have "\<not> more_pages get_page k" unfolding k_def by (rule LeastI[of "\<lambda>i. \<not> more_pages get_page i", OF assms])
  moreover have "more_pages get_page i" if "i < k" for i using not_less_Least[OF that[unfolded k_def]] by blast
  moreover have "k \<le> n" unfolding k_def by (rule Least_le[of "\<lambda>i. \<not> more_pages get_page i", OF assms])
  ultimately show ?thesis
    using fetch_instances_from[of 0 k get_page str_of kind "[]"] by (intro exI[of _ k]) auto
qed

section \<open>Stored progress\<close>

text \<open>
  Reading the stored progress; the entries of all teams come from a scan, whose steps
  \<open>scan\<close> answer a cursor with the next one and some keys, until the cursor is 0 again.
\<close>

definition read_progress :: "int \<Rightarrow> range_state \<Rightarrow> string \<Rightarrow> dict option" where
  "read_progress now st key = (case map_of (rg_cache st) key of
      Some (expires, payload) \<Rightarrow> if now < expires then Some payload else None
    | None \<Rightarrow> None)"

definition get_cached_progress :: "int \<Rightarrow> range_state \<Rightarrow> int \<Rightarrow> int \<Rightarrow> dict option" where
  "get_cached_progress now st cid tid = read_progress now st (redis_key cid tid)"

partial_function (option) scan_progress ::
  "(int \<Rightarrow> int \<times> string list) \<Rightarrow> (string \<Rightarrow> dict option) \<Rightarrow> int \<Rightarrow> dict list \<Rightarrow> dict list option" where
  "scan_progress scan read cursor results =
     (let next_keys = scan cursor; results' = results @ List.map_filter read (snd next_keys) in
      if fst next_keys = 0 then Some results' else scan_progress scan read (fst next_keys) results')"

definition get_all_cached_progress :: "(int \<Rightarrow> int \<times> string list) \<Rightarrow> int \<Rightarrow> range_state \<Rightarrow> dict list option" where
  "get_all_cached_progress scan now st = scan_progress scan (read_progress now st) 0 []"

definition get_challenge_progress ::
  "(int \<Rightarrow> int \<times> string list) \<Rightarrow> int \<Rightarrow> range_state \<Rightarrow> int \<Rightarrow> int option \<Rightarrow> dict list option" where
  "get_challenge_progress scan now st cid team_id = (case team_id of
      Some tid \<Rightarrow> Some (case get_cached_progress now st cid tid of None \<Rightarrow> [] | Some p \<Rightarrow> if p = [] then [] else [p])
    | None \<Rightarrow> get_all_cached_progress scan now st)"

definition count_unsolved_teams :: "db \<Rightarrow> int \<Rightarrow> int list \<Rightarrow> nat" where
  "count_unsolved_teams d cid ids = card (set ids - {t. solved_by_team d cid t})"

text \<open>The score of a training definition.\<close>

definition first_truthy :: "dict \<Rightarrow> string list \<Rightarrow> pyval" where
  "first_truthy d keys = (case filter (\<lambda>k. truthy (dget d k)) keys of [] \<Rightarrow> PNone | k # _ \<Rightarrow> dget d k)"

definition level_points :: "dict \<Rightarrow> py_exc + int" where
  "level_points level =
     bindE (text_or (first_truthy level [''level_type'', ''levelType'', ''phase_type'', ''phaseType''])) (\<lambda>t.
     bindE (int_or (first_truthy level [''max_score'', ''maxScore''])) (\<lambda>max_score.
     if contains ''TRAINING'' (py_upper t) then Inr max_score
     else if contains ''ASSESSMENT'' (py_upper t)
     then (case dget_default level ''questions'' (PList []) of
         PList qs \<Rightarrow> bindE (mapE (\<lambda>q. bindE (object_of q) (\<lambda>d. int_or (dget_default d ''points'' (PInt 0)))) qs) (\<lambda>ps. Inr (sum_list ps))
       | _ \<Rightarrow> Inl TypeError)
     else Inr 0))"

definition extract_score :: "dict \<Rightarrow> py_exc + int" where
  "extract_score defn =
     bindE (list_or (first_truthy defn [''levels'', ''phases''])) (\<lambda>vs.
     bindE (mapE (\<lambda>v. bindE (object_of v) level_points) vs) (\<lambda>ps. Inr (sum_list ps)))"

text \<open>Two addresses are tried; an answer that cannot be read is like no answer.\<close>

fun fetch_definition_score :: "(string \<Rightarrow> py_exc + nat \<times> dict) \<Rightarrow> string list \<Rightarrow> int \<times> bool" where
  "fetch_definition_score get [] = (0, False)"
| "fetch_definition_score get (url # urls) = (case get url of
      Inr (status, body) \<Rightarrow> (case (status = 200, extract_score body) of
          (True, Inr score) \<Rightarrow> (score, True) | _ \<Rightarrow> fetch_definition_score get urls)
    | Inl e \<Rightarrow> fetch_definition_score get urls)"

definition definition_urls :: "string \<Rightarrow> string \<Rightarrow> string list" where
  "definition_urls base definition_id =
     [base @ ''/training-definitions/'' @ definition_id, base @ ''/training-definitions/'' @ definition_id @ ''/export'']"

section \<open>Witnesses\<close>

definition range_db :: db where
  "range_db = empty_db\<lparr>users := [sample_user 5 (Some 2)], teams := [(sample_team 2 (Some 5))\<lparr>te_name := ''Alpha''\<rparr>],
     challenges := [sample_challenge 3 (Some 100)]\<rparr>"


definition two_pages :: "nat \<Rightarrow> py_exc + dict" where
  "two_pages i = Inr [(''content'', PList [PDict [(''id'', PInt (int i))]]), (''last'', PBool (i = 1))]"

theorem instance_listing_terminates_witness:
  "\<exists>r. fetch_instances (\<lambda>_. []) two_pages ''linear'' 0 [] = Some r"
proof -
  have "\<not> more_pages two_pages 1" by (simp add: more_pages_def two_pages_def last_page_def dget_default_def)
  from instance_listing_terminates[OF this] show ?thesis by blast
qed

text \<open>A user who solved the challenge in team 1 and now leads team 2.\<close>

definition moved_db :: db where
  "moved_db = range_db\<lparr>solve_rows := [\<lparr>sv_id = 1, sv_challenge_id = Some 3, sv_user_id = Some 5, sv_team_id = Some 1\<rparr>]\<rparr>"

theorem ignored_solve_repeats_witness: "length (submissions ((record_solve 9 3 2 ^^ 4) moved_db)) = 4"
proof -
  let ?r = "\<lparr>sv_id = 1, sv_challenge_id = Some 3, sv_user_id = Some 5, sv_team_id = Some 1\<rparr>"
  have t: "team_by_id moved_db 2 = Some ((sample_team 2 (Some 5))\<lparr>te_name := ''Alpha''\<rparr>)"
    and c: "challenge_by_id moved_db 3 = Some (sample_challenge 3 (Some 100))" and s: "\<not> solved_by_team moved_db 3 2"
    and u: "representative moved_db ((sample_team 2 (Some 5))\<lparr>te_name := ''Alpha''\<rparr>) = Some 5"
    and e: "submissions moved_db = []"
    by code_simp+
  have r: "?r \<in> set (solve_rows moved_db)" by (simp add: moved_db_def)
  show ?thesis using ignored_solve_repeats[OF t c s u r, of 4 9] by (simp add: e)
qed

text \<open>
  The display name of a participant is fixed when the account is created, but it is looked up
  among the names teams have today: a team that takes the former name of another one gets the
  other one's progress.
\<close>

lemma renamed_team_loses_run:
  "find_team (account_names (empty_db\<lparr>teams := [(sample_team 1 None)\<lparr>te_name := ''Omega''\<rparr>, (sample_team 2 None)\<lparr>te_name := ''Alpha''\<rparr>]\<rparr>)
     [\<lparr>ka_team_id = 1, ka_user_id = ''a'', ka_username = ''fctf_alpha_1'', ka_password = []\<rparr>,
      \<lparr>ka_team_id = 2, ka_user_id = ''b'', ka_username = ''fctf_beta_2'', ka_password = []\<rparr>]) ''Alpha FCTF Team'' = Some 2"
  by code_simp

end
