(* ===== verification/Login.thy ===== *)
theory Login imports UsersApi begin

text \<open>
  The sign-in pages of \<^verbatim>\<open>auth.py\<close>: password login of the staff, login through the OAuth
  provider, confirmation of an address, password reset and logout.  The rate limiters around them
  are in \<open>LoginLimit\<close>.  Verification and hashing of passwords, the signed links and the answers
  of the provider are parameters; a visit is what a request leaves behind: the page, the
  database, the session and the mail it sent.
\<close>

section \<open>Visits\<close>

datatype page = GoTo string | Shown string

datatype mail_kind = ConfirmMail | WelcomeMail | ResetMail | AlertMail

record visit =
  vi_page :: page
  vi_db :: db
  vi_session :: session
  vi_mail :: "(mail_kind \<times> string option) list"

definition visited :: "ctx \<Rightarrow> page \<Rightarrow> visit" where
  "visited c p = \<lparr>vi_page = p, vi_db = cx_db c, vi_session = cx_session c, vi_mail = []\<rparr>"

text \<open>
  \<open>unsign now link\<close> is what \<open>unserialize\<close> finds in a link of at most half an hour.  A user is
  looked up by that value; \<open>None\<close> selects those without an address.
\<close>

datatype link_error = ExpiredLink | InvalidLink

type_synonym unsigner = "rat \<Rightarrow> string \<Rightarrow> link_error + pyval"

definition by_address :: "db \<Rightarrow> pyval \<Rightarrow> user option" where
  "by_address d v = first_where (\<lambda>u. case v of PStr s \<Rightarrow> us_email u = Some s | PNone \<Rightarrow> us_email u = None | _ \<Rightarrow> False) (users d)"

definition change_user :: "int \<Rightarrow> (user \<Rightarrow> user) \<Rightarrow> db \<Rightarrow> db" where
  "change_user i f d = d\<lparr>users := update_where (\<lambda>u. us_id u = i) f (users d)\<rparr>"

section \<open>Confirming an address\<close>

definition confirm :: "unsigner \<Rightarrow> ctx \<Rightarrow> bool \<Rightarrow> string option \<Rightarrow> py_exc + visit" where
  "confirm unsign c is_get data =
     (if \<not> truthy (cx_conf c ''verify_emails'') then Inr (visited c (GoTo ''admin.challenges_listing''))
      else if data \<noteq> None \<and> data \<noteq> Some [] \<and> is_get then
        (case unsign (cx_now c) (the data) of
          Inl ExpiredLink \<Rightarrow> Inr (visited c (Shown ''Your confirmation link has expired''))
        | Inl InvalidLink \<Rightarrow> Inr (visited c (Shown ''Your confirmation token is invalid''))
        | Inr v \<Rightarrow> bindE (first_or_404 (by_address (cx_db c) v)) (\<lambda>u.
            if us_verified u = Some True then Inr (visited c (GoTo ''views.settings''))
            else Inr ((visited c (GoTo (if authed c then ''admin.challenges_listing'' else ''auth.login'')))
              \<lparr>vi_db := change_user (us_id u) (\<lambda>u. u\<lparr>us_verified := Some True\<rparr>) (cx_db c),
               vi_mail := [(WelcomeMail, us_email u)]\<rparr>)))
      else if \<not> authed c then Inr (visited c (GoTo ''auth.login''))
      else bindE (first_or_404 (session_user c)) (\<lambda>u.
        if us_verified u = Some True then Inr (visited c (GoTo ''views.settings''))
        else (case data of
            Some _ \<Rightarrow> Inl TypeError
          | None \<Rightarrow> if is_get then Inr (visited c (Shown ''confirm''))
              else Inr ((visited c (Shown ''Confirmation email sent''))\<lparr>vi_mail := [(ConfirmMail, us_email u)]\<rparr>))))"

section \<open>Resetting a password\<close>

definition mail_hint :: string where
  "mail_hint = ''If that account exists you will receive an email, please check your inbox''"

definition set_password :: "(string \<Rightarrow> string) \<Rightarrow> string \<Rightarrow> user \<Rightarrow> user" where
  "set_password hash p u = u\<lparr>us_password := Some (hash p)\<rparr>"

definition reset_with_link :: "(string \<Rightarrow> string) \<Rightarrow> ctx \<Rightarrow> pyval \<Rightarrow> string option \<Rightarrow> py_exc + visit" where
  "reset_with_link hash c v form_password =
     (let p = py_strip (case form_password of None \<Rightarrow> [] | Some s \<Rightarrow> s) in
      bindE (first_or_404 (by_address (cx_db c) v)) (\<lambda>u.
      if us_oauth_id u \<noteq> None \<and> us_oauth_id u \<noteq> Some 0 then Inr (visited c (Shown ''Your account was registered via an authentication provider''))
      else if p = [] then Inr (visited c (Shown ''Please pick a longer password''))
      else Inr ((visited c (GoTo ''auth.login''))
        \<lparr>vi_db := revoke_user_tokens [us_id u] (change_user (us_id u) (set_password hash p) (cx_db c)),
         vi_mail := [(AlertMail, us_email u)]\<rparr>)))"

definition reset_password ::
  "unsigner \<Rightarrow> config \<Rightarrow> (string \<Rightarrow> string) \<Rightarrow> ctx \<Rightarrow> bool \<Rightarrow> string option \<Rightarrow> string option \<Rightarrow> string option \<Rightarrow> py_exc + visit" where
  "reset_password unsign app hash c is_get data form_password form_email =
     (if \<not> can_send_mail app (cx_conf c) then Inr (visited c (Shown ''This CTF is not configured to send email''))
      else case data of
        Some link \<Rightarrow> (case unsign (cx_now c) link of
            Inl ExpiredLink \<Rightarrow> Inr (visited c (Shown ''Your link has expired''))
          | Inl InvalidLink \<Rightarrow> Inr (visited c (Shown ''Your reset token is invalid''))
          | Inr v \<Rightarrow> if is_get then Inr (visited c (Shown ''set'')) else reset_with_link hash c v form_password)
      | None \<Rightarrow> if is_get then Inr (visited c (Shown ''reset_password'')) else
          (case form_email of
            None \<Rightarrow> Inl (HTTPAbort 400)
          | Some raw \<Rightarrow> let address = py_strip raw in
              (case by_address (cx_db c) (PStr address) of
                None \<Rightarrow> Inr (visited c (Shown mail_hint))
              | Some u \<Rightarrow> if us_oauth_id u \<noteq> None \<and> us_oauth_id u \<noteq> Some 0
                  then Inr (visited c (Shown ''The email address was registered via an authentication provider''))
                  else Inr ((visited c (Shown mail_hint))\<lparr>vi_mail := [(ResetMail, Some address)]\<rparr>))))"

section \<open>Logging in\<close>

definition is_staff :: "ctx \<Rightarrow> bool" where
  "is_staff c = (yes (is_challenge_writer c) \<or> yes (is_admin c) \<or> yes (is_jury c))"

text \<open>The database compares names and addresses by the collation of their columns, \<open>ck\<close>.\<close>

definition login_account :: "(string \<Rightarrow> string) \<Rightarrow> db \<Rightarrow> string \<Rightarrow> user option" where
  "login_account ck d name = first_where (\<lambda>u. if validate_email name then map_option ck (us_email u) = Some (ck name) else ck (us_name u) = ck name) (users d)"

definition wrong_login :: page where
  "wrong_login = Shown ''Your username or password is incorrect''"

definition login ::
  "(string \<Rightarrow> string) \<Rightarrow> (string \<Rightarrow> string \<Rightarrow> py_exc + bool) \<Rightarrow> string \<Rightarrow> ctx \<Rightarrow> bool \<Rightarrow> string option \<Rightarrow> string option \<Rightarrow> py_exc + visit" where
  "login ck verify nonce c is_post form_name form_password =
     (if \<not> is_post then Inr (visited c (if authed c \<and> is_staff c then GoTo ''admin.view'' else Shown ''login''))
      else case form_name of None \<Rightarrow> Inl (HTTPAbort 400) | Some name \<Rightarrow>
        (case login_account ck (cx_db c) name of
          None \<Rightarrow> Inr (visited c wrong_login)
        | Some u \<Rightarrow> (case us_password u of
            None \<Rightarrow> Inr (visited c (Shown ''Your account was registered with a 3rd party authentication provider''))
          | Some stored \<Rightarrow> (case form_password of
              None \<Rightarrow> Inl (HTTPAbort 400)
            | Some p \<Rightarrow> bindE (verify p stored) (\<lambda>ok.
                if \<not> ok then Inr (visited c wrong_login)
                else if us_type u = Some ''user'' then Inr (visited c (Shown ''You are not allowed to access this portal''))
                else let s = login_user (cx_hmac c) nonce u (cx_session c) in
                  Inr ((visited c (GoTo (if is_staff (c\<lparr>cx_session := s\<rparr>) then ''admin.challenges_listing'' else ''auth.login'')))
                    \<lparr>vi_session := s\<rparr>))))))"

definition logout :: "ctx \<Rightarrow> visit" where
  "logout c = (visited c (GoTo ''views.static_html''))
     \<lparr>vi_session := (if authed c then logout_user (cx_session c) else cx_session c)\<rparr>"

section \<open>The OAuth provider\<close>

record api_user =
  ap_id :: int
  ap_name :: string
  ap_email :: string
  ap_team :: "(int \<times> string) option"

definition config_int :: "ctx \<Rightarrow> string \<Rightarrow> py_exc + int" where
  "config_int c k = py_int (if cx_conf c k = PNone then PInt 0 else cx_conf c k)"

definition mlc_registration :: "ctx \<Rightarrow> bool" where
  "mlc_registration c = conf_is c ''registration_visibility'' ''mlc''"

definition listed_users :: "db \<Rightarrow> nat" where
  "listed_users d = length (filter (\<lambda>u. us_banned u = Some False \<and> us_hidden u = Some False) (users d))"

definition listed_teams :: "db \<Rightarrow> nat" where
  "listed_teams d = length (filter (\<lambda>t. te_banned t = Some False \<and> te_hidden t = Some False) (teams d))"

definition oauth_user :: "int \<Rightarrow> int \<Rightarrow> api_user \<Rightarrow> user" where
  "oauth_user i now_us a = \<lparr>us_id = i, us_oauth_id = Some (ap_id a), us_name = ap_name a, us_password = None,
     us_email = Some (ap_email a), us_type = Some ''user'', us_secret = None, us_website = None, us_affiliation = None,
     us_country = None, us_bracket_id = None, us_hidden = Some False, us_banned = Some False, us_verified = Some True,
     us_language = None, us_team_id = None, us_created = Some now_us\<rparr>"

definition oauth_team :: "int \<Rightarrow> int \<Rightarrow> int \<Rightarrow> string \<Rightarrow> int \<Rightarrow> team" where
  "oauth_team i now_us oauth_id name captain = \<lparr>te_id = i, te_oauth_id = Some oauth_id, te_name = name, te_email = None,
     te_password = None, te_secret = None, te_website = None, te_affiliation = None, te_country = None, te_bracket_id = None,
     te_hidden = Some False, te_banned = Some False, te_captain_id = Some captain, te_created = Some now_us\<rparr>"

text \<open>Either the request ends with a page, or the next step goes on with the user and the database.\<close>

definition find_or_register :: "(string \<Rightarrow> string) \<Rightarrow> ctx \<Rightarrow> api_user \<Rightarrow> py_exc + (page + user) \<times> db" where
  "find_or_register name_key c a = (let d = cx_db c in
     case by_address d (PStr (ap_email a)) of
       Some u \<Rightarrow> Inr (Inr u, d)
     | None \<Rightarrow> bindE (config_int c ''num_users'') (\<lambda>limit.
         if limit \<noteq> 0 \<and> limit \<le> int (listed_users d) then Inl (HTTPAbort 403)
         else if registration_visible c \<or> mlc_registration c
         then let u = oauth_user (fresh_id us_id (users d)) (utcnow c) a; d' = d\<lparr>users := users d @ [u]\<rparr> in
           if unique_accounts name_key d' then Inr (Inr u, d') else Inl IntegrityError
         else Inr (Inl (GoTo ''auth.login''), d)))"

definition find_or_found_team :: "ctx \<Rightarrow> api_user \<Rightarrow> user \<Rightarrow> db \<Rightarrow> py_exc + team \<times> db" where
  "find_or_found_team c a u d = (case ap_team a of
       None \<Rightarrow> Inl KeyError
     | Some (oid, name) \<Rightarrow> (case first_where (\<lambda>t. te_oauth_id t = Some oid) (teams d) of
           Some t \<Rightarrow> Inr (t, d)
         | None \<Rightarrow> bindE (config_int c ''num_teams'') (\<lambda>limit.
             if limit \<noteq> 0 \<and> limit \<le> int (listed_teams d) then Inl (HTTPAbort 403)
             else let t = oauth_team (fresh_id te_id (teams d)) (utcnow c) oid name (us_id u) in
               Inr (t, d\<lparr>teams := teams d @ [t]\<rparr>))))"

definition team_full :: "ctx \<Rightarrow> db \<Rightarrow> team \<Rightarrow> py_exc + bool" where
  "team_full c d t = (let limit = cx_conf c ''team_size'' in
     if \<not> truthy limit then Inr False
     else case numeric limit of None \<Rightarrow> Inl TypeError | Some n \<Rightarrow> Inr (n \<le> of_nat (length (team_members d t))))"

definition join_oauth_team :: "ctx \<Rightarrow> api_user \<Rightarrow> user \<Rightarrow> db \<Rightarrow> py_exc + (page + user) \<times> db" where
  "join_oauth_team c a u d =
     (if \<not> conf_is c ''user_mode'' ''teams'' \<or> us_team_id u \<noteq> None then Inr (Inr u, d)
      else bindE (find_or_found_team c a u d) (\<lambda>(t, d').
        bindE (team_full c d' t) (\<lambda>full.
        if full then Inr (Inl (GoTo ''auth.login''), d')
        else Inr (Inr (u\<lparr>us_team_id := Some (te_id t)\<rparr>), change_user (us_id u) (\<lambda>u. u\<lparr>us_team_id := Some (te_id t)\<rparr>) d'))))"

definition link_account :: "(string \<Rightarrow> string) \<Rightarrow> api_user \<Rightarrow> user \<Rightarrow> db \<Rightarrow> py_exc + user \<times> db" where
  "link_account name_key a u d =
     (if us_oauth_id u \<noteq> None then Inr (u, d)
      else let f = (\<lambda>u. u\<lparr>us_oauth_id := Some (ap_id a), us_verified := Some True\<rparr>); d' = change_user (us_id u) f d in
        if unique_accounts name_key d' then Inr (f u, d') else Inl IntegrityError)"

text \<open>
  The provider's answer to a code: \<open>None\<close> when it issues no token.  What an earlier step
  committed stays when a later one raises, which the result of the model does not show.
\<close>

definition oauth_session ::
  "(string \<Rightarrow> string) \<Rightarrow> string \<Rightarrow> ctx \<Rightarrow> api_user \<Rightarrow> page + user \<Rightarrow> db \<Rightarrow> py_exc + visit" where
  "oauth_session name_key nonce c a r d = (case r of
       Inl p \<Rightarrow> Inr ((visited c p)\<lparr>vi_db := d\<rparr>)
     | Inr u \<Rightarrow> bindE (link_account name_key a u d) (\<lambda>(u', d').
         Inr ((visited c (GoTo ''admin.challenges_listing''))
           \<lparr>vi_db := d', vi_session := login_user (cx_hmac c) nonce u' (cx_session c)\<rparr>)))"

definition oauth_account ::
  "(string \<Rightarrow> string) \<Rightarrow> string \<Rightarrow> ctx \<Rightarrow> api_user \<Rightarrow> page + user \<Rightarrow> db \<Rightarrow> py_exc + visit" where
  "oauth_account name_key nonce c a r d = (case r of
       Inl p \<Rightarrow> Inr ((visited c p)\<lparr>vi_db := d\<rparr>)
     | Inr u \<Rightarrow> bindE (join_oauth_team c a u d) (\<lambda>(r', d'). oauth_session name_key nonce c a r' d'))"

definition oauth_redirect ::
  "(string \<Rightarrow> (py_exc + api_user) option) \<Rightarrow> (string \<Rightarrow> string) \<Rightarrow> string \<Rightarrow> ctx \<Rightarrow> string option \<Rightarrow> string option \<Rightarrow> py_exc + visit" where
  "oauth_redirect provider name_key nonce c code state =
     (case se_nonce (cx_session c) of None \<Rightarrow> Inl KeyError | Some n \<Rightarrow>
      if Some n \<noteq> state \<or> code = None \<or> code = Some [] then Inr (visited c (GoTo ''auth.login''))
      else (case provider (the code) of
          None \<Rightarrow> Inr (visited c (GoTo ''auth.login''))
        | Some said \<Rightarrow> bindE said (\<lambda>a. bindE (find_or_register name_key c a) (\<lambda>(r, d). oauth_account name_key nonce c a r d))))"


section \<open>What a visit can do\<close>

text \<open>
  Also proved: the password login of this portal changes nothing but the session, and it starts one
  only for a member of staff whose stored hash accepts the password given; the session is then
  the user's own, under a new nonce and the current digest of the hash.
\<close>

theorem login_staff_only:
  assumes "login ck verify nonce c is_post form_name form_password = Inr v"
  shows "vi_db v = cx_db c \<and> vi_mail v = [] \<and> (vi_session v = cx_session c \<or>
    (\<exists>u stored p. u \<in> set (users (cx_db c)) \<and> us_type u \<noteq> Some ''user'' \<and> us_password u = Some stored \<and> form_password = Some p \<and>
       verify p stored = Inr True \<and>
       vi_session v = \<lparr>se_id = Some (us_id u), se_nonce = Some nonce, se_hash = Some (cx_hmac c (us_password u))\<rparr>))"
proof -
  have r: "login_user h nonce u s = \<lparr>se_id = Some (us_id u), se_nonce = Some nonce, se_hash = Some (h (us_password u))\<rparr>" for h u s
    by (simp add: login_user_def)
  have m: "u \<in> set (users (cx_db c))" if "login_account ck (cx_db c) n = Some u" for n u
    using that by (auto simp: login_account_def dest: first_where_SomeD)
  show ?thesis using assms
    by (auto simp: login_def visited_def Let_def bindE_Inr_iff r split: if_splits option.splits dest!: m)
qed

text \<open>
  Property C37: the reset page changes the database only for a link the server has signed within the
  last half hour, and then only the password of the one user whose address the link carries, an
  account that has no provider; all access tokens of that user are revoked, and nobody is logged in.
\<close>

theorem reset_needs_link:
  assumes "reset_password unsign app hash c is_get data form_password form_email = Inr v"
  shows "vi_session v = cx_session c \<and> (vi_db v = cx_db c \<or>
    (\<exists>link e u p. data = Some link \<and> unsign (cx_now c) link = Inr e \<and> by_address (cx_db c) e = Some u \<and>
       us_oauth_id u \<in> {None, Some 0} \<and> p \<noteq> [] \<and>
       vi_db v = revoke_user_tokens [us_id u] (change_user (us_id u) (set_password hash p) (cx_db c)) \<and>
       vi_mail v = [(AlertMail, us_email u)]))"
  using assms
  by (auto simp: reset_password_def reset_with_link_def visited_def Let_def bindE_Inr_iff first_or_404_def
      split: if_splits option.splits sum.splits link_error.splits)

text \<open>Also proved: confirming an address verifies only the user the link names and logs nobody in.\<close>

theorem confirm_needs_link:
  assumes "confirm unsign c is_get data = Inr v"
  shows "vi_session v = cx_session c \<and> (vi_db v = cx_db c \<or>
    (\<exists>link e u. data = Some link \<and> unsign (cx_now c) link = Inr e \<and> by_address (cx_db c) e = Some u \<and>
       vi_db v = change_user (us_id u) (\<lambda>u. u\<lparr>us_verified := Some True\<rparr>) (cx_db c)))"
  using assms
  by (auto simp: confirm_def visited_def Let_def bindE_Inr_iff first_or_404_def
      split: if_splits option.splits sum.splits link_error.splits)

text \<open>Links carry no purpose: what confirms an address also sets its password.\<close>

lemma confirmation_link_resets:
  "can_send_mail app (cx_conf c) \<Longrightarrow> unsign (cx_now c) link = Inr e \<Longrightarrow>
   reset_password unsign app hash c False (Some link) form_password form_email = reset_with_link hash c e form_password"
  by (simp add: reset_password_def)

lemma confirm_post_returns_nothing:
  "truthy (cx_conf c ''verify_emails'') \<Longrightarrow> authed c \<Longrightarrow> session_user c = Some u \<Longrightarrow> us_verified u \<noteq> Some True \<Longrightarrow>
   confirm unsign c False (Some link) = Inl TypeError"
  by (simp add: confirm_def first_or_404_def)

section \<open>Team sizes\<close>

definition sizes_ok :: "int \<Rightarrow> db \<Rightarrow> bool" where
  "sizes_ok k d = (distinct (map us_id (users d)) \<and> distinct (map te_id (teams d)) \<and>
     us_team_id ` set (users d) \<subseteq> insert None (Some ` te_id ` set (teams d)) \<and>
     list_all (\<lambda>t. int (length (team_members d t)) \<le> k) (teams d))"

lemma change_team_count:
  assumes "distinct (map us_id us)"
  shows "length (filter (\<lambda>u. us_team_id u = Some t') (update_where (\<lambda>u. us_id u = i) (\<lambda>u. u\<lparr>us_team_id := Some t\<rparr>) us)) \<le>
    length (filter (\<lambda>u. us_team_id u = Some t') us) + (if t' = t then 1 else 0)"
  using assms
proof (induction us)
  case (Cons u us)
  show ?case
  proof (cases "us_id u = i")
    case True
    with Cons.prems have "us_id x \<noteq> i" if "x \<in> set us" for x using that by (metis distinct.simps(2) imageI list.map(2) list.set_map)
    then have "update_where (\<lambda>u. us_id u = i) (\<lambda>u. u\<lparr>us_team_id := Some t\<rparr>) us = us"
      unfolding update_where_def by (intro map_idI) simp
    then show ?thesis using True by (simp add: update_where_def)
  next
    case False
    then show ?thesis using Cons by (auto simp: update_where_def split: if_splits)
  qed
qed (simp add: update_where_def)

lemma change_user_ids:
  "(\<And>u. us_id (f u) = us_id u) \<Longrightarrow> map us_id (users (change_user i f d)) = map us_id (users d)"
  by (simp add: change_user_def map_update_where)

lemma join_sizes:
  assumes "sizes_ok k d" "t \<in> set (teams d)" "int (length (team_members d t)) < k"
  shows "sizes_ok k (change_user i (\<lambda>u. u\<lparr>us_team_id := Some (te_id t)\<rparr>) d)"
proof -
  let ?f = "\<lambda>u. u\<lparr>us_team_id := Some (te_id t)\<rparr>"
  have d: "distinct (map us_id (users d))" using assms(1) by (simp add: sizes_ok_def)
  have "int (length (team_members (change_user i ?f d) x)) \<le> k" if x: "x \<in> set (teams d)" for x
  proof -
    have old: "int (length (team_members d x)) \<le> k" using assms(1) x by (auto simp: sizes_ok_def list_all_iff)
    have "x = t" if "te_id x = te_id t"
      using assms(1,2) x that by (auto simp: sizes_ok_def distinct_map inj_on_def)
    with old assms(3) show ?thesis
      using change_team_count[OF d, of "te_id x" i "te_id t"] by (auto simp: team_members_def change_user_def split: if_splits)
  qed
  moreover have "us_team_id ` set (users (change_user i ?f d)) \<subseteq> insert None (Some ` te_id ` set (teams d))"
    using assms(1,2) by (auto simp: sizes_ok_def change_user_def update_where_def)
  ultimately show ?thesis
    using assms(1) change_user_ids[of ?f i d] by (simp add: sizes_ok_def list_all_iff change_user_def)
qed

lemma register_sizes:
  "sizes_ok k d \<Longrightarrow> sizes_ok k (d\<lparr>users := users d @ [oauth_user (fresh_id us_id (users d)) now a]\<rparr>)"
  using fresh_id_notin[of us_id "users d"] by (auto simp: sizes_ok_def oauth_user_def team_members_def list_all_iff)

lemma found_sizes:
  assumes "sizes_ok k d" "0 < k"
  shows "sizes_ok k (d\<lparr>teams := teams d @ [oauth_team (fresh_id te_id (teams d)) now oid name u]\<rparr>)"
proof -
  let ?t = "fresh_id te_id (teams d)"
  have "filter (\<lambda>u. us_team_id u = Some ?t) (users d) = []"
    using assms(1) fresh_id_notin[of te_id "teams d"] by (force simp: sizes_ok_def list_all_iff filter_empty_conv)
  then show ?thesis using assms fresh_id_notin[of te_id "teams d"]
    by (auto simp: sizes_ok_def oauth_team_def team_members_def list_all_iff split: option.splits)
qed

lemma same_team_sizes:
  assumes "\<And>u. us_id (f u) = us_id u" "\<And>u. us_team_id (f u) = us_team_id u" "sizes_ok k d"
  shows "sizes_ok k (change_user i f d)"
proof -
  let ?g = "update_where (\<lambda>u. us_id u = i) f"
  have "length (filter (\<lambda>u. us_team_id u = t) (?g us)) = length (filter (\<lambda>u. us_team_id u = t) us)" for t us
    by (induction us) (auto simp: update_where_def assms(2))
  moreover have "us_team_id ` set (?g us) = us_team_id ` set us" for us
    by (induction us) (auto simp: update_where_def assms(2))
  ultimately show ?thesis
    using assms(3) change_user_ids[of f i d] assms(1) by (simp add: sizes_ok_def change_user_def team_members_def)
qed

lemma link_sizes: "link_account name_key a u d = Inr (u', d') \<Longrightarrow> sizes_ok k d \<Longrightarrow> sizes_ok k d'"
  by (auto simp: link_account_def Let_def split: if_splits intro!: same_team_sizes)

lemma find_sizes: "find_or_register name_key c a = Inr (r, d') \<Longrightarrow> sizes_ok k (cx_db c) \<Longrightarrow> sizes_ok k d'"
  by (auto simp: find_or_register_def Let_def bindE_Inr_iff register_sizes split: option.splits if_splits)

lemma team_sizes:
  assumes "find_or_found_team c a u d = Inr (t, d')" "sizes_ok k d" "0 < k"
  shows "sizes_ok k d' \<and> t \<in> set (teams d')"
  using assms
  by (auto simp: find_or_found_team_def Let_def bindE_Inr_iff found_sizes split: option.splits if_splits dest: first_where_SomeD)

lemma join_oauth_sizes:
  assumes "join_oauth_team c a u d = Inr (r, d')" "sizes_ok k d" "cx_conf c ''team_size'' = PInt k" "0 < k"
  shows "sizes_ok k d'"
proof (cases "\<not> conf_is c ''user_mode'' ''teams'' \<or> us_team_id u \<noteq> None")
  case False
  with assms(1) obtain t d1 full where t: "find_or_found_team c a u d = Inr (t, d1)" "team_full c d1 t = Inr full"
    and d': "d' = (if full then d1 else change_user (us_id u) (\<lambda>u. u\<lparr>us_team_id := Some (te_id t)\<rparr>) d1)"
    by (auto simp: join_oauth_team_def bindE_Inr_iff split: if_splits)
  have "full = (k \<le> int (length (team_members d1 t)))"
    using t(2) assms(3,4) by (auto simp: team_full_def Let_def)
  with d' show ?thesis using team_sizes[OF t(1) assms(2,4)] join_sizes by (auto simp: not_le)
qed (use assms in \<open>auto simp: join_oauth_team_def\<close>)

text \<open>
  Property C36: signing in through the provider never fills a team beyond the configured size and
  never leaves a user in a team that does not exist, whether it registers the user, founds the
  team or only joins it.
\<close>

theorem oauth_team_sizes:
  assumes "oauth_redirect provider name_key nonce c code state = Inr v"
    and "sizes_ok k (cx_db c)" "cx_conf c ''team_size'' = PInt k" "0 < k"
  shows "sizes_ok k (vi_db v)"
proof (cases "vi_db v = cx_db c")
  case False
  with assms(1) obtain a r d1 where f: "find_or_register name_key c a = Inr (r, d1)" and v: "oauth_account name_key nonce c a r d1 = Inr v"
    by (auto simp: oauth_redirect_def visited_def bindE_Inr_iff split: option.splits if_splits)
  note d1 = find_sizes[OF f assms(2)]
  show ?thesis
  proof (cases r)
    case (Inr u)
    with v obtain r' d2 where j: "join_oauth_team c a u d1 = Inr (r', d2)" and v': "oauth_session name_key nonce c a r' d2 = Inr v"
      by (auto simp: oauth_account_def bindE_Inr_iff)
    note d2 = join_oauth_sizes[OF j d1 assms(3,4)]
    show ?thesis
    proof (cases r')
      case (Inr u')
      with v' obtain u'' where "link_account name_key a u' d2 = Inr (u'', vi_db v)" by (auto simp: oauth_session_def bindE_Inr_iff)
      from link_sizes[OF this d2] show ?thesis .
    qed (use v' d2 in \<open>auto simp: oauth_session_def\<close>)
  qed (use v d1 in \<open>auto simp: oauth_account_def\<close>)
qed (use assms in simp)

text \<open>Also proved: a session through the provider needs the state of the session that asked for it.\<close>

theorem oauth_needs_state:
  assumes "oauth_redirect provider name_key nonce c code state = Inr v" "vi_session v \<noteq> cx_session c \<or> vi_db v \<noteq> cx_db c"
  shows "state \<noteq> None \<and> se_nonce (cx_session c) = state \<and> code \<noteq> None"
  using assms by (auto simp: oauth_redirect_def visited_def split: option.splits if_splits)

section \<open>Witnesses\<close>

definition staff_user :: user where
  "staff_user = (sample_user 1 None)\<lparr>us_type := Some ''admin'', us_name := ''boss'', us_email := Some ''b@x.y'', us_password := Some ''hash''\<rparr>"

definition login_ctx :: ctx where
  "login_ctx = (sample_ctx staff_user None ''POST'' None)\<lparr>cx_conf := (\<lambda>k. if k = ''team_size'' then PInt 1
     else if k = ''user_mode'' then PStr ''teams'' else if k = ''registration_visibility'' then PStr ''mlc''
     else if k = ''mail_server'' \<or> k = ''mail_port'' then PStr ''x'' else PNone)\<rparr>"

definition session_of :: "py_exc + visit \<Rightarrow> int option" where
  "session_of r = (case r of Inr v \<Rightarrow> se_id (vi_session v) | Inl e \<Rightarrow> None)"

lemma session_of_SomeE:
  assumes "session_of r = Some i" obtains v where "r = Inr v" "se_id (vi_session v) = Some i"
  using assms by (cases r) (auto simp: session_of_def)

theorem login_staff_only_witness:
  "\<exists>v. login py_lower (\<lambda>p h. Inr (p = ''pw'')) ''fresh'' login_ctx True (Some ''Boss'') (Some ''pw'') = Inr v \<and>
     vi_db v = cx_db login_ctx \<and> se_id (vi_session v) = Some 1"
proof -
  let ?r = "login py_lower (\<lambda>p h. Inr (p = ''pw'')) ''fresh'' login_ctx True (Some ''Boss'') (Some ''pw'')"
  have a: "login_account py_lower (cx_db login_ctx) ''Boss'' = Some staff_user" by code_simp
  have u: "us_password staff_user = Some ''hash''" "us_type staff_user = Some ''admin''" "us_id staff_user = 1" by code_simp+
  obtain v where v: "?r = Inr v" "se_id (vi_session v) = Some 1"
    unfolding login_def login_user_def Let_def by (simp add: a u)
  from login_staff_only[OF v(1)] have "vi_db v = cx_db login_ctx" by (rule conjunct1)
  with v show ?thesis by (intro exI conjI)
qed

theorem reset_needs_link_witness:
  "\<exists>v. reset_password (\<lambda>_ _. Inr (PStr ''b@x.y'')) (\<lambda>_. PNone) (\<lambda>p. ''h'' @ p) login_ctx False (Some ''l'') (Some ''new'') None = Inr v \<and>
     vi_session v = cx_session login_ctx \<and> vi_mail v = [(AlertMail, Some ''b@x.y'')]"
proof -
  let ?r = "reset_password (\<lambda>_ _. Inr (PStr ''b@x.y'')) (\<lambda>_. PNone) (\<lambda>p. ''h'' @ p) login_ctx False (Some ''l'') (Some ''new'') None"
  have a: "by_address (cx_db login_ctx) (PStr ''b@x.y'') = Some staff_user" "can_send_mail (\<lambda>_. PNone) (cx_conf login_ctx) = True"
    "us_oauth_id staff_user = None" "us_email staff_user = Some ''b@x.y''" "py_strip ''new'' = ''new''" by code_simp+
  obtain v where v: "?r = Inr v" "vi_mail v = [(AlertMail, Some ''b@x.y'')]"
    unfolding reset_password_def reset_with_link_def Let_def by (simp add: a first_or_404_def)
  from reset_needs_link[OF v(1)] have "vi_session v = cx_session login_ctx" by (rule conjunct1)
  with v show ?thesis by (intro exI conjI)
qed

definition unconfirmed_ctx :: ctx where
  "unconfirmed_ctx = login_ctx\<lparr>cx_db := empty_db\<lparr>users := [staff_user\<lparr>us_verified := Some False\<rparr>]\<rparr>, cx_conf := (\<lambda>k. PBool (k = ''verify_emails''))\<rparr>"

theorem confirm_needs_link_witness:
  "\<exists>v. confirm (\<lambda>_ _. Inr (PStr ''b@x.y'')) unconfirmed_ctx True (Some ''l'') = Inr v \<and> vi_session v = cx_session unconfirmed_ctx"
proof -
  let ?r = "confirm (\<lambda>_ _. Inr (PStr ''b@x.y'')) unconfirmed_ctx True (Some ''l'')"
  have a: "by_address (cx_db unconfirmed_ctx) (PStr ''b@x.y'') \<noteq> None"
    "truthy (cx_conf unconfirmed_ctx ''verify_emails'') = True" by code_simp+
  from a(1) obtain u where u: "by_address (cx_db unconfirmed_ctx) (PStr ''b@x.y'') = Some u" by blast
  obtain v where v: "?r = Inr v"
    unfolding confirm_def by (cases "us_verified u = Some True") (simp_all add: a(2) u first_or_404_def)
  from confirm_needs_link[OF v] have "vi_session v = cx_session unconfirmed_ctx" by (rule conjunct1)
  with v show ?thesis by (intro exI conjI)
qed

text \<open>A new contestant and a new team through the provider: he gets a session of this portal.\<close>

definition new_player :: api_user where
  "new_player = \<lparr>ap_id = 70, ap_name = ''zoe'', ap_email = ''z@x.y'', ap_team = Some (9, ''Zs'')\<rparr>"

definition oauth_visit :: "py_exc + visit" where
  "oauth_visit = oauth_redirect (\<lambda>_. Some (Inr new_player)) id ''fresh'' login_ctx (Some ''code'') (Some ''n'')"

lemma oauth_contestant: "session_of oauth_visit = Some 2 \<and>
    (case oauth_visit of Inr v \<Rightarrow> map us_type (users (vi_db v)) = [Some ''admin'', Some ''user''] | Inl e \<Rightarrow> False)"
  by code_simp

lemma oauth_visit_result: obtains v where "oauth_visit = Inr v" "se_id (vi_session v) = Some 2"
  by (rule session_of_SomeE[OF conjunct1[OF oauth_contestant]])

theorem oauth_team_sizes_witness: "\<exists>v. oauth_visit = Inr v \<and> sizes_ok 1 (vi_db v)"
proof -
  obtain v where v: "oauth_visit = Inr v" by (rule oauth_visit_result)
  have "users (cx_db login_ctx) = [staff_user]" "teams (cx_db login_ctx) = []"
    "cx_conf login_ctx ''team_size'' = PInt 1" "us_team_id staff_user = None" by code_simp+
  then have "sizes_ok 1 (cx_db login_ctx)" by (simp add: sizes_ok_def)
  from oauth_team_sizes[OF v[unfolded oauth_visit_def] this \<open>cx_conf login_ctx ''team_size'' = PInt 1\<close>]
  have "sizes_ok 1 (vi_db v)" by simp
  with v show ?thesis by (intro exI conjI)
qed

theorem oauth_needs_state_witness: "\<exists>v. oauth_visit = Inr v \<and> se_nonce (cx_session login_ctx) = Some ''n''"
proof -
  obtain v where v: "oauth_visit = Inr v" "se_id (vi_session v) = Some 2" by (rule oauth_visit_result)
  have "se_id (cx_session login_ctx) = None" by code_simp
  with v(2) have "vi_session v \<noteq> cx_session login_ctx" by auto
  then show ?thesis using oauth_needs_state[OF v(1)[unfolded oauth_visit_def]] v(1) by auto
qed

end
