(* ===== verification/ContentApi.thy ===== *)
theory ContentApi imports SubmissionsApi AwardsApi begin

text \<open>
  What hangs on challenges and accounts: the endpoints of flags, tags, topics, comments,
  brackets and access tokens (\<^verbatim>\<open>api/v1/flags.py\<close> and its siblings) with the checks of their schemas.
  The library's conversion of checked fields into a row is the argument \<open>load\<close>; what the
  database and the listeners of \<^verbatim>\<open>models\<close> check when the row is written is part of the model.
  Audit rows are left out, and an id in a path stands for the row id the database reads in it.
\<close>

section \<open>Rows written by a schema\<close>

datatype 'r written = Written 'r | Refused string

text \<open>Validation errors of a schema are an answer; other exceptions escape.\<close>

definition schema_refusing :: "'s \<Rightarrow> py_exc + 'a \<Rightarrow> ('a \<Rightarrow> py_exc + 'r written \<times> 's) \<Rightarrow> py_exc + 'r written \<times> 's" where
  "schema_refusing s r f = (case r of Inr a \<Rightarrow> f a
     | Inl e \<Rightarrow> (case schema_field e of Some n \<Rightarrow> Inr (Refused n, s) | None \<Rightarrow> Inl e))"

lemma schema_refusing_Inr [monad_simps]:
  "schema_refusing s r f = Inr x \<longleftrightarrow> (\<exists>a. r = Inr a \<and> f a = Inr x) \<or> (\<exists>e n. r = Inl e \<and> schema_field e = Some n \<and> x = (Refused n, s))"
  by (auto simp: schema_refusing_def split: sum.split option.split)

definition answering_db :: "py_exc + 'a \<times> 's \<Rightarrow> py_exc + ('a \<times> 's) reply" where
  "answering_db r = bindE r (\<lambda>x. Inr (Body x))"

text \<open>The arguments given, compared for equality, and the text filter.\<close>

definition listed_rows ::
  "(int \<Rightarrow> string \<Rightarrow> bool) \<Rightarrow> (string \<Rightarrow> string \<Rightarrow> bool) \<Rightarrow> (string \<Rightarrow> ('r \<Rightarrow> cell) option) \<Rightarrow> (string \<times> cell) list \<Rightarrow> string option \<Rightarrow>
     string \<Rightarrow> 'r list \<Rightarrow> 'r list" where
  "listed_rows num_eq like columns args q field rs =
     filter (\<lambda>r. list_all (\<lambda>(f, v). case columns f of None \<Rightarrow> False | Some col \<Rightarrow> col r = v) args \<and>
       list_all (\<lambda>p. p r) (build_model_filters num_eq like columns (\<lambda>_. None) q field)) rs"

section \<open>Flags\<close>

definition FLAG_CLASSES :: "string list" where
  "FLAG_CLASSES = [''static'', ''regex'']"

definition flag_columns :: "string \<Rightarrow> (flag \<Rightarrow> cell) option" where
  "flag_columns f = (if f = ''id'' then Some (\<lambda>x. IntCell (Some (fl_id x)))
     else if f = ''challenge_id'' then Some (\<lambda>x. IntCell (fl_challenge_id x))
     else if f = ''type'' then Some (\<lambda>x. TextCell (fl_type x))
     else if f = ''content'' then Some (\<lambda>x. TextCell (fl_content x))
     else if f = ''data'' then Some (\<lambda>x. TextCell (fl_data x)) else None)"

definition flag_list where
  "flag_list num_eq like c args q field = admin_or_challenge_writer_only_or_jury c
     (Inr (Body (listed_rows num_eq like flag_columns args q field (flags (cx_db c)))))"

text \<open>The challenge a flag names: the field to complain about, if any.\<close>

definition flag_target_error :: "db \<Rightarrow> dict \<Rightarrow> py_exc + string option" where
  "flag_target_error d req = (if dget req ''challenge_id'' = PNone then Inr None
     else case score_integer (dget req ''challenge_id'') ''challenge_id'' 1 of
       Inl (ScoringValidationError f m) \<Rightarrow> Inr (Some f)
     | Inl e \<Rightarrow> Inl e
     | Inr i \<Rightarrow> Inr (if challenge_by_id d i = None then Some ''challenge_id'' else None))"

definition flag_pre_load :: "re_compiles \<Rightarrow> flag \<Rightarrow> dict \<Rightarrow> py_exc + dict" where
  "flag_pre_load rc f data =
     bindE (if has_key data ''flag_type''
       then (if has_key data ''type'' \<and> \<not> py_eq (dget data ''type'') (dget data ''flag_type'')
         then Inl (ValidationError ''type and flag_type must match'' [''type''])
         else Inr (put ''type'' (dget data ''flag_type'') data))
       else Inr data) (\<lambda>d1.
     bindE (validate_type_payload [] FLAG_CLASSES ''flags'' d1) (\<lambda>_.
     case validate_flag_content rc (dget_default d1 ''type'' (PStr (flag_type f)))
         (dget_default d1 ''content'' (of_opt_str (fl_content f))) (dget_default d1 ''data'' (of_opt_str (fl_data f))) of
       Inl (ValueError m) \<Rightarrow> Inl (ValidationError m [''content''])
     | Inl e \<Rightarrow> Inl e
     | Inr _ \<Rightarrow> Inr d1))"

text \<open>Assigning a type checks it (\<open>Flags.validate_type\<close>).\<close>

definition checked_type :: "flag \<Rightarrow> flag \<Rightarrow> py_exc + flag" where
  "checked_type f n = (if fl_type n = fl_type f then Inr n
     else bindE (flag_validate_type [] FLAG_CLASSES False True (of_opt_str (fl_type n))) (\<lambda>_. Inr n))"

text \<open>The listener before an insert or update, and the foreign key.\<close>

definition validate_flag_before_write :: "re_compiles \<Rightarrow> flag \<Rightarrow> py_exc + unit" where
  "validate_flag_before_write rc f = validate_flag_content rc (PStr (flag_type f)) (of_opt_str (fl_content f)) (of_opt_str (fl_data f))"

definition known_challenge :: "db \<Rightarrow> int option \<Rightarrow> bool" where
  "known_challenge d r = (case r of None \<Rightarrow> True | Some i \<Rightarrow> challenge_by_id d i \<noteq> None)"

definition flag_writable :: "re_compiles \<Rightarrow> db \<Rightarrow> flag \<Rightarrow> bool" where
  "flag_writable rc d f = (validate_flag_before_write rc f = Inr () \<and> known_challenge d (fl_challenge_id f))"

definition new_flag :: "string \<Rightarrow> db \<Rightarrow> flag" where
  "new_flag t d = \<lparr>fl_id = fresh_id fl_id (flags d), fl_challenge_id = None, fl_type = Some t, fl_content = None, fl_data = None\<rparr>"

definition flag_create :: "re_compiles \<Rightarrow> (dict \<Rightarrow> flag \<Rightarrow> py_exc + flag) \<Rightarrow> db \<Rightarrow> pyval \<Rightarrow> py_exc + flag written \<times> db" where
  "flag_create rc load d body = (case body of
     PDict req \<Rightarrow> bindE (flag_target_error d req) (\<lambda>err. case err of
         Some f \<Rightarrow> Inr (Refused f, d)
       | None \<Rightarrow>
           let t = dget_default req ''type'' (dget_default req ''flag_type'' (PStr ''static'')) in
           (case require_supported_type [] FLAG_CLASSES ''flags'' t of
             Inl (ValueError m) \<Rightarrow> Inr (Refused ''type'', d)
           | Inl e \<Rightarrow> Inl e
           | Inr s \<Rightarrow> let f = new_flag s d in
               schema_refusing d (bindE (flag_pre_load rc f (put ''type'' t req)) (\<lambda>data. load data f)) (\<lambda>n.
               bindE (checked_type f (n\<lparr>fl_id := fl_id f\<rparr>)) (\<lambda>n'.
               if flag_writable rc d n' then Inr (Written n', d\<lparr>flags := flags d @ [n']\<rparr>)
               else Inr (Refused (if validate_flag_before_write rc n' = Inr () then ''database'' else ''unknown''), d)))))
   | _ \<Rightarrow> Inr (Refused ''body'', d))"

definition flag_post where
  "flag_post rc load c body = admin_or_challenge_writer_only_or_jury c (answering_db (flag_create rc load (cx_db c) body))"

definition flag_by_id :: "db \<Rightarrow> int \<Rightarrow> flag option" where
  "flag_by_id d i = first_where (\<lambda>f. fl_id f = i) (flags d)"

definition flag_get where
  "flag_get c i = admin_or_challenge_writer_only_or_jury c
     (bindE (first_or_404 (flag_by_id (cx_db c) i)) (\<lambda>f. Inr (Body (f, list_ex (\<lambda>n. fl_type f = Some n) FLAG_CLASSES))))"

definition flag_edit :: "re_compiles \<Rightarrow> (dict \<Rightarrow> flag \<Rightarrow> py_exc + flag) \<Rightarrow> db \<Rightarrow> int \<Rightarrow> pyval \<Rightarrow> py_exc + flag written \<times> db" where
  "flag_edit rc load d i body = bindE (first_or_404 (flag_by_id d i)) (\<lambda>f. case body of
     PDict req \<Rightarrow> bindE (flag_target_error d req) (\<lambda>err. case err of
         Some x \<Rightarrow> Inr (Refused x, d)
       | None \<Rightarrow>
           schema_refusing d (bindE (flag_pre_load rc f req) (\<lambda>data. load data f)) (\<lambda>n.
           bindE (checked_type f (n\<lparr>fl_id := fl_id f\<rparr>)) (\<lambda>n'.
           if n' = f \<or> flag_writable rc d n'
           then Inr (Written n', d\<lparr>flags := update_where (\<lambda>x. fl_id x = i) (\<lambda>_. n') (flags d)\<rparr>)
           else Inr (Refused ''database'', d))))
   | _ \<Rightarrow> Inr (Refused ''body'', d))"

definition flag_patch where
  "flag_patch rc load c i body = admin_or_challenge_writer_only_or_jury c (answering_db (flag_edit rc load (cx_db c) i body))"

definition flag_remove :: "db \<Rightarrow> int \<Rightarrow> py_exc + unit \<times> db" where
  "flag_remove d i = bindE (first_or_404 (flag_by_id d i)) (\<lambda>f. Inr ((), d\<lparr>flags := delete_where (\<lambda>x. fl_id x = i) (flags d)\<rparr>))"

definition flag_delete where
  "flag_delete c i = admin_or_challenge_writer_only_or_jury c (answering_db (flag_remove (cx_db c) i))"

section \<open>Tags\<close>

definition tag_columns :: "string \<Rightarrow> (tag \<Rightarrow> cell) option" where
  "tag_columns f = (if f = ''id'' then Some (\<lambda>x. IntCell (Some (ta_id x)))
     else if f = ''challenge_id'' then Some (\<lambda>x. IntCell (ta_challenge_id x))
     else if f = ''value'' then Some (\<lambda>x. TextCell (ta_value x)) else None)"

definition tag_list where
  "tag_list num_eq like c args q field = admins_only c
     (Inr (Body (listed_rows num_eq like tag_columns args q field (tags (cx_db c)))))"

definition tag_pre_load :: "db \<Rightarrow> bool \<Rightarrow> dict \<Rightarrow> py_exc + dict" where
  "tag_pre_load d creating data =
     bindE (reference data ''challenge_id'' (\<lambda>i. challenge_by_id d i \<noteq> None) creating False) (\<lambda>d1.
     bindE (text_field d1 ''value'' creating) (\<lambda>_. Inr d1))"

definition new_tag :: "db \<Rightarrow> tag" where
  "new_tag d = \<lparr>ta_id = fresh_id ta_id (tags d), ta_challenge_id = None, ta_value = None\<rparr>"

definition tag_create :: "(dict \<Rightarrow> tag \<Rightarrow> py_exc + tag) \<Rightarrow> db \<Rightarrow> pyval \<Rightarrow> py_exc + tag written \<times> db" where
  "tag_create load d body = (case body of
     PDict req \<Rightarrow> schema_refusing d (bindE (tag_pre_load d True req) (\<lambda>data. load data (new_tag d))) (\<lambda>n.
       let n' = n\<lparr>ta_id := ta_id (new_tag d)\<rparr> in
       if known_challenge d (ta_challenge_id n') then Inr (Written n', d\<lparr>tags := tags d @ [n']\<rparr>) else Inl IntegrityError)
   | _ \<Rightarrow> Inr (Refused ''_schema'', d))"

definition tag_post where
  "tag_post load c body = admins_only c (answering_db (tag_create load (cx_db c) body))"

definition tag_by_id :: "db \<Rightarrow> int \<Rightarrow> tag option" where
  "tag_by_id d i = first_where (\<lambda>t. ta_id t = i) (tags d)"

definition tag_get where
  "tag_get c i = admins_only c (bindE (first_or_404 (tag_by_id (cx_db c) i)) (\<lambda>t. Inr (Body t)))"

definition tag_edit :: "(dict \<Rightarrow> tag \<Rightarrow> py_exc + tag) \<Rightarrow> db \<Rightarrow> int \<Rightarrow> pyval \<Rightarrow> py_exc + tag written \<times> db" where
  "tag_edit load d i body = bindE (first_or_404 (tag_by_id d i)) (\<lambda>t. case body of
     PDict req \<Rightarrow> schema_refusing d (bindE (tag_pre_load d False req) (\<lambda>data. load data t)) (\<lambda>n.
       let n' = n\<lparr>ta_id := i\<rparr> in
       if known_challenge d (ta_challenge_id n')
       then Inr (Written n', d\<lparr>tags := update_where (\<lambda>x. ta_id x = i) (\<lambda>_. n') (tags d)\<rparr>) else Inl IntegrityError)
   | _ \<Rightarrow> Inr (Refused ''_schema'', d))"

definition tag_patch where
  "tag_patch load c i body = admins_only c (answering_db (tag_edit load (cx_db c) i body))"

definition tag_remove :: "db \<Rightarrow> int \<Rightarrow> py_exc + unit \<times> db" where
  "tag_remove d i = bindE (first_or_404 (tag_by_id d i)) (\<lambda>t. Inr ((), d\<lparr>tags := delete_where (\<lambda>x. ta_id x = i) (tags d)\<rparr>))"

definition tag_delete where
  "tag_delete c i = admins_only c (answering_db (tag_remove (cx_db c) i))"

section \<open>Topics\<close>

record topic =
  tp_id :: int
  tp_value :: "string option"

record topic_link =
  tl_id :: int
  tl_challenge_id :: "int option"
  tl_topic_id :: "int option"

record topic_state =
  ts_db :: db
  ts_topics :: "topic list"
  ts_links :: "topic_link list"

text \<open>
  \<open>same v s\<close>: the database finds the value \<open>v\<close> in a column with the text \<open>s\<close>; the unique
  index of the column compares texts with the same collation.
\<close>

definition topic_by_value :: "(pyval \<Rightarrow> string \<Rightarrow> bool) \<Rightarrow> topic_state \<Rightarrow> pyval \<Rightarrow> topic option" where
  "topic_by_value same st v = first_where (\<lambda>t. case tp_value t of None \<Rightarrow> False | Some s \<Rightarrow> same v s) (ts_topics st)"

definition value_taken :: "(pyval \<Rightarrow> string \<Rightarrow> bool) \<Rightarrow> topic_state \<Rightarrow> string option \<Rightarrow> bool" where
  "value_taken same st v = (case v of None \<Rightarrow> False | Some s \<Rightarrow> topic_by_value same st (PStr s) \<noteq> None)"

definition topic_by_id :: "topic_state \<Rightarrow> int \<Rightarrow> topic option" where
  "topic_by_id st i = first_where (\<lambda>t. tp_id t = i) (ts_topics st)"

text \<open>An existing topic, or a new one that is committed at once.\<close>

definition topic_of ::
  "(pyval \<Rightarrow> string \<Rightarrow> bool) \<Rightarrow> (dict \<Rightarrow> topic \<Rightarrow> py_exc + topic) \<Rightarrow> (pyval \<Rightarrow> int option) \<Rightarrow> topic_state \<Rightarrow> dict \<Rightarrow> py_exc + topic written \<times> topic_state" where
  "topic_of same load find_id st req = (let v = dget req ''value'' in
     if truthy v then (case topic_by_value same st v of
         Some t \<Rightarrow> Inr (Written t, st)
       | None \<Rightarrow> let i = fresh_id tp_id (ts_topics st) in
           schema_refusing st (load req \<lparr>tp_id = i, tp_value = None\<rparr>) (\<lambda>n. let n' = n\<lparr>tp_id := i\<rparr> in
             if value_taken same st (tp_value n') then Inl IntegrityError
             else Inr (Written n', st\<lparr>ts_topics := ts_topics st @ [n']\<rparr>)))
     else bindE (first_or_404 (case find_id (dget req ''topic_id'') of None \<Rightarrow> None | Some i \<Rightarrow> topic_by_id st i)) (\<lambda>t. Inr (Written t, st)))"

definition known_topic :: "topic_state \<Rightarrow> int option \<Rightarrow> bool" where
  "known_topic st r = (case r of None \<Rightarrow> True | Some i \<Rightarrow> topic_by_id st i \<noteq> None)"

text \<open>
  The link is loaded from the body with the topic's id.  The errors of the schema are not looked at:
  what is then added to the session is not a row.
\<close>

definition add_link :: "(dict \<Rightarrow> topic_link \<Rightarrow> py_exc + topic_link) \<Rightarrow> topic_state \<Rightarrow> dict \<Rightarrow> topic \<Rightarrow> py_exc + topic_link written \<times> topic_state" where
  "add_link load st req t =
     (if dget req ''type'' \<noteq> PStr ''challenge'' then Inr (Refused [], st)
      else let i = fresh_id tl_id (ts_links st) in
        (case load (put ''topic_id'' (PInt (tp_id t)) req) \<lparr>tl_id = i, tl_challenge_id = None, tl_topic_id = None\<rparr> of
          Inl (ValidationError m fs) \<Rightarrow> Inl (RuntimeError ''UnmappedInstanceError'')
        | Inl e \<Rightarrow> Inl e
        | Inr n \<Rightarrow> let n' = n\<lparr>tl_id := i\<rparr> in
            if known_challenge (ts_db st) (tl_challenge_id n') \<and> known_topic st (tl_topic_id n')
            then Inr (Written n', st\<lparr>ts_links := ts_links st @ [n']\<rparr>) else Inl IntegrityError))"

text \<open>What was committed before an exception stays: the state comes with the exception.\<close>

definition topic_post ::
  "(pyval \<Rightarrow> string \<Rightarrow> bool) \<Rightarrow> (dict \<Rightarrow> topic \<Rightarrow> py_exc + topic) \<Rightarrow> (pyval \<Rightarrow> int option) \<Rightarrow> (dict \<Rightarrow> topic_link \<Rightarrow> py_exc + topic_link) \<Rightarrow>
     topic_state \<Rightarrow> pyval \<Rightarrow> (py_exc + topic_link written) \<times> topic_state" where
  "topic_post same load find_id load_link st body = (case body of
     PDict req \<Rightarrow> (case topic_of same load find_id st req of
         Inl e \<Rightarrow> (Inl e, st)
       | Inr (Refused f, _) \<Rightarrow> (Inr (Refused f), st)
       | Inr (Written t, st') \<Rightarrow> (case add_link load_link st' req t of
             Inl e \<Rightarrow> (Inl e, st') | Inr (w, st'') \<Rightarrow> (Inr w, st'')))
   | _ \<Rightarrow> (Inl AttributeError, st))"

definition topic_link_delete :: "topic_state \<Rightarrow> string option \<Rightarrow> int \<Rightarrow> py_exc + unit written \<times> topic_state" where
  "topic_link_delete st kind i = (if kind \<noteq> Some ''challenge'' then Inr (Refused [], st)
     else bindE (first_or_404 (first_where (\<lambda>l. tl_id l = i) (ts_links st))) (\<lambda>l.
       Inr (Written (), st\<lparr>ts_links := delete_where (\<lambda>l. tl_id l = i) (ts_links st)\<rparr>)))"

text \<open>Deleting a topic deletes its links (\<open>ON DELETE CASCADE\<close>).\<close>

definition topic_delete :: "topic_state \<Rightarrow> int \<Rightarrow> py_exc + unit \<times> topic_state" where
  "topic_delete st i = bindE (first_or_404 (topic_by_id st i)) (\<lambda>t.
     Inr ((), st\<lparr>ts_topics := delete_where (\<lambda>t. tp_id t = i) (ts_topics st), ts_links := delete_where (\<lambda>l. tl_topic_id l = Some i) (ts_links st)\<rparr>))"

definition topic_names :: "topic_state \<Rightarrow> (int \<times> string option) list" where
  "topic_names st = map (\<lambda>t. (tp_id t, tp_value t)) (sort_key tp_id (ts_topics st))"

definition challenge_topics_get :: "topic_state \<Rightarrow> int \<Rightarrow> py_exc + (topic_link \<times> string option) list" where
  "challenge_topics_get st cid = mapE (\<lambda>l. case (case tl_topic_id l of None \<Rightarrow> None | Some i \<Rightarrow> topic_by_id st i) of
       None \<Rightarrow> Inl AttributeError | Some t \<Rightarrow> Inr (l, tp_value t)) (filter (\<lambda>l. tl_challenge_id l = Some cid) (ts_links st))"

section \<open>Comments\<close>

record comment =
  cm_id :: int
  cm_type :: string
  cm_content :: string
  cm_date :: date
  cm_author_id :: int
  cm_challenge_id :: "int option"
  cm_user_id :: "int option"
  cm_team_id :: "int option"

definition comment_targets :: "string list" where
  "comment_targets = [''challenge_id'', ''user_id'', ''team_id'']"

definition comment_type_of :: "string list \<Rightarrow> string" where
  "comment_type_of targets = (case targets of [] \<Rightarrow> ''standard'' | t # _ \<Rightarrow> take (length t - 3) t)"

text \<open>The checked body: the text, and the reference to the target if there is one.\<close>

definition comment_input :: "db \<Rightarrow> dict \<Rightarrow> py_exc + dict" where
  "comment_input d req = (let targets = filter (has_key req) comment_targets in
     bindE (text_field req ''content'' True) (\<lambda>_.
     if 1 < length targets \<or> \<not> fst ` set req \<subseteq> set (comment_targets @ [''content'', ''type'', ''author_id''])
     then Inl (ValidationError ''Provide at most one target and supported fields only'' [''_schema''])
     else bindE (reference req ''challenge_id'' (\<lambda>i. challenge_by_id d i \<noteq> None) False False) (\<lambda>r1.
       bindE (reference r1 ''user_id'' (\<lambda>i. user_by_id d i \<noteq> None) False False) (\<lambda>r2.
       bindE (reference r2 ''team_id'' (\<lambda>i. team_by_id d i \<noteq> None) False False) (\<lambda>r3.
       if \<not> py_eq (dget_default r3 ''type'' (PStr (comment_type_of targets))) (PStr (comment_type_of targets))
       then Inl (ValidationError ''Comment type must match its target'' [''type''])
       else Inr (put ''type'' (PStr (comment_type_of targets)) r3))))))"

definition int_field :: "dict \<Rightarrow> string \<Rightarrow> int option" where
  "int_field data k = (case dget data k of PInt i \<Rightarrow> Some i | _ \<Rightarrow> None)"

definition text_of :: "dict \<Rightarrow> string \<Rightarrow> string" where
  "text_of data k = (case dget data k of PStr s \<Rightarrow> s | _ \<Rightarrow> [])"

definition comment_post :: "ctx \<Rightarrow> comment list \<Rightarrow> pyval \<Rightarrow> py_exc + (comment written \<times> comment list) reply" where
  "comment_post c cs body = admins_only c (answering_db (case body of
     PDict req \<Rightarrow> schema_refusing cs (comment_input (cx_db c) req) (\<lambda>data.
       (case se_id (cx_session c) of None \<Rightarrow> Inl KeyError | Some author \<Rightarrow>
         let n = \<lparr>cm_id = fresh_id cm_id cs, cm_type = text_of data ''type'', cm_content = text_of data ''content'', cm_date = Some (utcnow c),
           cm_author_id = author, cm_challenge_id = int_field data ''challenge_id'', cm_user_id = int_field data ''user_id'',
           cm_team_id = int_field data ''team_id''\<rparr> in
         Inr (Written n, cs @ [n])))
   | _ \<Rightarrow> Inr (Refused ''_schema'', cs)))"

definition comment_delete :: "ctx \<Rightarrow> comment list \<Rightarrow> int \<Rightarrow> py_exc + (unit \<times> comment list) reply" where
  "comment_delete c cs i = admins_only c (answering_db
     (bindE (first_or_404 (first_where (\<lambda>x. cm_id x = i) cs)) (\<lambda>_. Inr ((), delete_where (\<lambda>x. cm_id x = i) cs))))"

text \<open>The listing asks for one target, named by the type; \<open>page\<close> is the library's pagination.\<close>

definition comment_target :: "(string \<times> int) list \<Rightarrow> string option \<Rightarrow> string option" where
  "comment_target args kind =
     (let target = (case kind of None \<Rightarrow> None | Some k \<Rightarrow> map_of [(''challenge'', ''challenge_id''), (''user'', ''user_id''), (''team'', ''team_id'')] k) in
      case target of None \<Rightarrow> None
      | Some t \<Rightarrow> (case map_of args t of None \<Rightarrow> None
          | Some i \<Rightarrow> if i \<le> 0 \<or> list_ex (\<lambda>k. k \<noteq> t \<and> has_key args k) comment_targets then None else Some t))"

definition comment_column :: "string \<Rightarrow> comment \<Rightarrow> int option" where
  "comment_column t = (if t = ''challenge_id'' then cm_challenge_id else if t = ''user_id'' then cm_user_id else cm_team_id)"

definition comment_list ::
  "(int \<Rightarrow> string \<Rightarrow> bool) \<Rightarrow> (string \<Rightarrow> string \<Rightarrow> bool) \<Rightarrow> (comment list \<Rightarrow> 'p) \<Rightarrow> ctx \<Rightarrow> comment list \<Rightarrow> (string \<times> int) list \<Rightarrow> string option \<Rightarrow>
     string option \<Rightarrow> string \<Rightarrow> py_exc + 'p written reply" where
  "comment_list num_eq like page c cs args kind q field = admins_only c (case comment_target args kind of
       None \<Rightarrow> Inr (Body (Refused ''type''))
     | Some t \<Rightarrow> Inr (Body (Written (page (rev (sort_key cm_id (filter (\<lambda>x. comment_column t x = map_of args t \<and> kind = Some (cm_type x) \<and>
         list_all (\<lambda>p. p x) (build_model_filters num_eq like (\<lambda>f. if f = ''content'' then Some (\<lambda>x. TextCell (Some (cm_content x))) else None)
           (\<lambda>_. None) q field)) cs)))))))"

section \<open>Brackets\<close>

definition bracket_columns :: "string \<Rightarrow> (bracket \<Rightarrow> cell) option" where
  "bracket_columns f = (if f = ''id'' then Some (\<lambda>x. IntCell (Some (br_id x)))
     else if f = ''name'' then Some (\<lambda>x. TextCell (br_name x))
     else if f = ''description'' then Some (\<lambda>x. TextCell (br_description x))
     else if f = ''type'' then Some (\<lambda>x. TextCell (br_type x)) else None)"

text \<open>SQL's \<open>trim\<close> removes spaces only.\<close>

definition offered_bracket :: "bracket \<Rightarrow> bool" where
  "offered_bracket b = ((br_type b = Some ''users'' \<or> br_type b = Some ''teams'') \<and>
     (case br_name b of None \<Rightarrow> False | Some s \<Rightarrow> list_ex (\<lambda>c. c \<noteq> CHR '' '') s))"

definition bracket_list :: "(int \<Rightarrow> string \<Rightarrow> bool) \<Rightarrow> (string \<Rightarrow> string \<Rightarrow> bool) \<Rightarrow> ctx \<Rightarrow> (string \<times> cell) list \<Rightarrow> string option \<Rightarrow> string \<Rightarrow> bracket list" where
  "bracket_list num_eq like c args q field =
     sort_key br_id (filter (\<lambda>b. yes (is_admin c) \<or> offered_bracket b)
       (listed_rows num_eq like bracket_columns args q field (brackets (cx_db c))))"

definition bracket_pre_load :: "bool \<Rightarrow> dict \<Rightarrow> py_exc + dict" where
  "bracket_pre_load creating data =
     bindE (text_field data ''name'' creating) (\<lambda>_.
     bindE (if has_key data ''name'' then
         (let name = py_strip (text_of data ''name'') in
          if 255 < length name then Inl (ValidationError ''Name must be at most 255 characters'' [''name''])
          else Inr (put ''name'' (PStr name) data))
       else Inr data) (\<lambda>d1.
     if (creating \<or> has_key d1 ''type'') \<and> dget d1 ''type'' \<noteq> PStr ''users'' \<and> dget d1 ''type'' \<noteq> PStr ''teams''
     then Inl (ValidationError ''Bracket type must be users or teams'' [''type''])
     else Inr d1))"

definition new_bracket :: "db \<Rightarrow> bracket" where
  "new_bracket d = \<lparr>br_id = fresh_id br_id (brackets d), br_name = None, br_description = None, br_type = None\<rparr>"

definition bracket_create :: "(dict \<Rightarrow> bracket \<Rightarrow> py_exc + bracket) \<Rightarrow> db \<Rightarrow> pyval \<Rightarrow> py_exc + bracket written \<times> db" where
  "bracket_create load d body = (case body of
     PDict req \<Rightarrow> schema_refusing d (bindE (bracket_pre_load True req) (\<lambda>data. load data (new_bracket d))) (\<lambda>n.
       let n' = n\<lparr>br_id := br_id (new_bracket d)\<rparr> in Inr (Written n', d\<lparr>brackets := brackets d @ [n']\<rparr>))
   | _ \<Rightarrow> Inr (Refused ''_schema'', d))"

definition bracket_post where
  "bracket_post load c body = admins_only c (answering_db (bracket_create load (cx_db c) body))"

definition bracket_by_id :: "db \<Rightarrow> int \<Rightarrow> bracket option" where
  "bracket_by_id d i = first_where (\<lambda>b. br_id b = i) (brackets d)"

definition bracket_edit :: "(dict \<Rightarrow> bracket \<Rightarrow> py_exc + bracket) \<Rightarrow> db \<Rightarrow> int \<Rightarrow> pyval \<Rightarrow> py_exc + bracket written \<times> db" where
  "bracket_edit load d i body = bindE (first_or_404 (bracket_by_id d i)) (\<lambda>b. case body of
     PDict req \<Rightarrow> schema_refusing d (bindE (bracket_pre_load False req) (\<lambda>data. load data b)) (\<lambda>n.
       let n' = n\<lparr>br_id := i\<rparr> in
       Inr (Written n', d\<lparr>brackets := update_where (\<lambda>x. br_id x = i) (\<lambda>_. n') (brackets d)\<rparr>))
   | _ \<Rightarrow> Inr (Refused ''_schema'', d))"

definition bracket_patch where
  "bracket_patch load c i body = admins_only c (answering_db (bracket_edit load (cx_db c) i body))"

text \<open>The accounts of a deleted bracket have none (\<open>ON DELETE SET NULL\<close>).\<close>

definition bracket_remove :: "db \<Rightarrow> int \<Rightarrow> py_exc + unit \<times> db" where
  "bracket_remove d i = bindE (first_or_404 (bracket_by_id d i)) (\<lambda>b. Inr ((), d\<lparr>
     brackets := delete_where (\<lambda>x. br_id x = i) (brackets d),
     users := update_where (\<lambda>u. us_bracket_id u = Some i) (\<lambda>u. u\<lparr>us_bracket_id := None\<rparr>) (users d),
     teams := update_where (\<lambda>t. te_bracket_id t = Some i) (\<lambda>t. t\<lparr>te_bracket_id := None\<rparr>) (teams d)\<rparr>))"

definition bracket_delete where
  "bracket_delete c i = admins_only c (answering_db (bracket_remove (cx_db c) i))"

section \<open>Access tokens\<close>

text \<open>The columns a view shows; the views are those of the schema, any other name is a missing key.\<close>

definition token_views :: "(string \<times> string list) list" where
  "token_views = [(''admin'', [''id'', ''type'', ''user_id'', ''created'', ''expiration'', ''description'', ''value'']),
     (''user'', [''id'', ''type'', ''created'', ''expiration'', ''description''])]"

definition token_guard :: "ctx \<Rightarrow> py_exc + 'r reply \<Rightarrow> py_exc + 'r reply" where
  "token_guard c f = require_verified_emails c (authed_only c f)"

definition token_list :: "ctx \<Rightarrow> py_exc + token list reply" where
  "token_list c = token_guard c (bindE (get_current_user c) (\<lambda>u. case u of
       None \<Rightarrow> Inl AttributeError
     | Some u \<Rightarrow> Inr (Body (filter (\<lambda>t. tk_user_id t = Some (us_id u)) (tokens (cx_db c))))))"

text \<open>\<open>parse\<close> reads an ISO date as microseconds of UTC, once every Z is written as an offset.\<close>

definition zulu :: "string \<Rightarrow> string" where
  "zulu s = concat (map (\<lambda>c. if c = CHR ''Z'' then ''+00:00'' else [c]) s)"

definition token_expiration :: "(string \<Rightarrow> int option) \<Rightarrow> int \<Rightarrow> dict \<Rightarrow> int option option" where
  "token_expiration parse now req = (case dget req ''expiration'' of
      PNone \<Rightarrow> Some None
    | PStr s \<Rightarrow> if py_strip s = [] then None else (case parse (zulu s) of
          None \<Rightarrow> None | Some t \<Rightarrow> if t \<le> now then None else Some (Some t))
    | _ \<Rightarrow> None)"

text \<open>
  Values are drawn until one is free (\<open>candidates\<close> is the stream of draws); a stream that ends
  before stands for a loop that does not.
\<close>

definition token_post :: "(string \<Rightarrow> int option) \<Rightarrow> string list \<Rightarrow> ctx \<Rightarrow> pyval \<Rightarrow> py_exc + (token written \<times> db) reply" where
  "token_post parse candidates c body = token_guard c (case body of
     PDict req \<Rightarrow> (case token_expiration parse (utcnow c) req of
         None \<Rightarrow> Inr (Body (Refused ''expiration'', cx_db c))
       | Some expiration \<Rightarrow>
           if dget req ''description'' \<noteq> PNone \<and> (case dget req ''description'' of PStr _ \<Rightarrow> False | _ \<Rightarrow> True)
           then Inr (Body (Refused ''description'', cx_db c))
           else bindE (get_current_user c) (\<lambda>u. case u of
               None \<Rightarrow> Inl AttributeError
             | Some u \<Rightarrow> (case generate_user_token candidates u (utcnow c) expiration
                   (case dget req ''description'' of PStr s \<Rightarrow> Some s | _ \<Rightarrow> None) (cx_db c) of
                 None \<Rightarrow> Inr NoReply
               | Some (t, d) \<Rightarrow> Inr (Body (Written t, d)))))
   | _ \<Rightarrow> Inr (Body (Refused ''_schema'', cx_db c)))"

definition own_token :: "ctx \<Rightarrow> int option \<Rightarrow> int \<Rightarrow> token option" where
  "own_token c owner i = first_where (\<lambda>t. tk_id t = i \<and> (yes (is_admin c) \<or> (tk_user_id t = owner \<and> owner \<noteq> None))) (tokens (cx_db c))"

definition token_get :: "ctx \<Rightarrow> int \<Rightarrow> py_exc + (token \<times> string list) reply" where
  "token_get c i = token_guard c
     (if \<not> yes (is_admin c) \<and> se_id (cx_session c) = None then Inl KeyError
      else bindE (first_or_404 (own_token c (se_id (cx_session c)) i)) (\<lambda>t.
        case get_current_user_type c (Some ''user'') of
          None \<Rightarrow> Inr (Body (t, snd (hd token_views)))
        | Some view \<Rightarrow> (case map_of token_views view of None \<Rightarrow> Inl KeyError | Some cols \<Rightarrow> Inr (Body (t, cols)))))"

definition token_delete :: "ctx \<Rightarrow> int \<Rightarrow> py_exc + (unit \<times> db) reply" where
  "token_delete c i = token_guard c
     (bindE (get_current_user c) (\<lambda>u.
      if \<not> yes (is_admin c) \<and> u = None then Inl AttributeError
      else bindE (first_or_404 (own_token c (map_option us_id u) i)) (\<lambda>t.
        Inr (Body ((), (cx_db c)\<lparr>tokens := delete_where (\<lambda>x. tk_id x = i) (tokens (cx_db c))\<rparr>)))))"

section \<open>Flags stay usable\<close>

definition flag_ok :: "re_compiles \<Rightarrow> db \<Rightarrow> flag \<Rightarrow> bool" where
  "flag_ok rc d f = (fl_type f \<in> Some ` set FLAG_CLASSES \<and> flag_writable rc d f)"

definition flags_ok :: "re_compiles \<Rightarrow> db \<Rightarrow> bool" where
  "flags_ok rc d = (distinct (map fl_id (flags d)) \<and> list_all (flag_ok rc d) (flags d))"

text \<open>The flag endpoints, the deletion of challenges, and whatever leaves flags and challenges alone.\<close>

inductive flag_step :: "re_compiles \<Rightarrow> db \<Rightarrow> db \<Rightarrow> bool" for rc where
  Create: "flag_create rc load d body = Inr (w, d') \<Longrightarrow> flag_step rc d d'"
| Edit: "flag_edit rc load d i body = Inr (w, d') \<Longrightarrow> flag_step rc d d'"
| Remove: "flag_remove d i = Inr (u, d') \<Longrightarrow> flag_step rc d d'"
| Challenge: "flag_step rc d (snd (delete_challenge refs i d))"
| Other: "flags d' = flags d \<Longrightarrow> ch_id ` set (challenges d') = ch_id ` set (challenges d) \<Longrightarrow> flag_step rc d d'"

lemma known_challenge_iff: "known_challenge d r \<longleftrightarrow> r \<in> insert None (Some ` ch_id ` set (challenges d))"
  by (auto simp: known_challenge_def challenge_by_id_def first_where_None split: option.splits)

lemma flag_ok_cong: "ch_id ` set (challenges d') = ch_id ` set (challenges d) \<Longrightarrow> flag_ok rc d' f = flag_ok rc d f"
  by (simp add: flag_ok_def flag_writable_def known_challenge_iff)

lemma checked_type_ok:
  "checked_type f n = Inr n' \<Longrightarrow> fl_type f \<in> Some ` set FLAG_CLASSES \<Longrightarrow> n' = n \<and> fl_type n \<in> Some ` set FLAG_CLASSES"
  by (cases "fl_type n")
    (auto simp: checked_type_def bindE_Inr_iff flag_validate_type_def require_supported_type_def supported_types_def Let_def split: if_splits)

lemma supported_flag: "require_supported_type [] FLAG_CLASSES ''flags'' t = Inr s \<Longrightarrow> s \<in> set FLAG_CLASSES"
  by (auto simp: require_supported_type_def supported_types_def Let_def split: pyval.splits if_splits)

lemma flag_create_ok:
  assumes "flag_create rc load d body = Inr (w, d')" "flags_ok rc d"
  shows "flags_ok rc d'"
proof (cases "d' = d")
  case False
  obtain s n n' where s: "s \<in> set FLAG_CLASSES" and t: "checked_type (new_flag s d) (n\<lparr>fl_id := fl_id (new_flag s d)\<rparr>) = Inr n'"
    and w: "flag_writable rc d n'" and d': "d' = d\<lparr>flags := flags d @ [n']\<rparr>"
    using assms(1) False
    by (auto simp: flag_create_def Let_def bindE_Inr_iff schema_refusing_Inr split: pyval.splits option.splits sum.splits py_exc.splits if_splits
        dest: supported_flag)
  have "fl_type (new_flag s d) \<in> Some ` set FLAG_CLASSES" using s by (simp add: new_flag_def)
  with checked_type_ok[OF t] have n: "n' = n\<lparr>fl_id := fl_id (new_flag s d)\<rparr>" "fl_type n' \<in> Some ` set FLAG_CLASSES" by auto
  have "flag_ok rc d' = flag_ok rc d" by (intro ext flag_ok_cong) (simp add: d')
  moreover have "fl_id n' = fresh_id fl_id (flags d)" by (simp add: n(1) new_flag_def)
  moreover have "flag_ok rc d n'" using n(2) w by (simp add: flag_ok_def)
  ultimately show ?thesis using assms(2) by (simp add: flags_ok_def d' fresh_id_notin)
qed (use assms in simp)

lemma flag_edit_ok:
  assumes "flag_edit rc load d i body = Inr (w, d')" "flags_ok rc d"
  shows "flags_ok rc d'"
proof (cases "d' = d")
  case False
  obtain f where f: "flag_by_id d i = Some f"
    using assms(1) by (cases "flag_by_id d i") (auto simp: flag_edit_def first_or_404_def)
  obtain n n' where t: "checked_type f (n\<lparr>fl_id := fl_id f\<rparr>) = Inr n'"
    and w: "n' = f \<or> flag_writable rc d n'" and d': "d' = d\<lparr>flags := update_where (\<lambda>x. fl_id x = i) (\<lambda>_. n') (flags d)\<rparr>"
  proof (cases body)
    case (PDict req)
    with assms(1) f obtain err where "flag_target_error d req = Inr err"
      by (auto simp: flag_edit_def first_or_404_def bindE_Inr_iff)
    with assms(1) f False PDict that show thesis
      by (cases err) (auto simp: flag_edit_def first_or_404_def bindE_Inr_iff schema_refusing_Inr split: if_splits)
  qed (use assms(1) f False in \<open>simp_all add: flag_edit_def first_or_404_def\<close>)
  have f': "f \<in> set (flags d)" "fl_id f = i" using first_where_SomeD[OF f[unfolded flag_by_id_def]] by auto
  have ok: "flag_ok rc d f" using assms(2) f' by (auto simp: flags_ok_def list_all_iff)
  with checked_type_ok[OF t] have n: "fl_id n' = i" "flag_ok rc d n'" using w f' by (auto simp: flag_ok_def)
  have "flag_ok rc d' x = flag_ok rc d x" for x by (rule flag_ok_cong) (simp add: d')
  moreover have "map fl_id (flags d') = map fl_id (flags d)" using n(1) by (auto simp: d' update_where_def)
  ultimately show ?thesis using assms(2) n(2) by (auto simp: flags_ok_def d' list_all_iff set_update_where)
qed (use assms in simp)

lemma next_ids: "ch_id ` set (update_where p (\<lambda>c. c\<lparr>ch_next_id := None\<rparr>) cs) = ch_id ` set cs"
proof -
  have "map ch_id (update_where p (\<lambda>c. c\<lparr>ch_next_id := None\<rparr>) cs) = map ch_id cs" by (simp add: map_update_where)
  then show ?thesis by (metis list.set_map)
qed

lemma deleted_challenge_flags:
  "let r = snd (delete_challenge refs i d) in
     flags r = flags d \<and> challenges r = challenges d \<or>
     flags r = delete_where (\<lambda>f. fl_challenge_id f = Some i) (flags d) \<and> ch_id ` set (challenges d) - {i} \<subseteq> ch_id ` set (challenges r)"
  by (auto simp: delete_challenge_def cascade_challenge_def delete_notes_def delete_files_def delete_answers_def Let_def next_ids
      set_delete_where)

lemma flag_remove_ok:
  assumes "flag_remove d i = Inr (u, d')" "flags_ok rc d" shows "flags_ok rc d'"
proof -
  have d': "d' = d\<lparr>flags := delete_where (\<lambda>x. fl_id x = i) (flags d)\<rparr>" using assms(1) by (auto simp: flag_remove_def bindE_Inr_iff)
  have "flag_ok rc d' = flag_ok rc d" by (intro ext flag_ok_cong) (simp add: d')
  then show ?thesis using assms(2) by (auto simp: flags_ok_def d' list_all_iff set_delete_where distinct_delete_where)
qed

lemma flag_challenge_ok:
  assumes "flags_ok rc d" shows "flags_ok rc (snd (delete_challenge refs i d))"
proof -
  let ?r = "snd (delete_challenge refs i d)"
  from deleted_challenge_flags[of refs i d, unfolded Let_def] show ?thesis
  proof
    assume "flags ?r = flags d \<and> challenges ?r = challenges d"
    moreover from this have "flag_ok rc ?r = flag_ok rc d" by (intro ext flag_ok_cong) simp
    ultimately show ?thesis using assms by (simp add: flags_ok_def)
  next
    assume r: "flags ?r = delete_where (\<lambda>f. fl_challenge_id f = Some i) (flags d) \<and> ch_id ` set (challenges d) - {i} \<subseteq> ch_id ` set (challenges ?r)"
    have "flag_ok rc ?r f" if "flag_ok rc d f" "fl_challenge_id f \<noteq> Some i" for f
      using that r by (auto simp: flag_ok_def flag_writable_def known_challenge_iff)
    then show ?thesis using assms r by (auto simp: flags_ok_def list_all_iff set_delete_where distinct_delete_where)
  qed
qed

lemma flags_stay_ok:
  assumes "(flag_step rc)\<^sup>*\<^sup>* d d'" "flags_ok rc d" shows "flags_ok rc d'"
  using assms
proof (induction rule: rtranclp_induct)
  case (step y z)
  from step.hyps(2) step.IH[OF step.prems] show ?case
  proof cases
    case Other
    from flag_ok_cong[OF Other(2)] have "flag_ok rc z = flag_ok rc y" by (intro ext)
    then show ?thesis using step.IH[OF step.prems] Other(1) by (simp add: flags_ok_def)
  qed (auto intro: flag_create_ok flag_edit_ok flag_remove_ok flag_challenge_ok)
qed

lemma ok_usable:
  assumes "flag_ok rc d f" "\<And>ic p s. rc ic p \<Longrightarrow> rm ic p s \<noteq> None" shows "flag_usable rc rm f s"
proof -
  have data: "py_eq (of_opt_str (fl_data f)) (PStr ''case_insensitive'') \<longleftrightarrow> fl_data f = Some ''case_insensitive''"
    by (cases "fl_data f") auto
  from assms(1) obtain t where t: "fl_type f = Some t" "t = ''static'' \<or> t = ''regex''" by (auto simp: flag_ok_def FLAG_CLASSES_def)
  from assms(1) t obtain x where x: "fl_content f = Some x"
    by (cases "fl_content f") (auto simp: flag_ok_def flag_writable_def validate_flag_before_write_def validate_flag_content_def flag_type_def split: if_splits)
  show ?thesis using assms(1) t x data assms(2)
    by (auto simp: flag_usable_def flag_ok_def flag_writable_def validate_flag_before_write_def validate_flag_content_def flag_type_def split: if_splits)
qed

text \<open>
  Property C38: after any history of flag edits, deletions and whatever leaves flags and
  challenges alone, an attempt is answered with Correct or Incorrect and never with a
  configuration error, as long as a pattern that compiles can be matched: the checks when a flag
  is written are all that judging it needs.
\<close>

theorem answers_never_misconfigured:
  assumes "(flag_step rc)\<^sup>*\<^sup>* d d'" "flags_ok rc d" and law: "\<And>ic p s. rc ic p \<Longrightarrow> rm ic p s \<noteq> None"
  shows "\<exists>b. attempt rc rm d' challenge_id provided = Inr (b, Message (if b then ''Correct'' else ''Incorrect''))"
proof -
  let ?fs = "flags_of d' challenge_id" and ?s = "py_strip provided"
  have "flags_ok rc d'" using flags_stay_ok[OF assms(1,2)] .
  then have u: "list_all (\<lambda>f. flag_usable rc rm f ?s) ?fs"
    using ok_usable[of rc d' _ rm, OF _ law] by (auto simp: flags_ok_def flags_of_def list_all_iff)
  obtain b m where "attempt_loop rc rm ?fs ?s None = Inr (b, m)" "(m = Message ''Correct'') = b" "(m = Message ''Incorrect'') = (\<not> b)"
    using attempt_loop_result[of rc rm ?fs ?s None] u by auto
  then show ?thesis by (cases b) (auto simp: attempt_def)
qed

section \<open>Topics and their links\<close>

text \<open>A foreign key: null, or one of the ids.\<close>

definition refers :: "int set \<Rightarrow> int option \<Rightarrow> bool" where
  "refers ids r = (case r of None \<Rightarrow> True | Some i \<Rightarrow> i \<in> ids)"

lemma refers_mono: "refers A r \<Longrightarrow> A \<subseteq> B \<Longrightarrow> refers B r"
  by (auto simp: refers_def split: option.splits)

lemma refers_insert: "refers A r \<Longrightarrow> refers (insert i A) r"
  by (rule refers_mono) auto

lemma refers_delete: "refers (f ` set xs) r \<Longrightarrow> r \<noteq> Some i \<Longrightarrow> refers (f ` set (delete_where (\<lambda>x. f x = i) xs)) r"
  by (auto simp: refers_def set_delete_where split: option.splits)

definition topics_ok :: "(pyval \<Rightarrow> string \<Rightarrow> bool) \<Rightarrow> topic_state \<Rightarrow> bool" where
  "topics_ok same st = (distinct (map tp_id (ts_topics st)) \<and> list_all (\<lambda>l. refers (tp_id ` set (ts_topics st)) (tl_topic_id l)) (ts_links st) \<and>
     sorted_wrt (\<lambda>t t'. case (tp_value t, tp_value t') of (Some s, Some s') \<Rightarrow> \<not> same (PStr s') s | _ \<Rightarrow> True) (ts_topics st))"

lemma topic_of_ok:
  assumes "topic_of same load find_id st req = Inr (w, st')" "topics_ok same st"
  shows "topics_ok same st' \<and> ts_db st' = ts_db st"
proof (cases "st' = st")
  case False
  obtain n' where n: "st' = st\<lparr>ts_topics := ts_topics st @ [n']\<rparr>" "\<not> value_taken same st (tp_value n')" "tp_id n' = fresh_id tp_id (ts_topics st)"
    using assms(1) False
    by (auto simp: topic_of_def Let_def bindE_Inr_iff schema_refusing_Inr split: option.splits if_splits)
  show ?thesis using assms(2) n fresh_id_notin[of tp_id "ts_topics st"]
    by (auto simp: topics_ok_def list_all_iff sorted_wrt_append value_taken_def topic_by_value_def first_where_None
        intro: refers_mono split: option.splits)
qed (use assms in simp)

lemma known_topic_iff: "known_topic st r \<longleftrightarrow> refers (tp_id ` set (ts_topics st)) r"
  by (auto simp: known_topic_def refers_def topic_by_id_def first_where_None split: option.splits)

lemma add_link_ok: "add_link load st req t = Inr (w, st') \<Longrightarrow> topics_ok same st \<Longrightarrow> topics_ok same st'"
  by (auto simp: add_link_def Let_def topics_ok_def known_topic_iff split: if_splits sum.splits py_exc.splits)

inductive topic_step :: "(pyval \<Rightarrow> string \<Rightarrow> bool) \<Rightarrow> topic_state \<Rightarrow> topic_state \<Rightarrow> bool" for same where
  Post: "topic_step same st (snd (topic_post same load find_id load_link st body))"
| Unlink: "topic_link_delete st kind i = Inr (w, st') \<Longrightarrow> topic_step same st st'"
| Delete: "topic_delete st i = Inr (u, st') \<Longrightarrow> topic_step same st st'"

lemma topic_post_ok:
  assumes "topics_ok same st" shows "topics_ok same (snd (topic_post same load find_id load_link st body))"
proof (cases body)
  case (PDict req)
  show ?thesis
  proof (cases "topic_of same load find_id st req")
    case (Inr p)
    obtain w st' where p: "p = (w, st')" by (cases p)
    have st': "topics_ok same st'" using topic_of_ok[OF Inr[unfolded p] assms] by simp
    show ?thesis
    proof (cases w)
      case (Written t)
      then show ?thesis using PDict Inr p st' add_link_ok[of load_link st' req t _ _ same]
        by (cases "add_link load_link st' req t") (auto simp: topic_post_def)
    qed (use PDict Inr p assms in \<open>simp add: topic_post_def\<close>)
  qed (use PDict assms in \<open>simp add: topic_post_def\<close>)
qed (use assms in \<open>simp_all add: topic_post_def\<close>)

lemma sorted_wrt_delete_where: "sorted_wrt P xs \<Longrightarrow> sorted_wrt P (delete_where p xs)"
  by (simp add: delete_where_def sorted_wrt_filter)

lemma topic_delete_ok:
  assumes "topic_delete st i = Inr (u, st')" "topics_ok same st" shows "topics_ok same st'"
proof -
  have st': "st' = st\<lparr>ts_topics := delete_where (\<lambda>t. tp_id t = i) (ts_topics st), ts_links := delete_where (\<lambda>l. tl_topic_id l = Some i) (ts_links st)\<rparr>"
    using assms(1) by (auto simp: topic_delete_def bindE_Inr_iff)
  show ?thesis using assms(2)
    by (auto simp: topics_ok_def st' list_all_iff set_delete_where[of _ "ts_links st"] distinct_delete_where sorted_wrt_delete_where refers_delete)
qed

lemma topic_unlink_ok: "topic_link_delete st kind i = Inr (w, st') \<Longrightarrow> topics_ok same st \<Longrightarrow> topics_ok same st'"
  by (auto simp: topic_link_delete_def bindE_Inr_iff topics_ok_def list_all_iff set_delete_where split: if_splits)

text \<open>
  Also proved: whatever the topic endpoints do, requests that fail half way included, no two topics
  have values the database takes for equal, and every link leads to a topic that exists.
\<close>

theorem topics_stay_linked:
  assumes "(topic_step same)\<^sup>*\<^sup>* st st'" "topics_ok same st"
  shows "topics_ok same st'"
  using assms
proof (induction rule: rtranclp_induct)
  case (step y z)
  from step.hyps(2) step.IH[OF step.prems] show ?case
    by cases (auto intro: topic_post_ok topic_delete_ok topic_unlink_ok)
qed

lemma topic_without_link:
  assumes "truthy (dget req ''value'')" "topic_by_value same st (dget req ''value'') = None" "dget req ''type'' \<noteq> PStr ''challenge''"
    "load req \<lparr>tp_id = fresh_id tp_id (ts_topics st), tp_value = None\<rparr> = Inr n" "\<not> value_taken same st (tp_value n)"
  shows "fst (topic_post same load find_id load_link st (PDict req)) = Inr (Refused []) \<and>
    length (ts_topics (snd (topic_post same load find_id load_link st (PDict req)))) = length (ts_topics st) + 1"
  using assms by (simp add: topic_post_def topic_of_def Let_def schema_refusing_def add_link_def)

section \<open>Comments\<close>

definition has_target :: "db \<Rightarrow> comment \<Rightarrow> bool" where
  "has_target d m =
     (if cm_type m = ''challenge'' then (case cm_challenge_id m of None \<Rightarrow> False | Some i \<Rightarrow> challenge_by_id d i \<noteq> None) \<and> cm_user_id m = None \<and> cm_team_id m = None
      else if cm_type m = ''user'' then (case cm_user_id m of None \<Rightarrow> False | Some i \<Rightarrow> user_by_id d i \<noteq> None) \<and> cm_challenge_id m = None \<and> cm_team_id m = None
      else if cm_type m = ''team'' then (case cm_team_id m of None \<Rightarrow> False | Some i \<Rightarrow> team_by_id d i \<noteq> None) \<and> cm_challenge_id m = None \<and> cm_user_id m = None
      else cm_type m = ''standard'' \<and> cm_challenge_id m = None \<and> cm_user_id m = None \<and> cm_team_id m = None)"

lemma dget_missing: "\<not> has_key d k \<Longrightarrow> dget d k = PNone"
  by (auto simp: dget_def)

text \<open>What a checked reference leaves in the body.\<close>

lemma reference_cases:
  assumes "reference data f ex False False = Inr data'"
  obtains "\<not> has_key data f" "data' = data" | i where "has_key data f" "ex i" "data' = put f (PInt i) data"
  using assms by (auto simp: reference_def bindE_Inr_iff split: if_splits)

text \<open>
  Also proved: a comment is written by an administrator under the id of his own session, whatever
  author the request names; it has a text, and a type that says which one of challenge, user and
  team it is about, which exists, or that it is about none.
\<close>

theorem comment_has_author_and_target:
  assumes "comment_post c cs body = Inr (Body (Written m, cs'))"
  shows "cs' = cs @ [m] \<and> yes (is_admin c) \<and> se_id (cx_session c) = Some (cm_author_id m) \<and>
    py_strip (cm_content m) \<noteq> [] \<and> has_target (cx_db c) m"
proof -
  have adm: "yes (is_admin c)" using assms by (auto simp: comment_post_def admins_only_def deny_def split: if_splits)
  then obtain req data where b: "body = PDict req" and data: "comment_input (cx_db c) req = Inr data" and s: "se_id (cx_session c) = Some (cm_author_id m)"
    and m: "cs' = cs @ [m]" "cm_type m = text_of data ''type''" "cm_content m = text_of data ''content''"
      "cm_challenge_id m = int_field data ''challenge_id''" "cm_user_id m = int_field data ''user_id''" "cm_team_id m = int_field data ''team_id''"
    using assms by (auto simp: comment_post_def admins_only_def answering_db_def bindE_Inr_iff schema_refusing_Inr Let_def split: pyval.splits option.splits)
  let ?ts = "filter (has_key req) comment_targets"
  obtain r1 r2 r3 where t: "text_field req ''content'' True = Inr ()" and one: "\<not> 1 < length ?ts"
    and r: "reference req ''challenge_id'' (\<lambda>i. challenge_by_id (cx_db c) i \<noteq> None) False False = Inr r1"
      "reference r1 ''user_id'' (\<lambda>i. user_by_id (cx_db c) i \<noteq> None) False False = Inr r2"
      "reference r2 ''team_id'' (\<lambda>i. team_by_id (cx_db c) i \<noteq> None) False False = Inr r3"
    and d: "data = put ''type'' (PStr (comment_type_of ?ts)) r3"
    using data by (auto simp: comment_input_def Let_def bindE_Inr_iff split: if_splits)
  have content: "\<exists>s. dget req ''content'' = PStr s \<and> py_strip s \<noteq> []"
    using t by (auto simp: text_field_def split: pyval.splits if_splits)
  note keep = d text_of_def int_field_def m dget_missing
  have "has_target (cx_db c) m \<and> py_strip (cm_content m) \<noteq> []"
    by (rule reference_cases[OF r(1)]; rule reference_cases[OF r(2)]; rule reference_cases[OF r(3)])
      (use one content in \<open>auto simp: keep has_target_def comment_targets_def comment_type_of_def challenge_by_id_def
        split: if_splits\<close>)
  with adm s m(1) show ?thesis by simp
qed

section \<open>Brackets and their accounts\<close>

definition bracket_refs_ok :: "db \<Rightarrow> bool" where
  "bracket_refs_ok d = (distinct (map br_id (brackets d)) \<and>
     list_all (\<lambda>u. refers (br_id ` set (brackets d)) (us_bracket_id u)) (users d) \<and>
     list_all (\<lambda>t. refers (br_id ` set (brackets d)) (te_bracket_id t)) (teams d))"

inductive bracket_step :: "db \<Rightarrow> db \<Rightarrow> bool" where
  Create: "bracket_create load d body = Inr (w, d') \<Longrightarrow> bracket_step d d'"
| Edit: "bracket_edit load d i body = Inr (w, d') \<Longrightarrow> bracket_step d d'"
| Remove: "bracket_remove d i = Inr (u, d') \<Longrightarrow> bracket_step d d'"

text \<open>Also proved: no account ever stands in a bracket that has been deleted.\<close>

theorem bracket_references:
  assumes "bracket_step\<^sup>*\<^sup>* d d'" "bracket_refs_ok d" shows "bracket_refs_ok d'"
  using assms
proof (induction rule: rtranclp_induct)
  case (step y z)
  note ok = step.IH[OF step.prems]
  from step.hyps(2) show ?case
  proof cases
    case (Create load body w)
    then obtain n where "z = y \<or> br_id n = fresh_id br_id (brackets y) \<and> z = y\<lparr>brackets := brackets y @ [n]\<rparr>"
      by (auto simp: bracket_create_def new_bracket_def schema_refusing_Inr Let_def split: pyval.splits)
        (metis bracket.select_convs(1) bracket.update_convs(1) bracket.surjective)
    then show ?thesis using ok fresh_id_notin[of br_id "brackets y"]
      by (auto simp: bracket_refs_ok_def list_all_iff refers_insert)
  next
    case (Edit load i body w)
    then have "z = y \<or> (\<exists>a. z = y\<lparr>brackets := update_where (\<lambda>x. br_id x = i) (\<lambda>_. a\<lparr>br_id := i\<rparr>) (brackets y)\<rparr>)"
      by (cases body) (auto simp: bracket_edit_def bindE_Inr_iff schema_refusing_Inr Let_def)
    then show ?thesis
    proof
      assume "\<exists>a. z = y\<lparr>brackets := update_where (\<lambda>x. br_id x = i) (\<lambda>_. a\<lparr>br_id := i\<rparr>) (brackets y)\<rparr>"
      then obtain n where n: "br_id n = i" "z = y\<lparr>brackets := update_where (\<lambda>x. br_id x = i) (\<lambda>_. n) (brackets y)\<rparr>"
        by (metis bracket.select_convs(1) bracket.surjective bracket.update_convs(1))
      have "map br_id (update_where (\<lambda>x. br_id x = i) (\<lambda>_. n) (brackets y)) = map br_id (brackets y)"
        using n(1) by (auto simp: update_where_def)
      then show ?thesis using ok n(2) by (simp add: bracket_refs_ok_def flip: set_map)
    qed (use ok in simp)
  next
    case (Remove i u)
    then show ?thesis using ok
      by (auto simp: bracket_remove_def bracket_refs_ok_def bindE_Inr_iff list_all_iff distinct_delete_where set_update_where
          refers_delete) (simp_all add: refers_def)
  qed
qed

section \<open>Whose tokens\<close>

text \<open>
  Property C39: an issued token belongs to the user of the session, has not expired, and looking
  its value up afterwards finds that user until it expires.
\<close>

theorem issued_token_works:
  assumes "token_post parse candidates c body = Inr (Body (Written t, d'))"
  shows "\<exists>u e v. get_current_user c = Inr (Some u) \<and> tk_user_id t = Some (us_id u) \<and> tk_expiration t = Some e \<and> utcnow c < e \<and>
    tk_value t = Some v \<and> (now < e \<longrightarrow> lookup_user_token d' now v = Inr (user_by_id (cx_db c) (us_id u)))"
proof -
  obtain req expiration u desc where r: "body = PDict req" "token_expiration parse (utcnow c) req = Some expiration" "get_current_user c = Inr (Some u)"
    and g: "generate_user_token candidates u (utcnow c) expiration desc (cx_db c) = Some (t, d')"
    using assms
    by (auto simp: token_post_def token_guard_def require_verified_emails_def authed_only_def login_wall_def deny_def bindE_Inr_iff
        split: pyval.splits if_splits option.splits)
  have e: "utcnow c < x" if "expiration = Some x" for x
    using r(2) that by (auto simp: token_expiration_def split: pyval.splits if_splits option.splits)
  obtain v where v: "first_where (\<lambda>t. is_user_token t \<and> tk_value t = Some v) (tokens (cx_db c)) = None"
    and t: "tk_value t = Some v" "tk_user_id t = Some (us_id u)" "is_user_token t" "d' = (cx_db c)\<lparr>tokens := tokens (cx_db c) @ [t]\<rparr>"
      "tk_expiration t = Some (case expiration of None \<Rightarrow> utcnow c + token_lifetime | Some e \<Rightarrow> e)"
    using g by (auto simp: generate_user_token_def is_user_token_def Let_def split: option.splits dest!: first_where_SomeD)
  have "first_where (\<lambda>t. is_user_token t \<and> tk_value t = Some v) (tokens (cx_db c) @ [t]) = Some t"
    using v t(1,3) by (simp add: first_where_append)
  then have "lookup_user_token d' now v = Inr (user_by_id (cx_db c) (us_id u))" if "now < (case expiration of None \<Rightarrow> utcnow c + token_lifetime | Some e \<Rightarrow> e)"
    using that t by (simp add: lookup_user_token_def user_by_id_def)
  then show ?thesis using r(3) t e by (auto simp: token_lifetime_def split: option.splits)
qed

text \<open>Also proved: nobody but an administrator deletes a token of somebody else.\<close>

theorem token_delete_own:
  assumes "token_delete c i = Inr (Body (x, d'))" "\<not> yes (is_admin c)"
  shows "\<exists>u t. get_current_user c = Inr (Some u) \<and> t \<in> set (tokens (cx_db c)) \<and> tk_id t = i \<and> tk_user_id t = Some (us_id u) \<and>
    d' = (cx_db c)\<lparr>tokens := delete_where (\<lambda>x. tk_id x = i) (tokens (cx_db c))\<rparr>"
  using assms
  by (auto simp: token_delete_def token_guard_def require_verified_emails_def authed_only_def login_wall_def deny_def bindE_Inr_iff
      first_or_404_def own_token_def split: if_splits option.splits dest!: first_where_SomeD)

text \<open>The views of tokens know two roles only.\<close>

lemma jury_token_detail:
  assumes "token_guard c (Inr (Body ())) = Inr (Body ())" "get_current_user_type c (Some ''user'') = Some ''jury''" "\<not> yes (is_admin c)"
    "own_token c (se_id (cx_session c)) i = Some t" "se_id (cx_session c) \<noteq> None"
  shows "token_get c i = Inl KeyError"
  using assms
  by (auto simp: token_get_def token_guard_def require_verified_emails_def authed_only_def login_wall_def deny_def first_or_404_def token_views_def
      split: if_splits)

section \<open>Witnesses\<close>

definition content_ctx :: ctx where
  "content_ctx = (let c = sample_ctx ((sample_user 1 None)\<lparr>us_type := Some ''admin''\<rparr>) (Some 1) ''POST'' (Some ''n'') in
     c\<lparr>cx_db := (cx_db c)\<lparr>challenges := [sample_challenge 3 (Some 100)]\<rparr>\<rparr>)"

definition load_flag :: "dict \<Rightarrow> flag \<Rightarrow> py_exc + flag" where
  "load_flag data f = Inr (f\<lparr>fl_challenge_id := int_field data ''challenge_id'', fl_type := Some (text_of data ''type''), fl_content := Some (text_of data ''content'')\<rparr>)"

definition flag_body :: pyval where
  "flag_body = PDict [(''challenge_id'', PInt 3), (''content'', PStr ''key'')]"

definition flagged_db :: db where
  "flagged_db = (case flag_create (\<lambda>_ _. True) load_flag (cx_db content_ctx) flag_body of Inr (_, d) \<Rightarrow> d | Inl _ \<Rightarrow> empty_db)"

lemma flag_body_created: "\<exists>w. flag_create (\<lambda>_ _. True) load_flag (cx_db content_ctx) flag_body = Inr (w, flagged_db)"
proof -
  have "(case flag_create (\<lambda>_ _. True) load_flag (cx_db content_ctx) flag_body of Inr (Written f, d) \<Rightarrow> True | _ \<Rightarrow> False)" by code_simp
  then show ?thesis
    by (cases "flag_create (\<lambda>_ _. True) load_flag (cx_db content_ctx) flag_body") (auto simp: flagged_db_def)
qed

theorem answers_never_misconfigured_witness:
  "\<exists>b. attempt (\<lambda>_ _. True) (\<lambda>_ _ _. Some None) flagged_db 3 ''key'' = Inr (b, Message (if b then ''Correct'' else ''Incorrect''))"
proof -
  obtain w where "flag_create (\<lambda>_ _. True) load_flag (cx_db content_ctx) flag_body = Inr (w, flagged_db)" using flag_body_created ..
  from flag_step.Create[OF this] have s: "(flag_step (\<lambda>_ _. True))\<^sup>*\<^sup>* (cx_db content_ctx) flagged_db" by (rule r_into_rtranclp)
  have ok: "flags_ok (\<lambda>_ _. True) (cx_db content_ctx)" by code_simp
  show ?thesis by (rule answers_never_misconfigured[OF s ok]) simp
qed

definition text_same :: "pyval \<Rightarrow> string \<Rightarrow> bool" where
  "text_same v s = (v = PStr s)"

definition load_topic :: "dict \<Rightarrow> topic \<Rightarrow> py_exc + topic" where
  "load_topic data t = Inr (t\<lparr>tp_value := Some (text_of data ''value'')\<rparr>)"

definition load_topic_link :: "dict \<Rightarrow> topic_link \<Rightarrow> py_exc + topic_link" where
  "load_topic_link data l = Inr (l\<lparr>tl_challenge_id := int_field data ''challenge_id'', tl_topic_id := int_field data ''topic_id''\<rparr>)"

definition one_topic :: topic_state where
  "one_topic = snd (topic_post text_same load_topic (\<lambda>_. None) load_topic_link \<lparr>ts_db = cx_db content_ctx, ts_topics = [], ts_links = []\<rparr>
     (PDict [(''value'', PStr ''web''), (''type'', PStr ''challenge''), (''challenge_id'', PInt 3)]))"

theorem topics_stay_linked_witness: "topics_ok text_same one_topic \<and> length (ts_links one_topic) = 1"
proof -
  have "(topic_step text_same)\<^sup>*\<^sup>* \<lparr>ts_db = cx_db content_ctx, ts_topics = [], ts_links = []\<rparr> one_topic"
    unfolding one_topic_def by (rule r_into_rtranclp) (rule topic_step.Post)
  moreover have "topics_ok text_same \<lparr>ts_db = cx_db content_ctx, ts_topics = [], ts_links = []\<rparr>" by (simp add: topics_ok_def)
  ultimately have "topics_ok text_same one_topic" by (rule topics_stay_linked)
  moreover have "length (ts_links one_topic) = 1" by code_simp
  ultimately show ?thesis by simp
qed

definition challenge_comment :: "py_exc + (comment written \<times> comment list) reply" where
  "challenge_comment = comment_post content_ctx [] (PDict [(''content'', PStr ''nice''), (''challenge_id'', PStr ''3''), (''author_id'', PInt 9)])"

theorem comment_has_author_and_target_witness:
  "\<exists>m cs. challenge_comment = Inr (Body (Written m, cs)) \<and> cm_author_id m = 1 \<and> has_target (cx_db content_ctx) m"
proof -
  have "(case challenge_comment of Inr (Body (Written m, cs)) \<Rightarrow> True | _ \<Rightarrow> False)" and s: "se_id (cx_session content_ctx) = Some 1" by code_simp+
  then obtain m cs where m: "challenge_comment = Inr (Body (Written m, cs))" by (auto split: sum.splits reply.splits written.splits prod.splits)
  from comment_has_author_and_target[OF m[unfolded challenge_comment_def]] s m show ?thesis by auto
qed

theorem bracket_references_witness:
  "\<exists>d. bracket_remove ((cx_db content_ctx)\<lparr>brackets := [\<lparr>br_id = 4, br_name = Some ''x'', br_description = None, br_type = Some ''users''\<rparr>],
     users := [(sample_user 1 None)\<lparr>us_bracket_id := Some 4\<rparr>]\<rparr>) 4 = Inr ((), d) \<and> bracket_refs_ok d"
proof -
  let ?d = "(cx_db content_ctx)\<lparr>brackets := [\<lparr>br_id = 4, br_name = Some ''x'', br_description = None, br_type = Some ''users''\<rparr>],
     users := [(sample_user 1 None)\<lparr>us_bracket_id := Some 4\<rparr>]\<rparr>"
  obtain d where d: "bracket_remove ?d 4 = Inr ((), d)" by (simp add: bracket_remove_def bracket_by_id_def first_or_404_def)
  have "bracket_refs_ok ?d" by code_simp
  with bracket_references[OF r_into_rtranclp[of bracket_step, OF bracket_step.Remove[OF d]]] d show ?thesis by blast
qed

definition issued :: "py_exc + (token written \<times> db) reply" where
  "issued = token_post (\<lambda>_. None) [''v1''] content_ctx (PDict [])"

theorem issued_token_works_witness:
  "\<exists>t d. issued = Inr (Body (Written t, d)) \<and> tk_user_id t = Some 1 \<and> tk_value t \<noteq> None"
proof -
  have g: "authed content_ctx = True" "truthy (cx_conf content_ctx ''verify_emails'') = False"
    "first_where (\<lambda>t. is_user_token t \<and> tk_value t = Some ''v1'') (tokens (cx_db content_ctx)) = None"
    "se_hash (cx_session content_ctx) = None" and u: "map_option us_id (session_user content_ctx) = Some 1" by code_simp+
  from u obtain x where x: "session_user content_ctx = Some x" by auto
  have "get_current_user content_ctx = Inr (Some x)" using g x by (simp add: get_current_user_def stale_session_def)
  with g obtain t d where m: "issued = Inr (Body (Written t, d))"
    by (simp add: issued_def token_post_def token_guard_def require_verified_emails_def authed_only_def login_wall_def token_expiration_def
        dget_def generate_user_token_def Let_def)
  from issued_token_works[OF m[unfolded issued_def]] obtain x where x: "get_current_user content_ctx = Inr (Some x)" "tk_user_id t = Some (us_id x)" "tk_value t \<noteq> None" by blast
  from x(1) have "session_user content_ctx = Some x" by (auto simp: get_current_user_def split: if_splits option.splits)
  with u m x show ?thesis by auto
qed

definition player_ctx :: ctx where
  "player_ctx = (let c = sample_ctx (sample_user 1 None) (Some 1) ''DELETE'' (Some ''n'') in
     c\<lparr>cx_db := (cx_db c)\<lparr>tokens := [\<lparr>tk_id = 5, tk_type = Some ''user'', tk_user_id = Some 1, tk_created = None, tk_expiration = None,
       tk_description = None, tk_value = Some ''v''\<rparr>]\<rparr>\<rparr>)"

theorem token_delete_own_witness: "\<exists>d. token_delete player_ctx 5 = Inr (Body ((), d)) \<and> tokens d = []"
proof -
  have g: "authed player_ctx = True" "truthy (cx_conf player_ctx ''verify_emails'') = False" "se_hash (cx_session player_ctx) = None"
    and u: "map_option us_id (session_user player_ctx) = Some 1" and a: "\<not> yes (is_admin player_ctx)"
    and t: "map_option tk_id (own_token player_ctx (Some 1) 5) = Some 5" by code_simp+
  from u obtain x where x: "session_user player_ctx = Some x" "us_id x = 1" by auto
  have "get_current_user player_ctx = Inr (Some x)" using g x by (simp add: get_current_user_def stale_session_def)
  with g t x a obtain y d where m: "token_delete player_ctx 5 = Inr (Body (y, d))"
    by (auto simp: token_delete_def token_guard_def require_verified_emails_def authed_only_def login_wall_def first_or_404_def)
  have "delete_where (\<lambda>x. tk_id x = 5) (tokens (cx_db player_ctx)) = []" by code_simp
  with token_delete_own[OF m a] m show ?thesis by auto
qed

end
