(* ===== verification/ConfigApi.thy ===== *)
theory ConfigApi imports ContentApi Json "HOL-Library.Sublist" begin

text \<open>
  The configuration API of \<^verbatim>\<open>api/v1/config.py\<close> and the schema that checks its values
  (\<^verbatim>\<open>schemas/config.py\<close>, \<^verbatim>\<open>schemas/fields.py\<close>), over the memoised store of \<open>ConfigStore\<close>.
  \<open>themes\<close> are the installed themes, \<open>extra\<close> the keys the application adds and \<open>scalar\<close> what the text column holds
  of a boolean or a float; \<open>load\<close> is the library's conversion of the checked fields of a custom field.
  The handlers compare keys character by character, the queries by the collation of the column (\<open>ck\<close>).
\<close>

section \<open>Kinds of keys\<close>

definition CONFIG_API_KEYS :: "string list" where
  "CONFIG_API_KEYS =
    [''account_visibility'', ''bracket_view_other'', ''contestant_registration_enabled'', ''captain_only_start_challenge'', ''captain_only_submit_challenge'',
     ''challenge_visibility'', ''challenge_difficulty_visibility'', ''score_visibility'', ''team_creation'',
     ''ctf_banner'', ''ctf_description'', ''ctf_logo'', ''ctf_name'', ''ctf_small_icon'', ''ctf_theme'', ''ctf_version'',
     ''default_locale'', ''domain_whitelist'', ''end'', ''freeze'', ''hidden_categories'', ''html_sanitization'',
     ''incorrect_submissions_per_min'', ''limit_challenges'', ''mail_password'', ''mail_port'', ''mail_server'',
     ''mail_ssl'', ''mail_tls'', ''mail_useauth'', ''mail_username'', ''mailfrom_addr'', ''mailgun_api_key'', ''mailgun_base_url'',
     ''name_changes'', ''next_update_check'', ''num_teams'', ''num_users'', ''oauth_api_endpoint'', ''oauth_authorization_endpoint'',
     ''oauth_client_id'', ''oauth_client_secret'', ''oauth_token_endpoint'', ''password_change_alert_body'',
     ''password_change_alert_subject'', ''password_reset_body'', ''password_reset_subject'', ''paused'', ''prevent_name_change'',
     ''privacy_text'', ''privacy_url'', ''registration_visibility'', ''setup'', ''social_share_solve_template'', ''start'',
     ''successful_registration_email_body'', ''successful_registration_email_subject'', ''team_disbanding'',
     ''team_size'', ''theme_footer'', ''theme_header'', ''theme_settings'', ''tos_text'', ''tos_url'', ''user_creation_email_body'',
     ''user_creation_email_subject'', ''user_mode'', ''verification_email_body'', ''verification_email_subject'',
     ''verify_emails'', ''version_latest'', ''view_after_ctf'', ''robots_txt'',
     ''kypo_base_url'', ''kypo_username'', ''kypo_password'', ''kypo_client_id'', ''kypo_keycloak_url'',
     ''kypo_realm'', ''kypo_admin_username'', ''kypo_admin_password'', ''kypo_verify_ssl'']"

definition INTEGER_CONFIGS :: "string list" where
  "INTEGER_CONFIGS = [''team_size'', ''num_teams'', ''num_users'', ''incorrect_submissions_per_min'', ''limit_challenges'', ''mail_port'',
     ''start'', ''end'', ''freeze'']"

definition CONFIG_FORM_METADATA :: "string list" where
  "CONFIG_FORM_METADATA = [''nonce'', ''submit'', ''start_timezone'', ''end_timezone'', ''freeze_timezone'']"

definition BOOLEAN_CONFIGS :: "string list" where
  "BOOLEAN_CONFIGS = [''bracket_view_other'', ''contestant_registration_enabled'', ''captain_only_start_challenge'',
     ''captain_only_submit_challenge'', ''team_creation'', ''name_changes'', ''html_sanitization'', ''mail_ssl'', ''mail_tls'', ''mail_useauth'',
     ''paused'', ''prevent_name_change'', ''setup'', ''verify_emails'', ''view_after_ctf'', ''kypo_verify_ssl'']"

definition ENUM_CONFIGS :: "(string \<times> string list) list" where
  "ENUM_CONFIGS = [(''account_visibility'', [''public'', ''private'', ''admins'']),
     (''challenge_visibility'', [''public'', ''private'', ''admins'']), (''score_visibility'', [''public'', ''private'', ''hidden'']),
     (''registration_visibility'', [''public'', ''private'', ''mlc'']), (''challenge_difficulty_visibility'', [''enabled'', ''disabled'']),
     (''user_mode'', [''users'', ''teams'']), (''team_disbanding'', [''inactive_only'', ''disabled''])]"

definition PROTECTED_CONFIG_KEYS :: "string list" where
  "PROTECTED_CONFIG_KEYS = [''user_mode'', ''registration_code'', ''oauth_client_id'', ''oauth_client_secret'']"

section \<open>The schema\<close>

definition bad_value :: "py_exc + 'a" where
  "bad_value = Inl (ValidationError ''Invalid config value'' [''value''])"

text \<open>\<open>value in (True, False, 0, 1, "0", "1", "true", "false", "on")\<close> for what is a string, an integer or a boolean.\<close>

fun boolean_value :: "pyval \<Rightarrow> bool option" where
  "boolean_value (PBool b) = Some b"
| "boolean_value (PInt i) = (if i = 1 then Some True else if i = 0 then Some False else None)"
| "boolean_value (PStr s) = (if s \<in> {''1'', ''true'', ''on''} then Some True else if s \<in> {''0'', ''false''} then Some False else None)"
| "boolean_value _ = None"

definition check_boolean :: "string \<Rightarrow> dict \<Rightarrow> py_exc + dict" where
  "check_boolean key data = (if key \<in> set BOOLEAN_CONFIGS \<and> dget data ''value'' \<noteq> PNone
     then (case boolean_value (dget data ''value'') of
         None \<Rightarrow> bad_value
       | Some b \<Rightarrow> Inr (put ''value'' (PStr (if b then ''true'' else ''false'')) data))
     else Inr data)"

definition text_key :: "string \<Rightarrow> bool" where
  "text_key key = (key \<in> set CONFIG_API_KEYS \<and> key \<notin> set INTEGER_CONFIGS \<and> key \<notin> set BOOLEAN_CONFIGS \<and> key \<notin> fst ` set ENUM_CONFIGS)"

fun integer_value :: "pyval \<Rightarrow> int option" where
  "integer_value (PInt i) = (if 0 \<le> i \<and> i \<le> 2147483647 then Some i else None)"
| "integer_value (PStr s) = (if length s \<le> 10 \<and> py_isdecimal s \<and> digits_value s \<le> 2147483647 then Some (digits_value s) else None)"
| "integer_value _ = None"

definition check_integer :: "string \<Rightarrow> dict \<Rightarrow> py_exc + unit" where
  "check_integer key data = (if key \<in> set INTEGER_CONFIGS \<and> dget data ''value'' \<noteq> PNone \<and> dget data ''value'' \<noteq> PStr []
     then (case integer_value (dget data ''value'') of
         None \<Rightarrow> bad_value
       | Some i \<Rightarrow> if key = ''mail_port'' \<and> \<not> (1 \<le> i \<and> i \<le> 65535) then bad_value else Inr ())
     else Inr ())"

definition check_theme_settings :: "string \<Rightarrow> dict \<Rightarrow> py_exc + unit" where
  "check_theme_settings key data = (if key = ''theme_settings'' \<and> dget data ''value'' \<noteq> PNone
     then (case dget data ''value'' of
         PStr s \<Rightarrow> (case json_loads s of Some (PDict _) \<Rightarrow> Inr () | _ \<Rightarrow> bad_value)
       | _ \<Rightarrow> bad_value)
     else Inr ())"

text \<open>\<open>validate_input\<close>: \<open>old\<close> is the key of the row that is changed.\<close>

definition config_input :: "string list \<Rightarrow> string list \<Rightarrow> string option \<Rightarrow> dict \<Rightarrow> py_exc + string \<times> dict" where
  "config_input themes extra old data = (case dget_default data ''key'' (of_opt_str old) of
     PStr key \<Rightarrow> (if key \<notin> set CONFIG_API_KEYS \<and> key \<notin> set extra then Inl (ValidationError ''Unknown config key'' [''key''])
       else if key = ''ctf_theme'' \<and> dget data ''value'' \<noteq> PNone \<and> dget data ''value'' \<notin> PStr ` set themes then bad_value
       else if (case map_of ENUM_CONFIGS key of None \<Rightarrow> False | Some options \<Rightarrow> dget data ''value'' \<notin> PStr ` set options) then bad_value
       else bindE (check_boolean key data) (\<lambda>d1.
         if text_key key \<and> dget data ''value'' \<noteq> PNone \<and> \<not> is_str (dget data ''value'') then bad_value
         else bindE (check_integer key d1) (\<lambda>_. bindE (check_theme_settings key d1) (\<lambda>_. Inr (key, d1)))))
   | _ \<Rightarrow> Inl (ValidationError ''Unknown config key'' [''key'']))"

text \<open>The length of the text in UTF-8.\<close>

definition utf8_length :: "string \<Rightarrow> nat" where
  "utf8_length s = sum_list (map (\<lambda>c. if py_ord c < 128 then 1 else 2) s)"

definition config_value :: "pyval \<Rightarrow> py_exc + pyval" where
  "config_value v = (case v of PList _ \<Rightarrow> bad_value | PDict _ \<Rightarrow> bad_value
     | PStr s \<Rightarrow> (if 65535 < utf8_length s then bad_value else Inr v) | _ \<Rightarrow> Inr v)"

definition config_load :: "string list \<Rightarrow> string list \<Rightarrow> string option \<Rightarrow> dict \<Rightarrow> py_exc + string \<times> pyval" where
  "config_load themes extra old data = bindE (config_input themes extra old data) (\<lambda>(key, d1).
     if \<not> has_key d1 ''value'' then bad_value else bindE (config_value (dget d1 ''value'')) (\<lambda>v. Inr (key, v)))"

text \<open>The text column: the driver writes an integer in decimal.\<close>

definition column_text :: "(pyval \<Rightarrow> string) \<Rightarrow> pyval \<Rightarrow> string option" where
  "column_text scalar v = (case v of PNone \<Rightarrow> None | PStr s \<Rightarrow> Some s | PInt i \<Rightarrow> Some (show_int i) | _ \<Rightarrow> Some (scalar v))"

section \<open>The endpoints\<close>

definition cleared :: "config_row list \<Rightarrow> config_store" where
  "cleared rows = \<lparr>cs_rows = rows, cs_cache = []\<rparr>"

definition config_columns :: "string \<Rightarrow> (config_row \<Rightarrow> cell) option" where
  "config_columns f = (if f = ''id'' then Some (\<lambda>x. IntCell (Some (cfg_id x)))
     else if f = ''key'' then Some (\<lambda>x. TextCell (Some (cfg_key x)))
     else if f = ''value'' then Some (\<lambda>x. TextCell (cfg_value x)) else None)"

definition named_text :: "(string \<Rightarrow> string) \<Rightarrow> string option \<Rightarrow> string option \<Rightarrow> bool" where
  "named_text ck arg column = (case arg of None \<Rightarrow> True | Some a \<Rightarrow> (case column of None \<Rightarrow> False | Some x \<Rightarrow> ck x = ck a))"

definition config_list where
  "config_list ck num_eq like c st key_arg value_arg q field = admins_only c
     (Inr (Body (filter (\<lambda>r. cfg_key r \<notin> set PROTECTED_CONFIG_KEYS)
       (filter (\<lambda>r. named_text ck key_arg (Some (cfg_key r)) \<and> named_text ck value_arg (cfg_value r))
         (listed_rows num_eq like config_columns [] q field (cs_rows st))))))"

definition config_create ::
  "string list \<Rightarrow> string list \<Rightarrow> (pyval \<Rightarrow> string) \<Rightarrow> config_store \<Rightarrow> pyval \<Rightarrow> py_exc + config_row written \<times> config_store" where
  "config_create themes extra scalar st body = (case body of
     PDict req \<Rightarrow>
       if (case dget req ''key'' of PList _ \<Rightarrow> True | PDict _ \<Rightarrow> True | _ \<Rightarrow> False) then Inl TypeError
       else if dget req ''key'' \<in> PStr ` set PROTECTED_CONFIG_KEYS then Inl (HTTPAbort 404)
       else schema_refusing st (config_load themes extra None req) (\<lambda>(key, v).
         let r = \<lparr>cfg_id = fresh_id cfg_id (cs_rows st), cfg_key = key, cfg_value = column_text scalar v\<rparr> in
         Inr (Written r, cleared (cs_rows st @ [r])))
   | _ \<Rightarrow> Inr (Refused ''_schema'', st))"

definition config_post where
  "config_post themes extra scalar c st body = admins_only c (answering_db (config_create themes extra scalar st body))"

text \<open>The whole batch is checked first, then written key by key.\<close>

definition config_batch ::
  "(string \<Rightarrow> string) \<Rightarrow> string list \<Rightarrow> string list \<Rightarrow> (pyval \<Rightarrow> string) \<Rightarrow> config_store \<Rightarrow> pyval \<Rightarrow> py_exc + (string \<times> pyval) list written \<times> config_store" where
  "config_batch ck themes extra scalar st body = (case body of
     PDict form \<Rightarrow> let req = filter (\<lambda>p. fst p \<notin> set CONFIG_FORM_METADATA) form in
       if list_ex (\<lambda>p. fst p \<in> set PROTECTED_CONFIG_KEYS) req then Inl (HTTPAbort 404)
       else schema_refusing st (mapE (\<lambda>p. config_load themes extra None [(''key'', PStr (fst p)), (''value'', snd p)]) req) (\<lambda>loaded.
         Inr (Written loaded, cleared (foldl (\<lambda>rows (key, v). write_row ck rows key (column_text scalar v)) (cs_rows st) loaded)))
   | _ \<Rightarrow> Inr (Refused ''_schema'', st))"

definition config_bulk_patch where
  "config_bulk_patch ck themes extra scalar c st body = admins_only c (answering_db (config_batch ck themes extra scalar st body))"

definition config_row_of :: "(string \<Rightarrow> string) \<Rightarrow> config_store \<Rightarrow> string \<Rightarrow> config_row option" where
  "config_row_of ck st key = first_where (\<lambda>r. ck (cfg_key r) = ck key) (cs_rows st)"

definition config_get where
  "config_get ck c st key = admins_only c
     (if key \<in> set PROTECTED_CONFIG_KEYS then Inl (HTTPAbort 404)
      else bindE (first_or_404 (config_row_of ck st key)) (\<lambda>r. Inr (Body r)))"

text \<open>A row found under another spelling takes the spelling of the request.\<close>

definition respelled :: "(string \<Rightarrow> string) \<Rightarrow> config_row list \<Rightarrow> string \<Rightarrow> config_row list" where
  "respelled ck rows key = set_first (\<lambda>r. ck (cfg_key r) = ck key) (\<lambda>r. r\<lparr>cfg_key := key\<rparr>) rows"

definition config_edit ::
  "(string \<Rightarrow> string) \<Rightarrow> string list \<Rightarrow> string list \<Rightarrow> (pyval \<Rightarrow> string) \<Rightarrow> config_store \<Rightarrow> string \<Rightarrow> pyval \<Rightarrow> py_exc + (string \<times> pyval) written \<times> config_store" where
  "config_edit ck themes extra scalar st key body =
     (if key \<in> set PROTECTED_CONFIG_KEYS then Inl (HTTPAbort 404)
      else case body of
        PDict req \<Rightarrow> if \<not> has_key req ''value'' \<or> (has_key req ''key'' \<and> \<not> py_eq (dget req ''key'') (PStr key)) then Inr (Refused ''value'', st)
          else schema_refusing st (config_load themes extra (Some key) (put ''key'' (PStr key) req)) (\<lambda>(k, v).
            Inr (Written (k, v), cleared (write_row ck (respelled ck (cs_rows st) key) key (column_text scalar v))))
      | _ \<Rightarrow> Inr (Refused ''value'', st))"

definition config_patch where
  "config_patch ck themes extra scalar c st key body = admins_only c (answering_db (config_edit ck themes extra scalar st key body))"

definition config_remove :: "(string \<Rightarrow> string) \<Rightarrow> config_store \<Rightarrow> string \<Rightarrow> py_exc + unit \<times> config_store" where
  "config_remove ck st key =
     (if key \<in> set PROTECTED_CONFIG_KEYS then Inl (HTTPAbort 404)
      else bindE (first_or_404 (config_row_of ck st key)) (\<lambda>r. Inr ((), cleared (delete_where (\<lambda>x. cfg_id x = cfg_id r) (cs_rows st)))))"

definition config_delete where
  "config_delete ck c st key = admins_only c (answering_db (config_remove ck st key))"

section \<open>Custom fields\<close>

definition field_pre_load :: "field_def option \<Rightarrow> dict \<Rightarrow> py_exc + unit" where
  "field_pre_load old data =
     bindE (if old = None \<or> has_key data ''type'' then
         (if dget data ''type'' \<notin> {PStr ''user'', PStr ''team''} then Inl (ValidationError ''Field type must be user or team'' [''type''])
          else case old of None \<Rightarrow> Inr ()
            | Some f \<Rightarrow> if \<not> py_eq (dget data ''type'') (of_opt_str (fd_type f)) then Inl (ValidationError ''Cannot change field owner type'' [''type'']) else Inr ())
       else Inr ()) (\<lambda>_.
     bindE (text_field data ''name'' (old = None)) (\<lambda>_.
     if (old = None \<or> has_key data ''field_type'') \<and> dget data ''field_type'' \<notin> {PStr ''text'', PStr ''boolean'', PStr ''select''}
     then Inl (ValidationError ''Invalid field input type'' [''field_type'']) else Inr ()))"

definition field_columns :: "string \<Rightarrow> (field_def \<Rightarrow> cell) option" where
  "field_columns f = (if f = ''type'' then Some (\<lambda>x. TextCell (fd_type x))
     else if f = ''description'' then Some (\<lambda>x. TextCell (fd_description x)) else None)"

definition field_list where
  "field_list num_eq like c kind q field = admins_only c (case kind of
       Some k \<Rightarrow> if k = ''user'' \<or> k = ''team''
         then Inr (Body (Written (listed_rows num_eq like field_columns [(''type'', TextCell (Some k))] q field (field_defs (cx_db c)))))
         else Inr (Body (Refused ''type''))
     | None \<Rightarrow> Inr (Body (Refused ''type'')))"

definition new_field :: "db \<Rightarrow> field_def" where
  "new_field d = \<lparr>fd_id = fresh_id fd_id (field_defs d), fd_name = None, fd_type = None, fd_field_type = None, fd_description = None,
     fd_required = Some False, fd_public = Some False, fd_editable = Some False\<rparr>"

definition field_create :: "(dict \<Rightarrow> field_def \<Rightarrow> py_exc + field_def) \<Rightarrow> db \<Rightarrow> pyval \<Rightarrow> py_exc + field_def written \<times> db" where
  "field_create load d body = (case body of
     PDict req \<Rightarrow> schema_refusing d (bindE (field_pre_load None req) (\<lambda>_. load req (new_field d))) (\<lambda>n.
       let n' = n\<lparr>fd_id := fd_id (new_field d)\<rparr> in Inr (Written n', d\<lparr>field_defs := field_defs d @ [n']\<rparr>))
   | _ \<Rightarrow> Inr (Refused ''_schema'', d))"

definition field_post where
  "field_post load c body = admins_only c (answering_db (field_create load (cx_db c) body))"

definition field_by_id :: "db \<Rightarrow> int \<Rightarrow> field_def option" where
  "field_by_id d i = first_where (\<lambda>f. fd_id f = i) (field_defs d)"

definition field_get where
  "field_get c i = admins_only c (bindE (first_or_404 (field_by_id (cx_db c) i)) (\<lambda>f. Inr (Body f)))"

definition field_edit :: "(dict \<Rightarrow> field_def \<Rightarrow> py_exc + field_def) \<Rightarrow> db \<Rightarrow> int \<Rightarrow> pyval \<Rightarrow> py_exc + field_def written \<times> db" where
  "field_edit load d i body = bindE (first_or_404 (field_by_id d i)) (\<lambda>f. case body of
     PDict req \<Rightarrow> schema_refusing d (bindE (field_pre_load (Some f) req) (\<lambda>_. load req f)) (\<lambda>n.
       let n' = n\<lparr>fd_id := i\<rparr> in Inr (Written n', d\<lparr>field_defs := update_where (\<lambda>x. fd_id x = i) (\<lambda>_. n') (field_defs d)\<rparr>))
   | _ \<Rightarrow> Inr (Refused ''_schema'', d))"

definition field_patch where
  "field_patch load c i body = admins_only c (answering_db (field_edit load (cx_db c) i body))"

text \<open>The entries of a deleted field go with it (\<open>ON DELETE CASCADE\<close>).\<close>

definition field_remove :: "db \<Rightarrow> int \<Rightarrow> py_exc + unit \<times> db" where
  "field_remove d i = bindE (first_or_404 (field_by_id d i)) (\<lambda>f. Inr ((), d\<lparr>
     field_defs := delete_where (\<lambda>x. fd_id x = i) (field_defs d),
     field_entries := delete_where (\<lambda>e. fe_field_id e = Some i) (field_entries d)\<rparr>))"

definition field_delete where
  "field_delete c i = admins_only c (answering_db (field_remove (cx_db c) i))"

section \<open>Stored values have their type\<close>

definition integer_text :: "string \<Rightarrow> string \<Rightarrow> bool" where
  "integer_text key s = (s = [] \<or> (py_isdecimal s \<and> length s \<le> 10 \<and> digits_value s \<le> 2147483647 \<and>
     (key = ''mail_port'' \<longrightarrow> 1 \<le> digits_value s \<and> digits_value s \<le> 65535)))"

definition typed_value :: "string \<Rightarrow> string option \<Rightarrow> bool" where
  "typed_value key v = ((key \<in> set BOOLEAN_CONFIGS \<longrightarrow> v \<in> {None, Some ''true'', Some ''false''}) \<and>
     (key \<in> set INTEGER_CONFIGS \<longrightarrow> (case v of None \<Rightarrow> True | Some s \<Rightarrow> integer_text key s)) \<and>
     (case map_of ENUM_CONFIGS key of None \<Rightarrow> True | Some options \<Rightarrow> v \<in> Some ` set options))"

lemma length_show_nat: "n < 10 ^ k \<Longrightarrow> 0 < k \<Longrightarrow> length (show_nat n) \<le> k"
proof (induction n arbitrary: k rule: show_nat.induct)
  case (1 n)
  show ?case
  proof (cases "n < 10")
    case True
    with 1(3) show ?thesis by (subst show_nat.simps) simp
  next
    case False
    with 1(2,3) obtain j where j: "k = Suc j" "0 < j" by (cases k; cases "k - 1") auto
    then have "n div 10 < 10 ^ j" using 1(2) by (simp add: less_mult_imp_div_less mult.commute)
    with 1(1)[OF False _ j(2)] False j show ?thesis by (subst show_nat.simps) simp
  qed
qed

lemma integer_value_text:
  assumes "integer_value v = Some i" "key = ''mail_port'' \<Longrightarrow> 1 \<le> i \<and> i \<le> 65535"
  shows "\<exists>s. column_text scalar v = Some s \<and> integer_text key s"
proof (cases v)
  case (PInt j)
  with assms have i: "v = PInt i" "0 \<le> i" "i \<le> 2147483647" by (auto split: if_splits)
  then have "nat i < 10 ^ 10" by simp
  then have "length (show_nat (nat i)) \<le> 10" by (rule length_show_nat) simp
  moreover have "digits_value (show_nat (nat i)) = i" using i by (simp add: digits_value_show_nat)
  ultimately show ?thesis using i assms(2) show_nat_decimal[of "nat i"]
    by (simp add: column_text_def integer_text_def show_int_def)
next
  case (PStr s)
  with assms show ?thesis by (auto simp: column_text_def integer_text_def split: if_splits)
qed (use assms in auto)

lemma enum_not_boolean: "list_all (\<lambda>p. fst p \<notin> set BOOLEAN_CONFIGS) ENUM_CONFIGS"
  by code_simp

lemma check_boolean_value:
  "check_boolean key data = Inr d1 \<Longrightarrow> if key \<in> set BOOLEAN_CONFIGS
     then dget d1 ''value'' \<in> {PNone, PStr ''true'', PStr ''false''} else d1 = data"
  by (auto simp: check_boolean_def bad_value_def split: if_splits option.splits)

lemma load_typed:
  assumes "config_load themes extra old data = Inr (key, v)"
  shows "typed_value key (column_text scalar v)"
proof -
  from assms obtain d1 where d1: "config_input themes extra old data = Inr (key, d1)" "v = dget d1 ''value''"
    by (auto simp: config_load_def config_value_def bindE_Inr_iff bad_value_def split: if_splits pyval.splits)
  then have e: "case map_of ENUM_CONFIGS key of None \<Rightarrow> True | Some options \<Rightarrow> dget data ''value'' \<in> PStr ` set options"
    and b: "check_boolean key data = Inr d1" and i: "check_integer key d1 = Inr ()"
    by (auto simp: config_input_def bindE_Inr_iff bad_value_def split: if_splits pyval.splits option.splits)
  have "key \<in> set BOOLEAN_CONFIGS \<longrightarrow> column_text scalar v \<in> {None, Some ''true'', Some ''false''}"
    using check_boolean_value[OF b] d1(2) by (auto simp: column_text_def split: if_splits)
  moreover have "case column_text scalar v of None \<Rightarrow> True | Some s \<Rightarrow> integer_text key s" if k: "key \<in> set INTEGER_CONFIGS"
  proof (cases "v = PNone \<or> v = PStr []")
    case False
    with i k d1(2) obtain n where n: "integer_value v = Some n" "key = ''mail_port'' \<longrightarrow> 1 \<le> n \<and> n \<le> 65535"
      by (auto simp: check_integer_def bad_value_def split: option.splits if_splits)
    have "\<exists>s. column_text scalar v = Some s \<and> integer_text key s" by (rule integer_value_text[OF n(1)]) (use n(2) in simp)
    then show ?thesis by auto
  qed (auto simp: column_text_def integer_text_def)
  moreover have "case map_of ENUM_CONFIGS key of None \<Rightarrow> True | Some options \<Rightarrow> column_text scalar v \<in> Some ` set options"
  proof (cases "map_of ENUM_CONFIGS key")
    case (Some options)
    then have "key \<notin> set BOOLEAN_CONFIGS" using enum_not_boolean by (force simp: list_all_iff dest: map_of_SomeD)
    with check_boolean_value[OF b] have "d1 = data" by simp
    with Some e d1(2) show ?thesis by (auto simp: column_text_def)
  qed simp
  ultimately show ?thesis by (simp add: typed_value_def)
qed

definition rows_typed :: "(string \<Rightarrow> string) \<Rightarrow> config_row list \<Rightarrow> bool" where
  "rows_typed ck rows = (distinct (map cfg_id rows) \<and> list_all (\<lambda>r. typed_value (ck (cfg_key r)) (cfg_value r)) rows)"

text \<open>The keys the API knows are spelled as their own representatives.\<close>

definition keys_canonical :: "(string \<Rightarrow> string) \<Rightarrow> string list \<Rightarrow> bool" where
  "keys_canonical ck extra = list_all (canonical ck) (CONFIG_API_KEYS @ PROTECTED_CONFIG_KEYS @ extra)"

lemma set_first_map: "(\<And>r. f (g r) = f r) \<Longrightarrow> map f (set_first p g rs) = map f rs"
  by (induction rs) auto

lemma list_all_set_first: "list_all P rs \<Longrightarrow> (\<And>r. r \<in> set rs \<Longrightarrow> p r \<Longrightarrow> P r \<Longrightarrow> P (g r)) \<Longrightarrow> list_all P (set_first p g rs)"
  by (induction rs) auto

lemma write_row_typed: "rows_typed ck rows \<Longrightarrow> typed_value (ck key) v \<Longrightarrow> rows_typed ck (write_row ck rows key v)"
  using fresh_id_notin[of cfg_id rows]
  by (auto simp: rows_typed_def write_row_def set_first_map intro!: list_all_set_first)

lemma respelled_typed: "rows_typed ck rows \<Longrightarrow> rows_typed ck (respelled ck rows key)"
  by (auto simp: rows_typed_def respelled_def set_first_map intro!: list_all_set_first)

text \<open>What a reader gets of a value with a type.\<close>

definition typed_read :: "string \<Rightarrow> py_exc + pyval option \<Rightarrow> bool" where
  "typed_read key r =
     ((key \<in> set BOOLEAN_CONFIGS \<longrightarrow> r \<in> {Inr None, Inr (Some (PBool True)), Inr (Some (PBool False))}) \<and>
      (key \<in> set INTEGER_CONFIGS \<longrightarrow> r = Inr None \<or> (\<exists>i. r = Inr (Some (PInt i)) \<and> 0 \<le> i \<and> i \<le> 2147483647)) \<and>
      (case map_of ENUM_CONFIGS key of None \<Rightarrow> True | Some options \<Rightarrow> r = Inr None \<or> r \<in> (\<lambda>s. Inr (Some (PStr s))) ` set options))"

lemma enum_options_read: "list_all (\<lambda>p. list_all (\<lambda>s. value_written (Some s) = Inr (Some (PStr s))) (snd p)) ENUM_CONFIGS"
  by code_simp

lemma boolean_read: "value_written (Some ''true'') = Inr (Some (PBool True))" "value_written (Some ''false'') = Inr (Some (PBool False))"
  by code_simp+

lemma integer_read:
  assumes "integer_text key s" shows "value_written (Some s) = Inr None \<or> (\<exists>i. value_written (Some s) = Inr (Some (PInt i)) \<and> 0 \<le> i \<and> i \<le> 2147483647)"
proof (cases "s = []")
  case False
  with assms have s: "py_isdecimal s" "length s \<le> 10" "digits_value s \<le> 2147483647" by (auto simp: integer_text_def)
  then have "py_int_str s = Some (digits_value s)" by (intro py_int_str_decimal) (auto simp: max_int_digits_def)
  moreover have "py_isdigit s" using s(1) by (auto simp: py_isdigit_def py_isdecimal_def list_all_iff)
  moreover have "0 \<le> digits_value s" using s(1) by (simp add: digits_value_nonneg py_isdecimal_def)
  ultimately show ?thesis using s False by (auto simp: value_written_def parse_config_def)
qed (simp add: value_written_def)

lemma typed_written: "typed_value key v \<Longrightarrow> typed_read key (value_written v)"
proof -
  assume t: "typed_value key v"
  have "key \<in> set BOOLEAN_CONFIGS \<longrightarrow> value_written v \<in> {Inr None, Inr (Some (PBool True)), Inr (Some (PBool False))}"
    using t boolean_read by (auto simp: typed_value_def value_written_def)
  moreover have "key \<in> set INTEGER_CONFIGS \<longrightarrow> value_written v = Inr None \<or> (\<exists>i. value_written v = Inr (Some (PInt i)) \<and> 0 \<le> i \<and> i \<le> 2147483647)"
  proof (cases v)
    case (Some s)
    with t integer_read[of key s] show ?thesis by (auto simp: typed_value_def)
  qed (simp add: value_written_def)
  moreover have "case map_of ENUM_CONFIGS key of None \<Rightarrow> True
      | Some options \<Rightarrow> value_written v = Inr None \<or> value_written v \<in> (\<lambda>s. Inr (Some (PStr s))) ` set options"
    using t enum_options_read by (fastforce simp: typed_value_def list_all_iff split: option.splits dest: map_of_SomeD)
  ultimately show ?thesis by (simp add: typed_read_def)
qed

lemma read_config_written: "read_config ck rows key = (case first_where (\<lambda>r. ck (cfg_key r) = ck key) rows of None \<Rightarrow> Inr None | Some r \<Rightarrow> value_written (cfg_value r))"
  by (auto simp: read_config_def value_written_def split: option.split)

lemma kinds_known: "set BOOLEAN_CONFIGS \<subseteq> set CONFIG_API_KEYS" "set INTEGER_CONFIGS \<subseteq> set CONFIG_API_KEYS" "fst ` set ENUM_CONFIGS \<subseteq> set CONFIG_API_KEYS"
proof -
  have "list_all (\<lambda>k. k \<in> set CONFIG_API_KEYS) BOOLEAN_CONFIGS" "list_all (\<lambda>k. k \<in> set CONFIG_API_KEYS) INTEGER_CONFIGS"
    "list_all (\<lambda>p. fst p \<in> set CONFIG_API_KEYS) ENUM_CONFIGS"
    by code_simp+
  then show "set BOOLEAN_CONFIGS \<subseteq> set CONFIG_API_KEYS" "set INTEGER_CONFIGS \<subseteq> set CONFIG_API_KEYS" "fst ` set ENUM_CONFIGS \<subseteq> set CONFIG_API_KEYS"
    by (auto simp: list_all_iff)
qed

lemma rows_typed_read:
  assumes "rows_typed ck rows" "keys_canonical ck extra" shows "typed_read key (read_config ck rows key)"
proof (cases "key \<in> set CONFIG_API_KEYS")
  case True
  then have "ck key = key" using assms(2) by (auto simp: keys_canonical_def canonical_def list_all_iff)
  with assms(1) show ?thesis
    by (auto simp: read_config_written rows_typed_def list_all_iff typed_read_def[of _ "Inr None"] intro!: typed_written
      split: option.splits dest!: first_where_SomeD)
next
  case False
  then have "key \<notin> set BOOLEAN_CONFIGS" "key \<notin> set INTEGER_CONFIGS" "map_of ENUM_CONFIGS key = None"
    using kinds_known by (auto simp: map_of_eq_None_iff)
  then show ?thesis by (simp add: typed_read_def)
qed

section \<open>Histories of the configuration\<close>

inductive config_step for ck themes extra scalar where
  read: "config_step ck themes extra scalar st (snd (cached_config ck st key))"
| created: "config_create themes extra scalar st body = Inr (w, st') \<Longrightarrow> config_step ck themes extra scalar st st'"
| batch: "config_batch ck themes extra scalar st body = Inr (ws, st') \<Longrightarrow> config_step ck themes extra scalar st st'"
| edited: "config_edit ck themes extra scalar st key body = Inr (wk, st') \<Longrightarrow> config_step ck themes extra scalar st st'"
| removed: "config_remove ck st key = Inr (u, st') \<Longrightarrow> config_step ck themes extra scalar st st'"

definition config_ok :: "(string \<Rightarrow> string) \<Rightarrow> config_store \<Rightarrow> bool" where
  "config_ok ck st = (cache_ok ck st \<and> rows_typed ck (cs_rows st))"

lemma cleared_simps [simp]: "cs_rows (cleared rows) = rows" "cache_ok ck (cleared rows)" "stored_value ck (cleared rows) = read_config ck rows"
  by (simp_all add: cleared_def cache_ok_def stored_value_def fun_eq_iff)

text \<open>The keys loaded from a batch are those asked for, with their type.\<close>

lemma config_load_key:
  assumes "config_load themes extra old data = Inr (key, v)"
  shows "dget_default data ''key'' (of_opt_str old) = PStr key"
proof -
  from assms obtain d1 where "config_input themes extra old data = Inr (key, d1)"
    by (auto simp: config_load_def bindE_Inr_iff bad_value_def split: if_splits)
  then show ?thesis
    by (cases "dget_default data ''key'' (of_opt_str old)") (auto simp: config_input_def bindE_Inr_iff bad_value_def split: if_splits)
qed

lemma config_load_known:
  assumes "config_load themes extra old data = Inr (key, v)" shows "key \<in> set CONFIG_API_KEYS \<union> set extra"
proof -
  from assms obtain d1 where "config_input themes extra old data = Inr (key, d1)"
    by (auto simp: config_load_def bindE_Inr_iff bad_value_def split: if_splits)
  then show ?thesis
    by (cases "dget_default data ''key'' (of_opt_str old)") (auto simp: config_input_def bindE_Inr_iff bad_value_def split: if_splits)
qed

lemma known_canonical: "keys_canonical ck extra \<Longrightarrow> key \<in> set CONFIG_API_KEYS \<union> set extra \<union> set PROTECTED_CONFIG_KEYS \<Longrightarrow> ck key = key"
  by (auto simp: keys_canonical_def canonical_def list_all_iff)

lemma batch_loaded:
  "mapE (\<lambda>p. config_load themes extra None [(''key'', PStr (fst p)), (''value'', snd p)]) req = Inr loaded \<Longrightarrow>
   map fst loaded = map fst req \<and> list_all (\<lambda>(k, v). typed_value k (column_text scalar v) \<and> k \<in> set CONFIG_API_KEYS \<union> set extra) loaded"
proof (induction req arbitrary: loaded)
  case (Cons p req)
  then obtain k v rest where l: "config_load themes extra None [(''key'', PStr (fst p)), (''value'', snd p)] = Inr (k, v)"
      "mapE (\<lambda>p. config_load themes extra None [(''key'', PStr (fst p)), (''value'', snd p)]) req = Inr rest" "loaded = (k, v) # rest"
    by (auto simp: bindE_Inr_iff)
  have "k = fst p" using config_load_key[OF l(1)] by (simp add: dget_default_def)
  with Cons.IH[OF l(2)] load_typed[OF l(1)] config_load_known[OF l(1)] l(3) show ?case by simp
qed simp

definition write_all :: "(string \<Rightarrow> string) \<Rightarrow> (pyval \<Rightarrow> string) \<Rightarrow> config_row list \<Rightarrow> (string \<times> pyval) list \<Rightarrow> config_row list" where
  "write_all ck scalar rows loaded = foldl (\<lambda>rows (key, v). write_row ck rows key (column_text scalar v)) rows loaded"

lemma create_cases:
  assumes "config_create themes extra scalar st body = Inr (w, st')"
  shows "st' = st \<or> (\<exists>r. st' = cleared (cs_rows st @ [r]) \<and> cfg_id r = fresh_id cfg_id (cs_rows st) \<and>
    typed_value (cfg_key r) (cfg_value r) \<and> cfg_key r \<in> set CONFIG_API_KEYS \<union> set extra \<and> cfg_key r \<notin> set PROTECTED_CONFIG_KEYS)"
proof (cases "\<exists>req. body = PDict req")
  case True
  then obtain req where b: "body = PDict req" by blast
  define new where "new = (\<lambda>(key, v). \<lparr>cfg_id = fresh_id cfg_id (cs_rows st), cfg_key = key, cfg_value = column_text scalar v\<rparr>)"
  have p: "dget req ''key'' \<notin> PStr ` set PROTECTED_CONFIG_KEYS"
    and s: "schema_refusing st (config_load themes extra None req) (\<lambda>p. Inr (Written (new p), cleared (cs_rows st @ [new p]))) = Inr (w, st')"
    using assms by (simp_all add: config_create_def b Let_def case_prod_unfold new_def split: if_splits)
  show ?thesis
  proof (cases "st' = st")
    case False
    with s obtain key v where l: "config_load themes extra None req = Inr (key, v)" and st': "st' = cleared (cs_rows st @ [new (key, v)])"
      by (auto simp: schema_refusing_Inr)
    have "dget req ''key'' = PStr key"
      using config_load_key[OF l] by (simp add: dget_default_def dget_def split: option.splits)
    then have "key \<notin> set PROTECTED_CONFIG_KEYS" using p by auto
    with load_typed[OF l, of scalar] config_load_known[OF l] st' show ?thesis by (intro disjI2 exI[of _ "new (key, v)"]) (simp add: new_def)
  qed simp
qed (use assms in \<open>auto simp: config_create_def split: pyval.splits\<close>)

lemma batch_cases:
  assumes "config_batch ck themes extra scalar st body = Inr (w, st')"
  shows "(\<exists>f. w = Refused f \<and> st' = st) \<or>
    (\<exists>form loaded. body = PDict form \<and> w = Written loaded \<and> st' = cleared (write_all ck scalar (cs_rows st) loaded) \<and>
      map fst loaded = filter (\<lambda>k. k \<notin> set CONFIG_FORM_METADATA) (map fst form) \<and> set (map fst loaded) \<inter> set PROTECTED_CONFIG_KEYS = {} \<and>
      list_all (\<lambda>(k, v). typed_value k (column_text scalar v) \<and> k \<in> set CONFIG_API_KEYS \<union> set extra) loaded)"
proof (cases body)
  case (PDict form)
  let ?req = "filter (\<lambda>p. fst p \<notin> set CONFIG_FORM_METADATA) form"
  let ?loads = "mapE (\<lambda>p. config_load themes extra None [(''key'', PStr (fst p)), (''value'', snd p)]) ?req"
  have p: "\<not> list_ex (\<lambda>p. fst p \<in> set PROTECTED_CONFIG_KEYS) ?req"
    and s: "schema_refusing st ?loads (\<lambda>l. Inr (Written l, cleared (write_all ck scalar (cs_rows st) l))) = Inr (w, st')"
    using assms by (simp_all add: config_batch_def PDict Let_def write_all_def split: if_splits)
  show ?thesis
  proof (cases "\<exists>f. w = Refused f \<and> st' = st")
    case False
    with s obtain l where l: "?loads = Inr l" "w = Written l" "st' = cleared (write_all ck scalar (cs_rows st) l)"
      by (auto simp: schema_refusing_Inr)
    have k: "map fst ?req = filter (\<lambda>k. k \<notin> set CONFIG_FORM_METADATA) (map fst form)" by (simp add: filter_map comp_def)
    have "set (map fst l) \<inter> set PROTECTED_CONFIG_KEYS = {}"
      using p batch_loaded[OF l(1), of scalar] by (auto simp: list_ex_iff)
    with batch_loaded[OF l(1), of scalar] l(2,3) k PDict show ?thesis by (intro disjI2 exI[of _ form] exI[of _ l]) simp
  qed simp
qed (use assms in \<open>auto simp: config_batch_def\<close>)

lemma write_all_typed:
  assumes "keys_canonical ck extra"
  shows "rows_typed ck rows \<Longrightarrow> list_all (\<lambda>(k, v). typed_value k (column_text scalar v) \<and> k \<in> set CONFIG_API_KEYS \<union> set extra) loaded \<Longrightarrow>
    rows_typed ck (write_all ck scalar rows loaded)"
proof (induction loaded arbitrary: rows)
  case (Cons p loaded)
  obtain k v where p: "p = (k, v)" by (cases p)
  with Cons.prems(2) have "ck k = k" by (intro known_canonical[OF assms]) auto
  with Cons.prems(2) p have "typed_value (ck k) (column_text scalar v)" by simp
  with Cons write_row_typed[of ck rows k] p show ?case by (simp add: write_all_def)
qed (simp add: write_all_def)

lemma write_all_read:
  assumes "keys_canonical ck extra"
  shows "set (map fst loaded) \<subseteq> set CONFIG_API_KEYS \<union> set extra \<Longrightarrow> read_config ck (write_all ck scalar rows loaded) key =
    (case map_of (rev loaded) (ck key) of None \<Rightarrow> read_config ck rows key | Some v \<Rightarrow> value_written (column_text scalar v))"
proof (induction loaded arbitrary: rows)
  case (Cons p loaded)
  obtain k v where p: "p = (k, v)" by (cases p)
  have k: "ck k = k" by (rule known_canonical[OF assms]) (use Cons.prems p in auto)
  have w: "write_all ck scalar rows (p # loaded) = write_all ck scalar (write_row ck rows k (column_text scalar v)) loaded" by (simp add: write_all_def p)
  have "read_config ck (write_row ck rows k (column_text scalar v)) key = (if ck key = k then value_written (column_text scalar v) else read_config ck rows key)"
    using k by (simp add: read_written_same read_written_other)
  with Cons.IH[of "write_row ck rows k (column_text scalar v)"] Cons.prems w p show ?case
    by (auto simp: map_add_def split: option.splits)
qed (simp add: write_all_def)

lemma edit_cases:
  assumes "config_edit ck themes extra scalar st key body = Inr (w, st')"
  shows "st' = st \<or> (\<exists>v. st' = cleared (write_row ck (respelled ck (cs_rows st) key) key (column_text scalar v)) \<and> typed_value key (column_text scalar v) \<and>
    key \<in> set CONFIG_API_KEYS \<union> set extra \<and> key \<notin> set PROTECTED_CONFIG_KEYS)"
proof -
  have "k = key" if "config_load themes extra (Some key) (put ''key'' (PStr key) req) = Inr (k, v)" for k v req
    using config_load_key[OF that] by (simp add: dget_default_def)
  then show ?thesis using assms load_typed config_load_known
    by (fastforce simp: config_edit_def schema_refusing_Inr split: pyval.splits if_splits)
qed

lemma remove_cases:
  assumes "config_remove ck st key = Inr (u, st')"
  obtains r where "r \<in> set (cs_rows st)" "ck (cfg_key r) = ck key" "st' = cleared (delete_where (\<lambda>x. cfg_id x = cfg_id r) (cs_rows st))" "key \<notin> set PROTECTED_CONFIG_KEYS"
  using assms by (auto simp: config_remove_def config_row_of_def first_or_404_def bindE_Inr_iff split: if_splits option.splits dest!: first_where_SomeD)

lemma config_step_ok: "config_step ck themes extra scalar st st' \<Longrightarrow> keys_canonical ck extra \<Longrightarrow> config_ok ck st \<Longrightarrow> config_ok ck st'"
proof (induction rule: config_step.induct)
  case (read st key)
  then show ?case by (simp add: config_ok_def cached_config_rows cached_config_ok)
next
  case (created st body w st')
  have "typed_value (ck k) v" if "typed_value k v" "k \<in> set CONFIG_API_KEYS \<union> set extra" for k v
    using known_canonical[OF created(2), of k] that by auto
  then show ?case using create_cases[OF created(1)] created(3) fresh_id_notin[of cfg_id "cs_rows st"]
    by (auto simp: config_ok_def rows_typed_def)
next
  case (batch st body ws st')
  then show ?case using batch_cases[OF batch(1)] write_all_typed[OF batch(2)] by (auto simp: config_ok_def)
next
  case (edited st key body wk st')
  from edit_cases[OF edited(1)] show ?case
  proof
    assume "\<exists>v. st' = cleared (write_row ck (respelled ck (cs_rows st) key) key (column_text scalar v)) \<and> typed_value key (column_text scalar v) \<and>
      key \<in> set CONFIG_API_KEYS \<union> set extra \<and> key \<notin> set PROTECTED_CONFIG_KEYS"
    then obtain v where v: "st' = cleared (write_row ck (respelled ck (cs_rows st) key) key (column_text scalar v))" "typed_value (ck key) (column_text scalar v)"
      using known_canonical[OF edited(2), of key] by auto
    with edited(3) respelled_typed write_row_typed show ?thesis by (simp add: config_ok_def)
  qed (use edited(3) in simp)
next
  case (removed st key u st')
  then show ?case
    by (elim remove_cases) (auto simp: config_ok_def rows_typed_def distinct_delete_where list_all_iff set_delete_where)
qed


text \<open>
  Also proved: a batch is written completely or not at all: a refused one leaves the store as it is;
  otherwise every key of the form, its metadata apart, reads as the value given, every other key as
  before, and no protected key was among them.
\<close>

theorem config_batch_atomic:
  assumes "keys_canonical ck extra" "config_batch ck themes extra scalar st (PDict form) = Inr (w, st')"
  shows "(\<exists>f. w = Refused f \<and> st' = st) \<or>
    (\<exists>loaded. w = Written loaded \<and> map fst loaded = filter (\<lambda>k. k \<notin> set CONFIG_FORM_METADATA) (map fst form) \<and>
      set (map fst loaded) \<inter> set PROTECTED_CONFIG_KEYS = {} \<and>
      stored_value ck st' = (\<lambda>key. case map_of (rev loaded) (ck key) of None \<Rightarrow> stored_value ck st key | Some v \<Rightarrow> value_written (column_text scalar v)))"
  using batch_cases[OF assms(2)]
proof (elim disjE exE conjE)
  fix form' loaded assume l: "w = Written loaded" "st' = cleared (write_all ck scalar (cs_rows st) loaded)" "PDict form = PDict form'"
    "map fst loaded = filter (\<lambda>k. k \<notin> set CONFIG_FORM_METADATA) (map fst form')" "set (map fst loaded) \<inter> set PROTECTED_CONFIG_KEYS = {}"
    "list_all (\<lambda>(k, v). typed_value k (column_text scalar v) \<and> k \<in> set CONFIG_API_KEYS \<union> set extra) loaded"
  from l(6) have "set (map fst loaded) \<subseteq> set CONFIG_API_KEYS \<union> set extra" by (auto simp: list_all_iff)
  from write_all_read[OF assms(1) this, of scalar "cs_rows st"]
  have "stored_value ck st' = (\<lambda>key. case map_of (rev loaded) (ck key) of None \<Rightarrow> stored_value ck st key | Some v \<Rightarrow> value_written (column_text scalar v))"
    by (auto simp: fun_eq_iff l(2) stored_value_def split: option.splits)
  with l show ?thesis by (intro disjI2 exI[of _ loaded]) simp
qed blast

section \<open>Protected keys\<close>

text \<open>The rows the database finds for a key.\<close>

definition rows_named :: "(string \<Rightarrow> string) \<Rightarrow> string \<Rightarrow> config_row list \<Rightarrow> config_row list" where
  "rows_named ck key rows = filter (\<lambda>r. ck (cfg_key r) = ck key) rows"

lemma read_rows_named: "read_config ck rows key = (case rows_named ck key rows of [] \<Rightarrow> Inr None | r # _ \<Rightarrow> value_written (cfg_value r))"
proof -
  have "first_where p rs = (case filter p rs of [] \<Rightarrow> None | r # _ \<Rightarrow> Some r)" for p and rs :: "config_row list" by (induction rs) auto
  then show ?thesis by (auto simp: read_config_written rows_named_def split: list.splits)
qed

lemma filter_set_first_other: "(\<And>r. p r \<Longrightarrow> \<not> q r \<and> \<not> q (f r)) \<Longrightarrow> filter q (set_first p f rs) = filter q rs"
  by (induction rs) auto

lemma rows_named_write_row: "ck k \<noteq> ck key \<Longrightarrow> rows_named ck key (write_row ck rows k v) = rows_named ck key rows"
  by (simp add: rows_named_def write_row_def filter_set_first_other)

lemma rows_named_respelled: "ck k \<noteq> ck key \<Longrightarrow> rows_named ck key (respelled ck rows k) = rows_named ck key rows"
  by (simp add: rows_named_def respelled_def filter_set_first_other)

lemma rows_named_write_all:
  "(\<And>k. k \<in> fst ` set loaded \<Longrightarrow> ck k \<noteq> ck key) \<Longrightarrow> rows_named ck key (write_all ck scalar rows loaded) = rows_named ck key rows"
  by (induction loaded arbitrary: rows) (auto simp: write_all_def rows_named_write_row)

lemma rows_named_delete: "rows_named ck key (delete_where p rows) = filter (\<lambda>r. \<not> p r) (rows_named ck key rows)"
  unfolding rows_named_def delete_where_def by (induction rows) auto

lemma rows_named_delete_other:
  assumes "r \<in> set rows" "ck (cfg_key r) \<noteq> ck key" "distinct (map cfg_id rows)"
  shows "rows_named ck key (delete_where (\<lambda>x. cfg_id x = cfg_id r) rows) = rows_named ck key rows"
proof -
  have "x = r" if "x \<in> set rows" "cfg_id x = cfg_id r" for x using that assms(1,3) by (auto simp: distinct_map inj_on_def)
  then show ?thesis using assms(2) by (auto simp: rows_named_def delete_where_def filter_filter intro!: filter_cong)
qed

lemma known_not_protected:
  assumes "keys_canonical ck extra" "key \<in> set PROTECTED_CONFIG_KEYS" "k \<in> set CONFIG_API_KEYS \<union> set extra" "k \<notin> set PROTECTED_CONFIG_KEYS"
  shows "ck k \<noteq> ck key"
  using known_canonical[OF assms(1), of k] known_canonical[OF assms(1), of key] assms(2-4) by auto

lemma config_step_protected:
  assumes "config_step ck themes extra scalar st st'" "config_ok ck st" "keys_canonical ck extra" "key \<in> set PROTECTED_CONFIG_KEYS"
  shows "rows_named ck key (cs_rows st') = rows_named ck key (cs_rows st) \<or>
    (\<exists>k. k \<noteq> key \<and> ck k = ck key) \<and> subseq (rows_named ck key (cs_rows st')) (rows_named ck key (cs_rows st))"
  using assms(1)
proof (cases rule: config_step.cases)
  case (read k)
  then show ?thesis by (simp add: cached_config_rows)
next
  case (created body w)
  from create_cases[OF this] consider "st' = st"
    | r where "st' = cleared (cs_rows st @ [r])" "cfg_key r \<in> set CONFIG_API_KEYS \<union> set extra" "cfg_key r \<notin> set PROTECTED_CONFIG_KEYS" by blast
  then show ?thesis
  proof cases
    case 2
    have "ck (cfg_key r) \<noteq> ck key" by (rule known_not_protected[OF assms(3,4) 2(2,3)])
    then show ?thesis by (simp add: 2(1) rows_named_def)
  qed simp
next
  case (batch body ws)
  from batch_cases[OF this] consider "st' = st"
    | loaded where "st' = cleared (write_all ck scalar (cs_rows st) loaded)" "set (map fst loaded) \<inter> set PROTECTED_CONFIG_KEYS = {}"
      "list_all (\<lambda>(k, v). typed_value k (column_text scalar v) \<and> k \<in> set CONFIG_API_KEYS \<union> set extra) loaded" by blast
  then show ?thesis
  proof cases
    case 2
    have "ck k \<noteq> ck key" if "k \<in> fst ` set loaded" for k
      by (rule known_not_protected[OF assms(3,4)]) (use that 2(2,3) in \<open>auto simp: list_all_iff\<close>)
    then show ?thesis by (simp add: 2(1) rows_named_write_all)
  qed simp
next
  case (edited k body wk)
  from edit_cases[OF this] consider "st' = st"
    | v where "st' = cleared (write_row ck (respelled ck (cs_rows st) k) k (column_text scalar v))" "k \<in> set CONFIG_API_KEYS \<union> set extra" "k \<notin> set PROTECTED_CONFIG_KEYS" by blast
  then show ?thesis
  proof cases
    case 2
    have "ck k \<noteq> ck key" by (rule known_not_protected[OF assms(3,4) 2(2,3)])
    then show ?thesis by (simp add: 2(1) rows_named_write_row rows_named_respelled)
  qed simp
next
  case (removed k u)
  then obtain r where r: "r \<in> set (cs_rows st)" "ck (cfg_key r) = ck k" "k \<notin> set PROTECTED_CONFIG_KEYS"
      "st' = cleared (delete_where (\<lambda>x. cfg_id x = cfg_id r) (cs_rows st))"
    by (elim remove_cases)
  show ?thesis
  proof (cases "ck k = ck key")
    case True
    have "subseq (rows_named ck key (cs_rows st')) (rows_named ck key (cs_rows st))"
      unfolding r(4) cleared_simps rows_named_delete by (rule subseq_filter_left)
    moreover have "k \<noteq> key" using r(3) assms(4) by auto
    ultimately show ?thesis using True by (intro disjI2 conjI exI[of _ k])
  next
    case False
    have "distinct (map cfg_id (cs_rows st))" using assms(2) by (simp add: config_ok_def rows_typed_def)
    moreover have "ck (cfg_key r) \<noteq> ck key" using False r(2) by simp
    ultimately have "rows_named ck key (cs_rows st') = rows_named ck key (cs_rows st)"
      unfolding r(4) cleared_simps by (intro rows_named_delete_other[OF r(1)])
    then show ?thesis ..
  qed
qed


section \<open>Fields and their entries\<close>

definition entries_linked :: "db \<Rightarrow> bool" where
  "entries_linked d = list_all (\<lambda>e. refers (fd_id ` set (field_defs d)) (fe_field_id e)) (field_entries d)"

inductive field_step for load where
  created: "field_create load d body = Inr (w, d') \<Longrightarrow> field_step load d d'"
| edited: "field_edit load d i body = Inr (w, d') \<Longrightarrow> field_step load d d'"
| removed: "field_remove d i = Inr (u, d') \<Longrightarrow> field_step load d d'"

lemma field_step_linked: "field_step load d d' \<Longrightarrow> entries_linked d \<Longrightarrow> entries_linked d'"
proof (induction rule: field_step.induct)
  case (created d body w d')
  then show ?case
    by (auto simp: field_create_def schema_refusing_Inr Let_def entries_linked_def list_all_iff refers_insert split: pyval.splits)
next
  case (edited d i body w d')
  have "fd_id ` set (update_where (\<lambda>x. fd_id x = i) (\<lambda>_. n\<lparr>fd_id := i\<rparr>) fs) = fd_id ` set fs" for n :: field_def and fs
    by (auto simp: set_update_where image_Un) (force simp: image_iff)
  moreover have "d' = d \<or> (\<exists>n. d' = d\<lparr>field_defs := update_where (\<lambda>x. fd_id x = i) (\<lambda>_. n\<lparr>fd_id := i\<rparr>) (field_defs d)\<rparr>)"
    using edited(1) by (cases body) (auto simp: field_edit_def bindE_Inr_iff schema_refusing_Inr Let_def)
  ultimately show ?case using edited(2) by (auto simp: entries_linked_def)
next
  case (removed d i u d')
  then have d': "d' = d\<lparr>field_defs := delete_where (\<lambda>x. fd_id x = i) (field_defs d),
     field_entries := delete_where (\<lambda>e. fe_field_id e = Some i) (field_entries d)\<rparr>"
    by (auto simp: field_remove_def bindE_Inr_iff)
  from removed(2) show ?case
    by (auto simp: d' entries_linked_def list_all_iff set_delete_where[of _ "field_entries d"] refers_delete)
qed

text \<open>Also proved: no entry of an account ever belongs to a field that has been deleted.\<close>

theorem fields_stay_linked: "entries_linked d \<Longrightarrow> (field_step load)\<^sup>*\<^sup>* d d' \<Longrightarrow> entries_linked d'"
  by (rotate_tac 1, induction rule: rtranclp_induct) (auto intro: field_step_linked)

text \<open>A custom field keeps its owner type.\<close>

lemma field_type_fixed:
  "field_pre_load (Some f) data = Inr () \<Longrightarrow> has_key data ''type'' \<Longrightarrow> dget data ''type'' = of_opt_str (fd_type f)"
  by (cases "fd_type f") (auto simp: field_pre_load_def bindE_Inr_iff py_eq_def split: if_splits)

section \<open>Keys at hand\<close>

lemma kinds_of_keys:
  "''team_size'' \<in> set CONFIG_API_KEYS" "''team_size'' \<in> set INTEGER_CONFIGS" "''team_size'' \<notin> set BOOLEAN_CONFIGS" "map_of ENUM_CONFIGS ''team_size'' = None"
  "''mail_port'' \<in> set CONFIG_API_KEYS" "''mail_port'' \<in> set INTEGER_CONFIGS" "''mail_port'' \<notin> set BOOLEAN_CONFIGS" "map_of ENUM_CONFIGS ''mail_port'' = None"
  "''paused'' \<in> set CONFIG_API_KEYS" "''paused'' \<notin> set INTEGER_CONFIGS" "''paused'' \<in> set BOOLEAN_CONFIGS" "map_of ENUM_CONFIGS ''paused'' = None"
  "''ctf_name'' \<in> set CONFIG_API_KEYS" "''ctf_name'' \<notin> set INTEGER_CONFIGS" "''ctf_name'' \<notin> set BOOLEAN_CONFIGS" "map_of ENUM_CONFIGS ''ctf_name'' = None"
  by code_simp+

lemmas loading = config_load_def config_input_def config_value_def check_boolean_def check_integer_def check_theme_settings_def text_key_def
  dget_def dget_default_def put_def kinds_of_keys

section \<open>Faults\<close>

definition small_store :: config_store where
  "small_store = cleared [\<lparr>cfg_id = 1, cfg_key = ''team_size'', cfg_value = Some ''4''\<rparr>, \<lparr>cfg_id = 2, cfg_key = ''user_mode'', cfg_value = Some ''teams''\<rparr>]"

text \<open>Creating a key that exists adds a second row, which no read and no edit ever reaches.\<close>

lemma created_twice:
  "map_option (\<lambda>st. (length (cs_rows st), fst (cached_config py_lower st ''team_size'')))
     (case config_create [] [] (\<lambda>_. []) small_store (PDict [(''key'', PStr ''team_size''), (''value'', PInt 9)]) of Inr (_, st) \<Rightarrow> Some st | _ \<Rightarrow> None)
   = Some (3, Inr (Some (PInt 4)))"
  by code_simp

text \<open>
  The handlers look a key up among the protected ones as it is written, the database by its collation: under
  another spelling a protected key is shown, and deleted.
\<close>

definition protected_store :: config_store where
  "protected_store = cleared [\<lparr>cfg_id = 1, cfg_key = ''user_mode'', cfg_value = Some ''teams''\<rparr>, \<lparr>cfg_id = 2, cfg_key = ''oauth_client_secret'', cfg_value = Some ''s3cret''\<rparr>]"

lemma protected_by_other_spelling:
  "map_option (\<lambda>st. fst (cached_config py_lower st ''user_mode'')) (case config_remove py_lower protected_store ''USER_MODE'' of Inr (_, st) \<Rightarrow> Some st | _ \<Rightarrow> None) = Some (Inr None)"
  "''OAUTH_CLIENT_SECRET'' \<notin> set PROTECTED_CONFIG_KEYS \<and> map_option cfg_value (config_row_of py_lower protected_store ''OAUTH_CLIENT_SECRET'') = Some (Some ''s3cret'')"
  by code_simp+

text \<open>A text of superscript digits is stored, and every later read of the key raises.\<close>

lemma unreadable_name:
  "config_load [] [] (Some ''ctf_name'') [(''key'', PStr ''ctf_name''), (''value'', PStr [CHR 0xB2])] = Inr (''ctf_name'', PStr [CHR 0xB2])"
  "value_written (column_text (\<lambda>_. []) (PStr [CHR 0xB2])) = Inl (ValueError ''invalid literal for int()'')"
proof -
  show "config_load [] [] (Some ''ctf_name'') [(''key'', PStr ''ctf_name''), (''value'', PStr [CHR 0xB2])] = Inr (''ctf_name'', PStr [CHR 0xB2])"
    by (simp add: loading utf8_length_def)
qed code_simp

section \<open>Witnesses\<close>

lemma small_store_ok:
  "config_ok py_lower small_store" "keys_canonical py_lower []" "config_ok (\<lambda>k. k) small_store" "keys_canonical (\<lambda>k. k) []"
proof -
  have "rows_typed py_lower (cs_rows small_store)" "rows_typed (\<lambda>k. k) (cs_rows small_store)" by code_simp+
  then show "config_ok py_lower small_store" "config_ok (\<lambda>k. k) small_store" by (simp_all add: config_ok_def small_store_def)
  show "keys_canonical py_lower []" "keys_canonical (\<lambda>k. k) []" by code_simp+
qed

definition batch_form :: dict where
  "batch_form = [(''nonce'', PStr ''n''), (''mail_port'', PInt 25), (''paused'', PStr ''on'')]"

definition after_batch :: config_store where
  "after_batch = cleared [\<lparr>cfg_id = 1, cfg_key = ''team_size'', cfg_value = Some ''4''\<rparr>, \<lparr>cfg_id = 2, cfg_key = ''user_mode'', cfg_value = Some ''teams''\<rparr>,
     \<lparr>cfg_id = 3, cfg_key = ''mail_port'', cfg_value = Some ''25''\<rparr>, \<lparr>cfg_id = 4, cfg_key = ''paused'', cfg_value = Some ''true''\<rparr>]"

lemma batch_written:
  "foldl (\<lambda>rows (key, v). write_row py_lower rows key (column_text (\<lambda>_. []) v)) (cs_rows small_store) [(''mail_port'', PInt 25), (''paused'', PStr ''true'')] = cs_rows after_batch"
  "foldl (\<lambda>rows (key, v). write_row (\<lambda>k. k) rows key (column_text (\<lambda>_. []) v)) (cs_rows small_store) [(''mail_port'', PInt 25), (''paused'', PStr ''true'')] = cs_rows after_batch"
  by code_simp+

lemma batch_run:
  assumes "ck \<in> {py_lower, \<lambda>k. k}"
  shows "config_batch ck [] [] (\<lambda>_. []) small_store (PDict batch_form) = Inr (Written [(''mail_port'', PInt 25), (''paused'', PStr ''true'')], after_batch)"
proof -
  have f: "filter (\<lambda>p. fst p \<notin> set CONFIG_FORM_METADATA) batch_form = [(''mail_port'', PInt 25), (''paused'', PStr ''on'')]"
    "list_ex (\<lambda>p. fst p \<in> set PROTECTED_CONFIG_KEYS) [(''mail_port'', PInt 25), (''paused'', PStr ''on'')] = False"
    by code_simp+
  have l: "config_load [] [] None [(''key'', PStr ''mail_port''), (''value'', PInt 25)] = Inr (''mail_port'', PInt 25)"
    "config_load [] [] None [(''key'', PStr ''paused''), (''value'', PStr ''on'')] = Inr (''paused'', PStr ''true'')"
    by (simp_all add: loading utf8_length_def)
  have w: "foldl (\<lambda>rows (key, v). write_row ck rows key (column_text (\<lambda>_. []) v)) (cs_rows small_store) [(''mail_port'', PInt 25), (''paused'', PStr ''true'')] =
    cs_rows after_batch"
    using assms batch_written by blast
  show ?thesis by (simp only: config_batch_def pyval.case Let_def f l w mapE.simps fst_conv snd_conv bindE.simps schema_refusing_def sum.case if_False)
     (simp add: after_batch_def cleared_def)
qed

lemma batch_steps: "ck \<in> {py_lower, \<lambda>k. k} \<Longrightarrow> (config_step ck [] [] (\<lambda>_. []))\<^sup>*\<^sup>* small_store after_batch"
  by (rule r_into_rtranclp) (rule config_step.batch[OF batch_run])


theorem config_batch_atomic_witness:
  "stored_value py_lower after_batch ''mail_port'' = Inr (Some (PInt 25)) \<and> stored_value py_lower after_batch ''Team_Size'' = Inr (Some (PInt 4))"
proof -
  have v: "value_written (column_text (\<lambda>_. []) (PInt 25)) = Inr (Some (PInt 25))" "stored_value py_lower small_store ''Team_Size'' = Inr (Some (PInt 4))"
    "py_lower ''mail_port'' = ''mail_port''" "py_lower ''Team_Size'' = ''team_size''"
    by code_simp+
  have "config_batch py_lower [] [] (\<lambda>_. []) small_store (PDict batch_form) = Inr (Written [(''mail_port'', PInt 25), (''paused'', PStr ''true'')], after_batch)"
    by (rule batch_run) simp
  from config_batch_atomic[OF small_store_ok(2) this] show ?thesis by (auto simp: v)
qed


end
