(* ===== verification/Statistics.thy ===== *)
theory Statistics imports Standings Challenges begin

text \<open>
  The statistics of \<^verbatim>\<open>api/v1/statistics\<close>: counts by column, solves and percentages per
  challenge, the distribution of scores and the analytics of challenges.  A float is a rational,
  rounded to decimals as \<open>round\<close> does; the database's difference of two dates in seconds and its
  order of challenges by category and name are parameters.
\<close>

section \<open>Counts by column\<close>

text \<open>\<open>GROUP BY\<close> with \<open>COUNT\<close> of the column, which does not count nulls.\<close>

definition property_counts :: "(string \<times> ('r \<Rightarrow> pyval)) list \<Rightarrow> string \<Rightarrow> 'r list \<Rightarrow> (pyval \<times> nat) list option" where
  "property_counts columns column rows = (case map_of columns column of
      None \<Rightarrow> None
    | Some col \<Rightarrow> let vs = map col rows in
        Some (map (\<lambda>v. (v, if v = PNone then 0 else count_list vs v)) (remdups vs)))"

definition challenge_table :: "(string \<times> (challenge \<Rightarrow> pyval)) list" where
  "challenge_table = [(''id'', \<lambda>c. PInt (ch_id c)), (''name'', \<lambda>c. of_opt_str (ch_name c)), (''description'', \<lambda>c. of_opt_str (ch_description c)),
     (''connection_info'', \<lambda>c. of_opt_str (ch_connection_info c)), (''next_id'', \<lambda>c. of_opt_int (ch_next_id c)),
     (''max_attempts'', \<lambda>c. of_opt_int (ch_max_attempts c)), (''value'', \<lambda>c. of_opt_int (ch_value c)), (''category'', \<lambda>c. of_opt_str (ch_category c)),
     (''type'', \<lambda>c. of_opt_str (ch_type c)), (''state'', \<lambda>c. PStr (ch_state c)), (''requirements'', ch_requirements),
     (''time_limit'', \<lambda>c. of_opt_int (ch_time_limit c)), (''time_finished'', \<lambda>c. of_opt_int (ch_time_finished c)),
     (''start_time'', \<lambda>c. of_opt_int (ch_start_time c)), (''user_id'', \<lambda>c. PInt (ch_user_id c)), (''cooldown'', \<lambda>c. of_opt_int (ch_cooldown c)),
     (''require_deploy'', \<lambda>c. PBool (ch_require_deploy c)), (''deploy_status'', \<lambda>c. of_opt_str (ch_deploy_status c)),
     (''last_update'', \<lambda>c. of_opt_int (ch_last_update c)), (''image_link'', \<lambda>c. of_opt_str (ch_image_link c)),
     (''deploy_file'', \<lambda>c. of_opt_str (ch_deploy_file c)), (''cpu_limit'', \<lambda>c. of_opt_int (ch_cpu_limit c)), (''cpu_request'', \<lambda>c. of_opt_int (ch_cpu_request c)),
     (''memory_limit'', \<lambda>c. of_opt_int (ch_memory_limit c)), (''memory_request'', \<lambda>c. of_opt_int (ch_memory_request c)),
     (''use_gvisor'', \<lambda>c. of_opt_bool (ch_use_gvisor c)), (''harden_container'', \<lambda>c. of_opt_bool (ch_harden_container c)),
     (''max_deploy_count'', \<lambda>c. of_opt_int (ch_max_deploy_count c)), (''difficulty'', \<lambda>c. of_opt_int (ch_difficulty c)),
     (''shared_instant'', \<lambda>c. PBool (ch_shared_instant c)), (''connection_protocol'', \<lambda>c. PStr (ch_connection_protocol c))]"

definition submission_table :: "(string \<times> (submission \<Rightarrow> pyval)) list" where
  "submission_table = [(''id'', \<lambda>s. PInt (sub_id s)), (''challenge_id'', \<lambda>s. of_opt_int (sub_challenge_id s)), (''user_id'', \<lambda>s. of_opt_int (sub_user_id s)),
     (''team_id'', \<lambda>s. of_opt_int (sub_team_id s)), (''ip'', \<lambda>s. of_opt_str (sub_ip s)), (''provided'', \<lambda>s. of_opt_str (sub_provided s)),
     (''type'', \<lambda>s. of_opt_str (sub_type s)), (''date'', \<lambda>s. of_opt_int (sub_date s))]"

definition counts_reply :: "(pyval \<times> nat) list option \<Rightarrow> py_exc + (pyval \<times> nat) list reply" where
  "counts_reply r = Inr (case r of None \<Rightarrow> Status 404 | Some x \<Rightarrow> Body x)"

definition challenge_property_counts :: "ctx \<Rightarrow> string \<Rightarrow> py_exc + (pyval \<times> nat) list reply" where
  "challenge_property_counts c column = admin_or_challenge_writer_only_or_jury c
     (counts_reply (property_counts challenge_table column (challenges (cx_db c))))"

definition submission_property_counts :: "ctx \<Rightarrow> string \<Rightarrow> py_exc + (pyval \<times> nat) list reply" where
  "submission_property_counts c column = admin_or_challenge_writer_only_or_jury c
     (counts_reply (property_counts submission_table column (submissions (cx_db c))))"

definition user_statistics :: "ctx \<Rightarrow> py_exc + (nat \<times> nat) reply" where
  "user_statistics c = admins_only c (Inr (Body (length (users (cx_db c)), length (filter (\<lambda>u. us_verified u = Some True) (users (cx_db c))))))"

definition team_statistics :: "ctx \<Rightarrow> py_exc + nat reply" where
  "team_statistics c = admins_only c (Inr (Body (length (teams (cx_db c)))))"

section \<open>Solves per challenge\<close>

definition open_challenge :: "challenge \<Rightarrow> bool" where
  "open_challenge c = (ch_state c \<noteq> ''hidden'' \<and> ch_state c \<noteq> ''locked'')"

definition counted_solves :: "db \<Rightarrow> config \<Rightarrow> submission list" where
  "counted_solves d conf = filter (counted_solve d conf) (solves d)"

definition solve_total :: "db \<Rightarrow> config \<Rightarrow> int \<Rightarrow> nat" where
  "solve_total d conf i = length (filter (\<lambda>s. sub_challenge_id s = Some i) (counted_solves d conf))"

record solve_stat =
  ss_id :: int
  ss_name :: "string option"
  ss_solves :: nat

text \<open>Challenges with a counted solve in the order of the groups, then the open ones without.\<close>

definition solve_statistics :: "db \<Rightarrow> config \<Rightarrow> solve_stat list" where
  "solve_statistics d conf =
     (let solved = filter (\<lambda>i. challenge_by_id d i \<noteq> None) (remdups (List.map_filter sub_challenge_id (counted_solves d conf))) in
      map (\<lambda>i. \<lparr>ss_id = i, ss_name = (case challenge_by_id d i of None \<Rightarrow> None | Some c \<Rightarrow> ch_name c), ss_solves = solve_total d conf i\<rparr>) solved @
      map (\<lambda>c. \<lparr>ss_id = ch_id c, ss_name = ch_name c, ss_solves = 0\<rparr>)
        (filter (\<lambda>c. ch_id c \<notin> set solved) (sort_key (\<lambda>c. date_key (ch_value c)) (filter open_challenge (challenges d)))))"

text \<open>\<open>get_model()\<close> answers nothing outside the two modes, and its columns are then missing.\<close>

definition with_model :: "config \<Rightarrow> py_exc + 'a \<Rightarrow> py_exc + 'a" where
  "with_model conf r = (if is_users_mode conf \<or> is_teams_mode conf then r else Inl AttributeError)"

definition challenge_solve_statistics :: "ctx \<Rightarrow> py_exc + solve_stat list reply" where
  "challenge_solve_statistics c = admin_or_challenge_writer_only_or_jury c
     (with_model (cx_conf c) (Inr (Body (solve_statistics (cx_db c) (cx_conf c)))))"

definition accounts_with_points :: "db \<Rightarrow> config \<Rightarrow> nat" where
  "accounts_with_points d conf = length (remdups (map (submission_account_id conf) (counted_solves d conf)))"

record percentage =
  pc_id :: int
  pc_name :: "string option"
  pc_percentage :: rat

definition percentage_of :: "db \<Rightarrow> config \<Rightarrow> challenge \<Rightarrow> percentage" where
  "percentage_of d conf c = \<lparr>pc_id = ch_id c, pc_name = ch_name c,
     pc_percentage = (if 0 < accounts_with_points d conf
       then of_nat (solve_total d conf (ch_id c)) / of_nat (accounts_with_points d conf) else 0)\<rparr>"

text \<open>A stable sort, in reverse.\<close>

definition solve_percentages :: "db \<Rightarrow> config \<Rightarrow> percentage list" where
  "solve_percentages d conf = sort_key (\<lambda>p. - pc_percentage p)
     (map (percentage_of d conf) (sort_key (\<lambda>c. date_key (ch_value c)) (challenges d)))"

definition challenge_solve_percentages :: "ctx \<Rightarrow> py_exc + percentage list reply" where
  "challenge_solve_percentages c = admin_or_challenge_writer_only_or_jury c
     (with_model (cx_conf c) (Inr (Body (solve_percentages (cx_db c) (cx_conf c)))))"

section \<open>The distribution of scores\<close>

definition total_points :: "db \<Rightarrow> int" where
  "total_points d = sum_list (List.map_filter ch_value (filter (\<lambda>c. ch_state c = ''visible'') (challenges d)))"

definition bracket_size :: "db \<Rightarrow> int" where
  "bracket_size d = total_points d div max 1 (int (length (challenges d)))"

text \<open>The current interval, the number of its bracket, and the counts by upper end.\<close>

record distribution =
  ds_bottom :: int
  ds_top :: int
  ds_count :: int
  ds_brackets :: "(int \<times> nat) list"

definition bump :: "int \<Rightarrow> (int \<times> nat) list \<Rightarrow> (int \<times> nat) list" where
  "bump k bs = put k (Suc (case map_of bs k of None \<Rightarrow> 0 | Some n \<Rightarrow> n)) bs"

definition place_score :: "int \<Rightarrow> distribution \<Rightarrow> int \<Rightarrow> distribution" where
  "place_score width st score =
     (if ds_bottom st \<le> score \<and> score \<le> ds_top st \<or> score \<le> 0
      then st\<lparr>ds_brackets := bump (ds_top st) (ds_brackets st)\<rparr>
      else let n = ds_count st + 1 in
        \<lparr>ds_bottom = width, ds_top = width * n, ds_count = n, ds_brackets = bump (width * n) (ds_brackets st)\<rparr>)"

definition distribute :: "int \<Rightarrow> int list \<Rightarrow> distribution" where
  "distribute width scores = foldl (place_score width) \<lparr>ds_bottom = 0, ds_top = width, ds_count = 1, ds_brackets = []\<rparr> scores"

definition scores_distribution :: "ctx \<Rightarrow> py_exc + (int \<times> nat) list reply" where
  "scores_distribution c = admin_or_challenge_writer_only_or_jury c
     (bindE (get_standings (cx_conf c) (cx_db c) None None True) (\<lambda>rows.
      Inr (Body (ds_brackets (distribute (bracket_size (cx_db c)) (rev (map sd_score rows)))))))"

section \<open>Analytics\<close>

text \<open>\<open>round(x, n)\<close>: to the nearest decimal, ties to the even one.\<close>

definition round_even :: "rat \<Rightarrow> int" where
  "round_even x = (let f = \<lfloor>x\<rfloor>; r = x - of_int f in
     if r < 1 / 2 then f else if 1 / 2 < r then f + 1 else if even f then f else f + 1)"

definition py_round :: "nat \<Rightarrow> rat \<Rightarrow> rat" where
  "py_round n x = of_int (round_even (x * 10 ^ n)) / 10 ^ n"

text \<open>The window of the contest; a null date is in no bounded one.\<close>

definition in_window :: "int option \<Rightarrow> int option \<Rightarrow> date \<Rightarrow> bool" where
  "in_window start until t = ((case start of None \<Rightarrow> True | Some a \<Rightarrow> (case t of None \<Rightarrow> False | Some x \<Rightarrow> a \<le> x)) \<and>
     (case until of None \<Rightarrow> True | Some b \<Rightarrow> (case t of None \<Rightarrow> False | Some x \<Rightarrow> x \<le> b)))"

definition window_bound :: "config \<Rightarrow> string \<Rightarrow> py_exc + int" where
  "window_bound conf k = (if truthy (conf k) then py_int (conf k) else Inr 0)"

definition bound_date :: "int \<Rightarrow> int option" where
  "bound_date ts = (if ts = 0 then None else Some (ts * 1000000))"

record window =
  wd_start :: "int option"
  wd_end :: "int option"

definition inside_window :: "window \<Rightarrow> date \<Rightarrow> bool" where
  "inside_window w = in_window (wd_start w) (wd_end w)"

text \<open>Accounts that are neither banned nor hidden, and what they did in the window.\<close>

definition account_ids :: "db \<Rightarrow> config \<Rightarrow> int list" where
  "account_ids d conf = (if is_teams_mode conf then map te_id (filter (\<lambda>t. shown (te_hidden t) (te_banned t)) (teams d))
     else map us_id (filter (\<lambda>u. shown (us_hidden u) (us_banned u)) (users d)))"

definition active :: "db \<Rightarrow> config \<Rightarrow> int option \<Rightarrow> bool" where
  "active d conf a = (case a of None \<Rightarrow> False | Some i \<Rightarrow> i \<in> set (account_ids d conf))"

definition window_solves :: "db \<Rightarrow> config \<Rightarrow> window \<Rightarrow> int \<Rightarrow> submission list" where
  "window_solves d conf w i = filter (\<lambda>s. sub_challenge_id s = Some i \<and> active d conf (submission_account_id conf s) \<and> inside_window w (sub_date s)) (solves d)"

definition wrong_attempts_of :: "db \<Rightarrow> config \<Rightarrow> window \<Rightarrow> int \<Rightarrow> nat" where
  "wrong_attempts_of d conf w i = length (filter (\<lambda>s. sub_challenge_id s = Some i \<and> active d conf (submission_account_id conf s) \<and> inside_window w (sub_date s)) (fails d))"

definition window_attempts :: "db \<Rightarrow> config \<Rightarrow> window \<Rightarrow> int \<Rightarrow> submission list" where
  "window_attempts d conf w i = filter (\<lambda>s. sub_challenge_id s = Some i \<and> (sub_type s = Some ''correct'' \<or> sub_type s = Some ''incorrect'') \<and>
     active d conf (submission_account_id conf s) \<and> inside_window w (sub_date s)) (submissions d)"

definition hint_challenge :: "db \<Rightarrow> unlock \<Rightarrow> int option" where
  "hint_challenge d u = (case un_target u of None \<Rightarrow> None
     | Some t \<Rightarrow> (case first_where (\<lambda>h. hi_id h = t) (hints d) of None \<Rightarrow> None | Some h \<Rightarrow> hi_challenge_id h))"

definition window_unlocks :: "db \<Rightarrow> config \<Rightarrow> window \<Rightarrow> int \<Rightarrow> unlock list" where
  "window_unlocks d conf w i = filter (\<lambda>u. un_type u = Some ''hints'' \<and> hint_challenge d u = Some i \<and>
     active d conf (unlock_account_id conf u) \<and> inside_window w (un_date u)) (unlocks d)"

text \<open>The join of unlocks with the solves of the same account.\<close>

definition solver_unlocks :: "db \<Rightarrow> config \<Rightarrow> window \<Rightarrow> int \<Rightarrow> (unlock \<times> submission) list" where
  "solver_unlocks d conf w i = concat (map (\<lambda>u. map (Pair u)
     (filter (\<lambda>s. submission_account_id conf s = unlock_account_id conf u) (window_solves d conf w i))) (window_unlocks d conf w i))"

definition hint_total :: "db \<Rightarrow> int \<Rightarrow> nat" where
  "hint_total d i = length (filter (\<lambda>h. hi_challenge_id h = Some i) (hints d))"

definition least :: "int list \<Rightarrow> int option" where
  "least xs = (case xs of [] \<Rightarrow> None | x # r \<Rightarrow> Some (foldl min x r))"

definition mean :: "rat list \<Rightarrow> rat option" where
  "mean xs = (if xs = [] then None else Some (sum_list xs / of_nat (length xs)))"

text \<open>The aggregates the query selects for a challenge.\<close>

record aggregates =
  ag_accounts :: nat
  ag_solves :: nat
  ag_mean :: "rat option"
  ag_wrong :: nat
  ag_total :: nat
  ag_attempters :: nat
  ag_hint_usage :: nat
  ag_hints :: nat
  ag_solver_usage :: nat
  ag_hinted_solvers :: nat
  ag_first :: "int option"

definition aggregates_of :: "(int \<Rightarrow> int \<Rightarrow> rat) \<Rightarrow> db \<Rightarrow> config \<Rightarrow> window \<Rightarrow> int \<Rightarrow> aggregates" where
  "aggregates_of seconds d conf w i = \<lparr>ag_accounts = length (account_ids d conf), ag_solves = length (window_solves d conf w i),
     ag_mean = (case wd_start w of None \<Rightarrow> None | Some a \<Rightarrow> mean (map (seconds a) (List.map_filter sub_date (window_solves d conf w i)))),
     ag_wrong = wrong_attempts_of d conf w i, ag_total = length (window_attempts d conf w i),
     ag_attempters = length (remdups (map (submission_account_id conf) (window_attempts d conf w i))),
     ag_hint_usage = length (window_unlocks d conf w i), ag_hints = hint_total d i,
     ag_solver_usage = length (solver_unlocks d conf w i),
     ag_hinted_solvers = length (remdups (map (\<lambda>p. unlock_account_id conf (fst p)) (solver_unlocks d conf w i))),
     ag_first = least (List.map_filter sub_date (window_solves d conf w i))\<rparr>"

definition ratio :: "nat \<Rightarrow> rat \<Rightarrow> nat \<Rightarrow> nat \<Rightarrow> rat option" where
  "ratio digits scale a b = (if 0 < b then Some (py_round digits (of_nat a / of_nat b * scale)) else None)"

text \<open>A whole number of seconds, truncated, not below zero.\<close>

definition first_seconds :: "window \<Rightarrow> int option \<Rightarrow> int option" where
  "first_seconds w t = (case (wd_start w, t) of (Some a, Some x) \<Rightarrow> Some (if x < a then 0 else (x - a) div 1000000) | _ \<Rightarrow> None)"

definition solve_rate :: "aggregates \<Rightarrow> rat" where
  "solve_rate a = (if 0 < ag_accounts a then of_nat (ag_solves a) / of_nat (ag_accounts a) else 0)"

definition difficulty_index :: "aggregates \<Rightarrow> int option \<Rightarrow> rat" where
  "difficulty_index a first =
     (if ag_attempters a = 0 then 0
      else if ag_solves a = 0 then 100
      else let hours = (case first of None \<Rightarrow> 0 | Some s \<Rightarrow> of_int s / 3600); solves = of_nat (ag_solves a) in
        py_round 1 (max 0 (min 100 ((1 - min (max (solve_rate a) 0) 1) * 55 + min 20 (of_nat (ag_wrong a) / solves * 6) +
          min 15 (of_nat (ag_solver_usage a) / solves * 10) + min 10 (hours * 5 / 4)))))"

definition hint_unlock_rate :: "aggregates \<Rightarrow> rat option" where
  "hint_unlock_rate a = (if 0 < ag_hints a \<and> 0 < ag_attempters a
     then Some (py_round 1 (min 100 (of_nat (ag_hint_usage a) / (of_nat (ag_hints a) * of_nat (ag_attempters a)) * 100))) else None)"

definition cap_pressure :: "aggregates \<Rightarrow> int \<Rightarrow> rat option" where
  "cap_pressure a max_attempts = (if 0 < max_attempts \<and> 0 < ag_attempters a
     then Some (py_round 1 (min 100 (of_nat (ag_total a) / (of_nat (ag_attempters a) * of_int max_attempts) * 100))) else None)"

record analytics =
  an_id :: int
  an_name :: "string option"
  an_category :: string
  an_max_attempts :: int
  an_aggregates :: aggregates
  an_solve_rate :: rat
  an_attempts_per_attempter :: "rat option"
  an_unsolved_pct :: "rat option"
  an_wrong_per_solve :: "rat option"
  an_hint_unlock_rate :: "rat option"
  an_hinted_solvers_pct :: "rat option"
  an_hints_per_solve :: "rat option"
  an_first_seconds :: "int option"
  an_difficulty :: rat
  an_cap_pressure :: "rat option"

definition category_name :: "string option \<Rightarrow> string" where
  "category_name c = (case c of None \<Rightarrow> ''Uncategorized'' | Some s \<Rightarrow> if s = [] then ''Uncategorized'' else s)"

definition analytics_of :: "(int \<Rightarrow> int \<Rightarrow> rat) \<Rightarrow> db \<Rightarrow> config \<Rightarrow> window \<Rightarrow> challenge \<Rightarrow> analytics" where
  "analytics_of seconds d conf w c = (let a = aggregates_of seconds d conf w (ch_id c);
       m = (case ch_max_attempts c of None \<Rightarrow> 0 | Some n \<Rightarrow> n); f = first_seconds w (ag_first a) in
     \<lparr>an_id = ch_id c, an_name = ch_name c, an_category = category_name (ch_category c), an_max_attempts = m, an_aggregates = a,
      an_solve_rate = solve_rate a, an_attempts_per_attempter = ratio 2 1 (ag_total a) (ag_attempters a),
      an_unsolved_pct = ratio 1 100 (ag_attempters a - ag_solves a) (ag_attempters a),
      an_wrong_per_solve = ratio 2 1 (ag_wrong a) (ag_solves a), an_hint_unlock_rate = hint_unlock_rate a,
      an_hinted_solvers_pct = ratio 1 100 (ag_hinted_solvers a) (ag_solves a),
      an_hints_per_solve = ratio 2 1 (ag_solver_usage a) (ag_solves a), an_first_seconds = f,
      an_difficulty = difficulty_index a f, an_cap_pressure = cap_pressure a m\<rparr>)"

text \<open>
  Solves by category: a dictionary that starts with every open category at zero; a category that
  is null, empty or already called so is \<open>Uncategorized\<close>, and the later count replaces the earlier one.
\<close>

definition category_counts :: "db \<Rightarrow> config \<Rightarrow> window \<Rightarrow> (string option \<times> nat) list" where
  "category_counts d conf w = (let cs = filter open_challenge (challenges d) in
     filter (\<lambda>p. 0 < snd p) (map (\<lambda>k. (k, sum_list (map (\<lambda>c. length (window_solves d conf w (ch_id c))) (filter (\<lambda>c. ch_category c = k) cs))))
       (remdups (map ch_category cs))))"

definition category_data :: "db \<Rightarrow> config \<Rightarrow> window \<Rightarrow> (string \<times> nat) list" where
  "category_data d conf w = fold (\<lambda>(k, n). put (category_name k) n) (category_counts d conf w)
     (fold (\<lambda>k. put (category_name k) 0) (remdups (map ch_category (filter open_challenge (challenges d)))) [])"

text \<open>\<open>max(d, key=d.get)\<close> and \<open>min(d, key=d.get)\<close>: the first key that attains it.\<close>

definition most_of :: "(string \<times> nat) list \<Rightarrow> (string \<times> nat) option" where
  "most_of ps = (case ps of [] \<Rightarrow> None | p # r \<Rightarrow> Some (foldl (\<lambda>b q. if snd b < snd q then q else b) p r))"

definition least_of :: "(string \<times> nat) list \<Rightarrow> (string \<times> nat) option" where
  "least_of ps = (case ps of [] \<Rightarrow> None | p # r \<Rightarrow> Some (foldl (\<lambda>b q. if snd q < snd b then q else b) p r))"

record analytics_page =
  ap_accounts :: nat
  ap_start :: int
  ap_end :: int
  ap_challenges :: "analytics list"
  ap_categories :: "(string \<times> nat) list"
  ap_most :: "(string \<times> nat) option"
  ap_least :: "(string \<times> nat) option"

definition analytics_page_of :: "(int \<Rightarrow> int \<Rightarrow> rat) \<Rightarrow> (challenge list \<Rightarrow> challenge list) \<Rightarrow> config \<Rightarrow> db \<Rightarrow> py_exc + analytics_page" where
  "analytics_page_of seconds ordered conf d =
     bindE (window_bound conf ''start'') (\<lambda>a. bindE (window_bound conf ''end'') (\<lambda>b.
     with_model conf (let w = \<lparr>wd_start = bound_date a, wd_end = bound_date b\<rparr>; cats = category_data d conf w in
       Inr \<lparr>ap_accounts = length (account_ids d conf), ap_start = a, ap_end = b,
         ap_challenges = map (analytics_of seconds d conf w) (ordered (filter open_challenge (challenges d))),
         ap_categories = cats, ap_most = most_of cats, ap_least = least_of cats\<rparr>)))"

definition challenge_analytics where
  "challenge_analytics seconds ordered c = admin_or_challenge_writer_only_or_jury c
     (bindE (analytics_page_of seconds ordered (cx_conf c) (cx_db c)) (\<lambda>p. Inr (Body p)))"

section \<open>Solvers are counted once\<close>

lemma solver_accounts:
  assumes "scoring_ok d" "distinct (map sub_id ss)" "set ss \<subseteq> {s \<in> set (solves d). sub_challenge_id s = Some i \<and> submission_account_id conf s \<noteq> None}"
  shows "distinct (map (submission_account_id conf) ss)"
proof -
  have "inj_on (submission_account_id conf) (set ss)"
  proof (rule inj_onI)
    fix x y assume xy: "x \<in> set ss" "y \<in> set ss" "submission_account_id conf x = submission_account_id conf y"
    from xy(1) assms(3) obtain a where a: "submission_account_id conf x = Some a" by auto
    have "sub_user_id x = Some a \<and> sub_user_id y = Some a \<or> sub_team_id x = Some a \<and> sub_team_id y = Some a"
      using a xy(3) by (auto simp: submission_account_id_def by_mode_def split: if_splits)
    with solves_unique[OF assms(1), of x y i a] xy assms(3) show "x = y" by auto
  qed
  moreover have "distinct ss" using assms(2) by (simp add: distinct_map)
  ultimately show ?thesis by (simp add: distinct_map)
qed

lemma solves_distinct: "distinct (map sub_id (submissions d)) \<Longrightarrow> distinct (map sub_id (filter P (solves d)))"
proof -
  have "map sub_id (List.map_filter (solve_of d) xs) = map sub_id (filter (\<lambda>s. solve_of d s \<noteq> None) xs)" for xs
    by (induction xs) (auto simp: List.map_filter_simps solve_of_def with_child_def split: option.split)
  then have "map sub_id (solves d) = map sub_id (filter (\<lambda>s. solve_of d s \<noteq> None) (submissions d))"
    unfolding solves_def .
  moreover assume "distinct (map sub_id (submissions d))"
  ultimately show ?thesis by (simp add: distinct_map_filter)
qed

lemma counted_solve_account:
  assumes "counted_solve d conf s" "is_users_mode conf \<or> is_teams_mode conf" shows "submission_account_id conf s \<noteq> None"
  using assms by (auto simp: counted_solve_def submission_account_id_def by_mode_def split: if_splits)

section \<open>Statistics of solves\<close>

lemma split_by_solved: "A \<inter> f ` C \<union> f ` {c \<in> C. P c \<and> f c \<notin> A \<inter> f ` C} = {f c | c. c \<in> C \<and> (P c \<or> f c \<in> A)}"
  by auto

text \<open>
  Also proved: the statistics name each challenge at most once, and they name exactly the challenges that
  are open or have been solved, with the number of solves of accounts in good standing.
\<close>

theorem solve_statistics_complete:
  assumes "distinct (map ch_id (challenges d))"
  shows "distinct (map ss_id (solve_statistics d conf)) \<and>
    ss_id ` set (solve_statistics d conf) = {ch_id c | c. c \<in> set (challenges d) \<and> (open_challenge c \<or> 0 < solve_total d conf (ch_id c))} \<and>
    list_all (\<lambda>r. ss_solves r = solve_total d conf (ss_id r)) (solve_statistics d conf)"
proof -
  let ?ids = "List.map_filter sub_challenge_id (counted_solves d conf)"
  let ?solved = "filter (\<lambda>i. challenge_by_id d i \<noteq> None) (remdups ?ids)"
  have total: "0 < solve_total d conf i \<longleftrightarrow> i \<in> set ?ids" for i
    by (auto simp: solve_total_def set_map_filter filter_empty_conv)
  have known: "challenge_by_id d i \<noteq> None \<longleftrightarrow> i \<in> ch_id ` set (challenges d)" for i
    by (auto simp: challenge_by_id_def first_where_None)
  have "distinct (map ch_id (filter (\<lambda>c. ch_id c \<notin> set ?solved) (sort_key (\<lambda>c. date_key (ch_value c)) (filter open_challenge (challenges d)))))"
    using assms by (simp add: distinct_map_filter distinct_map inj_on_def)
  then have "distinct (map ss_id (solve_statistics d conf))"
    by (auto simp: solve_statistics_def Let_def comp_def)
  moreover have "ss_id ` set (solve_statistics d conf) = {ch_id c | c. c \<in> set (challenges d) \<and> (open_challenge c \<or> 0 < solve_total d conf (ch_id c))}"
  proof -
    have s: "set ?solved = set ?ids \<inter> ch_id ` set (challenges d)" using known by auto
    have "ss_id ` set (solve_statistics d conf) = set ?solved \<union> ch_id ` {c \<in> set (challenges d). open_challenge c \<and> ch_id c \<notin> set ?solved}"
      unfolding solve_statistics_def Let_def set_append image_Un set_map image_image by simp
    then show ?thesis unfolding s total by (simp only: split_by_solved)
  qed
  moreover have "list_all (\<lambda>r. ss_solves r = solve_total d conf (ss_id r)) (solve_statistics d conf)"
    using known total by (fastforce simp: solve_statistics_def Let_def list_all_iff)
  ultimately show ?thesis by blast
qed

text \<open>
  Also proved: as long as nobody has solved a challenge twice, the share of accounts that solved a
  challenge is between none and all of them; the list is in falling order and has every challenge once.
\<close>

theorem percentages_bounded:
  assumes "scoring_ok d" "is_users_mode conf \<or> is_teams_mode conf"
  shows "list_all (\<lambda>p. 0 \<le> pc_percentage p \<and> pc_percentage p \<le> 1) (solve_percentages d conf) \<and>
    sorted (map (\<lambda>p. - pc_percentage p) (solve_percentages d conf)) \<and>
    mset (map pc_id (solve_percentages d conf)) = mset (map ch_id (challenges d))"
proof -
  have "solve_total d conf i \<le> accounts_with_points d conf" for i
  proof -
    let ?ss = "filter (\<lambda>s. sub_challenge_id s = Some i) (counted_solves d conf)"
    have ids: "distinct (map sub_id (submissions d))" using assms(1) by (simp add: scoring_ok_def)
    have f: "?ss = filter (\<lambda>s. counted_solve d conf s \<and> sub_challenge_id s = Some i) (solves d)" by (simp add: counted_solves_def conj_commute)
    have "distinct (map (submission_account_id conf) ?ss)"
      by (rule solver_accounts[OF assms(1)]) (use solves_distinct[OF ids] counted_solve_account[OF _ assms(2)] in \<open>auto simp: f counted_solves_def\<close>)
    then have "solve_total d conf i = card (set (map (submission_account_id conf) ?ss))"
      using distinct_card by (fastforce simp: solve_total_def)
    also have "\<dots> \<le> card (set (map (submission_account_id conf) (counted_solves d conf)))" by (rule card_mono) auto
    finally show ?thesis by (simp add: accounts_with_points_def length_remdups_card_conv)
  qed
  then have "0 \<le> pc_percentage (percentage_of d conf c) \<and> pc_percentage (percentage_of d conf c) \<le> 1" for c
    by (simp add: percentage_of_def divide_le_eq)
  moreover have "pc_id (percentage_of d conf c) = ch_id c" for c by (simp add: percentage_of_def)
  ultimately show ?thesis by (simp add: solve_percentages_def list_all_iff multiset.map_comp comp_def)
qed

section \<open>The distribution\<close>

lemma bump_total: "distinct (map fst bs) \<Longrightarrow> sum_list (map snd (bump k bs)) = Suc (sum_list (map snd bs)) \<and> distinct (map fst (bump k bs))"
proof (induction bs)
  case (Cons p bs)
  have "map_of bs k = None" if "fst p = k" using Cons.prems that by (auto simp: map_of_eq_None_iff)
  with Cons show ?case
    by (cases p) (auto simp: bump_def put_def dom_update split: option.splits if_splits dest: map_of_SomeD)
qed (simp add: bump_def put_def)

text \<open>Also proved: every account of the scoreboard is counted in exactly one bracket.\<close>

theorem distribution_total: "sum_list (map snd (ds_brackets (distribute width scores))) = length scores"
proof -
  have "distinct (map fst (ds_brackets (foldl (place_score width) st scores))) \<and>
      sum_list (map snd (ds_brackets (foldl (place_score width) st scores))) = sum_list (map snd (ds_brackets st)) + length scores"
    if "distinct (map fst (ds_brackets st))" for st
    using that
  proof (induction scores arbitrary: st)
    case (Cons x xs)
    have p: "distinct (map fst (ds_brackets (place_score width st x))) \<and>
        sum_list (map snd (ds_brackets (place_score width st x))) = Suc (sum_list (map snd (ds_brackets st)))"
      using bump_total[OF Cons.prems] by (simp add: place_score_def Let_def)
    from Cons.IH[OF conjunct1[OF p]] p show ?case by simp
  qed simp
  from this[of "\<lparr>ds_bottom = 0, ds_top = width, ds_count = 1, ds_brackets = []\<rparr>"] show ?thesis
    by (simp add: distribute_def)
qed

text \<open>A score lands in the next bracket even when that one ends below it.\<close>

lemma distribution_misplaces: "ds_brackets (distribute 10 [95]) = [(20, 1)]"
  by code_simp

section \<open>Rounding\<close>

lemma round_even_ge: "of_int a \<le> x \<Longrightarrow> a \<le> round_even x"
  unfolding round_even_def Let_def using le_floor_iff[of a x] by auto

lemma round_even_le: "x \<le> of_int b \<Longrightarrow> round_even x \<le> b"
proof -
  assume x: "x \<le> of_int b"
  then have f: "\<lfloor>x\<rfloor> \<le> b" by linarith
  show ?thesis
  proof (cases "\<lfloor>x\<rfloor> = b")
    case True
    then have "x = of_int b" using x of_int_floor_le[of x] by simp
    then show ?thesis by (simp add: round_even_def Let_def)
  next
    case False
    with f show ?thesis by (auto simp: round_even_def Let_def)
  qed
qed

lemma py_round_between: "0 \<le> x \<Longrightarrow> x \<le> 100 \<Longrightarrow> 0 \<le> py_round n x \<and> py_round n x \<le> 100"
proof -
  assume x: "0 \<le> x" "x \<le> 100"
  have "0 \<le> round_even (x * 10 ^ n)" by (rule round_even_ge) (use x in simp)
  moreover have "round_even (x * 10 ^ n) \<le> 100 * 10 ^ n" by (rule round_even_le) (use x in simp)
  ultimately have "0 \<le> (of_int (round_even (x * 10 ^ n)) :: rat)" "of_int (round_even (x * 10 ^ n)) \<le> (of_int (100 * 10 ^ n) :: rat)"
    by (simp_all only: of_int_le_iff of_int_0_le_iff)
  then show ?thesis by (simp add: py_round_def divide_le_eq)
qed

section \<open>Analytics in range\<close>

definition percent :: "rat option \<Rightarrow> bool" where
  "percent x = (case x of None \<Rightarrow> True | Some q \<Rightarrow> 0 \<le> q \<and> q \<le> 100)"

lemma ratio_percent: "a \<le> b \<Longrightarrow> percent (ratio 1 100 a b)"
  by (auto simp: ratio_def percent_def divide_le_eq intro!: py_round_between)

lemma active_account: "active d conf a \<Longrightarrow> a \<in> Some ` set (account_ids d conf)"
  by (auto simp: active_def split: option.splits)

lemma window_solvers:
  assumes "scoring_ok d"
  shows "length (window_solves d conf w i) \<le> length (account_ids d conf)"
proof -
  have ids: "distinct (map sub_id (submissions d))" using assms by (simp add: scoring_ok_def)
  have "distinct (map (submission_account_id conf) (window_solves d conf w i))"
    by (rule solver_accounts[OF assms]) (use solves_distinct[OF ids] in \<open>auto simp: window_solves_def active_def split: option.splits\<close>)
  then have "length (window_solves d conf w i) = card (set (map (submission_account_id conf) (window_solves d conf w i)))"
    using distinct_card by fastforce
  also have "\<dots> \<le> card (Some ` set (account_ids d conf))"
    by (rule card_mono) (auto simp: window_solves_def dest: active_account)
  also have "\<dots> \<le> length (account_ids d conf)" by (simp add: card_image card_length)
  finally show ?thesis .
qed

lemma hinted_solvers_le:
  "length (remdups (map (\<lambda>p. unlock_account_id conf (fst p)) (solver_unlocks d conf w i))) \<le> length (window_solves d conf w i)"
proof -
  have "set (map (\<lambda>p. unlock_account_id conf (fst p)) (solver_unlocks d conf w i)) \<subseteq> set (map (submission_account_id conf) (window_solves d conf w i))"
    by (auto simp: solver_unlocks_def image_iff) metis
  then have "card (set (map (\<lambda>p. unlock_account_id conf (fst p)) (solver_unlocks d conf w i))) \<le> card (set (map (submission_account_id conf) (window_solves d conf w i)))"
    by (intro card_mono) auto
  also have "\<dots> \<le> length (window_solves d conf w i)" by (metis card_length length_map)
  finally show ?thesis by (simp add: length_remdups_card_conv)
qed

lemma difficulty_between: "0 \<le> difficulty_index a f \<and> difficulty_index a f \<le> 100"
  by (auto simp: difficulty_index_def Let_def intro!: py_round_between)

lemma rates_percent: "percent (hint_unlock_rate a)" "percent (cap_pressure a m)"
  by (auto simp: hint_unlock_rate_def cap_pressure_def percent_def intro!: py_round_between)

text \<open>
  Property C40: as long as nobody has solved a challenge twice, every figure of the analytics is in
  its range: the index of difficulty and all percentages between 0 and 100, the rate of solves
  between 0 and 1, and no more solvers have used hints than have solved.
\<close>

theorem analytics_in_range:
  assumes "analytics_page_of seconds ordered conf d = Inr p" "scoring_ok d"
  shows "list_all (\<lambda>r. 0 \<le> an_difficulty r \<and> an_difficulty r \<le> 100 \<and> 0 \<le> an_solve_rate r \<and> an_solve_rate r \<le> 1 \<and>
    percent (an_unsolved_pct r) \<and> percent (an_hinted_solvers_pct r) \<and> percent (an_hint_unlock_rate r) \<and> percent (an_cap_pressure r) \<and>
    ag_hinted_solvers (an_aggregates r) \<le> ag_solves (an_aggregates r)) (ap_challenges p)"
proof -
  have "\<exists>w. ap_challenges p = map (analytics_of seconds d conf w) (ordered (filter open_challenge (challenges d)))"
    using assms(1) by (auto simp: analytics_page_of_def bindE_Inr_iff with_model_def Let_def split: if_splits)
  then obtain w where w: "ap_challenges p = map (analytics_of seconds d conf w) (ordered (filter open_challenge (challenges d)))" ..
  have "0 \<le> solve_rate (aggregates_of seconds d conf w i) \<and> solve_rate (aggregates_of seconds d conf w i) \<le> 1" for i
    using window_solvers[OF assms(2), of conf w i] by (simp add: solve_rate_def aggregates_of_def divide_le_eq)
  moreover have "percent (ratio 1 100 (x - y) x)" for x y by (rule ratio_percent) simp
  moreover have "percent (ratio 1 100 (ag_hinted_solvers (aggregates_of seconds d conf w i)) (ag_solves (aggregates_of seconds d conf w i)))" for i
    by (rule ratio_percent) (simp add: aggregates_of_def hinted_solvers_le)
  ultimately show ?thesis
    by (simp add: w list_all_iff analytics_of_def Let_def difficulty_between rates_percent) (simp add: aggregates_of_def hinted_solvers_le)
qed

text \<open>Of two solves of challenges without a category, by null and by the empty name, one is counted.\<close>

definition nameless_db :: db where
  "nameless_db = board_db\<lparr>
     challenges := [(sample_challenge 3 (Some 100))\<lparr>ch_category := None\<rparr>, (sample_challenge 4 (Some 50))\<lparr>ch_category := Some []\<rparr>],
     submissions := submissions board_db @ [\<lparr>sub_id = 2, sub_challenge_id = Some 4, sub_user_id = Some 2, sub_team_id = Some 7,
       sub_ip = None, sub_provided = None, sub_type = Some ''correct'', sub_date = Some 6\<rparr>],
     solve_rows := solve_rows board_db @ [\<lparr>sv_id = 2, sv_challenge_id = Some 4, sv_user_id = Some 2, sv_team_id = Some 7\<rparr>]\<rparr>"

lemma categories_overwritten:
  "category_data nameless_db (mode_conf ''users'') \<lparr>wd_start = None, wd_end = None\<rparr> = [(''Uncategorized'', 1)]"
  by code_simp

section \<open>Witnesses\<close>

lemma board_scoring_ok [simp]: "scoring_ok board_db" by code_simp

theorem solve_statistics_complete_witness:
  "map ss_id (solve_statistics board_db (mode_conf ''users'')) = [3] \<and> map ss_solves (solve_statistics board_db (mode_conf ''users'')) = [1]"
proof -
  let ?s = "solve_statistics board_db (mode_conf ''users'')"
  have ids: "distinct (map ch_id (challenges board_db))" by code_simp
  have s: "ss_id ` set ?s = {3}" "length ?s = 1" "solve_total board_db (mode_conf ''users'') 3 = 1"
  proof -
    have all: "{ch_id c | c. c \<in> set (challenges board_db) \<and> (open_challenge c \<or> 0 < solve_total board_db (mode_conf ''users'') (ch_id c))} = {3}"
      by (auto simp: board_db_def sample_challenge_def open_challenge_def)
    show "ss_id ` set ?s = {3}" using solve_statistics_complete[OF ids, of "mode_conf ''users''"] all by simp
    show "length ?s = 1" "solve_total board_db (mode_conf ''users'') 3 = 1" by code_simp+
  qed
  then obtain r where "?s = [r]" by (cases ?s) auto
  with s show ?thesis using solve_statistics_complete[OF ids, of "mode_conf ''users''"] by simp
qed

theorem percentages_bounded_witness:
  "0 < length (solve_percentages board_db (mode_conf ''users'')) \<and> pc_percentage (hd (solve_percentages board_db (mode_conf ''users''))) \<le> 1"
proof -
  have "length (solve_percentages board_db (mode_conf ''users'')) = 1" by code_simp
  then obtain r where "solve_percentages board_db (mode_conf ''users'') = [r]" by (metis length_0_conv length_Suc_conv One_nat_def)
  then show ?thesis using percentages_bounded[OF board_scoring_ok, of "mode_conf ''users''"] by simp
qed

lemma board_page: "map_option (\<lambda>r. (an_id r, an_solve_rate r)) (case analytics_page_of (\<lambda>a b. of_int (b - a) / 1000000) id (mode_conf ''users'') board_db of Inr p \<Rightarrow> Some (hd (ap_challenges p)) | _ \<Rightarrow> None) = Some (3, 1 / 2)"
  by code_simp

theorem analytics_in_range_witness:
  "an_difficulty (hd (ap_challenges (projr (analytics_page_of (\<lambda>a b. of_int (b - a) / 1000000) id (mode_conf ''users'') board_db)))) \<le> 100"
proof -
  obtain p where p: "analytics_page_of (\<lambda>a b. of_int (b - a) / 1000000) id (mode_conf ''users'') board_db = Inr p"
    using board_page by (auto split: sum.splits)
  have "length (ap_challenges (projr (analytics_page_of (\<lambda>a b. of_int (b - a) / 1000000) id (mode_conf ''users'') board_db))) = 1" by code_simp
  then obtain r where "ap_challenges p = [r]" using p by (auto simp: length_Suc_conv)
  then show ?thesis using analytics_in_range[OF p board_scoring_ok] p by simp
qed

end
