(* ===== verification/Deployment.thy ===== *)
theory Deployment imports Challenges ChallengeEdit Poller "HOL-Library.Multiset" "HOL-Library.Char_ord" "HOL-Library.List_Lexorder" begin

text \<open>
  The connection to the deployment service: signatures, requests and their answers of
  \<^verbatim>\<open>utils/connector/multiservice_connector.py\<close>, the upload of a deployable challenge with its
  version history (\<^verbatim>\<open>plugins/upload_zip_files/routes.py\<close>, the deployment part of
  \<^verbatim>\<open>api/v1/files.py\<close>) and the status report of the service.  MD5, the HTTP client, the
  unpacking of archives and the parser of dates are parameters.
\<close>

section \<open>Signed requests\<close>

record service =
  ds_md5 :: "string \<Rightarrow> string"
  ds_repr :: "pyval \<Rightarrow> string"
  ds_private_key :: string
  ds_api :: string
  ds_mount :: string
  ds_image_repo :: string
  ds_docker_username :: string

text \<open>\<open>str(v)\<close>; the text of floats and containers is a parameter.\<close>

definition py_str :: "service \<Rightarrow> pyval \<Rightarrow> string" where
  "py_str sv v = (case v of PStr s \<Rightarrow> s | PInt i \<Rightarrow> show_int i | PBool b \<Rightarrow> if b then ''True'' else ''False''
     | PNone \<Rightarrow> ''None'' | _ \<Rightarrow> ds_repr sv v)"

text \<open>The values are appended in the order of their keys, without anything between them.\<close>

definition signing_text :: "service \<Rightarrow> string \<Rightarrow> dict \<Rightarrow> string" where
  "signing_text sv unix data =
     unix @ ds_private_key sv @ concat (map (\<lambda>p. py_str sv (snd p)) (sort_key fst data))"

definition create_secret_key :: "service \<Rightarrow> string \<Rightarrow> dict \<Rightarrow> string" where
  "create_secret_key sv unix data = ds_md5 sv (signing_text sv unix data)"

record out_request =
  or_url :: string
  or_secret :: string
  or_payload :: dict

text \<open>What a request comes to: no connection, or a status with a body that is JSON or not.\<close>

datatype http_answer = Unreachable string | Answered nat "string + pyval"

type_synonym poster = "out_request \<Rightarrow> http_answer"

definition service_request :: "service \<Rightarrow> int \<Rightarrow> string \<Rightarrow> dict \<Rightarrow> out_request" where
  "service_request sv now path data = \<lparr>or_url = ds_api sv @ path, or_secret = create_secret_key sv (show_int now) data,
     or_payload = data @ [(''unixTime'', PStr (show_int now))]\<rparr>"

definition instance_data :: "pyval \<Rightarrow> pyval \<Rightarrow> pyval \<Rightarrow> dict" where
  "instance_data cid tid uid = [(''challengeId'', cid), (''teamId'', tid), (''userId'', uid)]"

definition prepare_start_challenge_payload :: "service \<Rightarrow> int \<Rightarrow> challenge \<Rightarrow> int \<Rightarrow> int option \<Rightarrow> out_request" where
  "prepare_start_challenge_payload sv now ch uid tid =
     service_request sv now ''/api/challenge/start'' (instance_data (PInt (ch_id ch)) (of_opt_int tid) (PInt uid))"

definition prepare_up_challenge_payload :: "service \<Rightarrow> int \<Rightarrow> int \<Rightarrow> string \<Rightarrow> string \<Rightarrow> out_request" where
  "prepare_up_challenge_payload sv now cid path tag = service_request sv now ''/api/challenge/upload''
     [(''challengeId'', PInt cid), (''challengePath'', PStr path), (''imageTag'', PStr tag)]"

definition stop_request :: "service \<Rightarrow> int \<Rightarrow> pyval \<Rightarrow> pyval \<Rightarrow> int \<Rightarrow> out_request" where
  "stop_request sv now cid tid uid = service_request sv now ''/api/challenge/stop'' (instance_data cid tid (PInt uid))"

definition stop_all_request :: "service \<Rightarrow> int \<Rightarrow> int \<Rightarrow> out_request" where
  "stop_all_request sv now uid =
     service_request sv now ''/api/challenge/stop-all'' (instance_data (PInt 0) (PInt (-1)) (PInt uid))"

definition workflow_status_request :: "service \<Rightarrow> int \<Rightarrow> pyval \<Rightarrow> out_request" where
  "workflow_status_request sv now workflow =
     service_request sv now ''/api/challenge/workflow-status'' [(''workflowName'', workflow)]"

definition workflow_logs_request :: "service \<Rightarrow> int \<Rightarrow> int \<Rightarrow> string \<Rightarrow> int \<Rightarrow> out_request" where
  "workflow_logs_request sv now cid workflow uid =
     service_request sv now (''/api/challenge/deployment-logs/'' @ workflow) (instance_data (PInt cid) (PInt (-1)) (PInt uid))"

definition team_data :: "pyval \<Rightarrow> int option \<Rightarrow> dict" where
  "team_data cid tid = [(''challengeId'', cid), (''teamId'', PInt (case tid of None \<Rightarrow> -1 | Some t \<Rightarrow> t))]"

definition pod_logs_request :: "service \<Rightarrow> int \<Rightarrow> int \<Rightarrow> int option \<Rightarrow> out_request" where
  "pod_logs_request sv now cid tid = service_request sv now ''/api/challenge/pod-logs'' (team_data (PInt cid) tid)"

definition request_logs_request :: "service \<Rightarrow> int \<Rightarrow> int \<Rightarrow> int option \<Rightarrow> string option \<Rightarrow> out_request" where
  "request_logs_request sv now cid tid ns =
     (let extra = (case ns of None \<Rightarrow> [] | Some n \<Rightarrow> if n = [] then [] else [(''ns'', PStr n)]) in
      \<lparr>or_url = ds_api sv @ ''/api/challenge/request-logs'',
       or_secret = create_secret_key sv (show_int now) (team_data (PInt cid) tid @ extra),
       or_payload = team_data (PInt cid) tid @ [(''unixTime'', PStr (show_int now))] @ extra\<rparr>)"

definition status_check_request :: "service \<Rightarrow> int \<Rightarrow> string \<Rightarrow> int \<Rightarrow> out_request" where
  "status_check_request sv now cid tid = service_request sv now ''/api/statuscheck/admin-start'' (team_data (PStr cid) (Some tid))"

section \<open>Answers\<close>

text \<open>
  \<open>force_stop\<close>, \<open>force_stop_all\<close> and \<open>get_workflow_logs\<close> turn every failure of the
  client, a body that is no JSON included, into a plain exception.
\<close>

definition answer_json :: "http_answer \<Rightarrow> py_exc + pyval" where
  "answer_json a = (case a of Answered _ (Inr v) \<Rightarrow> Inr v | Answered _ (Inl e) \<Rightarrow> Inl (RuntimeError e)
     | Unreachable e \<Rightarrow> Inl (RuntimeError e))"

text \<open>The logs of a pod or of the requests: a failed connection is shown as its message.\<close>

definition logs_of :: "http_answer \<Rightarrow> py_exc + pyval" where
  "logs_of a = (case a of
      Unreachable e \<Rightarrow> Inr (PStr e)
    | Answered _ (Inl e) \<Rightarrow> Inr (PStr e)
    | Answered status (Inr v) \<Rightarrow> bindE (object_of v) (\<lambda>d.
        if status \<noteq> 200 then Inr (dget_default d ''message'' (PStr []))
        else if truthy (dget d ''success'') \<and> has_key d ''data''
        then bindE (object_of (dget d ''data'')) (\<lambda>x. Inr (dget_default x ''logs'' (PStr [])))
        else Inr (dget_default d ''logs'' (PStr []))))"

definition start_challenge_status_checking :: "service \<Rightarrow> poster \<Rightarrow> int \<Rightarrow> string \<Rightarrow> int \<Rightarrow> nat \<times> pyval" where
  "start_challenge_status_checking sv post now cid tid = (case post (status_check_request sv now cid tid) of
      Answered status (Inr v) \<Rightarrow> if status \<noteq> 200 then (400, PBool False) else (200, v)
    | _ \<Rightarrow> (400, PBool False))"

text \<open>Phase, start (the present when none is given) and estimate of a workflow; any failure is \<open>None\<close>.\<close>

definition get_workflow_status ::
  "service \<Rightarrow> poster \<Rightarrow> (string \<Rightarrow> rat option) \<Rightarrow> rat \<Rightarrow> pyval \<Rightarrow> (pyval \<times> rat option \<times> int) option" where
  "get_workflow_status sv post parse now workflow = (case post (workflow_status_request sv \<lfloor>now\<rfloor> workflow) of
      Answered status (Inr v) \<Rightarrow> if status \<noteq> 200 then None else
        (case bindE (object_of v) (\<lambda>d. bindE (object_of (dget_default d ''data'' (PDict []))) (\<lambda>s.
            bindE (py_int (dget_default s ''estimatedDuration'' (PInt 90))) (\<lambda>estimate.
            Inr (dget_default s ''phase'' (PStr ''Running''),
              (let t = dget s ''startedAt'' in if \<not> truthy t then Some now else case t of PStr x \<Rightarrow> parse x | _ \<Rightarrow> None),
              estimate)))) of
          Inl e \<Rightarrow> None | Inr w \<Rightarrow> Some w)
    | _ \<Rightarrow> None)"

section \<open>Keys of running instances\<close>

definition instance_prefix :: "string \<Rightarrow> string" where
  "instance_prefix cid = ''deploy_challenge_'' @ cid @ ''_''"

definition generate_cache_key :: "string \<Rightarrow> string \<Rightarrow> string" where
  "generate_cache_key cid tid = instance_prefix cid @ tid"

definition get_workflow_key :: "int \<Rightarrow> string" where
  "get_workflow_key cid = ''challenge_up_workflow_'' @ show_int cid"

definition get_team_id_and_cache_key :: "service \<Rightarrow> user \<Rightarrow> int \<Rightarrow> int option \<times> string" where
  "get_team_id_and_cache_key sv u cid = (let tid = (if us_type u \<noteq> Some ''user'' then Some (-1) else us_team_id u) in
     (tid, generate_cache_key (show_int cid) (py_str sv (of_opt_int tid))))"

type_synonym store = "(string \<times> string) list"

text \<open>Every key that begins with the prefix of the challenge, whose id comes as text.\<close>

definition delete_cached_files :: "string \<Rightarrow> store \<Rightarrow> store" where
  "delete_cached_files cid cache = filter (\<lambda>p. \<not> starts_with (instance_prefix cid) (fst p)) cache"

section \<open>Uploading a deployable challenge\<close>

record deploy_history =
  dh_id :: int
  dh_challenge_id :: int
  dh_log_content :: "string option"
  dh_deploy_status :: string
  dh_deploy_at :: date

record deploy_state =
  dp_db :: db
  dp_cache :: store
  dp_history :: "deploy_history list"

text \<open>
  The archive: whether it is one that can be read, and, for the folder it is copied to, the first
  directory with a Dockerfile.  Both may fail with an exception, the second before or after the folder
  had been copied.
\<close>

record archive =
  ar_check :: "py_exc + bool"
  ar_place :: "string \<Rightarrow> bool \<times> py_exc + string option"

definition basename :: "string \<Rightarrow> string" where
  "basename path = last (split_on (CHR ''/'') path)"

text \<open>\<open>os.path.splitext\<close>: the last dot counts only after a character that is no dot.\<close>

definition stem :: "string \<Rightarrow> string" where
  "stem name = (case split_on (CHR ''.'') name of [w] \<Rightarrow> name
     | ws \<Rightarrow> let root = join_with ''.'' (butlast ws) in if list_all (\<lambda>c. c = CHR ''.'') root then name else root)"

definition safe_folder :: "string \<Rightarrow> int \<Rightarrow> string" where
  "safe_folder path cid = map (\<lambda>c. if py_isalnum c \<or> c = CHR ''-'' \<or> c = CHR ''_'' then c else CHR ''_'')
     (stem (basename path) @ ''-'' @ show_int cid)"

definition path_join :: "string \<Rightarrow> string \<Rightarrow> string" where
  "path_join a b = (if a = [] \<or> last a = CHR ''/'' then a @ b else a @ ''/'' @ b)"

definition image_tag_of :: "int \<Rightarrow> string \<Rightarrow> int \<Rightarrow> string" where
  "image_tag_of cid folder now = ''challenge-'' @ show_int cid @ ''-'' @ py_lower folder @ ''-'' @ show_int now"

definition image_of :: "service \<Rightarrow> (dict \<Rightarrow> string) \<Rightarrow> string \<Rightarrow> string \<Rightarrow> string" where
  "image_of sv dumps tag port = dumps
     [(''imageLink'', PStr (ds_docker_username sv @ ''/'' @ ds_image_repo sv @ ''/'' @ tag @ '':latest'')), (''exposedPort'', PStr port)]"

definition next_version :: "int \<Rightarrow> version list \<Rightarrow> int" where
  "next_version cid vs = (case map ve_version_number (filter (\<lambda>v. ve_challenge_id v = cid) vs) of
      [] \<Rightarrow> 1 | n # ns \<Rightarrow> fold max ns n + 1)"

definition deactivate :: "int \<Rightarrow> version list \<Rightarrow> version list" where
  "deactivate cid vs = update_where (\<lambda>v. ve_challenge_id v = cid) (\<lambda>v. v\<lparr>ve_is_active := False\<rparr>) vs"

definition new_version :: "int \<Rightarrow> int option \<Rightarrow> string \<Rightarrow> challenge \<Rightarrow> version list \<Rightarrow> version" where
  "new_version now_us uid tag c vs = \<lparr>ve_id = fresh_id ve_id vs, ve_challenge_id = ch_id c, ve_version_number = next_version (ch_id c) vs,
     ve_image_link = ch_image_link c, ve_deploy_file = ch_deploy_file c, ve_cpu_limit = ch_cpu_limit c, ve_cpu_request = ch_cpu_request c,
     ve_memory_limit = ch_memory_limit c, ve_memory_request = ch_memory_request c, ve_use_gvisor = ch_use_gvisor c,
     ve_harden_container = ch_harden_container c, ve_max_deploy_count = ch_max_deploy_count c, ve_is_active = True,
     ve_created_by = uid, ve_created_at = Some now_us, ve_notes = Some (''Auto-created on deploy: '' @ tag)\<rparr>"

definition pending :: "string \<Rightarrow> string \<Rightarrow> challenge \<Rightarrow> challenge" where
  "pending link folder c = c\<lparr>ch_require_deploy := True, ch_deploy_status := Some ''PENDING_DEPLOY'', ch_state := ''hidden'',
     ch_image_link := Some link, ch_deploy_file := Some folder\<rparr>"

definition save_version :: "int \<Rightarrow> int option \<Rightarrow> string \<Rightarrow> challenge \<Rightarrow> db \<Rightarrow> db" where
  "save_version now_us uid tag c d = set_deploy (ch_id c) (\<lambda>_. c) (d\<lparr>versions :=
     deactivate (ch_id c) (versions d) @ [new_version now_us uid tag c (versions d)]\<rparr>)"

text \<open>\<open>place\<close> is the folder, when it had been copied before the crash.\<close>

definition upload_failed :: "string option \<Rightarrow> challenge \<Rightarrow> challenge" where
  "upload_failed place c = c\<lparr>ch_deploy_file := (if place = None then ch_deploy_file c else place), ch_deploy_status := Some ''FILE_UPLOAD_FAILED'', ch_state := ''hidden''\<rparr>"

text \<open>The name of the workflow in the service's answer, and what Redis stores of it.\<close>

definition workflow_of :: "service \<Rightarrow> pyval \<Rightarrow> py_exc + pyval \<times> string" where
  "workflow_of sv body = bindE (object_of body) (\<lambda>d. bindE (object_of (dget_default d ''metadata'' (PDict []))) (\<lambda>m.
     case dget m ''name'' of PStr s \<Rightarrow> Inr (PStr s, s) | PInt i \<Rightarrow> Inr (PInt i, show_int i) | PFloat q \<Rightarrow> Inr (PFloat q, py_str sv (PFloat q))
       | _ \<Rightarrow> Inl TypeError))"

datatype upload_reply = Uploaded pyval pyval "rat option" int | NotUploaded nat

definition start_build ::
  "service \<Rightarrow> (dict \<Rightarrow> string) \<Rightarrow> poster \<Rightarrow> (string \<Rightarrow> rat option) \<Rightarrow> rat \<Rightarrow> int option \<Rightarrow> challenge \<Rightarrow> string \<Rightarrow> string \<Rightarrow> string \<Rightarrow>
     deploy_state \<Rightarrow> upload_reply \<times> deploy_state" where
  "start_build sv dumps post parse now uid c folder docker port st =
     (let tag = image_tag_of (ch_id c) folder \<lfloor>now\<rfloor>;
          place = path_join (path_join (ds_mount sv) ''challenges'') folder in
      case post (prepare_up_challenge_payload sv \<lfloor>now\<rfloor> (ch_id c) docker tag) of
        Answered status (Inr body) \<Rightarrow>
          if status \<noteq> 200 then (NotUploaded 500, st) else
          (case workflow_of sv body of
            Inl e \<Rightarrow> (NotUploaded 500, st)
          | Inr (workflow, text) \<Rightarrow>
              let st' = st\<lparr>dp_cache := put (get_workflow_key (ch_id c)) text (dp_cache st)\<rparr> in
              (case get_workflow_status sv post parse now workflow of
                None \<Rightarrow> (NotUploaded 500, st')
              | Some (phase, started, estimate) \<Rightarrow>
                  if phase = PNone then (NotUploaded 500, st')
                  else (Uploaded workflow phase started estimate,
                    st'\<lparr>dp_db := save_version \<lfloor>now * 1000000\<rfloor> uid tag (pending (image_of sv dumps tag port) place c) (dp_db st')\<rparr>)))
      | _ \<Rightarrow> (NotUploaded 500, st))"

definition handle_challenge_upload ::
  "service \<Rightarrow> (dict \<Rightarrow> string) \<Rightarrow> poster \<Rightarrow> (string \<Rightarrow> rat option) \<Rightarrow> rat \<Rightarrow> int option \<Rightarrow> archive \<Rightarrow> challenge \<Rightarrow> string \<Rightarrow> string option \<Rightarrow>
     deploy_state \<Rightarrow> upload_reply \<times> deploy_state" where
  "handle_challenge_upload sv dumps post parse now uid ar c path port st =
     (let folder = safe_folder path (ch_id c);
          crash = (\<lambda>place. (NotUploaded 500, st\<lparr>dp_db := set_deploy (ch_id c) (\<lambda>_. upload_failed place c) (dp_db st)\<rparr>)) in
      case ar_check ar of
        Inl e \<Rightarrow> crash None
      | Inr readable \<Rightarrow> if \<not> readable then (NotUploaded 400, st) else
          (case ar_place ar folder of
            Inl (copied, e) \<Rightarrow> crash (if copied then Some (path_join (path_join (ds_mount sv) ''challenges'') folder) else None)
          | Inr None \<Rightarrow> (NotUploaded 400, st)
          | Inr (Some docker) \<Rightarrow> (case port of
                None \<Rightarrow> (NotUploaded 400, st)
              | Some p \<Rightarrow> if ch_deploy_status c = Some ''PENDING_DEPLOY'' then (NotUploaded 400, st)
                  else start_build sv dumps post parse now uid c folder docker p st)))"

definition allowed_file :: "string \<Rightarrow> bool" where
  "allowed_file name = (CHR ''.'' \<in> set name \<and> py_lower (last (split_on (CHR ''.'') name)) = ''zip'')"

definition upload_file ::
  "service \<Rightarrow> (dict \<Rightarrow> string) \<Rightarrow> poster \<Rightarrow> (string \<Rightarrow> rat option) \<Rightarrow> rat \<Rightarrow> int option \<Rightarrow> archive option \<Rightarrow> string \<Rightarrow> int \<Rightarrow> string \<Rightarrow>
     string option \<Rightarrow> deploy_state \<Rightarrow> py_exc + upload_reply \<times> deploy_state" where
  "upload_file sv dumps post parse now uid file raw_id cid path port st0 =
     (let st = st0\<lparr>dp_cache := delete_cached_files raw_id (dp_cache st0)\<rparr> in
      case file of None \<Rightarrow> Inr (NotUploaded 400, st)
      | Some ar \<Rightarrow> if allowed_file path \<and> ends_with ''.zip'' path
          then (case challenge_by_id (dp_db st) cid of
              None \<Rightarrow> Inl AttributeError
            | Some c \<Rightarrow> Inr (handle_challenge_upload sv dumps post parse now uid ar c path port st))
          else Inr (NotUploaded 400, st))"


text \<open>
  The request of the Deploy tab, without ordinary files: \<open>form\<close> are the form fields,
  \<open>deploy_file\<close> the name and the content of the file when the field is there at all.
\<close>

definition positive_port :: "string \<Rightarrow> bool" where
  "positive_port s = (s \<noteq> [] \<and> list_all dec_char s \<and> hd s \<noteq> CHR ''0'')"

definition valid_challenge_id :: "db \<Rightarrow> string option \<Rightarrow> bool" where
  "valid_challenge_id d v = (case v of None \<Rightarrow> False
     | Some s \<Rightarrow> s \<noteq> [] \<and> length s \<le> 10 \<and> py_isdecimal s \<and> 0 < digits_value s \<and> digits_value s \<le> 2147483647 \<and>
         challenge_by_id d (digits_value s) \<noteq> None)"

definition wants_deploy :: "(string \<Rightarrow> string option) \<Rightarrow> bool" where
  "wants_deploy form = (form ''require_deploy'' \<in> Some ` {''on'', ''true'', ''True'', ''1''})"

definition clear_deployment :: "challenge \<Rightarrow> challenge" where
  "clear_deployment c = c\<lparr>ch_image_link := None, ch_deploy_status := Some ''CREATED'', ch_require_deploy := False, ch_deploy_file := None\<rparr>"

definition deploy_file_ok :: "ext_config \<Rightarrow> string \<Rightarrow> bool" where
  "deploy_file_ok exts name = (let n = py_strip name in \<not> isl (validate_upload_filename exts (PStr n)) \<and> length n \<le> 40)"

definition deploy_post ::
  "service \<Rightarrow> (dict \<Rightarrow> string) \<Rightarrow> poster \<Rightarrow> (string \<Rightarrow> rat option) \<Rightarrow> (string \<Rightarrow> string) \<Rightarrow> ext_config \<Rightarrow> rat \<Rightarrow> int option \<Rightarrow>
     (string \<Rightarrow> string option) \<Rightarrow> (string \<times> archive option) option \<Rightarrow> deploy_state \<Rightarrow> py_exc + upload_reply option \<times> deploy_state" where
  "deploy_post sv dumps post parse secure exts now uid form deploy_file st =
     (let name = (case deploy_file of None \<Rightarrow> [] | Some (n, _) \<Rightarrow> n);
          kind = (case form ''type'' of None \<Rightarrow> ''standard'' | Some t \<Rightarrow> t);
          raw_id = form ''challenge_id''; port = form ''expose_port''; bad = Inr (Some (NotUploaded 400), st) in
      if kind \<notin> set FILE_TYPES then bad
      else if name \<noteq> [] \<and> \<not> deploy_file_ok exts name then bad
      else if (raw_id \<noteq> None \<or> name \<noteq> [] \<or> kind = ''challenge'') \<and> \<not> valid_challenge_id (dp_db st) raw_id then bad
      else if port \<noteq> None \<and> port \<noteq> Some [] \<and> \<not> positive_port (the port) \<and> wants_deploy form then bad
      else if deploy_file \<noteq> None \<and> \<not> wants_deploy form
      then (case (case raw_id of None \<Rightarrow> None | Some s \<Rightarrow> challenge_by_id (dp_db st) (digits_value s)) of
          None \<Rightarrow> Inr (Some (NotUploaded 404), st)
        | Some c \<Rightarrow> Inr (None, st\<lparr>dp_db := set_deploy (ch_id c) clear_deployment (dp_db st)\<rparr>))
      else if name \<noteq> [] \<and> wants_deploy form
      then bindE (upload_file sv dumps post parse now uid (snd (the deploy_file)) (the raw_id) (digits_value (the raw_id))
             (path_join ''/tmp'' (secure name)) port st) (\<lambda>(r, st'). Inr (Some r, st'))
      else Inr (None, st))"

section \<open>The status report of the service\<close>

definition STATUS :: "string list" where
  "STATUS = [''CREATED'', ''DEPLOYING'', ''FILE_UPLOAD_FAILED'', ''DEPLOY_FAILED'', ''PENDING_DEPLOY'', ''DEPLOY_SUCCESS'',
     ''REVIEWING'', ''ACCEPTED'', ''REJECTED'']"

text \<open>
  \<open>find_id\<close> is the id the database compares a value with, \<open>cv\<close> what the driver stores of a value;
  an error of the driver at the commit rolls everything back.
\<close>

definition report :: "converters \<Rightarrow> int \<Rightarrow> dict \<Rightarrow> string \<Rightarrow> challenge \<Rightarrow> deploy_state \<Rightarrow> py_exc + deploy_state" where
  "report cv now_us data status c st =
     bindE (required (to_int cv (dget data ''ChallengeId''))) (\<lambda>cid.
     bindE (to_text cv (dget data ''ChallengeLogs'')) (\<lambda>logs.
     bindE (to_text cv (dget data ''ImageLink'')) (\<lambda>link.
     if challenge_by_id (dp_db st) cid = None then Inl IntegrityError else
     Inr (st\<lparr>dp_db := set_deploy (ch_id c) (\<lambda>c. c\<lparr>ch_last_update := Some now_us, ch_image_link := link, ch_deploy_status := Some status\<rparr>) (dp_db st),
       dp_history := dp_history st @ [\<lparr>dh_id = fresh_id dh_id (dp_history st), dh_challenge_id = cid, dh_log_content = logs,
         dh_deploy_status = status, dh_deploy_at = Some now_us\<rparr>]\<rparr>))))"

definition update_challenge_info ::
  "service \<Rightarrow> (pyval \<Rightarrow> int option) \<Rightarrow> converters \<Rightarrow> int \<Rightarrow> string option \<Rightarrow> dict \<Rightarrow> deploy_state \<Rightarrow> py_exc + nat \<times> deploy_state" where
  "update_challenge_info sv find_id cv now_us header data st =
     (if header = None \<or> header = Some [] \<or> \<not> truthy (dget data ''ChallengeId'') then Inr (400, st)
      else if header \<noteq> Some (create_secret_key sv (py_str sv (dget data ''UnixTime'')) (del ''UnixTime'' data)) then Inr (400, st)
      else case dget data ''ChallengeStatus'' of
        PList _ \<Rightarrow> Inl TypeError
      | PDict _ \<Rightarrow> Inl TypeError
      | PStr status \<Rightarrow>
          if status \<notin> set STATUS then Inr (400, st)
          else (case (case find_id (dget data ''ChallengeId'') of None \<Rightarrow> None | Some i \<Rightarrow> challenge_by_id (dp_db st) i) of
              None \<Rightarrow> Inl AttributeError
            | Some c \<Rightarrow> (case report cv now_us data status c st of Inl e \<Rightarrow> Inr (500, st) | Inr st' \<Rightarrow> Inr (200, st')))
      | _ \<Rightarrow> Inr (400, st))"

section \<open>Keys\<close>

lemma show_nat_inj: "show_nat m = show_nat n \<Longrightarrow> m = n"
  by (metis digits_value_show_nat of_nat_eq_iff)

lemma show_int_inj: "show_int a = show_int b \<Longrightarrow> a = b"
proof -
  have minus: "CHR ''-'' # s \<noteq> show_nat n" for s n
  proof
    assume "CHR ''-'' # s = show_nat n"
    then have "list_all dec_char (CHR ''-'' # s)" using show_nat_decimal[of n] by (simp add: py_isdecimal_def)
    then show False by (simp add: dec_char_def py_ord_def)
  qed
  assume "show_int a = show_int b"
  then show ?thesis using minus minus[symmetric] by (auto simp: show_int_def dest: show_nat_inj split: if_splits)
qed

lemma show_int_no_underscore: "CHR ''_'' \<notin> set (show_int i)"
proof -
  have "CHR ''_'' \<notin> set (show_nat n)" for n
    using show_nat_decimal[of n] by (auto simp: py_isdecimal_def list_all_iff dec_char_def py_ord_def)
  then show ?thesis by (auto simp: show_int_def)
qed

lemma starts_with_iff: "starts_with p s \<longleftrightarrow> (\<exists>r. s = p @ r)"
  by (auto simp: starts_with_def) (metis append_take_drop_id)

lemma prefix_of_key:
  "starts_with (instance_prefix (show_int c)) (generate_cache_key (show_int c') t) \<longleftrightarrow> c' = c"
proof
  assume "starts_with (instance_prefix (show_int c)) (generate_cache_key (show_int c') t)"
  then obtain r where r: "show_int c' @ CHR ''_'' # t = show_int c @ CHR ''_'' # r"
    by (auto simp: starts_with_iff generate_cache_key_def instance_prefix_def)
  have "takeWhile (\<lambda>x. x \<noteq> CHR ''_'') (show_int i @ CHR ''_'' # s) = show_int i" for i s
    using show_int_no_underscore[of i] by (subst takeWhile_append2) auto
  then show "c' = c" using r by (metis show_int_inj)
qed (auto simp: starts_with_iff generate_cache_key_def instance_prefix_def)

lemma cache_key_inj:
  "generate_cache_key (show_int c) (show_int t) = generate_cache_key (show_int c') (show_int t') \<longleftrightarrow> c = c' \<and> t = t'"
proof
  assume eq: "generate_cache_key (show_int c) (show_int t) = generate_cache_key (show_int c') (show_int t')"
  then have "c = c'" using prefix_of_key[of c' c "show_int t"] by (auto simp: starts_with_iff generate_cache_key_def)
  with eq show "c = c' \<and> t = t'" by (auto simp: generate_cache_key_def dest: show_int_inj)
qed simp


section \<open>What an upload changes\<close>

lemma map_of_filter_keys: "map_of (filter (\<lambda>p. P (fst p)) xs) k = (if P k then map_of xs k else None)"
  by (induction xs) auto

text \<open>
  Also proved: clearing the instances of a challenge removes exactly the keys of its own
  instances, whatever the other ids look like.
\<close>

theorem clearing_spares_others:
  "map_of (delete_cached_files (show_int c) cache) (generate_cache_key (show_int c') (show_int t)) =
    (if c' = c then None else map_of cache (generate_cache_key (show_int c') (show_int t)))"
  unfolding delete_cached_files_def
  by (subst map_of_filter_keys[where P = "\<lambda>k. \<not> starts_with (instance_prefix (show_int c)) k"]) (simp add: prefix_of_key)

lemma next_version_gt: "v \<in> set vs \<Longrightarrow> ve_challenge_id v = cid \<Longrightarrow> ve_version_number v < next_version cid vs"
proof -
  assume v: "v \<in> set vs" "ve_challenge_id v = cid"
  let ?ns = "map ve_version_number (filter (\<lambda>v. ve_challenge_id v = cid) vs)"
  have m: "ve_version_number v \<in> set ?ns" using v by auto
  then obtain n ns where ns: "?ns = n # ns" by (cases ?ns) auto
  with m have "ve_version_number v \<le> fold max ns n" using fold_max_ge[of n ns] fold_max_mem[of _ ns n] by auto
  with ns show ?thesis by (simp add: next_version_def)
qed

definition versions_ok :: "version list \<Rightarrow> bool" where
  "versions_ok vs = (distinct (map ve_id vs) \<and> distinct (map (\<lambda>v. (ve_challenge_id v, ve_version_number v)) vs) \<and>
     distinct (map ve_challenge_id (filter ve_is_active vs)))"

lemma deactivate_keys [simp]:
  "map ve_id (deactivate cid vs) = map ve_id vs"
  "map (\<lambda>v. (ve_challenge_id v, ve_version_number v)) (deactivate cid vs) = map (\<lambda>v. (ve_challenge_id v, ve_version_number v)) vs"
  by (simp_all add: deactivate_def map_update_where)

lemma deactivate_active: "filter ve_is_active (deactivate cid vs) = filter (\<lambda>v. ve_is_active v \<and> ve_challenge_id v \<noteq> cid) vs"
  by (induction vs) (simp_all add: deactivate_def update_where_def)

lemma active_filter: "map ve_challenge_id (filter (\<lambda>v. ve_is_active v \<and> ve_challenge_id v \<noteq> cid) vs) =
    filter (\<lambda>c. c \<noteq> cid) (map ve_challenge_id (filter ve_is_active vs))"
  by (induction vs) simp_all

lemma deactivate_ok: "versions_ok vs \<Longrightarrow> versions_ok (deactivate cid vs)"
  unfolding versions_ok_def by (simp add: deactivate_active active_filter)

lemma new_version_fields [simp]:
  "ve_id (new_version now uid tag c vs) = fresh_id ve_id vs" "ve_challenge_id (new_version now uid tag c vs) = ch_id c"
  "ve_version_number (new_version now uid tag c vs) = next_version (ch_id c) vs" "ve_is_active (new_version now uid tag c vs)"
  "ve_image_link (new_version now uid tag c vs) = ch_image_link c"
  by (simp_all add: new_version_def)

lemma save_version_ok:
  assumes "versions_ok vs"
  shows "versions_ok (deactivate (ch_id c) vs @ [new_version now uid tag c vs])"
proof -
  let ?n = "new_version now uid tag c vs"
  have ids: "ve_id ?n \<notin> set (map ve_id vs)" using fresh_id_notin[of ve_id vs] by (simp only: new_version_fields set_map) simp
  have numbers: "(ch_id c, next_version (ch_id c) vs) \<notin> set (map (\<lambda>v. (ve_challenge_id v, ve_version_number v)) vs)"
    using next_version_gt[of _ vs "ch_id c"] by force
  have active: "ch_id c \<notin> set (map ve_challenge_id (filter ve_is_active (deactivate (ch_id c) vs)))"
    unfolding deactivate_active active_filter by (simp only: set_filter) simp
  have ok: "distinct (map ve_id vs)" "distinct (map (\<lambda>v. (ve_challenge_id v, ve_version_number v)) vs)"
    "distinct (map ve_challenge_id (filter ve_is_active (deactivate (ch_id c) vs)))"
    using deactivate_ok[OF assms, of "ch_id c"] by (simp_all add: versions_ok_def)
  have snoc: "distinct (xs @ [x]) \<longleftrightarrow> distinct xs \<and> x \<notin> set xs" for x and xs :: "'x list" by auto
  show ?thesis
    unfolding versions_ok_def
  proof (intro conjI)
    show "distinct (map ve_id (deactivate (ch_id c) vs @ [?n]))"
      unfolding map_append list.map snoc deactivate_keys using ids ok by blast
    show "distinct (map (\<lambda>v. (ve_challenge_id v, ve_version_number v)) (deactivate (ch_id c) vs @ [?n]))"
      unfolding map_append list.map snoc deactivate_keys new_version_fields using numbers ok by blast
    show "distinct (map ve_challenge_id (filter ve_is_active (deactivate (ch_id c) vs @ [?n])))"
      using active ok(3) by (simp del: set_map)
  qed
qed

lemma activate_ok:
  assumes "versions_ok vs" "v \<in> set vs" "ve_challenge_id v \<notin> set (map ve_challenge_id (filter ve_is_active vs))"
  shows "versions_ok (update_where (\<lambda>x. ve_id x = ve_id v) (\<lambda>x. x\<lparr>ve_is_active := True\<rparr>) vs)"
proof -
  obtain xs ys where vs: "vs = xs @ v # ys" using split_list[OF assms(2)] by blast
  have "distinct (map ve_id (xs @ v # ys))" using assms(1) by (simp add: versions_ok_def vs)
  then have "ve_id v \<notin> ve_id ` (set xs \<union> set ys)" by auto
  then have "ve_id x \<noteq> ve_id v" if "x \<in> set xs \<union> set ys" for x using that by (metis imageI)
  then have "update_where (\<lambda>x. ve_id x = ve_id v) (\<lambda>x. x\<lparr>ve_is_active := True\<rparr>) vs = xs @ v\<lparr>ve_is_active := True\<rparr> # ys"
    unfolding vs update_where_def by (auto intro!: map_idI)
  moreover have "\<not> ve_is_active v" using assms(3) unfolding vs by auto
  ultimately show ?thesis using assms(1,3) unfolding versions_ok_def vs by simp
qed


lemma rollback_ok:
  assumes "rollback now cid vid d = Inr (Body d')" "versions_ok (versions d)"
  shows "versions_ok (versions d')"
proof -
  obtain ch where ch: "challenge_by_id d cid = Some ch"
    using assms(1) by (cases "challenge_by_id d cid") (auto simp: rollback_def first_or_404_def)
  obtain v where f: "first_where (\<lambda>v. ve_id v = vid \<and> ve_challenge_id v = ch_id ch) (versions d) = Some v"
    using assms(1) ch
    by (cases "first_where (\<lambda>v. ve_id v = vid \<and> ve_challenge_id v = ch_id ch) (versions d)") (auto simp: rollback_def first_or_404_def)
  have v: "v \<in> set (versions d)" "ve_id v = vid" "ve_challenge_id v = ch_id ch" using first_where_SomeD[OF f] by auto
  have d': "versions d' = update_where (\<lambda>x. ve_id x = vid) (\<lambda>x. x\<lparr>ve_is_active := True\<rparr>) (deactivate (ch_id ch) (versions d))"
    using assms(1) by (auto simp: rollback_def first_or_404_def ch f deactivate_def split: if_splits)
  let ?v = "v\<lparr>ve_is_active := False\<rparr>"
  have "?v \<in> set (deactivate (ch_id ch) (versions d))" using v by (auto simp: deactivate_def update_where_def)
  moreover have "ve_challenge_id ?v \<notin> set (map ve_challenge_id (filter ve_is_active (deactivate (ch_id ch) (versions d))))"
    unfolding deactivate_active active_filter by (simp add: v(3))
  ultimately show ?thesis
    using activate_ok[OF deactivate_ok[OF assms(2)], of ?v "ch_id ch"] by (simp add: d' v(2))
qed

lemma set_deploy_versions [simp]: "versions (set_deploy cid f d) = versions d"
  by (simp add: set_deploy_def)

lemma save_version_versions [simp]:
  "versions (save_version now uid tag c d) = deactivate (ch_id c) (versions d) @ [new_version now uid tag c (versions d)]"
  by (simp add: save_version_def)

lemma pending_fields [simp]:
  "ch_id (pending link folder c) = ch_id c" "ch_image_link (pending link folder c) = Some link"
  "ch_state (pending link folder c) = ''hidden''" "ch_deploy_status (pending link folder c) = Some ''PENDING_DEPLOY''"
  "ch_deploy_file (pending link folder c) = Some folder"
  by (simp_all add: pending_def)

lemma upload_cases:
  assumes "handle_challenge_upload sv dumps post parse now uid ar c path port st = (r, st')"
  obtains code where "r = NotUploaded code" "dp_db st' = dp_db st"
  | place where "r = NotUploaded 500" "dp_db st' = set_deploy (ch_id c) (\<lambda>_. upload_failed place c) (dp_db st)" "dp_cache st' = dp_cache st"
  | w ph started estimate tag link folder where "r = Uploaded w ph started estimate" "ar_check ar = Inr True" "port \<noteq> None"
      "ch_deploy_status c \<noteq> Some ''PENDING_DEPLOY''" "ph \<noteq> PNone"
      "dp_db st' = save_version \<lfloor>now * 1000000\<rfloor> uid tag (pending link folder c) (dp_db st)"
      "has_key (dp_cache st') (get_workflow_key (ch_id c))"
  using assms unfolding handle_challenge_upload_def start_build_def Let_def
  by (auto split: sum.splits option.splits if_splits http_answer.splits prod.splits)

lemma upload_versions:
  "handle_challenge_upload sv dumps post parse now uid ar c path port st = (r, st') \<Longrightarrow>
   versions_ok (versions (dp_db st)) \<Longrightarrow> versions_ok (versions (dp_db st'))"
  by (erule upload_cases) (use save_version_ok[of "versions (dp_db st)" "pending _ _ c"] in auto)

lemma delete_challenge_versions:
  "versions (snd (delete_challenge refs i d)) \<in> {versions d, delete_where (\<lambda>v. ve_challenge_id v = i) (versions d)}"
  by (auto simp: delete_challenge_def cascade_challenge_def delete_notes_def delete_files_def delete_answers_def Let_def)

lemma delete_versions_ok: "versions_ok vs \<Longrightarrow> versions_ok (delete_where p vs)"
proof -
  have "filter ve_is_active (filter (\<lambda>v. \<not> p v) vs) = filter (\<lambda>v. \<not> p v) (filter ve_is_active vs)"
    by (simp add: conj_commute)
  then show "versions_ok vs \<Longrightarrow> versions_ok (delete_where p vs)"
    by (simp add: versions_ok_def delete_where_def distinct_map_filter del: filter_filter)
qed

text \<open>Everything that writes the version table: uploads, rollbacks, deletions, and the reports that do not.\<close>

inductive deploy_step :: "deploy_state \<Rightarrow> deploy_state \<Rightarrow> bool" where
  Upload: "upload_file sv dumps post parse now uid file raw_id cid path port st = Inr (r, st') \<Longrightarrow> deploy_step st st'"
| Post: "deploy_post sv dumps post parse secure exts now uid form deploy_file st = Inr (r, st') \<Longrightarrow> deploy_step st st'"
| Report: "update_challenge_info sv find_id cv now_us header data st = Inr (code, st') \<Longrightarrow> deploy_step st st'"
| Rollback: "rollback now_us cid vid (dp_db st) = Inr (Body d') \<Longrightarrow> deploy_step st (st\<lparr>dp_db := d'\<rparr>)"
| Delete: "deploy_step st (st\<lparr>dp_db := snd (delete_challenge refs cid (dp_db st))\<rparr>)"

lemma upload_file_versions:
  "upload_file sv dumps post parse now uid file raw_id cid path port st = Inr (r, st') \<Longrightarrow>
   versions_ok (versions (dp_db st)) \<Longrightarrow> versions_ok (versions (dp_db st'))"
  by (auto simp: upload_file_def Let_def split: option.splits if_splits dest!: upload_versions)

lemma report_versions: "report cv now data status c st = Inr st' \<Longrightarrow> versions (dp_db st') = versions (dp_db st)"
  by (auto simp: report_def bindE_Inr_iff split: if_splits)

lemma update_versions:
  "update_challenge_info sv find_id cv now_us header data st = Inr (code, st') \<Longrightarrow> versions (dp_db st') = versions (dp_db st)"
  by (auto simp: update_challenge_info_def report_versions split: if_splits pyval.splits option.splits sum.splits)

lemma deploy_post_versions:
  "deploy_post sv dumps post parse secure exts now uid form deploy_file st = Inr (r, st') \<Longrightarrow>
   versions_ok (versions (dp_db st)) \<Longrightarrow> versions_ok (versions (dp_db st'))"
  unfolding deploy_post_def Let_def
  by (auto simp: bindE_Inr_iff split: if_splits option.splits prod.splits dest: upload_file_versions)

text \<open>
  Property C34: over any sequence of uploads, status reports, rollbacks and deletions the version
  history stays consistent: ids are distinct, no challenge has two versions of the same number
  and none has two active versions.
\<close>

theorem version_history:
  assumes "deploy_step\<^sup>*\<^sup>* st st'" "versions_ok (versions (dp_db st))"
  shows "versions_ok (versions (dp_db st'))"
  using assms
proof (induction rule: rtranclp_induct)
  case (step y z)
  from step.hyps(2) step.IH[OF step.prems] show ?case
  proof cases
    case (Delete refs cid)
    then show ?thesis using step.IH[OF step.prems] delete_challenge_versions[of refs cid "dp_db y"]
      by (auto intro: delete_versions_ok)
  qed (auto dest: upload_file_versions deploy_post_versions update_versions rollback_ok)
qed

text \<open>
  Also proved: an upload that succeeds hides the challenge, marks it as waiting for its image and
  makes a new version with that image, numbered above all others, its only active one; an upload
  that fails leaves every version as it was, and at most marks and hides the challenge.
\<close>

theorem upload_effect:
  assumes "handle_challenge_upload sv dumps post parse now uid ar c path port st = (r, st')"
    and "challenge_by_id (dp_db st) (ch_id c) = Some c" "versions_ok (versions (dp_db st))"
  shows "case r of
      NotUploaded code \<Rightarrow> versions (dp_db st') = versions (dp_db st) \<and>
        (dp_db st' = dp_db st \<or> (\<exists>place. dp_db st' = set_deploy (ch_id c) (\<lambda>_. upload_failed place c) (dp_db st)))
    | Uploaded w ph started estimate \<Rightarrow> \<exists>c' v. challenge_by_id (dp_db st') (ch_id c) = Some c' \<and> ch_state c' = ''hidden'' \<and>
        ch_deploy_status c' = Some ''PENDING_DEPLOY'' \<and> ch_image_link c' \<noteq> None \<and>
        filter (\<lambda>x. ve_challenge_id x = ch_id c \<and> ve_is_active x) (versions (dp_db st')) = [v] \<and>
        ve_image_link v = ch_image_link c' \<and>
        list_all (\<lambda>x. ve_challenge_id x = ch_id c \<longrightarrow> ve_version_number x < ve_version_number v) (versions (dp_db st))"
  using assms(1)
proof (cases rule: upload_cases)
  case (3 w ph started estimate tag link folder)
  let ?p = "pending link folder c"
  have "first_where (\<lambda>x. ch_id x = ch_id c) (update_where (\<lambda>x. ch_id x = ch_id c) (\<lambda>_. ?p) cs) = Some ?p"
    if "first_where (\<lambda>x. ch_id x = ch_id c) cs = Some c" for cs
    using that by (induction cs) (auto simp: update_where_def split: if_splits)
  then have "challenge_by_id (dp_db st') (ch_id c) = Some ?p"
    using assms(2) by (simp add: 3(6) challenge_by_id_def save_version_def set_deploy_def)
  moreover have "filter (\<lambda>x. ve_challenge_id x = ch_id c \<and> ve_is_active x) (deactivate (ch_id c) (versions (dp_db st))) = []"
    by (auto simp: filter_empty_conv deactivate_def update_where_def)
  ultimately show ?thesis
    using next_version_gt[of _ "versions (dp_db st)" "ch_id c"] by (simp add: 3(1,6) list_all_iff)
qed auto


section \<open>What the service may report\<close>

text \<open>Also proved: a signature does not depend on the order in which the fields are listed.\<close>

theorem signature_order_free:
  assumes "mset data = mset data'" "distinct (map fst data)"
  shows "create_secret_key sv t data = create_secret_key sv t data'"
proof -
  have "sort_key fst data = sort_key fst data'"
    using assms by (intro sort_key_inj_key_eq) (auto simp: distinct_map)
  then show ?thesis by (simp add: create_secret_key_def signing_text_def)
qed

text \<open>
  Property C35: a status report changes something only when it carries the signature of its fields
  under the private key and a known status; then it adds one entry to the history and touches
  nothing but the image, the status and the date of one challenge.
\<close>

theorem report_needs_key:
  assumes "update_challenge_info sv find_id cv now_us header data st = Inr (code, st')" "st' \<noteq> st"
  shows "header = Some (create_secret_key sv (py_str sv (dget data ''UnixTime'')) (del ''UnixTime'' data)) \<and>
    (\<exists>status link i row. dget data ''ChallengeStatus'' = PStr status \<and> status \<in> set STATUS \<and> code = 200 \<and>
      find_id (dget data ''ChallengeId'') = Some i \<and> dp_history st' = dp_history st @ [row] \<and> dh_deploy_status row = status \<and>
      dp_cache st' = dp_cache st \<and>
      dp_db st' = set_deploy i (\<lambda>c. c\<lparr>ch_last_update := Some now_us, ch_image_link := link, ch_deploy_status := Some status\<rparr>) (dp_db st))"
proof -
  let ?id = "dget data ''ChallengeId''"
  have h: "header = Some (create_secret_key sv (py_str sv (dget data ''UnixTime'')) (del ''UnixTime'' data))"
    using assms by (simp add: update_challenge_info_def split: if_splits)
  obtain status i c where s: "dget data ''ChallengeStatus'' = PStr status" "status \<in> set STATUS" "find_id ?id = Some i"
    and c: "challenge_by_id (dp_db st) i = Some c" and r: "report cv now_us data status c st = Inr st'" "code = 200"
    using assms by (auto simp: update_challenge_info_def split: if_splits pyval.splits option.splits sum.splits)
  have "ch_id c = i" using first_where_SomeD[OF c[unfolded challenge_by_id_def]] by simp
  with h s r show ?thesis by (auto simp: report_def bindE_Inr_iff split: if_splits)
qed

text \<open>
  Also proved: the values are signed without separators, so a signature for one challenge is one
  for another challenge too, with the digits moved to the next field; and nothing compares the
  time of the report with the clock.
\<close>

lemma report_key_order: "sort_key fst [(''ChallengeId'', x), (''ChallengeLogs'', y), (''ChallengeStatus'', z)] =
    [(''ChallengeId'', x), (''ChallengeLogs'', y), (''ChallengeStatus'', z)]" for x y z :: pyval
proof -
  have "''ChallengeId'' \<le> ''ChallengeLogs''" "''ChallengeId'' \<le> ''ChallengeStatus''" "''ChallengeLogs'' \<le> ''ChallengeStatus''" by code_simp+
  then show ?thesis by simp
qed

theorem signature_ambiguous:
  "create_secret_key sv t [(''ChallengeId'', PStr (a @ b)), (''ChallengeLogs'', PStr c), (''ChallengeStatus'', z)] =
   create_secret_key sv t [(''ChallengeId'', PStr a), (''ChallengeLogs'', PStr (b @ c)), (''ChallengeStatus'', z)]"
  by (simp add: create_secret_key_def signing_text_def report_key_order py_str_def)

text \<open>A report that names no image erases the one the challenge runs.\<close>

definition sample_service :: service where
  "sample_service = \<lparr>ds_md5 = \<lambda>s. ''h'' @ s, ds_repr = \<lambda>_. [], ds_private_key = ''k'', ds_api = ''http://d'', ds_mount = ''/nfs'',
     ds_image_repo = ''repo'', ds_docker_username = ''u''\<rparr>"

definition text_converters :: converters where
  "text_converters = \<lparr>to_int = \<lambda>v. (case v of PInt i \<Rightarrow> Inr (Some i) | _ \<Rightarrow> Inr None), to_text = \<lambda>v. Inr (case v of PStr s \<Rightarrow> Some s | _ \<Rightarrow> None),
     to_bool = \<lambda>_. Inr None, to_date = \<lambda>_. Inr None\<rparr>"

definition deployed_state :: deploy_state where
  "deployed_state = \<lparr>dp_db = empty_db\<lparr>challenges := [(sample_challenge 3 (Some 100))\<lparr>ch_image_link := Some ''img''\<rparr>]\<rparr>,
     dp_cache = [(''deploy_challenge_3_7'', ''a''), (''deploy_challenge_31_7'', ''b'')], dp_history = []\<rparr>"

definition success_report :: dict where
  "success_report = [(''ChallengeId'', PInt 3), (''ChallengeStatus'', PStr ''DEPLOY_SUCCESS''), (''UnixTime'', PInt 5)]"

definition read_int :: "pyval \<Rightarrow> int option" where
  "read_int v = (case v of PInt i \<Rightarrow> Some i | _ \<Rightarrow> None)"

definition reported_state :: deploy_state where
  "reported_state = (case update_challenge_info sample_service read_int text_converters 9 (Some ''h5k3DEPLOY_SUCCESS'') success_report deployed_state of
     Inr (_, st) \<Rightarrow> st | Inl _ \<Rightarrow> deployed_state)"

lemma sample_report:
  "update_challenge_info sample_service read_int text_converters 9 (Some ''h5k3DEPLOY_SUCCESS'') success_report deployed_state =
   Inr (200, reported_state)"
  by code_simp

theorem report_erases_image: "map ch_image_link (challenges (dp_db reported_state)) = [None]"
  by code_simp

theorem report_needs_key_witness:
  "\<exists>row. dp_history reported_state = [row] \<and> dh_deploy_status row = ''DEPLOY_SUCCESS''"
proof -
  have "map ch_image_link (challenges (dp_db deployed_state)) = [Some ''img'']" by code_simp
  then have "reported_state \<noteq> deployed_state" using report_erases_image by auto
  from report_needs_key[OF sample_report this] show ?thesis
    by (auto simp: success_report_def deployed_state_def dget_def)
qed

theorem signature_order_free_witness:
  "create_secret_key sample_service ''5'' [(''a'', PInt 1), (''b'', PInt 2)] = create_secret_key sample_service ''5'' [(''b'', PInt 2), (''a'', PInt 1)]"
  by (rule signature_order_free) simp_all

section \<open>Witnesses\<close>

definition build_service :: poster where
  "build_service r = Answered 200 (Inr (if or_url r = ''http://d/api/challenge/upload''
     then PDict [(''metadata'', PDict [(''name'', PStr ''wf'')])]
     else PDict [(''data'', PDict [(''phase'', PStr ''Running''), (''estimatedDuration'', PInt 60)])]))"

definition good_archive :: archive where
  "good_archive = \<lparr>ar_check = Inr True, ar_place = \<lambda>folder. Inr (Some (''challenges/'' @ folder))\<rparr>"

definition sample_upload :: "deploy_state \<Rightarrow> upload_reply \<times> deploy_state" where
  "sample_upload st = handle_challenge_upload sample_service (\<lambda>_. ''json'') build_service (\<lambda>_. None) 5 (Some 1) good_archive
     (hd (challenges (dp_db st))) ''/tmp/web.zip'' (Some ''80'') st"

definition uploaded_state :: deploy_state where
  "uploaded_state = snd (sample_upload deployed_state)"

lemma sample_upload_result:
  "sample_upload deployed_state = (Uploaded (PStr ''wf'') (PStr ''Running'') (Some 5) 60, uploaded_state)"
  by code_simp

theorem upload_effect_witness:
  "\<exists>v. filter (\<lambda>x. ve_challenge_id x = 3 \<and> ve_is_active x) (versions (dp_db uploaded_state)) = [v] \<and> ve_image_link v \<noteq> None"
proof -
  let ?c = "(sample_challenge 3 (Some 100))\<lparr>ch_image_link := Some ''img''\<rparr>"
  have 1: "handle_challenge_upload sample_service (\<lambda>_. ''json'') build_service (\<lambda>_. None) 5 (Some 1) good_archive ?c ''/tmp/web.zip'' (Some ''80'')
      deployed_state = (Uploaded (PStr ''wf'') (PStr ''Running'') (Some 5) 60, uploaded_state)"
    using sample_upload_result by (simp add: sample_upload_def deployed_state_def)
  have 2: "challenge_by_id (dp_db deployed_state) (ch_id ?c) = Some ?c" "versions_ok (versions (dp_db deployed_state))" "ch_id ?c = 3"
    by code_simp+
  from upload_effect[OF 1 2(1,2)] 2(3) show ?thesis by auto
qed

theorem version_history_witness: "versions_ok (versions (dp_db reported_state))"
proof -
  have "deploy_step\<^sup>*\<^sup>* deployed_state reported_state" using deploy_step.Report[OF sample_report] by blast
  moreover have "versions_ok (versions (dp_db deployed_state))" by code_simp
  ultimately show ?thesis by (rule version_history)
qed

end
