(* ===== verification/Instances.thy ===== *)
theory Instances imports Deployment begin

text \<open>
  Operating running instances: the stop endpoints and the listing of
  \<^verbatim>\<open>StartChallenge.py\<close>, the logs of \<^verbatim>\<open>DeployHistory.py\<close>, the version endpoints and the
  small listings of \<^verbatim>\<open>api/v1/challenges.py\<close> and the estimate.  Handlers that talk to the
  deployment service also return the requests they send, in order.  Redis answers are parameters.
\<close>

section \<open>Stopping\<close>

datatype stopped = StopAnswer pyval | StopRefused nat

text \<open>The id of the session, whose absence raises, and the member of staff it stands for.\<close>

definition session_id :: "ctx \<Rightarrow> py_exc + int" where
  "session_id c = (case se_id (cx_session c) of None \<Rightarrow> Inl KeyError | Some i \<Rightarrow> Inr i)"

definition stop_challenge_by_admin ::
  "service \<Rightarrow> (pyval \<Rightarrow> int option) \<Rightarrow> poster \<Rightarrow> ctx \<Rightarrow> store \<Rightarrow> dict \<Rightarrow> out_request list \<times> (py_exc + stopped)" where
  "stop_challenge_by_admin sv find_id post c cache data =
     (let tid = dget data ''team_id''; cid = dget data ''challenge_id'' in
      case session_id c of Inl e \<Rightarrow> ([], Inl e) | Inr uid \<Rightarrow>
      if \<not> truthy tid \<or> \<not> truthy cid then ([], Inr (StopRefused 400))
      else (case user_by_id (cx_db c) uid of
          None \<Rightarrow> ([], Inr (StopRefused 403))
        | Some u \<Rightarrow>
            if us_type u = Some ''user'' then ([], Inr (StopRefused 400))
            else if (case find_id cid of None \<Rightarrow> True | Some i \<Rightarrow> challenge_by_id (cx_db c) i = None) then ([], Inr (StopRefused 400))
            else if \<not> has_key cache (generate_cache_key (py_str sv cid) (py_str sv tid)) then ([], Inr (StopRefused 400))
            else let r = stop_request sv \<lfloor>cx_now c\<rfloor> cid tid uid in
              ([r], bindE (answer_json (post r)) (\<lambda>v. Inr (StopAnswer v)))))"

record bulk_result =
  bk_challenge :: pyval
  bk_team :: pyval
  bk_success :: bool

record bulk =
  bl_stopped :: nat
  bl_failed :: nat
  bl_results :: "bulk_result list"
  bl_sent :: "out_request list"

definition item_field :: "pyval \<Rightarrow> string \<Rightarrow> pyval" where
  "item_field item k = (case item of PDict d \<Rightarrow> dget d k | _ \<Rightarrow> PNone)"

definition refused_item :: "pyval \<Rightarrow> pyval \<Rightarrow> bulk \<Rightarrow> bulk" where
  "refused_item cid tid b = b\<lparr>bl_failed := bl_failed b + 1,
     bl_results := bl_results b @ [\<lparr>bk_challenge = cid, bk_team = tid, bk_success = False\<rparr>]\<rparr>"

definition stop_ok :: "pyval \<Rightarrow> bool" where
  "stop_ok v = (case v of PDict d \<Rightarrow> dget d ''success'' = PBool True \<or> dget d ''isSuccess'' = PBool True | _ \<Rightarrow> False)"

definition answered_item :: "int \<Rightarrow> int \<Rightarrow> out_request \<Rightarrow> bool \<Rightarrow> bulk \<Rightarrow> bulk" where
  "answered_item cid tid r ok b = b\<lparr>bl_stopped := (if ok then bl_stopped b + 1 else bl_stopped b),
     bl_failed := (if ok then bl_failed b else bl_failed b + 1),
     bl_results := bl_results b @ [\<lparr>bk_challenge = PInt cid, bk_team = PInt tid, bk_success = ok\<rparr>],
     bl_sent := bl_sent b @ [r]\<rparr>"

definition bulk_item :: "service \<Rightarrow> poster \<Rightarrow> int \<Rightarrow> db \<Rightarrow> store \<Rightarrow> int \<Rightarrow> bulk \<Rightarrow> pyval \<Rightarrow> bulk" where
  "bulk_item sv post now d cache uid b item =
     (let raw_c = item_field item ''challenge_id''; raw_t = item_field item ''team_id'' in
      case (py_int raw_c, py_int raw_t) of
        (Inr cid, Inr tid) \<Rightarrow>
          if challenge_by_id d cid = None \<or> \<not> has_key cache (generate_cache_key (show_int cid) (show_int tid))
          then refused_item (PInt cid) (PInt tid) b
          else let r = stop_request sv now (PInt cid) (PInt tid) uid in
            (case answer_json (post r) of
              Inl e \<Rightarrow> (refused_item raw_c raw_t b)\<lparr>bl_sent := bl_sent b @ [r]\<rparr>
            | Inr v \<Rightarrow> answered_item cid tid r (stop_ok v) b)
      | _ \<Rightarrow> refused_item raw_c raw_t b)"

definition no_bulk :: bulk where
  "no_bulk = \<lparr>bl_stopped = 0, bl_failed = 0, bl_results = [], bl_sent = []\<rparr>"

definition stop_challenge_bulk_by_admin :: "service \<Rightarrow> poster \<Rightarrow> ctx \<Rightarrow> store \<Rightarrow> dict \<Rightarrow> nat \<times> bulk" where
  "stop_challenge_bulk_by_admin sv post c cache data =
     (case se_id (cx_session c) of None \<Rightarrow> (403, no_bulk) | Some uid \<Rightarrow>
      if uid = 0 then (403, no_bulk) else
      (case user_by_id (cx_db c) uid of
        None \<Rightarrow> (403, no_bulk)
      | Some u \<Rightarrow> if us_type u = Some ''user'' then (400, no_bulk) else
          (case dget data ''items'' of
            PList items \<Rightarrow> if items = [] then (400, no_bulk)
              else (200, foldl (bulk_item sv post \<lfloor>cx_now c\<rfloor> (cx_db c) cache uid) no_bulk items)
          | _ \<Rightarrow> (400, no_bulk))))"

definition stop_all_challenges :: "service \<Rightarrow> poster \<Rightarrow> ctx \<Rightarrow> out_request list \<times> (py_exc + stopped)" where
  "stop_all_challenges sv post c =
     (case session_id c of Inl e \<Rightarrow> ([], Inl e) | Inr uid \<Rightarrow>
      (case user_by_id (cx_db c) uid of
        None \<Rightarrow> ([], Inr (StopRefused 403))
      | Some u \<Rightarrow> if us_type u = Some ''user'' then ([], Inr (StopRefused 400))
          else let r = stop_all_request sv \<lfloor>cx_now c\<rfloor> uid in ([r], bindE (answer_json (post r)) (\<lambda>v. Inr (StopAnswer v)))))"

text \<open>The check of a preview instance, which asks for no session at all.\<close>

definition check_challenge_status :: "service \<Rightarrow> poster \<Rightarrow> ctx \<Rightarrow> string \<Rightarrow> nat \<times> pyval" where
  "check_challenge_status sv post c cid = (if cid = [] \<or> cid = ''undefined'' then (400, PBool False)
     else start_challenge_status_checking sv post \<lfloor>cx_now c\<rfloor> cid (-1))"

section \<open>Listing\<close>

record running =
  ru_challenge_id :: int
  ru_team_id :: int
  ru_challenge_name :: "string option"
  ru_category :: "string option"
  ru_team_name :: string
  ru_user_name :: string
  ru_user_id :: pyval
  ru_url :: pyval
  ru_status :: pyval
  ru_finished :: "string option"
  ru_timestamp :: rat
  ru_ns :: pyval

text \<open>\<open>re.match(r"deploy_challenge_(\\d+)_(-?\\d+)", key)\<close>: what follows the digits is ignored.\<close>

definition read_digits :: "string \<Rightarrow> (string \<times> string) option" where
  "read_digits s = (let ds = takeWhile dec_char s in if ds = [] then None else Some (ds, dropWhile dec_char s))"

definition parse_key :: "string \<Rightarrow> (int \<times> int) option" where
  "parse_key key =
     (if \<not> starts_with ''deploy_challenge_'' key then None
      else case read_digits (drop 17 key) of
        None \<Rightarrow> None
      | Some (cs, rest) \<Rightarrow> (case rest of
            [] \<Rightarrow> None
          | x # r \<Rightarrow> if x \<noteq> CHR ''_'' then None
              else let neg = (r \<noteq> [] \<and> hd r = CHR ''-'') in
                (case read_digits (if neg then tl r else r) of
                  None \<Rightarrow> None
                | Some (ts, _) \<Rightarrow> Some (digits_value cs, if neg then - digits_value ts else digits_value ts))))"

text \<open>One entry of the store; \<open>None\<close> when it is skipped.\<close>

definition finish_time :: "(rat \<Rightarrow> py_exc + string) \<Rightarrow> pyval \<Rightarrow> py_exc + string option \<times> rat" where
  "finish_time fmt raw = (if raw = PNone then Inr (None, 0) else case numeric raw of
      None \<Rightarrow> Inl TypeError
    | Some t \<Rightarrow> if 0 < t then bindE (fmt t) (\<lambda>s. Inr (Some s, t)) else Inr (None, t))"

definition instance_data_of ::
  "(string \<Rightarrow> pyval option) \<Rightarrow> (pyval \<Rightarrow> int option) \<Rightarrow> (rat \<Rightarrow> py_exc + string) \<Rightarrow> db \<Rightarrow> string \<times> string \<Rightarrow> py_exc + running option" where
  "instance_data_of loads find_id fmt d entry = (case entry of (key, raw) \<Rightarrow>
     if raw = [] then Inr None
     else case loads raw of
       None \<Rightarrow> Inr None
     | Some v \<Rightarrow> (case parse_key key of
         None \<Rightarrow> Inr None
       | Some (cid, tid) \<Rightarrow>
           bindE (object_of v) (\<lambda>value.
           bindE (finish_time fmt (dget value ''time_finished'')) (\<lambda>(finished, stamp).
           let ch = challenge_by_id d cid;
               u = (case find_id (dget value ''user_id'') of None \<Rightarrow> None | Some i \<Rightarrow> user_by_id d i) in
           Inr (Some \<lparr>ru_challenge_id = cid, ru_team_id = tid,
             ru_challenge_name = (case ch of None \<Rightarrow> Some ''Unknown Challenge'' | Some x \<Rightarrow> ch_name x),
             ru_category = (case ch of None \<Rightarrow> Some ''Unknown'' | Some x \<Rightarrow> ch_category x),
             ru_team_name = (if tid = -1 then ''Preview Mode'' else case team_by_id d tid of None \<Rightarrow> ''Unknown Team'' | Some t \<Rightarrow> te_name t),
             ru_user_name = (case u of None \<Rightarrow> ''Unknown User'' | Some x \<Rightarrow> us_name x),
             ru_user_id = dget value ''user_id'', ru_url = dget value ''challenge_url'',
             ru_status = dget_default value ''status'' (PStr ''Unknown''), ru_finished = finished, ru_timestamp = stamp,
             ru_ns = dget_default value ''_namespace'' (PStr [])\<rparr>)))))"

text \<open>Previews first, then the others.\<close>

definition all_instances ::
  "(string \<Rightarrow> pyval option) \<Rightarrow> (pyval \<Rightarrow> int option) \<Rightarrow> (rat \<Rightarrow> py_exc + string) \<Rightarrow> db \<Rightarrow> store \<Rightarrow> py_exc + running list" where
  "all_instances loads find_id fmt d entries = bindE (mapE (instance_data_of loads find_id fmt d) entries) (\<lambda>xs.
     let rows = List.map_filter id xs in
     Inr (filter (\<lambda>r. ru_team_id r = -1) rows @ filter (\<lambda>r. ru_team_id r \<noteq> -1) rows))"

record instance_query =
  iq_page :: int
  iq_per_page :: int
  iq_sort_by :: string
  iq_sort_order :: string
  iq_team :: string
  iq_challenge :: string
  iq_user :: string
  iq_category :: string
  iq_status :: string

definition lower_of :: "string option \<Rightarrow> py_exc + string" where
  "lower_of v = (case v of None \<Rightarrow> Inl AttributeError | Some s \<Rightarrow> Inr (py_lower s))"

definition status_text :: "running \<Rightarrow> string option" where
  "status_text r = (case ru_status r of PStr s \<Rightarrow> Some s | _ \<Rightarrow> None)"

text \<open>A filter that is empty looks at no row.\<close>

definition narrow :: "string \<Rightarrow> (running \<Rightarrow> string option) \<Rightarrow> running list \<Rightarrow> py_exc + running list" where
  "narrow needle field rows = (let n = py_lower (py_strip needle) in
     if n = [] then Inr rows else filterE (\<lambda>r. bindE (lower_of (field r)) (\<lambda>s. Inr (contains n s))) rows)"

definition instance_filters :: "instance_query \<Rightarrow> running list \<Rightarrow> py_exc + running list" where
  "instance_filters q rows =
     bindE (narrow (iq_team q) (\<lambda>r. Some (ru_team_name r)) rows) (\<lambda>a.
     bindE (narrow (iq_challenge q) ru_challenge_name a) (\<lambda>b.
     bindE (narrow (iq_user q) (\<lambda>r. Some (ru_user_name r)) b) (\<lambda>c.
     bindE (narrow (iq_category q) ru_category c) (\<lambda>e.
     narrow (iq_status q) status_text e))))"

text \<open>\<open>list.sort(key, reverse)\<close>: stable, also in reverse.\<close>

definition py_sort :: "('a \<Rightarrow> 'k::linorder) \<Rightarrow> bool \<Rightarrow> 'a list \<Rightarrow> 'a list" where
  "py_sort key down xs = (if down then rev (sort_key key (rev xs)) else sort_key key xs)"

definition sort_text :: "(running \<Rightarrow> string option) \<Rightarrow> bool \<Rightarrow> running list \<Rightarrow> py_exc + running list" where
  "sort_text key down rows = bindE (mapE (\<lambda>r. lower_of (key r)) rows) (\<lambda>ks. Inr (map snd (py_sort fst down (zip ks rows))))"

definition instance_order :: "instance_query \<Rightarrow> running list \<Rightarrow> py_exc + running list" where
  "instance_order q rows = (let down = (iq_sort_order q = ''desc'') in
     if iq_sort_by q = ''challenge_name'' then sort_text ru_challenge_name down rows
     else if iq_sort_by q = ''team_name'' then sort_text (\<lambda>r. Some (ru_team_name r)) down rows
     else if iq_sort_by q = ''user_name'' then sort_text (\<lambda>r. Some (ru_user_name r)) down rows
     else if iq_sort_by q = ''time_finished'' then Inr (py_sort ru_timestamp down rows)
     else if iq_sort_by q = ''challenge_id'' then Inr (py_sort ru_challenge_id down rows)
     else Inr rows)"

definition py_slice :: "int \<Rightarrow> int \<Rightarrow> 'a list \<Rightarrow> 'a list" where
  "py_slice i j xs = (let n = int (length xs); norm = (\<lambda>k. if k < 0 then max 0 (k + n) else min k n) in
     take (nat (norm j - norm i)) (drop (nat (norm i)) xs))"

definition instance_pages :: "int \<Rightarrow> 'a list \<Rightarrow> int" where
  "instance_pages per_page rows = (if 0 < per_page then (int (length rows) + per_page - 1) div per_page else 1)"

definition instance_page :: "int \<Rightarrow> int \<Rightarrow> 'a list \<Rightarrow> 'a list" where
  "instance_page page per_page rows = (let start = (page - 1) * per_page in py_slice start (start + per_page) rows)"

record instance_listing =
  il_data :: "running list"
  il_teams :: "string list"
  il_users :: "string list"
  il_categories :: "string list"
  il_total :: nat
  il_pages :: int
  il_prev :: bool
  il_next :: bool

definition running_names :: "(running \<Rightarrow> string option) \<Rightarrow> running list \<Rightarrow> string list" where
  "running_names f rows = sorted_list_of_set (set (filter (\<lambda>s. s \<noteq> []) (List.map_filter f rows)))"

text \<open>Any exception is answered with status 500.\<close>

definition get_all_instance ::
  "(string \<Rightarrow> pyval option) \<Rightarrow> (pyval \<Rightarrow> int option) \<Rightarrow> (rat \<Rightarrow> py_exc + string) \<Rightarrow> ctx \<Rightarrow> store \<Rightarrow> instance_query \<Rightarrow> nat + instance_listing" where
  "get_all_instance loads find_id fmt c entries q =
     (case get_current_user c of Inl e \<Rightarrow> Inl 500 | Inr u \<Rightarrow>
      if u = None \<or> \<not> yes (is_admin c) then Inl 403
      else case bindE (all_instances loads find_id fmt (cx_db c) entries) (\<lambda>rows.
             bindE (instance_filters q rows) (\<lambda>kept. bindE (instance_order q kept) (\<lambda>out. Inr (rows, out)))) of
        Inl e \<Rightarrow> Inl 500
      | Inr (rows, out) \<Rightarrow> Inr \<lparr>il_data = instance_page (iq_page q) (iq_per_page q) out,
          il_teams = running_names (\<lambda>r. Some (ru_team_name r)) rows, il_users = running_names (\<lambda>r. Some (ru_user_name r)) rows,
          il_categories = running_names ru_category rows, il_total = length out, il_pages = instance_pages (iq_per_page q) out,
          il_prev = 1 < iq_page q, il_next = iq_page q < instance_pages (iq_per_page q) out\<rparr>)"


section \<open>Who may stop what\<close>

text \<open>
  A request that stops something is signed and sent by a member of staff; one for a single
  instance is for one that the store knows.
\<close>

definition may_stop :: "service \<Rightarrow> ctx \<Rightarrow> store \<Rightarrow> out_request \<Rightarrow> bool" where
  "may_stop sv c cache r = (\<exists>u cid tid. session_user c = Some u \<and> us_type u \<noteq> Some ''user'' \<and>
     r = stop_request sv \<lfloor>cx_now c\<rfloor> cid tid (us_id u) \<and> has_key cache (generate_cache_key (py_str sv cid) (py_str sv tid)))"

lemma user_by_id_id: "user_by_id d i = Some u \<Longrightarrow> us_id u = i"
  by (auto simp: user_by_id_def dest: first_where_SomeD)

lemma bulk_item_sent:
  assumes "session_user c = Some u" "us_type u \<noteq> Some ''user''" "list_all (may_stop sv c cache) (bl_sent b)"
  shows "list_all (may_stop sv c cache) (bl_sent (bulk_item sv post \<lfloor>cx_now c\<rfloor> (cx_db c) cache (us_id u) b item))"
proof -
  have "may_stop sv c cache (stop_request sv \<lfloor>cx_now c\<rfloor> (PInt cid) (PInt tid) (us_id u))"
    if "has_key cache (generate_cache_key (show_int cid) (show_int tid))" for cid tid
    unfolding may_stop_def using assms(1,2) that by (intro exI[of _ u] exI[of _ "PInt cid"] exI[of _ "PInt tid"]) (simp add: py_str_def)
  then show ?thesis using assms(3)
    by (auto simp: bulk_item_def refused_item_def answered_item_def Let_def split: sum.splits simp del: has_key_iff)
qed

lemma bulk_sent:
  "session_user c = Some u \<Longrightarrow> us_type u \<noteq> Some ''user'' \<Longrightarrow> list_all (may_stop sv c cache) (bl_sent b) \<Longrightarrow>
   list_all (may_stop sv c cache) (bl_sent (foldl (bulk_item sv post \<lfloor>cx_now c\<rfloor> (cx_db c) cache (us_id u)) b items))"
  by (induction items arbitrary: b) (auto intro: bulk_item_sent)

lemma single_sent: "list_all (may_stop sv c cache) (fst (stop_challenge_by_admin sv find_id post c cache data))"
proof -
  have "may_stop sv c cache (stop_request sv \<lfloor>cx_now c\<rfloor> cid tid uid)"
    if "se_id (cx_session c) = Some uid" "user_by_id (cx_db c) uid = Some u" "us_type u \<noteq> Some ''user''"
      "has_key cache (generate_cache_key (py_str sv cid) (py_str sv tid))" for u uid cid tid
    unfolding may_stop_def using that user_by_id_id[OF that(2)]
    by (intro exI[of _ u] exI[of _ cid] exI[of _ tid]) (simp add: session_user_def)
  then show ?thesis
    by (auto simp: stop_challenge_by_admin_def session_id_def Let_def split: option.splits simp del: has_key_iff)
qed

text \<open>
  Also proved: the stop endpoints ask the deployment service to stop an instance only for a
  session of a member of staff, with the signature of the request, and only while the store has
  the key of that instance; stopping everything needs a member of staff too.
\<close>

theorem stop_requests_guarded:
  "list_all (may_stop sv c cache) (fst (stop_challenge_by_admin sv find_id post c cache data) @
     bl_sent (snd (stop_challenge_bulk_by_admin sv post c cache data))) \<and>
   (fst (stop_all_challenges sv post c) = [] \<or> (\<exists>u. session_user c = Some u \<and> us_type u \<noteq> Some ''user'' \<and>
     fst (stop_all_challenges sv post c) = [stop_all_request sv \<lfloor>cx_now c\<rfloor> (us_id u)]))"
proof -
  have "list_all (may_stop sv c cache) (bl_sent (snd (stop_challenge_bulk_by_admin sv post c cache data)))"
  proof (cases "session_user c")
    case None
    then show ?thesis
      by (auto simp: stop_challenge_bulk_by_admin_def session_user_def no_bulk_def split: option.splits)
  next
    case (Some u)
    then have "se_id (cx_session c) = Some (us_id u)" "user_by_id (cx_db c) (us_id u) = Some u"
      by (auto simp: session_user_def user_by_id_id split: option.splits)
    then show ?thesis
      by (auto simp: stop_challenge_bulk_by_admin_def no_bulk_def intro!: bulk_sent[OF Some] split: pyval.splits)
  qed
  then show ?thesis using single_sent[of sv c cache find_id post data]
    by (auto simp: stop_all_challenges_def session_id_def session_user_def user_by_id_id Let_def split: option.splits)
qed

definition tallied :: "nat \<Rightarrow> bulk \<Rightarrow> bool" where
  "tallied n b = (length (bl_results b) = n \<and> bl_stopped b = length (filter bk_success (bl_results b)) \<and>
     bl_stopped b + bl_failed b = n \<and> bl_stopped b \<le> length (bl_sent b) \<and> length (bl_sent b) \<le> n)"

lemma bulk_item_tallied: "tallied n b \<Longrightarrow> tallied (Suc n) (bulk_item sv post now d cache uid b item)"
  by (auto simp: tallied_def bulk_item_def refused_item_def answered_item_def Let_def split: sum.splits)

text \<open>
  Also proved: a bulk stop reports on every item of the list, once and in order; the counters
  of stopped and failed items add up to the length of the list, and no more requests are sent
  than there are items.
\<close>

theorem bulk_stop_tally:
  "stop_challenge_bulk_by_admin sv post c cache data = (200, b) \<Longrightarrow>
   \<exists>items. dget data ''items'' = PList items \<and> tallied (length items) b"
proof -
  have tally: "tallied n b \<Longrightarrow> tallied (n + length items) (foldl (bulk_item sv post now d cache uid) b items)" for n b items now d uid
  proof (induction items arbitrary: n b)
    case (Cons item items)
    show ?case using Cons.IH[OF bulk_item_tallied[OF Cons.prems]] by simp
  qed simp
  have none: "tallied 0 no_bulk" by (simp add: tallied_def no_bulk_def)
  assume "stop_challenge_bulk_by_admin sv post c cache data = (200, b)"
  then show ?thesis using tally[OF none]
    by (auto simp: stop_challenge_bulk_by_admin_def split: option.splits if_splits pyval.splits)
qed

section \<open>Pages\<close>

lemma filterE_mset: "filterE p xs = Inr ys \<Longrightarrow> mset ys \<subseteq># mset xs"
proof (induction xs arbitrary: ys)
  case (Cons x xs)
  then obtain b zs where z: "filterE p xs = Inr zs" "ys = (if b then x # zs else zs)" by (auto simp: bindE_Inr_iff)
  show ?case using Cons.IH[OF z(1)] z(2) by (auto intro: subset_mset.order_trans)
qed simp

lemma narrow_mset: "narrow needle f xs = Inr ys \<Longrightarrow> mset ys \<subseteq># mset xs"
  by (auto simp: narrow_def Let_def filterE_mset split: if_splits)

lemma filters_mset: "instance_filters q xs = Inr ys \<Longrightarrow> mset ys \<subseteq># mset xs"
  by (auto simp: instance_filters_def bindE_Inr_iff) (meson narrow_mset subset_mset.order_trans)

lemma mset_py_sort [simp]: "mset (py_sort key down xs) = mset xs"
  by (simp add: py_sort_def)

lemma order_mset: "instance_order q xs = Inr ys \<Longrightarrow> mset ys = mset xs"
proof -
  have t: "mset zs = mset xs" if st: "sort_text key down xs = Inr zs" for key down zs
  proof -
    obtain ks where ks: "mapE (\<lambda>r. lower_of (key r)) xs = Inr ks" "zs = map snd (py_sort fst down (zip ks xs))"
      using st by (auto simp: sort_text_def bindE_Inr_iff)
    have "mset zs = image_mset snd (mset (zip ks xs))" unfolding ks(2) by (simp only: mset_map mset_py_sort)
    also have "\<dots> = mset (map snd (zip ks xs))" by simp
    finally show ?thesis using length_mapE[OF ks(1)] by simp
  qed
  assume "instance_order q xs = Inr ys"
  then show ?thesis by (auto simp: instance_order_def Let_def t split: if_splits)
qed

lemma chunks: "concat (map (\<lambda>i. take k (drop (i * k) xs)) [0..<n]) = take (n * k) xs"
  by (induction n) (simp_all add: take_add[symmetric] add.commute)

lemma py_slice_nat: "a \<le> b \<Longrightarrow> py_slice (int a) (int b) xs = take (b - a) (drop a xs)"
proof -
  assume ab: "a \<le> b"
  have m: "min (int x) (int (length xs)) = int (min x (length xs))" for x by simp
  have "py_slice (int a) (int b) xs = take (min b (length xs) - min a (length xs)) (drop (min a (length xs)) xs)"
    by (simp add: py_slice_def Let_def m del: of_nat_min flip: of_nat_diff) (simp add: min_def nat_minus_as_int)
  also have "\<dots> = take (b - a) (drop a xs)" using ab by (auto simp: min_def)
  finally show ?thesis .
qed

lemma page_is_chunk: "instance_page (int i + 1) (int per) xs = take per (drop (i * per) xs)"
proof -
  have a: "(int i + 1 - 1) * int per = int (i * per)" and b: "int (i * per) + int per = int (i * per + per)" by simp_all
  show ?thesis unfolding instance_page_def Let_def a b by (simp only: py_slice_nat[OF le_add1] add_diff_cancel_left')
qed

lemma pages_cover: "0 < per \<Longrightarrow> concat (map (\<lambda>p. instance_page p per xs) [1..instance_pages per xs]) = xs"
proof -
  assume per: "0 < per"
  then obtain k where k: "per = int k" "0 < k" by (metis zero_less_imp_eq_int)
  let ?n = "(length xs + k - 1) div k"
  have "int (length xs) + int k - 1 = int (length xs + k - 1)" using k by simp
  then have n: "instance_pages (int k) xs = int ?n" using k by (simp add: instance_pages_def zdiv_int)
  have "[1..int m] = map (\<lambda>i. int i + 1) [0..<m]" for m
    by (induction m) (simp_all add: upto_rec2)
  then have "concat (map (\<lambda>p. instance_page p per xs) [1..instance_pages per xs]) = take (?n * k) xs"
    by (simp only: n map_map comp_def k(1) page_is_chunk chunks)
  moreover have "length xs \<le> ?n * k"
    using k(2) div_mult_mod_eq[of "length xs + k - 1" k] mod_less_divisor[OF k(2), of "length xs + k - 1"] by linarith
  ultimately show ?thesis by simp
qed

text \<open>
  Also proved: the pages of the listing of running instances, from the first to the last one it
  announces, put together are one list of rows of the store, of the length announced: no
  instance is on two pages or on none.
\<close>

theorem instance_pages_complete:
  assumes "get_all_instance loads find_id fmt c entries q = Inr l" "0 < iq_per_page q"
  shows "\<exists>rows out. all_instances loads find_id fmt (cx_db c) entries = Inr rows \<and> mset out \<subseteq># mset rows \<and>
    length out = il_total l \<and>
    concat (map (\<lambda>p. case get_all_instance loads find_id fmt c entries (q\<lparr>iq_page := p\<rparr>) of Inr x \<Rightarrow> il_data x | Inl e \<Rightarrow> []) [1..il_pages l]) = out"
proof -
  have page_free: "instance_filters (q\<lparr>iq_page := p\<rparr>) = instance_filters q" "instance_order (q\<lparr>iq_page := p\<rparr>) = instance_order q" for p
    by (simp_all add: instance_filters_def instance_order_def fun_eq_iff cong: if_cong)
  obtain u rows kept out where u: "get_current_user c = Inr u" "u \<noteq> None" "yes (is_admin c)"
    and r: "all_instances loads find_id fmt (cx_db c) entries = Inr rows" "instance_filters q rows = Inr kept" "instance_order q kept = Inr out"
    and l: "il_pages l = instance_pages (iq_per_page q) out" "il_total l = length out"
    using assms(1) by (auto simp: get_all_instance_def bindE_Inr_iff split: sum.splits if_splits)
  have "(case get_all_instance loads find_id fmt c entries (q\<lparr>iq_page := p\<rparr>) of Inr x \<Rightarrow> il_data x | Inl e \<Rightarrow> []) =
      instance_page p (iq_per_page q) out" for p
    using u(1,3) r by (cases u) (use u(2) in \<open>simp_all add: get_all_instance_def page_free\<close>)
  then have "concat (map (\<lambda>p. case get_all_instance loads find_id fmt c entries (q\<lparr>iq_page := p\<rparr>) of Inr x \<Rightarrow> il_data x | Inl e \<Rightarrow> []) [1..il_pages l]) = out"
    using pages_cover[OF assms(2), of out] by (simp add: l)
  moreover have "mset out \<subseteq># mset rows" using filters_mset[OF r(2)] order_mset[OF r(3)] by simp
  ultimately show ?thesis using r(1) l(2) by (intro exI[of _ rows] exI[of _ out]) simp
qed


section \<open>Logs\<close>

text \<open>
  The four log endpoints share the look-up of the caller, who has passed the decorator, and of
  the team; \<open>ask\<close> sends the request for the logs of a team.
\<close>

datatype logs = Logs pyval | LogsRefused nat

definition logs_team :: "user \<Rightarrow> string option \<Rightarrow> int option" where
  "logs_team u param = (case param of
      None \<Rightarrow> Some (case us_team_id u of Some t \<Rightarrow> t | None \<Rightarrow> -1)
    | Some s \<Rightarrow> py_int_str s)"

definition team_logs :: "ctx \<Rightarrow> string option \<Rightarrow> (int \<Rightarrow> out_request) \<Rightarrow> poster \<Rightarrow> py_exc + logs reply" where
  "team_logs c param ask post = admin_or_challenge_writer_only_or_jury c
     (bindE (session_id c) (\<lambda>uid. case user_by_id (cx_db c) uid of
        None \<Rightarrow> Inr (Body (LogsRefused 403))
      | Some u \<Rightarrow> if us_type u = Some ''user'' then Inr (Body (LogsRefused 400))
          else (case logs_team u param of
              None \<Rightarrow> Inr (Body (LogsRefused 400))
            | Some tid \<Rightarrow> bindE (logs_of (post (ask tid))) (\<lambda>v. Inr (Body (Logs v))))))"

definition get_pods_logs_api :: "service \<Rightarrow> poster \<Rightarrow> ctx \<Rightarrow> int \<Rightarrow> string option \<Rightarrow> py_exc + logs reply" where
  "get_pods_logs_api sv post c cid param = team_logs c param (\<lambda>tid. pod_logs_request sv \<lfloor>cx_now c\<rfloor> cid (Some tid)) post"

definition get_request_logs_api :: "service \<Rightarrow> poster \<Rightarrow> ctx \<Rightarrow> int \<Rightarrow> string option \<Rightarrow> string option \<Rightarrow> py_exc + logs reply" where
  "get_request_logs_api sv post c cid param ns =
     team_logs c param (\<lambda>tid. request_logs_request sv \<lfloor>cx_now c\<rfloor> cid (Some tid) ns) post"

definition history_entry :: "deploy_state \<Rightarrow> int \<Rightarrow> deploy_history option" where
  "history_entry st i = first_where (\<lambda>h. dh_id h = i) (dp_history st)"

text \<open>The log content of the history entry is taken as the name of the workflow.\<close>

definition get_deploy_logs :: "service \<Rightarrow> poster \<Rightarrow> ctx \<Rightarrow> deploy_state \<Rightarrow> int \<Rightarrow> py_exc + logs reply" where
  "get_deploy_logs sv post c st i = admin_or_challenge_writer_only_or_jury c
     (bindE (session_id c) (\<lambda>uid. case user_by_id (cx_db c) uid of
        None \<Rightarrow> Inr (Body (LogsRefused 403))
      | Some u \<Rightarrow> if us_type u = Some ''user'' then Inr (Body (LogsRefused 400))
          else (case history_entry st i of
              None \<Rightarrow> Inr (Body (LogsRefused 404))
            | Some h \<Rightarrow> (case dh_log_content h of
                  None \<Rightarrow> Inr (Body (LogsRefused 404))
                | Some workflow \<Rightarrow> if workflow = [] then Inr (Body (LogsRefused 404))
                    else bindE (answer_json (post (workflow_logs_request sv \<lfloor>cx_now c\<rfloor> (dh_challenge_id h) workflow uid)))
                      (\<lambda>v. Inr (Body (Logs v)))))))"

definition get_list_challenge_deploy :: "deploy_state \<Rightarrow> int \<Rightarrow> (deploy_history \<times> challenge) list" where
  "get_list_challenge_deploy st cid = List.map_filter (\<lambda>h. if dh_challenge_id h = cid
     then map_option (Pair h) (challenge_by_id (dp_db st) (dh_challenge_id h)) else None) (dp_history st)"

definition view_deploy_history :: "ctx \<Rightarrow> deploy_state \<Rightarrow> int \<Rightarrow> py_exc + (deploy_history \<times> challenge) list reply" where
  "view_deploy_history c st cid = admin_or_challenge_writer_only_or_jury c
     (bindE (first_or_404 (challenge_by_id (dp_db st) cid)) (\<lambda>_. Inr (Body (if cid = 0 then [] else get_list_challenge_deploy st cid))))"

text \<open>The entry is read before it is compared with \<open>None\<close>.\<close>

definition view_deploy_history_details :: "ctx \<Rightarrow> deploy_state \<Rightarrow> int \<Rightarrow> py_exc + deploy_history reply" where
  "view_deploy_history_details c st i = admin_or_challenge_writer_only_or_jury c
     (case (case history_entry st i of None \<Rightarrow> None | Some h \<Rightarrow> if challenge_by_id (dp_db st) (dh_challenge_id h) = None then None else Some h) of
       None \<Rightarrow> Inl AttributeError | Some h \<Rightarrow> Inr (Body h))"

section \<open>Versions and small listings\<close>

record version_view =
  vv_version :: version
  vv_image_tag :: string
  vv_expose_port :: pyval
  vv_creator :: string

definition version_view_of :: "(string \<Rightarrow> pyval option) \<Rightarrow> db \<Rightarrow> version \<Rightarrow> version_view" where
  "version_view_of loads d v = (let parsed = (case ve_image_link v of None \<Rightarrow> None | Some s \<Rightarrow> if s = [] then None else loads s) in
     \<lparr>vv_version = v, vv_image_tag = image_tag parsed, vv_expose_port = expose_port parsed,
      vv_creator = (case ve_created_by v of None \<Rightarrow> ''Unknown'' | Some i \<Rightarrow> (case user_by_id d i of None \<Rightarrow> ''Unknown'' | Some u \<Rightarrow> us_name u))\<rparr>)"

definition challenge_versions :: "(string \<Rightarrow> pyval option) \<Rightarrow> ctx \<Rightarrow> int \<Rightarrow> py_exc + version_view list reply" where
  "challenge_versions loads c cid = admin_or_challenge_writer_only_or_jury c
     (bindE (first_or_404 (challenge_by_id (cx_db c) cid)) (\<lambda>ch.
      Inr (Body (map (version_view_of loads (cx_db c))
        (py_sort ve_version_number True (filter (\<lambda>v. ve_challenge_id v = ch_id ch) (versions (cx_db c))))))))"

definition challenge_version_detail :: "(string \<Rightarrow> pyval option) \<Rightarrow> ctx \<Rightarrow> int \<Rightarrow> int \<Rightarrow> py_exc + version_view reply" where
  "challenge_version_detail loads c cid vid = admin_or_challenge_writer_only_or_jury c
     (bindE (first_or_404 (challenge_by_id (cx_db c) cid)) (\<lambda>ch.
      bindE (first_or_404 (first_where (\<lambda>v. ve_id v = vid \<and> ve_challenge_id v = ch_id ch) (versions (cx_db c)))) (\<lambda>v.
      Inr (Body (version_view_of loads (cx_db c) v)))))"

definition challenge_submissions_count :: "ctx \<Rightarrow> int \<Rightarrow> py_exc + nat reply" where
  "challenge_submissions_count c cid = admin_or_challenge_writer_only_or_jury c
     (bindE (first_or_404 (challenge_by_id (cx_db c) cid)) (\<lambda>_.
      Inr (Body (length (filter (\<lambda>s. sub_challenge_id s = Some cid) (submissions (cx_db c)))))))"

definition challenge_files_get :: "ctx \<Rightarrow> int \<Rightarrow> py_exc + challenge_file list reply" where
  "challenge_files_get c cid = admin_or_challenge_writer_only_or_jury c
     (Inr (Body (filter (\<lambda>f. fi_type f = Some ''challenge'' \<and> fi_challenge_id f = Some cid) (files (cx_db c)))))"

definition challenge_tags_get :: "ctx \<Rightarrow> int \<Rightarrow> py_exc + tag list reply" where
  "challenge_tags_get c cid = admin_or_challenge_writer_only_or_jury c
     (Inr (Body (filter (\<lambda>t. ta_challenge_id t = Some cid) (tags (cx_db c)))))"

definition challenge_flags_get :: "ctx \<Rightarrow> int \<Rightarrow> py_exc + flag list reply" where
  "challenge_flags_get c cid = admin_or_challenge_writer_only_or_jury c
     (Inr (Body (filter (\<lambda>f. fl_challenge_id f = Some cid) (flags (cx_db c)))))"

definition challenge_requirements_get :: "ctx \<Rightarrow> int \<Rightarrow> py_exc + pyval reply" where
  "challenge_requirements_get c cid = admin_or_challenge_writer_only_or_jury c
     (bindE (first_or_404 (challenge_by_id (cx_db c) cid)) (\<lambda>ch. Inr (Body (ch_requirements ch))))"

section \<open>The estimate\<close>

text \<open>The number of teams: \<open>isdigit\<close> accepts superscripts, which \<open>int\<close> then refuses.\<close>

definition estimated_teams :: "string option \<Rightarrow> py_exc + int option" where
  "estimated_teams v = (case v of
      None \<Rightarrow> Inr None
    | Some s \<Rightarrow> if \<not> py_isdigit s then Inr None
        else bindE (py_int (PStr s)) (\<lambda>n. Inr (if n \<le> 0 then None else Some n)))"

definition estimate_request :: "service \<Rightarrow> string \<Rightarrow> int \<Rightarrow> int list \<Rightarrow> int \<Rightarrow> out_request" where
  "estimate_request sv control now ids n = \<lparr>or_url = control @ ''/api/performance/estimate'',
     or_secret = create_secret_key sv (show_int now)
       [(''ChallengeIdList'', PStr (join_with '','' (map show_int ids))), (''TeamCount'', PInt n)],
     or_payload = [(''UnixTime'', PInt now), (''ChallengeIdList'', PList (map PInt ids)), (''TeamCount'', PInt n)]\<rparr>"

text \<open>The page: the data of the answer, or an error to show.\<close>

datatype estimate_page = Estimated pyval | EstimateError

definition estimate_server :: "service \<Rightarrow> string \<Rightarrow> poster \<Rightarrow> int \<Rightarrow> db \<Rightarrow> string option \<Rightarrow> out_request list \<times> (py_exc + estimate_page)" where
  "estimate_server sv control post now d team_count =
     (case estimated_teams team_count of
       Inl e \<Rightarrow> ([], Inl e)
     | Inr None \<Rightarrow> ([], Inr EstimateError)
     | Inr (Some n) \<Rightarrow>
         let ids = map ch_id (filter ch_require_deploy (challenges d)) in
         if ids = [] then ([], Inr EstimateError)
         else let r = estimate_request sv control now ids n in
           ([r], case answer_json (post r) of
             Inl e \<Rightarrow> Inr EstimateError
           | Inr v \<Rightarrow> bindE (object_of v) (\<lambda>x. Inr (if truthy (dget x ''isSuccess'') then Estimated (dget x ''data'') else EstimateError))))"

section \<open>What the model shows\<close>

text \<open>A failed connection is turned into an exception the endpoint does not catch.\<close>

lemma unreachable_stop_raises:
  "stop_all_challenges sv (\<lambda>_. Unreachable e) c = ([r], x) \<Longrightarrow> x = Inl (RuntimeError e)"
  by (auto simp: stop_all_challenges_def answer_json_def Let_def split: sum.splits option.splits if_splits)

lemma superscript_breaks_estimate:
  "estimate_server sv control post now d (Some [char_of (178::nat)]) = ([], Inl (ValueError ''invalid literal for int()''))"
proof -
  have "estimated_teams (Some [char_of (178::nat)]) = Inl (ValueError ''invalid literal for int()'')" by code_simp
  then show ?thesis by (simp add: estimate_server_def)
qed

lemma missing_history_raises: "yes (is_admin c) \<Longrightarrow> history_entry st i = None \<Longrightarrow> view_deploy_history_details c st i = Inl AttributeError"
  by (simp add: view_deploy_history_details_def admin_or_challenge_writer_only_or_jury_def)

lemma anonymous_status_check: "check_challenge_status sv post (c\<lparr>cx_session := no_session\<rparr>) cid = check_challenge_status sv post c cid"
  by (simp add: check_challenge_status_def)

section \<open>Witnesses\<close>

definition staff_ctx :: ctx where
  "staff_ctx = (let c = sample_ctx ((sample_user 1 None)\<lparr>us_type := Some ''admin''\<rparr>) (Some 1) ''POST'' None in
     c\<lparr>cx_db := (cx_db c)\<lparr>challenges := [sample_challenge 3 (Some 100)]\<rparr>\<rparr>)"

definition running_store :: store where
  "running_store = [(''deploy_challenge_3_7'', ''a''), (''deploy_challenge_3_-1'', ''b''), (''deploy_challenge_3_9'', ''c'')]"

definition two_items :: dict where
  "two_items = [(''items'', PList [PDict [(''challenge_id'', PInt 3), (''team_id'', PStr ''7'')], PInt 5])]"

theorem bulk_stop_tally_witness:
  "\<exists>b. stop_challenge_bulk_by_admin sample_service (\<lambda>_. Answered 200 (Inr (PDict [(''success'', PBool True)]))) staff_ctx running_store two_items = (200, b) \<and>
     tallied 2 b \<and> bl_stopped b = 1"
proof -
  let ?r = "stop_challenge_bulk_by_admin sample_service (\<lambda>_. Answered 200 (Inr (PDict [(''success'', PBool True)]))) staff_ctx running_store two_items"
  have f: "fst ?r = 200" "bl_stopped (snd ?r) = 1" by code_simp+
  then have r: "?r = (200, snd ?r)" by (simp add: prod_eq_iff)
  have "dget two_items ''items'' = PList [PDict [(''challenge_id'', PInt 3), (''team_id'', PStr ''7'')], PInt 5]" by code_simp
  then have "tallied 2 (snd ?r)" using bulk_stop_tally[OF r] by (auto simp: numeral_2_eq_2)
  with r f show ?thesis by metis
qed

definition page_query :: "int \<Rightarrow> instance_query" where
  "page_query p = \<lparr>iq_page = p, iq_per_page = 2, iq_sort_by = ''challenge_id'', iq_sort_order = ''desc'', iq_team = [], iq_challenge = [],
     iq_user = [], iq_category = [], iq_status = []\<rparr>"

definition sample_listing :: instance_listing where
  "sample_listing = (case get_all_instance (\<lambda>_. Some (PDict [])) (\<lambda>_. None) (\<lambda>_. Inr []) staff_ctx running_store (page_query 1) of
     Inr l \<Rightarrow> l | Inl _ \<Rightarrow> \<lparr>il_data = [], il_teams = [], il_users = [], il_categories = [], il_total = 0, il_pages = 0, il_prev = False, il_next = False\<rparr>)"

theorem instance_pages_complete_witness:
  "length (concat (map (\<lambda>p. case get_all_instance (\<lambda>_. Some (PDict [])) (\<lambda>_. None) (\<lambda>_. Inr []) staff_ctx running_store ((page_query 1)\<lparr>iq_page := p\<rparr>) of
     Inr x \<Rightarrow> il_data x | Inl e \<Rightarrow> []) [1..il_pages sample_listing])) = 3"
proof -
  have l: "get_all_instance (\<lambda>_. Some (PDict [])) (\<lambda>_. None) (\<lambda>_. Inr []) staff_ctx running_store (page_query 1) = Inr sample_listing"
    by code_simp
  have q: "0 < iq_per_page (page_query 1)" and t: "il_total sample_listing = 3" by code_simp+
  from instance_pages_complete[OF l q] t show ?thesis by auto
qed

end
