(* ===== verification/AdminTools.thy ===== *)
theory AdminTools imports ChallengeEdit Instances begin

text \<open>
  Tools of the administration with state of their own: support tickets (\<^verbatim>\<open>SendTicket.py\<close>,
  \<^verbatim>\<open>admin/Ticket.py\<close>), and from \<^verbatim>\<open>admin/submissions.py\<close> the listing of answers and the new calculation of all
  dynamic values.  The LIKE operator and the parser of dates are parameters.
\<close>

section \<open>Tickets\<close>

record ticket =
  ti_id :: int
  ti_author_id :: "int option"
  ti_title :: "string option"
  ti_type :: "string option"
  ti_description :: "string option"
  ti_replier_id :: "int option"
  ti_replier_message :: "string option"
  ti_status :: "string option"
  ti_create_at :: date

record ticket_view =
  tv_ticket :: ticket
  tv_author_name :: string
  tv_team_name :: string
  tv_replier_name :: string

definition string_or_empty :: "string option \<Rightarrow> string" where
  "string_or_empty s = (case s of None \<Rightarrow> [] | Some x \<Rightarrow> x)"

definition user_name_of :: "db \<Rightarrow> int option \<Rightarrow> string option" where
  "user_name_of d i = (case i of None \<Rightarrow> None | Some i \<Rightarrow> map_option us_name (user_by_id d i))"

text \<open>The author is joined, the replier and the team of the author are joined where they exist.\<close>

definition ticket_view_of :: "db \<Rightarrow> ticket \<Rightarrow> ticket_view option" where
  "ticket_view_of d t = (case ti_author_id t of None \<Rightarrow> None
     | Some a \<Rightarrow> (case user_by_id d a of None \<Rightarrow> None
         | Some u \<Rightarrow> Some \<lparr>tv_ticket = t, tv_author_name = us_name u,
             tv_team_name = string_or_empty (map_option te_name (case us_team_id u of None \<Rightarrow> None | Some i \<Rightarrow> team_by_id d i)),
             tv_replier_name = string_or_empty (user_name_of d (ti_replier_id t))\<rparr>))"

definition get_ticket_by_id :: "db \<Rightarrow> ticket list \<Rightarrow> int \<Rightarrow> nat \<times> ticket_view option" where
  "get_ticket_by_id d ts i = (case Option.bind (first_where (\<lambda>t. ti_id t = i) ts) (ticket_view_of d) of
       None \<Rightarrow> (404, None) | Some v \<Rightarrow> (200, Some v))"

text \<open>Descending by date, nulls last; rows of one date stay in the order of their ids.\<close>

definition newest_first :: "date \<Rightarrow> int \<times> int" where
  "newest_first x = (case x of None \<Rightarrow> (1, 0) | Some t \<Rightarrow> (0, - t))"

record ticket_query =
  tq_user_id :: "int option"
  tq_status :: "string option"
  tq_type :: "string option"
  tq_search :: "string option"

text \<open>An empty argument and the number 0 are no filter; \<open>ilike text pattern\<close> is the operator of the database.\<close>

definition given_text :: "string option \<Rightarrow> string option" where
  "given_text s = (case s of None \<Rightarrow> None | Some x \<Rightarrow> if x = [] then None else Some x)"

definition like_filter :: "(string \<Rightarrow> string \<Rightarrow> bool) \<Rightarrow> string option \<Rightarrow> string option \<Rightarrow> bool" where
  "like_filter ilike pattern text = (case given_text pattern of None \<Rightarrow> True | Some p \<Rightarrow> (case text of None \<Rightarrow> False | Some s \<Rightarrow> ilike s p))"

definition ticket_matches :: "(string \<Rightarrow> string \<Rightarrow> bool) \<Rightarrow> ticket_query \<Rightarrow> ticket \<Rightarrow> bool" where
  "ticket_matches ilike q t =
     ((case tq_user_id q of None \<Rightarrow> True | Some i \<Rightarrow> i = 0 \<or> ti_author_id t = Some i) \<and>
      like_filter ilike (tq_status q) (ti_status t) \<and> like_filter ilike (tq_type q) (ti_type t) \<and>
      like_filter ilike (map_option (\<lambda>s. ''%'' @ s @ ''%'') (given_text (tq_search q))) (ti_title t))"

definition matching_tickets :: "(string \<Rightarrow> string \<Rightarrow> bool) \<Rightarrow> db \<Rightarrow> ticket list \<Rightarrow> ticket_query \<Rightarrow> ticket_view list" where
  "matching_tickets ilike d ts q = List.map_filter (ticket_view_of d)
     (sort_key (\<lambda>t. newest_first (ti_create_at t)) (filter (ticket_matches ilike q) ts))"

definition get_all_tickets :: "(string \<Rightarrow> string \<Rightarrow> bool) \<Rightarrow> db \<Rightarrow> ticket list \<Rightarrow> ticket_query \<Rightarrow> int \<Rightarrow> int \<Rightarrow> ticket_view list \<times> nat" where
  "get_all_tickets ilike d ts q page per_page =
     (let vs = matching_tickets ilike d ts q; p = max page 1; k = max per_page 1 in
      (take (nat k) (drop (nat ((p - 1) * k)) vs), length vs))"

text \<open>The page bounds the size of a page; an argument that is missing, no number or 0 is the default.\<close>

definition or_default :: "int \<Rightarrow> int option \<Rightarrow> int" where
  "or_default dflt x = (case x of None \<Rightarrow> dflt | Some i \<Rightarrow> if i = 0 then dflt else i)"

definition view_tickets :: "(string \<Rightarrow> string \<Rightarrow> bool) \<Rightarrow> db \<Rightarrow> ticket list \<Rightarrow> ticket_query \<Rightarrow> int option \<Rightarrow> int option \<Rightarrow> ticket_view list \<times> nat" where
  "view_tickets ilike d ts q page per_page =
     get_all_tickets ilike d ts q (max (or_default 1 page) 1) (min (max (or_default 50 per_page) 1) 100)"

definition send_ticket_from_replier :: "ticket list \<Rightarrow> int option \<Rightarrow> int \<Rightarrow> string \<Rightarrow> nat \<times> ticket list" where
  "send_ticket_from_replier ts ticket_id replier message =
     (if replier = 0 \<or> message = [] then (400, ts)
      else case Option.bind ticket_id (\<lambda>i. first_where (\<lambda>t. ti_id t = i) ts) of
        None \<Rightarrow> (404, ts)
      | Some t \<Rightarrow> (200, update_where (\<lambda>x. ti_id x = ti_id t)
          (\<lambda>x. x\<lparr>ti_replier_id := Some replier, ti_replier_message := Some message, ti_status := Some ''Closed''\<rparr>) ts))"

text \<open>
  A page that only redirects: the kind of its message, and where it leads.  An exception of the
  lookup of the user becomes a message too; so does the address of a ticket that was not named.
\<close>

datatype notice = Notice string string

definition send_response :: "(string \<Rightarrow> int option) \<Rightarrow> ctx \<Rightarrow> ticket list \<Rightarrow> string option \<Rightarrow> string option \<Rightarrow> notice \<times> ticket list" where
  "send_response find_id c ts ticket_id response = (case get_current_user c of
       Inl _ \<Rightarrow> (Notice ''danger'' ''admin.view_tickets'', ts)
     | Inr None \<Rightarrow> (Notice ''danger'' ''admin.view_tickets'', ts)
     | Inr (Some u) \<Rightarrow> (case (given_text ticket_id, given_text response) of
         (Some i, Some m) \<Rightarrow> (case send_ticket_from_replier ts (find_id i) (us_id u) m of
             (code, ts') \<Rightarrow> (Notice (if code = 200 then ''success'' else ''danger'') ''admin.view_tickets'', ts'))
       | (Some i, None) \<Rightarrow> (Notice ''danger'' (if py_int_str i \<noteq> None then ''admin.view_tickets_detail'' else ''admin.view_tickets''), ts)
       | (None, _) \<Rightarrow> (Notice ''danger'' ''admin.view_tickets'', ts)))"

definition delete_ticket :: "ticket list \<times> nat \<Rightarrow> string \<Rightarrow> py_exc + ticket list \<times> nat" where
  "delete_ticket st s = bindE (py_int (PStr s)) (\<lambda>i.
     Inr (case first_where (\<lambda>t. ti_id t = i) (fst st) of
        None \<Rightarrow> st
      | Some t \<Rightarrow> (delete_where (\<lambda>x. ti_id x = i) (fst st), snd st + 1)))"

definition delete_tickets :: "ctx \<Rightarrow> ticket list \<Rightarrow> string list \<Rightarrow> py_exc + (notice \<times> ticket list) reply" where
  "delete_tickets c ts ids = admins_only c (Inr (Body
     (if ids = [] then (Notice ''warning'' ''admin.view_tickets'', ts)
      else case foldE delete_ticket (ts, 0) ids of
        Inl _ \<Rightarrow> (Notice ''danger'' ''admin.view_tickets'', ts)
      | Inr (ts', n) \<Rightarrow> (Notice (if 0 < n then ''success'' else ''warning'') ''admin.view_tickets'', ts'))))"

section \<open>The listing of answers\<close>

text \<open>
  The bounds of a day in the browser's time zone; \<open>parse_day\<close> reads a date as its midnight in microseconds.
  A shift beyond the years 1 to 9999 raises an error that is no \<open>ValueError\<close>.
\<close>

definition day_us :: int where "day_us = 86400000000"

definition date_min :: int where "date_min = -62135596800000000"

definition date_max :: int where "date_max = 253402300799999999"

definition shifted :: "int \<Rightarrow> int \<Rightarrow> py_exc + int" where
  "shifted t us = (if \<bar>us\<bar> < 1000000000 * day_us \<and> date_min \<le> t + us \<and> t + us \<le> date_max then Inr (t + us)
     else Inl (RuntimeError ''date value out of range''))"

definition local_to_utc :: "int \<Rightarrow> string \<Rightarrow> py_exc + int" where
  "local_to_utc t offset = shifted t (60000000 * (case py_int (PStr offset) of Inl _ \<Rightarrow> 0 | Inr i \<Rightarrow> i))"

definition id_argument :: "string \<Rightarrow> bool" where
  "id_argument s = (s = [] \<or> (length s \<le> 10 \<and> py_isdecimal s \<and> 0 < digits_value s \<and> digits_value s \<le> 2147483647))"

record answer_query =
  aq_type :: "string option"
  aq_team_id :: string
  aq_user_id :: string
  aq_challenge_id :: string
  aq_date_from :: string
  aq_date_to :: string
  aq_timezone_offset :: string
  aq_page :: int

definition day_bound :: "(string \<Rightarrow> int option) \<Rightarrow> bool \<Rightarrow> string \<Rightarrow> string \<Rightarrow> py_exc + int option" where
  "day_bound parse_day upper s offset = (case parse_day s of None \<Rightarrow> Inr None
     | Some t \<Rightarrow> bindE (if upper then shifted t day_us else Inr t) (\<lambda>t'. bindE (local_to_utc t' offset) (\<lambda>b. Inr (Some b))))"

definition answers_between :: "int option \<Rightarrow> int option \<Rightarrow> submission \<Rightarrow> bool" where
  "answers_between from until s =
     ((case from of None \<Rightarrow> True | Some a \<Rightarrow> (case sub_date s of None \<Rightarrow> False | Some t \<Rightarrow> a \<le> t)) \<and>
      (case until of None \<Rightarrow> True | Some b \<Rightarrow> (case sub_date s of None \<Rightarrow> False | Some t \<Rightarrow> t < b)))"

definition id_filter :: "string \<Rightarrow> int option \<Rightarrow> bool" where
  "id_filter s i = (s = [] \<or> i = Some (digits_value s))"

text \<open>\<open>paginate\<close> with 50 rows to a page; a page below the first is the first.\<close>

definition page_of_answers :: "int \<Rightarrow> submission list \<Rightarrow> submission list" where
  "page_of_answers page xs = take 50 (drop (50 * nat (max 1 \<bar>page\<bar> - 1)) xs)"

text \<open>\<open>also\<close> is the text filter; answers without a challenge or an account are not joined.\<close>

definition submissions_listing ::
  "(string \<Rightarrow> int option) \<Rightarrow> (submission \<Rightarrow> bool) \<Rightarrow> ctx \<Rightarrow> answer_query \<Rightarrow> py_exc + (string, submission list) sum reply" where
  "submissions_listing parse_day also c q = admin_or_jury c
     (if \<not> (id_argument (aq_team_id q) \<and> id_argument (aq_user_id q) \<and> id_argument (aq_challenge_id q))
      then Inr (Body (Inl (if \<not> id_argument (aq_team_id q) then ''team_id'' else if \<not> id_argument (aq_user_id q) then ''user_id'' else ''challenge_id'')))
      else bindE (day_bound parse_day False (aq_date_from q) (aq_timezone_offset q)) (\<lambda>a.
        bindE (day_bound parse_day True (aq_date_to q) (aq_timezone_offset q)) (\<lambda>b.
        if \<not> is_users_mode (cx_conf c) \<and> \<not> is_teams_mode (cx_conf c) then Inl AttributeError
        else Inr (Body (Inr (page_of_answers (aq_page q) (sort_key (\<lambda>s. newest_first (sub_date s)) (filter (\<lambda>s.
          (case given_text (aq_type q) of None \<Rightarrow> True | Some k \<Rightarrow> sub_type s = Some k) \<and>
          id_filter (aq_team_id q) (sub_team_id s) \<and> id_filter (aq_user_id q) (sub_user_id s) \<and> id_filter (aq_challenge_id q) (sub_challenge_id s) \<and>
          answers_between a b s \<and> also s \<and>
          (case sub_challenge_id s of None \<Rightarrow> False | Some i \<Rightarrow> challenge_by_id (cx_db c) i \<noteq> None) \<and>
          (case submission_account_id (cx_conf c) s of None \<Rightarrow> False
           | Some i \<Rightarrow> if is_teams_mode (cx_conf c) then team_by_id (cx_db c) i \<noteq> None else user_by_id (cx_db c) i \<noteq> None)) (submissions (cx_db c))))))))))"

section \<open>New calculation of the dynamic values\<close>

text \<open>Each challenge is locked and committed by itself; one that fails is left as it is.\<close>

definition resync_one :: "config \<Rightarrow> db \<times> nat \<Rightarrow> dyn_row \<Rightarrow> db \<times> nat" where
  "resync_one conf st r = (case bindE (lock_challenge (fst st) (dy_id r)) (\<lambda>(ch, row). case row of
         None \<Rightarrow> Inl AttributeError | Some r' \<Rightarrow> calculate_value (fst st) conf r') of
       Inl _ \<Rightarrow> st | Inr d' \<Rightarrow> (d', snd st + 1))"

definition resync_dynamic_challenges :: "ctx \<Rightarrow> py_exc + (nat \<times> db) reply" where
  "resync_dynamic_challenges c = admins_only c
     (let rows = filter (\<lambda>r. challenge_by_id (cx_db c) (dy_id r) \<noteq> None) (dynamic_rows (cx_db c));
        st = foldl (resync_one (cx_conf c)) (cx_db c, 0) rows in Inr (Body (snd st, fst st)))"

section \<open>Pages of tickets\<close>

lemma page_of_tickets:
  assumes "0 < k"
  shows "fst (get_all_tickets ilike d ts q (int i + 1) (int k)) = take k (drop (i * k) (matching_tickets ilike d ts q))"
proof -
  have "nat (int i * int k) = i * k" by (simp flip: of_nat_mult)
  moreover have "max (int k) 1 = int k" "max (int i + 1) 1 = int i + 1" using assms by auto
  ultimately show ?thesis by (simp add: get_all_tickets_def Let_def)
qed

text \<open>
  Also proved: going through the pages of the ticket view shows every matching ticket exactly once,
  newest first, whatever size of page between 1 and 100 is asked for.
\<close>

theorem ticket_pages_complete:
  assumes "0 < k" "k \<le> 100" "length (matching_tickets ilike d ts q) \<le> n * k"
  shows "concat (map (\<lambda>i. fst (view_tickets ilike d ts q (Some (int i + 1)) (Some (int k)))) [0..<n]) = matching_tickets ilike d ts q"
proof -
  have "fst (view_tickets ilike d ts q (Some (int i + 1)) (Some (int k))) = take k (drop (i * k) (matching_tickets ilike d ts q))" for i
  proof -
    have "max (or_default 1 (Some (int i + 1))) 1 = int i + 1" "min (max (or_default 50 (Some (int k))) 1) 100 = int k"
      using assms(1,2) by (auto simp: or_default_def)
    then show ?thesis unfolding view_tickets_def by (simp only: page_of_tickets[OF assms(1)])
  qed
  then show ?thesis using assms(3) by (simp add: chunks)
qed

section \<open>Replies and deletions\<close>

text \<open>
  Also proved: a reply closes one ticket in the name of the user of the session, and changes neither
  another ticket nor what the author wrote.
\<close>

theorem reply_closes_ticket:
  assumes "send_response find_id c ts ticket_id response = (n, ts')" "ts' \<noteq> ts"
  shows "\<exists>u i m. get_current_user c = Inr (Some u) \<and> response = Some m \<and> m \<noteq> [] \<and>
    ts' = update_where (\<lambda>x. ti_id x = i) (\<lambda>x. x\<lparr>ti_replier_id := Some (us_id u), ti_replier_message := Some m, ti_status := Some ''Closed''\<rparr>) ts"
proof -
  obtain u where u: "get_current_user c = Inr (Some u)"
    using assms by (auto simp: send_response_def split: sum.splits option.splits)
  obtain i m where g: "given_text ticket_id = Some i" "given_text response = Some m"
    using assms u by (auto simp: send_response_def split: option.splits)
  have m: "response = Some m" "m \<noteq> []" using g(2) by (auto simp: given_text_def split: option.splits if_splits)
  have "send_ticket_from_replier ts (find_id i) (us_id u) m = (fst (send_ticket_from_replier ts (find_id i) (us_id u) m), ts')"
    using assms(1) u g by (cases "send_ticket_from_replier ts (find_id i) (us_id u) m") (simp add: send_response_def)
  with assms(2) u m show ?thesis
    by (cases "send_ticket_from_replier ts (find_id i) (us_id u) m")
      (auto simp: send_ticket_from_replier_def split: if_splits option.splits)
qed

lemma delete_tickets_fold:
  "foldE delete_ticket (ts, k) ids = Inr (ts', n) \<Longrightarrow>
   ts' = filter (\<lambda>t. \<forall>s\<in>set ids. py_int (PStr s) \<noteq> Inr (ti_id t)) ts \<and> (distinct (map ti_id ts) \<longrightarrow> n + length ts' = k + length ts)"
proof (induction ids arbitrary: ts k)
  case (Cons s ids)
  from Cons.prems obtain ts1 k1 where s: "delete_ticket (ts, k) s = Inr (ts1, k1)" and f: "foldE delete_ticket (ts1, k1) ids = Inr (ts', n)"
    by (auto simp: bindE_Inr_iff)
  then obtain i where i: "py_int (PStr s) = Inr i" by (auto simp: bindE_Inr_iff delete_ticket_def simp del: py_int.simps)
  have t1: "ts1 = filter (\<lambda>t. ti_id t \<noteq> i) ts"
    using s i by (auto simp: delete_ticket_def delete_where_def first_where_None filter_id_conv split: option.splits intro!: filter_True[symmetric])
  have count: "k1 + length ts1 = k + length ts \<and> distinct (map ti_id ts1)" if d: "distinct (map ti_id ts)"
  proof (cases "first_where (\<lambda>t. ti_id t = i) ts")
    case None
    then show ?thesis using s i d by (simp add: delete_ticket_def)
  next
    case (Some t)
    then have "t \<in> set ts" "ti_id t = i" by (auto dest: first_where_SomeD)
    then have "filter (\<lambda>x. ti_id x = i) ts = [t]" using d by (induction ts) (auto simp: filter_empty_conv image_iff)
    then have "length ts = Suc (length (filter (\<lambda>x. ti_id x \<noteq> i) ts))"
      using sum_length_filter_compl[of "\<lambda>x. ti_id x = i" ts] by simp
    with Some s i t1 d show ?thesis by (auto simp: delete_ticket_def distinct_map_filter)
  qed
  from Cons.IH[OF f] i count show ?case
    by (auto simp: t1 intro!: filter_cong)
qed simp

text \<open>
  Also proved: the deletion of tickets is all or nothing: an id that is no number leaves every ticket,
  otherwise exactly the tickets named are gone.
\<close>

theorem tickets_deleted_together:
  assumes "delete_tickets c ts ids = Inr (Body (n, ts'))"
  shows "ts' = (if list_ex (\<lambda>s. py_int_str s = None) ids then ts
    else filter (\<lambda>t. \<not> list_ex (\<lambda>s. py_int_str s = Some (ti_id t)) ids) ts)"
proof -
  have run: "(\<exists>st'. foldE delete_ticket st xs = Inr st') \<longleftrightarrow> \<not> list_ex (\<lambda>s. py_int_str s = None) xs" for st xs
    by (induction xs arbitrary: st) (auto simp: delete_ticket_def split: option.splits)
  show ?thesis
  proof (cases "foldE delete_ticket (ts, 0) ids")
    case (Inl e)
    then show ?thesis using assms run[of "(ts, 0)" ids]
      by (auto simp: delete_tickets_def admins_only_def deny_def split: if_splits)
  next
    case (Inr st)
    obtain ts1 k where st: "st = (ts1, k)" by (cases st)
    have n: "\<not> list_ex (\<lambda>s. py_int_str s = None) ids" using run[of "(ts, 0)" ids] Inr by simp
    have "ts' = ts1" using assms Inr st by (auto simp: delete_tickets_def admins_only_def deny_def split: if_splits)
    with delete_tickets_fold[of ts 0 ids ts1 k] Inr st n show ?thesis
      by (auto simp: list_ex_iff intro!: filter_cong split: option.splits)
  qed
qed

section \<open>Values after a new calculation\<close>

lemma types_ok_dynamic:
  assumes "types_ok d" "r \<in> set (dynamic_rows d)"
  shows "\<exists>ch. lock_challenge d (dy_id r) = Inr (ch, Some r) \<and> challenge_by_id d (dy_id r) = Some ch \<and> challenge_type ch = ''dynamic''"
proof -
  obtain c where c: "c \<in> set (challenges d)" "ch_id c = dy_id r" "challenge_type c = ''dynamic''"
  proof -
    have "dy_id r \<in> fst ` {k \<in> set (map kind_of (challenges d)). snd k}"
      using assms by (auto simp: types_ok_def)
    then show ?thesis using that by (auto simp: kind_of_def)
  qed
  then have ch: "challenge_by_id d (dy_id r) = Some c"
    using first_where_unique[of ch_id "challenges d" c] assms(1) by (simp add: challenge_by_id_def types_ok_def)
  moreover have "dynamic_by_id d (dy_id r) = Some r"
    using first_where_unique[of dy_id "dynamic_rows d" r] assms by (simp add: dynamic_by_id_def types_ok_def)
  ultimately show ?thesis using c by (simp add: lock_challenge_def first_or_404_def)
qed

lemma resync_one_effect:
  assumes "types_ok d" "r \<in> set (dynamic_rows d)" "valid_dynamic r" "is_users_mode conf \<or> is_teams_mode conf"
  shows "\<exists>v. resync_one conf (d, n) r = (set_value (dy_id r) v d, Suc n) \<and> decay_value d conf r = Inr v"
proof -
  obtain ch where l: "lock_challenge d (dy_id r) = Inr (ch, Some r)" using types_ok_dynamic[OF assms(1,2)] by blast
  obtain d' where d': "recalculate d conf ch (Some r) = Inr d'"
    using recalculate_exists[of ch "Some r" conf d] assms(3,4) by (auto simp: scorable_def)
  from recalculate_Inr[OF d'] obtain v where "decay_value d conf r = Inr v" "d' = set_value (dy_id r) v d" by auto
  moreover have "calculate_value d conf r = Inr d'" using d' by (simp add: recalculate_def)
  ultimately show ?thesis using l by (simp add: resync_one_def)
qed

lemma resync_all:
  assumes "types_ok d" "set rs \<subseteq> set (dynamic_rows d)" "\<And>r. r \<in> set rs \<Longrightarrow> valid_dynamic r" "is_users_mode conf \<or> is_teams_mode conf"
  shows "\<exists>d'. foldl (resync_one conf) (d, n) rs = (d', n + length rs) \<and> dynamic_rows d' = dynamic_rows d \<and>
    submissions d' = submissions d \<and> solve_rows d' = solve_rows d \<and> users d' = users d \<and> teams d' = teams d \<and>
    (\<forall>r\<in>set (dynamic_rows d). r \<in> set rs \<or> value_current conf d r \<longrightarrow> value_current conf d' r)"
  using assms(1-3)
proof (induction rs arbitrary: d n)
  case (Cons r rs)
  obtain v where v: "resync_one conf (d, n) r = (set_value (dy_id r) v d, Suc n)" "decay_value d conf r = Inr v"
    using resync_one_effect[OF Cons.prems(1) _ _ assms(4), of r n] Cons.prems(2,3) by auto
  let ?d = "set_value (dy_id r) v d"
  have ok: "types_ok ?d" using Cons.prems(1) unfolding types_ok_kinds set_value_kinds by simp
  have now: "value_current conf ?d r"
    using v(2) by (auto simp: value_current_def challenge_by_id_set_value split: option.splits)
  have old: "value_current conf ?d x" if x: "x \<in> set (dynamic_rows d)" "value_current conf d x" for x
  proof (cases "dy_id x = dy_id r")
    case True
    then have "x = r" using x(1) Cons.prems(1,2) by (auto simp: types_ok_def distinct_map inj_on_def)
    with now show ?thesis by simp
  next
    case False
    then show ?thesis by (intro value_currentI[OF x(2)]) (simp_all add: challenge_by_id_set_value_other)
  qed
  obtain d' where d': "foldl (resync_one conf) (?d, Suc n) rs = (d', Suc n + length rs)" "dynamic_rows d' = dynamic_rows ?d"
      "submissions d' = submissions ?d" "solve_rows d' = solve_rows ?d" "users d' = users ?d" "teams d' = teams ?d"
      "\<forall>x\<in>set (dynamic_rows ?d). x \<in> set rs \<or> value_current conf ?d x \<longrightarrow> value_current conf d' x"
    using Cons.IH[OF ok, of "Suc n"] Cons.prems(2,3) by auto
  with now old v(1) show ?case by (intro exI[of _ d']) auto
qed auto

text \<open>
  Also proved: a new calculation of all dynamic values reaches every dynamic challenge with a valid
  configuration, whatever its stored value was: afterwards each has the value of its decay function
  at the current solves, and answers, solves and accounts are as before.
\<close>

theorem resync_restores_values:
  assumes "types_ok (cx_db c)" "list_all valid_dynamic (dynamic_rows (cx_db c))"
    and "is_users_mode (cx_conf c) \<or> is_teams_mode (cx_conf c)" "yes (is_admin c)"
  shows "\<exists>d'. resync_dynamic_challenges c = Inr (Body (length (dynamic_rows (cx_db c)), d')) \<and> values_current (cx_conf c) d' \<and>
    submissions d' = submissions (cx_db c) \<and> solve_rows d' = solve_rows (cx_db c) \<and> users d' = users (cx_db c) \<and> teams d' = teams (cx_db c)"
proof -
  have "filter (\<lambda>r. challenge_by_id (cx_db c) (dy_id r) \<noteq> None) (dynamic_rows (cx_db c)) = dynamic_rows (cx_db c)"
    using types_ok_dynamic[OF assms(1)] by (intro filter_True) auto
  moreover obtain d' where "foldl (resync_one (cx_conf c)) (cx_db c, 0) (dynamic_rows (cx_db c)) = (d', 0 + length (dynamic_rows (cx_db c)))"
      "dynamic_rows d' = dynamic_rows (cx_db c)" "submissions d' = submissions (cx_db c)" "solve_rows d' = solve_rows (cx_db c)"
      "users d' = users (cx_db c)" "teams d' = teams (cx_db c)" "\<forall>r\<in>set (dynamic_rows (cx_db c)). value_current (cx_conf c) d' r"
    using resync_all[OF assms(1) subset_refl _ assms(3), of 0] assms(2) by (auto simp: list_all_iff)
  ultimately show ?thesis using assms(4)
    by (intro exI[of _ d']) (simp add: resync_dynamic_challenges_def admins_only_def Let_def values_current_def list_all_iff)
qed

section \<open>Instances\<close>

text \<open>A shift by more minutes than a date can take is not caught.\<close>

lemma far_offset_raises: "day_bound (\<lambda>_. Some 0) False ''2024-01-01'' ''99999999999999999'' = Inl (RuntimeError ''date value out of range'')"
  by code_simp

theorem resync_restores_values_witness:
  "\<exists>d'. resync_dynamic_challenges edit_ctx = Inr (Body (1, d')) \<and> values_current (cx_conf edit_ctx) d'"
proof -
  have v: "list_all valid_dynamic (dynamic_rows (cx_db edit_ctx))" "length (dynamic_rows (cx_db edit_ctx)) = 1" "yes (is_admin edit_ctx)"
    "is_users_mode (cx_conf edit_ctx) \<or> is_teams_mode (cx_conf edit_ctx)"
    by code_simp+
  from resync_restores_values[OF edit_ctx_ok(1) v(1) v(4) v(3)] v(2) show ?thesis by auto
qed

end
