(* ===== verification/StaffGate.thy ===== *)
theory StaffGate imports Access begin

text \<open>
  The last steps in front of every handler, registered by \<open>create_app\<close> (\<^verbatim>\<open>__init__.py\<close>) after
  those of \<open>Access\<close>: the guard of the API documentation and the guard that keeps everybody but the
  staff out of this application.  \<open>path\<close> is the path of the request.
\<close>

section \<open>The guards\<close>

definition staff :: "ctx \<Rightarrow> bool" where
  "staff c = (yes (is_admin c) \<or> yes (is_challenge_writer c) \<or> yes (is_jury c))"

definition open_prefixes :: "string list" where
  "open_prefixes = [''/themes/'', ''/static/'', ''/favicon'', ''/files'', ''/login'', ''/logout'', ''/oauth'', ''/redirect'', ''/reset_password'',
     ''/confirm'', ''/teams/invite'', ''/setup'']"

definition open_path :: "string \<Rightarrow> bool" where
  "open_path path = (path = ''/healthcheck'' \<or> path = ''/'' \<or> list_ex (\<lambda>p. starts_with p path) open_prefixes)"

definition restrict_non_staff_access :: "string \<Rightarrow> step" where
  "restrict_non_staff_access path c =
     (if open_path path \<or> staff c then pass c
      else if authed c \<or> starts_with ''/api'' path \<or> is_json c then (Inl (HTTPAbort 403), cx_session c)
      else stop c (RedirectTo ''auth.login''))"

text \<open>\<open>endpoint\<close> is the configured path of the Swagger pages.\<close>

definition is_swagger_ui :: "string \<Rightarrow> string \<Rightarrow> bool" where
  "is_swagger_ui endpoint path = (let e = (if starts_with ''/'' endpoint then endpoint else ''/'' @ endpoint) in
     if e = ''/'' then path = ''/api/v1/'' \<or> path = ''/api/v1''
     else path = ''/api/v1'' @ e \<or> path = ''/api/v1'' @ e @ ''/'')"

definition restrict_swagger_to_admins :: "string option \<Rightarrow> string \<Rightarrow> step" where
  "restrict_swagger_to_admins endpoint path c = (case endpoint of
       None \<Rightarrow> pass c
     | Some e \<Rightarrow>
         if e = [] \<or> \<not> (is_swagger_ui e path \<or> path = ''/api/v1/swagger.json'' \<or> starts_with ''/swaggerui/'' path) then pass c
         else if yes (is_admin c) then pass c
         else if is_swagger_ui e path \<and> \<not> is_json c then stop c (RedirectTo ''auth.login'')
         else (Inl (HTTPAbort 403), cx_session c))"

text \<open>Everything in front of a handler, in the order of registration.\<close>

definition request_pipeline :: "bool \<Rightarrow> (string option \<Rightarrow> bool option) \<Rightarrow> string \<Rightarrow> string \<Rightarrow> string option \<Rightarrow> string \<Rightarrow> step" where
  "request_pipeline importing view nonce1 nonce2 swagger path =
     run_steps [init_request_processors importing view nonce1 nonce2, restrict_swagger_to_admins swagger path, restrict_non_staff_access path]"

section \<open>Who gets through\<close>

lemma restrict_non_staff_passed: "restrict_non_staff_access path c = (Inr None, s) \<longleftrightarrow> s = cx_session c \<and> (open_path path \<or> staff c)"
  by (auto simp: restrict_non_staff_access_def pass_def stop_def split: if_splits)

lemma restrict_swagger_session: "restrict_swagger_to_admins e path c = (Inr None, s) \<Longrightarrow> s = cx_session c"
  by (auto simp: restrict_swagger_to_admins_def pass_def stop_def split: if_splits option.splits)

lemma staff_account:
  assumes "staff c"
  shows "authed c \<and> (\<exists>u. session_user c = Some u \<and> user_type u \<in> {''admin'', ''challenge_writer'', ''jury''})"
  using assms
  by (auto simp: staff_def is_admin_def is_challenge_writer_def is_jury_def has_role_def get_current_user_attrs_def
      split: if_splits option.splits)

lemma request_pipeline_passed:
  assumes "request_pipeline importing view n1 n2 swagger path c = (Inr None, s)"
  shows "init_request_processors importing view n1 n2 c = (Inr None, s)" "open_path path \<or> staff (c\<lparr>cx_session := s\<rparr>)"
proof -
  from assms obtain s1 s2 where p: "init_request_processors importing view n1 n2 c = (Inr None, s1)"
    "restrict_swagger_to_admins swagger path (c\<lparr>cx_session := s1\<rparr>) = (Inr None, s2)"
    "restrict_non_staff_access path (c\<lparr>cx_session := s1, cx_session := s2\<rparr>) = (Inr None, s)"
    unfolding request_pipeline_def run_steps_passed by (auto simp: pass_def)
  then have "s2 = s1" by (auto dest: restrict_swagger_session)
  with p(3) have "s = s1" "open_path path \<or> staff (c\<lparr>cx_session := s1\<rparr>)" by (auto simp: restrict_non_staff_passed)
  with p(1) show "init_request_processors importing view n1 n2 c = (Inr None, s)" "open_path path \<or> staff (c\<lparr>cx_session := s\<rparr>)" by auto
qed

text \<open>
  Property C28: outside the open pages, sign-in, set-up, files, assets and invitations, a request
  reaches its handler only under a session, or an access token, of an account that is an
  administrator, a challenge writer or a jury member.
\<close>

theorem only_staff_served:
  assumes "request_pipeline importing view n1 n2 swagger path c = (Inr None, s)" "\<not> open_path path"
  shows "\<exists>i u. se_id s = Some i \<and> user_by_id (cx_db c) i = Some u \<and> user_type u \<in> {''admin'', ''challenge_writer'', ''jury''}"
proof -
  have "staff (c\<lparr>cx_session := s\<rparr>)" using request_pipeline_passed(2)[OF assms(1)] assms(2) by simp
  from staff_account[OF this] show ?thesis by (auto simp: session_user_def split: option.splits)
qed

text \<open>
  Also proved: no request of a contestant reaches a handler of the API, the endpoints written for
  contestants among them, unless it changes the session by a token of somebody else.
\<close>

theorem contestant_stopped:
  assumes "session_user c = Some u" "user_type u = ''user''" "authed c" "rq_authorization (cx_request c) = None" "starts_with ''/api'' path"
  shows "\<nexists>s. request_pipeline importing view n1 n2 swagger path c = (Inr None, s)"
proof
  assume "\<exists>s. request_pipeline importing view n1 n2 swagger path c = (Inr None, s)"
  then obtain s where s: "request_pipeline importing view n1 n2 swagger path c = (Inr None, s)" ..
  then obtain s1 s2 s3 where p: "needs_setup importing c = (Inr None, s1)" "banned (c\<lparr>cx_session := s1\<rparr>) = (Inr None, s2)"
      "token_login n1 (c\<lparr>cx_session := s1, cx_session := s2\<rparr>) = (Inr None, s3)"
      "csrf view n2 (c\<lparr>cx_session := s1, cx_session := s2, cx_session := s3\<rparr>) = (Inr None, s)"
    using request_pipeline_passed(1)[OF s] unfolding init_request_processors_def run_steps_passed by (auto simp: pass_def)
  have "s1 = cx_session c" using p(1) by (rule needs_setup_passed)
  moreover have "s2 = s1" using banned_passed[OF p(2)] by simp
  moreover have "s3 = s2" using p(3) assms(4) by (simp add: token_login_def pass_def)
  ultimately have "se_id s = se_id (cx_session c)"
    using p(4) by (auto simp: csrf_def pass_def Let_def split: option.splits bool.splits if_splits)
  moreover have "\<not> open_path path"
  proof -
    have "take (length ''/api'') path = ''/api''" using assms(5) unfolding starts_with_def by simp
    then obtain r where "path = ''/api'' @ r" by (metis append_take_drop_id)
    then show ?thesis by (simp add: open_path_def open_prefixes_def starts_with_def)
  qed
  ultimately have "staff (c\<lparr>cx_session := s\<rparr>)" "session_user (c\<lparr>cx_session := s\<rparr>) = Some u"
    using request_pipeline_passed(2)[OF s] assms(1) by (simp_all add: session_user_def cong: option.case_cong)
  with staff_account[of "c\<lparr>cx_session := s\<rparr>"] assms(2) show False by auto
qed

text \<open>
  The roles are read without the digest of the password: a session of an administrator made
  before his password was changed is still served, by handlers that never ask for the user.
\<close>

lemma stale_admin_served:
  assumes "session_user c = Some u" "user_type u = ''admin''" "authed c" "stale_session c u"
  shows "staff c \<and> admins_only c f = f \<and> (\<exists>e. get_current_user c = Inl e)"
  using assms by (simp add: staff_def is_admin_def get_current_user_attrs_def admins_only_def get_current_user_def)

section \<open>Witnesses\<close>

definition staff_session :: ctx where
  "staff_session = sample_ctx ((sample_user 7 None)\<lparr>us_type := Some ''jury''\<rparr>) (Some 7) ''GET'' None"

theorem only_staff_served_witness: "\<exists>u. user_by_id (cx_db staff_session) 7 = Some u \<and> user_type u \<in> {''admin'', ''challenge_writer'', ''jury''}"
proof -
  have r: "request_pipeline False plain_view ''a'' ''b'' None ''/api/v1/flags'' staff_session = (Inr None, cx_session staff_session)" "\<not> open_path ''/api/v1/flags''"
    "se_id (cx_session staff_session) = Some 7"
    by code_simp+
  from only_staff_served[OF r(1,2)] r(3) show ?thesis by auto
qed

end
