(* ===== verification/SessionStore.thy ===== *)
theory SessionStore imports PyVal begin

text \<open>
  The session interface of \<^verbatim>\<open>utils/sessions/__init__.py\<close>: sessions live in the cache under a
  prefixed id, and the cookie is the signed id.  The cache is a dictionary (entries may also expire, which is a
  deletion), the serializer, the signature and the stream of fresh ids are parameters.
\<close>

section \<open>Sessions\<close>

type_synonym session_cache = "(string \<times> string) list"

record cached_session =
  sn_data :: dict
  sn_sid :: "string option"
  sn_modified :: bool

text \<open>\<open>regenerate\<close> deletes the entry named by the bare id.\<close>

definition regenerate :: "cached_session \<Rightarrow> session_cache \<Rightarrow> cached_session \<times> session_cache" where
  "regenerate s cache = (s\<lparr>sn_sid := None, sn_modified := True\<rparr>, (case sn_sid s of None \<Rightarrow> cache | Some i \<Rightarrow> del i cache))"

text \<open>Ids are drawn until one has no entry; the answer is the rest of the stream too.\<close>

fun generate_sid :: "string \<Rightarrow> session_cache \<Rightarrow> string list \<Rightarrow> (string \<times> string list) option" where
  "generate_sid prefix cache [] = None"
| "generate_sid prefix cache (i # ids) =
     (case map_of cache (prefix @ i) of
        None \<Rightarrow> Some (i, ids)
      | Some v \<Rightarrow> if v = [] then Some (i, ids) else generate_sid prefix cache ids)"

definition new_session :: "string \<Rightarrow> cached_session" where
  "new_session i = \<lparr>sn_data = [], sn_sid = Some i, sn_modified = False\<rparr>"

text \<open>The interface: its prefix, whether ids are signed, and the library's functions.\<close>

record interface =
  if_prefix :: string
  if_use_signer :: bool
  if_sign :: "string \<Rightarrow> string"
  if_unsign :: "string \<Rightarrow> string option"
  if_dumps :: "dict \<Rightarrow> string"
  if_loads :: "string \<Rightarrow> dict option"

definition stored_session :: "interface \<Rightarrow> session_cache \<Rightarrow> string \<Rightarrow> cached_session" where
  "stored_session f cache i = (case map_of cache (if_prefix f @ i) of
      None \<Rightarrow> new_session i
    | Some v \<Rightarrow> (case if_loads f v of None \<Rightarrow> new_session i | Some d \<Rightarrow> (new_session i)\<lparr>sn_data := d\<rparr>))"

definition open_session :: "interface \<Rightarrow> session_cache \<Rightarrow> string list \<Rightarrow> string option \<Rightarrow> (cached_session \<times> string list) option" where
  "open_session f cache ids cookie =
     (let fresh = map_option (\<lambda>(i, r). (new_session i, r)) (generate_sid (if_prefix f) cache ids) in
      case cookie of None \<Rightarrow> fresh
      | Some v \<Rightarrow> if v = [] then fresh
          else if if_use_signer f
          then (case if_unsign f v of None \<Rightarrow> fresh | Some i \<Rightarrow> Some (stored_session f cache i, ids))
          else Some (stored_session f cache v, ids))"

datatype cookie_action = KeepCookie | DropCookie | SetCookie string

text \<open>Saving a session: the cache and the cookie of the answer.\<close>

definition save_session :: "interface \<Rightarrow> session_cache \<Rightarrow> string list \<Rightarrow> cached_session \<Rightarrow> (py_exc + session_cache \<times> cookie_action) option" where
  "save_session f cache ids s =
     (if sn_data s = [] then
        (if sn_modified s
         then Some (case sn_sid s of None \<Rightarrow> Inl TypeError | Some i \<Rightarrow> Inr (del (if_prefix f @ i) cache, DropCookie))
         else Some (Inr (cache, KeepCookie)))
      else if sn_modified s
      then map_option (\<lambda>(i, _). Inr (put (if_prefix f @ i) (if_dumps f (sn_data s)) cache, SetCookie (if if_use_signer f then if_sign f i else i)))
        (case sn_sid s of None \<Rightarrow> generate_sid (if_prefix f) cache ids | Some i \<Rightarrow> Some (i, ids))
      else Some (Inr (cache, KeepCookie)))"

section \<open>What a cookie opens\<close>

text \<open>The library's promise: a signature is accepted exactly for the id it was made for.\<close>

definition sound_signer :: "interface \<Rightarrow> bool" where
  "sound_signer f = ((\<forall>i. if_unsign f (if_sign f i) = Some i \<and> if_sign f i \<noteq> []) \<and>
     (\<forall>v i. if_unsign f v = Some i \<longrightarrow> v = if_sign f i))"

lemma generate_sid_free:
  "generate_sid prefix cache ids = Some (i, r) \<Longrightarrow> i \<in> set ids \<and> (case map_of cache (prefix @ i) of None \<Rightarrow> True | Some v \<Rightarrow> v = [])"
  by (induction ids) (auto split: option.splits if_splits)

text \<open>
  Also proved: what a request leaves in its session is what the next request with the cookie finds, under
  the same id, and entries of other ids are untouched.
\<close>

theorem session_round_trip:
  assumes "sound_signer f" "save_session f cache ids s = Some (Inr (cache', SetCookie v))" "if_use_signer f"
    and "if_loads f (if_dumps f (sn_data s)) = Some (sn_data s)"
  shows "\<exists>i. open_session f cache' ids' (Some v) = Some (\<lparr>sn_data = sn_data s, sn_sid = Some i, sn_modified = False\<rparr>, ids') \<and>
    (sn_sid s \<noteq> None \<longrightarrow> sn_sid s = Some i) \<and> (\<forall>k. k \<noteq> if_prefix f @ i \<longrightarrow> map_of cache' k = map_of cache k)"
proof -
  obtain i r where i: "(case sn_sid s of None \<Rightarrow> generate_sid (if_prefix f) cache ids | Some i \<Rightarrow> Some (i, ids)) = Some (i, r)"
    and c: "cache' = put (if_prefix f @ i) (if_dumps f (sn_data s)) cache" "v = if_sign f i"
    using assms(2,3) by (auto simp: save_session_def split: if_splits option.splits)
  have l: "if_unsign f v = Some i" "v \<noteq> []" using assms(1) c(2) by (auto simp: sound_signer_def)
  have "stored_session f cache' i = \<lparr>sn_data = sn_data s, sn_sid = Some i, sn_modified = False\<rparr>"
    using assms(4) by (simp add: stored_session_def c(1) new_session_def)
  then show ?thesis using i l assms(3) c(1)
    by (intro exI[of _ i]) (auto simp: open_session_def Let_def split: option.splits)
qed

text \<open>
  Also proved: whoever presents a cookie gets the data of an id only with the signature of that id;
  every other cookie opens a new, empty session under an id nobody has data under.
\<close>

theorem session_needs_signature:
  assumes "sound_signer f" "if_use_signer f" "open_session f cache ids cookie = Some (s, r)" "sn_data s \<noteq> []"
  shows "\<exists>i. sn_sid s = Some i \<and> cookie = Some (if_sign f i) \<and>
    (\<exists>v. map_of cache (if_prefix f @ i) = Some v \<and> if_loads f v = Some (sn_data s))"
proof -
  have fresh: False if "map_option (\<lambda>(i, r). (new_session i, r)) (generate_sid (if_prefix f) cache ids) = Some (s, r)"
    using that assms(4) by (auto simp: new_session_def)
  then obtain v i where v: "cookie = Some v" "if_unsign f v = Some i" "s = stored_session f cache i"
    using assms(2,3) by (auto simp: open_session_def Let_def split: option.splits if_splits)
  have "v = if_sign f i" using assms(1) v(2) by (simp add: sound_signer_def)
  with v(1,3) assms(4) show ?thesis
    by (auto simp: stored_session_def new_session_def split: option.splits)
qed

text \<open>
  Also proved: a regenerated session gets an id nobody has data under: a cookie that was planted
  before the sign-in never opens the session after it.
\<close>

theorem regenerated_session_is_fresh:
  assumes "sound_signer f" "if_use_signer f" "regenerate s cache = (s1, cache1)" "sn_data s' \<noteq> []"
    and "save_session f cache1 ids (s1\<lparr>sn_data := sn_data s'\<rparr>) = Some (Inr (cache2, SetCookie v))"
    and "map_of cache1 (if_prefix f @ i) = Some w" "w \<noteq> []"
  shows "v \<noteq> if_sign f i \<and> map_of cache2 (if_prefix f @ i) = Some w"
proof -
  have s1: "sn_sid s1 = None" using assms(3) by (auto simp: regenerate_def)
  from assms(5,4,2) s1 obtain j r where j: "generate_sid (if_prefix f) cache1 ids = Some (j, r)"
    and c: "cache2 = put (if_prefix f @ j) (if_dumps f (sn_data s')) cache1" "v = if_sign f j"
    by (auto simp: save_session_def split: if_splits)
  have "j \<noteq> i" using generate_sid_free[OF j] assms(6,7) by auto
  moreover have "if_unsign f (if_sign f i) = Some i" "if_unsign f (if_sign f j) = Some j"
    using assms(1) by (auto simp: sound_signer_def)
  ultimately show ?thesis using c assms(6) by auto
qed

section \<open>The old entry stays\<close>

text \<open>\<open>regenerate\<close> names the entry without its prefix: the session before the sign-in can still be opened.\<close>

lemma regenerate_keeps_entry:
  assumes "if_prefix f \<noteq> []" "sn_sid s = Some i"
  shows "map_of (snd (regenerate s cache)) (if_prefix f @ i) = map_of cache (if_prefix f @ i)"
  using assms by (simp add: regenerate_def)

text \<open>A session that is emptied after it was regenerated cannot be saved.\<close>

lemma emptied_after_regenerate: "save_session f cache ids ((fst (regenerate s cache0))\<lparr>sn_data := []\<rparr>) = Some (Inl TypeError)"
  by (simp add: save_session_def regenerate_def)

section \<open>Instances\<close>

text \<open>A toy signature and a store of one kind of session.\<close>

definition quoted_interface :: interface where
  "quoted_interface = \<lparr>if_prefix = ''session'', if_use_signer = True, if_sign = (\<lambda>i. CHR ''s'' # i),
     if_unsign = (\<lambda>v. case v of [] \<Rightarrow> None | c # i \<Rightarrow> if c = CHR ''s'' then Some i else None),
     if_dumps = (\<lambda>d. if d = [(''id'', PInt 7)] then ''seven'' else ''none''), if_loads = (\<lambda>t. if t = ''seven'' then Some [(''id'', PInt 7)] else None)\<rparr>"

lemma saved_and_opened:
  "save_session quoted_interface [(''sessiona'', ''old'')] [''a'', ''b''] \<lparr>sn_data = [(''id'', PInt 7)], sn_sid = None, sn_modified = True\<rparr> =
     Some (Inr ([(''sessiona'', ''old''), (''sessionb'', ''seven'')], SetCookie ''sb''))"
  "open_session quoted_interface [(''sessiona'', ''old''), (''sessionb'', ''seven'')] [] (Some ''sb'') =
     Some (\<lparr>sn_data = [(''id'', PInt 7)], sn_sid = Some ''b'', sn_modified = False\<rparr>, [])"
  by (simp_all add: save_session_def open_session_def stored_session_def new_session_def quoted_interface_def put_def)

lemma quoted_sound: "sound_signer quoted_interface"
  by (auto simp: sound_signer_def quoted_interface_def split: list.splits if_splits)

theorem session_round_trip_witness:
  "\<exists>i. open_session quoted_interface [(''sessiona'', ''old''), (''sessionb'', ''seven'')] [] (Some ''sb'') =
    Some (\<lparr>sn_data = [(''id'', PInt 7)], sn_sid = Some i, sn_modified = False\<rparr>, [])"
  using session_round_trip[OF quoted_sound saved_and_opened(1), of "[]"] by (auto simp: quoted_interface_def)

theorem session_needs_signature_witness:
  "\<exists>i. Some ''sb'' = Some (if_sign quoted_interface i) \<and> Some ''b'' = Some i"
  using session_needs_signature[OF quoted_sound _ saved_and_opened(2)] by (auto simp: quoted_interface_def)

end
