(* ===== verification/Spec2Isabelle.thy ===== *)
theory Spec2Isabelle imports Attempt Scoreboard AwardsApi LoginLimit TeamsApi ChallengeEdit Rewards Poller Login ConfigApi Statistics AdminTools StaffGate SessionStore begin

text \<open>
  A verification development of the FCTF management platform, the Flask application under
  \<^verbatim>\<open>src/FCTF-ManagementPlatform/CTFd\<close> (paths below are relative to it).

  \<^bold>\<open>The program.\<close>  Organisers publish challenges, contestants (users, in teams or alone) submit
  answers, and a correct answer becomes a row of the solve table.  Scores are queries over solves
  and awards; the value of a dynamic challenge is a function of its number of solves and is
  stored again whenever an answer is given, entered, re-graded or deleted (the poller, and the
  deletion of a member, a user or a team, do not recalculate it).  Everything else hangs on this core: hints are bought with
  awards of negative value, scoreboards rank the queries, rewards query them, a poller turns finished runs of
  an external cyber range into solves, a deployment service runs the instances of challenges,
  and the account endpoints decide who a row belongs to.  Every request passes the pipeline of
  \<^verbatim>\<open>utils/initialization\<close> (setup, bans, bearer tokens, nonce), the guard that keeps everybody but the staff to a few
  open pages, and the decorators of its handler.

  \<^bold>\<open>How code becomes definitions.\<close>  A table is a list of records, one field per column, and the
  database a record of tables; a request is a record of the facts the handlers read (the session, the
  configuration, the clock, the database before).  A handler is a function to \<open>py_exc + reply\<close>: the left summand is the exception the
  code lets escape, and a database in the reply is the state after the commit.  JSON and form
  values are the datatype \<open>pyval\<close>, with truthiness, \<open>int()\<close>, comparison and \<open>isinstance\<close>
  written out.  Integers are unbounded as in Python; floats that the code only compares or adds
  are rationals.

  \<^bold>\<open>Theories, from the bottom.\<close>
  \<^item> \<open>Prelude\<close>: the error monad, dictionaries, table scans and the rule collections.  \<open>PyVal\<close>:
    Python values, exceptions and string primitives.
  \<^item> \<open>Validators\<close>: \<^verbatim>\<open>utils/validators\<close>.  \<open>ConfigStore\<close>: \<^verbatim>\<open>utils/__init__.py\<close>, \<^verbatim>\<open>utils/config\<close>,
    \<^verbatim>\<open>utils/dates\<close>, \<^verbatim>\<open>utils/modes\<close>; the memoised store refines a plain map.
  \<^item> \<open>Models\<close>: the tables of \<^verbatim>\<open>models/__init__.py\<close> and their properties.  \<open>Access\<close>: users, roles,
    sessions, tokens, decorators, visibility and the request pipeline.
  \<^item> \<open>Decay\<close>, \<open>Flags\<close>, \<open>Scoring\<close>: the value functions, the judging of answers, and the
    scoring transaction with its invariant over any history of answers and deletions.
  \<^item> \<open>Challenges\<close>: listing, detail, gates, the hiding of dependents, rollback of versions.
    \<open>Attempt\<close>: the submission endpoint composed from all of these, with limits and cooldown.
  \<^item> \<open>Standings\<close>, \<open>Honours\<close>, \<open>Scoreboard\<close>: \<^verbatim>\<open>utils/scores\<close> and the scoreboard endpoints.
  \<^item> \<open>SubmissionsApi\<close>, \<open>ChallengeEdit\<close>, \<open>HintShop\<close>, \<open>AwardsApi\<close>: the other writers of the
    core tables.  \<open>LoginLimit\<close>: the counters of login attempts.
  \<^item> \<open>Json\<close>, \<open>Encoding\<close>, \<open>Invites\<close>: invite codes, from JSON text over base64 to the signed code and back.
  \<^item> \<open>Profiles\<close>, \<open>UsersApi\<close>, \<open>TeamsApi\<close>, \<open>Login\<close>: the account schemas, the account endpoints, the
    sign-in pages.
  \<^item> \<open>Rewards\<close>: \<^verbatim>\<open>utils/rewards\<close> and \<^verbatim>\<open>admin/rewards.py\<close>.  \<open>Poller\<close>: \<^verbatim>\<open>utils/kypo_poller.py\<close>.
  \<^item> \<open>Deployment\<close>, \<open>Instances\<close>: the deployment service, uploads with their version history, and the
    operation of running instances.
  \<^item> \<open>ContentApi\<close>: flags, tags, topics, comments, brackets and access tokens.  \<open>Statistics\<close>:
    \<^verbatim>\<open>api/v1/statistics\<close>, with the percentages and the index of difficulty as rationals.
    \<open>ConfigApi\<close>: the configuration API over the memoised store, and the custom fields.
  \<^item> \<open>StaffGate\<close>: the guards of \<^verbatim>\<open>__init__.py\<close> in front of every handler.  \<open>SessionStore\<close>: the session
    interface of \<^verbatim>\<open>utils/sessions\<close>.  \<open>AdminTools\<close>: tickets, the listing of answers and the new calculation of the
    dynamic values in \<^verbatim>\<open>admin\<close>.

  \<^bold>\<open>What is proved.\<close>  A component has its invariant, kept by each of its operations and by any
  sequence of them (an \<open>inductive\<close> step relation with rule induction); the exact effect of its
  operations, refusals and exceptions included; and what it promises its clients.  Each property has a
  number C1, C2, ... at its theorem; theorems headed ``Also proved'' are results
  beside these.  A property with a hypothesis is followed by a witness, an application at concrete
  data.  Interfaces are locales interpreted on the model's own definitions: the configuration store
  (\<open>config_api\<close>), the login counter and the Redis commands that implement it (\<open>login_counter\<close>,
  \<open>redis_commands\<close>) and the contract every scoreboard keeps towards the places and
  views (\<open>scoreboard\<close>).  Several lemmas state faults of the code; they are theorems about the code as it is.

  \<^bold>\<open>Bounds and fuel.\<close>  The JSON reader runs on fuel, the length of its text: each step
  consumes a character, and \<open>json_fuel\<close> shows that more changes nothing.  The hiding cascade needs none: the
  stack and the challenges not yet seen are its measure.  The listing of range instances and the scan of stored
  progress may not end; they are partial functions, with theorems that say when they return.

  \<^bold>\<open>Assumptions.\<close>  Third-party code is a parameter: password hashing, signatures, MD5 and HMAC,
  regular expressions, serialisers of JSON responses, the marshmallow field converters, Redis answers, HTTP answers and
  archives.  A new row takes an id above all ids of its table.  Tables are in the order of their
  primary key, which is the order of a query without ORDER BY.  A handler runs as one
  transaction: what its locks serialise is modelled, interleavings below that level are not.  Strings are sequences of
  Latin-1 characters.  Where a query compares text with an argument of a request by the collation of the column and
  it matters (keys of the configuration, names at the sign-in), the collation is a parameter; other comparisons of
  text are exact.  Cached pages and query results are read as the database they were computed from.

  \<^bold>\<open>Not modelled.\<close>  The other administration pages, forms and templates (queries handed to templates);
  file storage, exports, imports and CSV (I/O around the database library); the audit log (written, never read by
  an operation of the model); the start-up of the application, plugins and the setup wizard; clients of mail
  servers and of the identity server; schema migrations and the migration tool between
  databases; and the services that are not Python: the gateway (Go), the deployment services (C#),
  the contestant portal (TypeScript), with their cluster files and the test suites.
\<close>

end
